(* ===== verification/Prelude.thy ===== *)
theory Prelude
  imports Main
begin

text \<open>
  What the component theories share: the types of Go values, the string and integer operations of
  Go's standard library that the sources call, results with errors, and three interfaces stated as
  locales (a machine with an invariant, a machine with a one-shot success, an encoder with its
  decoder). Bytes and strings are both \<^typ>\<open>char list\<close>: a Go string is a byte sequence. Instants are
  nanoseconds since Go's zero time (0001-01-01T00:00:00Z), durations are nanoseconds.
\<close>

named_theorems go_simps \<open>evaluation rules of the Go library model\<close>
named_theorems table_simps \<open>lookups and counts after SQL statements\<close>
named_theorems frame_simps \<open>tables and fields an operation leaves alone\<close>

type_synonym bytes = "char list"
type_synonym time = int
type_synonym duration = int

text \<open>The environment's answer to each fallible call of an operation, by the message the source
  wraps that call's error with: \<open>True\<close> means this call fails.\<close>

type_synonym faults = "string \<Rightarrow> bool"

abbreviation no_faults :: faults where
  "no_faults \<equiv> (\<lambda>_. False)"

definition Nanosecond :: duration where "Nanosecond = 1"
definition Second :: duration where "Second = 1000000000"
definition Minute :: duration where "Minute = 60000000000"

lemmas duration_units = Nanosecond_def Second_def Minute_def

text \<open>Two's complement wrap-around of a 64-bit signed result (Go's \<open>int64\<close> and \<open>int\<close>).\<close>

definition wrap64 :: "int \<Rightarrow> int" where
  "wrap64 x = (x + 2 ^ 63) mod 2 ^ 64 - 2 ^ 63"

text \<open>Go's integer division truncates towards zero.\<close>

definition quot :: "int \<Rightarrow> int \<Rightarrow> int" where
  "quot a b = sgn a * sgn b * (\<bar>a\<bar> div \<bar>b\<bar>)"

text \<open>\<open>strings.HasPrefix\<close>, \<open>strings.Contains\<close> with a one-byte needle, \<open>strings.ReplaceAll\<close> of one
  byte by nothing, and the byte order of \<open>memcmp\<close> (SQLite's comparison of text).\<close>

definition hasPrefix :: "string \<Rightarrow> string \<Rightarrow> bool" where
  "hasPrefix s p = (take (length p) s = p)"

definition hasSuffix :: "string \<Rightarrow> string \<Rightarrow> bool" where
  "hasSuffix s p = (length p \<le> length s \<and> drop (length s - length p) s = p)"

definition dropByte :: "char \<Rightarrow> string \<Rightarrow> string" where
  "dropByte c s = filter (\<lambda>x. x \<noteq> c) s"

abbreviation byte :: "char \<Rightarrow> nat" where
  "byte c \<equiv> of_char c"

fun str_le :: "string \<Rightarrow> string \<Rightarrow> bool" where
  "str_le [] ys = True"
| "str_le (x # xs) [] = False"
| "str_le (x # xs) (y # ys) = (byte x < byte y \<or> (x = y \<and> str_le xs ys))"

text \<open>\<open>strings.TrimSpace\<close>: the UTF-8 encodings of Unicode's White\_Space runes, stripped from both
  ends.\<close>

definition space_runes :: "string list" where
  "space_runes =
     map (\<lambda>b. [char_of (b::nat)]) [9, 10, 11, 12, 13, 32] @
     map (\<lambda>bs. map char_of bs)
       ([[194, 133], [194, 160], [225, 154, 128], [226, 128, 168], [226, 128, 169],
         [226, 128, 175], [226, 129, 159], [227, 128, 128]] @
        map (\<lambda>b. [226, 128, b]) [(128::nat) ..< 139])"

definition find_rune :: "(string \<Rightarrow> bool) \<Rightarrow> string option" where
  "find_rune p = find p space_runes"

lemma space_runes_nonempty: "r \<in> set space_runes \<Longrightarrow> r \<noteq> []"
  by (auto simp: space_runes_def)

lemma find_rune_nonempty: "find_rune p = Some r \<Longrightarrow> 0 < length r \<and> p r"
  by (auto simp: find_rune_def find_Some_iff dest: space_runes_nonempty [OF nth_mem])

function trimLeftSpace :: "string \<Rightarrow> string" where
  "trimLeftSpace s =
     (case find_rune (hasPrefix s) of
        None \<Rightarrow> s
      | Some r \<Rightarrow> trimLeftSpace (drop (length r) s))"
  by pat_completeness auto
termination
proof (relation "measure length", goal_cases)
  case (2 s r)
  then have "0 < length r" "hasPrefix s r"
    by (auto dest: find_rune_nonempty)
  then show ?case
    by (cases s) (auto simp: hasPrefix_def)
qed simp

function trimRightSpace :: "string \<Rightarrow> string" where
  "trimRightSpace s =
     (case find_rune (hasSuffix s) of
        None \<Rightarrow> s
      | Some r \<Rightarrow> trimRightSpace (take (length s - length r) s))"
  by pat_completeness auto
termination
proof (relation "measure length", goal_cases)
  case (2 s r)
  then have "0 < length r" "hasSuffix s r"
    by (auto dest: find_rune_nonempty)
  then show ?case
    by (cases "length r") (auto simp: hasSuffix_def)
qed simp

declare trimLeftSpace.simps [simp del] trimRightSpace.simps [simp del]

definition trimSpace :: "string \<Rightarrow> string" where
  "trimSpace s = trimRightSpace (trimLeftSpace s)"

subsection \<open>Interfaces\<close>

text \<open>A component as a machine: \<open>step\<close> is one call with its result, \<open>inv\<close> what every call keeps.\<close>

fun run :: "('s \<Rightarrow> 'e \<Rightarrow> 's \<times> 'r) \<Rightarrow> 's \<Rightarrow> 'e list \<Rightarrow> 's" where
  "run step s [] = s"
| "run step s (e # es) = run step (fst (step s e)) es"

fun results :: "('s \<Rightarrow> 'e \<Rightarrow> 's \<times> 'r) \<Rightarrow> 's \<Rightarrow> 'e list \<Rightarrow> 'r list" where
  "results step s [] = []"
| "results step s (e # es) = snd (step s e) # results step (fst (step s e)) es"

lemma run_append: "run step s (xs @ ys) = run step (run step s xs) ys"
  by (induction xs arbitrary: s) auto

lemma results_append:
  "results step s (xs @ ys) = results step s xs @ results step (run step s xs) ys"
  by (induction xs arbitrary: s) auto

locale machine =
  fixes step :: "'s \<Rightarrow> 'e \<Rightarrow> 's \<times> 'r"
    and inv :: "'s \<Rightarrow> bool"
  assumes inv_step: "inv s \<Longrightarrow> inv (fst (step s e))"
begin

lemma inv_run: "inv s \<Longrightarrow> inv (run step s es)"
  by (induction es arbitrary: s) (auto intro: inv_step)

end

text \<open>A machine one of whose results is rationed: every \<open>hit\<close> takes from what is \<open>left\<close>, and no \<open>ok\<close> event
  gives anything back.\<close>

locale rationed = machine step inv
  for step :: "'s \<Rightarrow> 'e \<Rightarrow> 's \<times> 'r" and inv :: "'s \<Rightarrow> bool" +
  fixes ok :: "'e \<Rightarrow> bool"
    and hit :: "'e \<Rightarrow> 'r \<Rightarrow> bool"
    and left :: "'s \<Rightarrow> nat"
  assumes hit_takes: "inv s \<Longrightarrow> ok e \<Longrightarrow> hit e (snd (step s e)) \<Longrightarrow> left (fst (step s e)) < left s"
    and left_falls: "inv s \<Longrightarrow> ok e \<Longrightarrow> left (fst (step s e)) \<le> left s"
begin

lemma hits_bounded:
  "inv s \<Longrightarrow> list_all ok es \<Longrightarrow>
   length (filter (\<lambda>(e, r). hit e r) (zip es (results step s es))) \<le> left s"
proof (induction es arbitrary: s)
  case (Cons e es)
  then have "length (filter (\<lambda>(e, r). hit e r) (zip es (results step (fst (step s e)) es)))
      \<le> left (fst (step s e))"
    by (auto intro: inv_step)
  moreover have "left (fst (step s e)) \<le> left s"
    and "hit e (snd (step s e)) \<Longrightarrow> left (fst (step s e)) < left s"
    using Cons.prems by (auto intro: left_falls hit_takes)
  ultimately show ?case by auto
qed simp

end

text \<open>A machine one of whose results can be had once only: after a \<open>hit\<close> the machine is \<open>spent\<close>,
  a \<open>spent\<close> machine stays so under the \<open>ok\<close> events, and gives no further \<open>hit\<close>.\<close>

locale one_shot = machine step inv
  for step :: "'s \<Rightarrow> 'e \<Rightarrow> 's \<times> 'r" and inv :: "'s \<Rightarrow> bool" +
  fixes ok :: "'e \<Rightarrow> bool"
    and hit :: "'e \<Rightarrow> 'r \<Rightarrow> bool"
    and spent :: "'s \<Rightarrow> bool"
  assumes hit_spends: "inv s \<Longrightarrow> ok e \<Longrightarrow> hit e (snd (step s e)) \<Longrightarrow> spent (fst (step s e))"
    and spent_stays: "inv s \<Longrightarrow> ok e \<Longrightarrow> spent s \<Longrightarrow> spent (fst (step s e))"
    and spent_no_hit: "inv s \<Longrightarrow> ok e \<Longrightarrow> spent s \<Longrightarrow> \<not> hit e (snd (step s e))"

sublocale one_shot \<subseteq> once: rationed step inv ok hit "\<lambda>s. if spent s then 0 else 1"
  by unfold_locales (auto dest: hit_spends spent_stays spent_no_hit)

context one_shot
begin

lemma at_most_one_hit:
  "inv s \<Longrightarrow> list_all ok es \<Longrightarrow>
   length (filter (\<lambda>(e, r). hit e r) (zip es (results step s es))) \<le> 1"
  using once.hits_bounded [of s es] by (auto split: if_splits)

lemma spent_no_hits:
  "inv s \<Longrightarrow> list_all ok es \<Longrightarrow> spent s \<Longrightarrow>
   filter (\<lambda>(e, r). hit e r) (zip es (results step s es)) = []"
  using once.hits_bounded [of s es] by simp

end

text \<open>An encoder and its decoder.\<close>

locale codec =
  fixes enc :: "'a \<Rightarrow> string"
    and dec :: "string \<Rightarrow> 'a option"
    and dom :: "'a \<Rightarrow> bool"
  assumes dec_enc: "dom x \<Longrightarrow> dec (enc x) = Some x"
begin

lemma enc_inj: "dom x \<Longrightarrow> dom y \<Longrightarrow> enc x = enc y \<longleftrightarrow> x = y"
  by (metis dec_enc option.inject)

end

subsection \<open>Shared lemmas\<close>

lemma quot_nonneg [go_simps]: "0 \<le> a \<Longrightarrow> 0 < b \<Longrightarrow> quot a b = a div b"
  by (cases "a = 0") (auto simp: quot_def)

lemma wrap64_id [go_simps]: "- (2 ^ 63) \<le> x \<Longrightarrow> x < 2 ^ 63 \<Longrightarrow> wrap64 x = x"
  by (simp add: wrap64_def)

lemma wrap64_range: "- (2 ^ 63) \<le> wrap64 x \<and> wrap64 x < 2 ^ 63"
  by (simp add: wrap64_def)

lemma hasPrefix_append [simp]: "hasPrefix (p @ s) p"
  by (simp add: hasPrefix_def)

lemma hasPrefix_iff: "hasPrefix s p \<longleftrightarrow> (\<exists>t. s = p @ t)"
  by (metis append_take_drop_id hasPrefix_append hasPrefix_def)

lemma str_le_refl [simp]: "str_le xs xs"
  by (induction xs) auto

lemma str_le_antisym: "str_le xs ys \<Longrightarrow> str_le ys xs \<Longrightarrow> xs = ys"
  by (induction xs ys rule: str_le.induct) (auto elim: str_le.elims)

lemma str_le_total: "str_le xs ys \<or> str_le ys xs"
  by (induction xs ys rule: str_le.induct) (auto simp: linorder_neq_iff)

lemma str_le_trans: "str_le xs ys \<Longrightarrow> str_le ys zs \<Longrightarrow> str_le xs zs"
proof (induction xs zs arbitrary: ys rule: str_le.induct)
  case (3 x xs z zs)
  then show ?case by (cases ys) auto
qed (auto elim: str_le.elims)

lemma str_le_append_same [simp]: "str_le (p @ xs) (p @ ys) = str_le xs ys"
  by (induction p) auto

lemma str_le_same_length_append:
  "length xs = length ys \<Longrightarrow> xs \<noteq> ys \<Longrightarrow> str_le (xs @ us) (ys @ vs) = str_le xs ys"
  by (induction xs ys rule: list_induct2) auto

text \<open>Text of visible ASCII bytes has nothing to trim.\<close>

lemma space_runes_ends:
  "r \<in> set space_runes \<Longrightarrow> (byte (hd r) \<le> 32 \<or> 128 \<le> byte (hd r)) \<and> (byte (last r) \<le> 32 \<or> 128 \<le> byte (last r))"
  by (auto simp: space_runes_def)

lemma trimSpace_visible:
  assumes "list_all (\<lambda>c. 32 < byte c \<and> byte c < 128) s"
  shows "trimSpace s = s"
proof -
  have "\<not> hasPrefix s r" if "r \<in> set space_runes" for r
  proof
    assume "hasPrefix s r"
    then have "hd r \<in> set s"
      using space_runes_nonempty [OF that] by (auto simp: hasPrefix_iff)
    with space_runes_ends [OF that] assms show False by (auto simp: list_all_iff)
  qed
  moreover have "\<not> hasSuffix s r" if "r \<in> set space_runes" for r
  proof
    assume "hasSuffix s r"
    then have "last r \<in> set s"
      using space_runes_nonempty [OF that] by (metis hasSuffix_def in_set_dropD last_in_set)
    with space_runes_ends [OF that] assms show False by (auto simp: list_all_iff)
  qed
  ultimately have "find_rune (hasPrefix s) = None" "find_rune (hasSuffix s) = None"
    by (auto simp: find_rune_def find_None_iff)
  then show ?thesis
    by (simp add: trimSpace_def trimLeftSpace.simps [of s] trimRightSpace.simps [of s])
qed

end
