(* ===== verification/Base64.thy ===== *)
theory Base64
  imports Prelude
begin

text \<open>
  Go's \<open>encoding/base64\<close> as the sources use it: \<open>StdEncoding\<close> (padded, alphabet ending in \<open>+/\<close>) for
  ciphertexts, proofs and age fields, and \<open>RawURLEncoding\<close> (no padding, alphabet ending in \<open>-_\<close>) for
  identifiers and capability tokens. \<open>Strict()\<close> refuses non-zero trailing bits. As in Go, decoding
  skips carriage returns and line feeds.
\<close>

definition sextet_char :: "char list \<Rightarrow> nat \<Rightarrow> char" where
  "sextet_char tail n =
     (if n < 26 then char_of (65 + n) else if n < 52 then char_of (97 + (n - 26))
      else if n < 62 then char_of (48 + (n - 52)) else tail ! (n - 62))"

definition char_sextet :: "char list \<Rightarrow> char \<Rightarrow> nat option" where
  "char_sextet tail c =
     (let b = byte c in
      if 65 \<le> b \<and> b < 91 then Some (b - 65) else if 97 \<le> b \<and> b < 123 then Some (b - 97 + 26)
      else if 48 \<le> b \<and> b < 58 then Some (b - 48 + 52)
      else if c = tail ! 0 then Some 62 else if c = tail ! 1 then Some 63 else None)"

definition std_tail :: "char list" where "std_tail = ''+/''"
definition url_tail :: "char list" where "url_tail = ''-_''"

text \<open>The sextets of a byte string, without padding.\<close>

fun to_sextets :: "bytes \<Rightarrow> nat list" where
  "to_sextets [] = []"
| "to_sextets [a] = [byte a div 4, byte a mod 4 * 16]"
| "to_sextets [a, b] = [byte a div 4, byte a mod 4 * 16 + byte b div 16, byte b mod 16 * 4]"
| "to_sextets (a # b # c # xs) =
     [byte a div 4, byte a mod 4 * 16 + byte b div 16, byte b mod 16 * 4 + byte c div 64,
      byte c mod 64] @ to_sextets xs"

text \<open>Back from sextets; \<open>strict\<close> asks for zero trailing bits.\<close>

fun from_sextets :: "bool \<Rightarrow> nat list \<Rightarrow> bytes option" where
  "from_sextets strict [] = Some []"
| "from_sextets strict [p] = None"
| "from_sextets strict [p, q] =
     (if strict \<and> q mod 16 \<noteq> 0 then None else Some [char_of (p * 4 + q div 16)])"
| "from_sextets strict [p, q, r] =
     (if strict \<and> r mod 4 \<noteq> 0 then None
      else Some [char_of (p * 4 + q div 16), char_of (q mod 16 * 16 + r div 4)])"
| "from_sextets strict (p # q # r # s # xs) =
     map_option (\<lambda>ys. [char_of (p * 4 + q div 16), char_of (q mod 16 * 16 + r div 4),
                       char_of (r mod 4 * 64 + s)] @ ys)
       (from_sextets strict xs)"

fun sextets_of :: "char list \<Rightarrow> string \<Rightarrow> nat list option" where
  "sextets_of tail [] = Some []"
| "sextets_of tail (c # cs) =
     (case (char_sextet tail c, sextets_of tail cs) of
        (Some n, Some ns) \<Rightarrow> Some (n # ns) | _ \<Rightarrow> None)"

definition strip_newlines :: "string \<Rightarrow> string" where
  "strip_newlines s = filter (\<lambda>c. byte c \<noteq> 10 \<and> byte c \<noteq> 13) s"

definition rawurl_encode :: "bytes \<Rightarrow> string" where
  "rawurl_encode b = map (sextet_char url_tail) (to_sextets b)"

definition rawurl_decode_strict :: "string \<Rightarrow> bytes option" where
  "rawurl_decode_strict s =
     (case sextets_of url_tail (strip_newlines s) of None \<Rightarrow> None | Some ns \<Rightarrow> from_sextets True ns)"

definition std_encode :: "bytes \<Rightarrow> string" where
  "std_encode b =
     map (sextet_char std_tail) (to_sextets b) @ replicate ((3 - length b mod 3) mod 3) (CHR ''='')"

text \<open>A padded text is a multiple of four characters with at most two trailing \<open>=\<close>.\<close>

definition std_decode_gen :: "bool \<Rightarrow> string \<Rightarrow> bytes option" where
  "std_decode_gen strict s =
     (let s' = strip_newlines s;
          body = rev (dropWhile (\<lambda>c. c = CHR ''='') (rev s'))
      in if length s' mod 4 \<noteq> 0 \<or> 2 < length s' - length body then None
         else (case sextets_of std_tail body of
                 None \<Rightarrow> None | Some ns \<Rightarrow> from_sextets strict ns))"

definition std_decode :: "string \<Rightarrow> bytes option" where
  "std_decode = std_decode_gen False"

definition std_decode_strict :: "string \<Rightarrow> bytes option" where
  "std_decode_strict = std_decode_gen True"

definition std_encodedLen :: "int \<Rightarrow> int" where
  "std_encodedLen n = (n + 2) div 3 * 4"

definition std_decodedLen :: "int \<Rightarrow> int" where
  "std_decodedLen n = n div 4 * 3"

subsection \<open>Round trips\<close>

lemma byte_char_of: "n < 256 \<Longrightarrow> byte (char_of n) = n"
  by simp

lemma sextet_cases:
  assumes "n < (64::nat)"
  obtains "n < 26" | "26 \<le> n" "n < 52" | "52 \<le> n" "n < 62" | "n = 62" | "n = 63"
  using assms by linarith

lemma char_sextet_sextet_char:
  assumes "n < 64" "tail = std_tail \<or> tail = url_tail"
  shows "char_sextet tail (sextet_char tail n) = Some n"
  using assms(1)
  by (cases n rule: sextet_cases)
    (use assms(2) in \<open>auto simp: sextet_char_def char_sextet_def std_tail_def url_tail_def byte_char_of Let_def\<close>)

lemma sextet_char_clean:
  assumes "n < 64" "tail = std_tail \<or> tail = url_tail"
  shows "byte (sextet_char tail n) \<noteq> 10 \<and> byte (sextet_char tail n) \<noteq> 13 \<and>
    byte (sextet_char tail n) \<noteq> 61"
  using assms(1)
  by (cases n rule: sextet_cases)
    (use assms(2) in \<open>auto simp: sextet_char_def std_tail_def url_tail_def byte_char_of\<close>)

lemma sextet_char_not_pad:
  "n < 64 \<Longrightarrow> tail = std_tail \<or> tail = url_tail \<Longrightarrow> sextet_char tail n \<noteq> CHR ''=''"
  using sextet_char_clean by force

lemma byte_less [simp]: "byte c < 256"
  by simp

lemma sextet_bounds:
  "byte a div 4 < 64" "x < 16 \<Longrightarrow> byte a mod 4 * 16 + x < 64" "y < 4 \<Longrightarrow> byte a mod 16 * 4 + y < 64"
  "byte a div 16 < 16" "byte a div 64 < 4"
  using mod_less_divisor [of 4 "byte a"] mod_less_divisor [of 16 "byte a"]
  by (simp_all add: less_mult_imp_div_less)

lemma to_sextets_less: "n \<in> set (to_sextets b) \<Longrightarrow> n < 64"
proof (induction b rule: to_sextets.induct)
  case (2 a)
  then show ?case using sextet_bounds(1) [of a] sextet_bounds(2) [of 0 a] by auto
next
  case (3 a b)
  then show ?case
    using sextet_bounds(1) [of a] sextet_bounds(2) [of "byte b div 16" a] sextet_bounds(4) [of b]
      sextet_bounds(3) [of 0 b] by auto
next
  case (4 a b c xs)
  then show ?case
    using sextet_bounds(1) [of a] sextet_bounds(2) [of "byte b div 16" a] sextet_bounds(4) [of b]
      sextet_bounds(3) [of "byte c div 64" b] sextet_bounds(5) [of c] by auto
qed simp

lemma div_mod_shift:
  "(m::nat) < 16 \<Longrightarrow> (k * 16 + m) div 16 = k" "(m::nat) < 16 \<Longrightarrow> (k * 16 + m) mod 16 = m"
  "(m::nat) < 4 \<Longrightarrow> (k * 4 + m) div 4 = k" "(m::nat) < 4 \<Longrightarrow> (k * 4 + m) mod 4 = m"
  by simp_all

lemma split_byte_1: "a div 4 * 4 + (a mod 4 * 16 + m) div 16 = (a::nat)" if "m < 16"
  by (simp only: div_mod_shift that div_mult_mod_eq)

lemma split_byte_2: "(a mod 4 * 16 + b div 16) mod 16 * 16 + (b mod 16 * 4 + m) div 4 = (b::nat)"
  if "m < 4" "b div 16 < 16"
  by (simp only: div_mod_shift that div_mult_mod_eq)

lemma split_byte_3: "(b mod 16 * 4 + c div 64) mod 4 * 64 + c mod 64 = (c::nat)" if "c div 64 < 4"
  by (simp only: div_mod_shift that div_mult_mod_eq)

lemma from_to_sextets: "from_sextets strict (to_sextets b) = Some b"
proof (induction b rule: to_sextets.induct)
  case (2 a)
  then show ?case using split_byte_1 [of 0 "byte a"] by simp
next
  case (3 a b)
  then show ?case
    using split_byte_1 [of "byte b div 16" "byte a"] split_byte_2 [of 0 "byte b" "byte a"]
      sextet_bounds(4) [of b] by simp
next
  case (4 a b c xs)
  then show ?case
    using split_byte_1 [of "byte b div 16" "byte a"] sextet_bounds(4) [of b] sextet_bounds(5) [of c]
      split_byte_2 [of "byte c div 64" "byte b" "byte a"] split_byte_3 [of "byte c" "byte b"]
    by simp
qed simp

lemma sextets_of_encoded:
  "tail = std_tail \<or> tail = url_tail \<Longrightarrow> \<forall>n\<in>set ns. n < 64 \<Longrightarrow>
   sextets_of tail (map (sextet_char tail) ns) = Some ns"
  by (induction ns) (auto simp: char_sextet_sextet_char)

lemma strip_newlines_encoded:
  "tail = std_tail \<or> tail = url_tail \<Longrightarrow> \<forall>n\<in>set ns. n < 64 \<Longrightarrow>
   strip_newlines (map (sextet_char tail) ns) = map (sextet_char tail) ns"
  by (induction ns) (auto simp: strip_newlines_def dest: sextet_char_clean)

lemma rawurl_decode_encode: "rawurl_decode_strict (rawurl_encode b) = Some b"
  using to_sextets_less [of _ b]
  by (simp add: rawurl_decode_strict_def rawurl_encode_def strip_newlines_encoded sextets_of_encoded
      from_to_sextets)

interpretation rawurl: codec rawurl_encode rawurl_decode_strict "\<lambda>_. True"
  by unfold_locales (rule rawurl_decode_encode)

lemma length_to_sextets: "length (to_sextets b) = (4 * length b + 2) div 3"
  by (induction b rule: to_sextets.induct) auto

lemma length_rawurl_encode: "length (rawurl_encode b) = (4 * length b + 2) div 3"
  by (simp add: rawurl_encode_def length_to_sextets)

lemma padded_length: "(length (to_sextets b) + (3 - length b mod 3) mod 3) mod 4 = 0"
proof (induction b rule: to_sextets.induct)
  case (4 a b c xs)
  have l: "length (a # b # c # xs) = length xs + 3"
      "length (to_sextets (a # b # c # xs)) = length (to_sextets xs) + 4"
    by simp_all
  have "(x + 4 + k) mod 4 = (x + k) mod (4::nat)" for x k
    by presburger
  then show ?case
    unfolding l mod_add_self2 using 4 by simp
qed simp_all

lemma strip_pad: "\<forall>c\<in>set e. c \<noteq> x \<Longrightarrow> rev (dropWhile (\<lambda>c. c = x) (rev (e @ replicate k x))) = e"
  by (cases e rule: rev_cases) (auto simp: dropWhile_append)

lemma std_decode_encode: "std_decode_gen strict (std_encode b) = Some b"
proof -
  let ?e = "map (sextet_char std_tail) (to_sextets b)" and ?k = "(3 - length b mod 3) mod 3"
  have lt: "\<forall>n\<in>set (to_sextets b). n < 64"
    by (simp add: to_sextets_less)
  have s: "strip_newlines (std_encode b) = ?e @ replicate ?k (CHR ''='')"
    using strip_newlines_encoded [OF disjI1 [OF refl] lt]
    by (simp add: std_encode_def strip_newlines_def filter_replicate)
  have "\<forall>c\<in>set ?e. c \<noteq> CHR ''=''"
    using lt sextet_char_not_pad by auto
  then have body: "rev (dropWhile (\<lambda>c. c = CHR ''='') (rev (?e @ replicate ?k (CHR ''='')))) = ?e"
    by (rule strip_pad)
  have len: "length (?e @ replicate ?k (CHR ''='')) mod 4 = 0" "?k \<le> 2"
    using padded_length [of b] by (simp_all add: le_SucI)
  show ?thesis
    unfolding std_decode_gen_def Let_def s body
    using len sextets_of_encoded [OF disjI1 [OF refl] lt]
    by (simp add: from_to_sextets)
qed

interpretation std64: codec std_encode std_decode "\<lambda>_. True"
  by unfold_locales (simp add: std_decode_def std_decode_encode)

lemma rawurl_visible: "list_all (\<lambda>c. 32 < byte c \<and> byte c < 128) (rawurl_encode b)"
proof -
  have "32 < byte (sextet_char url_tail n) \<and> byte (sextet_char url_tail n) < 128" if "n < 64" for n
    using that by (cases n rule: sextet_cases) (auto simp: sextet_char_def url_tail_def byte_char_of)
  then show ?thesis
    by (auto simp: rawurl_encode_def list_all_iff dest!: to_sextets_less)
qed

lemma trimSpace_rawurl [simp]: "trimSpace (rawurl_encode b) = rawurl_encode b"
  by (rule trimSpace_visible [OF rawurl_visible])

lemma rawurl_encode_Nil_iff [simp]: "rawurl_encode b = [] \<longleftrightarrow> b = []"
  using length_rawurl_encode [of b] by (cases b) (auto simp: rawurl_encode_def)

end
