(* ===== verification/Sha256.thy ===== *)
theory Sha256
  imports Prelude "HOL-Library.Word"
begin

text \<open>
  SHA-256 (Go's \<open>crypto/sha256\<close>), which the stores apply to capability tokens, access proofs,
  submissions and uploaded bodies. It is defined on 32-bit words, so every token check of the model is
  the one the code makes. The development uses that it is a function into 32 bytes, never that it is
  collision free.
\<close>

unbundle bit_operations_syntax

type_synonym w32 = "32 word"

definition sha_k :: "w32 list" where
  "sha_k =
    [1116352408, 1899447441, 3049323471, 3921009573, 961987163, 1508970993, 2453635748, 2870763221,
     3624381080, 310598401, 607225278, 1426881987, 1925078388, 2162078206, 2614888103, 3248222580,
     3835390401, 4022224774, 264347078, 604807628, 770255983, 1249150122, 1555081692, 1996064986,
     2554220882, 2821834349, 2952996808, 3210313671, 3336571891, 3584528711, 113926993, 338241895,
     666307205, 773529912, 1294757372, 1396182291, 1695183700, 1986661051, 2177026350, 2456956037,
     2730485921, 2820302411, 3259730800, 3345764771, 3516065817, 3600352804, 4094571909, 275423344,
     430227734, 506948616, 659060556, 883997877, 958139571, 1322822218, 1537002063, 1747873779,
     1955562222, 2024104815, 2227730452, 2361852424, 2428436474, 2756734187, 3204031479, 3329325298]"

definition big_sigma0 :: "w32 \<Rightarrow> w32" where
  "big_sigma0 x = word_rotr 2 x XOR word_rotr 13 x XOR word_rotr 22 x"

definition big_sigma1 :: "w32 \<Rightarrow> w32" where
  "big_sigma1 x = word_rotr 6 x XOR word_rotr 11 x XOR word_rotr 25 x"

definition small_sigma0 :: "w32 \<Rightarrow> w32" where
  "small_sigma0 x = word_rotr 7 x XOR word_rotr 18 x XOR drop_bit 3 x"

definition small_sigma1 :: "w32 \<Rightarrow> w32" where
  "small_sigma1 x = word_rotr 17 x XOR word_rotr 19 x XOR drop_bit 10 x"

definition sha_ch :: "w32 \<Rightarrow> w32 \<Rightarrow> w32 \<Rightarrow> w32" where
  "sha_ch x y z = (x AND y) XOR (NOT x AND z)"

definition sha_maj :: "w32 \<Rightarrow> w32 \<Rightarrow> w32 \<Rightarrow> w32" where
  "sha_maj x y z = (x AND y) XOR (x AND z) XOR (y AND z)"

text \<open>The message schedule, latest word first.\<close>

primrec sha_schedule :: "nat \<Rightarrow> w32 list \<Rightarrow> w32 list" where
  "sha_schedule 0 ws = ws"
| "sha_schedule (Suc n) ws =
     sha_schedule n
       ((small_sigma1 (ws ! 1) + ws ! 6 + small_sigma0 (ws ! 14) + ws ! 15) # ws)"

type_synonym sha_state = "w32 \<times> w32 \<times> w32 \<times> w32 \<times> w32 \<times> w32 \<times> w32 \<times> w32"

fun sha_round :: "w32 \<times> w32 \<Rightarrow> sha_state \<Rightarrow> sha_state" where
  "sha_round (k, w) (a, b, c, d, e, f, g, h) =
     (let t1 = h + big_sigma1 e + sha_ch e f g + k + w;
          t2 = big_sigma0 a + sha_maj a b c
      in (t1 + t2, a, b, c, d + t1, e, f, g))"

fun sha_add :: "sha_state \<Rightarrow> sha_state \<Rightarrow> sha_state" where
  "sha_add (a, b, c, d, e, f, g, h) (a', b', c', d', e', f', g', h') =
     (a + a', b + b', c + c', d + d', e + e', f + f', g + g', h + h')"

definition sha_block :: "w32 list \<Rightarrow> sha_state \<Rightarrow> sha_state" where
  "sha_block ws s = sha_add s (fold sha_round (zip sha_k (rev (sha_schedule 48 (rev ws)))) s)"

definition sha_init :: sha_state where
  "sha_init = (1779033703, 3144134277, 1013904242, 2773480762, 1359893119, 2600822924, 528734635,
     1541459225)"

definition word_of_bytes :: "bytes \<Rightarrow> w32" where
  "word_of_bytes bs = word_of_nat (foldl (\<lambda>acc c. 256 * acc + byte c) 0 bs)"

definition bytes_of_nat :: "nat \<Rightarrow> nat \<Rightarrow> bytes" where
  "bytes_of_nat k n = map (\<lambda>i. char_of (n div 256 ^ (k - 1 - i))) [0..<k]"

fun words_of :: "bytes \<Rightarrow> w32 list" where
  "words_of (a # b # c # d # xs) = word_of_bytes [a, b, c, d] # words_of xs"
| "words_of _ = []"

definition sha_pad :: "bytes \<Rightarrow> bytes" where
  "sha_pad m =
     m @ [char_of (128::nat)] @ replicate ((119 - length m mod 64) mod 64) (char_of (0::nat)) @
     bytes_of_nat 8 (8 * length m)"

fun sha_blocks :: "nat \<Rightarrow> w32 list \<Rightarrow> sha_state \<Rightarrow> sha_state" where
  "sha_blocks 0 ws s = s"
| "sha_blocks (Suc n) ws s = sha_blocks n (drop 16 ws) (sha_block (take 16 ws) s)"

fun sha_bytes :: "sha_state \<Rightarrow> bytes" where
  "sha_bytes (a, b, c, d, e, f, g, h) =
     concat (map (\<lambda>w. bytes_of_nat 4 (unat w)) [a, b, c, d, e, f, g, h])"

definition sha256 :: "bytes \<Rightarrow> bytes" where
  "sha256 m = sha_bytes (sha_blocks (length (sha_pad m) div 64) (words_of (sha_pad m)) sha_init)"

lemma length_sha_bytes: "length (sha_bytes s) = 32"
  by (cases s rule: sha_bytes.cases) (simp add: bytes_of_nat_def)

lemma length_sha256 [simp]: "length (sha256 m) = 32"
  by (simp add: sha256_def length_sha_bytes)

end
