(* ===== verification/Sql.thy ===== *)
theory Sql
  imports Prelude "HOL-Library.Multiset"
begin

text \<open>
  SQL tables and the statements the stores run on them. A table is the list of its rows in rowid
  order; \<open>insert\<close> appends and refuses a second row with the same primary key, \<open>update ... where\<close>
  maps over the rows and reports how many matched (\<open>RowsAffected\<close>), \<open>delete ... where\<close> filters, a
  one-row query is the first match, and \<open>order by ... limit\<close> is a prefix of the stable sort. A table is
  well formed when it has one row per key and every row satisfies the table's CHECK clauses; every
  statement keeps that.
\<close>

definition sql_insert :: "('r \<Rightarrow> 'k) \<Rightarrow> 'r \<Rightarrow> 'r list \<Rightarrow> 'r list option" where
  "sql_insert key r t = (if key r \<in> set (map key t) then None else Some (t @ [r]))"

definition sql_update :: "('r \<Rightarrow> bool) \<Rightarrow> ('r \<Rightarrow> 'r) \<Rightarrow> 'r list \<Rightarrow> 'r list" where
  "sql_update p f t = map (\<lambda>r. if p r then f r else r) t"

definition sql_count :: "('r \<Rightarrow> bool) \<Rightarrow> 'r list \<Rightarrow> nat" where
  "sql_count p t = length (filter p t)"

definition sql_delete :: "('r \<Rightarrow> bool) \<Rightarrow> 'r list \<Rightarrow> 'r list" where
  "sql_delete p t = filter (\<lambda>r. \<not> p r) t"

definition sql_row :: "('r \<Rightarrow> bool) \<Rightarrow> 'r list \<Rightarrow> 'r option" where
  "sql_row p t = find p t"

text \<open>\<open>order by\<close> with a comparison of two rows: a stable insertion sort.\<close>

fun insert_by :: "('r \<Rightarrow> 'r \<Rightarrow> bool) \<Rightarrow> 'r \<Rightarrow> 'r list \<Rightarrow> 'r list" where
  "insert_by le x [] = [x]"
| "insert_by le x (y # ys) = (if le x y then x # y # ys else y # insert_by le x ys)"

primrec sort_by :: "('r \<Rightarrow> 'r \<Rightarrow> bool) \<Rightarrow> 'r list \<Rightarrow> 'r list" where
  "sort_by le [] = []"
| "sort_by le (x # xs) = insert_by le x (sort_by le xs)"

definition sql_top :: "('r \<Rightarrow> 'r \<Rightarrow> bool) \<Rightarrow> nat \<Rightarrow> 'r list \<Rightarrow> 'r list" where
  "sql_top le n t = take n (sort_by le t)"

subsection \<open>Lookups and counts after a statement\<close>

lemma sql_row_Nil [simp]: "sql_row p [] = None"
  by (simp add: sql_row_def)

lemma sql_row_Some: "sql_row p t = Some r \<Longrightarrow> r \<in> set t \<and> p r"
  by (auto simp: sql_row_def find_Some_iff)

lemma sql_row_None: "sql_row p t = None \<longleftrightarrow> (\<forall>r\<in>set t. \<not> p r)"
  by (auto simp: sql_row_def find_None_iff)

lemma sql_row_append [table_simps]:
  "sql_row p (t @ [r]) =
     (case sql_row p t of Some x \<Rightarrow> Some x | None \<Rightarrow> if p r then Some r else None)"
  by (induction t) (auto simp: sql_row_def)

lemma sql_row_key_cong: "key r = k \<Longrightarrow> sql_row (\<lambda>x. key x = key r) t = sql_row (\<lambda>x. key x = k) t"
  by simp

lemma sql_row_update [table_simps]:
  assumes "\<And>r. key (f r) = key r"
  shows "sql_row (\<lambda>r. key r = k) (sql_update p f t) =
    map_option (\<lambda>r. if p r then f r else r) (sql_row (\<lambda>r. key r = k) t)"
  using assms by (induction t) (auto simp: sql_row_def sql_update_def)

lemma map_key_update [table_simps]:
  "(\<And>r. key (f r) = key r) \<Longrightarrow> map key (sql_update p f t) = map key t"
  by (induction t) (auto simp: sql_update_def)

lemma sql_row_unique:
  "distinct (map key t) \<Longrightarrow> r \<in> set t \<Longrightarrow> sql_row (\<lambda>x. key x = key r) t = Some r"
  by (induction t) (auto simp: sql_row_def image_iff)

lemma sql_row_iff:
  "distinct (map key t) \<Longrightarrow> sql_row (\<lambda>x. key x = k) t = Some r \<longleftrightarrow> r \<in> set t \<and> key r = k"
  using sql_row_unique [of key t r] by (auto dest: sql_row_Some)

lemma sql_row_conj:
  assumes "distinct (map key t)"
  shows "sql_row (\<lambda>r. key r = k \<and> q r) t =
    (case sql_row (\<lambda>r. key r = k) t of None \<Rightarrow> None | Some r \<Rightarrow> if q r then Some r else None)"
  using assms
proof (induction t)
  case (Cons x t)
  have none: "key x = k \<Longrightarrow> sql_row (\<lambda>r. key r = k) t = None"
    using Cons.prems by (auto simp: sql_row_None image_iff)
  show ?case
    using Cons none by (auto simp: sql_row_def split: option.splits)
qed simp

lemma sql_row_delete [table_simps]:
  assumes "distinct (map key t)"
  shows "sql_row (\<lambda>r. key r = k) (sql_delete p t) =
    (case sql_row (\<lambda>r. key r = k) t of None \<Rightarrow> None | Some r \<Rightarrow> if p r then None else Some r)"
  using assms
proof (induction t)
  case Nil
  then show ?case by (simp add: sql_delete_def)
next
  case (Cons x t)
  have none: "key x = k \<Longrightarrow> sql_row (\<lambda>r. key r = k) t = None"
    using Cons.prems by (auto simp: sql_row_None image_iff)
  show ?case
    using Cons none by (auto simp: sql_delete_def sql_row_def split: option.splits)
qed

lemma distinct_delete: "distinct (map key t) \<Longrightarrow> distinct (map key (sql_delete p t))"
  by (simp add: sql_delete_def distinct_map_filter)

lemma set_delete [simp]: "set (sql_delete p t) = {r \<in> set t. \<not> p r}"
  by (auto simp: sql_delete_def)

lemma set_update: "set (sql_update p f t) = (\<lambda>r. if p r then f r else r) ` set t"
  by (simp add: sql_update_def)

lemma sql_update_cong: "(\<And>r. r \<in> set t \<Longrightarrow> p r = q r) \<Longrightarrow> sql_update p f t = sql_update q f t"
  by (auto simp: sql_update_def)

lemma filter_update: "(\<And>r. r \<in> set t \<Longrightarrow> p r \<Longrightarrow> \<not> q r \<and> \<not> q (f r)) \<Longrightarrow> filter q (sql_update p f t) = filter q t"
  by (induction t) (auto simp: sql_update_def)

lemma sql_delete_delete: "sql_delete p (sql_delete q t) = sql_delete (\<lambda>x. q x \<or> p x) t"
  by (auto simp: sql_delete_def intro!: filter_cong)

lemma sql_insert_Some:
  "sql_insert key r t = Some t' \<longleftrightarrow> key r \<notin> key ` set t \<and> t' = t @ [r]"
  by (auto simp: sql_insert_def)

lemma sql_insert_None: "sql_insert key r t = None \<longleftrightarrow> key r \<in> key ` set t"
  by (simp add: sql_insert_def)

lemma sql_count_key [table_simps]:
  assumes "distinct (map key t)"
  shows "sql_count (\<lambda>r. key r = k \<and> q r) t =
    (case sql_row (\<lambda>r. key r = k) t of None \<Rightarrow> 0 | Some r \<Rightarrow> if q r then 1 else 0)"
  using assms
proof (induction t)
  case Nil
  then show ?case by (simp add: sql_count_def)
next
  case (Cons x t)
  have none: "key x = k \<Longrightarrow> sql_row (\<lambda>r. key r = k) t = None"
    using Cons.prems by (auto simp: sql_row_None image_iff)
  show ?case
    using Cons none by (auto simp: sql_count_def sql_row_def split: option.splits)
qed

lemma sql_count_0: "sql_count p t = 0 \<longleftrightarrow> (\<forall>r\<in>set t. \<not> p r)"
  by (auto simp: sql_count_def filter_empty_conv)

lemma sql_count_le_length: "sql_count p t \<le> length t"
  by (simp add: sql_count_def)

lemma sql_count_append [simp]: "sql_count p (t @ [r]) = sql_count p t + (if p r then 1 else 0)"
  by (simp add: sql_count_def)

lemma sql_count_update_same:
  "(\<And>r. r \<in> set t \<Longrightarrow> p r \<Longrightarrow> q (f r) = q r) \<Longrightarrow> sql_count q (sql_update p f t) = sql_count q t"
  by (induction t) (auto simp: sql_count_def sql_update_def)

lemma sql_count_update_out:
  "(\<And>r. r \<in> set t \<Longrightarrow> p r \<Longrightarrow> \<not> q (f r)) \<Longrightarrow>
   sql_count q (sql_update p f t) + sql_count (\<lambda>r. p r \<and> q r) t = sql_count q t"
  by (induction t) (auto simp: sql_count_def sql_update_def)

lemma sql_count_delete: "sql_count q (sql_delete p t) + sql_count (\<lambda>r. p r \<and> q r) t = sql_count q t"
  by (induction t) (auto simp: sql_count_def sql_delete_def)

lemma sql_count_cong: "(\<And>r. r \<in> set t \<Longrightarrow> p r = q r) \<Longrightarrow> sql_count p t = sql_count q t"
  by (simp add: sql_count_def cong: filter_cong)

lemma sql_count_1_row:
  assumes "distinct (map key t)" "sql_count (\<lambda>r. key r = k \<and> q r) t = 1"
  obtains r where "r \<in> set t" "key r = k" "q r" "sql_row (\<lambda>r. key r = k) t = Some r"
proof (cases "sql_row (\<lambda>r. key r = k) t")
  case None
  then show ?thesis
    using assms(2) by (simp add: sql_count_key [OF assms(1)])
next
  case (Some r)
  then have "q r"
    using assms(2) by (simp add: sql_count_key [OF assms(1)] split: if_splits)
  with Some that show ?thesis
    by (auto dest: sql_row_Some)
qed

lemma mset_insert_by [simp]: "mset (insert_by le x xs) = add_mset x (mset xs)"
  by (induction xs) auto

lemma mset_sort_by [simp]: "mset (sort_by le xs) = mset xs"
  by (induction xs) auto

lemma set_sort_by [simp]: "set (sort_by le xs) = set xs"
  by (rule mset_eq_setD) simp

lemma length_sort_by [simp]: "length (sort_by le xs) = length xs"
  by (rule mset_eq_length) simp

lemma sorted_insert_by:
  assumes "\<And>a b. le a b \<or> le b a" "\<And>a b c. le a b \<Longrightarrow> le b c \<Longrightarrow> le a c" "sorted_wrt le xs"
  shows "sorted_wrt le (insert_by le x xs)"
  using assms(3)
proof (induction xs)
  case (Cons y ys)
  have "set (insert_by le x ys) = insert x (set ys)"
    by (rule mset_eq_setD [of _ "x # ys", simplified]) simp
  with Cons assms(1,2) show ?case by (auto; metis)
qed simp

lemma sorted_sort_by:
  assumes "\<And>a b. le a b \<or> le b a" "\<And>a b c. le a b \<Longrightarrow> le b c \<Longrightarrow> le a c"
  shows "sorted_wrt le (sort_by le xs)"
proof (induction xs)
  case (Cons x xs)
  then show ?case
    using sorted_insert_by [of le, OF assms] by simp
qed simp

lemma set_sql_top: "set (sql_top le n t) \<subseteq> set t"
  by (auto simp: sql_top_def dest: in_set_takeD)

lemma in_sql_topD: "r \<in> set (sql_top le n t) \<Longrightarrow> r \<in> set t"
  using set_sql_top [of le n t] by blast

lemma length_sql_top: "length (sql_top le n t) = min n (length t)"
  by (simp add: sql_top_def)

lemma sql_top_all: "length t \<le> n \<Longrightarrow> set (sql_top le n t) = set t"
  by (simp add: sql_top_def)

lemma distinct_sql_top: "distinct (map key t) \<Longrightarrow> distinct (map key (sql_top le n t))"
proof -
  assume "distinct (map key t)"
  moreover have "mset (map key (sort_by le t)) = mset (map key t)"
    by (simp only: mset_map mset_sort_by)
  ultimately have "distinct (map key (sort_by le t))"
    by (metis mset_eq_imp_distinct_iff)
  then show ?thesis
    by (simp add: sql_top_def take_map [symmetric])
qed

lemma sql_top_keys:
  assumes "distinct (map key t)" "r \<in> set t"
  shows "key r \<in> key ` set (sql_top le n (filter p t)) \<Longrightarrow> p r"
    and "length (sql_top le n (filter p t)) < n \<Longrightarrow> p r \<Longrightarrow> key r \<in> key ` set (sql_top le n (filter p t))"
proof -
  assume "key r \<in> key ` set (sql_top le n (filter p t))"
  then obtain x where "x \<in> set t" "p x" "key x = key r"
    by (auto dest!: in_sql_topD)
  with assms show "p r" by (auto simp: distinct_map inj_on_def)
next
  assume "length (sql_top le n (filter p t)) < n" "p r"
  with assms(2) show "key r \<in> key ` set (sql_top le n (filter p t))"
    using sql_top_all [of "filter p t" n le] by (simp add: length_sql_top)
qed

subsection \<open>Well-formed tables\<close>

text \<open>One row per primary key and every row within the table's CHECK clauses.\<close>

definition table_ok :: "('r \<Rightarrow> 'k) \<Rightarrow> ('r \<Rightarrow> bool) \<Rightarrow> 'r list \<Rightarrow> bool" where
  "table_ok key chk t \<longleftrightarrow> distinct (map key t) \<and> list_all chk t"

lemma table_ok_Nil [simp]: "table_ok key chk []"
  by (simp add: table_ok_def)

lemma table_ok_insert:
  "table_ok key chk t \<Longrightarrow> chk r \<Longrightarrow> sql_insert key r t = Some t' \<Longrightarrow> table_ok key chk t'"
  by (auto simp: table_ok_def sql_insert_Some)

lemma table_ok_update:
  assumes "table_ok key chk t" and "\<And>r. key (f r) = key r"
    and "\<And>r. r \<in> set t \<Longrightarrow> p r \<Longrightarrow> chk r \<Longrightarrow> chk (f r)"
  shows "table_ok key chk (sql_update p f t)"
  using assms by (auto simp: table_ok_def map_key_update set_update list_all_iff)

lemma table_ok_delete: "table_ok key chk t \<Longrightarrow> table_ok key chk (sql_delete p t)"
  by (auto simp: table_ok_def distinct_delete list_all_iff)

lemma table_ok_distinct: "table_ok key chk t \<Longrightarrow> distinct (map key t)"
  by (simp add: table_ok_def)

lemma table_ok_chk: "table_ok key chk t \<Longrightarrow> r \<in> set t \<Longrightarrow> chk r"
  by (simp add: table_ok_def list_all_iff)

lemma table_ok_row: "table_ok key chk t \<Longrightarrow> sql_row p t = Some r \<Longrightarrow> chk r"
  by (auto simp: table_ok_def list_all_iff dest: sql_row_Some)

end
