(* ===== verification/Go_Time.thy ===== *)
theory Go_Time
  imports Prelude
begin

text \<open>
  Instants and their text forms in the databases. The Go sources store instants as text:
  \<open>formatTime\<close> (internal/secrets/store.go, internal/events/outbox.go, internal/worker/store.go) writes
  RFC3339Nano, which drops trailing zeros of the fraction; \<open>managementTimeFormat\<close>
  (internal/secrets/management.go) and \<open>timeFormat\<close> (internal/requests/store.go) write a fixed-width
  fraction. SQL then compares the texts. This theory defines both forms and shows when the order of the
  texts is the order of the instants, so that the stores' tables can hold instants.
\<close>

subsection \<open>Civil dates\<close>

datatype civil = Civil (year: nat) (month: nat) (day: nat)

instantiation civil :: linorder
begin

definition less_eq_civil :: "civil \<Rightarrow> civil \<Rightarrow> bool" where
  "less_eq_civil a b \<longleftrightarrow> year a < year b \<or>
     (year a = year b \<and> (month a < month b \<or> (month a = month b \<and> day a \<le> day b)))"

definition less_civil :: "civil \<Rightarrow> civil \<Rightarrow> bool" where
  "less_civil a b \<longleftrightarrow> year a < year b \<or>
     (year a = year b \<and> (month a < month b \<or> (month a = month b \<and> day a < day b)))"

instance
proof
  fix a b c :: civil
  show "(a < b) = (a \<le> b \<and> \<not> b \<le> a)"
    by (auto simp: less_eq_civil_def less_civil_def)
  show "a \<le> a"
    by (simp add: less_eq_civil_def)
  show "a \<le> b \<Longrightarrow> b \<le> c \<Longrightarrow> a \<le> c"
    by (auto simp: less_eq_civil_def)
  show "a \<le> b \<Longrightarrow> b \<le> a \<Longrightarrow> a = b"
    by (cases a; cases b) (auto simp: less_eq_civil_def)
  show "a \<le> b \<or> b \<le> a"
    by (auto simp: less_eq_civil_def)
qed

end

definition leap :: "nat \<Rightarrow> bool" where
  "leap y \<longleftrightarrow> y mod 4 = 0 \<and> (y mod 100 \<noteq> 0 \<or> y mod 400 = 0)"

definition month_days :: "nat \<Rightarrow> nat \<Rightarrow> nat" where
  "month_days y m =
     (if m = 2 then (if leap y then 29 else 28)
      else if m \<in> {4, 6, 9, 11} then 30 else 31)"

definition next_day :: "civil \<Rightarrow> civil" where
  "next_day c =
     (if day c < month_days (year c) (month c) then Civil (year c) (month c) (day c + 1)
      else if month c < 12 then Civil (year c) (month c + 1) 1
      else Civil (year c + 1) 1 1)"

primrec civil_of_day :: "nat \<Rightarrow> civil" where
  "civil_of_day 0 = Civil 1 1 1"
| "civil_of_day (Suc n) = next_day (civil_of_day n)"

lemma next_day_less: "c < next_day c"
  by (cases c) (simp add: next_day_def less_civil_def)

lemma civil_of_day_less: "m < n \<Longrightarrow> civil_of_day m < civil_of_day n"
  by (rule lift_Suc_mono_less) (simp_all add: next_day_less)

lemma civil_of_day_le_iff: "civil_of_day m \<le> civil_of_day n \<longleftrightarrow> m \<le> n"
  by (metis civil_of_day_less leD le_less_linear order_le_less)

lemma civil_of_day_range:
  "1 \<le> month (civil_of_day n) \<and> month (civil_of_day n) \<le> 12 \<and>
   1 \<le> day (civil_of_day n) \<and> day (civil_of_day n) \<le> 31"
  by (induction n) (auto simp: next_day_def month_days_def)

subsection \<open>Fixed-width numbers\<close>

text \<open>Comparing two numbers by quotient and remainder.\<close>

lemma lex_div_mod:
  fixes a b k :: nat
  shows "(a < b \<or> a = b \<and> R) \<longleftrightarrow>
    (a div k < b div k \<or> a div k = b div k \<and> (a mod k < b mod k \<or> a mod k = b mod k \<and> R))"
proof -
  have ab: "a = k * (a div k) + a mod k" "b = k * (b div k) + b mod k"
    by simp_all
  consider "a div k < b div k" | "b div k < a div k" | "a div k = b div k"
    by linarith
  then show ?thesis
  proof cases
    case 1
    then have "a < b" by (meson div_le_mono leD le_less_linear)
    with 1 show ?thesis by simp
  next
    case 2
    then have "b < a" by (meson div_le_mono leD le_less_linear)
    with 2 show ?thesis by simp
  next
    case 3
    with ab have "a < b \<longleftrightarrow> a mod k < b mod k" "a = b \<longleftrightarrow> a mod k = b mod k"
      by (metis nat_add_left_cancel_less, metis)
    with 3 show ?thesis by simp
  qed
qed

definition digit :: "nat \<Rightarrow> char" where
  "digit d = char_of (48 + d)"

primrec pad_digits :: "nat \<Rightarrow> nat \<Rightarrow> string" where
  "pad_digits 0 n = []"
| "pad_digits (Suc w) n = pad_digits w (n div 10) @ [digit (n mod 10)]"

fun itoa :: "nat \<Rightarrow> string" where
  "itoa n = (if n < 10 then [digit n] else itoa (n div 10) @ [digit (n mod 10)])"

declare itoa.simps [simp del]

text \<open>Go's \<open>appendInt\<close>: at least \<open>w\<close> digits.\<close>

definition append_int :: "nat \<Rightarrow> nat \<Rightarrow> string" where
  "append_int n w = (if n < 10 ^ w then pad_digits w n else itoa n)"

lemma byte_digit: "d < 10 \<Longrightarrow> byte (digit d) = 48 + d"
  by (simp add: digit_def)

lemma digit_inj: "d < 10 \<Longrightarrow> e < 10 \<Longrightarrow> digit d = digit e \<longleftrightarrow> d = e"
  by (metis add_left_cancel byte_digit)

lemma length_pad_digits [simp]: "length (pad_digits w n) = w"
  by (induction w arbitrary: n) auto

lemma pad_digits_inj:
  "n < 10 ^ w \<Longrightarrow> m < 10 ^ w \<Longrightarrow> pad_digits w n = pad_digits w m \<longleftrightarrow> n = m"
proof (induction w arbitrary: n m)
  case 0
  then show ?case by simp
next
  case (Suc w)
  then have "n div 10 < 10 ^ w" "m div 10 < 10 ^ w" by auto
  then have "pad_digits (Suc w) n = pad_digits (Suc w) m \<longleftrightarrow>
      n div 10 = m div 10 \<and> n mod 10 = m mod 10"
    by (simp add: Suc.IH digit_inj)
  then show ?case by (metis div_mult_mod_eq)
qed

lemma pad_digits_le:
  "n < 10 ^ w \<Longrightarrow> m < 10 ^ w \<Longrightarrow> str_le (pad_digits w n) (pad_digits w m) \<longleftrightarrow> n \<le> m"
proof (induction w arbitrary: n m)
  case 0
  then show ?case by simp
next
  case (Suc w)
  then have b: "n div 10 < 10 ^ w" "m div 10 < 10 ^ w" by auto
  have "str_le (pad_digits (Suc w) n) (pad_digits (Suc w) m) \<longleftrightarrow>
      n div 10 < m div 10 \<or> n div 10 = m div 10 \<and> (n mod 10 < m mod 10 \<or> n mod 10 = m mod 10 \<and> True)"
  proof (cases "n div 10 = m div 10")
    case True
    then show ?thesis by (simp add: byte_digit digit_inj)
  next
    case False
    then have "pad_digits w (n div 10) \<noteq> pad_digits w (m div 10)"
      using b by (simp add: pad_digits_inj)
    then show ?thesis
      using b False by (simp add: str_le_same_length_append Suc.IH le_less)
  qed
  also have "\<dots> \<longleftrightarrow> n \<le> m"
    by (simp only: lex_div_mod [of n m True 10, symmetric]) auto
  finally show ?case .
qed

lemma pad_digits_lex:
  assumes "n < 10 ^ w" "m < 10 ^ w"
  shows "str_le (pad_digits w n @ u) (pad_digits w m @ v) \<longleftrightarrow> n < m \<or> (n = m \<and> str_le u v)"
proof (cases "n = m")
  case False
  then have "pad_digits w n \<noteq> pad_digits w m"
    using assms by (simp add: pad_digits_inj)
  then show ?thesis
    using False assms by (simp add: str_le_same_length_append pad_digits_le le_less)
qed simp

lemma pad_digits_are_digits: "c \<in> set (pad_digits w n) \<Longrightarrow> 48 \<le> byte c \<and> byte c < 58"
  by (induction w arbitrary: n) (auto simp: byte_digit)

subsection \<open>Text forms of an instant\<close>

definition whole_seconds :: "time \<Rightarrow> nat" where
  "whole_seconds t = nat t div 1000000000"

definition nanos :: "time \<Rightarrow> nat" where
  "nanos t = nat t mod 1000000000"

definition year_of :: "time \<Rightarrow> nat" where
  "year_of t = year (civil_of_day (whole_seconds t div 86400))"

definition valid_time :: "time \<Rightarrow> bool" where
  "valid_time t \<longleftrightarrow> 0 \<le> t \<and> year_of t < 10000"

text \<open>The layout \<open>2006-01-02T15:04:05\<close>.\<close>

definition date_time_text :: "nat \<Rightarrow> string" where
  "date_time_text s =
     (let c = civil_of_day (s div 86400); r = s mod 86400 in
      append_int (year c) 4 @ ''-'' @ pad_digits 2 (month c) @ ''-'' @ pad_digits 2 (day c) @ ''T'' @
      pad_digits 2 (r div 3600) @ '':'' @ pad_digits 2 (r mod 3600 div 60) @ '':'' @
      pad_digits 2 (r mod 60))"

text \<open>The layout \<open>.999999999\<close>: nothing for zero, else nine digits less their trailing zeros.\<close>

fun strip_zeros :: "string \<Rightarrow> string" where
  "strip_zeros [] = []"
| "strip_zeros (x # xs) =
     (case strip_zeros xs of [] \<Rightarrow> (if x = digit 0 then [] else [x]) | ys \<Rightarrow> x # ys)"

definition nano_text :: "nat \<Rightarrow> string" where
  "nano_text n = (if n = 0 then [] else ''.'' @ strip_zeros (pad_digits 9 n))"

definition formatTime :: "time \<Rightarrow> string" where
  "formatTime t = date_time_text (whole_seconds t) @ nano_text (nanos t) @ ''Z''"

definition fixedTime :: "time \<Rightarrow> string" where
  "fixedTime t = date_time_text (whole_seconds t) @ ''.'' @ pad_digits 9 (nanos t) @ ''Z''"

text \<open>SQL's \<open>rtrim(x, 'Z')\<close>.\<close>

definition rtrimZ :: "string \<Rightarrow> string" where
  "rtrimZ s = rev (dropWhile (\<lambda>c. c = CHR ''Z'') (rev s))"

text \<open>The comparison \<open>a <= b\<close> of two RFC3339Nano texts, on the instants themselves.\<close>

definition rfc_text_le :: "time \<Rightarrow> time \<Rightarrow> bool" where
  "rfc_text_le a b \<longleftrightarrow> whole_seconds a < whole_seconds b \<or>
     (whole_seconds a = whole_seconds b \<and>
      str_le (nano_text (nanos a) @ ''Z'') (nano_text (nanos b) @ ''Z''))"

subsection \<open>The order of the texts\<close>

lemma whole_seconds_le: "0 \<le> a \<Longrightarrow> 0 \<le> b \<Longrightarrow>
  a \<le> b \<longleftrightarrow> whole_seconds a < whole_seconds b \<or>
    (whole_seconds a = whole_seconds b \<and> nanos a \<le> nanos b)"
proof -
  assume "0 \<le> a" "0 \<le> b"
  then have "a \<le> b \<longleftrightarrow> nat a < nat b \<or> nat a = nat b \<and> True" by auto
  also note lex_div_mod [of "nat a" "nat b" True 1000000000]
  finally show ?thesis by (auto simp: whole_seconds_def nanos_def)
qed

lemma civil_lex:
  assumes "year c < 10000" "year d < 10000" "month c < 100" "month d < 100" "day c < 100" "day d < 100"
  shows "str_le (append_int (year c) 4 @ ''-'' @ pad_digits 2 (month c) @ ''-'' @ pad_digits 2 (day c) @ u)
      (append_int (year d) 4 @ ''-'' @ pad_digits 2 (month d) @ ''-'' @ pad_digits 2 (day d) @ v) \<longleftrightarrow>
    c < d \<or> (c = d \<and> str_le u v)"
  using assms
  by (cases c; cases d)
    (auto simp: append_int_def pad_digits_lex less_civil_def simp del: pad_digits.simps)

lemma clock_lex:
  assumes "r < (86400::nat)" "q < 86400"
  shows "str_le (pad_digits 2 (r div 3600) @ '':'' @ pad_digits 2 (r mod 3600 div 60) @ '':'' @
        pad_digits 2 (r mod 60) @ u)
      (pad_digits 2 (q div 3600) @ '':'' @ pad_digits 2 (q mod 3600 div 60) @ '':'' @
        pad_digits 2 (q mod 60) @ v) \<longleftrightarrow>
    r < q \<or> (r = q \<and> str_le u v)"
proof -
  have m: "x mod 60 = x mod 3600 mod 60" for x :: nat
    by (simp add: mod_mod_cancel)
  have lt: "x mod 3600 < 3600" "x mod 3600 mod 60 < 60" for x :: nat
    by simp_all
  have "r div 3600 < 100" "q div 3600 < 100" "x mod 3600 div 60 < 100" for x :: nat
    using assms by (auto simp: less_mult_imp_div_less lt)
  moreover have "x mod 60 < 100" for x :: nat
    by (rule less_trans [of _ 60]) simp_all
  ultimately have "?thesis \<longleftrightarrow> ((r div 3600 < q div 3600 \<or> r div 3600 = q div 3600 \<and>
      (r mod 3600 div 60 < q mod 3600 div 60 \<or> r mod 3600 div 60 = q mod 3600 div 60 \<and>
       (r mod 3600 mod 60 < q mod 3600 mod 60 \<or> r mod 3600 mod 60 = q mod 3600 mod 60 \<and> str_le u v)))
      \<longleftrightarrow> r < q \<or> (r = q \<and> str_le u v))"
    by (simp add: pad_digits_lex m [of r] m [of q] del: pad_digits.simps)
  also have "\<dots>"
    by (simp only: lex_div_mod [symmetric])
  finally show ?thesis by simp
qed

lemma date_time_text_lex:
  assumes "year (civil_of_day (a div 86400)) < 10000" "year (civil_of_day (b div 86400)) < 10000"
  shows "str_le (date_time_text a @ u) (date_time_text b @ v) \<longleftrightarrow> a < b \<or> (a = b \<and> str_le u v)"
proof -
  let ?c = "civil_of_day (a div 86400)" and ?d = "civil_of_day (b div 86400)"
  have less: "?c < ?d \<longleftrightarrow> a div 86400 < b div 86400"
    by (metis civil_of_day_le_iff not_le)
  have eq: "?c = ?d \<longleftrightarrow> a div 86400 = b div 86400"
    by (metis civil_of_day_le_iff eq_iff)
  have "month ?c < 100" "month ?d < 100" "day ?c < 100" "day ?d < 100"
    using civil_of_day_range [of "a div 86400"] civil_of_day_range [of "b div 86400"] by auto
  then have "str_le (date_time_text a @ u) (date_time_text b @ v) \<longleftrightarrow>
      ?c < ?d \<or> (?c = ?d \<and> (a mod 86400 < b mod 86400 \<or> (a mod 86400 = b mod 86400 \<and> str_le u v)))"
    using assms
    by (simp add: date_time_text_def Let_def civil_lex [simplified] clock_lex [simplified]
        del: pad_digits.simps)
  then show ?thesis
    by (simp only: less eq lex_div_mod [symmetric])
qed

lemma strip_zeros_le:
  assumes "length xs = length ys" "\<forall>c\<in>set xs. 48 \<le> byte c" "\<forall>c\<in>set ys. 48 \<le> byte c"
  shows "str_le (strip_zeros xs) (strip_zeros ys) \<longleftrightarrow> str_le xs ys"
  using assms
proof (induction xs ys rule: list_induct2)
  case Nil
  then show ?case by simp
next
  case (Cons x xs y ys)
  have zero: "byte c = 48 \<longleftrightarrow> c = digit 0" for c
    by (auto simp: digit_def) (metis char_of_char)
  have "48 < byte c" if "48 \<le> byte c" "c \<noteq> digit 0" for c
    using that zero [of c] by simp
  with Cons show ?case
    by (cases "strip_zeros xs"; cases "strip_zeros ys")
      (auto simp: digit_def split: if_splits)
qed

lemma strip_zeros_last: "strip_zeros xs \<noteq> [] \<Longrightarrow> last (strip_zeros xs) \<in> set xs"
  by (induction xs) (auto split: list.splits if_splits)

lemma strip_zeros_set: "set (strip_zeros xs) \<subseteq> set xs"
  by (induction xs) (auto split: list.splits if_splits)

lemma nano_text_le:
  assumes "a < 1000000000" "b < 1000000000"
  shows "str_le (nano_text a) (nano_text b) \<longleftrightarrow> a \<le> b"
proof -
  have "str_le (strip_zeros (pad_digits 9 a)) (strip_zeros (pad_digits 9 b)) \<longleftrightarrow> a \<le> b"
    using assms by (subst strip_zeros_le)
      (auto simp: pad_digits_le dest: pad_digits_are_digits simp del: pad_digits.simps)
  then show ?thesis
    by (auto simp: nano_text_def)
qed

lemma nanos_less [simp]: "nanos t < 1000000000"
  by (simp add: nanos_def)

lemma date_text_lex:
  assumes "valid_time a" "valid_time b"
  shows "str_le (date_time_text (whole_seconds a) @ u) (date_time_text (whole_seconds b) @ v) \<longleftrightarrow>
    whole_seconds a < whole_seconds b \<or> (whole_seconds a = whole_seconds b \<and> str_le u v)"
  using assms by (simp add: date_time_text_lex valid_time_def year_of_def)

lemma pad_digits_2: "pad_digits 2 x = [digit (x div 10 mod 10), digit (x mod 10)]"
  by (simp add: numeral_2_eq_2)

lemma date_time_text_last:
  "\<exists>p c. date_time_text s = p @ [c] \<and> byte c < 58"
proof -
  have "pad_digits 2 (s mod 86400 mod 60) = [digit (s mod 86400 mod 60 div 10 mod 10)] @
      [digit (s mod 86400 mod 60 mod 10)]"
    by (simp only: pad_digits_2 append.simps)
  then have "\<exists>p. date_time_text s = p @ [digit (s mod 86400 mod 60 mod 10)]"
    by (simp only: date_time_text_def Let_def append_assoc [symmetric]) blast
  moreover have "byte (digit (s mod 86400 mod 60 mod 10)) < 58"
    by (simp add: byte_digit)
  ultimately show ?thesis by blast
qed

lemma not_Z: "byte c < 58 \<Longrightarrow> c \<noteq> CHR ''Z''"
  by auto

lemma rtrimZ_snoc: "c \<noteq> CHR ''Z'' \<Longrightarrow> rtrimZ (p @ [c] @ ''Z'') = p @ [c]"
  by (simp add: rtrimZ_def)

lemma rtrimZ_formatTime:
  "rtrimZ (formatTime t) = date_time_text (whole_seconds t) @ nano_text (nanos t)"
proof (cases "strip_zeros (pad_digits 9 (nanos t)) = [] \<or> nanos t = 0")
  case True
  obtain p c where pc: "date_time_text (whole_seconds t) = p @ [c]" "byte c < 58"
    using date_time_text_last by blast
  show ?thesis
  proof (cases "nanos t = 0")
    case z: True
    with pc show ?thesis
      by (simp add: formatTime_def nano_text_def not_Z rtrimZ_snoc [simplified])
  next
    case False
    with True have "nano_text (nanos t) = ''.''"
      by (simp add: nano_text_def del: pad_digits.simps)
    then show ?thesis
      by (simp add: formatTime_def rtrimZ_def)
  qed
next
  case False
  let ?s = "strip_zeros (pad_digits 9 (nanos t))"
  have "last ?s \<in> set (pad_digits 9 (nanos t))"
    using False by (intro strip_zeros_last) simp
  then have "byte (last ?s) < 58"
    by (auto dest: pad_digits_are_digits simp del: pad_digits.simps)
  then have z: "last ?s \<noteq> CHR ''Z''" by (rule not_Z)
  have s: "?s = butlast ?s @ [last ?s]"
    using False by simp
  have eq: "formatTime t = (date_time_text (whole_seconds t) @ ''.'' @ butlast ?s) @ [last ?s] @ ''Z''"
    using False by (simp add: formatTime_def nano_text_def del: pad_digits.simps)
  have "rtrimZ (formatTime t) = (date_time_text (whole_seconds t) @ ''.'' @ butlast ?s) @ [last ?s]"
    unfolding eq by (rule rtrimZ_snoc [OF z])
  then show ?thesis
    using False by (simp add: nano_text_def del: pad_digits.simps)
qed

subsection \<open>Text columns as ordered instants\<close>

text \<open>What a store relies on when SQL compares or sorts a text column of instants.\<close>

locale time_column =
  fixes col :: "time \<Rightarrow> string"
    and ok :: "time \<Rightarrow> bool"
  assumes col_le: "ok a \<Longrightarrow> ok b \<Longrightarrow> str_le (col a) (col b) \<longleftrightarrow> a \<le> b"
begin

lemma col_inj: "ok a \<Longrightarrow> ok b \<Longrightarrow> col a = col b \<longleftrightarrow> a = b"
  by (metis order_antisym order_refl col_le)

lemma col_greater: "ok a \<Longrightarrow> ok b \<Longrightarrow> \<not> str_le (col a) (col b) \<longleftrightarrow> b < a"
  by (simp add: col_le not_le)

lemma col_sorted: "list_all ok ts \<Longrightarrow> sorted_wrt str_le (map col ts) \<longleftrightarrow> sorted ts"
  by (induction ts) (auto simp: col_le list_all_iff)

end

lemma fixedTime_le:
  "valid_time a \<Longrightarrow> valid_time b \<Longrightarrow> str_le (fixedTime a) (fixedTime b) \<longleftrightarrow> a \<le> b"
  using date_text_lex [of a b] whole_seconds_le [of a b]
  by (auto simp: fixedTime_def pad_digits_lex valid_time_def le_less simp del: pad_digits.simps)

lemma rtrimZ_le:
  "valid_time a \<Longrightarrow> valid_time b \<Longrightarrow>
   str_le (rtrimZ (formatTime a)) (rtrimZ (formatTime b)) \<longleftrightarrow> a \<le> b"
  using date_text_lex [of a b] whole_seconds_le [of a b]
  by (auto simp: rtrimZ_formatTime nano_text_le valid_time_def)

interpretation fixed: time_column fixedTime valid_time
  by unfold_locales (rule fixedTime_le)

interpretation rtrim: time_column "\<lambda>t. rtrimZ (formatTime t)" valid_time
  by unfold_locales (rule rtrimZ_le)

lemma formatTime_inj: "valid_time a \<Longrightarrow> valid_time b \<Longrightarrow> formatTime a = formatTime b \<longleftrightarrow> a = b"
  by (metis rtrim.col_inj)

lemma formatTime_text_le:
  "valid_time a \<Longrightarrow> valid_time b \<Longrightarrow> str_le (formatTime a) (formatTime b) \<longleftrightarrow> rfc_text_le a b"
  by (simp add: formatTime_def date_text_lex rfc_text_le_def)

text \<open>The untrimmed comparison can be off only between instants of the same second.\<close>

lemma rfc_text_le_within_second:
  assumes "0 \<le> a" "0 \<le> b"
  shows "a + Second \<le> b \<Longrightarrow> rfc_text_le a b"
    and "rfc_text_le a b \<Longrightarrow> a < b + Second"
proof -
  have le: "x div 1000000000 \<le> y div 1000000000" if "x \<le> y" for x y :: nat
    using that by (rule div_le_mono)
  have bnd: "z < (z div 1000000000 + 1) * 1000000000" for z :: nat
    using div_mult_mod_eq [of z 1000000000] mod_less_divisor [of 1000000000 z]
    by (simp add: add_mult_distrib)
  {
    assume "a + Second \<le> b"
    then have "nat a + 1000000000 \<le> nat b"
      using assms by (simp add: Second_def)
    then have "nat a div 1000000000 + 1 \<le> nat b div 1000000000"
      using le [of "nat a + 1000000000" "nat b"] div_add_self2 [of 1000000000 "nat a"] by simp
    then show "rfc_text_le a b"
      by (simp add: rfc_text_le_def whole_seconds_def)
  next
    assume "rfc_text_le a b"
    then have "nat a div 1000000000 \<le> nat b div 1000000000"
      by (auto simp: rfc_text_le_def whole_seconds_def)
    moreover have "nat b div 1000000000 * 1000000000 \<le> nat b"
      by simp
    ultimately have "nat a < nat b + 1000000000"
      using bnd [of "nat a"] by linarith
    then show "a < b + Second"
      using assms by (simp add: Second_def)
  }
qed

end
