(* ===== verification/Outbox.thy ===== *)
theory Outbox
  imports Sql Go_Time
begin

text \<open>
  The transactional outbox (internal/events): job events and their validation (job.go), the
  \<open>outbox_events\<close> table of api.db with its store (outbox.go), the publisher that drains it into the
  broker (publisher.go), and the consumer side that settles broker messages (consumer.go). The
  \<open>payload_json\<close> column is represented by the event it encodes; a broker message is the event its
  bytes decode to, or \<open>None\<close> for bytes \<open>encoding/json\<close> refuses. Trace contexts are telemetry and are
  left out of the event.
\<close>

subsection \<open>Job events\<close>

definition KindDeleteSecret :: string where "KindDeleteSecret = ''delete_secret''"
definition KindDeleteOCIObject :: string where "KindDeleteOCIObject = ''delete_oci_object''"
definition ReasonConsumed :: string where "ReasonConsumed = ''consumed''"
definition ReasonExpired :: string where "ReasonExpired = ''expired''"
definition ReasonOrphan :: string where "ReasonOrphan = ''orphan''"
definition ReasonManual :: string where "ReasonManual = ''manual''"
definition ReasonRetry :: string where "ReasonRetry = ''retry''"

lemmas event_constants [go_simps] = KindDeleteSecret_def KindDeleteOCIObject_def ReasonConsumed_def
  ReasonExpired_def ReasonOrphan_def ReasonManual_def ReasonRetry_def

datatype events_error = ErrInvalidEvent string | ErrEventNotFound | ErrEvents string

record job_event =
  JobID :: string
  JobKind :: string
  SecretID :: string
  ObjectKey :: string
  Reason :: string
  RequestedAt :: time

definition validReason :: "string \<Rightarrow> bool" where
  "validReason reason \<longleftrightarrow>
     reason \<in> {ReasonConsumed, ReasonExpired, ReasonOrphan, ReasonManual, ReasonRetry}"

definition Validate :: "job_event \<Rightarrow> events_error + unit" where
  "Validate e =
     (if trimSpace (JobID e) = [] then Inl (ErrInvalidEvent ''job_id is required'')
      else if RequestedAt e = 0 then Inl (ErrInvalidEvent ''requested_at is required'')
      else if JobKind e = KindDeleteSecret then
        (if trimSpace (SecretID e) = [] then Inl (ErrInvalidEvent ''secret_id is required'')
         else if Reason e \<noteq> [] \<and> \<not> validReason (Reason e)
         then Inl (ErrInvalidEvent ''unsupported reason'') else Inr ())
      else if JobKind e = KindDeleteOCIObject then
        (if trimSpace (ObjectKey e) = [] then Inl (ErrInvalidEvent ''object_key is required'')
         else if Reason e \<noteq> [] \<and> \<not> validReason (Reason e)
         then Inl (ErrInvalidEvent ''unsupported reason'') else Inr ())
      else Inl (ErrInvalidEvent ''unsupported kind''))"

text \<open>\<open>JSON\<close> marshals a valid event; \<open>DecodeJobEvent\<close> validates what the bytes decode to.\<close>

definition JobEvent_JSON :: "job_event \<Rightarrow> events_error + job_event" where
  "JobEvent_JSON e = (case Validate e of Inl err \<Rightarrow> Inl err | Inr _ \<Rightarrow> Inr e)"

definition DecodeJobEvent :: "job_event option \<Rightarrow> events_error + job_event" where
  "DecodeJobEvent raw =
     (case raw of
        None \<Rightarrow> Inl (ErrInvalidEvent ''decode job event'')
      | Some e \<Rightarrow> (case Validate e of Inl err \<Rightarrow> Inl err | Inr _ \<Rightarrow> Inr e))"

subsection \<open>The outbox table\<close>

definition StatePending :: string where "StatePending = ''pending''"
definition StatePublished :: string where "StatePublished = ''published''"
definition OutboxFailed :: string where "OutboxFailed = ''failed''"

lemmas outbox_states [go_simps] = StatePending_def StatePublished_def OutboxFailed_def

lemma outbox_states_differ [simp]:
  "StatePending \<noteq> StatePublished" "OutboxFailed \<noteq> StatePublished" "StatePending \<noteq> OutboxFailed"
  by (simp_all add: outbox_states)

record outbox_row =
  o_id :: string
  o_subject :: string
  o_payload :: job_event
  o_state :: string
  o_attempts :: int
  o_next_attempt_at :: time
  o_published_at :: "time option"
  o_last_error :: "string option"
  o_created_at :: time
  o_updated_at :: time

type_synonym outbox = "outbox_row list"

definition outbox_check :: "outbox_row \<Rightarrow> bool" where
  "outbox_check r \<longleftrightarrow> o_state r \<in> {StatePending, StatePublished, OutboxFailed} \<and> 0 \<le> o_attempts r"

definition EnqueueTx ::
  "string \<Rightarrow> time \<Rightarrow> faults \<Rightarrow> job_event \<Rightarrow> outbox \<Rightarrow> (events_error + outbox_row) \<times> outbox" where
  "EnqueueTx subject now io event t =
     (case JobEvent_JSON event of
        Inl err \<Rightarrow> (Inl err, t)
      | Inr payload \<Rightarrow>
          let row = \<lparr>o_id = JobID event, o_subject = subject, o_payload = payload,
                     o_state = StatePending, o_attempts = 0, o_next_attempt_at = now,
                     o_published_at = None, o_last_error = None, o_created_at = now,
                     o_updated_at = now\<rparr>
          in if io ''insert outbox event'' then (Inl (ErrEvents ''insert outbox event''), t)
             else (case sql_insert o_id row t of
                     None \<Rightarrow> (Inl (ErrEvents ''insert outbox event''), t)
                   | Some t' \<Rightarrow> (Inr row, t')))"

definition Enqueue ::
  "string \<Rightarrow> time \<Rightarrow> faults \<Rightarrow> job_event \<Rightarrow> outbox \<Rightarrow> (events_error + outbox_row) \<times> outbox" where
  "Enqueue subject now io event t =
     (if io ''begin enqueue outbox event'' then (Inl (ErrEvents ''begin enqueue outbox event''), t)
      else (case EnqueueTx subject now io event t of
              (Inl err, _) \<Rightarrow> (Inl err, t)
            | (Inr record, t') \<Rightarrow>
                if io ''commit enqueue outbox event''
                then (Inl (ErrEvents ''commit enqueue outbox event''), t)
                else (Inr record, t')))"

definition scanOutboxRecord :: "outbox_row \<Rightarrow> events_error + outbox_row" where
  "scanOutboxRecord r =
     (case DecodeJobEvent (Some (o_payload r)) of Inl err \<Rightarrow> Inl err | Inr _ \<Rightarrow> Inr r)"

fun scan_rows :: "outbox_row list \<Rightarrow> events_error + outbox_row list" where
  "scan_rows [] = Inr []"
| "scan_rows (r # rs) =
     (case scanOutboxRecord r of
        Inl err \<Rightarrow> Inl err
      | Inr r' \<Rightarrow> (case scan_rows rs of Inl err \<Rightarrow> Inl err | Inr rs' \<Rightarrow> Inr (r' # rs')))"

text \<open>\<open>order by next_attempt_at, created_at\<close> on the RFC3339Nano texts.\<close>

definition due_order :: "outbox_row \<Rightarrow> outbox_row \<Rightarrow> bool" where
  "due_order a b \<longleftrightarrow>
     rfc_text_le (o_next_attempt_at a) (o_next_attempt_at b) \<and>
     (o_next_attempt_at a = o_next_attempt_at b \<longrightarrow> rfc_text_le (o_created_at a) (o_created_at b))"

definition due :: "time \<Rightarrow> outbox_row \<Rightarrow> bool" where
  "due dueAt r \<longleftrightarrow>
     o_state r \<in> {StatePending, OutboxFailed} \<and> rfc_text_le (o_next_attempt_at r) dueAt"

definition ListDue :: "faults \<Rightarrow> time \<Rightarrow> int \<Rightarrow> outbox \<Rightarrow> events_error + outbox_row list" where
  "ListDue io dueAt limit t =
     (if limit \<le> 0 then Inl (ErrEvents ''limit must be positive'')
      else if io ''list due outbox events'' then Inl (ErrEvents ''list due outbox events'')
      else (case scan_rows (sql_top due_order (nat limit) (filter (due dueAt) t)) of
              Inl err \<Rightarrow> Inl err
            | Inr records \<Rightarrow>
                if io ''iterate due outbox events'' then Inl (ErrEvents ''iterate due outbox events'')
                else Inr records))"

definition requireAffected :: "faults \<Rightarrow> nat \<Rightarrow> events_error + unit" where
  "requireAffected io affected =
     (if io ''read affected rows'' then Inl (ErrEvents ''read affected rows'')
      else if affected \<noteq> 1 then Inl ErrEventNotFound
      else Inr ())"

definition MarkPublished ::
  "time \<Rightarrow> faults \<Rightarrow> string \<Rightarrow> outbox \<Rightarrow> (events_error + unit) \<times> outbox" where
  "MarkPublished now io i t =
     (let p = (\<lambda>r. o_id r = i \<and> o_state r \<noteq> StatePublished) in
      if io ''mark outbox event published'' then (Inl (ErrEvents ''mark outbox event published''), t)
      else (requireAffected io (sql_count p t),
            sql_update p (\<lambda>r. r\<lparr>o_state := StatePublished, o_published_at := Some now,
              o_last_error := None, o_updated_at := now\<rparr>) t))"

definition OutboxMarkFailed ::
  "time \<Rightarrow> faults \<Rightarrow> string \<Rightarrow> string option \<Rightarrow> time \<Rightarrow> outbox \<Rightarrow> (events_error + unit) \<times> outbox" where
  "OutboxMarkFailed now io i publishErr nextAttemptAt t =
     (case publishErr of
        None \<Rightarrow> (Inl (ErrEvents ''publish error is required''), t)
      | Some msg \<Rightarrow>
          if nextAttemptAt = 0 then (Inl (ErrEvents ''next attempt time is required''), t)
          else let p = (\<lambda>r. o_id r = i \<and> o_state r \<noteq> StatePublished) in
            if io ''mark outbox event failed'' then (Inl (ErrEvents ''mark outbox event failed''), t)
            else (requireAffected io (sql_count p t),
                  sql_update p (\<lambda>r. r\<lparr>o_state := OutboxFailed, o_attempts := o_attempts r + 1,
                    o_next_attempt_at := nextAttemptAt, o_last_error := Some msg,
                    o_updated_at := now\<rparr>) t))"

subsection \<open>The publisher\<close>

text \<open>\<open>NewOutboxPublisher\<close>'s retry delay, and one publishing pass. The broker's answer for each record
  is \<open>pub\<close>: \<open>None\<close> when the publish is acknowledged, else the error text. \<open>clk\<close> and \<open>io\<close> give the
  store's clock and faults at each record. The pass returns its error, the counts, and what reached
  the broker.\<close>

definition publisher_retry_delay :: "duration \<Rightarrow> duration" where
  "publisher_retry_delay d = (if d \<le> 0 then 30 * Second else d)"

record publish_result =
  Published :: nat
  Failed :: nat

fun publish_loop ::
  "duration \<Rightarrow> time \<Rightarrow> (string \<Rightarrow> time) \<Rightarrow> (string \<Rightarrow> faults) \<Rightarrow> (outbox_row \<Rightarrow> string option) \<Rightarrow>
   publish_result \<Rightarrow> job_event list \<Rightarrow> outbox_row list \<Rightarrow> outbox \<Rightarrow>
   events_error option \<times> publish_result \<times> job_event list \<times> outbox" where
  "publish_loop delay now clk io pub res sent [] t = (None, res, sent, t)"
| "publish_loop delay now clk io pub res sent (r # rs) t =
     (case pub r of
        Some err \<Rightarrow>
          (case OutboxMarkFailed (clk (o_id r)) (io (o_id r)) (o_id r) (Some err) (now + delay) t of
             (Inl e, t') \<Rightarrow> (Some e, res, sent, t')
           | (Inr _, t') \<Rightarrow> publish_loop delay now clk io pub (res\<lparr>Failed := Failed res + 1\<rparr>) sent rs t')
      | None \<Rightarrow>
          (case MarkPublished (clk (o_id r)) (io (o_id r)) (o_id r) t of
             (Inl e, t') \<Rightarrow> (Some e, res, sent @ [o_payload r], t')
           | (Inr _, t') \<Rightarrow>
               publish_loop delay now clk io pub (res\<lparr>Published := Published res + 1\<rparr>)
                 (sent @ [o_payload r]) rs t'))"

definition PublishDue ::
  "duration \<Rightarrow> time \<Rightarrow> (string \<Rightarrow> time) \<Rightarrow> (string \<Rightarrow> faults) \<Rightarrow> (outbox_row \<Rightarrow> string option) \<Rightarrow>
   int \<Rightarrow> outbox \<Rightarrow> events_error option \<times> publish_result \<times> job_event list \<times> outbox" where
  "PublishDue delay now clk io pub limit t =
     (let zero = \<lparr>Published = 0, Failed = 0\<rparr> in
      if limit \<le> 0 then (Some (ErrEvents ''limit must be positive''), zero, [], t)
      else (case ListDue (io []) now limit t of
              Inl err \<Rightarrow> (Some err, zero, [], t)
            | Inr records \<Rightarrow> publish_loop delay now clk io pub zero [] records t))"

subsection \<open>The consumer\<close>

definition MessageAck :: string where "MessageAck = ''ack''"
definition MessageRetry :: string where "MessageRetry = ''retry''"
definition MessageTerminate :: string where "MessageTerminate = ''terminate''"

lemmas message_actions [go_simps] = MessageAck_def MessageRetry_def MessageTerminate_def

record consumer_result =
  Acked :: nat
  Naked :: nat
  Terminated :: nat

datatype process_error = InvalidEventError | OtherProcessError string

definition resolveMessageAction :: "string \<Rightarrow> process_error option \<Rightarrow> events_error + string" where
  "resolveMessageAction action processErr =
     (if action \<in> {MessageAck, MessageRetry, MessageTerminate} then Inr action
      else if action \<noteq> [] then Inl (ErrEvents ''unsupported message action'')
      else if processErr = Some InvalidEventError then Inr MessageTerminate
      else if processErr \<noteq> None then Inr MessageRetry
      else Inr MessageAck)"

text \<open>\<open>settle m a = True\<close>: the broker takes the settlement \<open>a\<close> of message \<open>m\<close>.\<close>

definition applyMessageAction :: "('m \<Rightarrow> string \<Rightarrow> bool) \<Rightarrow> 'm \<Rightarrow> string \<Rightarrow> events_error + unit" where
  "applyMessageAction settle m action =
     (if action = MessageAck then (if settle m action then Inr () else Inl (ErrEvents ''ack nats message''))
      else if action = MessageRetry then (if settle m action then Inr () else Inl (ErrEvents ''nak nats message''))
      else if action = MessageTerminate then
        (if settle m action then Inr () else Inl (ErrEvents ''term nats message''))
      else Inl (ErrEvents ''unsupported message action''))"

text \<open>The loop of \<open>ConsumeMessages\<close> threads the processor's state \<open>'s\<close> and logs the settlements.\<close>

fun ConsumeMessages ::
  "('s \<Rightarrow> 'm \<Rightarrow> (string \<times> process_error option) \<times> 's) \<Rightarrow> ('m \<Rightarrow> string \<Rightarrow> bool) \<Rightarrow>
   consumer_result \<Rightarrow> ('m \<times> string) list \<Rightarrow> 'm list \<Rightarrow> 's \<Rightarrow>
   events_error option \<times> consumer_result \<times> ('m \<times> string) list \<times> 's" where
  "ConsumeMessages proc settle res log [] s = (None, res, log, s)"
| "ConsumeMessages proc settle res log (m # ms) s =
     (case proc s m of ((action, err), s') \<Rightarrow>
        (case resolveMessageAction action err of
           Inl e \<Rightarrow> (Some e, res, log, s')
         | Inr a \<Rightarrow>
             (case applyMessageAction settle m a of
                Inl e \<Rightarrow> (Some e, res, log, s')
              | Inr _ \<Rightarrow>
                  ConsumeMessages proc settle
                    (if a = MessageAck then res\<lparr>Acked := Acked res + 1\<rparr>
                     else if a = MessageRetry then res\<lparr>Naked := Naked res + 1\<rparr>
                     else res\<lparr>Terminated := Terminated res + 1\<rparr>)
                    (log @ [(m, a)]) ms s')))"

subsection \<open>What an enqueue does\<close>

text \<open>The interface the stores use (Go's \<open>OutboxEnqueuer\<close>): a successful enqueue appends exactly its
  event to the jobs of the table, a failed one leaves the table alone.\<close>

locale enqueuer =
  fixes enq :: "'ev \<Rightarrow> 't \<Rightarrow> ('err + 'row) \<times> 't"
    and jobs :: "'t \<Rightarrow> 'ev list"
  assumes enq_ok: "enq e t = (Inr row, t') \<Longrightarrow> jobs t' = jobs t @ [e]"
    and enq_err: "enq e t = (Inl err, t') \<Longrightarrow> t' = t"
begin

text \<open>A queue loop that stops at the first error has added the events up to there, in order.\<close>

fun enq_all :: "'ev list \<Rightarrow> 't \<Rightarrow> 'err option \<times> 't" where
  "enq_all [] t = (None, t)"
| "enq_all (e # es) t =
     (case enq e t of (Inl err, t') \<Rightarrow> (Some err, t') | (Inr _, t') \<Rightarrow> enq_all es t')"

lemma enq_jobs_grow: "\<exists>es. jobs (snd (enq e t)) = jobs t @ es"
  by (cases "enq e t"; cases "fst (enq e t)") (auto dest: enq_ok enq_err)

lemma enq_all_ok: "enq_all es t = (None, t') \<Longrightarrow> jobs t' = jobs t @ es"
  by (induction es arbitrary: t) (auto split: prod.splits sum.splits dest: enq_ok)

lemma enq_all_prefix: "\<exists>ds. jobs (snd (enq_all es t)) = jobs t @ ds \<and> ds = take (length ds) es"
proof (induction es arbitrary: t)
  case (Cons e es)
  show ?case
  proof (cases "enq e t")
    case (Pair r t')
    show ?thesis
    proof (cases r)
      case (Inl err)
      with Pair show ?thesis by (auto dest: enq_err)
    next
      case (Inr row)
      with Pair have "jobs t' = jobs t @ [e]" by (auto dest: enq_ok)
      moreover obtain ds where "jobs (snd (enq_all es t')) = jobs t' @ ds" "ds = take (length ds) es"
        using Cons.IH by blast
      ultimately show ?thesis
        using Pair Inr by (intro exI [of _ "e # ds"]) simp
    qed
  qed
qed simp

end

definition outbox_jobs :: "outbox \<Rightarrow> job_event list" where
  "outbox_jobs t = map o_payload t"

lemma EnqueueTx_Inr:
  assumes "EnqueueTx subject now io e t = (Inr row, t')"
  shows "t' = t @ [row] \<and> JobID e \<notin> o_id ` set t \<and> Validate e = Inr () \<and>
    row = \<lparr>o_id = JobID e, o_subject = subject, o_payload = e, o_state = StatePending, o_attempts = 0,
      o_next_attempt_at = now, o_published_at = None, o_last_error = None, o_created_at = now,
      o_updated_at = now\<rparr>"
  using assms
  by (auto simp: EnqueueTx_def JobEvent_JSON_def Let_def sql_insert_Some
      split: sum.splits if_splits option.splits)

lemma EnqueueTx_rows:
  "r \<in> set (snd (EnqueueTx subject now io e t)) \<Longrightarrow> r \<in> set t \<or> o_next_attempt_at r = now"
  by (auto simp: EnqueueTx_def Let_def sql_insert_Some split: sum.splits if_splits option.splits)

lemma EnqueueTx_Inl: "EnqueueTx subject now io e t = (Inl err, t') \<Longrightarrow> t' = t"
  by (auto simp: EnqueueTx_def Let_def split: sum.splits if_splits option.splits)

lemma EnqueueTx_cases:
  obtains (err) err where "EnqueueTx subject now io e t = (Inl err, t)"
  | (ok) row where "EnqueueTx subject now io e t = (Inr row, t @ [row])" "o_payload row = e"
      "o_id row = JobID e" "o_state row = StatePending" "JobID e \<notin> o_id ` set t" "Validate e = Inr ()"
      "o_attempts row = 0"
proof (cases "EnqueueTx subject now io e t")
  case (Pair r t')
  show ?thesis
  proof (cases r)
    case (Inl x)
    with Pair err show ?thesis by (auto dest: EnqueueTx_Inl)
  next
    case (Inr row)
    with Pair ok [of row] show ?thesis
      using EnqueueTx_Inr [of subject now io e t row t'] by simp
  qed
qed

interpretation outbox_enq: enqueuer "EnqueueTx subject now io" outbox_jobs
  by unfold_locales (auto simp: outbox_jobs_def dest: EnqueueTx_Inr EnqueueTx_Inl)

text \<open>The table's invariant: unique ids, the CHECK clauses, and every payload a valid event under its
  own id, so that a scan never refuses a row.\<close>

definition outbox_row_ok :: "outbox_row \<Rightarrow> bool" where
  "outbox_row_ok r \<longleftrightarrow> outbox_check r \<and> Validate (o_payload r) = Inr () \<and> JobID (o_payload r) = o_id r"

abbreviation outbox_ok :: "outbox \<Rightarrow> bool" where
  "outbox_ok \<equiv> table_ok o_id outbox_row_ok"

lemma outbox_ok_EnqueueTx: "outbox_ok t \<Longrightarrow> outbox_ok (snd (EnqueueTx subject now io e t))"
  by (cases rule: EnqueueTx_cases [of subject now io e t])
    (auto simp: table_ok_def outbox_row_ok_def outbox_check_def)

lemma outbox_ok_MarkPublished: "outbox_ok t \<Longrightarrow> outbox_ok (snd (MarkPublished now io i t))"
  by (auto simp: MarkPublished_def Let_def outbox_row_ok_def outbox_check_def intro: table_ok_update)

lemma outbox_ok_MarkFailed:
  "outbox_ok t \<Longrightarrow> outbox_ok (snd (OutboxMarkFailed now io i err next t))"
  by (auto simp: OutboxMarkFailed_def Let_def outbox_row_ok_def outbox_check_def
      intro: table_ok_update split: option.splits)

lemma outbox_ok_publish_loop:
  "outbox_ok t \<Longrightarrow> outbox_ok (snd (snd (snd (publish_loop delay now clk io pub res sent rs t))))"
proof (induction rs arbitrary: res sent t)
  case (Cons r rs)
  have "outbox_ok (snd (OutboxMarkFailed (clk (o_id r)) (io (o_id r)) (o_id r) err (now + delay) t))" for err
    by (rule outbox_ok_MarkFailed [OF Cons.prems])
  moreover have "outbox_ok (snd (MarkPublished (clk (o_id r)) (io (o_id r)) (o_id r) t))"
    by (rule outbox_ok_MarkPublished [OF Cons.prems])
  ultimately show ?case
    using Cons.IH by (auto split: option.splits prod.splits sum.splits simp: split_beta)
qed simp

subsection \<open>Publishing\<close>

definition published_row :: "time \<Rightarrow> outbox_row \<Rightarrow> outbox_row" where
  "published_row now r = r\<lparr>o_state := StatePublished, o_published_at := Some now, o_last_error := None,
     o_updated_at := now\<rparr>"

definition failed_row :: "time \<Rightarrow> string \<Rightarrow> time \<Rightarrow> outbox_row \<Rightarrow> outbox_row" where
  "failed_row now err next r = r\<lparr>o_state := OutboxFailed, o_attempts := o_attempts r + 1,
     o_next_attempt_at := next, o_last_error := Some err, o_updated_at := now\<rparr>"

definition attempted_row ::
  "duration \<Rightarrow> time \<Rightarrow> (string \<Rightarrow> time) \<Rightarrow> (outbox_row \<Rightarrow> string option) \<Rightarrow> outbox_row \<Rightarrow> outbox_row" where
  "attempted_row delay now clk pub r =
     (case pub r of None \<Rightarrow> published_row (clk (o_id r)) r
      | Some err \<Rightarrow> failed_row (clk (o_id r)) err (now + delay) r)"

lemma attempted_row_id [simp]: "o_id (attempted_row delay now clk pub r) = o_id r"
  by (simp add: attempted_row_def published_row_def failed_row_def split: option.split)

lemma update_one_row:
  assumes "distinct (map o_id t)" "r \<in> set t" "o_state r \<noteq> StatePublished"
  shows "sql_update (\<lambda>x. o_id x = o_id r \<and> o_state x \<noteq> StatePublished) f t = map (\<lambda>x. if x = r then f r else x) t"
    and "sql_count (\<lambda>x. o_id x = o_id r \<and> o_state x \<noteq> StatePublished) t = 1"
  using assms
  by (auto simp: sql_update_def sql_count_key sql_row_unique distinct_map inj_on_def)

lemma MarkPublished_row:
  assumes "distinct (map o_id t)" "r \<in> set t" "o_state r \<noteq> StatePublished"
  shows "MarkPublished now no_faults (o_id r) t = (Inr (), map (\<lambda>x. if x = r then published_row now r else x) t)"
  by (simp add: MarkPublished_def Let_def update_one_row [OF assms] requireAffected_def published_row_def)

lemma MarkFailed_row:
  assumes "distinct (map o_id t)" "r \<in> set t" "o_state r \<noteq> StatePublished" "next \<noteq> 0"
  shows "OutboxMarkFailed now no_faults (o_id r) (Some err) next t =
    (Inr (), map (\<lambda>x. if x = r then failed_row now err next r else x) t)"
  using assms(4)
  by (simp add: OutboxMarkFailed_def Let_def update_one_row [OF assms(1-3)] requireAffected_def failed_row_def)

lemma publish_loop_step:
  assumes "distinct (map o_id t)" "r \<in> set t" "o_state r \<noteq> StatePublished" "now + delay \<noteq> 0"
  shows "publish_loop delay now clk (\<lambda>_. no_faults) pub res sent (r # rs) t =
    publish_loop delay now clk (\<lambda>_. no_faults) pub
      (if pub r = None then res\<lparr>Published := Published res + 1\<rparr> else res\<lparr>Failed := Failed res + 1\<rparr>)
      (if pub r = None then sent @ [o_payload r] else sent) rs
      (map (\<lambda>x. if x = r then attempted_row delay now clk pub r else x) t)"
proof (cases "pub r")
  case None
  then have "attempted_row delay now clk pub r = published_row (clk (o_id r)) r"
    by (simp add: attempted_row_def)
  with None assms show ?thesis by (simp add: MarkPublished_row cong: if_cong)
next
  case (Some err)
  then have "attempted_row delay now clk pub r = failed_row (clk (o_id r)) err (now + delay) r"
    by (simp add: attempted_row_def)
  with Some assms show ?thesis by (simp add: MarkFailed_row cong: if_cong)
qed

lemma publish_loop_spec:
  assumes "distinct (map o_id t)" "set rs \<subseteq> set t" "distinct (map o_id rs)"
    and "\<forall>r\<in>set rs. o_state r \<noteq> StatePublished" and "now + delay \<noteq> 0"
  shows "publish_loop delay now clk (\<lambda>_. no_faults) pub res sent rs t =
    (None,
     \<lparr>Published = Published res + length (filter (\<lambda>r. pub r = None) rs),
      Failed = Failed res + length (filter (\<lambda>r. pub r \<noteq> None) rs)\<rparr>,
     sent @ map o_payload (filter (\<lambda>r. pub r = None) rs),
     map (\<lambda>x. if x \<in> set rs then attempted_row delay now clk pub x else x) t)"
  using assms(1-4)
proof (induction rs arbitrary: res sent t)
  case (Cons r rs)
  let ?t = "map (\<lambda>x. if x = r then attempted_row delay now clk pub r else x) t"
  have "map o_id ?t = map o_id t" by simp
  then have ids: "distinct (map o_id ?t)"
    using Cons.prems(1) by (rule back_subst [of distinct, OF _ sym, rotated])
  have rest: "r \<notin> set rs" "attempted_row delay now clk pub r \<notin> set rs"
    using Cons.prems(3) attempted_row_id [of delay now clk pub r] by (auto simp: image_iff)
  have sub: "set rs \<subseteq> set ?t"
    using Cons.prems(2) rest by auto
  have "publish_loop delay now clk (\<lambda>_. no_faults) pub res sent (r # rs) t =
    publish_loop delay now clk (\<lambda>_. no_faults) pub
      (if pub r = None then res\<lparr>Published := Published res + 1\<rparr> else res\<lparr>Failed := Failed res + 1\<rparr>)
      (if pub r = None then sent @ [o_payload r] else sent) rs ?t"
    by (rule publish_loop_step) (use Cons.prems assms(5) in auto)
  also have "\<dots> = (None,
     \<lparr>Published = Published res + length (filter (\<lambda>r. pub r = None) (r # rs)),
      Failed = Failed res + length (filter (\<lambda>r. pub r \<noteq> None) (r # rs))\<rparr>,
     sent @ map o_payload (filter (\<lambda>r. pub r = None) (r # rs)),
     map (\<lambda>x. if x \<in> set rs then attempted_row delay now clk pub x else x) ?t)"
    using Cons.prems(3,4) by (subst Cons.IH [OF ids sub]) auto
  also have "map (\<lambda>x. if x \<in> set rs then attempted_row delay now clk pub x else x) ?t =
    map (\<lambda>x. if x \<in> set (r # rs) then attempted_row delay now clk pub x else x) t"
    using rest by auto
  finally show ?case .
qed simp

lemma scan_rows_ok: "list_all outbox_row_ok rs \<Longrightarrow> scan_rows rs = Inr rs"
  by (induction rs) (auto simp: scanOutboxRecord_def DecodeJobEvent_def outbox_row_ok_def)

lemma ListDue_ok:
  assumes "outbox_ok t" "0 < limit"
  shows "ListDue no_faults dueAt limit t = Inr (sql_top due_order (nat limit) (filter (due dueAt) t))"
proof -
  have "list_all outbox_row_ok (sql_top due_order (nat limit) (filter (due dueAt) t))"
    using assms(1) by (auto simp: list_all_iff table_ok_def dest: in_sql_topD)
  with assms(2) show ?thesis
    by (simp add: ListDue_def scan_rows_ok)
qed

text \<open>
  One publishing pass without faults is a single update of the table. The rows it attempts are the
  first \<open>limit\<close> due rows; each one the broker acknowledges becomes published, each one the broker
  refuses becomes failed with one more attempt and the retry delay added, every other row is left
  alone, the counts are exact and what reached the broker is exactly the payloads acknowledged.
\<close>

theorem PublishDue_spec:
  assumes "outbox_ok t" "0 < limit" "now + delay \<noteq> 0"
  shows "PublishDue delay now clk (\<lambda>_. no_faults) pub limit t =
    (let rs = sql_top due_order (nat limit) (filter (due now) t) in
     (None,
      \<lparr>Published = length (filter (\<lambda>r. pub r = None) rs), Failed = length (filter (\<lambda>r. pub r \<noteq> None) rs)\<rparr>,
      map o_payload (filter (\<lambda>r. pub r = None) rs),
      map (\<lambda>x. if x \<in> set rs then attempted_row delay now clk pub x else x) t))"
proof -
  let ?rs = "sql_top due_order (nat limit) (filter (due now) t)"
  have d: "distinct (map o_id t)"
    using assms(1) by (rule table_ok_distinct)
  have "set ?rs \<subseteq> set t" "\<forall>r\<in>set ?rs. o_state r \<noteq> StatePublished"
    by (auto dest!: in_sql_topD simp: due_def outbox_states)
  moreover have "distinct (map o_id ?rs)"
    by (rule distinct_sql_top) (use d in \<open>simp add: distinct_map_filter\<close>)
  ultimately show ?thesis
    using d assms by (simp add: PublishDue_def ListDue_ok publish_loop_spec Let_def)
qed

definition example_job :: "string \<Rightarrow> job_event" where
  "example_job i = \<lparr>JobID = i, JobKind = KindDeleteSecret, SecretID = ''s'', ObjectKey = [],
     Reason = ReasonConsumed, RequestedAt = 1\<rparr>"

definition example_outbox :: outbox where
  "example_outbox = snd (EnqueueTx ''jobs'' 5 no_faults (example_job ''j1'')
     (snd (EnqueueTx ''jobs'' 7 no_faults (example_job ''j2'') [])))"

lemma example_outbox_ok: "outbox_ok example_outbox"
  by (simp add: example_outbox_def outbox_ok_EnqueueTx)

theorem PublishDue_spec_witness:
  "PublishDue Second 9 (\<lambda>_. 9) (\<lambda>_. no_faults) (\<lambda>r. if o_id r = ''j1'' then None else Some ''down'') 10 example_outbox =
    (let rs = sql_top due_order 10 (filter (due 9) example_outbox);
         pub = (\<lambda>r. if o_id r = ''j1'' then None else Some ''down'') in
     (None,
      \<lparr>Published = length (filter (\<lambda>r. pub r = None) rs), Failed = length (filter (\<lambda>r. pub r \<noteq> None) rs)\<rparr>,
      map o_payload (filter (\<lambda>r. pub r = None) rs),
      map (\<lambda>x. if x \<in> set rs then attempted_row Second 9 (\<lambda>_. 9) pub x else x) example_outbox))"
  using PublishDue_spec [OF example_outbox_ok, of 10 9 Second "\<lambda>_. 9"
      "\<lambda>r. if o_id r = ''j1'' then None else Some ''down''"]
  by (simp add: Second_def Let_def)

text \<open>What a pass, faults included, may do to the table: \<open>sent\<close> is what the broker has acknowledged.\<close>

definition delivered_row :: "job_event list \<Rightarrow> outbox_row \<Rightarrow> outbox_row \<Rightarrow> bool" where
  "delivered_row sent a b \<longleftrightarrow> o_id b = o_id a \<and> o_payload b = o_payload a \<and>
     (o_state a = StatePublished \<longrightarrow> b = a) \<and>
     (o_state a \<noteq> StatePublished \<and> o_state b = StatePublished \<longrightarrow> o_payload a \<in> set sent)"

lemma delivered_refl: "list_all2 (delivered_row sent) t t"
  by (rule list_all2_refl) (simp add: delivered_row_def)

lemma delivered_update:
  assumes "list_all2 (delivered_row sent) t0 t" "distinct (map o_id t0)" "r \<in> set t0"
    and "\<And>b. o_id (f b) = o_id b \<and> o_payload (f b) = o_payload b"
    and "\<And>b. o_state (f b) = StatePublished \<Longrightarrow> o_payload r \<in> set sent'"
    and "set sent \<subseteq> set sent'"
  shows "list_all2 (delivered_row sent') t0
    (sql_update (\<lambda>x. o_id x = o_id r \<and> o_state x \<noteq> StatePublished) f t)"
  unfolding sql_update_def list_all2_map2
  using assms(1)
proof (rule list.rel_mono_strong)
  fix a b assume ab: "a \<in> set t0" "b \<in> set t" "delivered_row sent a b"
  have "o_id a = o_id r \<Longrightarrow> a = r"
    using assms(2,3) ab(1) by (auto simp: distinct_map inj_on_def)
  then show "delivered_row sent' a (if o_id b = o_id r \<and> o_state b \<noteq> StatePublished then f b else b)"
    using ab(3) assms(4-6) by (auto simp: delivered_row_def)
qed

lemma delivered_MarkPublished:
  assumes "list_all2 (delivered_row sent) t0 t" "distinct (map o_id t0)" "r \<in> set t0"
  shows "list_all2 (delivered_row (sent @ [o_payload r])) t0 (snd (MarkPublished now io (o_id r) t))"
proof -
  have "list_all2 (delivered_row (sent @ [o_payload r])) t0 t"
    using assms(1) by (rule list.rel_mono_strong) (auto simp: delivered_row_def)
  with assms show ?thesis
    by (auto simp: MarkPublished_def Let_def intro: delivered_update)
qed

lemma delivered_MarkFailed:
  assumes "list_all2 (delivered_row sent) t0 t" "distinct (map o_id t0)" "r \<in> set t0"
  shows "list_all2 (delivered_row sent) t0 (snd (OutboxMarkFailed now io (o_id r) err next t))"
  using assms
  by (auto simp: OutboxMarkFailed_def Let_def split: option.split intro!: delivered_update [of sent t0 t r])

lemma publish_loop_delivered:
  assumes "distinct (map o_id t0)" "set rs \<subseteq> set t0" "list_all2 (delivered_row sent) t0 t"
    and "publish_loop delay now clk io pub res sent rs t = (err, res', sent', t')"
  shows "list_all2 (delivered_row sent') t0 t'"
  using assms(2-4)
proof (induction rs arbitrary: res sent t)
  case (Cons r rs)
  then have r: "r \<in> set t0" "set rs \<subseteq> set t0" by auto
  note mf = delivered_MarkFailed [OF Cons.prems(2) assms(1) r(1)]
    and mp = delivered_MarkPublished [OF Cons.prems(2) assms(1) r(1)]
  show ?case
  proof (cases "pub r")
    case None
    then show ?thesis
      using Cons.prems(3) Cons.IH [OF r(2)] mp [of "clk (o_id r)" "io (o_id r)"]
      by (auto split: prod.splits sum.splits)
  next
    case (Some e)
    then show ?thesis
      using Cons.prems(3) Cons.IH [OF r(2)] mf [of "clk (o_id r)" "io (o_id r)" "Some e" "now + delay"]
      by (auto split: prod.splits sum.splits)
  qed
qed simp

lemma set_scan_rows: "scan_rows rs = Inr rs' \<Longrightarrow> rs' = rs"
  by (induction rs arbitrary: rs') (auto simp: scanOutboxRecord_def split: sum.splits)

lemma ListDue_subset: "ListDue io dueAt limit t = Inr rs \<Longrightarrow> set rs \<subseteq> set t"
  by (auto simp: ListDue_def split: if_splits sum.splits dest!: set_scan_rows in_sql_topD)

text \<open>
  C17: No job is lost, whatever fails. A publishing pass keeps every row with its id and payload, never
  touches a row that was already published, and marks a row published only when the broker has
  acknowledged that row's payload in this pass.
\<close>

theorem PublishDue_no_loss:
  assumes "outbox_ok t" "PublishDue delay now clk io pub limit t = (err, res, sent, t')"
  shows "list_all2 (delivered_row sent) t t'"
proof -
  have "distinct (map o_id t)"
    using assms(1) by (rule table_ok_distinct)
  then show ?thesis
    using assms(2)
    by (auto simp: PublishDue_def Let_def delivered_refl split: if_splits sum.splits
        dest!: ListDue_subset intro: publish_loop_delivered [OF _ _ delivered_refl])
qed

theorem PublishDue_no_loss_witness:
  "\<exists>err res sent t'.
     PublishDue Second 9 (\<lambda>_. 9) (\<lambda>i l. i = ''j1'') (\<lambda>_. None) 10 example_outbox = (err, res, sent, t') \<and>
     list_all2 (delivered_row sent) example_outbox t'"
  using PublishDue_no_loss [OF example_outbox_ok, of Second 9 "\<lambda>_. 9" "\<lambda>i l. i = ''j1''" "\<lambda>_. None" 10]
  by (metis prod_cases4)

subsection \<open>What is due\<close>

text \<open>
  C25: \<open>ListDue\<close> compares RFC3339Nano texts, and that is right up to one second. Every record it
  returns is pending or failed and due less than a second later than asked; and when it returns fewer
  records than the limit, every pending or failed row that has been due for a second is among them.
\<close>

theorem ListDue_within_second:
  assumes "outbox_ok t" "0 < limit" "0 \<le> dueAt" "\<forall>r\<in>set t. 0 \<le> o_next_attempt_at r"
  shows "\<exists>rs. ListDue no_faults dueAt limit t = Inr rs \<and> length rs \<le> nat limit \<and> distinct (map o_id rs) \<and>
    (\<forall>r\<in>set rs. r \<in> set t \<and> o_state r \<noteq> StatePublished \<and> o_next_attempt_at r < dueAt + Second) \<and>
    (length rs < nat limit \<longrightarrow>
       (\<forall>r\<in>set t. o_state r \<noteq> StatePublished \<and> o_next_attempt_at r + Second \<le> dueAt \<longrightarrow> r \<in> set rs))"
proof -
  let ?due = "filter (due dueAt) t" and ?rs = "sql_top due_order (nat limit) (filter (due dueAt) t)"
  have l: "ListDue no_faults dueAt limit t = Inr ?rs"
    using assms by (simp add: ListDue_ok)
  have d: "distinct (map o_id ?rs)"
    using assms(1) by (intro distinct_sql_top) (simp add: table_ok_def distinct_map_filter)
  have s: "\<forall>r\<in>set ?rs. r \<in> set t \<and> o_state r \<noteq> StatePublished \<and> o_next_attempt_at r < dueAt + Second"
    using assms(3,4) by (auto dest!: in_sql_topD simp: due_def outbox_states rfc_text_le_within_second)
  have c: "r \<in> set ?rs"
    if "length ?rs < nat limit" "r \<in> set t" "o_state r \<noteq> StatePublished" "o_next_attempt_at r + Second \<le> dueAt" for r
  proof -
    have "outbox_check r"
      using table_ok_chk [OF assms(1) that(2)] by (simp add: outbox_row_ok_def)
    then have "due dueAt r"
      using that assms(3,4) by (auto simp: due_def outbox_check_def rfc_text_le_within_second)
    moreover have "set ?rs = set ?due"
      using that(1) by (intro sql_top_all) (simp add: length_sql_top)
    ultimately show ?thesis using that(2) by simp
  qed
  have "length ?rs \<le> nat limit"
    by (simp add: length_sql_top)
  with l d s c show ?thesis
    by (intro exI [of _ ?rs] conjI) blast+
qed

theorem ListDue_within_second_witness:
  "\<exists>rs. ListDue no_faults (2 * Second) 5 example_outbox = Inr rs \<and> length rs \<le> nat 5 \<and> distinct (map o_id rs) \<and>
    (\<forall>r\<in>set rs. r \<in> set example_outbox \<and> o_state r \<noteq> StatePublished \<and>
       o_next_attempt_at r < 2 * Second + Second) \<and>
    (length rs < nat 5 \<longrightarrow>
       (\<forall>r\<in>set example_outbox. o_state r \<noteq> StatePublished \<and> o_next_attempt_at r + Second \<le> 2 * Second \<longrightarrow>
          r \<in> set rs))"
proof -
  have "o_next_attempt_at r = 5 \<or> o_next_attempt_at r = 7" if "r \<in> set example_outbox" for r
    using that unfolding example_outbox_def by (metis EnqueueTx_rows empty_iff empty_set)
  then have "\<forall>r\<in>set example_outbox. 0 \<le> o_next_attempt_at r"
    by fastforce
  then show ?thesis
    by (intro ListDue_within_second [OF example_outbox_ok]) (simp_all add: Second_def)
qed

text \<open>Within the second it can be wrong: a row due at a whole second is not listed half a second later.\<close>

lemma ListDue_misses_due_row:
  "due (Second + 500000000) \<lparr>o_id = ''j'', o_subject = ''jobs'', o_payload = example_job ''j'', o_state = StatePending,
     o_attempts = 0, o_next_attempt_at = Second, o_published_at = None, o_last_error = None,
     o_created_at = Second, o_updated_at = Second\<rparr> = False"
  by (simp add: due_def rfc_text_le_def whole_seconds_def nanos_def Second_def nano_text_def
      del: pad_digits.simps)

subsection \<open>Settling messages\<close>

lemma ConsumeMessages_log:
  "ConsumeMessages proc settle res log ms s = (err, res', log', s') \<Longrightarrow>
   \<exists>new. log' = log @ new \<and> map fst new = take (length new) ms \<and>
     (err = None \<longrightarrow> length new = length ms) \<and>
     (\<forall>(m, a)\<in>set new. settle m a) \<and>
     Acked res' = Acked res + length (filter (\<lambda>(m, a). a = MessageAck) new) \<and>
     Naked res' = Naked res + length (filter (\<lambda>(m, a). a = MessageRetry) new) \<and>
     Terminated res' = Terminated res + length (filter (\<lambda>(m, a). a = MessageTerminate) new)"
proof (induction ms arbitrary: res log s)
  case (Cons m ms)
  obtain action perr s1 where p: "proc s m = ((action, perr), s1)"
    by (metis prod.exhaust)
  show ?case
  proof (cases "\<exists>a. resolveMessageAction action perr = Inr a \<and> applyMessageAction settle m a = Inr ()")
    case True
    then obtain a where a: "resolveMessageAction action perr = Inr a" "applyMessageAction settle m a = Inr ()"
      by blast
    have set_a: "settle m a" "a \<in> {MessageAck, MessageRetry, MessageTerminate}"
      using a(2) by (auto simp: applyMessageAction_def split: if_splits)
    let ?res = "if a = MessageAck then res\<lparr>Acked := Acked res + 1\<rparr>
      else if a = MessageRetry then res\<lparr>Naked := Naked res + 1\<rparr> else res\<lparr>Terminated := Terminated res + 1\<rparr>"
    have "ConsumeMessages proc settle ?res (log @ [(m, a)]) ms s1 = (err, res', log', s')"
      using Cons.prems p a by simp
    from Cons.IH [OF this] obtain new where "log' = (log @ [(m, a)]) @ new" "map fst new = take (length new) ms"
      "err = None \<longrightarrow> length new = length ms" "\<forall>(m, a)\<in>set new. settle m a"
      "Acked res' = Acked ?res + length (filter (\<lambda>(m, a). a = MessageAck) new)"
      "Naked res' = Naked ?res + length (filter (\<lambda>(m, a). a = MessageRetry) new)"
      "Terminated res' = Terminated ?res + length (filter (\<lambda>(m, a). a = MessageTerminate) new)"
      by blast
    with set_a show ?thesis
      by (intro exI [of _ "(m, a) # new"]) (auto simp: message_actions)
  next
    case False
    then have "log' = log \<and> res' = res \<and> err \<noteq> None"
      using Cons.prems p by (auto split: sum.splits)
    then show ?thesis by (intro exI [of _ "[]"]) simp
  qed
qed simp

text \<open>
  C26: \<open>ConsumeMessages\<close> settles messages once each and in order. The settlements it made are for a
  prefix of the batch, each accepted by the broker; without an error the whole batch is settled; and
  the three counters are exactly the numbers of acknowledged, retried and terminated messages.
\<close>

theorem ConsumeMessages_settles_in_order:
  assumes "ConsumeMessages proc settle \<lparr>Acked = 0, Naked = 0, Terminated = 0\<rparr> [] ms s = (err, res, log, s')"
  shows "map fst log = take (length log) ms \<and> (err = None \<longrightarrow> map fst log = ms) \<and>
    (\<forall>(m, a)\<in>set log. settle m a) \<and>
    res = \<lparr>Acked = length (filter (\<lambda>(m, a). a = MessageAck) log),
           Naked = length (filter (\<lambda>(m, a). a = MessageRetry) log),
           Terminated = length (filter (\<lambda>(m, a). a = MessageTerminate) log)\<rparr>"
  using ConsumeMessages_log [OF assms] by (cases res) auto

definition example_processor :: "nat \<Rightarrow> string \<Rightarrow> (string \<times> process_error option) \<times> nat" where
  "example_processor n m =
     ((if m = ''a'' then MessageAck else [], if m = ''x'' then Some InvalidEventError else None), n + 1)"

lemma example_processor_run:
  "ConsumeMessages example_processor (\<lambda>m a. m \<noteq> ''b'') \<lparr>Acked = 0, Naked = 0, Terminated = 0\<rparr> []
     [''a'', ''x'', ''b'', ''c''] 0 =
   (Some (ErrEvents ''ack nats message''), \<lparr>Acked = 1, Naked = 0, Terminated = 1\<rparr>,
    [(''a'', MessageAck), (''x'', MessageTerminate)], 3)"
  by (simp add: example_processor_def resolveMessageAction_def applyMessageAction_def message_actions)

theorem ConsumeMessages_settles_in_order_witness:
  "ConsumeMessages example_processor (\<lambda>m a. m \<noteq> ''b'') \<lparr>Acked = 0, Naked = 0, Terminated = 0\<rparr> []
     [''a'', ''x'', ''b'', ''c''] 0 =
   (Some (ErrEvents ''ack nats message''), \<lparr>Acked = 1, Naked = 0, Terminated = 1\<rparr>,
    [(''a'', MessageAck), (''x'', MessageTerminate)], 3) \<and>
   map fst [(''a'', MessageAck), (''x'', MessageTerminate)] = take 2 [''a'', ''x'', ''b'', ''c'']"
  using conjunct1 [OF ConsumeMessages_settles_in_order [OF example_processor_run]]
  by (intro conjI example_processor_run) simp

end
