(* ===== verification/Http.thy ===== *)
theory Http
  imports Base64 Sha256 Outbox
begin

text \<open>
  The HTTP vocabulary of the API (src/internal/httpapi/errors.go and the header helpers of router.go,
  secrets.go and requests.go): requests as the handlers read them, replies as they write them, bearer
  tokens and the comparison of secrets. A header map gives the list of values of a canonical name;
  \<open>Header().Set\<close> of a reply replaces. The JSON encoder of the standard library is not unfolded: a JSON
  reply carries the value that is encoded.
\<close>

record http_request =
  rq_method :: string
  rq_path :: string
  rq_rawQuery :: string
  rq_header :: "string \<Rightarrow> string list"
  rq_remoteAddr :: string

definition header_get :: "http_request \<Rightarrow> string \<Rightarrow> string" where
  "header_get r k = (case rq_header r k of [] \<Rightarrow> [] | v # _ \<Rightarrow> v)"

datatype 'a reply = NoBody | ErrorBody (err_code: string) (err_message: string) | JsonBody 'a | RawBody bytes

record 'a response =
  rs_status :: int
  rs_headers :: "(string \<times> string) list"
  rs_body :: "'a reply"

text \<open>Headers set before a handler runs: what the handler sets again wins.\<close>

definition after_headers :: "(string \<times> string) list \<Rightarrow> 'a response \<Rightarrow> 'a response" where
  "after_headers hs r = r\<lparr>rs_headers := rs_headers r @ filter (\<lambda>h. fst h \<notin> fst ` set (rs_headers r)) hs\<rparr>"

definition response_header :: "'a response \<Rightarrow> string \<Rightarrow> string option" where
  "response_header r k = map_of (rs_headers r) k"

definition writeJSON :: "int \<Rightarrow> 'a \<Rightarrow> 'a response" where
  "writeJSON status body =
     \<lparr>rs_status = status, rs_headers = [(''Content-Type'', ''application/json'')], rs_body = JsonBody body\<rparr>"

definition writeError :: "int \<Rightarrow> string \<Rightarrow> string \<Rightarrow> 'a response" where
  "writeError status code message =
     \<lparr>rs_status = status, rs_headers = [(''Content-Type'', ''application/json'')], rs_body = ErrorBody code message\<rparr>"

definition noContent :: "'a response" where
  "noContent = \<lparr>rs_status = 204, rs_headers = [], rs_body = NoBody\<rparr>"

subsection \<open>Bearer tokens\<close>

text \<open>\<open>strings.Cut(s, " ")\<close> and \<open>strings.EqualFold\<close>. Simple Unicode folding adds to the ASCII pairs only
  folds of \<open>k\<close> and \<open>s\<close>; the texts compared here, \<open>Bearer\<close> and \<open>bearer \<close>, have neither.\<close>

definition cut_space :: "string \<Rightarrow> string \<times> string \<times> bool" where
  "cut_space s = (case dropWhile (\<lambda>c. c \<noteq> CHR '' '') s of
     [] \<Rightarrow> (s, [], False)
   | _ # rest \<Rightarrow> (takeWhile (\<lambda>c. c \<noteq> CHR '' '') s, rest, True))"

definition lower :: "char \<Rightarrow> char" where
  "lower c = (if 65 \<le> byte c \<and> byte c \<le> 90 then char_of (byte c + 32) else c)"

definition equalFold :: "string \<Rightarrow> string \<Rightarrow> bool" where
  "equalFold s t = (map lower s = map lower t)"

definition managementBearer :: "http_request \<Rightarrow> string" where
  "managementBearer r =
     (case cut_space (header_get r ''Authorization'') of (scheme, token, _) \<Rightarrow>
        if \<not> equalFold scheme ''Bearer'' \<or> length (rq_header r ''Authorization'') \<noteq> 1 then [] else token)"

definition requestBearer :: "http_request \<Rightarrow> string" where
  "requestBearer r =
     (case cut_space (header_get r ''Authorization'') of (scheme, token, ok) \<Rightarrow>
        if \<not> ok \<or> \<not> equalFold scheme ''Bearer'' \<or> length (rq_header r ''Authorization'') \<noteq> 1 then [] else token)"

definition secureTokenEqual :: "string \<Rightarrow> string \<Rightarrow> bool" where
  "secureTokenEqual got want = (got \<noteq> [] \<and> want \<noteq> [] \<and> sha256 got = sha256 want)"

definition checkBearer :: "string \<Rightarrow> string \<Rightarrow> bool" where
  "checkBearer metricsToken header =
     (if length header < 7 \<or> \<not> equalFold (take 7 header) ''bearer '' then False
      else secureTokenEqual (drop 7 header) metricsToken)"

lemma cut_space_join: "CHR '' '' \<notin> set a \<Longrightarrow> cut_space (a @ CHR '' '' # t) = (a, t, True)"
proof -
  assume a: "CHR '' '' \<notin> set a"
  then have "dropWhile (\<lambda>c. c \<noteq> CHR '' '') (a @ CHR '' '' # t) = CHR '' '' # t"
    "takeWhile (\<lambda>c. c \<noteq> CHR '' '') (a @ CHR '' '' # t) = a"
    by (induction a) auto
  then show ?thesis by (simp add: cut_space_def)
qed

lemma requestBearer_token:
  "rq_header r ''Authorization'' = [''Bearer '' @ t] \<Longrightarrow> requestBearer r = t"
  using cut_space_join [of "''Bearer''" t] by (simp add: requestBearer_def header_get_def equalFold_def)

lemma requestBearer_eq_management:
  "requestBearer r = managementBearer r"
  by (auto simp: requestBearer_def managementBearer_def cut_space_def split: list.splits)

lemma status_writeError [simp]: "rs_status (writeError n c m) = n" "rs_body (writeError n c m) = ErrorBody c m"
  "rs_status (writeJSON n b) = n" "rs_body (writeJSON n b) = JsonBody b"
  by (simp_all add: writeError_def writeJSON_def)

lemma after_headers_frame [simp]: "rs_status (after_headers hs r) = rs_status r" "rs_body (after_headers hs r) = rs_body r"
  by (simp_all add: after_headers_def)

lemma after_headers_get:
  "response_header (after_headers hs r) k = (case response_header r k of Some v \<Rightarrow> Some v | None \<Rightarrow> map_of hs k)"
proof (cases "response_header r k")
  case None
  then have k: "k \<notin> fst ` set (rs_headers r)" by (simp add: response_header_def map_of_eq_None_iff)
  then have "map_of (filter (\<lambda>h. fst h \<notin> fst ` set (rs_headers r)) hs) k = map_of hs k"
    by (induction hs) auto
  with None k show ?thesis by (simp add: after_headers_def response_header_def map_add_def split: option.splits)
qed (simp add: after_headers_def response_header_def map_add_def map_of_append split: option.splits)

end
