(* ===== verification/Age_Format.thy ===== *)
theory Age_Format
  imports Base64
begin

text \<open>
  The size arithmetic and field checks for age files (internal/secrets/age.go, and \<open>isAgeFile\<close> and
  \<open>canonicalBase64\<close> of internal/requests/validation.go). Sizes are \<open>int64\<close> values: every sum is
  wrapped, and the theorems say for which sizes the wrap-around does not show.
\<close>

definition OpenStreamTimeout :: duration where "OpenStreamTimeout = 30 * Minute"
definition openObjectGrace :: duration where "openObjectGrace = OpenStreamTimeout + 5 * Minute"

definition AgeHeaderAllowanceBytes :: int where "AgeHeaderAllowanceBytes = 4096"
definition ageChunkBytes :: int where "ageChunkBytes = 64 * 1024"
definition ageTagBytes :: int where "ageTagBytes = 16"
definition agePayloadNonceBytes :: int where "agePayloadNonceBytes = 16"
definition maxWrappedIdentityBytes :: int where "maxWrappedIdentityBytes = 1024"
definition maxEncryptedFilenameBytes :: int where "maxEncryptedFilenameBytes = 8 * 1024"
definition maxContentTypeBytes :: int where "maxContentTypeBytes = 255"

lemmas age_constants [go_simps] = AgeHeaderAllowanceBytes_def ageChunkBytes_def ageTagBytes_def
  agePayloadNonceBytes_def maxWrappedIdentityBytes_def maxEncryptedFilenameBytes_def
  maxContentTypeBytes_def

definition ageMagic :: bytes where
  "ageMagic = ''age-encryption.org/v1'' @ [char_of (10::nat)]"

definition MaxCiphertextBytes :: "int \<Rightarrow> int" where
  "MaxCiphertextBytes n =
     (let chunks = max 1 (quot (wrap64 (n + ageChunkBytes - 1)) ageChunkBytes)
      in wrap64 (AgeHeaderAllowanceBytes + agePayloadNonceBytes + n + ageTagBytes * chunks))"

partial_function (option) max_plaintext_loop :: "int \<Rightarrow> int \<Rightarrow> int option" where
  "max_plaintext_loop c n =
     (if MaxCiphertextBytes (wrap64 (n + 1)) \<le> c then max_plaintext_loop c (wrap64 (n + 1))
      else Some n)"

definition max_plaintext_start :: "int \<Rightarrow> int" where
  "max_plaintext_start c =
     max 0 (wrap64 (c - AgeHeaderAllowanceBytes - agePayloadNonceBytes -
       ageTagBytes * quot (wrap64 (c + ageChunkBytes - 1)) ageChunkBytes))"

definition MaxPlaintextBytes :: "int \<Rightarrow> int option" where
  "MaxPlaintextBytes c =
     (if c < MaxCiphertextBytes 0 then Some 0 else max_plaintext_loop c (max_plaintext_start c))"

definition decodeAgeField :: "string \<Rightarrow> int \<Rightarrow> bytes option" where
  "decodeAgeField value limit =
     (if std_decodedLen (int (length value)) > limit + 3 then None
      else (case std_decode value of
              None \<Rightarrow> None
            | Some raw \<Rightarrow>
                if int (length raw) > limit \<or> \<not> hasPrefix raw ageMagic then None else Some raw))"

definition isAgeFile :: "bytes \<Rightarrow> bool" where
  "isAgeFile b = hasPrefix b ageMagic"

definition canonicalBase64 :: "string \<Rightarrow> int \<Rightarrow> int \<Rightarrow> bytes option" where
  "canonicalBase64 s lo hi =
     (if int (length s) > std_encodedLen hi then None
      else (case std_decode_strict s of
              None \<Rightarrow> None
            | Some b \<Rightarrow>
                if int (length b) < lo \<or> int (length b) > hi \<or> std_encode b \<noteq> s then None
                else Some b))"

definition validContentType :: "string \<Rightarrow> bool" where
  "validContentType value \<longleftrightarrow>
     \<not> int (length value) > maxContentTypeBytes \<and>
     list_all (\<lambda>c. \<not> (byte c < 0x20 \<or> byte c > 0x7e)) value"

subsection \<open>The two size functions\<close>

text \<open>The largest age file of an \<open>n\<close>-byte plaintext, without machine integers.\<close>

definition age_size :: "int \<Rightarrow> int" where
  "age_size n = 4112 + n + 16 * max 1 ((n + 65535) div 65536)"

lemma MaxCiphertextBytes_exact:
  assumes "0 \<le> n" "n < 2 ^ 62"
  shows "MaxCiphertextBytes n = age_size n"
proof -
  have "0 \<le> (n + 65535) div 65536"
    using assms by (simp add: pos_imp_zdiv_nonneg_iff)
  moreover have "65536 * ((n + 65535) div 65536) \<le> n + 65535"
    using div_mult_mod_eq [of "n + 65535" 65536] pos_mod_sign [of 65536 "n + 65535"] by linarith
  ultimately show ?thesis
    using assms by (auto simp: MaxCiphertextBytes_def age_size_def age_constants quot_nonneg wrap64_id max_def)
qed

lemma age_size_step: "0 \<le> n \<Longrightarrow> age_size n < age_size (n + 1)"
  using zdiv_mono1 [of "n + 65535" "n + 1 + 65535" 65536] by (simp add: age_size_def max_def)

lemma age_size_mono: "0 \<le> m \<Longrightarrow> m \<le> n \<Longrightarrow> age_size m \<le> age_size n"
  using zdiv_mono1 [of "m + 65535" "n + 65535" 65536] by (simp add: age_size_def max_def)

lemma age_size_greater: "n + 4128 \<le> age_size n"
  by (simp add: age_size_def)

text \<open>The loop returns, and its result is the last size that fits.\<close>

lemma max_plaintext_loop_returns:
  assumes "0 \<le> n" "age_size n \<le> c" "c < 2 ^ 62"
  shows "\<exists>p. max_plaintext_loop c n = Some p \<and> n \<le> p \<and> age_size p \<le> c \<and> c < age_size (p + 1)"
  using assms
proof (induction "nat (c - n)" arbitrary: n rule: less_induct)
  case less
  have n: "n + 1 < 2 ^ 62"
    using less.prems age_size_greater [of n] by linarith
  then have w: "wrap64 (n + 1) = n + 1"
    using less.prems by (simp add: wrap64_id)
  then have m: "MaxCiphertextBytes (wrap64 (n + 1)) = age_size (n + 1)"
    using less.prems n by (simp add: MaxCiphertextBytes_exact)
  show ?case
  proof (cases "age_size (n + 1) \<le> c")
    case True
    then have "n + 1 \<le> c"
      using age_size_greater [of "n + 1"] by linarith
    then have "nat (c - (n + 1)) < nat (c - n)" by simp
    then obtain p where "max_plaintext_loop c (n + 1) = Some p" "n + 1 \<le> p" "age_size p \<le> c"
        "c < age_size (p + 1)"
      using less.hyps [of "n + 1"] less.prems True by auto
    then show ?thesis
      using True m w by (subst max_plaintext_loop.simps) auto
  next
    case False
    then show ?thesis
      using less.prems m by (subst max_plaintext_loop.simps) auto
  qed
qed

lemma max_plaintext_start_fits:
  assumes "age_size 0 \<le> c" "c < 2 ^ 62"
  shows "0 \<le> max_plaintext_start c \<and> age_size (max_plaintext_start c) \<le> c"
proof -
  let ?k = "(c + 65535) div 65536"
  have c: "4128 \<le> c"
    using assms by (simp add: age_size_def)
  then have k: "1 \<le> ?k"
    by (simp add: zdiv_mono1 [of 65536 "c + 65535" 65536, simplified])
  have "65536 * ?k \<le> c + 65535"
    using div_mult_mod_eq [of "c + 65535" 65536] pos_mod_sign [of 65536 "c + 65535"] by linarith
  then have s: "max_plaintext_start c = max 0 (c - 4112 - 16 * ?k)"
    using assms c k
    by (simp add: max_plaintext_start_def age_constants quot_nonneg wrap64_id add.commute)
  show ?thesis
  proof (cases "0 \<le> c - 4112 - 16 * ?k")
    case True
    then have "(c - 4112 - 16 * ?k + 65535) div 65536 \<le> ?k"
      using k by (intro zdiv_mono1) linarith+
    then show ?thesis
      using True s k by (simp add: age_size_def)
  next
    case False
    then show ?thesis
      using s assms by (simp add: max_def)
  qed
qed

lemma MaxPlaintextBytes_returns:
  assumes "age_size 0 \<le> c" "c < 2 ^ 62"
  shows "\<exists>p. MaxPlaintextBytes c = Some p \<and> 0 \<le> p \<and> age_size p \<le> c \<and> c < age_size (p + 1)"
proof -
  have "\<not> c < MaxCiphertextBytes 0"
    using assms by (simp add: MaxCiphertextBytes_exact)
  then show ?thesis
    using max_plaintext_loop_returns [of "max_plaintext_start c" c] max_plaintext_start_fits [OF assms] assms
    by (auto simp: MaxPlaintextBytes_def)
qed

text \<open>
  C27: \<open>MaxPlaintextBytes\<close> returns for every configured limit below \<open>2 ^ 62\<close> that admits an empty age file, and inverts
  \<open>MaxCiphertextBytes\<close> exactly: a plaintext of \<open>n\<close> bytes always fits in a \<open>c\<close>-byte age file if and
  only if \<open>n\<close> is at most the returned size.
\<close>

theorem MaxPlaintextBytes_inverts:
  assumes "MaxCiphertextBytes 0 \<le> c" and "c < 2 ^ 62"
  shows "\<exists>p. MaxPlaintextBytes c = Some p \<and>
    (\<forall>n. 0 \<le> n \<and> n < 2 ^ 62 \<longrightarrow> (MaxCiphertextBytes n \<le> c \<longleftrightarrow> n \<le> p))"
proof -
  have "age_size 0 \<le> c"
    using assms by (simp add: MaxCiphertextBytes_exact)
  then obtain p where p: "MaxPlaintextBytes c = Some p" "0 \<le> p" "age_size p \<le> c" "c < age_size (p + 1)"
    using MaxPlaintextBytes_returns assms by blast
  have "MaxCiphertextBytes n \<le> c \<longleftrightarrow> n \<le> p" if "0 \<le> n" "n < 2 ^ 62" for n
  proof (cases "n \<le> p")
    case True
    then show ?thesis
      using that p age_size_mono [of n p] by (simp add: MaxCiphertextBytes_exact)
  next
    case False
    then show ?thesis
      using that p age_size_mono [of "p + 1" n] by (simp add: MaxCiphertextBytes_exact)
  qed
  with p show ?thesis by blast
qed

theorem MaxPlaintextBytes_inverts_witness:
  "\<exists>p. MaxPlaintextBytes 1048576 = Some p \<and>
    (\<forall>n. 0 \<le> n \<and> n < 2 ^ 62 \<longrightarrow> (MaxCiphertextBytes n \<le> 1048576 \<longleftrightarrow> n \<le> p))"
  by (rule MaxPlaintextBytes_inverts) (simp_all add: MaxCiphertextBytes_exact age_size_def)

text \<open>At the largest \<open>int64\<close> the loop's guard never fails: the sum wraps below the limit forever.\<close>

lemma max_plaintext_loop_diverges: "max_plaintext_loop (2 ^ 63 - 1) n = None"
proof (rule ccontr)
  assume "max_plaintext_loop (2 ^ 63 - 1) n \<noteq> None"
  then obtain r where ret: "max_plaintext_loop (2 ^ 63 - 1) n = Some r" by blast
  have "(2 ^ 63 - 1 :: int) \<noteq> 2 ^ 63 - 1"
  proof (rule max_plaintext_loop.raw_induct [where P = "\<lambda>c n r. c \<noteq> 2 ^ 63 - 1", OF _ ret])
    fix f :: "int \<Rightarrow> int \<Rightarrow> int option" and c n r :: int
    assume IH: "\<And>c n r. f c n = Some r \<Longrightarrow> c \<noteq> 2 ^ 63 - 1"
      and eq: "(if MaxCiphertextBytes (wrap64 (n + 1)) \<le> c then f c (wrap64 (n + 1)) else Some n) = Some r"
    show "c \<noteq> 2 ^ 63 - 1"
    proof
      assume c: "c = 2 ^ 63 - 1"
      have "MaxCiphertextBytes (wrap64 (n + 1)) < 2 ^ 63"
        unfolding MaxCiphertextBytes_def Let_def by (rule wrap64_range [THEN conjunct2])
      with eq c have "f c (wrap64 (n + 1)) = Some r" by simp
      from IH [OF this] c show False by simp
    qed
  qed
  then show False by simp
qed

lemma MaxPlaintextBytes_diverges: "MaxPlaintextBytes (2 ^ 63 - 1) = None"
  by (simp add: MaxPlaintextBytes_def MaxCiphertextBytes_exact age_size_def
      max_plaintext_loop_diverges [simplified])

end
