(* ===== verification/Api_Db.thy ===== *)
theory Api_Db
  imports Outbox Age_Format Sha256
begin

text \<open>
  The database api.db: the tables of internal/db/migrations.go and internal/db/requests.go as row
  records, their CHECK clauses, keys and foreign keys, and the state \<open>api\<close> all stores work on. Columns
  of instants hold the instant their text denotes, JSON columns hold the value they encode. The
  in-process gauge \<open>telemetry.ActiveUploads\<close> is part of the state because the code keeps it in step with
  the \<open>pending_upload\<close> rows. An operation gets an environment \<open>env\<close>: which of its fallible calls fail
  (by the message the source wraps the error with), the successive readings of its clock, and the
  random draws (\<open>None\<close> when the generator fails).
\<close>

subsection \<open>Environments\<close>

record env =
  fails :: faults
  clock :: "nat \<Rightarrow> time"
  draw :: "string \<Rightarrow> bytes option"

definition NewJobID :: "env \<Rightarrow> string \<Rightarrow> string option" where
  "NewJobID e label = map_option rawurl_encode (draw e label)"

text \<open>What SQLite's \<open>julianday\<close> and \<open>datetime\<close> return for a stored instant.\<close>

record sqlite =
  julianday :: "time \<Rightarrow> int"
  datetime :: "time \<Rightarrow> string"

subsection \<open>Rows\<close>

record kdf_params =
  Algorithm :: string
  Salt :: string
  Iterations :: int
  KeyLengthBits :: int

definition zero_kdf :: kdf_params where
  "zero_kdf = \<lparr>Algorithm = [], Salt = [], Iterations = 0, KeyLengthBits = 0\<rparr>"

definition KindText :: string where "KindText = ''text''"
definition KindFile :: string where "KindFile = ''file''"
definition StorageSQLite :: string where "StorageSQLite = ''sqlite_blob''"
definition StorageS3 :: string where "StorageS3 = ''s3_object''"
definition stateActive :: string where "stateActive = ''active''"
definition statePendingUpload :: string where "statePendingUpload = ''pending_upload''"

lemmas row_constants [go_simps] = KindText_def KindFile_def StorageSQLite_def StorageS3_def
  stateActive_def statePendingUpload_def

lemma row_constants_differ [simp]:
  "KindText \<noteq> KindFile" "KindFile \<noteq> KindText" "StorageSQLite \<noteq> StorageS3" "StorageS3 \<noteq> StorageSQLite"
  "stateActive \<noteq> statePendingUpload" "statePendingUpload \<noteq> stateActive"
  by (simp_all add: row_constants)

record secret_row =
  s_id :: string
  s_kind :: string
  s_storage_backend :: string
  s_storage_key :: string
  s_access_kdf :: "kdf_params option"
  s_access_proof_hash :: "string option"
  s_wrapped_identity :: "string option"
  s_encrypted_filename :: "string option"
  s_content_type :: "string option"
  s_size_bytes :: int
  s_max_views :: int
  s_view_count :: int
  s_failed_access_count :: int
  s_state :: string
  s_expires_at :: time
  s_consumed_at :: "time option"
  s_created_at :: time
  s_updated_at :: time
  s_reclaim_enqueued_at :: "time option"

definition secret_check :: "secret_row \<Rightarrow> bool" where
  "secret_check r \<longleftrightarrow>
     s_kind r \<in> {KindText, KindFile} \<and>
     s_storage_backend r \<in> {StorageSQLite, StorageS3} \<and>
     0 \<le> s_size_bytes r \<and> 0 < s_max_views r \<and> 0 \<le> s_view_count r \<and> 0 \<le> s_failed_access_count r \<and>
     s_state r \<in> {stateActive, statePendingUpload} \<and>
     (s_access_kdf r = None) = (s_access_proof_hash r = None) \<and>
     (s_access_proof_hash r = None) = (s_wrapped_identity r = None)"

record payload_row =
  p_secret_id :: string
  p_ciphertext :: bytes
  p_created_at :: time

record mgmt_row =
  m_secret_id :: string
  m_token_hash :: bytes
  m_expires_at :: time
  m_outcome :: "string option"

definition mgmt_check :: "mgmt_row \<Rightarrow> bool" where
  "mgmt_check m \<longleftrightarrow> length (m_token_hash m) = 32 \<and>
     (case m_outcome m of None \<Rightarrow> True
      | Some oc \<Rightarrow> oc \<in> {''opened'', ''locked'', ''cancelled'', ''unavailable''})"

record cursor_row =
  continuation_token :: string
  cur_generation :: int

record pending_row =
  pend_object_key :: string
  pend_job_id :: string

record envelope =
  Version :: int
  EnvFilename :: string

record request_row =
  r_id :: string
  r_public_key :: string
  r_fingerprint :: string
  r_submission_token_hash :: bytes
  r_retrieval_token_hash :: bytes
  r_state :: string
  r_generation :: int
  r_attempt_token_hash :: "bytes option"
  r_attempt_body_hash :: "bytes option"
  r_kind :: "string option"
  r_size_bytes :: "int option"
  r_envelope :: "envelope option"
  r_storage_backend :: string
  r_upload_key :: "string option"
  r_final_key :: "string option"
  r_ciphertext_sha256 :: "bytes option"
  r_reservation_expires_at :: "time option"
  r_consumed_at :: "time option"
  r_expires_at :: time

definition hash_column :: "bytes option \<Rightarrow> bool" where
  "hash_column h \<longleftrightarrow> (case h of None \<Rightarrow> True | Some b \<Rightarrow> length b = 32)"

definition request_check :: "request_row \<Rightarrow> bool" where
  "request_check r \<longleftrightarrow>
     length (r_submission_token_hash r) = 32 \<and> length (r_retrieval_token_hash r) = 32 \<and>
     r_state r \<in> {''waiting'', ''uploading'', ''submitted'', ''consumed'', ''cancelled'', ''unavailable''} \<and>
     1 \<le> r_generation r \<and> r_generation r \<le> 16 \<and>
     hash_column (r_attempt_token_hash r) \<and> hash_column (r_attempt_body_hash r) \<and>
     (case r_kind r of None \<Rightarrow> True | Some k \<Rightarrow> k \<in> {''text'', ''file''}) \<and>
     (case r_size_bytes r of None \<Rightarrow> True | Some n \<Rightarrow> 0 \<le> n) \<and>
     r_storage_backend r \<in> {StorageSQLite, StorageS3} \<and>
     hash_column (r_ciphertext_sha256 r) \<and>
     (r_attempt_token_hash r = None) = (r_attempt_body_hash r = None) \<and>
     (r_state r \<noteq> ''uploading'' \<or>
        (r_storage_backend r = StorageS3 \<and> r_upload_key r \<noteq> None \<and> r_final_key r \<noteq> None \<and>
         r_ciphertext_sha256 r \<noteq> None \<and> r_reservation_expires_at r \<noteq> None \<and> r_kind r = Some ''file'' \<and>
         r_size_bytes r \<noteq> None \<and> r_envelope r \<noteq> None \<and> r_attempt_token_hash r \<noteq> None)) \<and>
     (r_state r \<noteq> ''submitted'' \<or> r_storage_backend r \<noteq> StorageS3 \<or>
        (r_final_key r \<noteq> None \<and> r_ciphertext_sha256 r \<noteq> None)) \<and>
     (r_state r \<noteq> ''submitted'' \<or>
        (r_kind r \<noteq> None \<and> r_size_bytes r \<noteq> None \<and> r_envelope r \<noteq> None \<and> r_attempt_token_hash r \<noteq> None))"

record request_payload_row =
  rp_request_id :: string
  rp_ciphertext :: bytes

subsection \<open>The database\<close>

record api =
  secrets :: "secret_row list"
  secret_payloads :: "payload_row list"
  secret_management :: "mgmt_row list"
  object_cursor :: cursor_row
  object_pending :: "pending_row list"
  requests :: "request_row list"
  request_payloads :: "request_payload_row list"
  request_cursor :: cursor_row
  request_pending :: "pending_row list"
  outbox_events :: outbox
  ActiveUploads :: int

text \<open>The database the migrations leave behind on first start.\<close>

definition MigrateAPI :: api where
  "MigrateAPI =
     (let cursor = \<lparr>continuation_token = [], cur_generation = 0\<rparr> in
      \<lparr>secrets = [], secret_payloads = [], secret_management = [], object_cursor = cursor,
       object_pending = [], requests = [], request_payloads = [], request_cursor = cursor,
       request_pending = [], outbox_events = [], ActiveUploads = 0\<rparr>)"

abbreviation secret_of :: "api \<Rightarrow> string \<Rightarrow> secret_row option" where
  "secret_of s i \<equiv> sql_row (\<lambda>r. s_id r = i) (secrets s)"

abbreviation payload_of :: "api \<Rightarrow> string \<Rightarrow> payload_row option" where
  "payload_of s i \<equiv> sql_row (\<lambda>p. p_secret_id p = i) (secret_payloads s)"

abbreviation mgmt_of :: "api \<Rightarrow> string \<Rightarrow> mgmt_row option" where
  "mgmt_of s i \<equiv> sql_row (\<lambda>m. m_secret_id m = i) (secret_management s)"

abbreviation request_of :: "api \<Rightarrow> string \<Rightarrow> request_row option" where
  "request_of s i \<equiv> sql_row (\<lambda>r. r_id r = i) (requests s)"

text \<open>Inserts check the key, the CHECK clauses and the foreign keys; \<open>None\<close> is a constraint error.\<close>

definition insert_secret :: "secret_row \<Rightarrow> api \<Rightarrow> api option" where
  "insert_secret r s =
     (if \<not> secret_check r then None
      else map_option (\<lambda>t. s\<lparr>secrets := t\<rparr>) (sql_insert s_id r (secrets s)))"

definition insert_payload :: "payload_row \<Rightarrow> api \<Rightarrow> api option" where
  "insert_payload p s =
     (if secret_of s (p_secret_id p) = None then None
      else map_option (\<lambda>t. s\<lparr>secret_payloads := t\<rparr>) (sql_insert p_secret_id p (secret_payloads s)))"

definition insert_management :: "mgmt_row \<Rightarrow> api \<Rightarrow> api option" where
  "insert_management m s =
     (if \<not> mgmt_check m then None
      else map_option (\<lambda>t. s\<lparr>secret_management := t\<rparr>) (sql_insert m_secret_id m (secret_management s)))"

definition insert_request :: "request_row \<Rightarrow> api \<Rightarrow> api option" where
  "insert_request r s =
     (if \<not> request_check r then None
      else map_option (\<lambda>t. s\<lparr>requests := t\<rparr>) (sql_insert r_id r (requests s)))"

definition insert_request_payload :: "request_payload_row \<Rightarrow> api \<Rightarrow> api option" where
  "insert_request_payload p s =
     (if request_of s (rp_request_id p) = None then None
      else map_option (\<lambda>t. s\<lparr>request_payloads := t\<rparr>) (sql_insert rp_request_id p (request_payloads s)))"

text \<open>\<open>insert or ignore\<close> into a pending table, with its row count.\<close>

definition insert_pending :: "pending_row \<Rightarrow> pending_row list \<Rightarrow> nat \<times> pending_row list" where
  "insert_pending p t =
     (if pend_object_key p \<in> set (map pend_object_key t) \<or> pend_job_id p \<in> set (map pend_job_id t)
      then (0, t) else (1, t @ [p]))"

text \<open>Deletes cascade to the payload tables.\<close>

definition delete_secrets :: "(secret_row \<Rightarrow> bool) \<Rightarrow> api \<Rightarrow> api" where
  "delete_secrets p s =
     s\<lparr>secrets := sql_delete p (secrets s),
       secret_payloads :=
         sql_delete (\<lambda>q. \<exists>r\<in>set (secrets s). p r \<and> s_id r = p_secret_id q) (secret_payloads s)\<rparr>"

definition delete_requests :: "(request_row \<Rightarrow> bool) \<Rightarrow> api \<Rightarrow> api" where
  "delete_requests p s =
     s\<lparr>requests := sql_delete p (requests s),
       request_payloads :=
         sql_delete (\<lambda>q. \<exists>r\<in>set (requests s). p r \<and> r_id r = rp_request_id q) (request_payloads s)\<rparr>"

definition update_secrets :: "(secret_row \<Rightarrow> bool) \<Rightarrow> (secret_row \<Rightarrow> secret_row) \<Rightarrow> api \<Rightarrow> api" where
  "update_secrets p f s = s\<lparr>secrets := sql_update p f (secrets s)\<rparr>"

text \<open>The outbox of the running process writes into this database.\<close>

definition enqueue_event :: "string \<Rightarrow> time \<Rightarrow> faults \<Rightarrow> job_event \<Rightarrow> api \<Rightarrow> (events_error + outbox_row) \<times> api" where
  "enqueue_event subject now io event s =
     (case EnqueueTx subject now io event (outbox_events s) of (r, t) \<Rightarrow> (r, s\<lparr>outbox_events := t\<rparr>))"

end
