(* ===== verification/Storage.thy ===== *)
theory Storage
  imports Go_Time
begin

text \<open>
  The object-storage client (internal/storage): \<open>PresignPUT\<close>, \<open>Head\<close>, \<open>Open\<close>, \<open>PutStream\<close>,
  \<open>Delete\<close> and \<open>List\<close> with their own checks. The S3 service behind the SDK is the parameter \<open>s3\<close>: what it
  answers to the calls of one operation. A body is read from the service as bytes; \<open>s3_put\<close> says
  whether a write is acknowledged.
\<close>

datatype head_answer = HeadObject int | HeadNotFound | HeadError

datatype list_answer =
  ListObjects "string list" bool string
| ListApiError string
| ListTransportError

datatype delete_answer = DeleteOk | DeleteNotFound | DeleteError

record s3 =
  s3_presign :: "string \<Rightarrow> int \<Rightarrow> duration \<Rightarrow> (string \<times> string) option"
  s3_head :: "string \<Rightarrow> head_answer"
  s3_get :: "string \<Rightarrow> (bytes \<times> int option) option"
  s3_put :: "string \<Rightarrow> bytes \<Rightarrow> bool"
  s3_delete :: "string \<Rightarrow> delete_answer"
  s3_list :: "string \<Rightarrow> string option \<Rightarrow> int \<Rightarrow> list_answer"

datatype storage_error = ErrInvalidCursor | ErrStore string

record upload_instruction =
  URL :: string
  Method :: string
  UploadExpiresAt :: time
  Headers :: "(string \<times> string) list"

record object_info =
  Exists :: bool
  Size :: int

record object_page =
  Keys :: "string list"
  NextCursor :: string

definition PresignPUT ::
  "s3 \<Rightarrow> time \<Rightarrow> string \<Rightarrow> int \<Rightarrow> duration \<Rightarrow> storage_error + upload_instruction" where
  "PresignPUT svc now key sz ttl =
     (if key = [] then Inl (ErrStore ''object key is required'')
      else if sz \<le> 0 then Inl (ErrStore ''size must be positive'')
      else (case s3_presign svc key sz ttl of
              None \<Rightarrow> Inl (ErrStore ''presign put'')
            | Some (url, method) \<Rightarrow>
                Inr \<lparr>URL = url, Method = method, UploadExpiresAt = now + ttl,
                     Headers = [(''Content-Length'', itoa (nat sz))]\<rparr>))"

definition Head :: "s3 \<Rightarrow> string \<Rightarrow> storage_error + object_info" where
  "Head svc key =
     (case s3_head svc key of
        HeadNotFound \<Rightarrow> Inr \<lparr>Exists = False, Size = 0\<rparr>
      | HeadError \<Rightarrow> Inl (ErrStore ''head object'')
      | HeadObject n \<Rightarrow> Inr \<lparr>Exists = True, Size = n\<rparr>)"

definition Open :: "s3 \<Rightarrow> string \<Rightarrow> storage_error + bytes \<times> int" where
  "Open svc key =
     (case s3_get svc key of
        None \<Rightarrow> Inl (ErrStore ''get object'')
      | Some (body, None) \<Rightarrow> Inl (ErrStore ''no content length'')
      | Some (body, Some n) \<Rightarrow> Inr (body, n))"

text \<open>\<open>PutStream\<close> spools at most \<open>sz\<close> bytes of the body, asks \<open>verify\<close>, and only then writes. The second
  component is what was sent to the service. \<open>verify\<close> gives its caller's error.\<close>

definition PutStream ::
  "faults \<Rightarrow> s3 \<Rightarrow> string \<Rightarrow> bytes \<Rightarrow> int \<Rightarrow> (bytes \<Rightarrow> 'e option) \<Rightarrow>
   ((storage_error + 'e) option) \<times> (string \<times> bytes) option" where
  "PutStream io svc key body sz verify =
     (if key = [] \<or> sz < 1 then (Some (Inl (ErrStore ''invalid object write'')), None)
      else if io ''object spool failed'' then (Some (Inl (ErrStore ''object spool failed'')), None)
      else let spooled = take (nat sz) body in
        if io ''object body read failed'' \<or> int (length spooled) \<noteq> sz
        then (Some (Inl (ErrStore ''object body read failed'')), None)
        else (case verify spooled of
                Some err \<Rightarrow> (Some (Inr err), None)
              | None \<Rightarrow>
                  if io ''object spool seek'' then (Some (Inl (ErrStore ''object spool failed'')), None)
                  else if \<not> s3_put svc key spooled
                  then (Some (Inl (ErrStore ''object write failed'')), Some (key, spooled))
                  else (None, Some (key, spooled))))"

definition Delete :: "s3 \<Rightarrow> string \<Rightarrow> storage_error + unit" where
  "Delete svc key =
     (case s3_delete svc key of
        DeleteError \<Rightarrow> Inl (ErrStore ''delete object'')
      | DeleteNotFound \<Rightarrow> Inr ()
      | DeleteOk \<Rightarrow> Inr ())"

definition List_objects :: "s3 \<Rightarrow> string \<Rightarrow> string \<Rightarrow> int \<Rightarrow> storage_error + object_page" where
  "List_objects svc prefix cursor limit =
     (if prefix = [] \<or> limit < 1 \<or> limit > 1000 then Inl (ErrStore ''invalid object listing bounds'')
      else (case s3_list svc prefix (if cursor = [] then None else Some cursor) limit of
              ListApiError code \<Rightarrow>
                if cursor \<noteq> [] \<and> code \<in> {''InvalidArgument'', ''InvalidToken'', ''InvalidContinuationToken''}
                then Inl ErrInvalidCursor else Inl (ErrStore ''object listing failed'')
            | ListTransportError \<Rightarrow> Inl (ErrStore ''object listing request failed'')
            | ListObjects keys truncated token \<Rightarrow>
                if int (length keys) > limit
                then Inl (ErrStore ''object listing exceeded requested page size'')
                else if truncated then
                  (if token = [] \<or> token = cursor
                   then Inl (ErrStore ''object listing cursor did not advance'')
                   else Inr \<lparr>Keys = keys, NextCursor = token\<rparr>)
                else Inr \<lparr>Keys = keys, NextCursor = []\<rparr>))"

text \<open>Nothing reaches the service that \<open>verify\<close> did not accept, and what reaches it is exactly the
  declared number of bytes of the body.\<close>

lemma PutStream_verified:
  assumes "PutStream io svc key body sz verify = (err, Some (k, b))"
  shows "k = key \<and> b = take (nat sz) body \<and> int (length b) = sz \<and> verify b = None"
  using assms by (auto simp: PutStream_def Let_def split: if_splits option.splits)

lemma PutStream_ok:
  assumes "PutStream io svc key body sz verify = (None, w)"
  shows "w = Some (key, take (nat sz) body)"
  using assms by (auto simp: PutStream_def Let_def split: if_splits option.splits)

text \<open>A listing never stalls: a page either ends the pass or moves the cursor, and holds no more keys
  than asked for.\<close>

lemma List_objects_advances:
  assumes "List_objects svc prefix cursor limit = Inr page"
  shows "int (length (Keys page)) \<le> limit \<and> (NextCursor page = [] \<or> NextCursor page \<noteq> cursor)"
  using assms by (auto simp: List_objects_def split: if_splits list_answer.splits)

end
