(* ===== verification/Secret_Input.thy ===== *)
theory Secret_Input
  imports Api_Db Storage
begin

text \<open>
  What the secret store accepts (internal/secrets/store.go, errors.go): its errors, options and inputs,
  \<open>NewStore\<close>, the validation of inline and large creates, and the drawing of ids. A secret is Model A
  (access KDF, proof hash and wrapped identity all present) or Model B (all three absent), never a mix.
\<close>

datatype secret_error =
  ErrInvalidInput | ErrNotFound | ErrConsumed | ErrExpired | ErrInvalidAccess | ErrPayloadTooLarge
| ErrUnsupportedKind | ErrUnsupportedViews | ErrNotPending | ErrObjectMissing
| ErrManagementUnavailable | ErrNotCancellable | ErrSecret string

definition KDFPBKDF2SHA256 :: string where "KDFPBKDF2SHA256 = ''PBKDF2-SHA-256''"
definition maxFailedAccessAttempts :: int where "maxFailedAccessAttempts = 5"
definition managedObjectPrefix :: string where "managedObjectPrefix = ''managed/secrets/''"

text \<open>A statement of a transaction: it fails when the environment says so, or when the database refuses
  it (\<open>None\<close>).\<close>

definition exec :: "env \<Rightarrow> string \<Rightarrow> 's option \<Rightarrow> 's option" where
  "exec e label r = (if fails e label then None else r)"

lemma exec_Some: "exec e label r = Some x \<longleftrightarrow> \<not> fails e label \<and> r = Some x"
  by (simp add: exec_def)

subsection \<open>The store\<close>

record store =
  payloadInlineMaxBytes :: int
  maxObjectBytes :: int
  presignTTL :: duration
  pendingTTL :: duration
  minTTL :: int
  maxTTL :: int
  hasObjects :: bool
  hasOutbox :: bool
  outboxSubject :: string
  engine :: sqlite

record store_options =
  opt_PayloadInlineMaxBytes :: int
  opt_MaxObjectBytes :: int
  opt_PresignTTL :: duration
  opt_PendingTTL :: duration
  opt_MinTTLSeconds :: int
  opt_MaxTTLSeconds :: int
  opt_Objects :: bool
  opt_Outbox :: bool

definition NewStore :: "sqlite \<Rightarrow> string \<Rightarrow> bool \<Rightarrow> store_options \<Rightarrow> secret_error + store" where
  "NewStore engn subject db opts =
     (if \<not> db then Inl (ErrSecret ''db is required'')
      else if opt_PayloadInlineMaxBytes opts \<le> 0
      then Inl (ErrSecret ''payload inline max bytes must be positive'')
      else if opt_MinTTLSeconds opts \<le> 0 then Inl (ErrSecret ''min ttl seconds must be positive'')
      else if opt_MaxTTLSeconds opts < opt_MinTTLSeconds opts
      then Inl (ErrSecret ''max ttl seconds must be >= min ttl seconds'')
      else if opt_Objects opts \<and> opt_MaxObjectBytes opts \<le> 0
      then Inl (ErrSecret ''max object bytes must be positive when object storage is enabled'')
      else Inr \<lparr>payloadInlineMaxBytes = opt_PayloadInlineMaxBytes opts,
                maxObjectBytes = opt_MaxObjectBytes opts,
                presignTTL = (if opt_PresignTTL opts \<le> 0 then 5 * Minute else opt_PresignTTL opts),
                pendingTTL = (if opt_PendingTTL opts \<le> 0 then 15 * Minute else opt_PendingTTL opts),
                minTTL = opt_MinTTLSeconds opts, maxTTL = opt_MaxTTLSeconds opts,
                hasObjects = opt_Objects opts, hasOutbox = opt_Outbox opts,
                outboxSubject = subject, engine = engn\<rparr>)"

subsection \<open>Inputs\<close>

record create_input =
  ci_Kind :: string
  ci_Ciphertext :: bytes
  ci_AccessKDF :: kdf_params
  ci_AccessProofHash :: string
  ci_WrappedIdentity :: "string option"
  ci_EncryptedFilename :: "string option"
  ci_ContentType :: "string option"
  ci_SizeBytes :: int
  ci_TTLSeconds :: int
  ci_MaxViews :: int

record create_large_input =
  cl_Kind :: string
  cl_AccessKDF :: kdf_params
  cl_AccessProofHash :: string
  cl_WrappedIdentity :: "string option"
  cl_EncryptedFilename :: "string option"
  cl_ContentType :: "string option"
  cl_SizeBytes :: int
  cl_TTLSeconds :: int
  cl_MaxViews :: int

text \<open>The checks shared by both paths; \<open>None\<close> is acceptance.\<close>

definition validateCommon ::
  "store \<Rightarrow> string \<Rightarrow> int \<Rightarrow> int \<Rightarrow> kdf_params \<Rightarrow> string \<Rightarrow> string option \<Rightarrow> string option \<Rightarrow>
   string option \<Rightarrow> secret_error option" where
  "validateCommon st kind ttlSeconds maxViews accessKDF accessProofHash wrappedIdentity
       encryptedFilename contentType =
     (if kind \<noteq> KindText \<and> kind \<noteq> KindFile then Some ErrUnsupportedKind
      else if ttlSeconds < minTTL st \<or> ttlSeconds > maxTTL st then Some ErrInvalidInput
      else if maxViews \<noteq> 1 then Some ErrUnsupportedViews
      else let hasProof = accessProofHash \<noteq> []; hasAccessKDF = Algorithm accessKDF \<noteq> [];
               hasWrapped = wrappedIdentity \<noteq> None in
        if hasProof \<noteq> hasAccessKDF \<or> hasProof \<noteq> hasWrapped then Some ErrInvalidInput
        else if hasProof \<and>
          (Algorithm accessKDF \<noteq> KDFPBKDF2SHA256 \<or> Salt accessKDF = [] \<or> Iterations accessKDF < 600000 \<or>
           Iterations accessKDF > 6000000 \<or> KeyLengthBits accessKDF \<noteq> 256)
        then Some ErrInvalidInput
        else if hasProof \<and> decodeAgeField (the wrappedIdentity) maxWrappedIdentityBytes = None
        then Some ErrInvalidInput
        else if kind = KindFile \<and> encryptedFilename = None then Some ErrInvalidInput
        else if kind = KindText \<and> encryptedFilename \<noteq> None then Some ErrInvalidInput
        else if encryptedFilename \<noteq> None \<and>
          decodeAgeField (the encryptedFilename) maxEncryptedFilenameBytes = None
        then Some ErrInvalidInput
        else if contentType \<noteq> None \<and> \<not> validContentType (the contentType) then Some ErrInvalidInput
        else None)"

definition validateCreate :: "store \<Rightarrow> create_input \<Rightarrow> secret_error option" where
  "validateCreate st input =
     (if int (length (ci_Ciphertext input)) > payloadInlineMaxBytes st then Some ErrPayloadTooLarge
      else if \<not> hasPrefix (ci_Ciphertext input) ageMagic \<or>
        int (length (ci_Ciphertext input)) \<noteq> ci_SizeBytes input
      then Some ErrInvalidInput
      else validateCommon st (ci_Kind input) (ci_TTLSeconds input) (ci_MaxViews input) (ci_AccessKDF input)
        (ci_AccessProofHash input) (ci_WrappedIdentity input) (ci_EncryptedFilename input)
        (ci_ContentType input))"

definition validateCreateLarge :: "store \<Rightarrow> create_large_input \<Rightarrow> secret_error option" where
  "validateCreateLarge st input =
     (if cl_Kind input = KindText then Some ErrInvalidInput
      else if cl_SizeBytes input > maxObjectBytes st then Some ErrPayloadTooLarge
      else if cl_SizeBytes input < wrap64 (MaxCiphertextBytes 0 - AgeHeaderAllowanceBytes)
      then Some ErrInvalidInput
      else validateCommon st (cl_Kind input) (cl_TTLSeconds input) (cl_MaxViews input) (cl_AccessKDF input)
        (cl_AccessProofHash input) (cl_WrappedIdentity input) (cl_EncryptedFilename input)
        (cl_ContentType input))"

text \<open>The two nullable access columns.\<close>

definition modelAColumns :: "kdf_params \<Rightarrow> string \<Rightarrow> kdf_params option \<times> string option" where
  "modelAColumns accessKDF accessProofHash =
     (if accessProofHash = [] then (None, None) else (Some accessKDF, Some accessProofHash))"

definition generateID :: "env \<Rightarrow> string option" where
  "generateID e = map_option rawurl_encode (draw e ''secret id'')"

subsection \<open>What validation guarantees\<close>

text \<open>What an accepted create has of the fields that later operations rely on.\<close>

definition accepted ::
  "store \<Rightarrow> string \<Rightarrow> int \<Rightarrow> int \<Rightarrow> kdf_params \<Rightarrow> string \<Rightarrow> string option \<Rightarrow> string option \<Rightarrow> bool" where
  "accepted st kind ttl views kdf proof wrapped filename \<longleftrightarrow>
     kind \<in> {KindText, KindFile} \<and> minTTL st \<le> ttl \<and> ttl \<le> maxTTL st \<and> views = 1 \<and>
     (kind = KindFile \<longleftrightarrow> filename \<noteq> None) \<and>
     ((proof = [] \<and> Algorithm kdf = [] \<and> wrapped = None) \<or>
      (proof \<noteq> [] \<and> Algorithm kdf = KDFPBKDF2SHA256 \<and> Salt kdf \<noteq> [] \<and> 600000 \<le> Iterations kdf \<and>
       Iterations kdf \<le> 6000000 \<and> KeyLengthBits kdf = 256 \<and>
       (\<exists>w. wrapped = Some w \<and> decodeAgeField w maxWrappedIdentityBytes \<noteq> None)))"

lemma validateCommon_accepted:
  assumes "validateCommon st kind ttl views kdf proof wrapped filename ctype = None"
  shows "accepted st kind ttl views kdf proof wrapped filename"
  using assms unfolding validateCommon_def accepted_def Let_def
  by (auto split: if_splits)

lemma validateCreate_accepted:
  "validateCreate st input = None \<Longrightarrow>
   accepted st (ci_Kind input) (ci_TTLSeconds input) (ci_MaxViews input) (ci_AccessKDF input)
     (ci_AccessProofHash input) (ci_WrappedIdentity input) (ci_EncryptedFilename input) \<and>
   int (length (ci_Ciphertext input)) = ci_SizeBytes input \<and> isAgeFile (ci_Ciphertext input) \<and>
   ci_SizeBytes input \<le> payloadInlineMaxBytes st"
  by (auto simp: validateCreate_def isAgeFile_def dest: validateCommon_accepted split: if_splits)

lemma validateCreateLarge_accepted:
  "validateCreateLarge st input = None \<Longrightarrow>
   accepted st (cl_Kind input) (cl_TTLSeconds input) (cl_MaxViews input) (cl_AccessKDF input)
     (cl_AccessProofHash input) (cl_WrappedIdentity input) (cl_EncryptedFilename input) \<and>
   cl_Kind input = KindFile \<and> 32 \<le> cl_SizeBytes input \<and> cl_SizeBytes input \<le> maxObjectBytes st"
proof -
  assume v: "validateCreateLarge st input = None"
  have "wrap64 (MaxCiphertextBytes 0 - AgeHeaderAllowanceBytes) = 32"
    by (simp add: MaxCiphertextBytes_def age_constants wrap64_def quot_def)
  with v show ?thesis
    by (auto simp: validateCreateLarge_def accepted_def dest!: validateCommon_accepted split: if_splits)
qed

end
