(* ===== verification/Secret_Management.thy ===== *)
theory Secret_Management
  imports Secret_Input
begin

text \<open>
  The sender's management capability (internal/secrets/management.go): it is created with the secret,
  records how the delivery ended, answers status queries, cancels a live delivery, and is purged after
  the secret's expiry.
\<close>

record management_status =
  ms_ID :: string
  ms_Status :: string
  ms_ExpiresAt :: time
  ms_CanCancel :: bool

definition zero_status :: management_status where
  "zero_status = \<lparr>ms_ID = [], ms_Status = [], ms_ExpiresAt = 0, ms_CanCancel = False\<rparr>"

definition createManagementTx :: "env \<Rightarrow> string \<Rightarrow> time \<Rightarrow> api \<Rightarrow> (secret_error + string) \<times> api" where
  "createManagementTx e i expires s =
     (case draw e ''management capability'' of
        None \<Rightarrow> (Inl (ErrSecret ''generate management capability''), s)
      | Some raw \<Rightarrow>
          (case exec e ''insert management capability''
                  (insert_management \<lparr>m_secret_id = i, m_token_hash = sha256 raw, m_expires_at = expires,
                     m_outcome = None\<rparr> s) of
             None \<Rightarrow> (Inl (ErrSecret ''insert management capability''), s)
           | Some s' \<Rightarrow> (Inr (rawurl_encode raw), s')))"

definition recordManagementOutcomeTx :: "env \<Rightarrow> string \<Rightarrow> string \<Rightarrow> api \<Rightarrow> (secret_error + unit) \<times> api" where
  "recordManagementOutcomeTx e i outcome s =
     (if fails e ''record management outcome'' then (Inl (ErrSecret ''record management outcome''), s)
      else (Inr (), s\<lparr>secret_management :=
              sql_update (\<lambda>m. m_secret_id m = i \<and> m_outcome m = None) (\<lambda>m. m\<lparr>m_outcome := Some outcome\<rparr>)
                (secret_management s)\<rparr>))"

text \<open>The bearer token's digest, when the token is the canonical text of 32 bytes.\<close>

definition management_digest :: "string \<Rightarrow> bytes option" where
  "management_digest token =
     (if length token \<noteq> 43 then None
      else (case rawurl_decode_strict token of
              None \<Rightarrow> None
            | Some raw \<Rightarrow>
                if length raw \<noteq> 32 \<or> rawurl_encode raw \<noteq> token then None else Some (sha256 raw)))"

definition management ::
  "store \<Rightarrow> faults \<Rightarrow> time \<Rightarrow> string \<Rightarrow> string \<Rightarrow> api \<Rightarrow> secret_error + management_status" where
  "management st io now i token s =
     (case management_digest token of
        None \<Rightarrow> Inl ErrManagementUnavailable
      | Some got \<Rightarrow>
          if io ''read management status'' then Inl (ErrSecret ''read management status'')
          else (case mgmt_of s i of
            None \<Rightarrow> Inl ErrManagementUnavailable
          | Some m \<Rightarrow>
              if got \<noteq> m_token_hash m then Inl ErrManagementUnavailable
              else if \<not> now < m_expires_at m then Inl ErrManagementUnavailable
              else let answer = (\<lambda>status. Inr \<lparr>ms_ID = i, ms_Status = status, ms_ExpiresAt = m_expires_at m,
                     ms_CanCancel = (status = stateActive \<or> status = statePendingUpload)\<rparr>) in
                (case m_outcome m of
                   Some outcome \<Rightarrow> answer outcome
                 | None \<Rightarrow>
                     (case secret_of s i of
                        None \<Rightarrow> Inl (ErrSecret ''management outcome missing'')
                      | Some r \<Rightarrow>
                          if s_state r = statePendingUpload \<and> \<not> now < s_created_at r + pendingTTL st
                          then answer ''unavailable''
                          else answer (s_state r)))))"

definition Management ::
  "store \<Rightarrow> env \<Rightarrow> string \<Rightarrow> string \<Rightarrow> api \<Rightarrow> secret_error + management_status" where
  "Management st e i token s = management st (fails e) (clock e 0) i token s"

text \<open>The guard of the cancelling delete.\<close>

definition revocable :: "string \<Rightarrow> secret_row \<Rightarrow> bool" where
  "revocable i r \<longleftrightarrow> s_id r = i \<and> s_consumed_at r = None \<and> s_reclaim_enqueued_at r = None \<and>
     s_state r \<in> {stateActive, statePendingUpload}"

text \<open>The statements of the cancelling transaction: the row is deleted, the outcome recorded, and an S3
  object's deletion queued.\<close>

definition cancelTx :: "store \<Rightarrow> env \<Rightarrow> string \<Rightarrow> secret_row \<Rightarrow> api \<Rightarrow> secret_error + api" where
  "cancelTx st e i r s =
     (if fails e ''cancel delivery'' then Inl (ErrSecret ''cancel delivery'')
      else if fails e ''read cancellation row count'' \<or> sql_count (revocable i) (secrets s) \<noteq> 1
      then Inl (ErrSecret ''cancellation did not claim a live delivery'')
      else (case recordManagementOutcomeTx e i ''cancelled'' (delete_secrets (revocable i) s) of
        (Inl err, _) \<Rightarrow> Inl err
      | (Inr _, s1) \<Rightarrow>
          if s_storage_backend r = StorageS3 then
            (if \<not> hasOutbox st then Inl (ErrSecret ''cancellation outbox is required'')
             else (case NewJobID e ''cancellation job'' of
               None \<Rightarrow> Inl (ErrSecret ''generate job id'')
             | Some jobID \<Rightarrow>
                 (case enqueue_event (outboxSubject st) (clock e 3) (fails e)
                         \<lparr>JobID = jobID, JobKind = KindDeleteOCIObject, SecretID = [],
                          ObjectKey = s_storage_key r, Reason = ReasonManual, RequestedAt = clock e 2\<rparr> s1 of
                    (Inl err, _) \<Rightarrow> Inl (ErrSecret ''enqueue cancellation cleanup'')
                  | (Inr _, s2) \<Rightarrow> Inr s2)))
          else Inr s1))"

definition Revoke ::
  "store \<Rightarrow> env \<Rightarrow> string \<Rightarrow> string \<Rightarrow> api \<Rightarrow> (secret_error option \<times> management_status) \<times> api" where
  "Revoke st e i token s =
     (let failed = (\<lambda>err. ((Some err, zero_status), s)) in
      if fails e ''acquire cancellation connection'' then failed (ErrSecret ''acquire cancellation connection'')
      else if fails e ''begin cancellation'' then failed (ErrSecret ''begin cancellation'')
      else (case management st (fails e) (clock e 0) i token s of
        Inl err \<Rightarrow> failed err
      | Inr status0 \<Rightarrow>
          if ms_Status status0 = ''cancelled'' then ((None, status0), s)
          else if \<not> ms_CanCancel status0 then ((Some ErrNotCancellable, status0), s)
          else if fails e ''read cancellation storage'' then failed (ErrSecret ''read cancellation storage'')
          else (case secret_of s i of
            None \<Rightarrow> failed (ErrSecret ''read cancellation storage'')
          | Some r \<Rightarrow>
              (case management st (fails e) (clock e 1) i token s of
                 Inl err \<Rightarrow> failed err
               | Inr status \<Rightarrow>
                   if \<not> ms_CanCancel status then ((Some ErrNotCancellable, status), s)
                   else (case cancelTx st e i r s of
                     Inl err \<Rightarrow> failed err
                   | Inr s2 \<Rightarrow>
                       if fails e ''commit cancellation'' then failed (ErrSecret ''commit cancellation'')
                       else ((None, status\<lparr>ms_Status := ''cancelled'', ms_CanCancel := False\<rparr>),
                             if ms_Status status = statePendingUpload
                             then s2\<lparr>ActiveUploads := ActiveUploads s2 - 1\<rparr> else s2))))))"

text \<open>The rows a purge takes: expired, and not an opened S3 body that may still be streaming.\<close>

definition mgmt_order :: "mgmt_row \<Rightarrow> mgmt_row \<Rightarrow> bool" where
  "mgmt_order a b \<longleftrightarrow> str_le (fixedTime (m_expires_at a)) (fixedTime (m_expires_at b)) \<and>
     (fixedTime (m_expires_at a) = fixedTime (m_expires_at b) \<longrightarrow> str_le (m_secret_id a) (m_secret_id b))"

definition streaming :: "sqlite \<Rightarrow> time \<Rightarrow> string \<Rightarrow> api \<Rightarrow> bool" where
  "streaming db now i s \<longleftrightarrow>
     (\<exists>r\<in>set (secrets s). s_id r = i \<and> s_storage_backend r = StorageS3 \<and>
        (case s_consumed_at r of None \<Rightarrow> False
         | Some c \<Rightarrow> julianday db c > julianday db (now - openObjectGrace)))"

definition expired_management :: "sqlite \<Rightarrow> time \<Rightarrow> int \<Rightarrow> api \<Rightarrow> string list" where
  "expired_management db now limit s =
     map m_secret_id (sql_top mgmt_order (nat limit)
       (filter (\<lambda>m. str_le (fixedTime (m_expires_at m)) (fixedTime now) \<and> \<not> streaming db now (m_secret_id m) s)
         (secret_management s)))"

definition purgeManagementTx :: "sqlite \<Rightarrow> env \<Rightarrow> time \<Rightarrow> int \<Rightarrow> api \<Rightarrow> (secret_error + unit) \<times> api" where
  "purgeManagementTx db e now limit s =
     (if fails e ''purge managed terminal metadata''
      then (Inl (ErrSecret ''purge managed terminal metadata''), s)
      else let ids = expired_management db now limit s;
               s1 = delete_secrets (\<lambda>r. s_consumed_at r \<noteq> None \<and> s_id r \<in> set ids) s in
        if fails e ''purge management capabilities''
        then (Inl (ErrSecret ''purge management capabilities''), s1)
        else let ids1 = expired_management db now limit s1 in
          (Inr (), s1\<lparr>secret_management := sql_delete (\<lambda>m. m_secret_id m \<in> set ids1) (secret_management s1)\<rparr>))"

end
