(* ===== verification/Secret_Store.thy ===== *)
theory Secret_Store
  imports Secret_Management
begin

text \<open>
  The secret store (internal/secrets/store.go) and the transaction of the open handler around it
  (internal/httpapi/secrets.go, \<open>openAndEnqueueCleanup\<close> and \<open>enqueueOpenedObjectCleanup\<close>). A
  transaction-level operation (\<open>...Tx\<close>) returns the state inside the transaction also when it fails;
  the operation that began the transaction returns the state it started from unless it commits.
\<close>

record secret =
  ManagementToken :: string
  ID :: string
  Kind :: string
  StorageBackend :: string
  StorageKey :: string
  Ciphertext :: bytes
  Body :: "bytes option"
  AccessKDF :: kdf_params
  WrappedIdentity :: "string option"
  EncryptedFilename :: "string option"
  ContentType :: "string option"
  SizeBytes :: int
  ExpiresAt :: time
  accessProofHash :: string

record create_large_result =
  lr_ManagementToken :: string
  lr_ID :: string
  lr_ExpiresAt :: time
  lr_Upload :: upload_instruction

record metadata =
  md_ID :: string
  md_Kind :: string
  md_AccessKDF :: kdf_params
  md_SizeBytes :: int
  md_ExpiresAt :: time

subsection \<open>Creating\<close>

definition inline_row :: "string \<Rightarrow> create_input \<Rightarrow> time \<Rightarrow> time \<Rightarrow> secret_row" where
  "inline_row i input now expiresAt =
     (case modelAColumns (ci_AccessKDF input) (ci_AccessProofHash input) of (kdf, proof) \<Rightarrow>
      \<lparr>s_id = i, s_kind = ci_Kind input, s_storage_backend = StorageSQLite, s_storage_key = i,
       s_access_kdf = kdf, s_access_proof_hash = proof, s_wrapped_identity = ci_WrappedIdentity input,
       s_encrypted_filename = ci_EncryptedFilename input, s_content_type = ci_ContentType input,
       s_size_bytes = ci_SizeBytes input, s_max_views = ci_MaxViews input, s_view_count = 0,
       s_failed_access_count = 0, s_state = stateActive, s_expires_at = expiresAt, s_consumed_at = None,
       s_created_at = now, s_updated_at = now, s_reclaim_enqueued_at = None\<rparr>)"

definition Create :: "store \<Rightarrow> env \<Rightarrow> create_input \<Rightarrow> api \<Rightarrow> (secret_error + secret) \<times> api" where
  "Create st e input0 s =
     (let input = (if ci_MaxViews input0 = 0 then input0\<lparr>ci_MaxViews := 1\<rparr> else input0) in
      case validateCreate st input of
        Some err \<Rightarrow> (Inl err, s)
      | None \<Rightarrow>
      (case generateID e of
        None \<Rightarrow> (Inl (ErrSecret ''generate secret id''), s)
      | Some i \<Rightarrow>
        let now = clock e 0; expiresAt = now + wrap64 (ci_TTLSeconds input * Second) in
        if fails e ''begin create secret'' then (Inl (ErrSecret ''begin create secret''), s)
        else (case exec e ''insert secret metadata'' (insert_secret (inline_row i input now expiresAt) s) of
          None \<Rightarrow> (Inl (ErrSecret ''insert secret metadata''), s)
        | Some s1 \<Rightarrow>
        (case exec e ''insert secret payload''
                (insert_payload \<lparr>p_secret_id = i, p_ciphertext = ci_Ciphertext input, p_created_at = now\<rparr> s1) of
          None \<Rightarrow> (Inl (ErrSecret ''insert secret payload''), s)
        | Some s2 \<Rightarrow>
        (case createManagementTx e i expiresAt s2 of
          (Inl err, _) \<Rightarrow> (Inl err, s)
        | (Inr managementToken, s3) \<Rightarrow>
            if fails e ''commit create secret'' then (Inl (ErrSecret ''commit create secret''), s)
            else (Inr \<lparr>ManagementToken = managementToken, ID = i, Kind = ci_Kind input,
                        StorageBackend = StorageSQLite, StorageKey = i, Ciphertext = ci_Ciphertext input,
                        Body = None, AccessKDF = ci_AccessKDF input,
                        WrappedIdentity = ci_WrappedIdentity input,
                        EncryptedFilename = ci_EncryptedFilename input,
                        ContentType = ci_ContentType input, SizeBytes = ci_SizeBytes input,
                        ExpiresAt = expiresAt, accessProofHash = []\<rparr>, s3))))))"

definition large_row :: "string \<Rightarrow> create_large_input \<Rightarrow> time \<Rightarrow> time \<Rightarrow> secret_row" where
  "large_row i input now expiresAt =
     (case modelAColumns (cl_AccessKDF input) (cl_AccessProofHash input) of (kdf, proof) \<Rightarrow>
      \<lparr>s_id = i, s_kind = cl_Kind input, s_storage_backend = StorageS3,
       s_storage_key = managedObjectPrefix @ i,
       s_access_kdf = kdf, s_access_proof_hash = proof, s_wrapped_identity = cl_WrappedIdentity input,
       s_encrypted_filename = cl_EncryptedFilename input, s_content_type = cl_ContentType input,
       s_size_bytes = cl_SizeBytes input, s_max_views = cl_MaxViews input, s_view_count = 0,
       s_failed_access_count = 0, s_state = statePendingUpload, s_expires_at = expiresAt,
       s_consumed_at = None, s_created_at = now, s_updated_at = now, s_reclaim_enqueued_at = None\<rparr>)"

definition CreateLarge ::
  "store \<Rightarrow> s3 \<Rightarrow> env \<Rightarrow> create_large_input \<Rightarrow> api \<Rightarrow> (secret_error + create_large_result) \<times> api" where
  "CreateLarge st svc e input0 s =
     (if \<not> hasObjects st then (Inl ErrPayloadTooLarge, s)
      else let input = (if cl_MaxViews input0 = 0 then input0\<lparr>cl_MaxViews := 1\<rparr> else input0) in
      case validateCreateLarge st input of
        Some err \<Rightarrow> (Inl err, s)
      | None \<Rightarrow>
      (case generateID e of
        None \<Rightarrow> (Inl (ErrSecret ''generate secret id''), s)
      | Some i \<Rightarrow>
        let now = clock e 0; expiresAt = now + wrap64 (cl_TTLSeconds input * Second);
            storageKey = managedObjectPrefix @ i in
        (case PresignPUT svc (clock e 1) storageKey (cl_SizeBytes input) (presignTTL st) of
          Inl _ \<Rightarrow> (Inl (ErrSecret ''presign upload''), s)
        | Inr upload \<Rightarrow>
        if fails e ''begin create large secret'' then (Inl (ErrSecret ''begin create large secret''), s)
        else (case exec e ''insert large secret metadata'' (insert_secret (large_row i input now expiresAt) s) of
          None \<Rightarrow> (Inl (ErrSecret ''insert large secret metadata''), s)
        | Some s1 \<Rightarrow>
        (case createManagementTx e i expiresAt s1 of
          (Inl err, _) \<Rightarrow> (Inl err, s)
        | (Inr managementToken, s2) \<Rightarrow>
            if fails e ''commit create large secret'' then (Inl (ErrSecret ''commit create large secret''), s)
            else (Inr \<lparr>lr_ManagementToken = managementToken, lr_ID = i, lr_ExpiresAt = expiresAt,
                       lr_Upload = upload\<rparr>,
                  s2\<lparr>ActiveUploads := ActiveUploads s2 + 1\<rparr>))))))"

subsection \<open>Finalizing an upload\<close>

definition activateSecretTx :: "env \<Rightarrow> string \<Rightarrow> time \<Rightarrow> api \<Rightarrow> (secret_error + unit) \<times> api" where
  "activateSecretTx e i now s =
     (let p = (\<lambda>r. s_id r = i \<and> s_state r = statePendingUpload) in
      if fails e ''activate secret'' then (Inl (ErrSecret ''activate secret''), s)
      else let s' = update_secrets p (\<lambda>r. r\<lparr>s_state := stateActive, s_updated_at := now\<rparr>) s in
        if fails e ''read activate row count'' then (Inl (ErrSecret ''read activate row count''), s')
        else if sql_count p (secrets s) \<noteq> 1 then (Inl ErrNotFound, s')
        else (Inr (), s'))"

definition upload_deadline :: "store \<Rightarrow> secret_row \<Rightarrow> time" where
  "upload_deadline st r =
     (let pendingDeadline = s_created_at r + pendingTTL st in
      if pendingDeadline < s_expires_at r then pendingDeadline else s_expires_at r)"

definition Finalize :: "store \<Rightarrow> s3 \<Rightarrow> env \<Rightarrow> string \<Rightarrow> api \<Rightarrow> (secret_error + unit) \<times> api" where
  "Finalize st svc e i s =
     (if \<not> hasObjects st then (Inl ErrPayloadTooLarge, s)
      else if fails e ''begin finalize'' then (Inl (ErrSecret ''begin finalize''), s)
      else if fails e ''load pending secret'' then (Inl (ErrSecret ''load pending secret''), s)
      else (case secret_of s i of
        None \<Rightarrow> (Inl ErrNotFound, s)
      | Some r \<Rightarrow>
        if s_state r = stateActive then (Inr (), s)
        else if s_state r \<noteq> statePendingUpload then (Inl ErrNotPending, s)
        else let deadline = upload_deadline st r in
          if \<not> clock e 0 < deadline then (Inl ErrExpired, s)
          else (case Head svc (s_storage_key r) of
            Inl _ \<Rightarrow> (Inl (ErrSecret ''head uploaded object''), s)
          | Inr info \<Rightarrow>
            if \<not> Exists info \<or> Size info \<noteq> s_size_bytes r then (Inl ErrObjectMissing, s)
            else let now = clock e 1 in
              if \<not> now < deadline then (Inl ErrExpired, s)
              else (case activateSecretTx e i now s of
                (Inl err, _) \<Rightarrow> (Inl err, s)
              | (Inr _, s') \<Rightarrow>
                  if fails e ''commit finalize'' then (Inl (ErrSecret ''commit finalize''), s)
                  else (Inr (), s'\<lparr>ActiveUploads := ActiveUploads s' - 1\<rparr>)))))"

definition CountPendingUploads :: "env \<Rightarrow> api \<Rightarrow> secret_error + int" where
  "CountPendingUploads e s =
     (if fails e ''count pending uploads'' then Inl (ErrSecret ''count pending uploads'')
      else Inr (int (sql_count (\<lambda>r. s_state r = statePendingUpload) (secrets s))))"

subsection \<open>Reading\<close>

definition load :: "faults \<Rightarrow> string \<Rightarrow> api \<Rightarrow> secret_error + secret \<times> time option" where
  "load io i s =
     (if i = [] then Inl ErrNotFound
      else if io ''load secret'' then Inl (ErrSecret ''load secret'')
      else (case sql_row (\<lambda>r. s_id r = i \<and> s_state r = stateActive) (secrets s) of
        None \<Rightarrow> Inl ErrNotFound
      | Some r \<Rightarrow>
        let ciphertext = (case payload_of s i of None \<Rightarrow> [] | Some p \<Rightarrow> p_ciphertext p) in
        if s_storage_backend r \<noteq> StorageS3 \<and> ciphertext = [] \<and> s_consumed_at r = None then Inl ErrNotFound
        else if (s_access_kdf r \<noteq> None) \<noteq> (s_access_proof_hash r \<noteq> None) \<or>
                (s_access_proof_hash r \<noteq> None) \<noteq> (s_wrapped_identity r \<noteq> None)
        then Inl ErrInvalidInput
        else Inr (\<lparr>ManagementToken = [], ID = s_id r, Kind = s_kind r,
                   StorageBackend = s_storage_backend r, StorageKey = s_storage_key r,
                   Ciphertext = ciphertext, Body = None,
                   AccessKDF = (case s_access_kdf r of None \<Rightarrow> zero_kdf | Some k \<Rightarrow> k),
                   WrappedIdentity = s_wrapped_identity r, EncryptedFilename = s_encrypted_filename r,
                   ContentType = s_content_type r, SizeBytes = s_size_bytes r,
                   ExpiresAt = s_expires_at r,
                   accessProofHash = (case s_access_proof_hash r of None \<Rightarrow> [] | Some h \<Rightarrow> h)\<rparr>,
                  s_consumed_at r)))"

definition Get :: "env \<Rightarrow> string \<Rightarrow> api \<Rightarrow> secret_error + secret" where
  "Get e i s =
     (case load (fails e) i s of
        Inl err \<Rightarrow> Inl err
      | Inr (secret, consumedAt) \<Rightarrow>
          if consumedAt \<noteq> None then Inl ErrConsumed
          else if \<not> clock e 0 < ExpiresAt secret then Inl ErrExpired
          else Inr secret)"

definition Metadata :: "env \<Rightarrow> string \<Rightarrow> api \<Rightarrow> secret_error + metadata" where
  "Metadata e i s =
     (if i = [] then Inl ErrNotFound
      else if fails e ''load secret metadata'' then Inl (ErrSecret ''load secret metadata'')
      else (case sql_row (\<lambda>r. s_id r = i \<and> (s_storage_backend r = StorageS3 \<or>
                  (\<exists>p\<in>set (secret_payloads s). p_secret_id p = s_id r))) (secrets s) of
        None \<Rightarrow> Inl ErrNotFound
      | Some r \<Rightarrow>
          if s_consumed_at r \<noteq> None then Inl ErrConsumed
          else if \<not> clock e 0 < s_expires_at r then Inl ErrExpired
          else Inr \<lparr>md_ID = s_id r, md_Kind = s_kind r,
                     md_AccessKDF = (case s_access_kdf r of None \<Rightarrow> zero_kdf | Some k \<Rightarrow> k),
                     md_SizeBytes = s_size_bytes r, md_ExpiresAt = s_expires_at r\<rparr>))"

subsection \<open>Opening\<close>

definition openBody :: "store \<Rightarrow> s3 \<Rightarrow> secret \<Rightarrow> secret_error + secret" where
  "openBody st svc secret =
     (if StorageBackend secret \<noteq> StorageS3 then Inr secret
      else if \<not> hasObjects st then Inl ErrNotFound
      else (case Open svc (StorageKey secret) of
              Inl _ \<Rightarrow> Inl (ErrSecret ''open object payload'')
            | Inr (body, sz) \<Rightarrow>
                if sz \<noteq> SizeBytes secret then Inl (ErrSecret ''open object payload'')
                else Inr (secret\<lparr>Body := Some body\<rparr>)))"

definition locked_job :: "string \<Rightarrow> string \<Rightarrow> time \<Rightarrow> job_event" where
  "locked_job jobID key now =
     \<lparr>JobID = jobID, JobKind = KindDeleteOCIObject, SecretID = [], ObjectKey = key,
      Reason = ReasonConsumed, RequestedAt = now\<rparr>"

text \<open>The object delete of a store without an outbox is best effort and changes nothing here.\<close>

definition recordFailedAccessTx ::
  "store \<Rightarrow> env \<Rightarrow> string \<Rightarrow> string \<Rightarrow> string \<Rightarrow> time \<Rightarrow> api \<Rightarrow> (secret_error + unit) \<times> api" where
  "recordFailedAccessTx st e i backend key now s =
     (let p = (\<lambda>r. s_id r = i \<and> s_consumed_at r = None) in
      if fails e ''record failed secret access'' then (Inl (ErrSecret ''record failed secret access''), s)
      else let s1 = update_secrets p
          (\<lambda>r. r\<lparr>s_failed_access_count := s_failed_access_count r + 1,
                 s_consumed_at := (if s_failed_access_count r + 1 \<ge> maxFailedAccessAttempts
                                   then Some now else s_consumed_at r),
                 s_updated_at := now\<rparr>) s in
        if fails e ''read failed access row count'' then (Inl (ErrSecret ''read failed access row count''), s1)
        else if sql_count p (secrets s) \<noteq> 1 then (Inl ErrConsumed, s1)
        else if fails e ''load failed secret access count''
        then (Inl (ErrSecret ''load failed secret access count''), s1)
        else (case secret_of s1 i of
          None \<Rightarrow> (Inl (ErrSecret ''load failed secret access count''), s1)
        | Some r \<Rightarrow>
          if s_failed_access_count r \<ge> maxFailedAccessAttempts \<and> s_consumed_at r \<noteq> None then
            (case recordManagementOutcomeTx e i ''locked'' s1 of
              (Inl err, s2) \<Rightarrow> (Inl err, s2)
            | (Inr _, s2) \<Rightarrow>
                if backend \<noteq> StorageS3 then
                  (if fails e ''delete locked secret payload''
                   then (Inl (ErrSecret ''delete locked secret payload''), s2)
                   else (Inr (), s2\<lparr>secret_payloads :=
                           sql_delete (\<lambda>q. p_secret_id q = i) (secret_payloads s2)\<rparr>))
                else if hasOutbox st then
                  (case NewJobID e ''locked job'' of
                     None \<Rightarrow> (Inl (ErrSecret ''generate locked object delete job id''), s2)
                   | Some jobID \<Rightarrow>
                       (case enqueue_event (outboxSubject st) (clock e 9) (fails e) (locked_job jobID key now) s2 of
                          (Inl _, s3) \<Rightarrow> (Inl (ErrSecret ''enqueue locked object delete''), s3)
                        | (Inr _, s3) \<Rightarrow> (Inr (), s3)))
                else (Inr (), s2))
          else (Inr (), s1)))"

definition OpenTx ::
  "store \<Rightarrow> s3 \<Rightarrow> env \<Rightarrow> string \<Rightarrow> string \<Rightarrow> api \<Rightarrow> (secret_error + secret) \<times> api" where
  "OpenTx st svc e i proofHash s =
     (let now = clock e 0 in
      case load (fails e) i s of
        Inl err \<Rightarrow> (Inl err, s)
      | Inr (secret, consumedAt) \<Rightarrow>
        if consumedAt \<noteq> None then (Inl ErrConsumed, s)
        else if \<not> now < ExpiresAt secret then (Inl ErrExpired, s)
        else if accessProofHash secret \<noteq> [] \<and> accessProofHash secret \<noteq> proofHash then
          (case recordFailedAccessTx st e i (StorageBackend secret) (StorageKey secret) now s of
             (Inl err, s1) \<Rightarrow> (Inl err, s1)
           | (Inr _, s1) \<Rightarrow> (Inl ErrInvalidAccess, s1))
        else (case openBody st svc secret of
          Inl err \<Rightarrow> (Inl err, s)
        | Inr opened \<Rightarrow>
          let now = clock e 1 in
          if \<not> now < ExpiresAt secret then (Inl ErrExpired, s)
          else if fails e ''mark secret opened'' then (Inl (ErrSecret ''mark secret opened''), s)
          else let p = (\<lambda>r. s_id r = i \<and> s_consumed_at r = None);
                   s1 = update_secrets p
                     (\<lambda>r. r\<lparr>s_view_count := s_view_count r + 1, s_consumed_at := Some now, s_updated_at := now\<rparr>) s in
            if fails e ''read open row count'' then (Inl (ErrSecret ''read open row count''), s1)
            else if sql_count p (secrets s) \<noteq> 1 then (Inl ErrConsumed, s1)
            else (case recordManagementOutcomeTx e i ''opened'' s1 of
              (Inl err, s2) \<Rightarrow> (Inl err, s2)
            | (Inr _, s2) \<Rightarrow> (Inr opened, s2))))"

text \<open>The open handler's transaction: a refused proof is committed, so that it counts; every other error
  rolls back; a success is committed together with the cleanup job.\<close>

definition consumed_job :: "string \<Rightarrow> string \<Rightarrow> time \<Rightarrow> job_event" where
  "consumed_job jobID i at =
     \<lparr>JobID = jobID, JobKind = KindDeleteSecret, SecretID = i, ObjectKey = [],
      Reason = ReasonConsumed, RequestedAt = at\<rparr>"

definition openAndEnqueueCleanup ::
  "store \<Rightarrow> s3 \<Rightarrow> env \<Rightarrow> string \<Rightarrow> string \<Rightarrow> api \<Rightarrow> (secret_error + secret) \<times> api" where
  "openAndEnqueueCleanup st svc e i proofHash s =
     (if \<not> hasOutbox st then (Inl (ErrSecret ''outbox store is required''), s)
      else (case NewJobID e ''open job'' of
        None \<Rightarrow> (Inl (ErrSecret ''generate job id''), s)
      | Some jobID \<Rightarrow>
        if fails e ''begin open cleanup transaction''
        then (Inl (ErrSecret ''begin open cleanup transaction''), s)
        else (case OpenTx st svc e i proofHash s of
          (Inl err, s1) \<Rightarrow>
            if err = ErrInvalidAccess then
              (if fails e ''commit failed access attempt''
               then (Inl (ErrSecret ''commit failed access attempt''), s)
               else (Inl err, s1))
            else (Inl err, s)
        | (Inr secret, s1) \<Rightarrow>
            (case enqueue_event (outboxSubject st) (clock e 3) (fails e) (consumed_job jobID i (clock e 2)) s1 of
               (Inl _, _) \<Rightarrow> (Inl (ErrSecret ''enqueue consumed cleanup job''), s)
             | (Inr _, s2) \<Rightarrow>
                 if fails e ''commit open cleanup transaction''
                 then (Inl (ErrSecret ''commit open cleanup transaction''), s)
                 else (Inr secret, s2)))))"

definition enqueueOpenedObjectCleanup :: "store \<Rightarrow> env \<Rightarrow> string \<Rightarrow> api \<Rightarrow> api" where
  "enqueueOpenedObjectCleanup st e key s =
     (case NewJobID e ''opened object job'' of
        None \<Rightarrow> s
      | Some jobID \<Rightarrow>
          if fails e ''begin opened object cleanup'' then s
          else (case enqueue_event (outboxSubject st) (clock e 1) (fails e)
                  (locked_job jobID key (clock e 0)) s of
                  (Inl _, _) \<Rightarrow> s
                | (Inr _, s1) \<Rightarrow> if fails e ''commit opened object cleanup'' then s else s1))"

subsection \<open>Removing\<close>

definition Cleanup :: "env \<Rightarrow> string \<Rightarrow> api \<Rightarrow> (secret_error + bool) \<times> api" where
  "Cleanup e i s =
     (if i = [] then (Inl ErrNotFound, s)
      else if fails e ''begin cleanup secret'' then (Inl (ErrSecret ''begin cleanup secret''), s)
      else if fails e ''delete secret payload'' then (Inl (ErrSecret ''delete secret payload''), s)
      else let affected = sql_count (\<lambda>q. p_secret_id q = i) (secret_payloads s);
               s1 = s\<lparr>secret_payloads := sql_delete (\<lambda>q. p_secret_id q = i) (secret_payloads s)\<rparr> in
        if fails e ''read cleanup row count'' then (Inl (ErrSecret ''read cleanup row count''), s)
        else if affected > 0 \<and> fails e ''mark secret cleaned'' then (Inl (ErrSecret ''mark secret cleaned''), s)
        else let s2 = (if affected > 0
                 then update_secrets (\<lambda>r. s_id r = i) (\<lambda>r. r\<lparr>s_updated_at := clock e 0\<rparr>) s1 else s1) in
          if fails e ''commit cleanup secret'' then (Inl (ErrSecret ''commit cleanup secret''), s)
          else (Inr (affected > 0), s2))"

definition ReclaimTx :: "env \<Rightarrow> string \<Rightarrow> api \<Rightarrow> (secret_error + unit) \<times> api" where
  "ReclaimTx e i s =
     (if i = [] then (Inl ErrNotFound, s)
      else if fails e ''delete secret payload on reclaim''
      then (Inl (ErrSecret ''delete secret payload on reclaim''), s)
      else let s1 = s\<lparr>secret_payloads := sql_delete (\<lambda>q. p_secret_id q = i) (secret_payloads s)\<rparr> in
        if fails e ''delete secret on reclaim'' then (Inl (ErrSecret ''delete secret on reclaim''), s1)
        else (Inr (), delete_secrets (\<lambda>r. s_id r = i \<and> s_reclaim_enqueued_at r \<noteq> None) s1))"

subsection \<open>The effect of each operation\<close>

lemma createManagementTx_Inr:
  assumes "createManagementTx e i x s = (Inr tok, s')"
  obtains raw where "draw e ''management capability'' = Some raw" "tok = rawurl_encode raw"
    "i \<notin> m_secret_id ` set (secret_management s)"
    "s' = s\<lparr>secret_management := secret_management s @
       [\<lparr>m_secret_id = i, m_token_hash = sha256 raw, m_expires_at = x, m_outcome = None\<rparr>]\<rparr>"
  using assms
  by (auto simp: createManagementTx_def insert_management_def exec_Some sql_insert_Some
      split: option.splits if_splits)

lemma recordManagementOutcomeTx_Inr:
  "recordManagementOutcomeTx e i oc s = (Inr u, s') \<Longrightarrow>
   s' = s\<lparr>secret_management := sql_update (\<lambda>m. m_secret_id m = i \<and> m_outcome m = None)
     (\<lambda>m. m\<lparr>m_outcome := Some oc\<rparr>) (secret_management s)\<rparr>"
  by (auto simp: recordManagementOutcomeTx_def split: if_splits)

lemma recordManagementOutcomeTx_cases:
  "recordManagementOutcomeTx e i oc s = (r, s') \<Longrightarrow>
   s' = s \<or> s' = s\<lparr>secret_management := sql_update (\<lambda>m. m_secret_id m = i \<and> m_outcome m = None)
     (\<lambda>m. m\<lparr>m_outcome := Some oc\<rparr>) (secret_management s)\<rparr>"
  by (auto simp: recordManagementOutcomeTx_def split: if_splits)

definition one_view :: "create_input \<Rightarrow> create_input" where
  "one_view input = (if ci_MaxViews input = 0 then input\<lparr>ci_MaxViews := 1\<rparr> else input)"

definition one_view_large :: "create_large_input \<Rightarrow> create_large_input" where
  "one_view_large input = (if cl_MaxViews input = 0 then input\<lparr>cl_MaxViews := 1\<rparr> else input)"

lemma Create_Inl: "Create st e input s = (Inl err, s') \<Longrightarrow> s' = s"
  by (auto simp: Create_def Let_def split: option.splits if_splits prod.splits sum.splits)

lemma Create_Inr:
  assumes "Create st e input0 s = (Inr sec, s')"
  obtains i raw input now x where
    "input = one_view input0" "now = clock e 0" "x = now + wrap64 (ci_TTLSeconds input * Second)"
    "generateID e = Some i" "draw e ''management capability'' = Some raw"
    "validateCreate st input = None" "i \<notin> s_id ` set (secrets s)" "i \<notin> p_secret_id ` set (secret_payloads s)"
    "i \<notin> m_secret_id ` set (secret_management s)" "secret_check (inline_row i input now x)"
    "s' = s\<lparr>secrets := secrets s @ [inline_row i input now x],
       secret_payloads := secret_payloads s @
         [\<lparr>p_secret_id = i, p_ciphertext = ci_Ciphertext input, p_created_at = now\<rparr>],
       secret_management := secret_management s @
         [\<lparr>m_secret_id = i, m_token_hash = sha256 raw, m_expires_at = x, m_outcome = None\<rparr>]\<rparr>"
    "ID sec = i" "ManagementToken sec = rawurl_encode raw" "ExpiresAt sec = x"
proof -
  let ?in = "one_view input0"
  let ?x = "clock e 0 + wrap64 (ci_TTLSeconds ?in * Second)"
  from assms obtain i s1 s2 tok where a: "validateCreate st ?in = None" "generateID e = Some i"
    "insert_secret (inline_row i ?in (clock e 0) ?x) s = Some s1"
    "insert_payload \<lparr>p_secret_id = i, p_ciphertext = ci_Ciphertext ?in, p_created_at = clock e 0\<rparr> s1 = Some s2"
    "createManagementTx e i ?x s2 = (Inr tok, s')"
    "ID sec = i" "ManagementToken sec = tok" "ExpiresAt sec = ?x"
    unfolding Create_def Let_def one_view_def [symmetric]
    by (auto simp: exec_Some split: option.splits if_splits prod.splits sum.splits)
  from a(5) obtain raw where r: "draw e ''management capability'' = Some raw" "tok = rawurl_encode raw"
    "i \<notin> m_secret_id ` set (secret_management s2)"
    "s' = s2\<lparr>secret_management := secret_management s2 @
       [\<lparr>m_secret_id = i, m_token_hash = sha256 raw, m_expires_at = ?x, m_outcome = None\<rparr>]\<rparr>"
    by (rule createManagementTx_Inr)
  have id: "s_id (inline_row i ?in (clock e 0) ?x) = i"
    by (simp add: inline_row_def split: prod.split)
  show thesis
    by (rule that [of ?in "clock e 0" ?x i raw])
      (use a r id in \<open>auto simp: insert_secret_def insert_payload_def sql_insert_Some split: if_splits\<close>)
qed

lemma CreateLarge_Inl: "CreateLarge st svc e input s = (Inl err, s') \<Longrightarrow> s' = s"
  by (auto simp: CreateLarge_def Let_def split: option.splits if_splits prod.splits sum.splits)

lemma CreateLarge_Inr:
  assumes "CreateLarge st svc e input0 s = (Inr res, s')"
  obtains i raw input now x where
    "input = one_view_large input0" "now = clock e 0" "x = now + wrap64 (cl_TTLSeconds input * Second)"
    "generateID e = Some i" "draw e ''management capability'' = Some raw"
    "validateCreateLarge st input = None" "hasObjects st"
    "i \<notin> s_id ` set (secrets s)" "i \<notin> m_secret_id ` set (secret_management s)"
    "secret_check (large_row i input now x)"
    "s' = s\<lparr>secrets := secrets s @ [large_row i input now x],
       secret_management := secret_management s @
         [\<lparr>m_secret_id = i, m_token_hash = sha256 raw, m_expires_at = x, m_outcome = None\<rparr>],
       ActiveUploads := ActiveUploads s + 1\<rparr>"
    "lr_ID res = i" "lr_ManagementToken res = rawurl_encode raw" "lr_ExpiresAt res = x"
proof -
  let ?in = "one_view_large input0"
  let ?x = "clock e 0 + wrap64 (cl_TTLSeconds ?in * Second)"
  from assms obtain i s1 s2 tok where a: "hasObjects st" "validateCreateLarge st ?in = None"
    "generateID e = Some i" "insert_secret (large_row i ?in (clock e 0) ?x) s = Some s1"
    "createManagementTx e i ?x s1 = (Inr tok, s2)" "s' = s2\<lparr>ActiveUploads := ActiveUploads s2 + 1\<rparr>"
    "lr_ID res = i" "lr_ManagementToken res = tok" "lr_ExpiresAt res = ?x"
    unfolding CreateLarge_def Let_def one_view_large_def [symmetric]
    by (auto simp: exec_Some split: option.splits if_splits prod.splits sum.splits)
  from a(5) obtain raw where r: "draw e ''management capability'' = Some raw" "tok = rawurl_encode raw"
    "i \<notin> m_secret_id ` set (secret_management s1)"
    "s2 = s1\<lparr>secret_management := secret_management s1 @
       [\<lparr>m_secret_id = i, m_token_hash = sha256 raw, m_expires_at = ?x, m_outcome = None\<rparr>]\<rparr>"
    by (rule createManagementTx_Inr)
  have id: "s_id (large_row i ?in (clock e 0) ?x) = i"
    by (simp add: large_row_def split: prod.split)
  show thesis
    by (rule that [of ?in "clock e 0" ?x i raw])
      (use a r id in \<open>auto simp: insert_secret_def sql_insert_Some split: if_splits\<close>)
qed

text \<open>The row updates the statements make.\<close>

definition opened_row :: "time \<Rightarrow> secret_row \<Rightarrow> secret_row" where
  "opened_row now r = r\<lparr>s_view_count := s_view_count r + 1, s_consumed_at := Some now, s_updated_at := now\<rparr>"

definition refused_row :: "time \<Rightarrow> secret_row \<Rightarrow> secret_row" where
  "refused_row now r = r\<lparr>s_failed_access_count := s_failed_access_count r + 1,
     s_consumed_at := (if s_failed_access_count r + 1 \<ge> maxFailedAccessAttempts then Some now else s_consumed_at r),
     s_updated_at := now\<rparr>"

definition active_row :: "time \<Rightarrow> secret_row \<Rightarrow> secret_row" where
  "active_row now r = r\<lparr>s_state := stateActive, s_updated_at := now\<rparr>"

lemma changed_row_id [simp]:
  "s_id (opened_row now r) = s_id r" "s_id (refused_row now r) = s_id r" "s_id (active_row now r) = s_id r"
  by (simp_all add: opened_row_def refused_row_def active_row_def)

abbreviation live_row :: "string \<Rightarrow> secret_row \<Rightarrow> bool" where
  "live_row i r \<equiv> s_id r = i \<and> s_consumed_at r = None"

definition with_outcome :: "string \<Rightarrow> string \<Rightarrow> api \<Rightarrow> api" where
  "with_outcome i oc s = s\<lparr>secret_management := sql_update (\<lambda>m. m_secret_id m = i \<and> m_outcome m = None)
     (\<lambda>m. m\<lparr>m_outcome := Some oc\<rparr>) (secret_management s)\<rparr>"

lemma with_outcome_frame [frame_simps, simp]:
  "secrets (with_outcome i oc s) = secrets s"
  "secret_payloads (with_outcome i oc s) = secret_payloads s"
  "object_pending (with_outcome i oc s) = object_pending s"
  "requests (with_outcome i oc s) = requests s"
  "request_payloads (with_outcome i oc s) = request_payloads s"
  "request_pending (with_outcome i oc s) = request_pending s"
  "outbox_events (with_outcome i oc s) = outbox_events s"
  "ActiveUploads (with_outcome i oc s) = ActiveUploads s"
  by (simp_all add: with_outcome_def)

lemma update_secrets_frame [frame_simps, simp]:
  "secrets (update_secrets p f s) = sql_update p f (secrets s)"
  "secret_payloads (update_secrets p f s) = secret_payloads s"
  "secret_management (update_secrets p f s) = secret_management s"
  "object_pending (update_secrets p f s) = object_pending s"
  "requests (update_secrets p f s) = requests s"
  "request_payloads (update_secrets p f s) = request_payloads s"
  "request_pending (update_secrets p f s) = request_pending s"
  "outbox_events (update_secrets p f s) = outbox_events s"
  "ActiveUploads (update_secrets p f s) = ActiveUploads s"
  by (simp_all add: update_secrets_def)

lemma recordManagementOutcomeTx_ok:
  "recordManagementOutcomeTx e i oc s = (Inr u, s') \<Longrightarrow> s' = with_outcome i oc s"
  by (auto simp: recordManagementOutcomeTx_def with_outcome_def split: if_splits)

lemma enqueue_event_Inr:
  assumes "enqueue_event subject now io ev s = (Inr row, s')"
  shows "s' = s\<lparr>outbox_events := outbox_events s @ [row]\<rparr> \<and> o_payload row = ev \<and> o_id row = JobID ev \<and>
    o_state row = StatePending \<and> JobID ev \<notin> o_id ` set (outbox_events s) \<and> Validate ev = Inr () \<and>
    o_attempts row = 0"
  using assms EnqueueTx_Inr [of subject now io ev "outbox_events s" row]
  by (auto simp: enqueue_event_def split: prod.splits)

lemma Finalize_Inl: "Finalize st svc e i s = (Inl err, s') \<Longrightarrow> s' = s"
  by (auto simp: Finalize_def Let_def split: option.splits if_splits prod.splits sum.splits)

lemma Finalize_Inr:
  assumes "Finalize st svc e i s = (Inr u, s')"
  obtains (already) r where "secret_of s i = Some r" "s_state r = stateActive" "s' = s"
  | (activated) r where "secret_of s i = Some r" "s_state r = statePendingUpload"
      "clock e 0 < upload_deadline st r" "clock e 1 < upload_deadline st r"
      "s3_head svc (s_storage_key r) = HeadObject (s_size_bytes r)"
      "sql_count (\<lambda>r. s_id r = i \<and> s_state r = statePendingUpload) (secrets s) = 1"
      "s' = (update_secrets (\<lambda>r. s_id r = i \<and> s_state r = statePendingUpload) (active_row (clock e 1)) s)
         \<lparr>ActiveUploads := ActiveUploads s - 1\<rparr>"
  using assms
  by (auto simp: Finalize_def activateSecretTx_def Let_def Head_def active_row_def [abs_def]
      split: option.splits if_splits prod.splits sum.splits head_answer.splits)

lemma load_Inr:
  assumes "load io i s = Inr (sec, c)" "distinct (map s_id (secrets s))"
  obtains r where "secret_of s i = Some r" "s_state r = stateActive" "c = s_consumed_at r"
    "ID sec = i" "StorageBackend sec = s_storage_backend r" "StorageKey sec = s_storage_key r"
    "SizeBytes sec = s_size_bytes r" "ExpiresAt sec = s_expires_at r"
    "accessProofHash sec = (case s_access_proof_hash r of None \<Rightarrow> [] | Some h \<Rightarrow> h)"
    "Ciphertext sec = (case payload_of s i of None \<Rightarrow> [] | Some p \<Rightarrow> p_ciphertext p)" "Body sec = None"
  using assms(1)
  by (auto simp: load_def sql_row_conj [OF assms(2)] Let_def dest: sql_row_Some
      split: option.splits if_splits)

lemma OpenTx_Inr:
  assumes "OpenTx st svc e i proofHash s = (Inr sec, s')" "distinct (map s_id (secrets s))"
  obtains r where "secret_of s i = Some r" "s_state r = stateActive" "s_consumed_at r = None"
    "clock e 0 < s_expires_at r" "clock e 1 < s_expires_at r"
    "s_access_proof_hash r \<in> {None, Some [], Some proofHash}"
    "ID sec = i" "SizeBytes sec = s_size_bytes r"
    "if s_storage_backend r = StorageS3
     then \<exists>body. s3_get svc (s_storage_key r) = Some (body, Some (s_size_bytes r)) \<and> Body sec = Some body
     else Body sec = None \<and> Ciphertext sec = (case payload_of s i of None \<Rightarrow> [] | Some p \<Rightarrow> p_ciphertext p)"
    "s' = with_outcome i ''opened'' (update_secrets (live_row i) (opened_row (clock e 1)) s)"
proof -
  from assms(1) obtain sec0 c where l: "load (fails e) i s = Inr (sec0, c)" "c = None"
    "clock e 0 < ExpiresAt sec0" "accessProofHash sec0 = [] \<or> accessProofHash sec0 = proofHash"
    "openBody st svc sec0 = Inr sec" "clock e 1 < ExpiresAt sec0"
    "s' = with_outcome i ''opened'' (update_secrets (live_row i) (opened_row (clock e 1)) s)"
    by (auto simp: OpenTx_def Let_def opened_row_def [abs_def] dest!: recordManagementOutcomeTx_ok
        split: option.splits if_splits prod.splits sum.splits)
  obtain r where r: "secret_of s i = Some r" "s_state r = stateActive" "c = s_consumed_at r"
    "ID sec0 = i" "StorageBackend sec0 = s_storage_backend r" "StorageKey sec0 = s_storage_key r"
    "SizeBytes sec0 = s_size_bytes r" "ExpiresAt sec0 = s_expires_at r"
    "accessProofHash sec0 = (case s_access_proof_hash r of None \<Rightarrow> [] | Some h \<Rightarrow> h)"
    "Ciphertext sec0 = (case payload_of s i of None \<Rightarrow> [] | Some p \<Rightarrow> p_ciphertext p)" "Body sec0 = None"
    by (rule load_Inr [OF l(1) assms(2)])
  show thesis
    by (rule that [of r])
      (use l r in \<open>auto simp: openBody_def Open_def split: if_splits sum.splits option.splits prod.splits\<close>)
qed

text \<open>A counted refusal: below the limit only the row changes, at the limit the delivery is locked and its
  payload goes, by deletion or by a queued object delete.\<close>

definition refused :: "string \<Rightarrow> time \<Rightarrow> api \<Rightarrow> api" where
  "refused i now s = update_secrets (live_row i) (refused_row now) s"

lemma refused_row_of:
  assumes "secret_of s i = Some r" "s_consumed_at r = None"
  shows "secret_of (refused i now s) i = Some (refused_row now r)"
  using assms sql_row_Some [OF assms(1)] by (simp add: refused_def sql_row_update [where key = s_id])

lemma recordFailedAccessTx_Inr:
  assumes "recordFailedAccessTx st e i backend key now s = (Inr u, s')"
    and "secret_of s i = Some r" "s_consumed_at r = None"
  obtains (counted) "s_failed_access_count r + 1 < maxFailedAccessAttempts" "s' = refused i now s"
  | (purged) "s_failed_access_count r + 1 \<ge> maxFailedAccessAttempts" "backend \<noteq> StorageS3"
      "s' = (with_outcome i ''locked'' (refused i now s))
         \<lparr>secret_payloads := sql_delete (\<lambda>q. p_secret_id q = i) (secret_payloads s)\<rparr>"
  | (queued) jobID row where "s_failed_access_count r + 1 \<ge> maxFailedAccessAttempts" "backend = StorageS3"
      "hasOutbox st" "NewJobID e ''locked job'' = Some jobID" "o_payload row = locked_job jobID key now"
      "enqueue_event (outboxSubject st) (clock e 9) (fails e) (locked_job jobID key now)
         (with_outcome i ''locked'' (refused i now s)) = (Inr row, s')"
  | (detached) "s_failed_access_count r + 1 \<ge> maxFailedAccessAttempts" "backend = StorageS3"
      "\<not> hasOutbox st" "s' = with_outcome i ''locked'' (refused i now s)"
proof -
  note row = refused_row_of [OF assms(2,3), of now]
  have eff: "s_failed_access_count (refused_row now r) \<ge> maxFailedAccessAttempts \<and>
      s_consumed_at (refused_row now r) \<noteq> None \<longleftrightarrow> s_failed_access_count r + 1 \<ge> maxFailedAccessAttempts"
    using assms(3) by (auto simp: refused_row_def)
  have fold: "update_secrets (live_row i) (\<lambda>r. r\<lparr>s_failed_access_count := s_failed_access_count r + 1,
      s_consumed_at := (if s_failed_access_count r + 1 \<ge> maxFailedAccessAttempts then Some now else s_consumed_at r),
      s_updated_at := now\<rparr>) s = refused i now s"
    by (simp add: refused_def refused_row_def [abs_def])
  show thesis
  proof (cases "s_failed_access_count r + 1 \<ge> maxFailedAccessAttempts")
    case False
    then have "s' = refused i now s"
      using assms(1) unfolding recordFailedAccessTx_def Let_def fold row option.case eff
      by (simp split: if_splits)
    with False show thesis by (intro counted) auto
  next
    case True
    then obtain v s2 where out: "recordManagementOutcomeTx e i ''locked'' (refused i now s) = (Inr v, s2)"
      and rest: "(if backend \<noteq> StorageS3 then
                  (if fails e ''delete locked secret payload''
                   then (Inl (ErrSecret ''delete locked secret payload''), s2)
                   else (Inr (), s2\<lparr>secret_payloads :=
                           sql_delete (\<lambda>q. p_secret_id q = i) (secret_payloads s2)\<rparr>))
                else if hasOutbox st then
                  (case NewJobID e ''locked job'' of
                     None \<Rightarrow> (Inl (ErrSecret ''generate locked object delete job id''), s2)
                   | Some jobID \<Rightarrow>
                       (case enqueue_event (outboxSubject st) (clock e 9) (fails e) (locked_job jobID key now) s2 of
                          (Inl _, s3) \<Rightarrow> (Inl (ErrSecret ''enqueue locked object delete''), s3)
                        | (Inr _, s3) \<Rightarrow> (Inr (), s3)))
                else (Inr (), s2)) = (Inr u, s')"
      using assms(1) unfolding recordFailedAccessTx_def Let_def fold row option.case eff
      by (auto split: if_splits prod.splits sum.splits)
    have "s2 = with_outcome i ''locked'' (refused i now s)"
      using out by (rule recordManagementOutcomeTx_ok)
    with True rest show thesis
      by (auto simp: refused_def split: if_splits option.splits prod.splits sum.splits
          intro: purged detached queued dest: enqueue_event_Inr)
  qed
qed

lemma OpenTx_refused:
  assumes "OpenTx st svc e i proofHash s = (Inl ErrInvalidAccess, s')" "distinct (map s_id (secrets s))"
  obtains r h u where "secret_of s i = Some r" "s_state r = stateActive" "s_consumed_at r = None"
    "clock e 0 < s_expires_at r" "s_access_proof_hash r = Some h" "h \<noteq> []" "h \<noteq> proofHash"
    "recordFailedAccessTx st e i (s_storage_backend r) (s_storage_key r) (clock e 0) s = (Inr u, s')"
proof -
  have n1: "load (fails e) i s \<noteq> Inl ErrInvalidAccess"
    by (auto simp: load_def Let_def split: option.splits)
  have n2: "openBody st svc x \<noteq> Inl ErrInvalidAccess" for x
    by (auto simp: openBody_def split: sum.splits prod.splits)
  have n3: "recordManagementOutcomeTx e a b x \<noteq> (Inl ErrInvalidAccess, y)" for a b x y
    by (auto simp: recordManagementOutcomeTx_def)
  have n4: "recordFailedAccessTx st e i a b c s \<noteq> (Inl ErrInvalidAccess, y)" for a b c y
    using n3 by (auto simp: recordFailedAccessTx_def Let_def split: option.splits prod.splits sum.splits)
  from assms(1) obtain sec c u where l: "load (fails e) i s = Inr (sec, c)" "c = None"
    "clock e 0 < ExpiresAt sec" "accessProofHash sec \<noteq> []" "accessProofHash sec \<noteq> proofHash"
    "recordFailedAccessTx st e i (StorageBackend sec) (StorageKey sec) (clock e 0) s = (Inr u, s')"
    using n1 n2 n3 n4
    by (auto simp: OpenTx_def Let_def split: option.splits if_splits prod.splits sum.splits)
  show thesis
    by (rule load_Inr [OF l(1) assms(2)]) (use l that in \<open>auto split: option.splits\<close>)
qed

lemma openAndEnqueueCleanup_Inr:
  assumes "openAndEnqueueCleanup st svc e i proofHash s = (Inr sec, s')"
  obtains jobID row s1 where "hasOutbox st" "NewJobID e ''open job'' = Some jobID"
    "OpenTx st svc e i proofHash s = (Inr sec, s1)"
    "enqueue_event (outboxSubject st) (clock e 3) (fails e) (consumed_job jobID i (clock e 2)) s1 = (Inr row, s')"
  using assms
  by (auto simp: openAndEnqueueCleanup_def split: option.splits if_splits prod.splits sum.splits)

lemma openAndEnqueueCleanup_Inl:
  assumes "openAndEnqueueCleanup st svc e i proofHash s = (Inl err, s')"
  obtains (refused) "hasOutbox st" "err = ErrInvalidAccess" "OpenTx st svc e i proofHash s = (Inl ErrInvalidAccess, s')"
  | (rolled_back) "err \<noteq> ErrInvalidAccess" "s' = s"
  using assms
  by (auto simp: openAndEnqueueCleanup_def split: option.splits if_splits prod.splits sum.splits)

subsection \<open>The invariant of the secret tables\<close>

text \<open>Beyond the CHECK clauses: secrets are one-time, a row with five refusals is consumed, an unconsumed
  one has no view, only an active row is consumed, and the storage key follows from the backend and the
  id. Across tables: unique keys, the payloads' foreign key, and the gauge counts the pending uploads.\<close>

definition secret_row_ok :: "secret_row \<Rightarrow> bool" where
  "secret_row_ok r \<longleftrightarrow> secret_check r \<and> s_max_views r = 1 \<and> s_access_proof_hash r \<noteq> Some [] \<and>
     s_failed_access_count r \<le> maxFailedAccessAttempts \<and> s_view_count r \<le> 1 \<and>
     (s_consumed_at r = None \<longrightarrow> s_failed_access_count r < maxFailedAccessAttempts \<and> s_view_count r = 0) \<and>
     (s_consumed_at r \<noteq> None \<longrightarrow> s_state r = stateActive) \<and>
     (s_storage_backend r \<noteq> StorageS3 \<longrightarrow> s_state r = stateActive) \<and>
     s_storage_key r = (if s_storage_backend r = StorageS3 then managedObjectPrefix @ s_id r else s_id r)"

abbreviation pending_row_state :: "secret_row \<Rightarrow> bool" where
  "pending_row_state r \<equiv> s_state r = statePendingUpload"

definition secret_tables_ok :: "api \<Rightarrow> bool" where
  "secret_tables_ok s \<longleftrightarrow> table_ok s_id secret_row_ok (secrets s) \<and>
     table_ok p_secret_id (\<lambda>_. True) (secret_payloads s) \<and>
     (\<forall>p\<in>set (secret_payloads s). p_secret_id p \<in> s_id ` set (secrets s)) \<and>
     table_ok m_secret_id mgmt_check (secret_management s)"

definition secrets_ok :: "api \<Rightarrow> bool" where
  "secrets_ok s \<longleftrightarrow> secret_tables_ok s \<and> ActiveUploads s = int (sql_count pending_row_state (secrets s))"

lemma secrets_ok_distinct: "secrets_ok s \<Longrightarrow> distinct (map s_id (secrets s))"
  by (auto simp: secrets_ok_def secret_tables_ok_def dest: table_ok_distinct)

lemma secrets_ok_row: "secrets_ok s \<Longrightarrow> secret_of s i = Some r \<Longrightarrow> secret_row_ok r"
  by (auto simp: secrets_ok_def secret_tables_ok_def intro: table_ok_row)

lemma secrets_ok_MigrateAPI: "secrets_ok MigrateAPI"
  by (simp add: secrets_ok_def secret_tables_ok_def MigrateAPI_def Let_def sql_count_def)

lemma secrets_ok_frame [simp]:
  "secrets_ok (s\<lparr>outbox_events := a\<rparr>) = secrets_ok s"
  "secrets_ok (s\<lparr>object_pending := b\<rparr>) = secrets_ok s"
  "secrets_ok (s\<lparr>object_cursor := c\<rparr>) = secrets_ok s"
  "secrets_ok (s\<lparr>requests := d\<rparr>) = secrets_ok s"
  "secrets_ok (s\<lparr>request_payloads := f\<rparr>) = secrets_ok s"
  "secrets_ok (s\<lparr>request_pending := g\<rparr>) = secrets_ok s"
  "secrets_ok (s\<lparr>request_cursor := h\<rparr>) = secrets_ok s"
  by (simp_all add: secrets_ok_def secret_tables_ok_def)

lemma image_id_update: "(\<And>r. s_id (f r) = s_id r) \<Longrightarrow> s_id ` set (sql_update p f t) = s_id ` set t"
  using map_key_update [of s_id f p t] by (metis list.set_map)

lemma secrets_ok_update:
  assumes "secrets_ok s" "\<And>r. s_id (f r) = s_id r"
    and "\<And>r. p r \<Longrightarrow> secret_row_ok r \<Longrightarrow> secret_row_ok (f r)"
    and "\<And>r. p r \<Longrightarrow> secret_row_ok r \<Longrightarrow> pending_row_state (f r) = pending_row_state r"
  shows "secrets_ok (update_secrets p f s)"
proof -
  have "sql_count pending_row_state (sql_update p f (secrets s)) = sql_count pending_row_state (secrets s)"
    using assms(1,4) by (intro sql_count_update_same) (auto simp: secrets_ok_def secret_tables_ok_def dest: table_ok_chk)
  with assms show ?thesis
    by (auto simp: secrets_ok_def secret_tables_ok_def image_id_update intro: table_ok_update)
qed

lemma secrets_ok_outcome:
  assumes "secrets_ok s" "oc \<in> {''opened'', ''locked'', ''cancelled'', ''unavailable''}"
  shows "secrets_ok (with_outcome i oc s)"
proof -
  have "table_ok m_secret_id mgmt_check (secret_management (with_outcome i oc s))"
    using assms unfolding with_outcome_def secrets_ok_def secret_tables_ok_def
    by (auto simp: mgmt_check_def intro!: table_ok_update)
  with assms(1) show ?thesis
    by (simp add: secrets_ok_def secret_tables_ok_def)
qed

lemma secrets_ok_delete_payloads:
  "secrets_ok s \<Longrightarrow> secrets_ok (s\<lparr>secret_payloads := sql_delete q (secret_payloads s)\<rparr>)"
  by (auto simp: secrets_ok_def secret_tables_ok_def intro: table_ok_delete)

lemma secrets_ok_delete:
  assumes "secrets_ok s"
  shows "secrets_ok ((delete_secrets p s)
    \<lparr>ActiveUploads := ActiveUploads s - int (sql_count (\<lambda>r. p r \<and> pending_row_state r) (secrets s))\<rparr>)"
proof -
  have "sql_count pending_row_state (sql_delete p (secrets s)) +
      sql_count (\<lambda>r. p r \<and> pending_row_state r) (secrets s) = sql_count pending_row_state (secrets s)"
    by (rule sql_count_delete)
  then have "ActiveUploads s - int (sql_count (\<lambda>r. p r \<and> pending_row_state r) (secrets s)) =
      int (sql_count pending_row_state (sql_delete p (secrets s)))"
    using assms by (simp add: secrets_ok_def secret_tables_ok_def)
  moreover have "\<forall>q\<in>set (secret_payloads (delete_secrets p s)). p_secret_id q \<in> s_id ` set (secrets (delete_secrets p s))"
  proof
    fix q assume "q \<in> set (secret_payloads (delete_secrets p s))"
    then have "q \<in> set (secret_payloads s)" and keep: "\<forall>r\<in>set (secrets s). p r \<longrightarrow> s_id r \<noteq> p_secret_id q"
      by (auto simp: delete_secrets_def)
    then obtain r where "r \<in> set (secrets s)" "s_id r = p_secret_id q"
      using assms by (auto simp: secrets_ok_def secret_tables_ok_def)
    with keep show "p_secret_id q \<in> s_id ` set (secrets (delete_secrets p s))"
      by (auto simp: delete_secrets_def image_iff)
  qed
  ultimately show ?thesis
    using assms unfolding secrets_ok_def secret_tables_ok_def delete_secrets_def by (simp add: table_ok_delete)
qed

lemma secrets_ok_delete_settled:
  assumes "secrets_ok s" "\<And>r. r \<in> set (secrets s) \<Longrightarrow> p r \<Longrightarrow> \<not> pending_row_state r"
  shows "secrets_ok (delete_secrets p s)"
proof -
  have "sql_count (\<lambda>r. p r \<and> pending_row_state r) (secrets s) = 0"
    using assms(2) by (auto simp: sql_count_0)
  then show ?thesis
    using secrets_ok_delete [OF assms(1), of p] by (simp add: delete_secrets_def)
qed

lemma secrets_ok_enqueue:
  "secrets_ok s \<Longrightarrow> enqueue_event subject now io ev s = (r, s') \<Longrightarrow> secrets_ok s'"
  by (auto simp: enqueue_event_def split: prod.splits)

subsection \<open>Every operation keeps it\<close>

lemma accepted_row_ok:
  assumes "accepted st (ci_Kind input) ttl 1 (ci_AccessKDF input) (ci_AccessProofHash input) (ci_WrappedIdentity input) f"
    and "ci_MaxViews input = 1" "secret_check (inline_row i input now x)"
  shows "secret_row_ok (inline_row i input now x)"
  using assms by (auto simp: secret_row_ok_def inline_row_def modelAColumns_def accepted_def maxFailedAccessAttempts_def)

lemma accepted_large_row_ok:
  assumes "accepted st (cl_Kind input) ttl 1 (cl_AccessKDF input) (cl_AccessProofHash input) (cl_WrappedIdentity input) f"
    and "cl_MaxViews input = 1" "secret_check (large_row i input now x)"
  shows "secret_row_ok (large_row i input now x)"
  using assms by (auto simp: secret_row_ok_def large_row_def modelAColumns_def accepted_def maxFailedAccessAttempts_def)

lemma secrets_ok_Create: "secrets_ok s \<Longrightarrow> secrets_ok (snd (Create st e input s))"
proof (cases "Create st e input s")
  case (Pair res s')
  assume ok: "secrets_ok s"
  show ?thesis
  proof (cases res)
    case (Inl err)
    with Pair ok show ?thesis by (auto dest: Create_Inl)
  next
    case (Inr sec)
    from Pair [unfolded Inr] obtain i raw inp now x where a: "validateCreate st inp = None"
      "i \<notin> s_id ` set (secrets s)" "i \<notin> p_secret_id ` set (secret_payloads s)"
      "i \<notin> m_secret_id ` set (secret_management s)" "secret_check (inline_row i inp now x)"
      "s' = s\<lparr>secrets := secrets s @ [inline_row i inp now x],
         secret_payloads := secret_payloads s @
           [\<lparr>p_secret_id = i, p_ciphertext = ci_Ciphertext inp, p_created_at = now\<rparr>],
         secret_management := secret_management s @
           [\<lparr>m_secret_id = i, m_token_hash = sha256 raw, m_expires_at = x, m_outcome = None\<rparr>]\<rparr>"
      by (rule Create_Inr)
    have "secret_row_ok (inline_row i inp now x)"
      using validateCreate_accepted [OF a(1)] a(5) by (intro accepted_row_ok) (auto simp: accepted_def)
    moreover have "s_id (inline_row i inp now x) = i" "s_state (inline_row i inp now x) = stateActive"
      by (simp_all add: inline_row_def split: prod.split)
    ultimately show ?thesis
      using ok a Pair by (auto simp: secrets_ok_def secret_tables_ok_def table_ok_def mgmt_check_def)
  qed
qed

lemma secrets_ok_CreateLarge: "secrets_ok s \<Longrightarrow> secrets_ok (snd (CreateLarge st svc e input s))"
proof (cases "CreateLarge st svc e input s")
  case (Pair res s')
  assume ok: "secrets_ok s"
  show ?thesis
  proof (cases res)
    case (Inl err)
    with Pair ok show ?thesis by (auto dest: CreateLarge_Inl)
  next
    case (Inr sec)
    from Pair [unfolded Inr] obtain i raw inp now x where a: "validateCreateLarge st inp = None"
      "i \<notin> s_id ` set (secrets s)" "i \<notin> m_secret_id ` set (secret_management s)"
      "secret_check (large_row i inp now x)"
      "s' = s\<lparr>secrets := secrets s @ [large_row i inp now x],
         secret_management := secret_management s @
           [\<lparr>m_secret_id = i, m_token_hash = sha256 raw, m_expires_at = x, m_outcome = None\<rparr>],
         ActiveUploads := ActiveUploads s + 1\<rparr>"
      by (rule CreateLarge_Inr)
    have "secret_row_ok (large_row i inp now x)"
      using validateCreateLarge_accepted [OF a(1)] a(4) by (intro accepted_large_row_ok) (auto simp: accepted_def)
    moreover have "s_id (large_row i inp now x) = i" "s_state (large_row i inp now x) = statePendingUpload"
      by (simp_all add: large_row_def split: prod.split)
    ultimately show ?thesis
      using ok a Pair by (auto simp: secrets_ok_def secret_tables_ok_def table_ok_def mgmt_check_def)
  qed
qed

lemma secret_row_ok_changes:
  assumes "secret_row_ok r"
  shows "s_consumed_at r = None \<Longrightarrow> s_state r = stateActive \<Longrightarrow> secret_row_ok (opened_row now r)"
    and "s_consumed_at r = None \<Longrightarrow> s_state r = stateActive \<Longrightarrow> secret_row_ok (refused_row now r)"
    and "secret_row_ok (active_row now r)"
  using assms
  by (auto simp: secret_row_ok_def secret_check_def opened_row_def refused_row_def active_row_def
      maxFailedAccessAttempts_def)

lemma secrets_ok_Finalize: "secrets_ok s \<Longrightarrow> secrets_ok (snd (Finalize st svc e i s))"
proof (cases "Finalize st svc e i s")
  case (Pair res s')
  assume ok: "secrets_ok s"
  let ?p = "\<lambda>r. s_id r = i \<and> s_state r = statePendingUpload" and ?f = "active_row (clock e 1)"
  show ?thesis
  proof (cases res)
    case (Inl err)
    with Pair ok show ?thesis by (auto dest: Finalize_Inl)
  next
    case (Inr u)
    from Pair [unfolded Inr] show ?thesis
    proof (cases rule: Finalize_Inr)
      case (activated r)
      have "sql_count pending_row_state (sql_update ?p ?f (secrets s)) + sql_count (\<lambda>r. ?p r \<and> pending_row_state r) (secrets s)
          = sql_count pending_row_state (secrets s)"
        by (rule sql_count_update_out) (simp add: active_row_def)
      moreover have "sql_count (\<lambda>r. ?p r \<and> pending_row_state r) (secrets s) = 1"
        using activated(6) sql_count_cong [of "secrets s" "\<lambda>r. ?p r \<and> pending_row_state r" ?p] by simp
      ultimately have "ActiveUploads s - 1 = int (sql_count pending_row_state (sql_update ?p ?f (secrets s)))"
        using ok by (simp add: secrets_ok_def secret_tables_ok_def)
      moreover have "table_ok s_id secret_row_ok (sql_update ?p ?f (secrets s))"
        using ok by (auto simp: secrets_ok_def secret_tables_ok_def intro: table_ok_update secret_row_ok_changes(3))
      ultimately show ?thesis
        using ok activated(7) Pair by (auto simp: secrets_ok_def secret_tables_ok_def image_id_update)
    qed (use Pair ok in auto)
  qed
qed

text \<open>An update of one live active row.\<close>

lemma secrets_ok_live_update:
  assumes "secrets_ok s" "secret_of s i = Some r" "s_state r = stateActive"
    and "\<And>r. s_id (f r) = s_id r" "\<And>r. s_state (f r) = s_state r"
    and "\<And>r. secret_row_ok r \<Longrightarrow> s_consumed_at r = None \<Longrightarrow> s_state r = stateActive \<Longrightarrow> secret_row_ok (f r)"
  shows "secrets_ok (update_secrets (live_row i) f s)"
proof -
  have "update_secrets (live_row i) f s =
      update_secrets (\<lambda>x. live_row i x \<and> s_state x = stateActive) f s"
    using assms(2,3) secrets_ok_distinct [OF assms(1)] unfolding update_secrets_def
    by (intro arg_cong [where f = "\<lambda>t. s\<lparr>secrets := t\<rparr>"] sql_update_cong)
      (auto simp: sql_row_iff distinct_map inj_on_def)
  also have "secrets_ok \<dots>"
    using assms by (intro secrets_ok_update) auto
  finally show ?thesis .
qed

lemma changed_row_state [simp]:
  "s_state (opened_row now r) = s_state r" "s_state (refused_row now r) = s_state r"
  by (simp_all add: opened_row_def refused_row_def)

lemma secrets_ok_OpenTx_Inr:
  assumes "secrets_ok s" "OpenTx st svc e i proofHash s = (Inr sec, s')"
  shows "secrets_ok s'"
proof (rule OpenTx_Inr [OF assms(2) secrets_ok_distinct [OF assms(1)]])
  fix r assume "secret_of s i = Some r" "s_state r = stateActive"
    "s' = with_outcome i ''opened'' (update_secrets (live_row i) (opened_row (clock e 1)) s)"
  with assms(1) show ?thesis
    by (auto intro!: secrets_ok_outcome secrets_ok_live_update secret_row_ok_changes)
qed

lemma secrets_ok_OpenTx_refused:
  assumes "secrets_ok s" "OpenTx st svc e i proofHash s = (Inl ErrInvalidAccess, s')"
  shows "secrets_ok s'"
proof (rule OpenTx_refused [OF assms(2) secrets_ok_distinct [OF assms(1)]])
  fix r h u assume r: "secret_of s i = Some r" "s_state r = stateActive" "s_consumed_at r = None"
    and f: "recordFailedAccessTx st e i (s_storage_backend r) (s_storage_key r) (clock e 0) s = (Inr u, s')"
  have ok: "secrets_ok (refused i (clock e 0) s)"
    unfolding refused_def using assms(1) r(1,2) by (intro secrets_ok_live_update) (auto intro: secret_row_ok_changes)
  then have ok': "secrets_ok (with_outcome i ''locked'' (refused i (clock e 0) s))"
    by (intro secrets_ok_outcome) auto
  from f r(1,3) show ?thesis
  proof (cases rule: recordFailedAccessTx_Inr)
    case purged
    with secrets_ok_delete_payloads [OF ok'] show ?thesis by (simp add: refused_def)
  next
    case (queued jobID row)
    then show ?thesis using ok' by (auto intro: secrets_ok_enqueue)
  qed (use ok ok' in auto)
qed

lemma secrets_ok_openAndEnqueueCleanup:
  "secrets_ok s \<Longrightarrow> secrets_ok (snd (openAndEnqueueCleanup st svc e i proofHash s))"
proof (cases "openAndEnqueueCleanup st svc e i proofHash s")
  case (Pair res s')
  assume ok: "secrets_ok s"
  show ?thesis
  proof (cases res)
    case (Inl err)
    from Pair [unfolded Inl] show ?thesis
      by (cases rule: openAndEnqueueCleanup_Inl) (use ok Pair in \<open>auto intro: secrets_ok_OpenTx_refused\<close>)
  next
    case (Inr sec)
    from Pair [unfolded Inr] show ?thesis
      by (rule openAndEnqueueCleanup_Inr)
        (use ok Pair in \<open>auto intro: secrets_ok_enqueue secrets_ok_OpenTx_Inr\<close>)
  qed
qed

lemma secrets_ok_enqueueOpenedObjectCleanup:
  "secrets_ok s \<Longrightarrow> secrets_ok (enqueueOpenedObjectCleanup st e key s)"
  by (auto simp: enqueueOpenedObjectCleanup_def split: option.splits prod.splits sum.splits
      intro: secrets_ok_enqueue)

lemma secrets_ok_Cleanup: "secrets_ok s \<Longrightarrow> secrets_ok (snd (Cleanup e i s))"
  by (auto simp: Cleanup_def Let_def secret_row_ok_def secret_check_def
      intro!: secrets_ok_update secrets_ok_delete_payloads)

lemma cancelTx_Inr:
  assumes "cancelTx st e i r s = Inr s'"
  obtains out where "sql_count (revocable i) (secrets s) = 1"
    "s' = (with_outcome i ''cancelled'' (delete_secrets (revocable i) s))\<lparr>outbox_events := outbox_events s @ out\<rparr>"
    "s_storage_backend r \<noteq> StorageS3 \<Longrightarrow> out = []"
    "s_storage_backend r = StorageS3 \<Longrightarrow> hasOutbox st \<and> (\<exists>row jobID. out = [row] \<and>
       NewJobID e ''cancellation job'' = Some jobID \<and>
       o_payload row = \<lparr>JobID = jobID, JobKind = KindDeleteOCIObject, SecretID = [],
         ObjectKey = s_storage_key r, Reason = ReasonManual, RequestedAt = clock e 2\<rparr> \<and>
       o_state row = StatePending \<and> o_id row = jobID \<and> jobID \<notin> o_id ` set (outbox_events s) \<and>
       Validate (o_payload row) = Inr () \<and> o_attempts row = 0)"
proof -
  let ?s1 = "with_outcome i ''cancelled'' (delete_secrets (revocable i) s)"
  have frame: "outbox_events ?s1 = outbox_events s"
    by (simp add: delete_secrets_def)
  from assms have c: "sql_count (revocable i) (secrets s) = 1"
    by (auto simp: cancelTx_def split: if_splits)
  show thesis
  proof (cases "s_storage_backend r = StorageS3")
    case False
    then have "s' = ?s1"
      using assms by (auto simp: cancelTx_def dest!: recordManagementOutcomeTx_ok split: if_splits prod.splits sum.splits)
    with False c frame show thesis by (intro that [of "[]"]) (auto simp: with_outcome_def)
  next
    case True
    then obtain jobID row where q: "hasOutbox st" "NewJobID e ''cancellation job'' = Some jobID"
      "enqueue_event (outboxSubject st) (clock e 3) (fails e)
         \<lparr>JobID = jobID, JobKind = KindDeleteOCIObject, SecretID = [],
          ObjectKey = s_storage_key r, Reason = ReasonManual, RequestedAt = clock e 2\<rparr> ?s1 = (Inr row, s')"
      using assms by (auto simp: cancelTx_def dest!: recordManagementOutcomeTx_ok
          split: if_splits prod.splits sum.splits option.splits)
    from enqueue_event_Inr [OF q(3)] frame True c q(1,2) show thesis
      by (intro that [of "[row]"]) auto
  qed
qed

lemma Revoke_cases:
  assumes "Revoke st e i token s = ((err, status), s')"
  obtains (unchanged) "s' = s"
      "err = None \<Longrightarrow> ms_Status status = ''cancelled'' \<and> management st (fails e) (clock e 0) i token s = Inr status"
  | (cancelled) r status0 status1 s1 where "err = None" "secret_of s i = Some r"
      "management st (fails e) (clock e 0) i token s = Inr status0" "ms_CanCancel status0"
      "management st (fails e) (clock e 1) i token s = Inr status1" "ms_CanCancel status1"
      "status = status1\<lparr>ms_Status := ''cancelled'', ms_CanCancel := False\<rparr>"
      "cancelTx st e i r s = Inr s1"
      "s' = (if ms_Status status1 = statePendingUpload then s1\<lparr>ActiveUploads := ActiveUploads s1 - 1\<rparr> else s1)"
  using assms unfolding Revoke_def Let_def
  by (auto split: option.splits if_splits sum.splits)

lemma management_Inr:
  assumes "management st io now i token s = Inr status" "secrets_ok s"
  obtains m where "mgmt_of s i = Some m" "management_digest token = Some (m_token_hash m)" "now < m_expires_at m"
    "ms_ID status = i" "ms_ExpiresAt status = m_expires_at m"
    "ms_CanCancel status \<longleftrightarrow> ms_Status status \<in> {stateActive, statePendingUpload}"
    "m_outcome m = None \<Longrightarrow> \<exists>r. secret_of s i = Some r \<and>
       ms_Status status = (if s_state r = statePendingUpload \<and> \<not> now < s_created_at r + pendingTTL st
                           then ''unavailable'' else s_state r)"
    "\<And>oc. m_outcome m = Some oc \<Longrightarrow> ms_Status status = oc \<and> \<not> ms_CanCancel status"
proof -
  from assms(1) obtain m where m: "mgmt_of s i = Some m" "management_digest token = Some (m_token_hash m)"
    "now < m_expires_at m"
    by (auto simp: management_def Let_def split: option.splits if_splits)
  have "mgmt_check m"
    using assms(2) m(1) by (auto simp: secrets_ok_def secret_tables_ok_def intro: table_ok_row)
  have "management st io now i token s = (let answer = (\<lambda>status. Inr \<lparr>ms_ID = i, ms_Status = status,
        ms_ExpiresAt = m_expires_at m, ms_CanCancel = (status = stateActive \<or> status = statePendingUpload)\<rparr>) in
      case m_outcome m of Some outcome \<Rightarrow> answer outcome
      | None \<Rightarrow> (case secret_of s i of None \<Rightarrow> Inl (ErrSecret ''management outcome missing'')
         | Some r \<Rightarrow> if s_state r = statePendingUpload \<and> \<not> now < s_created_at r + pendingTTL st
             then answer ''unavailable'' else answer (s_state r)))"
    using assms(1) m by (simp add: management_def split: if_splits)
  note eq = this [unfolded assms(1) Let_def]
  show thesis
  proof (cases "m_outcome m")
    case None
    with eq obtain r where "secret_of s i = Some r"
      by (cases "secret_of s i") auto
    with None eq m show thesis
      by (intro that [of m]) (auto split: if_splits)
  next
    case (Some oc)
    then have "oc \<noteq> stateActive" "oc \<noteq> statePendingUpload"
      using \<open>mgmt_check m\<close> by (auto simp: mgmt_check_def row_constants)
    with Some eq m show thesis
      by (intro that [of m]) auto
  qed
qed

lemma management_cancellable:
  assumes "management st io now i token s = Inr status" "secrets_ok s" "ms_CanCancel status"
  obtains m r where "mgmt_of s i = Some m" "m_outcome m = None" "secret_of s i = Some r"
    "ms_Status status = s_state r" "management_digest token = Some (m_token_hash m)" "now < m_expires_at m"
proof (rule management_Inr [OF assms(1,2)])
  fix m assume m: "mgmt_of s i = Some m" "management_digest token = Some (m_token_hash m)" "now < m_expires_at m"
    and can: "ms_CanCancel status \<longleftrightarrow> ms_Status status \<in> {stateActive, statePendingUpload}"
    and none: "m_outcome m = None \<Longrightarrow> \<exists>r. secret_of s i = Some r \<and>
       ms_Status status = (if s_state r = statePendingUpload \<and> \<not> now < s_created_at r + pendingTTL st
                           then ''unavailable'' else s_state r)"
    and some: "\<And>oc. m_outcome m = Some oc \<Longrightarrow> ms_Status status = oc \<and> \<not> ms_CanCancel status"
  have "m_outcome m = None"
    using some assms(3) by (cases "m_outcome m") auto
  moreover from none [OF this] obtain r where "secret_of s i = Some r" "ms_Status status = s_state r"
    using can assms(3) by (auto simp: row_constants split: if_splits)
  ultimately show thesis
    using m that by blast
qed

lemma secrets_ok_Revoke: "secrets_ok s \<Longrightarrow> secrets_ok (snd (Revoke st e i token s))"
proof (cases "Revoke st e i token s")
  case (Pair x s')
  obtain err status where x: "x = (err, status)" by fastforce
  assume ok: "secrets_ok s"
  from Pair [unfolded x] show ?thesis
  proof (cases rule: Revoke_cases)
    case (cancelled r status0 status1 s1)
    from cancelled(8) obtain out where c: "sql_count (revocable i) (secrets s) = 1"
      "s1 = (with_outcome i ''cancelled'' (delete_secrets (revocable i) s))\<lparr>outbox_events := outbox_events s @ out\<rparr>"
      by (rule cancelTx_Inr)
    have st: "ms_Status status1 = s_state r"
      by (rule management_cancellable [OF cancelled(5) ok cancelled(6)]) (use cancelled(2) in auto)
    have one: "\<forall>y\<in>set (secrets s). s_id y = i \<longrightarrow> y = r"
      using cancelled(2) secrets_ok_distinct [OF ok] by (auto simp: sql_row_iff distinct_map inj_on_def)
    have "sql_count (\<lambda>y. revocable i y \<and> pending_row_state y) (secrets s) =
        (if pending_row_state r then sql_count (revocable i) (secrets s) else sql_count (\<lambda>y. False) (secrets s))"
      using one by (auto simp: revocable_def intro!: sql_count_cong)
    then have cnt: "int (sql_count (\<lambda>y. revocable i y \<and> pending_row_state y) (secrets s)) =
        (if pending_row_state r then 1 else 0)"
      using c(1) by (simp add: sql_count_def)
    let ?d = "with_outcome i ''cancelled'' ((delete_secrets (revocable i) s)
      \<lparr>ActiveUploads := ActiveUploads s - (if pending_row_state r then 1 else 0)\<rparr>)"
    have "secrets_ok ?d"
      using secrets_ok_delete [OF ok, of "revocable i"] cnt by (intro secrets_ok_outcome) auto
    moreover have "s' = ?d\<lparr>outbox_events := outbox_events s @ out\<rparr>"
      using cancelled(9) c(2) st by (auto simp: with_outcome_def delete_secrets_def)
    ultimately show ?thesis using Pair by simp
  qed (use Pair x ok in auto)
qed

end
