(* ===== verification/Secret_Delivery.thy ===== *)
theory Secret_Delivery
  imports Secret_Store
begin

text \<open>
  What the secret store promises its users: what a successful open releases and leaves behind, what a
  refused one costs, that a created secret can be opened with its body intact, that the management
  token works, that a cancelled delivery is gone, and that an upload is activated only when it was
  checked in time.
\<close>

lemma secret_of_live_update:
  assumes "\<And>r. s_id (f r) = s_id r" "secret_of s i = Some r" "s_consumed_at r = None"
  shows "secret_of (update_secrets (live_row i) f s) i = Some (f r)"
  using assms sql_row_Some [OF assms(2)] by (simp add: sql_row_update [where key = s_id])

lemma secret_of_live_update_other:
  assumes "\<And>r. s_id (f r) = s_id r" "j \<noteq> i"
  shows "secret_of (update_secrets (live_row i) f s) j = secret_of s j"
  using assms by (cases "secret_of s j") (auto simp: sql_row_update [where key = s_id] dest: sql_row_Some)

lemma mgmt_of_outcome:
  "mgmt_of (with_outcome i oc s) j =
     map_option (\<lambda>m. if j = i \<and> m_outcome m = None then m\<lparr>m_outcome := Some oc\<rparr> else m) (mgmt_of s j)"
  unfolding with_outcome_def
  by (cases "mgmt_of s j") (auto simp: sql_row_update [where key = m_secret_id] dest: sql_row_Some)

text \<open>
  C4: A successful open releases the secret under its conditions and settles it in the same
  transaction. The row was active, never opened and unexpired both when read and when marked; the
  presented proof hash is the stored one when the secret has one; the body is the stored ciphertext, or
  an object of exactly the declared length. Afterwards the row is consumed with one view, the sender's
  record says opened unless it was already settled, exactly one cleanup job for this secret is added to
  the outbox, and every other secret is untouched.
\<close>

theorem open_success:
  assumes "secrets_ok s" "openAndEnqueueCleanup st svc e i proofHash s = (Inr sec, s')"
  shows "\<exists>r. secret_of s i = Some r \<and> s_state r = stateActive \<and> s_consumed_at r = None \<and>
    clock e 0 < s_expires_at r \<and> clock e 1 < s_expires_at r \<and>
    s_access_proof_hash r \<in> {None, Some proofHash} \<and>
    (if s_storage_backend r = StorageS3
     then \<exists>body. s3_get svc (s_storage_key r) = Some (body, Some (s_size_bytes r)) \<and> Body sec = Some body
     else Body sec = None \<and> Ciphertext sec = (case payload_of s i of None \<Rightarrow> [] | Some p \<Rightarrow> p_ciphertext p)) \<and>
    secret_of s' i = Some (opened_row (clock e 1) r) \<and> s_view_count (opened_row (clock e 1) r) = 1 \<and>
    mgmt_of s' i = map_option (\<lambda>m. if m_outcome m = None then m\<lparr>m_outcome := Some ''opened''\<rparr> else m) (mgmt_of s i) \<and>
    (\<exists>row jobID. outbox_events s' = outbox_events s @ [row] \<and> o_state row = StatePending \<and>
       o_payload row = consumed_job jobID i (clock e 2)) \<and>
    (\<forall>j. j \<noteq> i \<longrightarrow> secret_of s' j = secret_of s j)"
proof -
  from assms(2) obtain jobID row s1 where o: "OpenTx st svc e i proofHash s = (Inr sec, s1)"
    "enqueue_event (outboxSubject st) (clock e 3) (fails e) (consumed_job jobID i (clock e 2)) s1 = (Inr row, s')"
    by (rule openAndEnqueueCleanup_Inr)
  from o(1) secrets_ok_distinct [OF assms(1)] obtain r where r: "secret_of s i = Some r"
    "s_state r = stateActive" "s_consumed_at r = None" "clock e 0 < s_expires_at r" "clock e 1 < s_expires_at r"
    "s_access_proof_hash r \<in> {None, Some [], Some proofHash}"
    "if s_storage_backend r = StorageS3
     then \<exists>body. s3_get svc (s_storage_key r) = Some (body, Some (s_size_bytes r)) \<and> Body sec = Some body
     else Body sec = None \<and> Ciphertext sec = (case payload_of s i of None \<Rightarrow> [] | Some p \<Rightarrow> p_ciphertext p)"
    "s1 = with_outcome i ''opened'' (update_secrets (live_row i) (opened_row (clock e 1)) s)"
    by (rule OpenTx_Inr)
  note q = enqueue_event_Inr [OF o(2)]
  have ok: "secret_row_ok r"
    using assms(1) r(1) by (rule secrets_ok_row)
  have "secret_of s' i = Some (opened_row (clock e 1) r)" "\<forall>j. j \<noteq> i \<longrightarrow> secret_of s' j = secret_of s j"
    using q r(1,3,8) secret_of_live_update [of "opened_row (clock e 1)" i s r]
      secret_of_live_update_other [where f = "opened_row (clock e 1)" and i = i and s = s] by auto
  moreover have "mgmt_of s' i = map_option (\<lambda>m. if m_outcome m = None then m\<lparr>m_outcome := Some ''opened''\<rparr> else m) (mgmt_of s i)"
    using q r(8) by (simp add: mgmt_of_outcome)
  moreover have "s_access_proof_hash r \<noteq> Some []" "s_view_count (opened_row (clock e 1) r) = 1"
    using ok r(3) by (auto simp: secret_row_ok_def opened_row_def)
  ultimately show ?thesis
    using q r by (intro exI [of _ r]) auto
qed

text \<open>
  C5: A refused proof is counted, and the fifth one locks the delivery. The refusal only happens to a
  live, unexpired secret with a proof hash that differs from the presented one. Below the fifth it
  raises the count by one and leaves the secret open; at the fifth the row is consumed, the sender's
  record says locked, and the body is gone: an inline payload is deleted in the same transaction, an
  object gets a pending delete job. Every other error leaves the database as it was.
\<close>

theorem open_failure:
  assumes "secrets_ok s" "openAndEnqueueCleanup st svc e i proofHash s = (Inl err, s')"
  shows "if err \<noteq> ErrInvalidAccess then s' = s else
    \<exists>r h. secret_of s i = Some r \<and> s_consumed_at r = None \<and> clock e 0 < s_expires_at r \<and>
      s_access_proof_hash r = Some h \<and> h \<noteq> proofHash \<and>
      secret_of s' i = Some (refused_row (clock e 0) r) \<and>
      (\<forall>j. j \<noteq> i \<longrightarrow> secret_of s' j = secret_of s j) \<and>
      (if s_failed_access_count r + 1 < maxFailedAccessAttempts
       then s_consumed_at (refused_row (clock e 0) r) = None \<and> secret_payloads s' = secret_payloads s \<and>
            secret_management s' = secret_management s \<and> outbox_events s' = outbox_events s
       else s_consumed_at (refused_row (clock e 0) r) = Some (clock e 0) \<and>
            mgmt_of s' i = map_option (\<lambda>m. if m_outcome m = None then m\<lparr>m_outcome := Some ''locked''\<rparr> else m) (mgmt_of s i) \<and>
            (if s_storage_backend r = StorageS3
             then \<exists>row jobID. outbox_events s' = outbox_events s @ [row] \<and> o_state row = StatePending \<and>
                    o_payload row = locked_job jobID (s_storage_key r) (clock e 0)
             else payload_of s' i = None \<and> outbox_events s' = outbox_events s))"
  using assms(2)
proof (cases rule: openAndEnqueueCleanup_Inl)
  case rolled_back
  then show ?thesis by simp
next
  case refused
  from refused(3) secrets_ok_distinct [OF assms(1)] obtain r h u where r: "secret_of s i = Some r"
    "s_consumed_at r = None" "clock e 0 < s_expires_at r" "s_access_proof_hash r = Some h" "h \<noteq> proofHash"
    and f: "recordFailedAccessTx st e i (s_storage_backend r) (s_storage_key r) (clock e 0) s = (Inr u, s')"
    by (rule OpenTx_refused)
  let ?s1 = "refused i (clock e 0) s"
  have rows: "secret_of ?s1 i = Some (refused_row (clock e 0) r)" "\<And>j. j \<noteq> i \<Longrightarrow> secret_of ?s1 j = secret_of s j"
    using refused_row_of [OF r(1,2)] secret_of_live_update_other [where f = "refused_row (clock e 0)" and i = i and s = s]
    by (auto simp: refused_def)
  have cons: "s_consumed_at (refused_row (clock e 0) r) =
      (if s_failed_access_count r + 1 < maxFailedAccessAttempts then None else Some (clock e 0))"
    using r(2) by (simp add: refused_row_def)
  have frame: "outbox_events ?s1 = outbox_events s" "secret_management ?s1 = secret_management s"
    "secret_payloads ?s1 = secret_payloads s"
    by (simp_all add: refused_def)
  have mg: "mgmt_of (with_outcome i ''locked'' ?s1) i =
      map_option (\<lambda>m. if m_outcome m = None then m\<lparr>m_outcome := Some ''locked''\<rparr> else m) (mgmt_of s i)"
    by (simp add: mgmt_of_outcome frame)
  have gone: "sql_row (\<lambda>p. p_secret_id p = i) (sql_delete (\<lambda>q. p_secret_id q = i) (secret_payloads s)) = None"
    by (auto simp: sql_row_None)
  from f r(1,2) show ?thesis
  proof (cases rule: recordFailedAccessTx_Inr)
    case counted
    then show ?thesis using refused(2) r rows cons frame by auto
  next
    case purged
    then show ?thesis using refused(2) r rows cons frame mg gone by auto
  next
    case (queued jobID row)
    then show ?thesis
      using refused(2) r rows cons frame mg enqueue_event_Inr [OF queued(6)] by auto
  next
    case detached
    then show ?thesis using refused(1) by simp
  qed
qed
subsection \<open>From creation to opening\<close>

text \<open>An open without faults of a live inline row succeeds.\<close>

lemma open_inline_succeeds:
  assumes "secrets_ok s" "secret_of s i = Some r" "s_state r = stateActive" "s_consumed_at r = None"
    and "s_storage_backend r \<noteq> StorageS3" "payload_of s i = Some p" "p_ciphertext p \<noteq> []"
    and "s_access_proof_hash r \<in> {None, Some proofHash}"
    and "clock e 0 < s_expires_at r" "clock e 1 < s_expires_at r" "clock e 2 \<noteq> 0"
    and "fails e = no_faults" "hasOutbox st" "NewJobID e ''open job'' = Some jobID"
    and "jobID \<notin> o_id ` set (outbox_events s)" "trimSpace jobID \<noteq> []" "trimSpace i \<noteq> []" "i \<noteq> []"
  shows "\<exists>sec s'. openAndEnqueueCleanup st svc e i proofHash s = (Inr sec, s') \<and>
    sec = \<lparr>ManagementToken = [], ID = i, Kind = s_kind r, StorageBackend = s_storage_backend r,
       StorageKey = s_storage_key r, Ciphertext = p_ciphertext p, Body = None,
       AccessKDF = (case s_access_kdf r of None \<Rightarrow> zero_kdf | Some k \<Rightarrow> k),
       WrappedIdentity = s_wrapped_identity r, EncryptedFilename = s_encrypted_filename r,
       ContentType = s_content_type r, SizeBytes = s_size_bytes r, ExpiresAt = s_expires_at r,
       accessProofHash = (case s_access_proof_hash r of None \<Rightarrow> [] | Some h \<Rightarrow> h)\<rparr>"
proof -
  have d: "distinct (map s_id (secrets s))"
    using assms(1) by (rule secrets_ok_distinct)
  have id: "s_id r = i"
    using assms(2) by (auto dest: sql_row_Some)
  have chk: "secret_check r"
    using secrets_ok_row [OF assms(1,2)] by (simp add: secret_row_ok_def)
  have c1: "sql_count (live_row i) (secrets s) = 1"
    using assms(2,4) by (simp add: sql_count_key [OF d])
  let ?sec = "\<lparr>ManagementToken = [], ID = i, Kind = s_kind r, StorageBackend = s_storage_backend r,
       StorageKey = s_storage_key r, Ciphertext = p_ciphertext p, Body = None,
       AccessKDF = (case s_access_kdf r of None \<Rightarrow> zero_kdf | Some k \<Rightarrow> k),
       WrappedIdentity = s_wrapped_identity r, EncryptedFilename = s_encrypted_filename r,
       ContentType = s_content_type r, SizeBytes = s_size_bytes r, ExpiresAt = s_expires_at r,
       accessProofHash = (case s_access_proof_hash r of None \<Rightarrow> [] | Some h \<Rightarrow> h)\<rparr>"
  have load: "load no_faults i s = Inr (?sec, None)"
    using assms(2-8,18) chk id by (auto simp: load_def sql_row_conj [OF d] Let_def secret_check_def)
  have body: "openBody st svc ?sec = Inr ?sec"
    using assms(5) by (simp add: openBody_def)
  let ?s1 = "with_outcome i ''opened'' (update_secrets (live_row i) (opened_row (clock e 1)) s)"
  have proof_ok: "\<not> (accessProofHash ?sec \<noteq> [] \<and> accessProofHash ?sec \<noteq> proofHash)"
    using assms(8) by auto
  have "OpenTx st svc e i proofHash s = (Inr ?sec, ?s1)"
    unfolding OpenTx_def Let_def assms(12) load sum.case prod.case if_not_P [OF proof_ok] body
    using assms(9,10) c1
    by (simp add: recordManagementOutcomeTx_def assms(12) with_outcome_def opened_row_def [abs_def])
  moreover have "\<exists>row s'. enqueue_event (outboxSubject st) (clock e 3) no_faults (consumed_job jobID i (clock e 2)) ?s1 = (Inr row, s')"
    using assms(11,15-17)
    by (simp add: enqueue_event_def EnqueueTx_def JobEvent_JSON_def Validate_def consumed_job_def Let_def
        sql_insert_def validReason_def)
  ultimately show ?thesis
    using assms(12-14) by (auto simp: openAndEnqueueCleanup_def)
qed

lemma create_then_open:
  assumes "secrets_ok s" "Create st e input s = (Inr sec, s1)" "hasOutbox st"
    and "draw e ''secret id'' \<noteq> Some []"
    and "fails e2 = no_faults" "draw e2 ''open job'' = Some (b # bs)"
    and "rawurl_encode (b # bs) \<notin> o_id ` set (outbox_events s)"
    and "clock e2 0 < ExpiresAt sec" "clock e2 1 < ExpiresAt sec" "clock e2 2 \<noteq> 0"
    and "ci_AccessProofHash input \<in> {[], proofHash}"
  shows "\<exists>sec2 s2. openAndEnqueueCleanup st svc e2 (ID sec) proofHash s1 = (Inr sec2, s2) \<and>
    Ciphertext sec2 = ci_Ciphertext input \<and> Body sec2 = None \<and> Kind sec2 = ci_Kind input \<and>
    WrappedIdentity sec2 = ci_WrappedIdentity input \<and> EncryptedFilename sec2 = ci_EncryptedFilename input \<and>
    ContentType sec2 = ci_ContentType input \<and> SizeBytes sec2 = int (length (ci_Ciphertext input)) \<and>
    ExpiresAt sec2 = ExpiresAt sec \<and>
    AccessKDF sec2 = (if ci_AccessProofHash input = [] then zero_kdf else ci_AccessKDF input)"
proof -
  from assms(2) obtain i raw inp now x where a: "inp = one_view input" "generateID e = Some i"
    "validateCreate st inp = None" "i \<notin> s_id ` set (secrets s)" "i \<notin> p_secret_id ` set (secret_payloads s)"
    "s1 = s\<lparr>secrets := secrets s @ [inline_row i inp now x],
       secret_payloads := secret_payloads s @
         [\<lparr>p_secret_id = i, p_ciphertext = ci_Ciphertext inp, p_created_at = now\<rparr>],
       secret_management := secret_management s @
         [\<lparr>m_secret_id = i, m_token_hash = sha256 raw, m_expires_at = x, m_outcome = None\<rparr>]\<rparr>"
    "ID sec = i" "ExpiresAt sec = x"
    by (rule Create_Inr)
  have ok1: "secrets_ok s1"
    using secrets_ok_Create [OF assms(1), of st e input] assms(2) by simp
  have inp: "ci_Ciphertext inp = ci_Ciphertext input" "ci_Kind inp = ci_Kind input"
    "ci_AccessProofHash inp = ci_AccessProofHash input" "ci_AccessKDF inp = ci_AccessKDF input"
    "ci_WrappedIdentity inp = ci_WrappedIdentity input" "ci_EncryptedFilename inp = ci_EncryptedFilename input"
    "ci_ContentType inp = ci_ContentType input" "ci_SizeBytes inp = ci_SizeBytes input"
    by (simp_all add: a(1) one_view_def)
  have v: "int (length (ci_Ciphertext input)) = ci_SizeBytes input" "ci_Ciphertext input \<noteq> []"
    using validateCreate_accepted [OF a(3)] inp by (auto simp: isAgeFile_def hasPrefix_def ageMagic_def)
  have ne: "i \<noteq> []" "trimSpace i \<noteq> []"
    using a(2) assms(4) by (auto simp: generateID_def)
  have rows: "secret_of s1 i = Some (inline_row i inp now x)"
    "payload_of s1 i = Some \<lparr>p_secret_id = i, p_ciphertext = ci_Ciphertext inp, p_created_at = now\<rparr>"
  proof -
    have "secret_of s i = None" "payload_of s i = None"
      using a(4,5) by (auto simp: sql_row_None image_iff)
    then show "secret_of s1 i = Some (inline_row i inp now x)"
      "payload_of s1 i = Some \<lparr>p_secret_id = i, p_ciphertext = ci_Ciphertext inp, p_created_at = now\<rparr>"
      using a(6) by (auto simp: sql_row_append inline_row_def split: prod.split)
  qed
  note row = inline_row_def modelAColumns_def inp
  let ?r = "inline_row i inp now x" and ?j = "rawurl_encode (b # bs)"
  have pre: "s_state ?r = stateActive" "s_consumed_at ?r = None" "s_storage_backend ?r \<noteq> StorageS3"
    "p_ciphertext \<lparr>p_secret_id = i, p_ciphertext = ci_Ciphertext inp, p_created_at = now\<rparr> \<noteq> []"
    "s_access_proof_hash ?r \<in> {None, Some proofHash}"
    "clock e2 0 < s_expires_at ?r" "clock e2 1 < s_expires_at ?r"
    "NewJobID e2 ''open job'' = Some ?j" "?j \<notin> o_id ` set (outbox_events s1)" "trimSpace ?j \<noteq> []"
    using a(6-8) assms(5-11) v by (auto simp: row NewJobID_def)
  from open_inline_succeeds [OF ok1 rows(1) pre(1-3) rows(2) pre(4-7) assms(10,5,3) pre(8-10) ne(2,1), of svc]
  obtain sec2 s2 where "openAndEnqueueCleanup st svc e2 i proofHash s1 = (Inr sec2, s2)"
    "Kind sec2 = s_kind ?r" "Ciphertext sec2 = ci_Ciphertext inp" "Body sec2 = None"
    "AccessKDF sec2 = (case s_access_kdf ?r of None \<Rightarrow> zero_kdf | Some k \<Rightarrow> k)"
    "WrappedIdentity sec2 = s_wrapped_identity ?r" "EncryptedFilename sec2 = s_encrypted_filename ?r"
    "ContentType sec2 = s_content_type ?r" "SizeBytes sec2 = s_size_bytes ?r" "ExpiresAt sec2 = s_expires_at ?r"
    by auto
  then show ?thesis
    using a(7,8) v by (auto simp: row)
qed

text \<open>
  C28: A created secret can be opened with everything it was created with. Whoever presents the proof
  (or needs none) before the expiry gets back the very ciphertext, kind, wrapped identity, filename,
  media type and length that were stored, provided the database and the outbox accept the statements.
\<close>

theorem create_open_roundtrip:
  assumes "secrets_ok s" "Create st e input s = (Inr sec, s1)" "hasOutbox st"
    and "draw e ''secret id'' \<noteq> Some []"
    and "fails e2 = no_faults" "draw e2 ''open job'' = Some (b # bs)"
    and "rawurl_encode (b # bs) \<notin> o_id ` set (outbox_events s)"
    and "clock e2 0 < ExpiresAt sec" "clock e2 1 < ExpiresAt sec" "clock e2 2 \<noteq> 0"
    and "ci_AccessProofHash input \<in> {[], proofHash}"
  shows "\<exists>sec2 s2. openAndEnqueueCleanup st svc e2 (ID sec) proofHash s1 = (Inr sec2, s2) \<and>
    Ciphertext sec2 = ci_Ciphertext input \<and> Body sec2 = None \<and> Kind sec2 = ci_Kind input \<and>
    WrappedIdentity sec2 = ci_WrappedIdentity input \<and> EncryptedFilename sec2 = ci_EncryptedFilename input \<and>
    ContentType sec2 = ci_ContentType input \<and> SizeBytes sec2 = int (length (ci_Ciphertext input)) \<and>
    ExpiresAt sec2 = ExpiresAt sec \<and>
    AccessKDF sec2 = (if ci_AccessProofHash input = [] then zero_kdf else ci_AccessKDF input)"
  using assms by (rule create_then_open)

subsection \<open>A concrete delivery\<close>

text \<open>Instances on which the theorems above are applied.\<close>

definition example_store :: store where
  "example_store = \<lparr>payloadInlineMaxBytes = 65536, maxObjectBytes = 1000000, presignTTL = 5 * Minute,
     pendingTTL = 15 * Minute, minTTL = 60, maxTTL = 86400, hasObjects = True, hasOutbox = True,
     outboxSubject = ''jobs'',
     engine = \<lparr>julianday = (\<lambda>t. t div 1000000), datetime = (\<lambda>t. date_time_text (whole_seconds t))\<rparr>\<rparr>"

definition example_env :: "time \<Rightarrow> env" where
  "example_env t = \<lparr>fails = no_faults, clock = (\<lambda>_. t),
     draw = (\<lambda>l. Some (take (if l = ''management capability'' then 32 else 18) (l @ replicate 32 CHR ''x'')))\<rparr>"

definition example_s3 :: s3 where
  "example_s3 = \<lparr>s3_presign = (\<lambda>k n d. Some (''https://bucket/'' @ k, ''PUT'')), s3_head = (\<lambda>k. HeadObject 100),
     s3_get = (\<lambda>k. Some (replicate 100 CHR ''x'', Some 100)), s3_put = (\<lambda>k b. True),
     s3_delete = (\<lambda>k. DeleteOk), s3_list = (\<lambda>p c n. ListObjects [] False [])\<rparr>"

definition example_input :: create_input where
  "example_input = \<lparr>ci_Kind = KindText, ci_Ciphertext = ageMagic,
     ci_AccessKDF = \<lparr>Algorithm = KDFPBKDF2SHA256, Salt = ''salt'', Iterations = 600000, KeyLengthBits = 256\<rparr>,
     ci_AccessProofHash = ''hash'', ci_WrappedIdentity = Some (std_encode ageMagic),
     ci_EncryptedFilename = None, ci_ContentType = None, ci_SizeBytes = 22, ci_TTLSeconds = 3600,
     ci_MaxViews = 0\<rparr>"

lemma example_wrapped: "decodeAgeField (std_encode ageMagic) 1024 = Some ageMagic"
proof -
  have "length (std_encode ageMagic) = 32"
    by (simp add: std_encode_def ageMagic_def)
  then show ?thesis
    unfolding decodeAgeField_def std_decode_def std_decode_encode
    by (simp add: std_decodedLen_def ageMagic_def hasPrefix_def)
qed

lemma example_valid: "validateCreate example_store (one_view example_input) = None"
  using example_wrapped
  by (simp add: validateCreate_def validateCommon_def example_store_def example_input_def one_view_def
    KDFPBKDF2SHA256_def maxWrappedIdentityBytes_def hasPrefix_def) (simp add: ageMagic_def row_constants)

definition example_id :: string where
  "example_id = rawurl_encode (take 18 (''secret id'' @ replicate 32 CHR ''x''))"

definition example_expiry :: time where "example_expiry = 3600000000001"

definition example_state :: api where
  "example_state = snd (Create example_store (example_env 1) example_input MigrateAPI)"

lemma example_Create:
  "\<exists>sec. Create example_store (example_env 1) example_input MigrateAPI = (Inr sec, example_state) \<and>
     ID sec = example_id \<and> ExpiresAt sec = example_expiry \<and> outbox_events example_state = []"
  using example_valid unfolding Create_def one_view_def [symmetric] example_state_def
  by (simp add: generateID_def example_env_def exec_def insert_secret_def MigrateAPI_def
      insert_payload_def createManagementTx_def insert_management_def sql_insert_def mgmt_check_def Let_def
      sql_row_def inline_row_def modelAColumns_def secret_check_def example_input_def one_view_def
      wrap64_def Second_def example_id_def example_expiry_def)

lemma example_state_ok: "secrets_ok example_state"
  unfolding example_state_def by (intro secrets_ok_Create secrets_ok_MigrateAPI)

lemma example_rows:
  "secret_of example_state example_id = Some (inline_row example_id (one_view example_input) 1 example_expiry)"
  "payload_of example_state example_id =
     Some \<lparr>p_secret_id = example_id, p_ciphertext = ageMagic, p_created_at = 1\<rparr>"
proof -
  obtain sec where c: "Create example_store (example_env 1) example_input MigrateAPI = (Inr sec, example_state)"
    "ID sec = example_id" "ExpiresAt sec = example_expiry"
    using example_Create by blast
  from c(1) obtain i inp now x raw where e: "inp = one_view example_input" "now = clock (example_env 1) 0"
    and st: "example_state = MigrateAPI\<lparr>secrets := secrets MigrateAPI @ [inline_row i inp now x],
       secret_payloads := secret_payloads MigrateAPI @
         [\<lparr>p_secret_id = i, p_ciphertext = ci_Ciphertext inp, p_created_at = now\<rparr>],
       secret_management := secret_management MigrateAPI @
         [\<lparr>m_secret_id = i, m_token_hash = sha256 raw, m_expires_at = x, m_outcome = None\<rparr>]\<rparr>"
    and ix: "ID sec = i" "ExpiresAt sec = x"
    by (rule Create_Inr)
  have ix: "i = example_id" "x = example_expiry" "now = 1" "s_id (inline_row i inp now x) = i"
    using ix c(2,3) e by (simp_all add: example_env_def inline_row_def split: prod.split)
  show "secret_of example_state example_id = Some (inline_row example_id (one_view example_input) 1 example_expiry)"
    "payload_of example_state example_id = Some \<lparr>p_secret_id = example_id, p_ciphertext = ageMagic, p_created_at = 1\<rparr>"
    using ix e by (simp_all add: st MigrateAPI_def Let_def sql_row_def)
      (simp add: one_view_def example_input_def)
qed

lemma example_open:
  "\<exists>sec s'. openAndEnqueueCleanup example_store example_s3 (example_env 2) example_id ''hash'' example_state = (Inr sec, s')"
proof -
  obtain sec where c: "Create example_store (example_env 1) example_input MigrateAPI = (Inr sec, example_state)"
    "ID sec = example_id" "ExpiresAt sec = example_expiry"
    using example_Create by blast
  have "\<exists>b bs. draw (example_env 2) ''open job'' = Some (b # bs)"
    by (simp add: example_env_def)
  then obtain b bs where d: "draw (example_env 2) ''open job'' = Some (b # bs)" by blast
  show ?thesis
    using create_then_open [OF secrets_ok_MigrateAPI c(1), of "example_env 2" b bs "''hash''" example_s3] c(2,3) d
    by (auto simp: example_env_def example_store_def example_input_def MigrateAPI_def Let_def example_expiry_def)
qed

lemma example_refused:
  "openAndEnqueueCleanup example_store example_s3 (example_env 2) example_id ''wrong'' example_state =
     (Inl ErrInvalidAccess, refused example_id 2 example_state)"
proof -
  let ?r = "inline_row example_id (one_view example_input) 1 example_expiry"
  have d: "distinct (map s_id (secrets example_state))"
    using example_state_ok by (rule secrets_ok_distinct)
  have r: "s_state ?r = stateActive" "s_consumed_at ?r = None" "s_storage_backend ?r \<noteq> StorageS3"
    "s_access_kdf ?r \<noteq> None" "s_access_proof_hash ?r = Some ''hash''" "s_wrapped_identity ?r \<noteq> None"
    "s_expires_at ?r = example_expiry" "s_failed_access_count ?r = 0" "s_id ?r = example_id"
    by (simp_all add: inline_row_def modelAColumns_def one_view_def example_input_def)
  have ne: "example_id \<noteq> []"
    by (simp add: example_id_def)
  obtain sec where load: "load no_faults example_id example_state = Inr (sec, None)"
    "accessProofHash sec = ''hash''" "ExpiresAt sec = example_expiry"
    using r ne example_rows by (simp add: load_def sql_row_conj [OF d] Let_def ageMagic_def)
  have "sql_count (live_row example_id) (secrets example_state) = 1"
    using example_rows r by (simp add: sql_count_key [OF d])
  then have "recordFailedAccessTx example_store (example_env 2) example_id b k 2 example_state =
      (Inr (), refused example_id 2 example_state)" for b k
    using refused_row_of [OF example_rows(1) r(2), of 2] r
    by (simp add: recordFailedAccessTx_def Let_def example_env_def refused_def refused_row_def [abs_def]
        maxFailedAccessAttempts_def)
  then show ?thesis
    using load by (simp add: openAndEnqueueCleanup_def OpenTx_def example_store_def example_env_def NewJobID_def
        Let_def example_expiry_def)
qed

theorem open_success_witness:
  "\<exists>sec s' r. openAndEnqueueCleanup example_store example_s3 (example_env 2) example_id ''hash'' example_state = (Inr sec, s') \<and>
     secret_of s' example_id = Some (opened_row 2 r) \<and> s_view_count (opened_row 2 r) = 1 \<and> Ciphertext sec = ageMagic"
proof -
  obtain sec s' where o: "openAndEnqueueCleanup example_store example_s3 (example_env 2) example_id ''hash'' example_state = (Inr sec, s')"
    using example_open by blast
  have "clock (example_env 2) n = 2" for n by (simp add: example_env_def)
  moreover have "s_storage_backend (inline_row example_id (one_view example_input) 1 example_expiry) = StorageSQLite"
    by (simp add: inline_row_def split: prod.split)
  ultimately show ?thesis
    using open_success [OF example_state_ok o] o example_rows by auto
qed

theorem open_failure_witness:
  "\<exists>r. openAndEnqueueCleanup example_store example_s3 (example_env 2) example_id ''wrong'' example_state =
      (Inl ErrInvalidAccess, refused example_id 2 example_state) \<and>
     secret_of (refused example_id 2 example_state) example_id = Some (refused_row 2 r) \<and>
     s_failed_access_count (refused_row 2 r) = 1"
proof -
  have c: "clock (example_env 2) n = 2" for n by (simp add: example_env_def)
  have "s_failed_access_count (refused_row 2 (inline_row example_id (one_view example_input) 1 example_expiry)) = 1"
    by (simp add: refused_row_def inline_row_def split: prod.split)
  then show ?thesis
    using open_failure [OF example_state_ok example_refused] example_refused example_rows(1) c by auto
qed

theorem create_open_roundtrip_witness:
  "\<exists>sec sec2 s2. Create example_store (example_env 1) example_input MigrateAPI = (Inr sec, example_state) \<and>
     openAndEnqueueCleanup example_store example_s3 (example_env 2) (ID sec) ''hash'' example_state = (Inr sec2, s2) \<and>
     Ciphertext sec2 = ageMagic"
proof -
  obtain sec where c: "Create example_store (example_env 1) example_input MigrateAPI = (Inr sec, example_state)"
    "ID sec = example_id" "ExpiresAt sec = example_expiry"
    using example_Create by blast
  have "\<exists>b bs. draw (example_env 2) ''open job'' = Some (b # bs)"
    by (simp add: example_env_def)
  then obtain b bs where d: "draw (example_env 2) ''open job'' = Some (b # bs)" by blast
  show ?thesis
    using create_open_roundtrip [OF secrets_ok_MigrateAPI c(1), of "example_env 2" b bs "''hash''" example_s3] c d
    by (auto simp: example_env_def example_store_def example_input_def MigrateAPI_def Let_def example_expiry_def)
qed

subsection \<open>The sender's capability\<close>

lemma management_digest_token: "length raw = 32 \<Longrightarrow> management_digest (rawurl_encode raw) = Some (sha256 raw)"
  by (simp add: management_digest_def length_rawurl_encode rawurl_decode_encode)

lemma management_after_create:
  assumes "secrets_ok s" "Create st e input s = (Inr sec, s1)"
    and "draw e ''management capability'' = Some raw" "length raw = 32"
  shows "management_digest (ManagementToken sec) = Some (sha256 raw) \<and>
    management st no_faults now (ID sec) token s1 =
      (if management_digest token = Some (sha256 raw) \<and> now < ExpiresAt sec
       then Inr \<lparr>ms_ID = ID sec, ms_Status = stateActive, ms_ExpiresAt = ExpiresAt sec, ms_CanCancel = True\<rparr>
       else Inl ErrManagementUnavailable)"
proof -
  from assms(2) obtain i raw' inp nw x where a: "draw e ''management capability'' = Some raw'"
    "i \<notin> s_id ` set (secrets s)" "i \<notin> m_secret_id ` set (secret_management s)"
    "s1 = s\<lparr>secrets := secrets s @ [inline_row i inp nw x],
       secret_payloads := secret_payloads s @
         [\<lparr>p_secret_id = i, p_ciphertext = ci_Ciphertext inp, p_created_at = nw\<rparr>],
       secret_management := secret_management s @
         [\<lparr>m_secret_id = i, m_token_hash = sha256 raw', m_expires_at = x, m_outcome = None\<rparr>]\<rparr>"
    "ID sec = i" "ManagementToken sec = rawurl_encode raw'" "ExpiresAt sec = x"
    by (rule Create_Inr)
  have tok: "management_digest (ManagementToken sec) = Some (sha256 raw)"
    using a(1,6) assms(3,4) by (simp add: management_digest_token)
  have none: "secret_of s i = None" "mgmt_of s i = None"
    using a(2,3) by (auto simp: sql_row_None image_iff)
  have row: "s_id (inline_row i inp nw x) = i" "s_state (inline_row i inp nw x) = stateActive"
    by (simp_all add: inline_row_def split: prod.split)
  have "secret_of s1 i = Some (inline_row i inp nw x)"
    "mgmt_of s1 i = Some \<lparr>m_secret_id = i, m_token_hash = sha256 raw, m_expires_at = x, m_outcome = None\<rparr>"
    using a(1,4) none row assms(3) by (simp_all add: sql_row_append)
  then show ?thesis
    using a(5,7) row tok by (auto simp: management_def Let_def split: option.split)
qed

text \<open>
  C29: The management token handed out by a create opens the sender's status, and nothing else does.
  Right after the create, a query before the expiry with the returned token answers that the delivery is
  active and can be cancelled; a token that is not the canonical text of 32 bytes with the recorded
  digest, or any token after the expiry, is answered as unavailable.
\<close>

theorem management_roundtrip:
  assumes "secrets_ok s" "Create st e input s = (Inr sec, s1)"
    and "draw e ''management capability'' = Some raw" "length raw = 32"
  shows "management_digest (ManagementToken sec) = Some (sha256 raw) \<and>
    management st no_faults now (ID sec) token s1 =
      (if management_digest token = Some (sha256 raw) \<and> now < ExpiresAt sec
       then Inr \<lparr>ms_ID = ID sec, ms_Status = stateActive, ms_ExpiresAt = ExpiresAt sec, ms_CanCancel = True\<rparr>
       else Inl ErrManagementUnavailable)"
  using assms by (rule management_after_create)

theorem management_roundtrip_witness:
  "\<exists>sec. Create example_store (example_env 1) example_input MigrateAPI = (Inr sec, example_state) \<and>
     management example_store no_faults 2 (ID sec) (ManagementToken sec) example_state =
       Inr \<lparr>ms_ID = example_id, ms_Status = stateActive, ms_ExpiresAt = example_expiry, ms_CanCancel = True\<rparr> \<and>
     management example_store no_faults 2 (ID sec) ''guess'' example_state = Inl ErrManagementUnavailable"
proof -
  obtain sec where c: "Create example_store (example_env 1) example_input MigrateAPI = (Inr sec, example_state)"
    "ID sec = example_id" "ExpiresAt sec = example_expiry"
    using example_Create by blast
  have "\<exists>raw. draw (example_env 1) ''management capability'' = Some raw \<and> length raw = 32"
    by (simp add: example_env_def)
  then obtain raw where raw: "draw (example_env 1) ''management capability'' = Some raw" "length raw = 32"
    by blast
  have "management_digest ''guess'' = None"
    by (simp add: management_digest_def)
  then show ?thesis
    using management_roundtrip [OF secrets_ok_MigrateAPI c(1) raw, where now = 2 and token = "ManagementToken sec"]
      management_roundtrip [OF secrets_ok_MigrateAPI c(1) raw, where now = 2 and token = "''guess''"] c
    by (intro exI [of _ sec]) (simp add: example_expiry_def)
qed

subsection \<open>Settled deliveries\<close>

text \<open>A delivery with a recorded outcome can no longer be opened: its row is consumed or gone, and gone if
  it was cancelled.\<close>

definition outcome_ok :: "api \<Rightarrow> bool" where
  "outcome_ok s \<longleftrightarrow> (\<forall>m\<in>set (secret_management s). \<forall>oc. m_outcome m = Some oc \<longrightarrow>
     (\<forall>r\<in>set (secrets s). s_id r = m_secret_id m \<longrightarrow> s_consumed_at r \<noteq> None \<and> oc \<noteq> ''cancelled''))"

lemma outcome_ok_MigrateAPI: "outcome_ok MigrateAPI"
  by (simp add: outcome_ok_def MigrateAPI_def Let_def)

lemma outcome_ok_frame [simp]:
  "outcome_ok (s\<lparr>outbox_events := a\<rparr>) = outcome_ok s"
  "outcome_ok (s\<lparr>secret_payloads := b\<rparr>) = outcome_ok s"
  "outcome_ok (s\<lparr>ActiveUploads := c\<rparr>) = outcome_ok s"
  by (simp_all add: outcome_ok_def)

lemma outcome_ok_insert:
  assumes "outcome_ok s" "i \<notin> m_secret_id ` set (secret_management s)" "s_id r = i" "m_outcome m = None"
  shows "outcome_ok (s\<lparr>secrets := secrets s @ [r], secret_payloads := ps, secret_management := secret_management s @ [m]\<rparr>)"
    and "outcome_ok (s\<lparr>secrets := secrets s @ [r], secret_management := secret_management s @ [m]\<rparr>)"
  using assms by (auto simp: outcome_ok_def)

lemma outcome_ok_update:
  assumes "outcome_ok s" "\<And>r. s_id (f r) = s_id r" "\<And>r. s_consumed_at r \<noteq> None \<Longrightarrow> s_consumed_at (f r) \<noteq> None"
  shows "outcome_ok (update_secrets p f s)"
  using assms by (auto simp: outcome_ok_def update_secrets_def set_update)

lemma outcome_ok_delete: "outcome_ok s \<Longrightarrow> outcome_ok (delete_secrets p s)"
  by (auto simp: outcome_ok_def delete_secrets_def)

lemma outcome_ok_outcome:
  assumes "outcome_ok s" "\<And>r. r \<in> set (secrets s) \<Longrightarrow> s_id r = i \<Longrightarrow> s_consumed_at r \<noteq> None \<and> oc \<noteq> ''cancelled''"
  shows "outcome_ok (with_outcome i oc s)"
  using assms by (auto simp: outcome_ok_def with_outcome_def set_update)

lemma outcome_ok_enqueue: "outcome_ok s \<Longrightarrow> enqueue_event subject now io ev s = (r, s') \<Longrightarrow> outcome_ok s'"
  by (auto simp: enqueue_event_def split: prod.splits)

lemma consumed_after_live_update:
  assumes "\<And>r. s_id (f r) = s_id r" "\<And>r. r \<in> set (secrets s) \<Longrightarrow> live_row i r \<Longrightarrow> s_consumed_at (f r) \<noteq> None"
    and "r \<in> set (secrets (update_secrets (live_row i) f s))" "s_id r = i"
  shows "s_consumed_at r \<noteq> None"
  using assms by (auto simp: set_update split: if_splits)

lemma outcome_ok_Create: "outcome_ok s \<Longrightarrow> outcome_ok (snd (Create st e input s))"
proof (cases "Create st e input s")
  case (Pair res s')
  assume ok: "outcome_ok s"
  show ?thesis
  proof (cases res)
    case (Inl err)
    with Pair ok show ?thesis by (auto dest: Create_Inl)
  next
    case (Inr sec)
    from Pair [unfolded Inr] obtain i raw inp now x where a: "i \<notin> m_secret_id ` set (secret_management s)"
      "s' = s\<lparr>secrets := secrets s @ [inline_row i inp now x],
         secret_payloads := secret_payloads s @
           [\<lparr>p_secret_id = i, p_ciphertext = ci_Ciphertext inp, p_created_at = now\<rparr>],
         secret_management := secret_management s @
           [\<lparr>m_secret_id = i, m_token_hash = sha256 raw, m_expires_at = x, m_outcome = None\<rparr>]\<rparr>"
      by (rule Create_Inr)
    have "s_id (inline_row i inp now x) = i"
      by (simp add: inline_row_def split: prod.split)
    with ok a Pair show ?thesis by (simp add: outcome_ok_insert(1))
  qed
qed

lemma outcome_ok_CreateLarge: "outcome_ok s \<Longrightarrow> outcome_ok (snd (CreateLarge st svc e input s))"
proof (cases "CreateLarge st svc e input s")
  case (Pair res s')
  assume ok: "outcome_ok s"
  show ?thesis
  proof (cases res)
    case (Inl err)
    with Pair ok show ?thesis by (auto dest: CreateLarge_Inl)
  next
    case (Inr sec)
    from Pair [unfolded Inr] obtain i raw inp now x where a: "i \<notin> m_secret_id ` set (secret_management s)"
      "s' = s\<lparr>secrets := secrets s @ [large_row i inp now x],
         secret_management := secret_management s @
           [\<lparr>m_secret_id = i, m_token_hash = sha256 raw, m_expires_at = x, m_outcome = None\<rparr>],
         ActiveUploads := ActiveUploads s + 1\<rparr>"
      by (rule CreateLarge_Inr)
    have "s_id (large_row i inp now x) = i"
      by (simp add: large_row_def split: prod.split)
    with ok a Pair show ?thesis by (simp add: outcome_ok_insert(2))
  qed
qed

lemma outcome_ok_Finalize: "outcome_ok s \<Longrightarrow> outcome_ok (snd (Finalize st svc e i s))"
proof (cases "Finalize st svc e i s")
  case (Pair res s')
  assume ok: "outcome_ok s"
  show ?thesis
  proof (cases res)
    case (Inl err)
    with Pair ok show ?thesis by (auto dest: Finalize_Inl)
  next
    case (Inr u)
    from Pair [unfolded Inr] show ?thesis
      by (cases rule: Finalize_Inr)
        (use ok Pair in \<open>auto intro!: outcome_ok_update simp: active_row_def\<close>)
  qed
qed

lemma outcome_ok_opened:
  assumes "outcome_ok s"
  shows "outcome_ok (with_outcome i ''opened'' (update_secrets (live_row i) (opened_row now) s))"
proof (rule outcome_ok_outcome)
  show "outcome_ok (update_secrets (live_row i) (opened_row now) s)"
    using assms by (rule outcome_ok_update) (simp_all add: opened_row_def)
qed (use consumed_after_live_update [of "opened_row now"] in \<open>auto simp: opened_row_def\<close>)

lemma outcome_ok_openAndEnqueueCleanup:
  assumes "secrets_ok s" "outcome_ok s"
  shows "outcome_ok (snd (openAndEnqueueCleanup st svc e i proofHash s))"
proof (cases "openAndEnqueueCleanup st svc e i proofHash s")
  case (Pair res s')
  note d = secrets_ok_distinct [OF assms(1)]
  show ?thesis
  proof (cases res)
    case (Inr sec)
    from Pair [unfolded Inr] obtain jobID row s1 where o: "OpenTx st svc e i proofHash s = (Inr sec, s1)"
      "enqueue_event (outboxSubject st) (clock e 3) (fails e) (consumed_job jobID i (clock e 2)) s1 = (Inr row, s')"
      by (rule openAndEnqueueCleanup_Inr)
    from o(1) d have "outcome_ok s1"
      by (rule OpenTx_Inr) (simp add: outcome_ok_opened assms(2))
    with o(2) Pair show ?thesis by (auto intro: outcome_ok_enqueue)
  next
    case (Inl err)
    from Pair [unfolded Inl] show ?thesis
    proof (cases rule: openAndEnqueueCleanup_Inl)
      case rolled_back
      with Pair assms(2) show ?thesis by simp
    next
      case refused
      from refused(3) d obtain r h u where r: "secret_of s i = Some r" "s_consumed_at r = None"
        and f: "recordFailedAccessTx st e i (s_storage_backend r) (s_storage_key r) (clock e 0) s = (Inr u, s')"
        by (rule OpenTx_refused)
      have ok: "outcome_ok (refused i (clock e 0) s)"
        unfolding refused_def using assms(2) by (rule outcome_ok_update) (simp_all add: refused_row_def)
      have one: "\<forall>x\<in>set (secrets s). s_id x = i \<longrightarrow> x = r"
        using r(1) d by (auto simp: sql_row_iff distinct_map inj_on_def)
      have locked: "outcome_ok (with_outcome i ''locked'' (refused i (clock e 0) s))"
        if "s_failed_access_count r + 1 \<ge> maxFailedAccessAttempts"
      proof (rule outcome_ok_outcome [OF ok])
        fix x assume x: "x \<in> set (secrets (refused i (clock e 0) s))" "s_id x = i"
        have "s_consumed_at (refused_row (clock e 0) r) \<noteq> None"
          using that by (simp add: refused_row_def)
        then have "s_consumed_at x \<noteq> None"
          using consumed_after_live_update [of "refused_row (clock e 0)" s i x] x one
          unfolding refused_def by (metis changed_row_id(2))
        then show "s_consumed_at x \<noteq> None \<and> ''locked'' \<noteq> ''cancelled''"
          by simp
      qed
      from f r have "outcome_ok s'"
        by (cases rule: recordFailedAccessTx_Inr) (use ok locked in \<open>auto intro: outcome_ok_enqueue\<close>)
      with Pair show ?thesis by simp
    qed
  qed
qed

lemma outcome_ok_Cleanup: "outcome_ok s \<Longrightarrow> outcome_ok (snd (Cleanup e i s))"
  by (simp add: Cleanup_def Let_def outcome_ok_update)

lemma revoked_gone:
  assumes "secrets_ok s" "sql_count (revocable i) (secrets s) = 1" "r \<in> set (secrets (delete_secrets (revocable i) s))"
  shows "s_id r \<noteq> i"
proof
  assume i: "s_id r = i"
  have d: "distinct (map s_id (secrets s))"
    using assms(1) by (rule secrets_ok_distinct)
  have "sql_count (\<lambda>r. s_id r = i \<and> revocable i r) (secrets s) = 1"
    using assms(2) sql_count_cong [of "secrets s" "\<lambda>r. s_id r = i \<and> revocable i r" "revocable i"]
    by (simp add: revocable_def)
  then obtain x where "x \<in> set (secrets s)" "s_id x = i" "revocable i x"
    by (rule sql_count_1_row [OF d])
  with assms(3) i d show False
    by (auto simp: delete_secrets_def distinct_map inj_on_def)
qed

lemma outcome_ok_Revoke:
  assumes "secrets_ok s" "outcome_ok s"
  shows "outcome_ok (snd (Revoke st e i token s))"
proof (cases "Revoke st e i token s")
  case (Pair x s')
  obtain err status where x: "x = (err, status)" by fastforce
  from Pair [unfolded x] show ?thesis
  proof (cases rule: Revoke_cases)
    case (cancelled r status0 status1 s1)
    from cancelled(8) obtain out where c: "sql_count (revocable i) (secrets s) = 1"
      "s1 = (with_outcome i ''cancelled'' (delete_secrets (revocable i) s))\<lparr>outbox_events := outbox_events s @ out\<rparr>"
      by (rule cancelTx_Inr)
    have "outcome_ok (with_outcome i ''cancelled'' (delete_secrets (revocable i) s))"
      using revoked_gone [OF assms(1) c(1)]
      by (intro outcome_ok_outcome outcome_ok_delete assms(2)) auto
    with cancelled(9) c(2) Pair show ?thesis by simp
  qed (use Pair x assms in auto)
qed

text \<open>The cleanup a cancellation owes the storage backend of row \<open>r\<close>.\<close>

definition cancel_cleanup :: "api \<Rightarrow> secret_row \<Rightarrow> api \<Rightarrow> bool" where
  "cancel_cleanup s r s' \<longleftrightarrow>
     (if s_storage_backend r = StorageS3
      then \<exists>row. outbox_events s' = outbox_events s @ [row] \<and> o_state row = StatePending \<and>
        JobKind (o_payload row) = KindDeleteOCIObject \<and> ObjectKey (o_payload row) = s_storage_key r
      else outbox_events s' = outbox_events s)"

lemma cancelled_status:
  assumes "secrets_ok s" "management st io now i token s = Inr status" "ms_Status status = ''cancelled''"
  obtains m where "mgmt_of s i = Some m" "management_digest token = Some (m_token_hash m)"
    "m_outcome m = Some ''cancelled''"
proof (rule management_Inr [OF assms(2,1)])
  fix m assume m: "mgmt_of s i = Some m" "management_digest token = Some (m_token_hash m)"
    and none: "m_outcome m = None \<Longrightarrow> \<exists>r. secret_of s i = Some r \<and>
      ms_Status status = (if s_state r = statePendingUpload \<and> \<not> now < s_created_at r + pendingTTL st
                     then ''unavailable'' else s_state r)"
    and some: "\<And>oc. m_outcome m = Some oc \<Longrightarrow> ms_Status status = oc \<and> \<not> ms_CanCancel status"
  have "m_outcome m \<noteq> None"
  proof
    assume "m_outcome m = None"
    from none [OF this] obtain r where "secret_of s i = Some r" "s_state r = ''cancelled''"
      using assms(3) by (auto split: if_splits)
    then show False
      using secrets_ok_row [OF assms(1)] by (fastforce simp: secret_row_ok_def secret_check_def row_constants)
  qed
  with some assms(3) m that show thesis by auto
qed

lemma revocable_row:
  assumes "secrets_ok s" "sql_count (revocable i) (secrets s) = 1" "secret_of s i = Some r"
  shows "revocable i r"
proof -
  have "sql_count (\<lambda>r. s_id r = i \<and> revocable i r) (secrets s) = 1"
    using assms(2) sql_count_cong [of "secrets s" "\<lambda>r. s_id r = i \<and> revocable i r" "revocable i"]
    by (simp add: revocable_def)
  then show ?thesis
    using assms(3) by (auto simp: sql_count_key [OF secrets_ok_distinct [OF assms(1)]] split: if_splits)
qed

lemma Revoke_effect:
  assumes "secrets_ok s" "Revoke st e i token s = ((None, status), s')"
  shows "ms_Status status = ''cancelled'' \<and>
    (\<exists>m. mgmt_of s' i = Some m \<and> m_outcome m = Some ''cancelled'' \<and> management_digest token = Some (m_token_hash m)) \<and>
    (s' = s \<or> (\<exists>r. secret_of s i = Some r \<and> s_consumed_at r = None \<and> cancel_cleanup s r s'))"
  using assms(2)
proof (cases rule: Revoke_cases)
  case unchanged
  then have st: "ms_Status status = ''cancelled''" "management st (fails e) (clock e 0) i token s = Inr status"
    by auto
  from assms(1) st(2,1) obtain m where "mgmt_of s i = Some m" "management_digest token = Some (m_token_hash m)"
    "m_outcome m = Some ''cancelled''"
    by (rule cancelled_status)
  with unchanged(1) st(1) show ?thesis by blast
next
  case (cancelled r status0 status1 s1)
  from cancelled(8) obtain out where c: "sql_count (revocable i) (secrets s) = 1"
    "s1 = (with_outcome i ''cancelled'' (delete_secrets (revocable i) s))\<lparr>outbox_events := outbox_events s @ out\<rparr>"
    and out: "if s_storage_backend r = StorageS3 then \<exists>row. out = [row] \<and> o_state row = StatePending \<and>
        JobKind (o_payload row) = KindDeleteOCIObject \<and> ObjectKey (o_payload row) = s_storage_key r else out = []"
    by (rule cancelTx_Inr) (fastforce split: if_splits)
  obtain m where m: "mgmt_of s i = Some m" "m_outcome m = None" "management_digest token = Some (m_token_hash m)"
    by (rule management_cancellable [OF cancelled(5) assms(1) cancelled(6)])
  have "s_consumed_at r = None"
    using revocable_row [OF assms(1) c(1) cancelled(2)] by (simp add: revocable_def)
  moreover have "mgmt_of s' i = Some (m\<lparr>m_outcome := Some ''cancelled''\<rparr>)"
  proof -
    have "mgmt_of (delete_secrets (revocable i) s) i = Some m"
      using m(1) by (simp add: delete_secrets_def)
    moreover have "secret_management s' = secret_management (with_outcome i ''cancelled'' (delete_secrets (revocable i) s))"
      using cancelled(9) c(2) by simp
    ultimately show ?thesis
      using m(2) by (simp add: mgmt_of_outcome)
  qed
  moreover have "outbox_events s' = outbox_events s @ out"
    using cancelled(9) c(2) by simp
  ultimately show ?thesis
    using cancelled(2,7) m(3) out by (auto simp: cancel_cleanup_def split: if_splits)
qed

lemma open_needs_row:
  assumes "secrets_ok s" "secret_of s i = None"
  shows "fst (openAndEnqueueCleanup st svc e i proofHash s) \<noteq> Inr sec"
proof
  assume "fst (openAndEnqueueCleanup st svc e i proofHash s) = Inr sec"
  then obtain s' where "openAndEnqueueCleanup st svc e i proofHash s = (Inr sec, s')"
    by (cases "openAndEnqueueCleanup st svc e i proofHash s") auto
  then obtain s1 where "OpenTx st svc e i proofHash s = (Inr sec, s1)"
    by (rule openAndEnqueueCleanup_Inr)
  then show False
    by (rule OpenTx_Inr [OF _ secrets_ok_distinct [OF assms(1)]]) (use assms(2) in auto)
qed

lemma cancelled_gone:
  assumes "secrets_ok s" "outcome_ok s" "mgmt_of s i = Some m" "m_outcome m = Some ''cancelled''"
  shows "secret_of s i = None \<and> payload_of s i = None"
proof -
  have "m \<in> set (secret_management s)" "m_secret_id m = i"
    using assms(3) by (auto dest: sql_row_Some)
  with assms(2,4) have "i \<notin> s_id ` set (secrets s)"
    unfolding outcome_ok_def by fastforce
  moreover from this have "i \<notin> p_secret_id ` set (secret_payloads s)"
    using assms(1) by (auto simp: secrets_ok_def secret_tables_ok_def)
  ultimately show ?thesis
    by (auto simp: sql_row_None)
qed

text \<open>
  C10: A cancellation that reports success has ended the delivery. The presented token is the recorded
  capability, the secret's row and payload are gone, the sender's record says cancelled, no open of this
  secret can succeed any more whatever proof is presented, and unless the delivery had been cancelled
  before, an object body has exactly one new pending delete job while an inline one has none.
\<close>

theorem revoke_ends_delivery:
  assumes "secrets_ok s" "outcome_ok s" "Revoke st e i token s = ((None, status), s')"
  shows "ms_Status status = ''cancelled'' \<and> secret_of s' i = None \<and> payload_of s' i = None \<and>
    (\<exists>m. mgmt_of s' i = Some m \<and> m_outcome m = Some ''cancelled'' \<and> management_digest token = Some (m_token_hash m)) \<and>
    (\<forall>st' svc e' proofHash sec. fst (openAndEnqueueCleanup st' svc e' i proofHash s') \<noteq> Inr sec) \<and>
    (s' = s \<or> (\<exists>r. secret_of s i = Some r \<and> s_consumed_at r = None \<and> cancel_cleanup s r s'))"
proof -
  have ok': "secrets_ok s'" "outcome_ok s'"
    using secrets_ok_Revoke [OF assms(1), of st e i token] outcome_ok_Revoke [OF assms(1,2), of st e i token] assms(3)
    by simp_all
  note eff = Revoke_effect [OF assms(1,3)]
  then obtain m where "mgmt_of s' i = Some m" "m_outcome m = Some ''cancelled''"
    by blast
  then have gone: "secret_of s' i = None \<and> payload_of s' i = None"
    by (rule cancelled_gone [OF ok'])
  then show ?thesis
    using eff open_needs_row [OF ok'(1)] by blast
qed

lemma example_management:
  "\<exists>sec. Create example_store (example_env 1) example_input MigrateAPI = (Inr sec, example_state) \<and>
     management example_store no_faults 2 example_id (ManagementToken sec) example_state =
       Inr \<lparr>ms_ID = example_id, ms_Status = stateActive, ms_ExpiresAt = example_expiry, ms_CanCancel = True\<rparr>"
proof -
  obtain sec where c: "Create example_store (example_env 1) example_input MigrateAPI = (Inr sec, example_state)"
    "ID sec = example_id" "ExpiresAt sec = example_expiry"
    using example_Create by blast
  have "\<exists>raw. draw (example_env 1) ''management capability'' = Some raw \<and> length raw = 32"
    by (simp add: example_env_def)
  then obtain raw where raw: "draw (example_env 1) ''management capability'' = Some raw" "length raw = 32"
    by blast
  then show ?thesis
    using management_after_create [OF secrets_ok_MigrateAPI c(1) raw, where now = 2 and token = "ManagementToken sec"] c
    by (intro exI [of _ sec]) (simp add: example_expiry_def)
qed

lemma example_Revoke:
  "\<exists>token status s'. Revoke example_store (example_env 2) example_id token example_state = ((None, status), s')"
proof -
  obtain token where m: "management example_store no_faults 2 example_id token example_state =
      Inr \<lparr>ms_ID = example_id, ms_Status = stateActive, ms_ExpiresAt = example_expiry, ms_CanCancel = True\<rparr>"
    using example_management by blast
  let ?r = "inline_row example_id (one_view example_input) 1 example_expiry"
  have r: "revocable example_id ?r" "s_storage_backend ?r = StorageSQLite"
    by (simp_all add: revocable_def inline_row_def split: prod.split)
  have "sql_count (revocable example_id) (secrets example_state) =
      sql_count (\<lambda>r. s_id r = example_id \<and> revocable example_id r) (secrets example_state)"
    by (rule sql_count_cong) (auto simp: revocable_def)
  also have "\<dots> = 1"
    using example_rows(1) r by (simp add: sql_count_key [OF secrets_ok_distinct [OF example_state_ok]])
  finally have "\<exists>s1. cancelTx example_store (example_env 2) example_id ?r example_state = Inr s1"
    using r by (simp add: cancelTx_def example_env_def recordManagementOutcomeTx_def)
  then show ?thesis
    using m example_rows(1) by (intro exI [of _ token]) (auto simp: Revoke_def Let_def example_env_def row_constants)
qed

theorem revoke_ends_delivery_witness:
  "\<exists>token status s'. Revoke example_store (example_env 2) example_id token example_state = ((None, status), s') \<and>
     secret_of s' example_id = None \<and> ms_Status status = ''cancelled''"
proof -
  have "outcome_ok example_state"
    unfolding example_state_def by (intro outcome_ok_Create outcome_ok_MigrateAPI)
  then show ?thesis
    using example_Revoke revoke_ends_delivery [OF example_state_ok] by blast
qed

subsection \<open>Uploads\<close>

text \<open>
  C18: An upload is activated only after it was checked. When finalizing succeeds, the row was already
  active and nothing changed, or it was pending, the bucket reported an object of exactly the declared
  length, both clock readings were before the earlier of the secret's expiry and the upload deadline,
  only this row became active and the gauge of pending uploads fell by one. When it fails, the database
  is as it was.
\<close>

theorem finalize_checks_upload:
  assumes "secrets_ok s" "Finalize st svc e i s = (res, s')"
  shows "case res of Inl err \<Rightarrow> s' = s
    | Inr u \<Rightarrow> (\<exists>r. secret_of s i = Some r \<and>
        (if s_state r = stateActive then s' = s
         else s_state r = statePendingUpload \<and>
           clock e 0 < min (s_expires_at r) (s_created_at r + pendingTTL st) \<and>
           clock e 1 < min (s_expires_at r) (s_created_at r + pendingTTL st) \<and>
           s3_head svc (s_storage_key r) = HeadObject (s_size_bytes r) \<and>
           secret_of s' i = Some (active_row (clock e 1) r) \<and>
           (\<forall>j. j \<noteq> i \<longrightarrow> secret_of s' j = secret_of s j) \<and> ActiveUploads s' = ActiveUploads s - 1))"
proof (cases res)
  case (Inl err)
  with assms(2) show ?thesis by (auto dest: Finalize_Inl)
next
  case (Inr u)
  from assms(2) [unfolded Inr] show ?thesis
  proof (cases rule: Finalize_Inr)
    case (already r)
    with Inr show ?thesis by auto
  next
    case (activated r)
    have dl: "upload_deadline st r = min (s_expires_at r) (s_created_at r + pendingTTL st)"
      by (simp add: upload_deadline_def Let_def min_def)
    have at: "s_id r = i"
      using activated(1) by (auto dest: sql_row_Some)
    have "secret_of s' i = Some (active_row (clock e 1) r)"
      using activated(1,2,7) at by (simp add: sql_row_update [where key = s_id])
    moreover have "secret_of s' j = secret_of s j" if "j \<noteq> i" for j
      using that activated(7) by (cases "secret_of s j") (auto simp: sql_row_update [where key = s_id] dest: sql_row_Some)
    ultimately show ?thesis
      using activated Inr by (auto simp: dl)
  qed
qed

definition example_large_input :: create_large_input where
  "example_large_input = \<lparr>cl_Kind = KindFile, cl_AccessKDF = zero_kdf, cl_AccessProofHash = [],
     cl_WrappedIdentity = None, cl_EncryptedFilename = Some (std_encode ageMagic), cl_ContentType = None,
     cl_SizeBytes = 100, cl_TTLSeconds = 3600, cl_MaxViews = 1\<rparr>"

definition example_large_state :: api where
  "example_large_state = snd (CreateLarge example_store example_s3 (example_env 1) example_large_input MigrateAPI)"

lemma example_large_valid: "validateCreateLarge example_store example_large_input = None"
proof -
  have "wrap64 (MaxCiphertextBytes 0 - AgeHeaderAllowanceBytes) = 32"
    by (simp add: MaxCiphertextBytes_def age_constants wrap64_def quot_def)
  moreover have "decodeAgeField (std_encode ageMagic) maxEncryptedFilenameBytes = Some ageMagic"
  proof -
    have "length (std_encode ageMagic) = 32"
      by (simp add: std_encode_def ageMagic_def)
    then show ?thesis
      unfolding decodeAgeField_def std_decode_def std_decode_encode
      by (simp add: std_decodedLen_def ageMagic_def hasPrefix_def maxEncryptedFilenameBytes_def)
  qed
  ultimately show ?thesis
    by (simp add: validateCreateLarge_def validateCommon_def example_store_def example_large_input_def zero_kdf_def)
qed

lemma example_large_rows:
  "secrets example_large_state = [large_row example_id example_large_input 1 example_expiry]"
  using example_large_valid unfolding example_large_state_def CreateLarge_def
  by (simp add: generateID_def example_env_def exec_def insert_secret_def MigrateAPI_def PresignPUT_def example_s3_def
      createManagementTx_def insert_management_def sql_insert_def mgmt_check_def Let_def managedObjectPrefix_def
      large_row_def modelAColumns_def secret_check_def example_large_input_def example_store_def
      wrap64_def Second_def example_id_def example_expiry_def)

lemma example_Finalize:
  "Finalize example_store example_s3 (example_env 2) example_id example_large_state =
    (Inr (), (update_secrets (\<lambda>r. s_id r = example_id \<and> s_state r = statePendingUpload) (active_row 2) example_large_state)
       \<lparr>ActiveUploads := ActiveUploads example_large_state - 1\<rparr>)"
  using example_large_rows
  by (simp add: Finalize_def example_store_def example_env_def example_s3_def Head_def activateSecretTx_def
      upload_deadline_def Let_def sql_row_def large_row_def modelAColumns_def example_large_input_def sql_count_def
      example_expiry_def Minute_def update_secrets_def active_row_def [abs_def])

theorem finalize_checks_upload_witness:
  "\<exists>s' r. Finalize example_store example_s3 (example_env 2) example_id example_large_state = (Inr (), s') \<and>
     secret_of example_large_state example_id = Some r \<and> s_state r = statePendingUpload \<and>
     secret_of s' example_id = Some (active_row 2 r)"
proof -
  have ok: "secrets_ok example_large_state"
    unfolding example_large_state_def by (intro secrets_ok_CreateLarge secrets_ok_MigrateAPI)
  have "s_state (large_row example_id example_large_input 1 example_expiry) = statePendingUpload"
    by (simp add: large_row_def split: prod.split)
  moreover have "secret_of example_large_state example_id = Some (large_row example_id example_large_input 1 example_expiry)"
    by (simp add: example_large_rows sql_row_def large_row_def split: prod.split)
  moreover have "clock (example_env 2) n = 2" for n by (simp add: example_env_def)
  ultimately show ?thesis
    using finalize_checks_upload [OF ok example_Finalize] example_Finalize by auto
qed

end
