(* ===== verification/Request_Input.thy ===== *)
theory Request_Input
  imports Secret_Input "HOL-Library.More_List"
begin

text \<open>
  Validation for request links (internal/requests/validation.go) and the request store's configuration
  (store.go, \<open>NewStore\<close>). \<open>encoding/json\<close>'s tokenizer is taken as given: an object arrives as its
  length and the list of its members in order, or \<open>None\<close> when the bytes are not one JSON object.
  \<open>age.ParseHybridRecipient\<close> is a parameter of the store that returns the canonical text of the
  recipient it parsed.
\<close>

datatype request_error =
  ErrInvalid | ErrTooLarge | ErrUnavailable | ErrConflict | ErrStorage | ErrRequest string

definition EnvelopeMaxBytes :: int where "EnvelopeMaxBytes = 8192"
definition MaxGeneration :: int where "MaxGeneration = 16"
definition envelopeVersion :: int where "envelopeVersion = 2"
definition recipientPrefix :: string where "recipientPrefix = ''age1pq1''"
definition maxRecipientChars :: int where "maxRecipientChars = 2400"
definition maxEncryptedNameLen :: int where "maxEncryptedNameLen = 4096"
definition AgeMagic :: bytes where "AgeMagic = ageMagic"

datatype json_value = JNull | JString string | JInt int | JOther

record raw_json =
  raw_len :: int
  raw_members :: "(string \<times> json_value) list option"

fun decode_members ::
  "string list \<Rightarrow> string list \<Rightarrow> (string \<times> json_value) list \<Rightarrow> request_error + string list" where
  "decode_members allowed seen [] = Inr seen"
| "decode_members allowed seen ((key, v) # ms) =
     (if key \<notin> set allowed \<or> key \<in> set seen then Inl ErrInvalid
      else if v = JNull then Inl ErrInvalid
      else decode_members allowed (key # seen) ms)"

definition DecodeObject ::
  "raw_json \<Rightarrow> string list \<Rightarrow> string list \<Rightarrow> request_error + (string \<times> json_value) list" where
  "DecodeObject data required optional =
     (case raw_members data of
        None \<Rightarrow> Inl ErrInvalid
      | Some ms \<Rightarrow>
          (case decode_members (required @ optional) [] ms of
             Inl err \<Rightarrow> Inl err
           | Inr seen \<Rightarrow> if list_all (\<lambda>key. key \<in> set seen) required then Inr ms else Inl ErrInvalid))"

text \<open>\<open>json.Unmarshal\<close> into an \<open>Envelope\<close>.\<close>

definition unmarshal_envelope :: "(string \<times> json_value) list \<Rightarrow> request_error + envelope" where
  "unmarshal_envelope ms =
     (case (map_of ms ''version'', map_of ms ''encrypted_filename'') of
        (Some (JInt v), None) \<Rightarrow>
          if - (2 ^ 63) \<le> v \<and> v < 2 ^ 63 then Inr \<lparr>Version = v, EnvFilename = []\<rparr> else Inl ErrInvalid
      | (Some (JInt v), Some (JString f)) \<Rightarrow>
          if - (2 ^ 63) \<le> v \<and> v < 2 ^ 63 then Inr \<lparr>Version = v, EnvFilename = f\<rparr> else Inl ErrInvalid
      | _ \<Rightarrow> Inl ErrInvalid)"

text \<open>\<open>json.Marshal\<close> of the fields that are hashed; the strings in them never need escaping (a kind, or
  canonical base64).\<close>

definition quoted :: "string \<Rightarrow> string" where
  "quoted t = [CHR 0x22] @ t @ [CHR 0x22]"

definition envelope_json :: "envelope \<Rightarrow> string" where
  "envelope_json e =
     ''{'' @ quoted ''version'' @ '':'' @ itoa (nat (Version e)) @
     (if EnvFilename e = [] then [] else '','' @ quoted ''encrypted_filename'' @ '':'' @ quoted (EnvFilename e)) @ ''}''"

definition tokenHash :: "string \<Rightarrow> request_error + bytes" where
  "tokenHash token =
     (if length token \<noteq> 43 then Inl ErrInvalid
      else (case rawurl_decode_strict token of
              None \<Rightarrow> Inl ErrInvalid
            | Some b \<Rightarrow>
                if length b \<noteq> 32 \<or> rawurl_encode b \<noteq> token then Inl ErrInvalid else Inr (sha256 b)))"

definition validateEnvelope :: "raw_json \<Rightarrow> string \<Rightarrow> request_error + envelope" where
  "validateEnvelope raw kind =
     (if raw_len raw > EnvelopeMaxBytes then Inl ErrInvalid
      else (case DecodeObject raw [''version''] [''encrypted_filename''] of
        Inl err \<Rightarrow> Inl err
      | Inr ms \<Rightarrow>
      (case unmarshal_envelope ms of
        Inl err \<Rightarrow> Inl err
      | Inr e \<Rightarrow>
          if Version e \<noteq> envelopeVersion then Inl ErrInvalid
          else if kind = ''file'' then
            (case canonicalBase64 (EnvFilename e) (int (length AgeMagic)) maxEncryptedNameLen of
               None \<Rightarrow> Inl ErrInvalid
             | Some name \<Rightarrow> if \<not> isAgeFile name then Inl ErrInvalid else Inr e)
          else if kind = ''text'' then (if EnvFilename e \<noteq> [] then Inl ErrInvalid else Inr e)
          else Inl ErrInvalid)))"

subsection \<open>The store\<close>

record request_store =
  rq_hasObjects :: bool
  rq_hasOutbox :: bool
  rq_PayloadInlineMaxBytes :: int
  rq_MaxObjectBytes :: int
  rq_MinTTLSeconds :: int
  rq_DefaultTTLSeconds :: int
  rq_MaxTTLSeconds :: int
  rq_subject :: string
  rq_parseHybridRecipient :: "string \<Rightarrow> string option"

definition NewRequestStore :: "bool \<Rightarrow> request_store \<Rightarrow> request_error + request_store" where
  "NewRequestStore db opts =
     (if \<not> db \<or> rq_PayloadInlineMaxBytes opts < int (length AgeMagic) \<or> rq_MaxObjectBytes opts \<le> 0 \<or>
         (rq_hasObjects opts \<and> \<not> rq_hasOutbox opts) \<or> rq_MinTTLSeconds opts \<le> 0 \<or>
         rq_DefaultTTLSeconds opts < rq_MinTTLSeconds opts \<or> rq_DefaultTTLSeconds opts > rq_MaxTTLSeconds opts \<or>
         rq_MaxTTLSeconds opts > quot (2 ^ 63 - 1) Second
      then Inl (ErrRequest ''invalid request store configuration'')
      else Inr opts)"

definition publicKeyFingerprint :: "request_store \<Rightarrow> string \<Rightarrow> request_error + string" where
  "publicKeyFingerprint st s =
     (if int (length s) > maxRecipientChars \<or> \<not> hasPrefix s recipientPrefix then Inl ErrInvalid
      else (case rq_parseHybridRecipient st s of
              None \<Rightarrow> Inl ErrInvalid
            | Some text \<Rightarrow> if text \<noteq> s then Inl ErrInvalid else Inr (rawurl_encode (sha256 s))))"

subsection \<open>What validation guarantees\<close>

lemma tokenHash_token: "length raw = 32 \<Longrightarrow> tokenHash (rawurl_encode raw) = Inr (sha256 raw)"
  by (simp add: tokenHash_def length_rawurl_encode rawurl_decode_encode)

lemma tokenHash_Inr:
  "tokenHash token = Inr h \<Longrightarrow> \<exists>raw. length raw = 32 \<and> token = rawurl_encode raw \<and> h = sha256 raw"
  by (auto simp: tokenHash_def split: if_splits option.splits)

lemma tokenHash_length: "tokenHash token = Inr h \<Longrightarrow> length h = 32"
  by (auto dest: tokenHash_Inr)

lemma decode_members_Inr:
  "decode_members allowed seen ms = Inr seen' \<Longrightarrow>
   set (map fst ms) \<subseteq> set allowed \<and> distinct (map fst ms) \<and> set (map fst ms) \<inter> set seen = {} \<and>
   set seen' = set seen \<union> set (map fst ms) \<and> JNull \<notin> set (map snd ms)"
  by (induction allowed seen ms rule: decode_members.induct) (auto split: if_splits)

text \<open>
  \<open>DecodeObject\<close> accepts an object exactly when its members are distinct, all among the allowed names,
  none null, and every required name is present; it then yields the members unchanged.
\<close>

theorem DecodeObject_exact:
  "DecodeObject data required optional = Inr ms \<longleftrightarrow>
     raw_members data = Some ms \<and> distinct (map fst ms) \<and> set (map fst ms) \<subseteq> set required \<union> set optional \<and>
     JNull \<notin> set (map snd ms) \<and> set required \<subseteq> set (map fst ms)"
proof -
  have acc: "\<exists>seen'. decode_members allowed seen ms = Inr seen'"
    if "set (map fst ms) \<subseteq> set allowed" "distinct (map fst ms)" "set (map fst ms) \<inter> set seen = {}"
      "JNull \<notin> set (map snd ms)" for allowed seen
    using that by (induction allowed seen ms rule: decode_members.induct) auto
  show ?thesis
  proof
    assume "DecodeObject data required optional = Inr ms"
    then obtain seen where "raw_members data = Some ms" "decode_members (required @ optional) [] ms = Inr seen"
      "set required \<subseteq> set seen"
      by (auto simp: DecodeObject_def list_all_iff split: option.splits sum.splits if_splits)
    with decode_members_Inr [OF this(2)]
    show "raw_members data = Some ms \<and> distinct (map fst ms) \<and> set (map fst ms) \<subseteq> set required \<union> set optional \<and>
     JNull \<notin> set (map snd ms) \<and> set required \<subseteq> set (map fst ms)"
      by auto
  next
    assume r: "raw_members data = Some ms \<and> distinct (map fst ms) \<and> set (map fst ms) \<subseteq> set required \<union> set optional \<and>
     JNull \<notin> set (map snd ms) \<and> set required \<subseteq> set (map fst ms)"
    then obtain seen where s: "decode_members (required @ optional) [] ms = Inr seen"
      using acc [of "required @ optional" "[]"] by auto
    with decode_members_Inr [OF s] r show "DecodeObject data required optional = Inr ms"
      by (auto simp: DecodeObject_def list_all_iff)
  qed
qed

lemma canonicalBase64_Some:
  "canonicalBase64 s lo hi = Some b \<Longrightarrow> s = std_encode b \<and> lo \<le> int (length b) \<and> int (length b) \<le> hi"
  by (auto simp: canonicalBase64_def split: if_splits option.splits)

lemma std_encode_Nil: "std_encode b = [] \<longleftrightarrow> b = []"
  using length_to_sextets [of b] by (cases b) (auto simp: std_encode_def)

lemma validateEnvelope_Inr:
  assumes "validateEnvelope raw kind = Inr e"
  shows "Version e = 2 \<and> kind \<in> {''text'', ''file''} \<and> (kind = ''text'' \<longleftrightarrow> EnvFilename e = [])"
proof -
  have "EnvFilename e \<noteq> []" if "canonicalBase64 (EnvFilename e) (int (length AgeMagic)) m = Some n" for m n
    using canonicalBase64_Some [OF that] by (auto simp: std_encode_Nil AgeMagic_def ageMagic_def)
  with assms show ?thesis
    by (auto simp: validateEnvelope_def envelopeVersion_def split: if_splits sum.splits option.splits)
qed

end
