(* ===== verification/Request_Store.thy ===== *)
theory Request_Store
  imports Request_Input
begin

text \<open>
  Request links (internal/requests/store.go, large.go, and the transaction helpers of cleanup.go): a
  recipient creates a request, a submitter with the submission token fills it once, inline or through
  an upload reserved for fifteen minutes and copied to a server-only key after verification, and the
  owner opens it once with the retrieval token. Every write checks its constraints, including the two
  unique indexes on object keys. Clock readings inside \<open>begin\<close> are numbered from the \<open>k\<close> it is called
  with, those of the operation from 20.
\<close>

definition ObjectPrefix :: string where "ObjectPrefix = ''managed/requests/''"
definition ReservationTTL :: duration where "ReservationTTL = 15 * Minute"

definition request_constraints :: "request_row list \<Rightarrow> bool" where
  "request_constraints t \<longleftrightarrow> list_all request_check t \<and>
     distinct (List.map_filter r_upload_key t) \<and> distinct (List.map_filter r_final_key t)"

definition update_requests ::
  "(request_row \<Rightarrow> bool) \<Rightarrow> (request_row \<Rightarrow> request_row) \<Rightarrow> api \<Rightarrow> api option" where
  "update_requests p f s =
     (let t = sql_update p f (requests s) in
      if request_constraints t then Some (s\<lparr>requests := t\<rparr>) else None)"

subsection \<open>Creating a request\<close>

record request_created =
  rc_ID :: string
  rc_ExpiresAt :: time
  rc_SubmissionToken :: string
  rc_RetrievalToken :: string

definition new_request_row :: "string \<Rightarrow> string \<Rightarrow> string \<Rightarrow> bytes \<Rightarrow> bytes \<Rightarrow> time \<Rightarrow> request_row" where
  "new_request_row i publicKey fingerprint submitHash retrieveHash expires =
     \<lparr>r_id = i, r_public_key = publicKey, r_fingerprint = fingerprint, r_submission_token_hash = submitHash,
      r_retrieval_token_hash = retrieveHash, r_state = ''waiting'', r_generation = 1,
      r_attempt_token_hash = None, r_attempt_body_hash = None, r_kind = None, r_size_bytes = None,
      r_envelope = None, r_storage_backend = StorageSQLite, r_upload_key = None, r_final_key = None,
      r_ciphertext_sha256 = None, r_reservation_expires_at = None, r_consumed_at = None,
      r_expires_at = expires\<rparr>"

definition hash_or_nil :: "request_error + bytes \<Rightarrow> bytes" where
  "hash_or_nil h = (case h of Inl _ \<Rightarrow> [] | Inr b \<Rightarrow> b)"

definition CreateRequest ::
  "request_store \<Rightarrow> env \<Rightarrow> string \<Rightarrow> int option \<Rightarrow> api \<Rightarrow> (request_error + request_created) \<times> api" where
  "CreateRequest st e publicKey ttl s =
     (case publicKeyFingerprint st publicKey of
        Inl err \<Rightarrow> (Inl err, s)
      | Inr fingerprint \<Rightarrow>
        let seconds = (case ttl of None \<Rightarrow> rq_DefaultTTLSeconds st | Some n \<Rightarrow> n) in
        if seconds < rq_MinTTLSeconds st \<or> seconds > rq_MaxTTLSeconds st then (Inl ErrInvalid, s)
        else (case draw e ''request capabilities'' of
          None \<Rightarrow> (Inl (ErrRequest ''random''), s)
        | Some random \<Rightarrow>
          let i = rawurl_encode (take 16 random); submit = rawurl_encode (take 32 (drop 16 random));
              retrieve = rawurl_encode (drop 48 random);
              expires = clock e 20 + wrap64 (seconds * Second);
              row = new_request_row i publicKey fingerprint (hash_or_nil (tokenHash submit))
                (hash_or_nil (tokenHash retrieve)) expires
          in (case exec e ''insert request'' (insert_request row s) of
                None \<Rightarrow> (Inl (ErrRequest ''insert request''), s)
              | Some s' \<Rightarrow> (Inr \<lparr>rc_ID = i, rc_ExpiresAt = expires, rc_SubmissionToken = submit,
                                 rc_RetrievalToken = retrieve\<rparr>, s'))))"

subsection \<open>Transactions\<close>

record request_record =
  rr_publicKey :: string
  rr_fingerprint :: string
  rr_state :: string
  rr_expires :: time
  rr_generation :: int
  rr_reservationExpires :: time

definition capability :: "bool \<Rightarrow> request_row \<Rightarrow> bytes" where
  "capability owner r = (if owner then r_retrieval_token_hash r else r_submission_token_hash r)"

definition record_of :: "request_row \<Rightarrow> request_record" where
  "record_of r = \<lparr>rr_publicKey = r_public_key r, rr_fingerprint = r_fingerprint r, rr_state = r_state r,
     rr_expires = r_expires_at r, rr_generation = r_generation r,
     rr_reservationExpires = (case r_reservation_expires_at r of None \<Rightarrow> 0 | Some t \<Rightarrow> t)\<rparr>"

definition authorized ::
  "faults \<Rightarrow> time \<Rightarrow> string \<Rightarrow> bytes \<Rightarrow> bool \<Rightarrow> api \<Rightarrow> request_error + request_record" where
  "authorized io now i hash owner s =
     (if io ''read request'' then Inl (ErrRequest ''read request'')
      else (case request_of s i of
              None \<Rightarrow> Inl ErrUnavailable
            | Some r \<Rightarrow>
                if hash \<noteq> capability owner r then Inl ErrUnavailable
                else if r_state r = ''unavailable'' \<or> \<not> now < r_expires_at r then Inl ErrUnavailable
                else Inr (record_of r)))"

definition requireTransition :: "faults \<Rightarrow> nat \<Rightarrow> request_error + unit" where
  "requireTransition io n =
     (if io ''read transition rows'' then Inl (ErrRequest ''read transition rows'')
      else if n \<noteq> 1 then Inl ErrConflict else Inr ())"

definition object_job :: "string \<Rightarrow> string \<Rightarrow> string \<Rightarrow> time \<Rightarrow> job_event" where
  "object_job jobID key reason now =
     \<lparr>JobID = jobID, JobKind = KindDeleteOCIObject, SecretID = [], ObjectKey = key, Reason = reason,
      RequestedAt = now\<rparr>"

definition enqueueObjectTx ::
  "bool \<Rightarrow> string \<Rightarrow> env \<Rightarrow> string \<Rightarrow> string \<Rightarrow> time \<Rightarrow> api \<Rightarrow> (request_error + unit) \<times> api" where
  "enqueueObjectTx outbox subject e key reason now s =
     (if \<not> hasPrefix key ObjectPrefix \<or> key = ObjectPrefix \<or> \<not> outbox then (Inl ErrStorage, s)
      else (case NewJobID e (''job '' @ key) of
              None \<Rightarrow> (Inl (ErrRequest ''generate job id''), s)
            | Some jobID \<Rightarrow>
                (case enqueue_event subject (clock e 99) (fails e) (object_job jobID key reason now) s of
                   (Inl _, s') \<Rightarrow> (Inl (ErrRequest ''enqueue object delete''), s')
                 | (Inr _, s') \<Rightarrow> (Inr (), s'))))"

fun enqueue_keys ::
  "bool \<Rightarrow> string \<Rightarrow> env \<Rightarrow> string \<Rightarrow> time \<Rightarrow> string option list \<Rightarrow> api \<Rightarrow> (request_error + unit) \<times> api" where
  "enqueue_keys outbox subject e reason now [] s = (Inr (), s)"
| "enqueue_keys outbox subject e reason now (None # ks) s = enqueue_keys outbox subject e reason now ks s"
| "enqueue_keys outbox subject e reason now (Some key # ks) s =
     (case enqueueObjectTx outbox subject e key reason now s of
        (Inl err, s') \<Rightarrow> (Inl err, s')
      | (Inr _, s') \<Rightarrow> enqueue_keys outbox subject e reason now ks s')"

definition enqueueRequestKeysTx ::
  "bool \<Rightarrow> string \<Rightarrow> env \<Rightarrow> string \<Rightarrow> string \<Rightarrow> time \<Rightarrow> api \<Rightarrow> (request_error + unit) \<times> api" where
  "enqueueRequestKeysTx outbox subject e i reason now s =
     (if fails e ''read request keys'' then (Inl (ErrRequest ''read request keys''), s)
      else (case request_of s i of
              None \<Rightarrow> (Inl (ErrRequest ''read request keys''), s)
            | Some r \<Rightarrow> enqueue_keys outbox subject e reason now [r_upload_key r, r_final_key r] s))"

definition ended_row :: "int \<Rightarrow> request_row \<Rightarrow> request_row" where
  "ended_row generation r =
     r\<lparr>r_state := (if generation = MaxGeneration then ''unavailable'' else ''waiting''),
       r_generation := (if generation = MaxGeneration then generation else generation + 1),
       r_storage_backend := StorageSQLite, r_attempt_token_hash := None, r_attempt_body_hash := None,
       r_kind := None, r_size_bytes := None, r_envelope := None, r_upload_key := None,
       r_final_key := None, r_ciphertext_sha256 := None, r_reservation_expires_at := None\<rparr>"

definition endReservationTx ::
  "bool \<Rightarrow> string \<Rightarrow> env \<Rightarrow> string \<Rightarrow> int \<Rightarrow> time \<Rightarrow> api \<Rightarrow> (request_error + unit) \<times> api" where
  "endReservationTx outbox subject e i generation now s =
     (case enqueueRequestKeysTx outbox subject e i ReasonOrphan now s of
        (Inl err, s1) \<Rightarrow> (Inl err, s1)
      | (Inr _, s1) \<Rightarrow>
        let p = (\<lambda>r. r_id r = i \<and> r_state r = ''uploading'' \<and> r_generation r = generation) in
        (case exec e ''end reservation'' (update_requests p (ended_row generation) s1) of
           None \<Rightarrow> (Inl (ErrRequest ''end reservation''), s1)
         | Some s2 \<Rightarrow> (requireTransition (fails e) (sql_count p (requests s1)), s2)))"

text \<open>\<open>commit\<close> with its deadline check; a zero deadline is none.\<close>

definition commit_error :: "env \<Rightarrow> nat \<Rightarrow> time \<Rightarrow> request_error option" where
  "commit_error e k expires =
     (if expires \<noteq> 0 \<and> \<not> clock e k < expires then Some ErrUnavailable
      else if fails e ''commit request'' then Some (ErrRequest ''commit request'')
      else None)"

text \<open>\<open>begin\<close> authenticates inside a write transaction. When it finds a reservation past its deadline it ends
  it, commits that, and starts over; \<open>fuel\<close> counts the rounds, between which no other call acts. It returns
  the state the transaction starts from.\<close>

fun begin_n ::
  "nat \<Rightarrow> request_store \<Rightarrow> env \<Rightarrow> nat \<Rightarrow> string \<Rightarrow> string \<Rightarrow> bool \<Rightarrow> api \<Rightarrow>
   ((request_error + request_record) \<times> api) option" where
  "begin_n 0 st e k i token owner s = None"
| "begin_n (Suc n) st e k i token owner s =
     (case tokenHash token of
        Inl _ \<Rightarrow> Some (Inl ErrUnavailable, s)
      | Inr hash \<Rightarrow>
        if fails e ''begin request tx'' then Some (Inl (ErrRequest ''begin request tx''), s)
        else if fails e ''lock request'' then Some (Inl (ErrRequest ''lock request''), s)
        else (case authorized (fails e) (clock e k) i hash owner s of
          Inl err \<Rightarrow> Some (Inl err, s)
        | Inr r \<Rightarrow>
          if rr_state r = ''uploading'' \<and> \<not> clock e (k + 1) < rr_reservationExpires r then
            (case endReservationTx (rq_hasOutbox st) (rq_subject st) e i (rr_generation r) (clock e (k + 2)) s of
               (Inl err, _) \<Rightarrow> Some (Inl err, s)
             | (Inr _, s1) \<Rightarrow>
                 (case commit_error e (k + 3) (rr_expires r) of
                    Some err \<Rightarrow> Some (Inl err, s)
                  | None \<Rightarrow> begin_n n st e (k + 4) i token owner s1))
          else Some (Inr r, s)))"

definition beginTx ::
  "request_store \<Rightarrow> env \<Rightarrow> nat \<Rightarrow> string \<Rightarrow> string \<Rightarrow> bool \<Rightarrow> api \<Rightarrow> (request_error + request_record) \<times> api" where
  "beginTx st e k i token owner s = the (begin_n 2 st e k i token owner s)"

subsection \<open>Reading\<close>

definition read_request ::
  "request_store \<Rightarrow> env \<Rightarrow> string \<Rightarrow> string \<Rightarrow> bool \<Rightarrow> api \<Rightarrow> (request_error + request_record) \<times> api" where
  "read_request st e i token owner s =
     (case tokenHash token of
        Inl _ \<Rightarrow> (Inl ErrUnavailable, s)
      | Inr hash \<Rightarrow>
        (case authorized (fails e) (clock e 20) i hash owner s of
           Inl err \<Rightarrow> (Inl err, s)
         | Inr row \<Rightarrow>
             if rr_state row = ''uploading'' \<and> \<not> clock e 21 < rr_reservationExpires row then
               (case beginTx st e 0 i token owner s of
                  (Inl err, s1) \<Rightarrow> (Inl err, s1)
                | (Inr refreshed, s1) \<Rightarrow>
                    (case commit_error e 22 (rr_expires refreshed) of
                       Some err \<Rightarrow> (Inl err, s1)
                     | None \<Rightarrow> (Inr refreshed, s1)))
             else (Inr row, s)))"

record instructions =
  in_PublicKey :: string
  in_Fingerprint :: string
  in_ExpiresAt :: time
  in_Generation :: int
  in_CanSubmit :: bool

definition Instructions ::
  "request_store \<Rightarrow> env \<Rightarrow> string \<Rightarrow> string \<Rightarrow> api \<Rightarrow> (request_error + instructions) \<times> api" where
  "Instructions st e i token s =
     (case read_request st e i token False s of
        (Inl err, s') \<Rightarrow> (Inl err, s')
      | (Inr r, s') \<Rightarrow>
          (Inr \<lparr>in_PublicKey = rr_publicKey r, in_Fingerprint = rr_fingerprint r, in_ExpiresAt = rr_expires r,
                in_Generation = rr_generation r, in_CanSubmit = (rr_state r = ''waiting'')\<rparr>, s'))"

record owner_status =
  os_PublicKey :: string
  os_Fingerprint :: string
  os_ExpiresAt :: time
  os_State :: string

definition Owner ::
  "request_store \<Rightarrow> env \<Rightarrow> string \<Rightarrow> string \<Rightarrow> api \<Rightarrow> (request_error + owner_status) \<times> api" where
  "Owner st e i token s =
     (case read_request st e i token True s of
        (Inl err, s') \<Rightarrow> (Inl err, s')
      | (Inr r, s') \<Rightarrow>
          (Inr \<lparr>os_PublicKey = rr_publicKey r, os_Fingerprint = rr_fingerprint r, os_ExpiresAt = rr_expires r,
                os_State = rr_state r\<rparr>, s'))"

subsection \<open>Submitting inline\<close>

record submit_input =
  si_Generation :: int
  si_AttemptToken :: string
  si_Kind :: string
  si_SizeBytes :: int
  si_Envelope :: raw_json
  si_Ciphertext :: string

record receipt =
  rec_Generation :: int
  rec_State :: string

definition validateSubmission ::
  "request_store \<Rightarrow> submit_input \<Rightarrow> request_error + bytes \<times> envelope \<times> bytes" where
  "validateSubmission st inp =
     (if si_Generation inp < 1 \<or> si_Generation inp > MaxGeneration \<or> si_SizeBytes inp < 0 \<or>
         (si_Kind inp \<noteq> ''text'' \<and> si_Kind inp \<noteq> ''file'')
      then Inl ErrInvalid
      else (case tokenHash (si_AttemptToken inp) of
        Inl err \<Rightarrow> Inl err
      | Inr attempt \<Rightarrow>
        if si_SizeBytes inp > rq_PayloadInlineMaxBytes st \<or>
           (si_Kind inp = ''file'' \<and> si_SizeBytes inp > rq_MaxObjectBytes st)
        then Inl ErrTooLarge
        else (case validateEnvelope (si_Envelope inp) (si_Kind inp) of
          Inl err \<Rightarrow> Inl err
        | Inr envelope \<Rightarrow>
          if int (length (si_Ciphertext inp)) >
             wrap64 (quot (wrap64 (rq_PayloadInlineMaxBytes st + 2)) 3 * 4)
          then Inl ErrTooLarge
          else (case canonicalBase64 (si_Ciphertext inp) (si_SizeBytes inp) (si_SizeBytes inp) of
            None \<Rightarrow> Inl ErrInvalid
          | Some ciphertext \<Rightarrow>
              if \<not> isAgeFile ciphertext then Inl ErrInvalid
              else Inr (attempt, envelope, ciphertext)))))"

text \<open>The digest of the immutable fields of a submission: SHA-256 of their JSON.\<close>

definition submission_digest :: "string \<Rightarrow> int \<Rightarrow> envelope \<Rightarrow> string \<Rightarrow> bytes" where
  "submission_digest kind sz envelope ciphertext =
     sha256 (''{'' @ quoted ''kind'' @ '':'' @ quoted kind @ '','' @ quoted ''size_bytes'' @ '':'' @ itoa (nat sz) @
       '','' @ quoted ''envelope'' @ '':'' @ envelope_json envelope @ '','' @ quoted ''ciphertext'' @ '':'' @
       quoted ciphertext @ ''}'')"

definition submitted_row :: "bytes \<Rightarrow> bytes \<Rightarrow> submit_input \<Rightarrow> envelope \<Rightarrow> request_row \<Rightarrow> request_row" where
  "submitted_row attempt bodyHash inp envelope r =
     r\<lparr>r_state := ''submitted'', r_attempt_token_hash := Some attempt, r_attempt_body_hash := Some bodyHash,
       r_kind := Some (si_Kind inp), r_size_bytes := Some (si_SizeBytes inp), r_envelope := Some envelope\<rparr>"

definition Submit ::
  "request_store \<Rightarrow> env \<Rightarrow> string \<Rightarrow> string \<Rightarrow> submit_input \<Rightarrow> api \<Rightarrow> (request_error + receipt) \<times> api" where
  "Submit st e i token inp s =
     (case validateSubmission st inp of
        Inl err \<Rightarrow> (Inl err, s)
      | Inr (attempt, envelope, ciphertext) \<Rightarrow>
        let bodyHash = submission_digest (si_Kind inp) (si_SizeBytes inp) envelope (si_Ciphertext inp);
            accepted = \<lparr>rec_Generation = si_Generation inp, rec_State = ''submitted''\<rparr> in
        (case beginTx st e 0 i token False s of
           (Inl err, s0) \<Rightarrow> (Inl err, s0)
         | (Inr row, s0) \<Rightarrow>
             if si_Generation inp \<noteq> rr_generation row then (Inl ErrUnavailable, s0)
             else if rr_state row = ''uploading'' then (Inl ErrConflict, s0)
             else if rr_state row \<noteq> ''waiting'' then
               (case (if fails e ''read attempt'' then None else request_of s0 i) of
                  None \<Rightarrow> (Inl (ErrRequest ''read attempt''), s0)
                | Some r \<Rightarrow>
                    if Some attempt \<noteq> r_attempt_token_hash r \<or> Some bodyHash \<noteq> r_attempt_body_hash r
                    then (Inl ErrConflict, s0)
                    else (case commit_error e 20 (rr_expires row) of
                            Some err \<Rightarrow> (Inl err, s0)
                          | None \<Rightarrow> (Inr accepted, s0)))
             else let p = (\<lambda>r. r_id r = i \<and> r_state r = ''waiting'' \<and> r_generation r = si_Generation inp) in
               (case exec e ''submit request'' (update_requests p (submitted_row attempt bodyHash inp envelope) s0) of
                  None \<Rightarrow> (Inl (ErrRequest ''submit request''), s0)
                | Some s1 \<Rightarrow>
               (case requireTransition (fails e) (sql_count p (requests s0)) of
                  Inl err \<Rightarrow> (Inl err, s0)
                | Inr _ \<Rightarrow>
               (case exec e ''insert request payload''
                       (insert_request_payload \<lparr>rp_request_id = i, rp_ciphertext = ciphertext\<rparr> s1) of
                  None \<Rightarrow> (Inl (ErrRequest ''insert request payload''), s0)
                | Some s2 \<Rightarrow>
               (case commit_error e 20 (rr_expires row) of
                  Some err \<Rightarrow> (Inl err, s0)
                | None \<Rightarrow> (Inr accepted, s2)))))))"

definition Attempt ::
  "request_store \<Rightarrow> env \<Rightarrow> string \<Rightarrow> string \<Rightarrow> int \<Rightarrow> string \<Rightarrow> api \<Rightarrow> (request_error + receipt) \<times> api" where
  "Attempt st e i token generation attemptToken s =
     (if generation < 1 \<or> generation > MaxGeneration then (Inl ErrInvalid, s)
      else (case tokenHash attemptToken of
        Inl err \<Rightarrow> (Inl err, s)
      | Inr attempt \<Rightarrow>
        (case beginTx st e 0 i token False s of
           (Inl err, s0) \<Rightarrow> (Inl err, s0)
         | (Inr row, s0) \<Rightarrow>
             if generation \<noteq> rr_generation row then (Inl ErrUnavailable, s0)
             else (case (if fails e ''read attempt'' then None else request_of s0 i) of
                     None \<Rightarrow> (Inl (ErrRequest ''read attempt''), s0)
                   | Some r \<Rightarrow>
                       let state = (if Some attempt = r_attempt_token_hash r
                                    then (if rr_state row = ''uploading'' then ''uploading'' else ''accepted'')
                                    else if rr_state row = ''waiting'' then ''waiting'' else ''unavailable'') in
                       (case commit_error e 20 (rr_expires row) of
                          Some err \<Rightarrow> (Inl err, s0)
                        | None \<Rightarrow> (Inr \<lparr>rec_Generation = generation, rec_State = state\<rparr>, s0))))))"

subsection \<open>Opening and revoking\<close>

record opened =
  op_Kind :: string
  op_SizeBytes :: int
  op_Envelope :: envelope
  op_Body :: bytes
  op_ObjectKey :: string

definition cleared_row :: "string \<Rightarrow> time \<Rightarrow> request_row \<Rightarrow> request_row" where
  "cleared_row state now r =
     r\<lparr>r_state := state,
       r_attempt_token_hash := (if r_state r = ''uploading'' then None else r_attempt_token_hash r),
       r_attempt_body_hash := (if r_state r = ''uploading'' then None else r_attempt_body_hash r),
       r_kind := None, r_size_bytes := None, r_envelope := None, r_upload_key := None, r_final_key := None,
       r_reservation_expires_at := None, r_ciphertext_sha256 := None,
       r_consumed_at := (if state = ''consumed'' then Some now else r_consumed_at r)\<rparr>"

definition clearPayloadTx ::
  "request_store \<Rightarrow> env \<Rightarrow> string \<Rightarrow> string \<Rightarrow> string \<Rightarrow> string \<Rightarrow> api \<Rightarrow> (request_error + unit) \<times> api" where
  "clearPayloadTx st e i previousState state reason s =
     (case enqueueRequestKeysTx (rq_hasOutbox st) (rq_subject st) e i reason (clock e 21) s of
        (Inl err, s1) \<Rightarrow> (Inl err, s1)
      | (Inr _, s1) \<Rightarrow>
        if fails e ''delete request payload'' then (Inl (ErrRequest ''delete request payload''), s1)
        else let s2 = s1\<lparr>request_payloads := sql_delete (\<lambda>q. rp_request_id q = i) (request_payloads s1)\<rparr>;
                 p = (\<lambda>r. r_id r = i \<and> r_state r = previousState) in
          (case exec e ''clear request'' (update_requests p (cleared_row state (clock e 22)) s2) of
             None \<Rightarrow> (Inl (ErrRequest ''clear request''), s2)
           | Some s3 \<Rightarrow> (requireTransition (fails e) (sql_count p (requests s2)), s3)))"

definition consumed_row :: "time \<Rightarrow> request_row \<Rightarrow> request_row" where
  "consumed_row now r =
     r\<lparr>r_state := ''consumed'', r_consumed_at := Some now, r_kind := None, r_size_bytes := None,
       r_envelope := None, r_ciphertext_sha256 := None\<rparr>"

definition consumeObject ::
  "request_store \<Rightarrow> env \<Rightarrow> string \<Rightarrow> string \<Rightarrow> string \<Rightarrow> api \<Rightarrow> (request_error + unit) \<times> api" where
  "consumeObject st e i token key s =
     (case beginTx st e 0 i token True s of
        (Inl err, s0) \<Rightarrow> (Inl err, s0)
      | (Inr row, s0) \<Rightarrow>
        if rr_state row \<noteq> ''submitted'' then (Inl ErrConflict, s0)
        else let p = (\<lambda>r. r_id r = i \<and> r_state r = ''submitted'' \<and> r_final_key r = Some key) in
          (case exec e ''consume request'' (update_requests p (consumed_row (clock e 20)) s0) of
             None \<Rightarrow> (Inl (ErrRequest ''consume request''), s0)
           | Some s1 \<Rightarrow>
          (case requireTransition (fails e) (sql_count p (requests s0)) of
             Inl err \<Rightarrow> (Inl err, s0)
           | Inr _ \<Rightarrow>
          (case commit_error e 21 (rr_expires row) of
             Some err \<Rightarrow> (Inl err, s0)
           | None \<Rightarrow> (Inr (), s1)))))"

text \<open>\<open>meanwhile\<close> is what other operations commit while an object is read outside the transaction, and
  \<open>e2\<close> the environment of the second transaction.\<close>

definition OpenRequest ::
  "request_store \<Rightarrow> s3 \<Rightarrow> (api \<Rightarrow> api) \<Rightarrow> env \<Rightarrow> env \<Rightarrow> string \<Rightarrow> string \<Rightarrow> api \<Rightarrow>
   (request_error + opened) \<times> api" where
  "OpenRequest st svc meanwhile e e2 i token s =
     (case beginTx st e 0 i token True s of
        (Inl err, s0) \<Rightarrow> (Inl err, s0)
      | (Inr row, s0) \<Rightarrow>
        if rr_state row \<noteq> ''submitted'' then (Inl ErrConflict, s0)
        else (case (if fails e ''read submission'' then None else request_of s0 i) of
          None \<Rightarrow> (Inl (ErrRequest ''read submission''), s0)
        | Some r \<Rightarrow>
        (case (r_kind r, r_size_bytes r, r_envelope r) of
          (Some kind, Some sz, Some envelope) \<Rightarrow>
            if r_storage_backend r \<noteq> StorageS3 then
              (let ciphertext = (case sql_row (\<lambda>q. rp_request_id q = i) (request_payloads s0) of
                    None \<Rightarrow> [] | Some q \<Rightarrow> rp_ciphertext q) in
               if int (length ciphertext) \<noteq> sz then (Inl ErrStorage, s0)
               else (case clearPayloadTx st e i (rr_state row) ''consumed'' ReasonConsumed s0 of
                 (Inl err, _) \<Rightarrow> (Inl err, s0)
               | (Inr _, s1) \<Rightarrow>
                   (case commit_error e 20 (rr_expires row) of
                      Some err \<Rightarrow> (Inl err, s0)
                    | None \<Rightarrow> (Inr \<lparr>op_Kind = kind, op_SizeBytes = sz, op_Envelope = envelope,
                                    op_Body = ciphertext, op_ObjectKey = []\<rparr>, s1))))
            else (case r_final_key r of
              None \<Rightarrow> (Inl ErrStorage, meanwhile s0)
            | Some key \<Rightarrow>
                if \<not> rq_hasObjects st \<or> sz < 0 \<or> sz > rq_MaxObjectBytes st then (Inl ErrStorage, meanwhile s0)
                else (case Open svc key of
                  Inl _ \<Rightarrow> (Inl ErrStorage, meanwhile s0)
                | Inr (body, n) \<Rightarrow>
                    if n \<noteq> sz then (Inl ErrStorage, meanwhile s0)
                    else (case consumeObject st e2 i token key (meanwhile s0) of
                      (Inl err, s1) \<Rightarrow> (Inl err, s1)
                    | (Inr _, s1) \<Rightarrow>
                        (Inr \<lparr>op_Kind = kind, op_SizeBytes = sz, op_Envelope = envelope, op_Body = body,
                              op_ObjectKey = key\<rparr>, s1))))
        | _ \<Rightarrow> (Inl (ErrRequest ''read submission''), s0))))"

definition FinishOpen ::
  "request_store \<Rightarrow> env \<Rightarrow> string \<Rightarrow> string \<Rightarrow> api \<Rightarrow> request_error option \<times> api" where
  "FinishOpen st e i key s =
     (let p = (\<lambda>r. r_id r = i \<and> r_state r = ''consumed'' \<and> r_final_key r = Some key) in
      if fails e ''begin request tx'' then (Some (ErrRequest ''begin request tx''), s)
      else (case exec e ''release final key'' (update_requests p (\<lambda>r. r\<lparr>r_final_key := None\<rparr>) s) of
        None \<Rightarrow> (Some (ErrRequest ''release final key''), s)
      | Some s1 \<Rightarrow>
          if fails e ''read release rows'' then (Some (ErrRequest ''read release rows''), s)
          else if sql_count p (requests s) = 0 then (None, s)
          else (case enqueueObjectTx (rq_hasOutbox st) (rq_subject st) e key ReasonConsumed (clock e 20) s1 of
            (Inl err, _) \<Rightarrow> (Some err, s)
          | (Inr _, s2) \<Rightarrow>
              (case commit_error e 21 0 of Some err \<Rightarrow> (Some err, s) | None \<Rightarrow> (None, s2)))))"

definition RevokeRequest ::
  "request_store \<Rightarrow> env \<Rightarrow> string \<Rightarrow> string \<Rightarrow> api \<Rightarrow> request_error option \<times> api" where
  "RevokeRequest st e i token s =
     (case beginTx st e 0 i token True s of
        (Inl err, s0) \<Rightarrow> (Some err, s0)
      | (Inr row, s0) \<Rightarrow>
        if rr_state row = ''consumed'' then (Some ErrConflict, s0)
        else (case clearPayloadTx st e i (rr_state row) ''cancelled'' ReasonManual s0 of
          (Inl err, _) \<Rightarrow> (Some err, s0)
        | (Inr _, s1) \<Rightarrow>
            (case commit_error e 20 (rr_expires row) of Some err \<Rightarrow> (Some err, s0) | None \<Rightarrow> (None, s1))))"

subsection \<open>Uploads\<close>

record upload_input =
  ui_Generation :: int
  ui_AttemptToken :: string
  ui_Kind :: string
  ui_SizeBytes :: int
  ui_Envelope :: raw_json
  ui_CiphertextSHA256 :: string

record attempt_input =
  ai_Generation :: int
  ai_AttemptToken :: string

record upload_result =
  ur_Generation :: int
  ur_State :: string
  ur_Upload :: "upload_instruction option"
  ur_ReservationExpiresAt :: "time option"

definition validateAttempt :: "attempt_input \<Rightarrow> request_error + bytes" where
  "validateAttempt inp =
     (if ai_Generation inp < 1 \<or> ai_Generation inp > MaxGeneration then Inl ErrInvalid
      else tokenHash (ai_AttemptToken inp))"

text \<open>\<open>objectAttemptTx\<close> reads the attempt's columns of the row; the row itself carries them here.\<close>

definition objectAttemptTx :: "env \<Rightarrow> string \<Rightarrow> api \<Rightarrow> request_error + request_row" where
  "objectAttemptTx e i s =
     (if fails e ''read attempt'' then Inl (ErrRequest ''read attempt'')
      else (case request_of s i of None \<Rightarrow> Inl (ErrRequest ''read attempt'') | Some r \<Rightarrow> Inr r))"

definition upload_digest :: "string \<Rightarrow> int \<Rightarrow> envelope \<Rightarrow> string \<Rightarrow> bytes" where
  "upload_digest kind sz envelope checksum =
     sha256 (''{'' @ quoted ''kind'' @ '':'' @ quoted kind @ '','' @ quoted ''size_bytes'' @ '':'' @ itoa (nat sz) @
       '','' @ quoted ''envelope'' @ '':'' @ envelope_json envelope @ '','' @ quoted ''ciphertext_sha256'' @ '':'' @
       quoted checksum @ ''}'')"

definition uploading_row ::
  "bytes \<Rightarrow> bytes \<Rightarrow> int \<Rightarrow> envelope \<Rightarrow> bytes \<Rightarrow> string \<Rightarrow> string \<Rightarrow> time \<Rightarrow> request_row \<Rightarrow> request_row" where
  "uploading_row attempt digest sz envelope checksum uploadKey finalKey deadline r =
     r\<lparr>r_state := ''uploading'', r_storage_backend := StorageS3, r_attempt_token_hash := Some attempt,
       r_attempt_body_hash := Some digest, r_kind := Some ''file'', r_size_bytes := Some sz,
       r_envelope := Some envelope, r_ciphertext_sha256 := Some checksum, r_upload_key := Some uploadKey,
       r_final_key := Some finalKey, r_reservation_expires_at := Some deadline\<rparr>"

text \<open>The first part of \<open>Reserve\<close> inside the transaction: a new reservation, or the caller's own one again.
  The result is the reservation deadline, or \<open>None\<close> for an attempt that is already past uploading.\<close>

definition reserveTx ::
  "request_store \<Rightarrow> env \<Rightarrow> string \<Rightarrow> upload_input \<Rightarrow> bytes \<Rightarrow> envelope \<Rightarrow> bytes \<Rightarrow> request_record \<Rightarrow> api \<Rightarrow>
   (request_error + time option) \<times> api" where
  "reserveTx st e i inp attempt envelope checksum row s0 =
     (let digest = upload_digest (ui_Kind inp) (ui_SizeBytes inp) envelope (ui_CiphertextSHA256 inp) in
      if rr_state row \<noteq> ''waiting'' then
        (case objectAttemptTx e i s0 of
           Inl err \<Rightarrow> (Inl err, s0)
         | Inr a \<Rightarrow>
             if Some attempt \<noteq> r_attempt_token_hash a \<or> Some digest \<noteq> r_attempt_body_hash a
             then (Inl ErrConflict, s0)
             else if rr_state row \<noteq> ''uploading'' then (Inr None, s0)
             else (Inr (Some (rr_reservationExpires row)), s0))
      else if \<not> rq_hasObjects st then (Inl ErrStorage, s0)
      else (case draw e ''object keys'' of
        None \<Rightarrow> (Inl (ErrRequest ''random''), s0)
      | Some random \<Rightarrow>
        let uploadKey = ObjectPrefix @ rawurl_encode (take 16 random) @ ''/upload'';
            finalKey = ObjectPrefix @ rawurl_encode (drop 16 random) @ ''/final'';
            deadline = (if rr_expires row < clock e 20 + ReservationTTL then rr_expires row
                        else clock e 20 + ReservationTTL);
            p = (\<lambda>r. r_id r = i \<and> r_state r = ''waiting'' \<and> r_generation r = ui_Generation inp) in
        (case exec e ''reserve request''
                (update_requests p (uploading_row attempt digest (ui_SizeBytes inp) envelope checksum uploadKey
                   finalKey deadline) s0) of
           None \<Rightarrow> (Inl (ErrRequest ''reserve request''), s0)
         | Some s1 \<Rightarrow>
             (case requireTransition (fails e) (sql_count p (requests s0)) of
                Inl err \<Rightarrow> (Inl err, s1)
              | Inr _ \<Rightarrow> (Inr (Some deadline), s1)))))"

definition Reserve ::
  "request_store \<Rightarrow> s3 \<Rightarrow> env \<Rightarrow> string \<Rightarrow> string \<Rightarrow> upload_input \<Rightarrow> api \<Rightarrow>
   (request_error + upload_result) \<times> api" where
  "Reserve st svc e i token inp s =
     (case validateAttempt \<lparr>ai_Generation = ui_Generation inp, ai_AttemptToken = ui_AttemptToken inp\<rparr> of
        Inl err \<Rightarrow> (Inl err, s)
      | Inr attempt \<Rightarrow>
        if ui_Kind inp \<noteq> ''file'' \<or> ui_SizeBytes inp < int (length AgeMagic) then (Inl ErrInvalid, s)
        else if ui_SizeBytes inp > rq_MaxObjectBytes st then (Inl ErrTooLarge, s)
        else (case validateEnvelope (ui_Envelope inp) (ui_Kind inp) of
          Inl err \<Rightarrow> (Inl err, s)
        | Inr envelope \<Rightarrow>
        (case canonicalBase64 (ui_CiphertextSHA256 inp) 32 32 of
          None \<Rightarrow> (Inl ErrInvalid, s)
        | Some checksum \<Rightarrow>
        (case beginTx st e 0 i token False s of
          (Inl err, s0) \<Rightarrow> (Inl err, s0)
        | (Inr row, s0) \<Rightarrow>
          if rr_generation row \<noteq> ui_Generation inp then (Inl ErrUnavailable, s0)
          else (case reserveTx st e i inp attempt envelope checksum row s0 of
            (Inl err, _) \<Rightarrow> (Inl err, s0)
          | (Inr None, s1) \<Rightarrow>
              (case commit_error e 21 (rr_expires row) of
                 Some err \<Rightarrow> (Inl err, s0)
               | None \<Rightarrow> (Inr \<lparr>ur_Generation = rr_generation row, ur_State = ''submitted'', ur_Upload = None,
                               ur_ReservationExpiresAt = None\<rparr>, s1))
          | (Inr (Some deadline), s1) \<Rightarrow>
              (case objectAttemptTx e i s1 of
                 Inl err \<Rightarrow> (Inl err, s0)
               | Inr a \<Rightarrow>
              (case (if rq_hasObjects st then r_upload_key a else None) of
                 None \<Rightarrow> (Inl ErrStorage, s0)
               | Some uploadKey \<Rightarrow>
              (case commit_error e 21 (rr_expires row) of
                 Some err \<Rightarrow> (Inl err, s0)
               | None \<Rightarrow>
                   let ttl = deadline - clock e 22 in
                   if ttl \<le> 0 then (Inl ErrUnavailable, s1)
                   else (case PresignPUT svc (clock e 23) uploadKey (ui_SizeBytes inp) ttl of
                     Inl _ \<Rightarrow> (Inl ErrStorage, s1)
                   | Inr instruction \<Rightarrow>
                       (Inr \<lparr>ur_Generation = rr_generation row, ur_State = ''uploading'',
                             ur_Upload = Some (instruction\<lparr>UploadExpiresAt := deadline\<rparr>),
                             ur_ReservationExpiresAt = Some deadline\<rparr>, s1))))))))))"

text \<open>The verified copy: the uploaded object goes to the final key only when it has the reserved length and
  checksum and is an age file. The second component is what was sent to the bucket. A copy that gets no
  slot before its caller gives up is the fault \<open>copy slot\<close>.\<close>

definition copyVerified ::
  "s3 \<Rightarrow> env \<Rightarrow> request_row \<Rightarrow> (request_error option) \<times> (string \<times> bytes) option" where
  "copyVerified svc e a =
     (if fails e ''copy slot'' then (Some ErrStorage, None)
      else (case Open svc (case r_upload_key a of None \<Rightarrow> [] | Some k \<Rightarrow> k) of
        Inl _ \<Rightarrow> (Some ErrStorage, None)
      | Inr (body, n) \<Rightarrow>
          if Some n \<noteq> r_size_bytes a then (Some ErrInvalid, None)
          else (case PutStream (fails e) svc (case r_final_key a of None \<Rightarrow> [] | Some k \<Rightarrow> k)
                  (take (nat n) body) n
                  (\<lambda>b. if \<not> isAgeFile (take (length AgeMagic) b) \<or> Some (sha256 b) \<noteq> r_ciphertext_sha256 a
                       then Some ErrInvalid else None) of
            (None, w) \<Rightarrow> (None, w)
          | (Some (Inr err), w) \<Rightarrow> (Some err, w)
          | (Some (Inl _), w) \<Rightarrow> (Some ErrStorage, w))))"

definition accepted_row :: "request_row \<Rightarrow> request_row" where
  "accepted_row r = r\<lparr>r_state := ''submitted'', r_upload_key := None, r_reservation_expires_at := None\<rparr>"

text \<open>The part both transactions of a finalize share for a row that is past uploading.\<close>

definition settled_receipt :: "env \<Rightarrow> nat \<Rightarrow> request_record \<Rightarrow> request_error + receipt" where
  "settled_receipt e k row =
     (if rr_state row \<notin> {''submitted'', ''consumed'', ''cancelled''} then Inl ErrConflict
      else (case commit_error e k (rr_expires row) of
              Some err \<Rightarrow> Inl err
            | None \<Rightarrow> Inr \<lparr>rec_Generation = rr_generation row, rec_State = ''submitted''\<rparr>))"

definition finalizeAttempt ::
  "request_store \<Rightarrow> env \<Rightarrow> string \<Rightarrow> string \<Rightarrow> attempt_input \<Rightarrow> request_row \<Rightarrow> bytes \<Rightarrow> api \<Rightarrow>
   (request_error + receipt) \<times> api" where
  "finalizeAttempt st e i token inp a attempt s =
     (case beginTx st e 0 i token False s of
        (Inl err, s0) \<Rightarrow> (Inl err, s0)
      | (Inr row, s0) \<Rightarrow>
        (case objectAttemptTx e i s0 of
           Inl err \<Rightarrow> (Inl err, s0)
         | Inr current \<Rightarrow>
             if ai_Generation inp \<noteq> rr_generation row then (Inl ErrUnavailable, s0)
             else if Some attempt \<noteq> r_attempt_token_hash current then (Inl ErrConflict, s0)
             else if rr_state row \<noteq> ''uploading'' then (settled_receipt e 20 row, s0)
             else if r_final_key current \<noteq> r_final_key a \<or> r_ciphertext_sha256 current \<noteq> r_ciphertext_sha256 a
             then (Inl ErrConflict, s0)
             else let p = (\<lambda>r. r_id r = i \<and> r_state r = ''uploading'' \<and> r_generation r = ai_Generation inp \<and>
                        r_final_key r = Some (case r_final_key a of None \<Rightarrow> [] | Some k \<Rightarrow> k)) in
               (case exec e ''accept request'' (update_requests p accepted_row s0) of
                  None \<Rightarrow> (Inl (ErrRequest ''accept request''), s0)
                | Some s1 \<Rightarrow>
               (case requireTransition (fails e) (sql_count p (requests s0)) of
                  Inl err \<Rightarrow> (Inl err, s0)
                | Inr _ \<Rightarrow>
               (case enqueueObjectTx (rq_hasOutbox st) (rq_subject st) e
                       (case r_upload_key a of None \<Rightarrow> [] | Some k \<Rightarrow> k) ReasonOrphan (clock e 21) s1 of
                  (Inl err, _) \<Rightarrow> (Inl err, s0)
                | (Inr _, s2) \<Rightarrow>
                    if \<not> clock e 22 < rr_reservationExpires row then (Inl ErrUnavailable, s0)
                    else (case commit_error e 23 (rr_expires row) of
                      Some err \<Rightarrow> (Inl err, s0)
                    | None \<Rightarrow> (Inr \<lparr>rec_Generation = rr_generation row, rec_State = ''submitted''\<rparr>, s2)))))))"

text \<open>The calls in flight, by request id (\<open>finalizing\<close>): each is at its copy and second transaction, with what
  its own first transaction read. A call that finds another one in flight for the same id waits for it
  and returns its receipt and error, without a copy or a second transaction of its own. The key is the
  id alone: the call in flight may belong to another generation.\<close>

record finalize_call =
  fc_s3 :: s3
  fc_env :: env
  fc_token :: string
  fc_input :: attempt_input
  fc_row :: request_row
  fc_attempt :: bytes

definition await_call :: "request_store \<Rightarrow> string \<Rightarrow> finalize_call \<Rightarrow> api \<Rightarrow> (request_error + receipt) \<times> api" where
  "await_call st i call s =
     (case fst (copyVerified (fc_s3 call) (fc_env call) (fc_row call)) of
        Some err \<Rightarrow> (Inl err, s)
      | None \<Rightarrow> finalizeAttempt st (fc_env call) i (fc_token call) (fc_input call) (fc_row call) (fc_attempt call) s)"

text \<open>Finalizing: the attempt is checked in one transaction, the object is copied outside of it, and the
  request is accepted in a second one. The third component is what the copy sent to the bucket. A caller
  that gives up while it waits for another call is the fault \<open>await finalize\<close>.\<close>

definition FinalizeRequest ::
  "request_store \<Rightarrow> s3 \<Rightarrow> (string \<rightharpoonup> finalize_call) \<Rightarrow> (api \<Rightarrow> api) \<Rightarrow> env \<Rightarrow> env \<Rightarrow> string \<Rightarrow> string \<Rightarrow>
   attempt_input \<Rightarrow> api \<Rightarrow> ((request_error + receipt) \<times> api) \<times> (string \<times> bytes) option" where
  "FinalizeRequest st svc finalizing meanwhile e e2 i token inp s =
     (case validateAttempt inp of
        Inl err \<Rightarrow> ((Inl err, s), None)
      | Inr attempt \<Rightarrow>
        (case beginTx st e 0 i token False s of
           (Inl err, s0) \<Rightarrow> ((Inl err, s0), None)
         | (Inr row, s0) \<Rightarrow>
           (case objectAttemptTx e i s0 of
              Inl err \<Rightarrow> ((Inl err, s0), None)
            | Inr a \<Rightarrow>
                if ai_Generation inp \<noteq> rr_generation row then ((Inl ErrUnavailable, s0), None)
                else if Some attempt \<noteq> r_attempt_token_hash a then ((Inl ErrConflict, s0), None)
                else if rr_state row \<noteq> ''uploading'' then ((settled_receipt e 20 row, s0), None)
                else if \<not> rq_hasObjects st \<or> r_upload_key a = None \<or> r_final_key a = None \<or>
                  (case r_size_bytes a of None \<Rightarrow> True | Some n \<Rightarrow> n < 0 \<or> n > rq_MaxObjectBytes st)
                then ((Inl ErrStorage, s0), None)
                else (case commit_error e 20 (rr_expires row) of
                  Some err \<Rightarrow> ((Inl err, s0), None)
                | None \<Rightarrow>
                    (case finalizing i of
                       Some call \<Rightarrow>
                         if fails e2 ''await finalize'' then ((Inl (ErrRequest ''await finalize''), meanwhile s0), None)
                         else (await_call st i call (meanwhile s0), None)
                     | None \<Rightarrow>
                         (case copyVerified svc e2 a of
                            (Some err, w) \<Rightarrow> ((Inl err, meanwhile s0), w)
                          | (None, w) \<Rightarrow> (finalizeAttempt st e2 i token inp a attempt (meanwhile s0), w)))))))"

definition Abandon ::
  "request_store \<Rightarrow> env \<Rightarrow> string \<Rightarrow> string \<Rightarrow> attempt_input \<Rightarrow> api \<Rightarrow> (request_error + receipt) \<times> api" where
  "Abandon st e i token inp s =
     (case validateAttempt inp of
        Inl err \<Rightarrow> (Inl err, s)
      | Inr attempt \<Rightarrow>
        (case beginTx st e 0 i token False s of
           (Inl err, s0) \<Rightarrow> (Inl err, s0)
         | (Inr row, s0) \<Rightarrow>
             if rr_generation row \<noteq> ai_Generation inp then (Inl ErrUnavailable, s0)
             else (case objectAttemptTx e i s0 of
               Inl err \<Rightarrow> (Inl err, s0)
             | Inr a \<Rightarrow>
                 if rr_state row \<noteq> ''uploading'' \<or> Some attempt \<noteq> r_attempt_token_hash a then (Inl ErrConflict, s0)
                 else (case endReservationTx (rq_hasOutbox st) (rq_subject st) e i (rr_generation row) (clock e 20) s0 of
                   (Inl err, _) \<Rightarrow> (Inl err, s0)
                 | (Inr _, s1) \<Rightarrow>
                     (case commit_error e 21 (rr_expires row) of
                        Some err \<Rightarrow> (Inl err, s0)
                      | None \<Rightarrow>
                          if rr_generation row = MaxGeneration then (Inl ErrUnavailable, s1)
                          else (Inr \<lparr>rec_Generation = rr_generation row + 1, rec_State = ''waiting''\<rparr>, s1))))))"

end
