(* ===== verification/Request_Lifecycle.thy ===== *)
theory Request_Lifecycle
  imports Request_Store
begin

text \<open>
  The life of a request link as a step relation on its row, the abstract life cycle (state and
  generation) it refines, and the proof that every operation of the request store moves rows only along
  these steps.
\<close>

subsection \<open>Steps of a row\<close>

text \<open>The object keys a request may own.\<close>

definition request_key :: "string \<Rightarrow> bool" where
  "request_key k \<longleftrightarrow> hasPrefix k ObjectPrefix \<and> k \<noteq> ObjectPrefix"

inductive request_step :: "request_row \<Rightarrow> request_row \<Rightarrow> bool" where
  submit: "r_state r = ''waiting'' \<Longrightarrow> request_step r (submitted_row attempt digest inp envelope r)"
| reserve: "r_state r = ''waiting'' \<Longrightarrow> request_key uploadKey \<Longrightarrow> request_key finalKey \<Longrightarrow>
    request_step r (uploading_row attempt digest sz envelope checksum uploadKey finalKey deadline r)"
| accept: "r_state r = ''uploading'' \<Longrightarrow> request_step r (accepted_row r)"
| end_reservation: "r_state r = ''uploading'' \<Longrightarrow> r_generation r = g \<Longrightarrow> request_step r (ended_row g r)"
| cancel: "r_state r \<notin> {''consumed'', ''unavailable''} \<Longrightarrow> request_step r (cleared_row ''cancelled'' now r)"
| open_inline: "r_state r = ''submitted'' \<Longrightarrow> request_step r (cleared_row ''consumed'' now r)"
| open_object: "r_state r = ''submitted'' \<Longrightarrow> request_step r (consumed_row now r)"
| release: "r_state r = ''consumed'' \<Longrightarrow> request_step r (r\<lparr>r_final_key := None\<rparr>)"

lemmas request_rows = submitted_row_def uploading_row_def accepted_row_def ended_row_def cleared_row_def
  consumed_row_def

lemma request_step_id: "request_step r r' \<Longrightarrow> r_id r' = r_id r"
  by (induction rule: request_step.induct) (simp_all add: request_rows)

text \<open>The columns no step touches.\<close>

lemma request_step_fixed:
  "request_step r r' \<Longrightarrow> r_public_key r' = r_public_key r \<and> r_fingerprint r' = r_fingerprint r \<and>
     r_submission_token_hash r' = r_submission_token_hash r \<and> r_retrieval_token_hash r' = r_retrieval_token_hash r \<and>
     r_expires_at r' = r_expires_at r"
  by (induction rule: request_step.induct) (simp_all add: request_rows)

subsection \<open>The abstract life cycle\<close>

type_synonym stage = "string \<times> int"

definition stage_of :: "request_row \<Rightarrow> stage" where
  "stage_of r = (r_state r, r_generation r)"

inductive life :: "stage \<Rightarrow> stage \<Rightarrow> bool" where
  life_submit: "life (''waiting'', g) (''submitted'', g)"
| life_reserve: "life (''waiting'', g) (''uploading'', g)"
| life_accept: "life (''uploading'', g) (''submitted'', g)"
| life_next: "g \<noteq> MaxGeneration \<Longrightarrow> life (''uploading'', g) (''waiting'', g + 1)"
| life_exhausted: "life (''uploading'', MaxGeneration) (''unavailable'', MaxGeneration)"
| life_cancel: "st \<notin> {''consumed'', ''unavailable''} \<Longrightarrow> life (st, g) (''cancelled'', g)"
| life_open: "life (''submitted'', g) (''consumed'', g)"

lemma request_step_refines: "request_step r r' \<Longrightarrow> life\<^sup>=\<^sup>= (stage_of r) (stage_of r')"
proof (induction rule: request_step.induct)
  case (end_reservation r g)
  then show ?case
    by (cases "g = MaxGeneration")
      (auto simp: stage_of_def request_rows intro: life_next life_exhausted)
qed (auto simp: stage_of_def request_rows intro: life.intros)

inductive_cases life_from_consumed: "life (''consumed'', g) st"
inductive_cases life_from_unavailable: "life (''unavailable'', g) st"
inductive_cases life_from_cancelled: "life (''cancelled'', g) st"

lemma life_rank:
  "life st st' \<Longrightarrow> snd st \<le> snd st' \<and> (fst st = ''consumed'' \<longrightarrow> fst st' = ''consumed'')"
  by (induction rule: life.induct) auto

lemma life_rtrancl:
  assumes "life\<^sup>*\<^sup>* st st'"
  shows "snd st \<le> snd st'"
    and "fst st = ''consumed'' \<Longrightarrow> st' = st"
    and "fst st = ''unavailable'' \<Longrightarrow> st' = st"
    and "fst st = ''cancelled'' \<Longrightarrow> st' = st"
  using assms
proof (induction rule: rtranclp_induct)
  case (step y z)
  {
    case 1
    then show ?case using step life_rank [OF step.hyps(2)] by auto
  next
    case 2
    then show ?case using step by (cases st) (auto elim: life_from_consumed)
  next
    case 3
    then show ?case using step by (cases st) (auto elim: life_from_unavailable)
  next
    case 4
    then show ?case using step by (cases st) (auto elim: life_from_cancelled)
  }
qed simp_all

subsection \<open>The invariant of the request tables\<close>

text \<open>What holds of a row beyond the CHECK clauses: only a consumed row has a consumption time, object keys
  lie below the request prefix and belong to states that use them, and an object waits for its owner
  only in the bucket.\<close>

definition request_row_ok :: "request_row \<Rightarrow> bool" where
  "request_row_ok r \<longleftrightarrow>
     (r_consumed_at r \<noteq> None \<longleftrightarrow> r_state r = ''consumed'') \<and>
     (\<forall>k. r_upload_key r = Some k \<or> r_final_key r = Some k \<longrightarrow> request_key k) \<and>
     (r_upload_key r \<noteq> None \<longrightarrow> r_state r = ''uploading'') \<and>
     (r_final_key r \<noteq> None \<longrightarrow> r_state r \<in> {''uploading'', ''submitted'', ''consumed''} \<and> r_storage_backend r = StorageS3) \<and>
     (r_state r = ''uploading'' \<longrightarrow> r_storage_backend r = StorageS3) \<and>
     (r_state r = ''waiting'' \<longrightarrow> r_storage_backend r = StorageSQLite \<and> r_attempt_token_hash r = None)"

lemma request_step_row_ok: "request_step r r' \<Longrightarrow> request_row_ok r \<Longrightarrow> request_row_ok r'"
  by (induction rule: request_step.induct) (auto simp: request_row_ok_def request_rows)

text \<open>A row waits with its body in the payload table.\<close>

definition inline_waiting :: "request_row \<Rightarrow> bool" where
  "inline_waiting r \<longleftrightarrow> r_state r = ''submitted'' \<and> r_storage_backend r = StorageSQLite"

lemma not_inline [simp]:
  "\<not> inline_waiting (ended_row g r)" "\<not> inline_waiting (consumed_row now r)"
  "\<not> inline_waiting (uploading_row a d sz v c u f t r)"
  "r_state r = ''consumed'' \<Longrightarrow> \<not> inline_waiting (r\<lparr>r_final_key := k\<rparr>)"
  "r_state r = ''uploading'' \<Longrightarrow> request_row_ok r \<Longrightarrow> \<not> inline_waiting (accepted_row r)"
  by (auto simp: inline_waiting_def request_rows request_row_ok_def)

definition has_body :: "request_payload_row list \<Rightarrow> request_row \<Rightarrow> bool" where
  "has_body t r \<longleftrightarrow> (\<exists>q\<in>set t. rp_request_id q = r_id r \<and> r_size_bytes r = Some (int (length (rp_ciphertext q))))"

definition requests_ok :: "api \<Rightarrow> bool" where
  "requests_ok s \<longleftrightarrow> distinct (map r_id (requests s)) \<and> request_constraints (requests s) \<and>
     list_all request_row_ok (requests s) \<and> distinct (map rp_request_id (request_payloads s)) \<and>
     (\<forall>q\<in>set (request_payloads s). rp_request_id q \<in> r_id ` set (requests s)) \<and>
     (\<forall>r\<in>set (requests s). inline_waiting r \<longrightarrow> has_body (request_payloads s) r)"

lemma requests_ok_MigrateAPI: "requests_ok MigrateAPI"
  by (simp add: requests_ok_def MigrateAPI_def Let_def request_constraints_def List.map_filter_def)

lemma requests_ok_cong:
  "requests s' = requests s \<Longrightarrow> request_payloads s' = request_payloads s \<Longrightarrow> requests_ok s' = requests_ok s"
  by (simp add: requests_ok_def)

lemma requests_ok_distinct: "requests_ok s \<Longrightarrow> distinct (map r_id (requests s))"
  by (simp add: requests_ok_def)

lemma requests_ok_row:
  "requests_ok s \<Longrightarrow> r \<in> set (requests s) \<Longrightarrow> request_row_ok r \<and> request_check r"
  by (simp add: requests_ok_def request_constraints_def list_all_iff)

lemma requests_ok_update:
  assumes "requests_ok s" "request_constraints (sql_update p f (requests s))"
    "\<And>r. p r \<Longrightarrow> request_step r (f r)"
    "\<And>r. r \<in> set (requests s) \<Longrightarrow> p r \<Longrightarrow> inline_waiting (f r) \<Longrightarrow> has_body ps (f r)"
    "\<And>r. r \<in> set (requests s) \<Longrightarrow> \<not> p r \<Longrightarrow> has_body (request_payloads s) r \<Longrightarrow> has_body ps r"
    "distinct (map rp_request_id ps)" "\<forall>q\<in>set ps. rp_request_id q \<in> r_id ` set (requests s)"
    "requests s' = sql_update p f (requests s)" "request_payloads s' = ps"
  shows "requests_ok s'"
proof -
  have ids: "map r_id (requests s') = map r_id (requests s)"
    using assms(3,8) by (auto simp: sql_update_def dest: request_step_id)
  then have "r_id ` set (requests s') = r_id ` set (requests s)"
    by (metis list.set_map)
  with ids assms show ?thesis
    by (auto simp: requests_ok_def list_all_iff set_update intro: request_step_row_ok [OF assms(3)])
qed

subsection \<open>Evolution of the table\<close>

text \<open>All rows are kept, each moved along its steps, and the invariant is kept. The operations that create
  or purge requests are treated apart.\<close>

definition evolves :: "api \<Rightarrow> api \<Rightarrow> bool" where
  "evolves s s' \<longleftrightarrow> list_all2 request_step\<^sup>*\<^sup>* (requests s) (requests s') \<and> (requests_ok s \<longrightarrow> requests_ok s')"

lemma evolves_refl [simp]: "evolves s s"
  by (simp add: evolves_def list_all2_refl)

lemma evolves_trans [trans]: "evolves s1 s2 \<Longrightarrow> evolves s2 s3 \<Longrightarrow> evolves s1 s3"
proof -
  assume "evolves s1 s2" "evolves s2 s3"
  moreover have "list_all2 request_step\<^sup>*\<^sup>* (requests s1) (requests s3)"
    if "list_all2 request_step\<^sup>*\<^sup>* (requests s1) (requests s2)" "list_all2 request_step\<^sup>*\<^sup>* (requests s2) (requests s3)"
    using that by - (erule (1) list_all2_trans [rotated], rule rtranclp_trans)
  ultimately show "evolves s1 s3" by (simp add: evolves_def)
qed

lemma evolves_same: "requests s' = requests s \<Longrightarrow> request_payloads s' = request_payloads s \<Longrightarrow> evolves s s'"
  using requests_ok_cong [of s' s] by (simp add: evolves_def list_all2_refl)

lemma evolves_step:
  assumes "requests s' = sql_update p f (requests s)" "\<And>r. p r \<Longrightarrow> request_step r (f r)"
    "requests_ok s \<Longrightarrow> requests_ok s'"
  shows "evolves s s'"
  using assms by (auto simp: evolves_def sql_update_def list_all2_map2 list_all2_same)

text \<open>An update that neither starts nor ends the waiting of an inline body.\<close>

lemma evolves_update:
  assumes "update_requests p f s = Some s'" "\<And>r. p r \<Longrightarrow> request_step r (f r)"
    "\<And>r. p r \<Longrightarrow> request_row_ok r \<Longrightarrow> request_check r \<Longrightarrow> \<not> inline_waiting (f r)"
  shows "evolves s s'"
proof -
  have u: "requests s' = sql_update p f (requests s)" "request_constraints (sql_update p f (requests s))"
    "request_payloads s' = request_payloads s"
    using assms(1) by (auto simp: update_requests_def Let_def split: if_splits)
  show ?thesis
  proof (rule evolves_step [OF u(1) assms(2)])
    assume ok: "requests_ok s"
    show "requests_ok s'"
      by (rule requests_ok_update [OF ok u(2) assms(2) _ _ _ _ u(1,3)])
        (use ok assms(3) in \<open>auto simp: requests_ok_def request_constraints_def list_all_iff\<close>)
  qed
qed

lemma request_steps_id: "request_step\<^sup>*\<^sup>* r r' \<Longrightarrow> r_id r' = r_id r"
  by (induction rule: rtranclp_induct) (auto dest: request_step_id)

lemma evolves_rows: "evolves s s' \<Longrightarrow> list_all2 request_step\<^sup>*\<^sup>* (requests s) (requests s')"
  by (simp add: evolves_def)

lemma evolves_ok: "evolves s s' \<Longrightarrow> requests_ok s \<Longrightarrow> requests_ok s'"
  by (simp add: evolves_def)

lemma evolves_ids: "evolves s s' \<Longrightarrow> map r_id (requests s') = map r_id (requests s)"
  by (drule evolves_rows, induction rule: list_all2_induct) (auto dest: request_steps_id)

lemma evolves_row:
  assumes "evolves s s'" "request_of s i = Some r"
  obtains r' where "request_of s' i = Some r'" "request_step\<^sup>*\<^sup>* r r'"
proof -
  have "list_all2 request_step\<^sup>*\<^sup>* ts ts' \<Longrightarrow> sql_row (\<lambda>r. r_id r = i) ts = Some r \<Longrightarrow>
     \<exists>r'. sql_row (\<lambda>r. r_id r = i) ts' = Some r' \<and> request_step\<^sup>*\<^sup>* r r'" for ts ts'
    by (induction rule: list_all2_induct) (auto simp: sql_row_def dest: request_steps_id split: if_splits)
  from this [OF evolves_rows [OF assms(1)] assms(2)] that show thesis
    by blast
qed

lemma request_steps_fixed:
  "request_step\<^sup>*\<^sup>* r r' \<Longrightarrow> r_public_key r' = r_public_key r \<and> r_fingerprint r' = r_fingerprint r \<and>
     r_submission_token_hash r' = r_submission_token_hash r \<and> r_retrieval_token_hash r' = r_retrieval_token_hash r \<and>
     r_expires_at r' = r_expires_at r"
  by (induction rule: rtranclp_induct) (auto dest: request_step_fixed)

lemma request_steps_life: "request_step\<^sup>*\<^sup>* r r' \<Longrightarrow> life\<^sup>*\<^sup>* (stage_of r) (stage_of r')"
  by (induction rule: rtranclp_induct) (auto dest!: request_step_refines)

subsection \<open>The transaction helpers\<close>

lemma enqueue_event_frame:
  "enqueue_event subject now io ev s = (r, s') \<Longrightarrow> requests s' = requests s \<and> request_payloads s' = request_payloads s"
  by (auto simp: enqueue_event_def split: prod.splits)

lemma enqueueObjectTx_frame:
  "enqueueObjectTx b subject e key reason now s = (r, s') \<Longrightarrow>
   requests s' = requests s \<and> request_payloads s' = request_payloads s"
  by (auto simp: enqueueObjectTx_def dest: enqueue_event_frame split: if_splits option.splits prod.splits sum.splits)

lemma enqueue_keys_frame:
  "enqueue_keys b subject e reason now ks s = (r, s') \<Longrightarrow>
   requests s' = requests s \<and> request_payloads s' = request_payloads s"
  by (induction b subject e reason now ks s rule: enqueue_keys.induct)
    (auto dest: enqueueObjectTx_frame split: prod.splits sum.splits)

lemma enqueueRequestKeysTx_frame:
  "enqueueRequestKeysTx b subject e i reason now s = (r, s') \<Longrightarrow>
   requests s' = requests s \<and> request_payloads s' = request_payloads s"
  by (auto simp: enqueueRequestKeysTx_def dest: enqueue_keys_frame split: if_splits option.splits)

lemma requireTransition_Inr: "requireTransition io n = Inr u \<Longrightarrow> n = 1"
  by (auto simp: requireTransition_def split: if_splits)

lemma endReservationTx_evolves:
  assumes "endReservationTx b subject e i g now s = (res, s')"
  shows "evolves s s'"
proof -
  obtain r1 s1 where 1: "enqueueRequestKeysTx b subject e i ReasonOrphan now s = (r1, s1)"
    by fastforce
  have e1: "evolves s s1"
    using enqueueRequestKeysTx_frame [OF 1] by (simp add: evolves_same)
  show ?thesis
  proof (cases "s' = s1")
    case False
    then have "update_requests (\<lambda>r. r_id r = i \<and> r_state r = ''uploading'' \<and> r_generation r = g) (ended_row g) s1 = Some s'"
      using assms 1 by (auto simp: endReservationTx_def Let_def exec_Some split: sum.splits option.splits)
    then have "evolves s1 s'"
      by (rule evolves_update) (auto intro: request_step.end_reservation)
    with e1 show ?thesis by (rule evolves_trans)
  qed (use e1 in simp)
qed

lemma endReservationTx_Inr:
  assumes "endReservationTx b subject e i g now s = (Inr u, s')" "distinct (map r_id (requests s))"
  obtains r where "request_of s i = Some r" "r_state r = ''uploading''" "r_generation r = g"
    "request_of s' i = Some (ended_row g r)"
proof -
  let ?p = "\<lambda>r. r_id r = i \<and> r_state r = ''uploading'' \<and> r_generation r = g"
  from assms(1) obtain s1 v where 1: "enqueueRequestKeysTx b subject e i ReasonOrphan now s = (Inr v, s1)"
    "update_requests ?p (ended_row g) s1 = Some s'" "sql_count ?p (requests s1) = 1"
    by (auto simp: endReservationTx_def Let_def exec_Some dest: requireTransition_Inr
        split: prod.splits sum.splits option.splits)
  have fr: "requests s1 = requests s"
    using enqueueRequestKeysTx_frame [OF 1(1)] by simp
  obtain r where r: "r \<in> set (requests s)" "r_id r = i" "r_state r = ''uploading'' \<and> r_generation r = g"
    "request_of s i = Some r"
    using sql_count_1_row [OF assms(2), of i "\<lambda>r. r_state r = ''uploading'' \<and> r_generation r = g"] 1(3) fr by auto
  have "requests s' = sql_update ?p (ended_row g) (requests s)"
    using 1(2) fr by (auto simp: update_requests_def Let_def split: if_splits)
  then have "request_of s' i = Some (ended_row g r)"
    using r by (simp add: sql_row_update [where key = r_id] ended_row_def)
  with r that show thesis by auto
qed

lemma authorized_Inr:
  assumes "authorized io now i hash owner s = Inr row"
  obtains r where "request_of s i = Some r" "row = record_of r" "hash = capability owner r"
    "r_state r \<noteq> ''unavailable''" "now < r_expires_at r"
  using assms by (auto simp: authorized_def split: if_splits option.splits)

lemma distinct_ids_evolves: "evolves s s' \<Longrightarrow> distinct (map r_id (requests s)) \<Longrightarrow> distinct (map r_id (requests s'))"
  by (metis evolves_ids)

lemma begin_n_evolves:
  "begin_n n st e k i token owner s = Some (res, s') \<Longrightarrow> evolves s s'"
proof (induction n arbitrary: k s)
  case (Suc n)
  from Suc.prems show ?case
    by (auto split: sum.splits if_splits prod.splits option.splits
        dest!: Suc.IH endReservationTx_evolves intro: evolves_trans)
qed simp

lemma begin_n_Inr:
  assumes "begin_n n st e k i token owner s = Some (Inr row, s')"
  shows "\<exists>r hash m. tokenHash token = Inr hash \<and> request_of s' i = Some r \<and> row = record_of r \<and>
    hash = capability owner r \<and> r_state r \<noteq> ''unavailable'' \<and> clock e m < r_expires_at r \<and>
    (r_state r = ''uploading'' \<longrightarrow> clock e (m + 1) < rr_reservationExpires (record_of r))"
  using assms
proof (induction n arbitrary: k s)
  case (Suc n)
  from Suc.prems obtain hash row0 where h: "tokenHash token = Inr hash"
    and a: "authorized (fails e) (clock e k) i hash owner s = Inr row0"
    by (auto split: sum.splits if_splits)
  from a obtain r where r: "request_of s i = Some r" "row0 = record_of r" "hash = capability owner r"
    "r_state r \<noteq> ''unavailable''" "clock e k < r_expires_at r"
    by (rule authorized_Inr)
  show ?case
  proof (cases "rr_state row0 = ''uploading'' \<and> \<not> clock e (k + 1) < rr_reservationExpires row0")
    case True
    with Suc.prems h a obtain s1 where "begin_n n st e (k + 4) i token owner s1 = Some (Inr row, s')"
      by (auto split: sum.splits if_splits prod.splits option.splits)
    then show ?thesis by (rule Suc.IH)
  next
    case False
    with Suc.prems h a have "row = row0" "s' = s"
      by (auto split: if_splits)
    with False h r show ?thesis
      by (auto simp: record_of_def)
  qed
qed simp

lemma begin_enough:
  assumes "distinct (map r_id (requests s))"
  shows "begin_n 2 st e k i token owner s \<noteq> None \<and>
    begin_n (Suc (Suc n)) st e k i token owner s = begin_n 2 st e k i token owner s"
proof -
  have one: "\<exists>res. begin_n (Suc m) st e k' i token owner s1 = Some res \<and>
      begin_n 1 st e k' i token owner s1 = Some res"
    if "request_of s1 i = Some r" "r_state r \<noteq> ''uploading''" for m k' s1 r
    using that by (auto simp: authorized_def record_of_def split: sum.splits)
  have ended: "r_state (ended_row g r) \<noteq> ''uploading''" for g r
    by (simp add: ended_row_def)
  have "\<exists>res. begin_n (Suc m) st e k' i token owner s1 = Some res \<and> begin_n 1 st e k' i token owner s1 = Some res"
    if "endReservationTx b sub e i g now s = (Inr u, s1)" for b sub g now u s1 m k'
    by (rule endReservationTx_Inr [OF that assms]) (rule one, assumption, rule ended)
  then have step: "\<exists>res. begin_n (Suc m) st e k' i token owner s1 = Some res \<and> begin_n (Suc 0) st e k' i token owner s1 = Some res"
    if "endReservationTx b sub e i g now s = (Inr u, s1)" for b sub g now u s1 m k'
    using that by simp
  show ?thesis
  proof (cases "\<exists>hash row u s1. tokenHash token = Inr hash \<and> \<not> fails e ''begin request tx'' \<and> \<not> fails e ''lock request'' \<and>
      authorized (fails e) (clock e k) i hash owner s = Inr row \<and>
      rr_state row = ''uploading'' \<and> \<not> clock e (k + 1) < rr_reservationExpires row \<and>
      endReservationTx (rq_hasOutbox st) (rq_subject st) e i (rr_generation row) (clock e (k + 2)) s = (Inr u, s1) \<and>
      commit_error e (k + 3) (rr_expires row) = None")
    case True
    then obtain hash row u s1 where t: "tokenHash token = Inr hash" "\<not> fails e ''begin request tx''"
      "\<not> fails e ''lock request''" "authorized (fails e) (clock e k) i hash owner s = Inr row"
      "rr_state row = ''uploading''" "\<not> clock e (k + 1) < rr_reservationExpires row"
      "endReservationTx (rq_hasOutbox st) (rq_subject st) e i (rr_generation row) (clock e (k + 2)) s = (Inr u, s1)"
      "commit_error e (k + 3) (rr_expires row) = None"
      by blast
    then have eq: "begin_n (Suc m) st e k i token owner s = begin_n m st e (k + 4) i token owner s1" for m
      by simp
    obtain res where "begin_n (Suc n) st e (k + 4) i token owner s1 = Some res"
      "begin_n (Suc 0) st e (k + 4) i token owner s1 = Some res"
      using step [OF t(7)] by blast
    then show ?thesis
      by (simp only: eq numeral_2_eq_2) simp
  next
    case False
    then show ?thesis
      by (auto simp: numeral_2_eq_2 split: sum.splits prod.splits option.splits)
  qed
qed

subsection \<open>Every operation moves rows along their steps\<close>

lemma beginTx_begin_n:
  "distinct (map r_id (requests s)) \<Longrightarrow> begin_n 2 st e k i token owner s = Some (beginTx st e k i token owner s)"
  using begin_enough [of s st e k i token owner 0] by (simp add: beginTx_def)

lemma beginTx_evolves:
  "beginTx st e k i token owner s = (res, s') \<Longrightarrow> distinct (map r_id (requests s)) \<Longrightarrow> evolves s s'"
  by (metis beginTx_begin_n begin_n_evolves)

lemma evolves_row_update:
  assumes "update_requests p f s = Some s1" "requests s' = requests s1" "request_payloads s' = request_payloads s1"
    "\<And>r. p r \<Longrightarrow> request_step r (f r)"
    "\<And>r. p r \<Longrightarrow> request_row_ok r \<Longrightarrow> request_check r \<Longrightarrow> \<not> inline_waiting (f r)"
  shows "evolves s s'"
  using evolves_update [OF assms(1,4,5)] evolves_same [OF assms(2,3)] by (rule evolves_trans)

lemma has_body_delete: "has_body t r \<Longrightarrow> r_id r \<noteq> i \<Longrightarrow> has_body (sql_delete (\<lambda>q. rp_request_id q = i) t) r"
  by (auto simp: has_body_def)

lemma clearPayloadTx_evolves:
  assumes "clearPayloadTx st e i prev state reason s = (Inr u, s')" "state \<noteq> ''submitted''"
    and "\<And>r. r_state r = prev \<Longrightarrow> request_step r (cleared_row state (clock e 22) r)"
    and "distinct (map r_id (requests s))"
  shows "evolves s s'"
proof -
  let ?p = "\<lambda>r. r_id r = i \<and> r_state r = prev" and ?f = "cleared_row state (clock e 22)"
  let ?ps = "sql_delete (\<lambda>q. rp_request_id q = i) (request_payloads s)"
  from assms(1) obtain v s1 where 1: "enqueueRequestKeysTx (rq_hasOutbox st) (rq_subject st) e i reason (clock e 21) s = (Inr v, s1)"
    and up: "update_requests ?p ?f (s1\<lparr>request_payloads := sql_delete (\<lambda>q. rp_request_id q = i) (request_payloads s1)\<rparr>) = Some s'"
    and cnt: "sql_count ?p (requests s1) = 1"
    by (auto simp: clearPayloadTx_def Let_def exec_Some dest: requireTransition_Inr
        split: sum.splits option.splits if_splits prod.splits)
  have fr: "requests s1 = requests s" "request_payloads s1 = request_payloads s"
    using enqueueRequestKeysTx_frame [OF 1] by simp_all
  have u: "requests s' = sql_update ?p ?f (requests s)" "request_constraints (sql_update ?p ?f (requests s))"
    "request_payloads s' = ?ps"
    using up fr by (auto simp: update_requests_def Let_def split: if_splits)
  obtain x where x: "x \<in> set (requests s)" "r_id x = i" "r_state x = prev"
    by (rule sql_count_1_row [OF assms(4), of i "\<lambda>r. r_state r = prev"]) (use cnt fr in auto)
  have other: "r_id r \<noteq> i" if "r \<in> set (requests s)" "\<not> ?p r" for r
    using that x assms(4) by (auto simp: distinct_map inj_on_def)
  show ?thesis
  proof (rule evolves_step [OF u(1)])
    assume ok: "requests_ok s"
    show "requests_ok s'"
      by (rule requests_ok_update [OF ok u(2) _ _ _ _ _ u(1,3)])
        (use ok assms(2,3) other in \<open>auto simp: requests_ok_def inline_waiting_def cleared_row_def distinct_delete
           intro: has_body_delete\<close>)
  qed (use assms(3) in auto)
qed

lemma insert_request_payload_frame: "insert_request_payload p s = Some s' \<Longrightarrow> requests s' = requests s"
  by (auto simp: insert_request_payload_def split: if_splits)


lemma submitted_evolves:
  assumes "update_requests p (submitted_row a d inp v) s = Some s1"
    "insert_request_payload \<lparr>rp_request_id = i, rp_ciphertext = c\<rparr> s1 = Some s'"
    "si_SizeBytes inp = int (length c)" and p: "\<And>r. p r \<longleftrightarrow> r_id r = i \<and> r_state r = ''waiting'' \<and> r_generation r = g"
  shows "evolves s s'"
proof -
  let ?f = "submitted_row a d inp v" and ?ps = "request_payloads s @ [\<lparr>rp_request_id = i, rp_ciphertext = c\<rparr>]"
  have u: "requests s' = sql_update p ?f (requests s)" "request_constraints (sql_update p ?f (requests s))"
    "request_payloads s' = ?ps" "i \<notin> rp_request_id ` set (request_payloads s)" "request_of s' i \<noteq> None"
    using assms(1,2) by (auto simp: update_requests_def insert_request_payload_def Let_def sql_insert_Some split: if_splits)
  have i: "i \<in> r_id ` set (requests s)"
    using u(5) unfolding u(1) by (auto simp: sql_row_None set_update submitted_row_def split: if_splits)
  have st: "request_step r (?f r)" if "p r" for r
    using that p by (auto intro: request_step.submit)
  show ?thesis
  proof (rule evolves_step [OF u(1) st])
    assume ok: "requests_ok s"
    show "requests_ok s'"
      by (rule requests_ok_update [OF ok u(2) st _ _ _ _ u(1,3)])
        (use ok i u(4) assms(3) p in \<open>auto simp: requests_ok_def has_body_def submitted_row_def\<close>)
  qed
qed

lemma Submit_evolves:
  assumes "distinct (map r_id (requests s))"
  shows "evolves s (snd (Submit st e i token inp s))"
proof -
  obtain b s0 where b: "beginTx st e 0 i token False s = (b, s0)" by fastforce
  have e0: "evolves s s0"
    using b assms by (rule beginTx_evolves)
  have sz: "si_SizeBytes inp = int (length c)" if "validateSubmission st inp = Inr (a, v, c)" for a v c
    using that by (auto simp: validateSubmission_def canonicalBase64_Some split: if_splits sum.splits option.splits
        dest: canonicalBase64_Some)
  have "evolves s s'" if "validateSubmission st inp = Inr (a, v, c)"
    "update_requests (\<lambda>r. r_id r = i \<and> r_state r = ''waiting'' \<and> r_generation r = g) (submitted_row a d inp v) s0 = Some s1"
    "insert_request_payload \<lparr>rp_request_id = i, rp_ciphertext = c\<rparr> s1 = Some s'" for g a d v s1 c s'
    using e0 submitted_evolves [OF that(2,3) sz [OF that(1)]] by (rule evolves_trans) simp
  with b e0 show ?thesis
    by (auto simp: Submit_def Let_def exec_Some split: sum.splits option.splits if_splits prod.splits)
qed

lemma Attempt_evolves:
  assumes "distinct (map r_id (requests s))"
  shows "evolves s (snd (Attempt st e i token g attempt s))"
  by (auto simp: Attempt_def Let_def dest: beginTx_evolves [OF _ assms]
      split: sum.splits option.splits if_splits prod.splits)

lemma read_request_evolves:
  assumes "distinct (map r_id (requests s))" "read_request st e i token owner s = (res, s')"
  shows "evolves s s'"
  using assms(2) by (auto simp: read_request_def dest: beginTx_evolves [OF _ assms(1)]
      split: sum.splits option.splits if_splits prod.splits)

lemma Instructions_evolves:
  "distinct (map r_id (requests s)) \<Longrightarrow> evolves s (snd (Instructions st e i token s))"
  by (auto simp: Instructions_def dest: read_request_evolves split: sum.splits prod.splits)

lemma Owner_evolves:
  "distinct (map r_id (requests s)) \<Longrightarrow> evolves s (snd (Owner st e i token s))"
  by (auto simp: Owner_def dest: read_request_evolves split: sum.splits prod.splits)

lemma consumeObject_evolves:
  assumes "distinct (map r_id (requests s))"
  shows "evolves s (snd (consumeObject st e i token key s))"
proof -
  obtain b s0 where b: "beginTx st e 0 i token True s = (b, s0)" by fastforce
  have e0: "evolves s s0"
    using b assms by (rule beginTx_evolves)
  have "evolves s0 s1" if "update_requests (\<lambda>r. r_id r = i \<and> r_state r = ''submitted'' \<and> r_final_key r = Some key)
      (consumed_row now) s0 = Some s1" for now s1
    using that by (rule evolves_update) (auto intro: request_step.open_object)
  with b e0 show ?thesis
    by (auto simp: consumeObject_def Let_def exec_Some intro: evolves_trans
        split: sum.splits option.splits if_splits prod.splits)
qed

lemma cleared_steps:
  "r_state r = ''submitted'' \<Longrightarrow> request_step r (cleared_row ''consumed'' now r)"
  "r_state r = st \<Longrightarrow> st \<notin> {''consumed'', ''unavailable''} \<Longrightarrow> request_step r (cleared_row ''cancelled'' now r)"
  by (auto intro: request_step.intros)

lemma OpenRequest_evolves:
  assumes "distinct (map r_id (requests s))" "\<And>t. evolves s t \<Longrightarrow> evolves t (meanwhile t)"
  shows "evolves s (snd (OpenRequest st svc meanwhile e e2 i token s))"
proof -
  obtain b s0 where b: "beginTx st e 0 i token True s = (b, s0)" by fastforce
  have e0: "evolves s s0"
    using b assms(1) by (rule beginTx_evolves)
  have m: "evolves s (meanwhile s0)"
    using e0 assms(2) by (blast intro: evolves_trans)
  have c: "evolves s s1" if "consumeObject st e2 i token key (meanwhile s0) = (r, s1)" for key r s1
    using consumeObject_evolves [of "meanwhile s0" st e2 i token key] distinct_ids_evolves [OF m assms(1)] m that
    by (auto intro: evolves_trans)
  have i: "evolves s s1" if "clearPayloadTx st e i ''submitted'' ''consumed'' reason s0 = (Inr u, s1)" for reason u s1
    using e0 by (rule evolves_trans)
      (rule clearPayloadTx_evolves [OF that _ cleared_steps(1) distinct_ids_evolves [OF e0 assms(1)]], simp_all)
  show ?thesis
    using b e0 m by (auto simp: OpenRequest_def Let_def dest: c i
        split: sum.splits option.splits if_splits prod.splits)
qed

lemma FinishOpen_evolves: "evolves s (snd (FinishOpen st e i key s))"
proof -
  have "evolves s s2" if "update_requests (\<lambda>r. r_id r = i \<and> r_state r = ''consumed'' \<and> r_final_key r = Some key)
      (\<lambda>r. r\<lparr>r_final_key := None\<rparr>) s = Some s1" "enqueueObjectTx b sub e key reason now s1 = (x, s2)"
    for s1 b sub reason now x s2
    using that(1) enqueueObjectTx_frame [OF that(2), THEN conjunct1] enqueueObjectTx_frame [OF that(2), THEN conjunct2]
    by (rule evolves_row_update) (auto intro: request_step.release)
  then show ?thesis
    by (auto simp: FinishOpen_def Let_def exec_Some split: sum.splits option.splits if_splits prod.splits)
qed

lemma beginTx_Inr:
  assumes "beginTx st e k i token owner s = (Inr row, s')" "distinct (map r_id (requests s))"
  obtains r hash m where "tokenHash token = Inr hash" "request_of s' i = Some r" "row = record_of r"
    "hash = capability owner r" "r_state r \<noteq> ''unavailable''" "clock e m < r_expires_at r"
    "r_state r = ''uploading'' \<longrightarrow> clock e (m + 1) < rr_reservationExpires (record_of r)"
proof -
  have "begin_n 2 st e k i token owner s = Some (Inr row, s')"
    using beginTx_begin_n [OF assms(2)] assms(1) by metis
  from begin_n_Inr [OF this] that show thesis by blast
qed

lemma RevokeRequest_evolves:
  assumes "distinct (map r_id (requests s))"
  shows "evolves s (snd (RevokeRequest st e i token s))"
proof -
  obtain b s0 where b: "beginTx st e 0 i token True s = (b, s0)" by fastforce
  have e0: "evolves s s0"
    using b assms by (rule beginTx_evolves)
  show ?thesis
  proof (cases "\<exists>row. b = Inr row \<and> rr_state row \<noteq> ''consumed''")
    case True
    then obtain row where row: "b = Inr row" "rr_state row \<noteq> ''consumed''" by blast
    have "rr_state row \<noteq> ''unavailable''"
      by (rule beginTx_Inr [OF b [unfolded row(1)] assms]) (simp add: record_of_def)
    note live = this
    have "evolves s s1" if "clearPayloadTx st e i (rr_state row) ''cancelled'' reason s0 = (Inr u, s1)" for reason u s1
      using e0 by (rule evolves_trans)
        (rule clearPayloadTx_evolves [OF that _ cleared_steps(2) [where st = "rr_state row"] distinct_ids_evolves [OF e0 assms]],
          use row(2) live in auto)
    with b row e0 show ?thesis
      by (auto simp: RevokeRequest_def split: sum.splits option.splits prod.splits)
  qed (use b e0 in \<open>auto simp: RevokeRequest_def split: sum.splits\<close>)
qed

lemma reserveTx_evolves: "reserveTx st e i inp attempt envelope checksum row s = (res, s') \<Longrightarrow> evolves s s'"
proof -
  have key: "request_key (ObjectPrefix @ x @ ''/upload'')" "request_key (ObjectPrefix @ x @ ''/final'')" for x
    by (simp_all add: request_key_def)
  have "evolves s s1" if "update_requests (\<lambda>r. r_id r = i \<and> r_state r = ''waiting'' \<and> r_generation r = g)
      (uploading_row a d sz v c (ObjectPrefix @ x @ ''/upload'') (ObjectPrefix @ y @ ''/final'') t) s = Some s1"
    for g a d sz v c x y t s1
    using that by (rule evolves_update) (auto intro: request_step.reserve key)
  then show "reserveTx st e i inp attempt envelope checksum row s = (res, s') \<Longrightarrow> evolves s s'"
    unfolding reserveTx_def Let_def
    by (auto simp: exec_Some split: sum.splits option.splits if_splits prod.splits)
qed

lemma Reserve_evolves:
  assumes "distinct (map r_id (requests s))"
  shows "evolves s (snd (Reserve st svc e i token inp s))"
proof -
  obtain b s0 where b: "beginTx st e 0 i token False s = (b, s0)" by fastforce
  have e0: "evolves s s0"
    using b assms by (rule beginTx_evolves)
  have "evolves s s1" if "reserveTx st e i inp a v c row s0 = (r, s1)" for a v c row r s1
    using e0 reserveTx_evolves [OF that] by (rule evolves_trans)
  with b e0 show ?thesis
    by (auto simp: Reserve_def Let_def split: sum.splits option.splits prod.splits)
qed

lemma finalizeAttempt_evolves:
  assumes "distinct (map r_id (requests s))"
  shows "evolves s (snd (finalizeAttempt st e i token inp a attempt s))"
proof -
  obtain b s0 where b: "beginTx st e 0 i token False s = (b, s0)" by fastforce
  have e0: "evolves s s0"
    using b assms by (rule beginTx_evolves)
  have "evolves s s2" if "update_requests (\<lambda>r. r_id r = i \<and> r_state r = ''uploading'' \<and> r_generation r = g \<and>
      r_final_key r = k) accepted_row s0 = Some s1" "enqueueObjectTx b' sub e key reason now s1 = (x, s2)"
    for g k s1 b' sub key reason now x s2
    using e0 evolves_row_update [OF that(1) enqueueObjectTx_frame [OF that(2), THEN conjunct1]
        enqueueObjectTx_frame [OF that(2), THEN conjunct2]]
    by (rule evolves_trans) (auto intro: request_step.accept)
  with b e0 show ?thesis
    unfolding finalizeAttempt_def Let_def
    by (auto simp: exec_Some split: sum.splits option.splits prod.splits)
qed

lemma await_call_evolves:
  assumes "distinct (map r_id (requests s))"
  shows "evolves s (snd (await_call st i call s))"
  using finalizeAttempt_evolves [OF assms] by (simp add: await_call_def split: option.split)

lemma FinalizeRequest_evolves:
  assumes "distinct (map r_id (requests s))" "\<And>t. evolves s t \<Longrightarrow> evolves t (meanwhile t)"
  shows "evolves s (snd (fst (FinalizeRequest st svc finalizing meanwhile e e2 i token inp s)))"
proof -
  obtain b s0 where b: "beginTx st e 0 i token False s = (b, s0)" by fastforce
  have e0: "evolves s s0"
    using b assms(1) by (rule beginTx_evolves)
  have m: "evolves s (meanwhile s0)"
    using e0 assms(2) by (blast intro: evolves_trans)
  have f: "evolves s (snd (finalizeAttempt st e2 i token inp a attempt (meanwhile s0)))" for a attempt
    using m finalizeAttempt_evolves [OF distinct_ids_evolves [OF m assms(1)]] by (rule evolves_trans)
  have c: "evolves s (snd (await_call st i call (meanwhile s0)))" for call
    using m await_call_evolves [OF distinct_ids_evolves [OF m assms(1)]] by (rule evolves_trans)
  show ?thesis
    using b e0 m f c by (auto simp: FinalizeRequest_def split: sum.splits option.splits prod.splits)
qed

lemma Abandon_evolves:
  assumes "distinct (map r_id (requests s))"
  shows "evolves s (snd (Abandon st e i token inp s))"
proof -
  obtain b s0 where b: "beginTx st e 0 i token False s = (b, s0)" by fastforce
  have e0: "evolves s s0"
    using b assms by (rule beginTx_evolves)
  have "evolves s s1" if "endReservationTx b' sub e i g now s0 = (r, s1)" for b' sub g now r s1
    using e0 endReservationTx_evolves [OF that] by (rule evolves_trans)
  with b e0 show ?thesis
    by (auto simp: Abandon_def split: sum.splits option.splits prod.splits)
qed

end
