(* ===== verification/Reconciliation.thy ===== *)
theory Reconciliation
  imports Secret_Input
begin

text \<open>
  What the two bucket scans share (internal/secrets/reconciliation.go and internal/requests/cleanup.go):
  the loop over one listed page inside the scan's transaction, and its contract. A key outside the
  scanned prefix or protected by a row is skipped; any other gets a pending claim and one delete job,
  unless a claim for it is still pending. A fault is asked for per key, because each key has its own
  statements. \<open>protect\<close> is the protection query of the component that scans.
\<close>

definition orphan_job :: "string \<Rightarrow> string \<Rightarrow> time \<Rightarrow> job_event" where
  "orphan_job jobID key now =
     \<lparr>JobID = jobID, JobKind = KindDeleteOCIObject, SecretID = [], ObjectKey = key, Reason = ReasonOrphan,
      RequestedAt = now\<rparr>"

fun reconcile_keys ::
  "string \<Rightarrow> (string \<Rightarrow> string + bool) \<Rightarrow> bool \<Rightarrow> string \<Rightarrow> env \<Rightarrow> time \<Rightarrow> string list \<Rightarrow>
   pending_row list \<times> outbox \<Rightarrow> (string + nat) \<times> (pending_row list \<times> outbox)" where
  "reconcile_keys prefix protect outb subject e now [] st = (Inr 0, st)"
| "reconcile_keys prefix protect outb subject e now (key # keys) st =
     (if \<not> hasPrefix key prefix \<or> key = prefix
      then reconcile_keys prefix protect outb subject e now keys st
      else (case protect key of
        Inl err \<Rightarrow> (Inl err, st)
      | Inr live \<Rightarrow>
        if live then reconcile_keys prefix protect outb subject e now keys st
        else (case NewJobID e (''reconcile '' @ key) of
          None \<Rightarrow> (Inl ''generate job id'', st)
        | Some jobID \<Rightarrow>
          if fails e (''claim object cleanup '' @ key) then (Inl ''claim object cleanup'', st)
          else (case insert_pending \<lparr>pend_object_key = key, pend_job_id = jobID\<rparr> (fst st) of (n, pending) \<Rightarrow>
            if fails e (''read claim rows '' @ key) then (Inl ''read claim rows'', (pending, snd st))
            else if n = 0 then reconcile_keys prefix protect outb subject e now keys (pending, snd st)
            else if \<not> outb then (Inl ''outbox is required'', (pending, snd st))
            else (case EnqueueTx subject (clock e 9) (\<lambda>l. fails e (l @ '' '' @ key)) (orphan_job jobID key now) (snd st) of
              (Inl _, t) \<Rightarrow> (Inl ''enqueue reconciled object'', (pending, t))
            | (Inr _, t) \<Rightarrow>
                (case reconcile_keys prefix protect outb subject e now keys (pending, t) of
                   (Inl err, st') \<Rightarrow> (Inl err, st')
                 | (Inr k, st') \<Rightarrow> (Inr (k + 1), st')))))))"

subsection \<open>What a page adds\<close>

text \<open>Claims are one per key and one per job.\<close>

definition pending_ok :: "pending_row list \<Rightarrow> bool" where
  "pending_ok t \<longleftrightarrow> distinct (map pend_object_key t) \<and> distinct (map pend_job_id t)"

lemma pending_ok_Nil [simp]: "pending_ok []"
  by (simp add: pending_ok_def)

lemma insert_pending_ok: "pending_ok t \<Longrightarrow> insert_pending p t = (n, t') \<Longrightarrow> pending_ok t'"
  by (auto simp: insert_pending_def pending_ok_def split: if_splits)

lemma insert_pending_cases:
  assumes "insert_pending p t = (n, t')"
  obtains (kept) "n = 0" "t' = t" "pend_object_key p \<in> pend_object_key ` set t \<or> pend_job_id p \<in> pend_job_id ` set t"
  | (claimed) "n = 1" "t' = t @ [p]" "pend_object_key p \<notin> pend_object_key ` set t" "pend_job_id p \<notin> pend_job_id ` set t"
  using assms by (auto simp: insert_pending_def split: if_splits)

lemma pending_ok_delete: "pending_ok t \<Longrightarrow> pending_ok (sql_delete p t)"
  by (simp add: pending_ok_def distinct_delete)

text \<open>A claim and the job queued for it.\<close>

definition claim_for :: "string \<Rightarrow> time \<Rightarrow> pending_row \<Rightarrow> outbox_row \<Rightarrow> bool" where
  "claim_for subject now p r \<longleftrightarrow> o_id r = pend_job_id p \<and> o_state r = StatePending \<and> o_subject r = subject \<and>
     o_payload r = orphan_job (pend_job_id p) (pend_object_key p) now"

lemma EnqueueTx_append:
  assumes "EnqueueTx subject at io ev t = (Inr row, t')"
  shows "t' = t @ [row] \<and> o_payload row = ev \<and> o_id row = JobID ev \<and> o_state row = StatePending \<and> o_subject row = subject"
  using assms by (auto simp: EnqueueTx_def JobEvent_JSON_def sql_insert_Some Let_def
      split: sum.splits if_splits option.splits)

lemma reconcile_keys_step:
  assumes "reconcile_keys prefix protect outb subject e now (key # keys) (pend, ob) = (Inr n, (pend', ob'))"
  obtains (skip) "reconcile_keys prefix protect outb subject e now keys (pend, ob) = (Inr n, (pend', ob'))"
  | (claim) p row k where "hasPrefix key prefix" "key \<noteq> prefix" "protect key = Inr False" "pend_object_key p = key"
      "key \<notin> pend_object_key ` set pend" "pend_job_id p \<notin> pend_job_id ` set pend" "claim_for subject now p row"
      "reconcile_keys prefix protect outb subject e now keys (pend @ [p], ob @ [row]) = (Inr k, (pend', ob'))" "n = k + 1"
proof -
  let ?p = "\<lambda>jobID. \<lparr>pend_object_key = key, pend_job_id = jobID\<rparr>"
  consider (s) "reconcile_keys prefix protect outb subject e now keys (pend, ob) = (Inr n, (pend', ob'))"
    | (c) jobID row t k where "hasPrefix key prefix" "key \<noteq> prefix" "protect key = Inr False"
      "key \<notin> pend_object_key ` set pend" "jobID \<notin> pend_job_id ` set pend"
      "EnqueueTx subject (clock e 9) (\<lambda>l. fails e (l @ '' '' @ key)) (orphan_job jobID key now) ob = (Inr row, t)"
      "reconcile_keys prefix protect outb subject e now keys (pend @ [?p jobID], t) = (Inr k, (pend', ob'))" "n = k + 1"
    using assms by (auto simp: insert_pending_def split: if_splits sum.splits option.splits prod.splits)
  then show thesis
  proof cases
    case c
    from EnqueueTx_append [OF c(6)] have "t = ob @ [row]" "claim_for subject now (?p jobID) row"
      by (auto simp: claim_for_def orphan_job_def)
    with c show thesis by (intro claim [of "?p jobID" row k]) auto
  qed (rule skip)
qed

lemma reconcile_keys_adds:
  assumes "reconcile_keys prefix protect outb subject e now keys (pend, ob) = (Inr n, (pend', ob'))"
  shows "\<exists>ps rs. pend' = pend @ ps \<and> ob' = ob @ rs \<and> length ps = n \<and> list_all2 (claim_for subject now) ps rs \<and>
    (\<forall>p\<in>set ps. pend_object_key p \<in> set keys \<and> hasPrefix (pend_object_key p) prefix \<and> pend_object_key p \<noteq> prefix \<and>
       protect (pend_object_key p) = Inr False) \<and> (pending_ok pend \<longrightarrow> pending_ok pend')"
  using assms
proof (induction keys arbitrary: pend ob n)
  case (Cons key keys)
  from Cons.prems show ?case
  proof (cases rule: reconcile_keys_step)
    case skip
    then show ?thesis using Cons.IH by fastforce
  next
    case (claim p row k)
    from Cons.IH [OF claim(8)] obtain ps rs where
      "pend' = (pend @ [p]) @ ps" "ob' = (ob @ [row]) @ rs" "length ps = k" "list_all2 (claim_for subject now) ps rs"
      "\<forall>p\<in>set ps. pend_object_key p \<in> set keys \<and> hasPrefix (pend_object_key p) prefix \<and> pend_object_key p \<noteq> prefix \<and>
        protect (pend_object_key p) = Inr False" "pending_ok (pend @ [p]) \<longrightarrow> pending_ok pend'"
      by blast
    with claim show ?thesis
      by (intro exI [of _ "p # ps"] exI [of _ "row # rs"]) (auto simp: pending_ok_def)
  qed
qed simp

subsection \<open>The contract of a protection query\<close>

text \<open>What a scan relies on: an object that is still \<open>needed\<close> is never reported unprotected.\<close>

locale object_guard =
  fixes prefix :: string
    and protect :: "env \<Rightarrow> time \<Rightarrow> api \<Rightarrow> string \<Rightarrow> string + bool"
    and needed :: "time \<Rightarrow> api \<Rightarrow> string \<Rightarrow> bool"
    and ok :: "api \<Rightarrow> bool"
  assumes guard: "ok s \<Longrightarrow> needed now s key \<Longrightarrow> protect e now s key \<noteq> Inr False"
begin

lemma page_safe:
  assumes "ok s" "pending_ok pend"
    "reconcile_keys prefix (protect e now s) outb subject e now keys (pend, ob) = (Inr n, (pend', ob'))"
  obtains ps rs where "pend' = pend @ ps" "ob' = ob @ rs" "length ps = n" "list_all2 (claim_for subject now) ps rs"
    "pending_ok pend'"
    "\<forall>x\<in>set rs. ObjectKey (o_payload x) \<in> set keys \<and> hasPrefix (ObjectKey (o_payload x)) prefix \<and>
       ObjectKey (o_payload x) \<noteq> prefix \<and> \<not> needed now s (ObjectKey (o_payload x))"
proof -
  from reconcile_keys_adds [OF assms(3)] obtain ps rs where a: "pend' = pend @ ps" "ob' = ob @ rs" "length ps = n"
    "list_all2 (claim_for subject now) ps rs"
    "\<forall>p\<in>set ps. pend_object_key p \<in> set keys \<and> hasPrefix (pend_object_key p) prefix \<and> pend_object_key p \<noteq> prefix \<and>
       protect e now s (pend_object_key p) = Inr False" "pending_ok pend'"
    using assms(2) by blast
  have "\<forall>x\<in>set rs. ObjectKey (o_payload x) \<in> set keys \<and> hasPrefix (ObjectKey (o_payload x)) prefix \<and>
      ObjectKey (o_payload x) \<noteq> prefix \<and> \<not> needed now s (ObjectKey (o_payload x))"
    using a(4,5) guard [OF assms(1)] by (induction rule: list_all2_induct) (auto simp: claim_for_def orphan_job_def)
  with a that show thesis by blast
qed

end

end
