(* ===== verification/Request_Cleanup.thy ===== *)
theory Request_Cleanup
  imports Request_Lifecycle Reconciliation
begin

text \<open>
  The end of request links (internal/requests/cleanup.go): the expiry pass that shares the reaper's
  transaction (\<open>PurgeExpiredTx\<close>), the scan of the bucket below \<open>managed/requests/\<close>
  (\<open>ReconcileOnce\<close>), and the acknowledgement of a finished delete job. Instants are compared as the
  fixed-width texts the table stores.
\<close>

subsection \<open>The expiry pass\<close>

definition text_le :: "time \<Rightarrow> time \<Rightarrow> bool" where
  "text_le a b \<longleftrightarrow> str_le (fixedTime a) (fixedTime b)"

definition lapsed :: "time \<Rightarrow> request_row \<Rightarrow> bool" where
  "lapsed now r \<longleftrightarrow> r_state r = ''uploading'' \<and>
     (case r_reservation_expires_at r of None \<Rightarrow> False | Some t \<Rightarrow> text_le t now) \<and> \<not> text_le (r_expires_at r) now"

definition by_text_then_id :: "(request_row \<Rightarrow> time) \<Rightarrow> request_row \<Rightarrow> request_row \<Rightarrow> bool" where
  "by_text_then_id at a b \<longleftrightarrow> text_le (at a) (at b) \<and>
     (fixedTime (at a) = fixedTime (at b) \<longrightarrow> str_le (r_id a) (r_id b))"

definition lapsed_reservations :: "time \<Rightarrow> int \<Rightarrow> api \<Rightarrow> (string \<times> int) list" where
  "lapsed_reservations now limit s =
     map (\<lambda>r. (r_id r, r_generation r))
       (sql_top (by_text_then_id (\<lambda>r. rr_reservationExpires (record_of r))) (nat limit)
         (filter (lapsed now) (requests s)))"

text \<open>SQL's \<open>not (... and consumed_at > ?)\<close> is unknown, hence not selected, when \<open>consumed_at\<close> is null.\<close>

definition purgeable :: "time \<Rightarrow> request_row \<Rightarrow> bool" where
  "purgeable now r \<longleftrightarrow> text_le (r_expires_at r) now \<and>
     (r_state r \<noteq> ''consumed'' \<or> r_final_key r = None \<or>
      (case r_consumed_at r of None \<Rightarrow> False | Some t \<Rightarrow> text_le t (now - openObjectGrace)))"

definition expired_requests :: "time \<Rightarrow> int \<Rightarrow> api \<Rightarrow> string list" where
  "expired_requests now limit s =
     map r_id (sql_top (by_text_then_id r_expires_at) (nat limit) (filter (purgeable now) (requests s)))"

fun end_reservations ::
  "bool \<Rightarrow> string \<Rightarrow> env \<Rightarrow> time \<Rightarrow> (string \<times> int) list \<Rightarrow> api \<Rightarrow> (request_error + unit) \<times> api" where
  "end_reservations outb subject e now [] s = (Inr (), s)"
| "end_reservations outb subject e now ((i, g) # cs) s =
     (case endReservationTx outb subject e i g now s of
        (Inl err, s') \<Rightarrow> (Inl err, s')
      | (Inr _, s') \<Rightarrow> end_reservations outb subject e now cs s')"

fun delete_expired ::
  "bool \<Rightarrow> string \<Rightarrow> env \<Rightarrow> time \<Rightarrow> string list \<Rightarrow> api \<Rightarrow> (request_error + unit) \<times> api" where
  "delete_expired outb subject e now [] s = (Inr (), s)"
| "delete_expired outb subject e now (i # is) s =
     (case enqueueRequestKeysTx outb subject e i ReasonExpired now s of
        (Inl err, s') \<Rightarrow> (Inl err, s')
      | (Inr _, s') \<Rightarrow>
          if fails e (''delete request '' @ i) then (Inl (ErrRequest ''delete request''), s')
          else delete_expired outb subject e now is (delete_requests (\<lambda>r. r_id r = i) s'))"

definition PurgeExpiredTx ::
  "bool \<Rightarrow> string \<Rightarrow> env \<Rightarrow> time \<Rightarrow> int \<Rightarrow> api \<Rightarrow> (request_error + unit) \<times> api" where
  "PurgeExpiredTx outb subject e now limit s =
     (if fails e ''query reservations'' then (Inl (ErrRequest ''query reservations''), s)
      else (case end_reservations outb subject e now (lapsed_reservations now limit s) s of
        (Inl err, s1) \<Rightarrow> (Inl err, s1)
      | (Inr _, s1) \<Rightarrow>
          if fails e ''query expired requests'' then (Inl (ErrRequest ''query expired requests''), s1)
          else delete_expired outb subject e now (expired_requests now limit s1) s1))"

subsection \<open>The scan\<close>

text \<open>The rows that protect an object below \<open>managed/requests/\<close>.\<close>

definition request_protects :: "time \<Rightarrow> string \<Rightarrow> request_row \<Rightarrow> bool" where
  "request_protects now key r \<longleftrightarrow>
     (r_state r = ''consumed'' \<and> r_final_key r = Some key \<and>
        (case r_consumed_at r of None \<Rightarrow> False | Some t \<Rightarrow> \<not> text_le t (now - openObjectGrace))) \<or>
     (\<not> text_le (r_expires_at r) now \<and>
        ((r_state r = ''submitted'' \<and> r_final_key r = Some key) \<or>
         (r_state r = ''uploading'' \<and>
            (case r_reservation_expires_at r of None \<Rightarrow> False | Some t \<Rightarrow> \<not> text_le t now) \<and>
            (r_upload_key r = Some key \<or> r_final_key r = Some key))))"

definition protectRequestObject :: "env \<Rightarrow> time \<Rightarrow> api \<Rightarrow> string \<Rightarrow> string + bool" where
  "protectRequestObject e now s key =
     (if fails e (''check request protection '' @ key) then Inl ''check request protection''
      else Inr (list_ex (request_protects now key) (requests s)))"

definition scan_error :: "string \<Rightarrow> request_error" where
  "scan_error err = (if err = ''outbox is required'' then ErrStorage else ErrRequest err)"

text \<open>\<open>meanwhile\<close> is what other operations commit while the page is being listed.\<close>

definition ReconcileRequests ::
  "request_store \<Rightarrow> s3 \<Rightarrow> (api \<Rightarrow> api) \<Rightarrow> env \<Rightarrow> int \<Rightarrow> api \<Rightarrow> (request_error + nat) \<times> api" where
  "ReconcileRequests st svc meanwhile e limit0 s =
     (if \<not> rq_hasObjects st then (Inr 0, s)
      else if limit0 < 1 then (Inl (ErrRequest ''invalid request reconciliation batch''), s)
      else if fails e ''read request reconciliation cursor''
      then (Inl (ErrRequest ''read request reconciliation cursor''), s)
      else let limit = min limit0 1000; cursor = continuation_token (request_cursor s);
               generation = cur_generation (request_cursor s); s1 = meanwhile s;
               claimed = (cur_generation (request_cursor s1) = generation) in
        (case List_objects svc ObjectPrefix cursor limit of
           Inl err \<Rightarrow>
             if err = ErrInvalidCursor \<and> cursor \<noteq> [] then
               (if fails e ''reset request reconciliation cursor''
                then (Inl (ErrRequest ''reset request reconciliation cursor''), s1)
                else (Inl (ErrRequest ''list request objects''),
                      if claimed then s1\<lparr>request_cursor := \<lparr>continuation_token = [], cur_generation = generation + 1\<rparr>\<rparr>
                      else s1))
             else (Inl (ErrRequest ''list request objects''), s1)
         | Inr page \<Rightarrow>
             if int (length (Keys page)) > limit \<or> (NextCursor page \<noteq> [] \<and> NextCursor page = cursor)
             then (Inl (ErrRequest ''invalid request object page''), s1)
             else if fails e ''begin request reconciliation''
             then (Inl (ErrRequest ''begin request reconciliation''), s1)
             else if fails e ''advance request reconciliation cursor''
             then (Inl (ErrRequest ''advance request reconciliation cursor''), s1)
             else if \<not> claimed then (Inr 0, s1)
             else (case reconcile_keys ObjectPrefix (protectRequestObject e (clock e 20) s1) (rq_hasOutbox st)
                          (rq_subject st) e (clock e 20) (Keys page) (request_pending s1, outbox_events s1) of
               (Inl err, _) \<Rightarrow> (Inl (scan_error err), s1)
             | (Inr n, (pending, jobs)) \<Rightarrow>
                 (case commit_error e 21 0 of
                    Some err \<Rightarrow> (Inl err, s1)
                  | None \<Rightarrow>
                      (Inr n, s1\<lparr>request_cursor := \<lparr>continuation_token = NextCursor page, cur_generation = generation + 1\<rparr>,
                                 request_pending := pending, outbox_events := jobs\<rparr>)))))"

definition AcknowledgeRequestCleanup :: "env \<Rightarrow> string \<Rightarrow> string \<Rightarrow> api \<Rightarrow> request_error option \<times> api" where
  "AcknowledgeRequestCleanup e jobID key s =
     (if trimSpace jobID = [] \<or> \<not> hasPrefix key ObjectPrefix \<or> key = ObjectPrefix then (Some ErrInvalid, s)
      else if fails e ''acknowledge request cleanup'' then (Some (ErrRequest ''acknowledge request cleanup''), s)
      else (None, s\<lparr>request_pending :=
              sql_delete (\<lambda>p. pend_object_key p = key \<and> pend_job_id p = jobID) (request_pending s)\<rparr>))"

subsection \<open>What the expiry pass does\<close>

definition row_keys :: "request_row \<Rightarrow> string list" where
  "row_keys r = List.map_filter (\<lambda>k. k) [r_upload_key r, r_final_key r]"

definition keys_of :: "api \<Rightarrow> string \<Rightarrow> string list" where
  "keys_of s i = (case request_of s i of None \<Rightarrow> [] | Some r \<Rightarrow> row_keys r)"

text \<open>\<open>rs\<close> are fresh delete jobs for \<open>ks\<close>, in order.\<close>

definition delete_jobs :: "string \<Rightarrow> time \<Rightarrow> string list \<Rightarrow> outbox_row list \<Rightarrow> bool" where
  "delete_jobs reason now ks rs \<longleftrightarrow>
     list_all2 (\<lambda>k r. o_payload r = object_job (o_id r) k reason now \<and> o_state r = StatePending) ks rs"

lemma delete_jobs_append:
  "delete_jobs reason now ks rs \<Longrightarrow> delete_jobs reason now ks' rs' \<Longrightarrow> delete_jobs reason now (ks @ ks') (rs @ rs')"
  by (simp add: delete_jobs_def list_all2_appendI)

lemma enqueueObjectTx_Inr:
  assumes "enqueueObjectTx outb subject e key reason now s = (Inr u, s')"
  shows "\<exists>r. s' = s\<lparr>outbox_events := outbox_events s @ [r]\<rparr> \<and> delete_jobs reason now [key] [r]"
  using assms by (auto simp: enqueueObjectTx_def enqueue_event_def delete_jobs_def object_job_def
      dest!: EnqueueTx_append split: if_splits option.splits prod.splits sum.splits)

lemma enqueue_keys_Inr:
  "enqueue_keys outb subject e reason now ks s = (Inr u, s') \<Longrightarrow>
   \<exists>rs. s' = s\<lparr>outbox_events := outbox_events s @ rs\<rparr> \<and> delete_jobs reason now (List.map_filter (\<lambda>k. k) ks) rs"
proof (induction outb subject e reason now ks s rule: enqueue_keys.induct)
  case (3 outb subject e reason now key ks s)
  then obtain v s1 where 1: "enqueueObjectTx outb subject e key reason now s = (Inr v, s1)"
    "enqueue_keys outb subject e reason now ks s1 = (Inr u, s')"
    by (auto split: prod.splits sum.splits)
  from enqueueObjectTx_Inr [OF 1(1)] obtain r where
    r: "s1 = s\<lparr>outbox_events := outbox_events s @ [r]\<rparr>" "delete_jobs reason now [key] [r]" by blast
  from "3.IH" [OF 1(1) [symmetric] refl 1(2)] obtain rs where
    "s' = s1\<lparr>outbox_events := outbox_events s1 @ rs\<rparr>" "delete_jobs reason now (List.map_filter (\<lambda>k. k) ks) rs"
    by blast
  with r delete_jobs_append [OF r(2)] show ?case
    by (intro exI [of _ "r # rs"]) (auto simp: List.map_filter_simps)
qed (auto simp: List.map_filter_simps delete_jobs_def)

lemma enqueueRequestKeysTx_Inr:
  assumes "enqueueRequestKeysTx outb subject e i reason now s = (Inr u, s')"
  shows "\<exists>rs. s' = s\<lparr>outbox_events := outbox_events s @ rs\<rparr> \<and> delete_jobs reason now (keys_of s i) rs"
  using assms by (auto simp: enqueueRequestKeysTx_def keys_of_def row_keys_def dest!: enqueue_keys_Inr
      split: if_splits option.splits)

definition ended :: "request_row \<Rightarrow> request_row" where
  "ended r = ended_row (r_generation r) r"

lemma ended_id [simp]: "r_id (ended r) = r_id r"
  by (simp add: ended_def ended_row_def)

lemma endReservationTx_effect:
  assumes "endReservationTx outb subject e i g now s = (Inr u, s')" "distinct (map r_id (requests s))"
  shows "\<exists>rs. s' = s\<lparr>requests := sql_update (\<lambda>r. r_id r = i) ended (requests s), outbox_events := outbox_events s @ rs\<rparr> \<and>
    delete_jobs ReasonOrphan now (keys_of s i) rs \<and> (\<forall>r\<in>set (requests s). r_id r = i \<longrightarrow> r_generation r = g)"
proof -
  let ?p = "\<lambda>r. r_id r = i \<and> r_state r = ''uploading'' \<and> r_generation r = g"
  from assms(1) obtain s1 v where 1: "enqueueRequestKeysTx outb subject e i ReasonOrphan now s = (Inr v, s1)"
    "update_requests ?p (ended_row g) s1 = Some s'"
    by (auto simp: endReservationTx_def Let_def exec_Some split: prod.splits sum.splits option.splits)
  obtain rs where rs: "s1 = s\<lparr>outbox_events := outbox_events s @ rs\<rparr>" "delete_jobs ReasonOrphan now (keys_of s i) rs"
    using enqueueRequestKeysTx_Inr [OF 1(1)] by blast
  obtain r where r: "request_of s i = Some r" "r_state r = ''uploading''" "r_generation r = g"
    by (rule endReservationTx_Inr [OF assms])
  have one: "\<forall>x\<in>set (requests s). r_id x = i \<longrightarrow> x = r"
    using r(1) assms(2) by (auto simp: sql_row_iff distinct_map inj_on_def)
  have "sql_update ?p (ended_row g) (requests s) = sql_update (\<lambda>r. r_id r = i) ended (requests s)"
    using one r by (auto simp: sql_update_def ended_def)
  with 1(2) rs one r show ?thesis
    by (intro exI [of _ rs]) (auto simp: update_requests_def Let_def split: if_splits)
qed

lemma keys_of_update_other:
  assumes "i \<noteq> j" "\<And>r. r_id (f r) = r_id r"
  shows "keys_of (s\<lparr>requests := sql_update (\<lambda>r. r_id r = i) f (requests s), outbox_events := t\<rparr>) j = keys_of s j"
proof -
  have "sql_row (\<lambda>r. r_id r = j) (sql_update (\<lambda>r. r_id r = i) f (requests s)) = request_of s j"
    using assms by (simp add: sql_row_update [where key = r_id] map_option_case split: option.split)
      (auto dest: sql_row_Some)
  then show ?thesis by (simp add: keys_of_def)
qed

lemma end_reservations_effect:
  assumes "end_reservations outb subject e now cs s = (Inr u, s')" "distinct (map r_id (requests s))" "distinct (map fst cs)"
  shows "\<exists>rs. s' = s\<lparr>requests := sql_update (\<lambda>r. r_id r \<in> fst ` set cs) ended (requests s),
      outbox_events := outbox_events s @ rs\<rparr> \<and>
    delete_jobs ReasonOrphan now (concat (map (\<lambda>c. keys_of s (fst c)) cs)) rs"
  using assms
proof (induction cs arbitrary: s)
  case Nil
  then show ?case by (auto simp: delete_jobs_def sql_update_def)
next
  case (Cons c cs)
  obtain i g where c: "c = (i, g)" by fastforce
  from Cons.prems(1) c obtain v s1 where 1: "endReservationTx outb subject e i g now s = (Inr v, s1)"
    "end_reservations outb subject e now cs s1 = (Inr u, s')"
    by (auto split: prod.splits sum.splits)
  from endReservationTx_effect [OF 1(1) Cons.prems(2)] obtain rs1 where
    s1: "s1 = s\<lparr>requests := sql_update (\<lambda>r. r_id r = i) ended (requests s), outbox_events := outbox_events s @ rs1\<rparr>"
    and j1: "delete_jobs ReasonOrphan now (keys_of s i) rs1" by blast
  have "distinct (map r_id (requests s1))"
    using Cons.prems(2) s1 by (simp add: map_key_update)
  from Cons.IH [OF 1(2) this] Cons.prems(3) obtain rs2 where
    s2: "s' = s1\<lparr>requests := sql_update (\<lambda>r. r_id r \<in> fst ` set cs) ended (requests s1), outbox_events := outbox_events s1 @ rs2\<rparr>"
    and j2: "delete_jobs ReasonOrphan now (concat (map (\<lambda>c. keys_of s1 (fst c)) cs)) rs2" by auto
  have other: "map (\<lambda>c. keys_of s1 (fst c)) cs = map (\<lambda>c. keys_of s (fst c)) cs"
    using Cons.prems(3) c s1 by (auto intro!: keys_of_update_other)
  have "sql_update (\<lambda>r. r_id r \<in> fst ` set cs) ended (sql_update (\<lambda>r. r_id r = i) ended (requests s)) =
      sql_update (\<lambda>r. r_id r \<in> fst ` set (c # cs)) ended (requests s)"
    using Cons.prems(3) c by (auto simp: sql_update_def)
  with s1 s2 delete_jobs_append [OF j1 j2 [unfolded other]] c show ?case
    by (intro exI [of _ "rs1 @ rs2"]) simp
qed

lemma delete_requests_payloads:
  "distinct (map r_id (requests s)) \<Longrightarrow> \<forall>q\<in>set (request_payloads s). rp_request_id q \<in> r_id ` set (requests s) \<Longrightarrow>
   delete_requests (\<lambda>r. r_id r = i) s = s\<lparr>requests := sql_delete (\<lambda>r. r_id r = i) (requests s),
     request_payloads := sql_delete (\<lambda>q. rp_request_id q = i) (request_payloads s)\<rparr>"
  unfolding delete_requests_def
  by (rule arg_cong [where f = "\<lambda>t. s\<lparr>requests := _, request_payloads := t\<rparr>"])
    (force simp: sql_delete_def intro!: filter_cong)

lemma keys_of_delete_other:
  "distinct (map r_id (requests s)) \<Longrightarrow> i \<noteq> j \<Longrightarrow>
   keys_of (s\<lparr>requests := sql_delete (\<lambda>r. r_id r = i) (requests s), request_payloads := ps, outbox_events := t\<rparr>) j = keys_of s j"
  by (auto simp: keys_of_def sql_row_delete split: option.splits dest!: sql_row_Some)

lemma delete_expired_effect:
  assumes "delete_expired outb subject e now is s = (Inr u, s')" "distinct (map r_id (requests s))" "distinct is"
    "\<forall>q\<in>set (request_payloads s). rp_request_id q \<in> r_id ` set (requests s)"
  shows "\<exists>rs. s' = s\<lparr>requests := sql_delete (\<lambda>r. r_id r \<in> set is) (requests s),
      request_payloads := sql_delete (\<lambda>q. rp_request_id q \<in> set is) (request_payloads s),
      outbox_events := outbox_events s @ rs\<rparr> \<and>
    delete_jobs ReasonExpired now (concat (map (keys_of s) is)) rs"
  using assms
proof (induction "is" arbitrary: s)
  case Nil
  then show ?case by (auto simp: delete_jobs_def sql_delete_def)
next
  case (Cons i "is")
  from Cons.prems(1) obtain v s0 where 1: "enqueueRequestKeysTx outb subject e i ReasonExpired now s = (Inr v, s0)"
    "delete_expired outb subject e now is (delete_requests (\<lambda>r. r_id r = i) s0) = (Inr u, s')"
    by (auto split: prod.splits sum.splits if_splits)
  from enqueueRequestKeysTx_Inr [OF 1(1)] obtain rs1 where
    s0: "s0 = s\<lparr>outbox_events := outbox_events s @ rs1\<rparr>" and j1: "delete_jobs ReasonExpired now (keys_of s i) rs1"
    by blast
  let ?s1 = "s\<lparr>requests := sql_delete (\<lambda>r. r_id r = i) (requests s),
     request_payloads := sql_delete (\<lambda>q. rp_request_id q = i) (request_payloads s), outbox_events := outbox_events s @ rs1\<rparr>"
  have s1: "delete_requests (\<lambda>r. r_id r = i) s0 = ?s1"
    using delete_requests_payloads [of s0 i] Cons.prems(2,4) s0 by simp
  have d: "distinct (map r_id (requests ?s1))"
    using Cons.prems(2) by (simp add: distinct_delete)
  have fk: "\<forall>q\<in>set (request_payloads ?s1). rp_request_id q \<in> r_id ` set (requests ?s1)"
    using Cons.prems(4) by force
  from Cons.IH [OF 1(2) [unfolded s1] d _ fk] Cons.prems(3) obtain rs2 where
    s2: "s' = ?s1\<lparr>requests := sql_delete (\<lambda>r. r_id r \<in> set is) (requests ?s1),
      request_payloads := sql_delete (\<lambda>q. rp_request_id q \<in> set is) (request_payloads ?s1),
      outbox_events := outbox_events ?s1 @ rs2\<rparr>"
    and j2: "delete_jobs ReasonExpired now (concat (map (keys_of ?s1) is)) rs2" by auto
  have other: "map (keys_of ?s1) is = map (keys_of s) is"
    using Cons.prems(2,3) by (auto intro!: keys_of_delete_other)
  from s2 delete_jobs_append [OF j1 j2 [unfolded other]] show ?case
    by (intro exI [of _ "rs1 @ rs2"]) (simp add: sql_delete_delete)
qed

text \<open>The reservations that are ended are not those that are purged: they belong to unexpired requests.\<close>

lemma purgeable_ended: "lapsed now r \<Longrightarrow> \<not> purgeable now r \<and> \<not> purgeable now (ended r)"
  by (auto simp: lapsed_def purgeable_def ended_def ended_row_def)

lemma lapsed_reservations_sub:
  "(i, g) \<in> set (lapsed_reservations now limit s) \<Longrightarrow> \<exists>r\<in>set (requests s). r_id r = i \<and> r_generation r = g \<and> lapsed now r"
  by (auto simp: lapsed_reservations_def dest!: in_sql_topD)

lemma distinct_filter_ids: "distinct (map r_id t) \<Longrightarrow> distinct (map r_id (filter p t))"
  by (simp add: distinct_map_filter)

lemma distinct_lapsed: "distinct (map r_id (requests s)) \<Longrightarrow> distinct (map fst (lapsed_reservations now limit s))"
  using distinct_sql_top [OF distinct_filter_ids] by (simp add: lapsed_reservations_def comp_def)

lemma distinct_expired: "distinct (map r_id (requests s)) \<Longrightarrow> distinct (expired_requests now limit s)"
  using distinct_sql_top [OF distinct_filter_ids] by (simp add: expired_requests_def)

lemma expired_after_ended:
  assumes "distinct (map r_id (requests s))"
  shows "expired_requests now limit (s\<lparr>requests := sql_update (\<lambda>r. r_id r \<in> fst ` set (lapsed_reservations now limit s))
      ended (requests s), outbox_events := t\<rparr>) = expired_requests now limit s"
proof -
  have "\<forall>r\<in>set (requests s). r_id r \<in> fst ` set (lapsed_reservations now limit s) \<longrightarrow> lapsed now r"
    using assms by (auto dest!: lapsed_reservations_sub simp: distinct_map inj_on_def)
  then have "filter (purgeable now) (sql_update (\<lambda>r. r_id r \<in> fst ` set (lapsed_reservations now limit s)) ended (requests s)) =
      filter (purgeable now) (requests s)"
    using purgeable_ended by (intro filter_update) blast
  then show ?thesis by (simp add: expired_requests_def)
qed

lemma expired_not_lapsed:
  assumes "distinct (map r_id (requests s))" "i \<in> set (expired_requests now limit s)"
  shows "i \<notin> fst ` set (lapsed_reservations now limit s)"
proof
  from assms(2) obtain r where r: "r \<in> set (requests s)" "r_id r = i" "purgeable now r"
    by (auto simp: expired_requests_def dest!: in_sql_topD)
  assume "i \<in> fst ` set (lapsed_reservations now limit s)"
  then obtain g where "(i, g) \<in> set (lapsed_reservations now limit s)" by auto
  from lapsed_reservations_sub [OF this] obtain x where x: "x \<in> set (requests s)" "r_id x = i" "lapsed now x"
    by blast
  have "x = r"
    using assms(1) r x by (auto simp: distinct_map inj_on_def)
  with r(3) x(3) purgeable_ended show False by blast
qed

lemma PurgeExpiredTx_effect:
  assumes "PurgeExpiredTx outb subject e now limit s = (Inr u, s')" "distinct (map r_id (requests s))"
    "\<forall>q\<in>set (request_payloads s). rp_request_id q \<in> r_id ` set (requests s)"
  defines "L \<equiv> map fst (lapsed_reservations now limit s)" and "X \<equiv> expired_requests now limit s"
  shows "\<exists>rs1 rs2. s' = s\<lparr>requests := sql_delete (\<lambda>r. r_id r \<in> set X) (sql_update (\<lambda>r. r_id r \<in> set L) ended (requests s)),
      request_payloads := sql_delete (\<lambda>q. rp_request_id q \<in> set X) (request_payloads s),
      outbox_events := outbox_events s @ rs1 @ rs2\<rparr> \<and>
    delete_jobs ReasonOrphan now (concat (map (keys_of s) L)) rs1 \<and>
    delete_jobs ReasonExpired now (concat (map (keys_of s) X)) rs2"
proof -
  from assms(1) obtain v s1 where 1: "end_reservations outb subject e now (lapsed_reservations now limit s) s = (Inr v, s1)"
    "delete_expired outb subject e now (expired_requests now limit s1) s1 = (Inr u, s')"
    by (auto simp: PurgeExpiredTx_def split: if_splits prod.splits sum.splits)
  from end_reservations_effect [OF 1(1) assms(2) distinct_lapsed [OF assms(2)]] obtain rs1 where
    s1: "s1 = s\<lparr>requests := sql_update (\<lambda>r. r_id r \<in> fst ` set (lapsed_reservations now limit s)) ended (requests s),
      outbox_events := outbox_events s @ rs1\<rparr>"
    and j1: "delete_jobs ReasonOrphan now (concat (map (\<lambda>c. keys_of s (fst c)) (lapsed_reservations now limit s))) rs1"
    by blast
  have d1: "distinct (map r_id (requests s1))"
    using assms(2) s1 by (simp add: map_key_update)
  have X: "expired_requests now limit s1 = X"
    unfolding X_def s1 using assms(2) by (rule expired_after_ended)
  have fk: "\<forall>q\<in>set (request_payloads s1). rp_request_id q \<in> r_id ` set (requests s1)"
    using assms(3) s1 map_key_update [of r_id ended _ "requests s"] by (simp flip: set_map)
  from delete_expired_effect [OF 1(2) [unfolded X] d1 _ fk] distinct_expired [OF assms(2)] obtain rs2 where
    s2: "s' = s1\<lparr>requests := sql_delete (\<lambda>r. r_id r \<in> set X) (requests s1),
      request_payloads := sql_delete (\<lambda>q. rp_request_id q \<in> set X) (request_payloads s1),
      outbox_events := outbox_events s1 @ rs2\<rparr>"
    and j2: "delete_jobs ReasonExpired now (concat (map (keys_of s1) X)) rs2"
    by (auto simp: X_def)
  have "keys_of s1 i = keys_of s i" if "i \<in> set X" for i
  proof -
    have "i \<notin> fst ` set (lapsed_reservations now limit s)"
      using expired_not_lapsed [OF assms(2)] that by (simp add: X_def)
    then have "sql_row (\<lambda>r. r_id r = i) (requests s1) = request_of s i"
      unfolding s1 by (simp add: sql_row_update [where key = r_id] map_option_case split: option.split)
        (auto dest: sql_row_Some)
    then show ?thesis by (simp add: keys_of_def)
  qed
  then have "map (keys_of s1) X = map (keys_of s) X" by simp
  note j2' = j2 [unfolded this]
  show ?thesis
    by (rule exI [of _ rs1], rule exI [of _ rs2]) (use s1 s2 j1 j2' in \<open>simp add: L_def comp_def\<close>)
qed

end
