(* ===== verification/Request_Delivery.thy ===== *)
theory Request_Delivery
  imports Request_Cleanup
begin

text \<open>
  What request links promise: the invariant of the request tables over every sequence of operations, one
  delivery per request, round trips from submission to opening, idempotent retries, fenced generations,
  verified copies, and the expiry pass and scan.
\<close>

subsection \<open>Creating and purging keep the invariant\<close>

lemma new_request_row_ok: "request_row_ok (new_request_row i k f a b x)" "\<not> inline_waiting (new_request_row i k f a b x)"
  by (simp_all add: request_row_ok_def new_request_row_def inline_waiting_def)

lemma CreateRequest_Inr:
  assumes "CreateRequest st e publicKey ttl s = (Inr c, s')"
  obtains fingerprint seconds random where "publicKeyFingerprint st publicKey = Inr fingerprint"
    "seconds = (case ttl of None \<Rightarrow> rq_DefaultTTLSeconds st | Some n \<Rightarrow> n)"
    "rq_MinTTLSeconds st \<le> seconds" "seconds \<le> rq_MaxTTLSeconds st"
    "draw e ''request capabilities'' = Some random" "rc_ID c = rawurl_encode (take 16 random)"
    "rc_ExpiresAt c = clock e 20 + wrap64 (seconds * Second)"
    "rc_SubmissionToken c = rawurl_encode (take 32 (drop 16 random))" "rc_RetrievalToken c = rawurl_encode (drop 48 random)"
    "rc_ID c \<notin> r_id ` set (requests s)"
    "request_check (new_request_row (rc_ID c) publicKey fingerprint (hash_or_nil (tokenHash (rc_SubmissionToken c)))
       (hash_or_nil (tokenHash (rc_RetrievalToken c))) (rc_ExpiresAt c))"
    "s' = s\<lparr>requests := requests s @ [new_request_row (rc_ID c) publicKey fingerprint
       (hash_or_nil (tokenHash (rc_SubmissionToken c))) (hash_or_nil (tokenHash (rc_RetrievalToken c))) (rc_ExpiresAt c)]\<rparr>"
  using assms unfolding CreateRequest_def Let_def
  by (auto simp: exec_Some insert_request_def sql_insert_Some new_request_row_def split: sum.splits option.splits if_splits)

lemma CreateRequest_Inl: "CreateRequest st e publicKey ttl s = (Inl err, s') \<Longrightarrow> s' = s"
  unfolding CreateRequest_def Let_def by (auto split: sum.splits option.splits if_splits)

lemma requests_ok_insert:
  assumes "requests_ok s" "r_id r \<notin> r_id ` set (requests s)" "request_check r" "request_row_ok r" "\<not> inline_waiting r"
    "r_upload_key r = None" "r_final_key r = None"
  shows "requests_ok (s\<lparr>requests := requests s @ [r]\<rparr>)"
  using assms by (auto simp: requests_ok_def request_constraints_def List.map_filter_def)

lemma requests_ok_CreateRequest: "requests_ok s \<Longrightarrow> requests_ok (snd (CreateRequest st e k ttl s))"
proof (cases "CreateRequest st e k ttl s")
  case (Pair res s')
  assume ok: "requests_ok s"
  show ?thesis
  proof (cases res)
    case (Inl err)
    with Pair ok show ?thesis by (auto dest: CreateRequest_Inl)
  next
    case (Inr c)
    from Pair [unfolded Inr] show ?thesis
      by (rule CreateRequest_Inr)
        (use Pair ok in \<open>simp, intro requests_ok_insert, auto simp: new_request_row_ok, auto simp: new_request_row_def\<close>)
  qed
qed

lemma distinct_map_filter_delete:
  "distinct (List.map_filter f t) \<Longrightarrow> distinct (List.map_filter f (sql_delete p t))"
proof -
  assume "distinct (List.map_filter f t)"
  then have "distinct (map (the \<circ> f) (filter (\<lambda>x. \<not> p x) (filter (\<lambda>x. f x \<noteq> None) t)))"
    unfolding List.map_filter_def by (rule distinct_map_filter)
  then show ?thesis
    by (simp add: List.map_filter_def sql_delete_def conj_commute)
qed

lemma requests_ok_delete:
  assumes "requests_ok s" "requests s' = sql_delete (\<lambda>r. r_id r \<in> X) (requests s)"
    "request_payloads s' = sql_delete (\<lambda>q. rp_request_id q \<in> X) (request_payloads s)"
  shows "requests_ok s'"
  unfolding requests_ok_def assms(2,3)
proof (intro conjI)
  show "request_constraints (sql_delete (\<lambda>r. r_id r \<in> X) (requests s))"
    using assms(1) by (auto simp: requests_ok_def request_constraints_def list_all_iff intro: distinct_map_filter_delete)
qed (use assms(1) in \<open>(force simp: requests_ok_def list_all_iff distinct_delete has_body_def)+\<close>)

lemma end_reservations_evolves:
  "end_reservations outb subject e now cs s = (res, s') \<Longrightarrow> evolves s s'"
proof (induction outb subject e now cs s rule: end_reservations.induct)
  case (2 outb subject e now i g cs s)
  then show ?case
    by (auto dest!: endReservationTx_evolves split: prod.splits sum.splits intro: evolves_trans)
qed simp

definition purgeRequests :: "bool \<Rightarrow> string \<Rightarrow> env \<Rightarrow> time \<Rightarrow> int \<Rightarrow> api \<Rightarrow> api" where
  "purgeRequests outb subject e now limit s =
     (case PurgeExpiredTx outb subject e now limit s of (Inl _, _) \<Rightarrow> s | (Inr _, s') \<Rightarrow> s')"

lemma requests_ok_PurgeExpiredTx:
  assumes "requests_ok s" "PurgeExpiredTx outb subject e now limit s = (Inr u, s')"
  shows "requests_ok s'"
proof -
  from assms(2) obtain v s1 where 1: "end_reservations outb subject e now (lapsed_reservations now limit s) s = (Inr v, s1)"
    "delete_expired outb subject e now (expired_requests now limit s1) s1 = (Inr u, s')"
    by (auto simp: PurgeExpiredTx_def split: if_splits prod.splits sum.splits)
  have ok1: "requests_ok s1"
    using end_reservations_evolves [OF 1(1)] assms(1) by (rule evolves_ok)
  then have "distinct (map r_id (requests s1))" "\<forall>q\<in>set (request_payloads s1). rp_request_id q \<in> r_id ` set (requests s1)"
    by (auto simp: requests_ok_def)
  with delete_expired_effect [OF 1(2) _ distinct_expired] have
    "requests s' = sql_delete (\<lambda>r. r_id r \<in> set (expired_requests now limit s1)) (requests s1)"
    "request_payloads s' = sql_delete (\<lambda>q. rp_request_id q \<in> set (expired_requests now limit s1)) (request_payloads s1)"
    by auto
  with ok1 show ?thesis by (rule requests_ok_delete)
qed

lemma requests_ok_purgeRequests: "requests_ok s \<Longrightarrow> requests_ok (purgeRequests outb subject e now limit s)"
  by (auto simp: purgeRequests_def dest: requests_ok_PurgeExpiredTx split: prod.splits sum.splits)

lemma requests_ok_ReconcileRequests:
  "requests_ok (meanwhile s) \<Longrightarrow> requests_ok s \<Longrightarrow> requests_ok (snd (ReconcileRequests st svc meanwhile e limit s))"
  unfolding ReconcileRequests_def Let_def
  by (auto simp: requests_ok_def split: sum.splits option.splits prod.splits)

subsection \<open>The effect of an open\<close>

lemma beginTx_row_steps:
  assumes "beginTx st e k i token owner s = (Inr row, s0)" "distinct (map r_id (requests s))"
  obtains r0 r where "request_of s i = Some r0" "request_of s0 i = Some r" "request_step\<^sup>*\<^sup>* r0 r" "row = record_of r"
    "tokenHash token = Inr (capability owner r)" "r_state r \<noteq> ''unavailable''" "distinct (map r_id (requests s0))"
proof -
  have ev: "evolves s s0"
    using assms by (rule beginTx_evolves)
  from assms obtain r hash m where r: "tokenHash token = Inr hash" "request_of s0 i = Some r" "row = record_of r"
    "hash = capability owner r" "r_state r \<noteq> ''unavailable''"
    by (rule beginTx_Inr)
  have "i \<in> set (map r_id (requests s))"
    using sql_row_Some [OF r(2)] evolves_ids [OF ev] by (metis image_eqI image_set)
  then obtain r0 where r0: "request_of s i = Some r0"
    by (cases "request_of s i") (auto simp: sql_row_None)
  obtain r' where "request_of s0 i = Some r'" "request_step\<^sup>*\<^sup>* r0 r'"
    by (rule evolves_row [OF ev r0])
  with r r0 that distinct_ids_evolves [OF ev assms(2)] show thesis by auto
qed

lemma update_requests_row:
  assumes "update_requests p f s = Some s'" "\<And>r. r_id (f r) = r_id r"
  shows "request_of s' i = map_option (\<lambda>r. if p r then f r else r) (request_of s i)"
  using assms by (auto simp: update_requests_def Let_def sql_row_update [where key = r_id] split: if_splits)

lemma consumeObject_Inr:
  assumes "consumeObject st e i token key s = (Inr u, s')" "distinct (map r_id (requests s))"
  obtains r0 r where "request_of s i = Some r0" "request_step\<^sup>*\<^sup>* r0 r" "r_state r = ''submitted''" "r_final_key r = Some key"
    "tokenHash token = Inr (r_retrieval_token_hash r)" "request_of s' i = Some (consumed_row (clock e 20) r)"
proof -
  let ?p = "\<lambda>r. r_id r = i \<and> r_state r = ''submitted'' \<and> r_final_key r = Some key"
  from assms(1) obtain row s0 where b: "beginTx st e 0 i token True s = (Inr row, s0)" "rr_state row = ''submitted''"
    "update_requests ?p (consumed_row (clock e 20)) s0 = Some s'" "sql_count ?p (requests s0) = 1"
    by (auto simp: consumeObject_def Let_def exec_Some dest: requireTransition_Inr
        split: prod.splits sum.splits option.splits if_splits)
  from b(1) assms(2) obtain r0 r where r: "request_of s i = Some r0" "request_of s0 i = Some r" "request_step\<^sup>*\<^sup>* r0 r"
    "tokenHash token = Inr (capability True r)" "distinct (map r_id (requests s0))"
    by (rule beginTx_row_steps)
  from sql_count_1_row [OF r(5) b(4)] r(2) have "?p r" by auto
  moreover have "request_of s' i = Some (consumed_row (clock e 20) r)"
    using update_requests_row [OF b(3), of i] r(2) \<open>?p r\<close> by (simp add: consumed_row_def)
  ultimately show thesis
    using r that by (simp add: capability_def)
qed

lemma clearPayloadTx_Inr:
  assumes "clearPayloadTx st e i prev state reason s = (Inr u, s')" "distinct (map r_id (requests s))"
  obtains r rs where "request_of s i = Some r" "r_state r = prev" "request_of s' i = Some (cleared_row state (clock e 22) r)"
    "request_payloads s' = sql_delete (\<lambda>q. rp_request_id q = i) (request_payloads s)"
    "outbox_events s' = outbox_events s @ rs" "delete_jobs reason (clock e 21) (row_keys r) rs"
proof -
  let ?p = "\<lambda>r. r_id r = i \<and> r_state r = prev"
  from assms(1) obtain v s1 where 1: "enqueueRequestKeysTx (rq_hasOutbox st) (rq_subject st) e i reason (clock e 21) s = (Inr v, s1)"
    and up: "update_requests ?p (cleared_row state (clock e 22))
      (s1\<lparr>request_payloads := sql_delete (\<lambda>q. rp_request_id q = i) (request_payloads s1)\<rparr>) = Some s'"
    and cnt: "sql_count ?p (requests s1) = 1"
    by (auto simp: clearPayloadTx_def Let_def exec_Some dest: requireTransition_Inr
        split: sum.splits option.splits if_splits prod.splits)
  from enqueueRequestKeysTx_Inr [OF 1] obtain rs where
    s1: "s1 = s\<lparr>outbox_events := outbox_events s @ rs\<rparr>" and jobs: "delete_jobs reason (clock e 21) (keys_of s i) rs"
    by blast
  obtain r where r: "r_id r = i" "r_state r = prev" "request_of s i = Some r"
    by (rule sql_count_1_row [OF assms(2), of i "\<lambda>r. r_state r = prev"]) (use cnt s1 in auto)
  have "request_of s' i = Some (cleared_row state (clock e 22) r)"
    using update_requests_row [OF up, of i] r s1 by (simp add: cleared_row_def)
  moreover have "request_payloads s' = sql_delete (\<lambda>q. rp_request_id q = i) (request_payloads s)"
    "outbox_events s' = outbox_events s @ rs"
    using up s1 by (auto simp: update_requests_def Let_def split: if_splits)
  ultimately show thesis
    using r jobs that by (simp add: keys_of_def)
qed

lemma OpenRequest_Inr:
  assumes "OpenRequest st svc meanwhile e e2 i token s = (Inr op, s')" "distinct (map r_id (requests s))"
  obtains (inline) s0 r0 r where "request_of s i = Some r0" "request_of s0 i = Some r" "request_step\<^sup>*\<^sup>* r0 r"
      "tokenHash token = Inr (r_retrieval_token_hash r)" "r_state r = ''submitted''" "r_storage_backend r \<noteq> StorageS3"
      "r_kind r = Some (op_Kind op)" "r_size_bytes r = Some (op_SizeBytes op)" "r_envelope r = Some (op_Envelope op)"
      "op_SizeBytes op = int (length (op_Body op))" "op_ObjectKey op = []"
      "op_Body op = (case sql_row (\<lambda>q. rp_request_id q = i) (request_payloads s0) of None \<Rightarrow> [] | Some q \<Rightarrow> rp_ciphertext q)"
      "clearPayloadTx st e i ''submitted'' ''consumed'' ReasonConsumed s0 = (Inr (), s')"
      "distinct (map r_id (requests s0))" "evolves s s0"
  | (object) s0 r0 r where "request_of s i = Some r0" "request_of s0 i = Some r" "request_step\<^sup>*\<^sup>* r0 r"
      "r_state r = ''submitted''" "r_storage_backend r = StorageS3" "r_final_key r = Some (op_ObjectKey op)"
      "r_kind r = Some (op_Kind op)" "r_size_bytes r = Some (op_SizeBytes op)" "r_envelope r = Some (op_Envelope op)"
      "Open svc (op_ObjectKey op) = Inr (op_Body op, op_SizeBytes op)"
      "consumeObject st e2 i token (op_ObjectKey op) (meanwhile s0) = (Inr (), s')" "evolves s s0"
proof -
  from assms(1) obtain row s0 where b: "beginTx st e 0 i token True s = (Inr row, s0)"
    by (auto simp: OpenRequest_def split: prod.splits sum.splits)
  from b assms(2) obtain r0 r where r: "request_of s i = Some r0" "request_of s0 i = Some r" "request_step\<^sup>*\<^sup>* r0 r"
    "row = record_of r" "tokenHash token = Inr (capability True r)" "distinct (map r_id (requests s0))"
    by (rule beginTx_row_steps)
  have ev: "evolves s s0"
    using b assms(2) by (rule beginTx_evolves)
  have st: "r_state r = ''submitted''"
    using assms(1) b r(4) by (auto simp: OpenRequest_def record_of_def split: if_splits)
  from assms(1) b r(2,4) st obtain kind sz envelope where k: "r_kind r = Some kind" "r_size_bytes r = Some sz" "r_envelope r = Some envelope"
    by (auto simp: OpenRequest_def record_of_def split: if_splits option.splits)
  show thesis
  proof (cases "r_storage_backend r = StorageS3")
    case False
    with assms(1) b r st k have "op_Kind op = kind" "op_SizeBytes op = sz" "op_Envelope op = envelope" "op_ObjectKey op = []"
      "op_Body op = (case sql_row (\<lambda>q. rp_request_id q = i) (request_payloads s0) of None \<Rightarrow> [] | Some q \<Rightarrow> rp_ciphertext q)"
      "int (length (op_Body op)) = sz" "clearPayloadTx st e i ''submitted'' ''consumed'' ReasonConsumed s0 = (Inr (), s')"
      by (auto simp: OpenRequest_def record_of_def Let_def split: if_splits option.splits prod.splits sum.splits)
    with False r st k ev show thesis by (intro inline) (auto simp: capability_def)
  next
    case True
    with assms(1) b r st k obtain key where "r_final_key r = Some key" "op_ObjectKey op = key" "op_Kind op = kind"
      "op_SizeBytes op = sz" "op_Envelope op = envelope" "Open svc key = Inr (op_Body op, sz)"
      "consumeObject st e2 i token key (meanwhile s0) = (Inr (), s')"
      by (auto simp: OpenRequest_def record_of_def Let_def split: if_splits option.splits prod.splits sum.splits)
    with True r st k ev show thesis by (intro object) auto
  qed
qed

text \<open>A row that is consumed, or gone, cannot be opened.\<close>

definition request_spent :: "string \<Rightarrow> api \<Rightarrow> bool" where
  "request_spent i s \<longleftrightarrow> (case request_of s i of None \<Rightarrow> True | Some r \<Rightarrow> r_state r = ''consumed'')"

lemma consumed_stays: "request_step\<^sup>*\<^sup>* r r' \<Longrightarrow> r_state r = ''consumed'' \<Longrightarrow> r_state r' = ''consumed''"
  using request_steps_life life_rtrancl(2) by (fastforce simp: stage_of_def)

lemma evolves_spent: "evolves s s' \<Longrightarrow> request_spent i s \<Longrightarrow> request_spent i s'"
proof (cases "request_of s i")
  case None
  assume "evolves s s'"
  then have "r_id ` set (requests s') = r_id ` set (requests s)"
    by (metis evolves_ids list.set_map)
  with None have "request_of s' i = None"
    unfolding sql_row_None by (metis imageE image_eqI)
  then show ?thesis by (simp add: request_spent_def)
next
  case (Some r)
  assume "evolves s s'" "request_spent i s"
  with Some show ?thesis
    by (auto simp: request_spent_def intro: consumed_stays elim!: evolves_row)
qed

lemma consumeObject_spends:
  assumes "consumeObject st e i token key s = (Inr u, s')" "distinct (map r_id (requests s))"
  shows "\<not> request_spent i s \<and> request_spent i s'"
  using assms by (rule consumeObject_Inr)
    (auto simp: request_spent_def consumed_row_def dest: consumed_stays)

lemma OpenRequest_spends:
  assumes "OpenRequest st svc meanwhile e e2 i token s = (Inr op, s')" "distinct (map r_id (requests s))"
    "\<And>t. evolves s t \<Longrightarrow> evolves t (meanwhile t)"
  shows "\<not> request_spent i s \<and> request_spent i s'"
  using assms(1,2)
proof (cases rule: OpenRequest_Inr)
  case (inline s0 r0 r)
  have "request_spent i s'"
    by (rule clearPayloadTx_Inr [OF inline(13,14)]) (simp add: request_spent_def cleared_row_def)
  with inline show ?thesis by (auto simp: request_spent_def dest: consumed_stays)
next
  case (object s0 r0 r)
  have "distinct (map r_id (requests (meanwhile s0)))"
    using object(12) assms(2,3) by (metis distinct_ids_evolves)
  with object(11) have "request_spent i s'"
    using consumeObject_spends by blast
  with object show ?thesis by (auto simp: request_spent_def dest: consumed_stays)
qed

subsection \<open>All sequences of operations\<close>

text \<open>The transactions of the request store as events. An open or a finalize whose object work is interleaved
  with other calls is its first half (the same event, with a second environment that fails at once), the
  other calls, and its second transaction (\<open>RConsume\<close>, \<open>RAccept\<close>). A finalize that joins a call in flight
  carries it out: the event of that other call is then its first half only.\<close>

datatype request_event =
  RCreate env string "int option"
| RInstructions env string string
| ROwner env string string
| RSubmit env string string submit_input
| RAttempt env string string int string
| RReserve s3 env string string upload_input
| RFinalize s3 "string \<rightharpoonup> finalize_call" env env string string attempt_input
| RAccept env string string attempt_input request_row bytes
| RAbandon env string string attempt_input
| ROpen s3 env env string string
| RConsume env string string string
| RFinish env string string
| RRevoke env string string
| RPurge env time int
| RReconcile s3 env int
| RAcknowledge env string string

datatype request_result = Delivered opened | Taken | Answered

definition other :: "'r \<times> api \<Rightarrow> api \<times> request_result" where
  "other x = (snd x, Answered)"

fun request_exec :: "request_store \<Rightarrow> api \<Rightarrow> request_event \<Rightarrow> api \<times> request_result" where
  "request_exec st s (RCreate e k ttl) = other (CreateRequest st e k ttl s)"
| "request_exec st s (RInstructions e i tok) = other (Instructions st e i tok s)"
| "request_exec st s (ROwner e i tok) = other (Owner st e i tok s)"
| "request_exec st s (RSubmit e i tok inp) = other (Submit st e i tok inp s)"
| "request_exec st s (RAttempt e i tok g a) = other (Attempt st e i tok g a s)"
| "request_exec st s (RReserve svc e i tok inp) = other (Reserve st svc e i tok inp s)"
| "request_exec st s (RFinalize svc finalizing e e2 i tok inp) =
     other (fst (FinalizeRequest st svc finalizing id e e2 i tok inp s))"
| "request_exec st s (RAccept e i tok inp a attempt) = other (finalizeAttempt st e i tok inp a attempt s)"
| "request_exec st s (RAbandon e i tok inp) = other (Abandon st e i tok inp s)"
| "request_exec st s (ROpen svc e e2 i tok) =
     (case OpenRequest st svc id e e2 i tok s of (Inr op, s') \<Rightarrow> (s', Delivered op) | (Inl _, s') \<Rightarrow> (s', Answered))"
| "request_exec st s (RConsume e i tok key) =
     (case consumeObject st e i tok key s of (Inr _, s') \<Rightarrow> (s', Taken) | (Inl _, s') \<Rightarrow> (s', Answered))"
| "request_exec st s (RFinish e i key) = other (FinishOpen st e i key s)"
| "request_exec st s (RRevoke e i tok) = other (RevokeRequest st e i tok s)"
| "request_exec st s (RPurge e now limit) =
     (purgeRequests (rq_hasOutbox st) (rq_subject st) e now limit s, Answered)"
| "request_exec st s (RReconcile svc e limit) = other (ReconcileRequests st svc id e limit s)"
| "request_exec st s (RAcknowledge e job key) = other (AcknowledgeRequestCleanup e job key s)"

text \<open>Every event but creation, purge, scan and acknowledgement moves rows along their steps.\<close>

fun moves_rows :: "request_event \<Rightarrow> bool" where
  "moves_rows (RCreate e k ttl) = False"
| "moves_rows (RPurge e now limit) = False"
| "moves_rows ev = True"

lemmas operation_evolves = Instructions_evolves Owner_evolves Submit_evolves Attempt_evolves Reserve_evolves
  FinalizeRequest_evolves finalizeAttempt_evolves Abandon_evolves OpenRequest_evolves consumeObject_evolves
  FinishOpen_evolves RevokeRequest_evolves

lemma ReconcileRequests_frame:
  "requests (snd (ReconcileRequests st svc id e limit s)) = requests s \<and>
   request_payloads (snd (ReconcileRequests st svc id e limit s)) = request_payloads s"
  unfolding ReconcileRequests_def Let_def by (auto split: sum.splits option.splits prod.splits)

lemma request_exec_evolves:
  assumes "distinct (map r_id (requests s))" "moves_rows ev"
  shows "evolves s (fst (request_exec st s ev))"
proof (cases ev)
  case (ROpen svc e e2 i tok)
  have "fst (request_exec st s ev) = snd (OpenRequest st svc id e e2 i tok s)"
    by (simp add: ROpen split: prod.split sum.split)
  then show ?thesis using OpenRequest_evolves [OF assms(1)] by simp
next
  case (RConsume e i tok key)
  have "fst (request_exec st s ev) = snd (consumeObject st e i tok key s)"
    by (simp add: RConsume split: prod.split sum.split)
  then show ?thesis using consumeObject_evolves [OF assms(1)] by simp
next
  case (RReconcile svc e limit)
  then show ?thesis using ReconcileRequests_frame by (simp add: other_def evolves_same)
next
  case (RAcknowledge e job key)
  then show ?thesis by (simp add: other_def AcknowledgeRequestCleanup_def evolves_same)
qed (use assms in \<open>simp_all add: other_def operation_evolves\<close>)

lemma requests_ok_request_exec: "requests_ok s \<Longrightarrow> requests_ok (fst (request_exec st s ev))"
proof (cases "moves_rows ev")
  case True
  assume ok: "requests_ok s"
  from request_exec_evolves [OF requests_ok_distinct [OF ok] True] ok show ?thesis
    by (rule evolves_ok)
next
  case False
  assume "requests_ok s"
  with False show ?thesis
    by (cases ev) (simp_all add: other_def requests_ok_CreateRequest requests_ok_purgeRequests)
qed

interpretation request_machine: machine "request_exec st" requests_ok for st
  by unfold_locales (rule requests_ok_request_exec)

subsection \<open>One delivery per request\<close>

fun draws_other_id :: "string \<Rightarrow> request_event \<Rightarrow> bool" where
  "draws_other_id i (RCreate e k ttl) =
     (case draw e ''request capabilities'' of None \<Rightarrow> True | Some random \<Rightarrow> rawurl_encode (take 16 random) \<noteq> i)"
| "draws_other_id i ev = True"

fun delivers :: "string \<Rightarrow> request_event \<Rightarrow> request_result \<Rightarrow> bool" where
  "delivers i (ROpen svc e e2 j tok) (Delivered op) = (j = i)"
| "delivers i (RConsume e j tok key) Taken = (j = i)"
| "delivers i ev res = False"

lemma request_of_insert:
  "requests s' = requests s @ [r] \<Longrightarrow> r_id r \<noteq> i \<Longrightarrow> request_of s' i = request_of s i"
  by (simp add: sql_row_append split: option.split)

lemma spent_CreateRequest:
  assumes "request_spent i s" "draws_other_id i (RCreate e k ttl)"
  shows "request_spent i (snd (CreateRequest st e k ttl s))"
proof (cases "CreateRequest st e k ttl s")
  case (Pair res s')
  show ?thesis
  proof (cases res)
    case (Inl err)
    with Pair assms(1) show ?thesis by (auto dest: CreateRequest_Inl)
  next
    case (Inr c)
    from Pair [unfolded Inr] show ?thesis
    proof (rule CreateRequest_Inr)
      fix fp seconds random
      assume a: "draw e ''request capabilities'' = Some random" "rc_ID c = rawurl_encode (take 16 random)"
        "s' = s\<lparr>requests := requests s @ [new_request_row (rc_ID c) k fp (hash_or_nil (tokenHash (rc_SubmissionToken c)))
           (hash_or_nil (tokenHash (rc_RetrievalToken c))) (rc_ExpiresAt c)]\<rparr>"
      from a(1,2) assms(2) have "rc_ID c \<noteq> i" by simp
      then have "request_of s' i = request_of s i"
        using a(3) by (intro request_of_insert) (auto simp: new_request_row_def)
      with Pair assms(1) show ?thesis by (simp add: request_spent_def)
    qed
  qed
qed

lemma spent_purgeRequests:
  assumes "requests_ok s" "request_spent i s"
  shows "request_spent i (purgeRequests outb subject e now limit s)"
proof (cases "PurgeExpiredTx outb subject e now limit s")
  case (Pair res s')
  show ?thesis
  proof (cases res)
    case (Inr u)
    from Pair Inr obtain v s1 where 1: "end_reservations outb subject e now (lapsed_reservations now limit s) s = (Inr v, s1)"
      "delete_expired outb subject e now (expired_requests now limit s1) s1 = (Inr u, s')"
      by (auto simp: PurgeExpiredTx_def split: if_splits prod.splits sum.splits)
    have ev: "evolves s s1"
      using 1(1) by (rule end_reservations_evolves)
    have d: "distinct (map r_id (requests s1))" "\<forall>q\<in>set (request_payloads s1). rp_request_id q \<in> r_id ` set (requests s1)"
      using evolves_ok [OF ev assms(1)] by (auto simp: requests_ok_def)
    have "requests s' = sql_delete (\<lambda>r. r_id r \<in> set (expired_requests now limit s1)) (requests s1)"
      using delete_expired_effect [OF 1(2) d(1) distinct_expired [OF d(1)] d(2)] by auto
    with evolves_spent [OF ev assms(2)] d(1) Pair Inr show ?thesis
      by (auto simp: request_spent_def purgeRequests_def sql_row_delete [where key = r_id] split: option.splits)
  qed (use Pair assms in \<open>simp add: purgeRequests_def\<close>)
qed

lemma spent_request_exec:
  assumes "requests_ok s" "draws_other_id i ev" "request_spent i s"
  shows "request_spent i (fst (request_exec st s ev))"
proof (cases "moves_rows ev")
  case True
  from request_exec_evolves [OF requests_ok_distinct [OF assms(1)] True] assms(3) show ?thesis
    by (rule evolves_spent)
next
  case False
  with assms show ?thesis
    by (cases ev) (simp_all add: other_def spent_CreateRequest spent_purgeRequests del: draws_other_id.simps)
qed

lemma delivers_spends:
  assumes "requests_ok s" "delivers i ev (snd (request_exec st s ev))"
  shows "\<not> request_spent i s \<and> request_spent i (fst (request_exec st s ev))"
proof (cases ev)
  case (ROpen svc e e2 j tok)
  with assms(2) obtain op s' where o: "OpenRequest st svc id e e2 j tok s = (Inr op, s')" "j = i"
    by (auto split: prod.splits sum.splits)
  from OpenRequest_spends [OF o(1) requests_ok_distinct [OF assms(1)]] o ROpen show ?thesis by simp
next
  case (RConsume e j tok key)
  with assms(2) obtain u s' where c: "consumeObject st e j tok key s = (Inr u, s')" "j = i"
    by (auto split: prod.splits sum.splits)
  from consumeObject_spends [OF c(1) requests_ok_distinct [OF assms(1)]] c RConsume show ?thesis by simp
qed (use assms(2) in \<open>auto simp: other_def\<close>)

interpretation request_once: one_shot "request_exec st" requests_ok "draws_other_id i" "delivers i" "request_spent i" for st i
  by unfold_locales (auto dest: delivers_spends spent_request_exec)

text \<open>
  C7: A request is delivered at most once. Over every sequence of calls from a well-formed database, with
  any faults, clocks, stored objects, interleavings, reservations, purges and scans between them, at most
  one open of request \<open>i\<close> hands out its content, as long as no later creation draws the same identifier
  again.
\<close>

theorem request_delivered_once:
  assumes "requests_ok s" "list_all (draws_other_id i) evs"
  shows "length (filter (\<lambda>(ev, res). delivers i ev res) (zip evs (results (request_exec st) s evs))) \<le> 1"
  using assms by (rule request_once.at_most_one_hit)

text \<open>
  Every operation of the request store keeps the request tables well formed: unique identifiers and
  object keys, the CHECK clauses, a consumption time exactly on consumed rows, object keys only below the
  request prefix and only in states that use them, and the exact body for every inline submission that
  waits for its owner. This holds over every sequence of calls from the migrated database.
\<close>

theorem requests_invariant: "requests_ok (run (request_exec st) MigrateAPI evs)"
  by (rule request_machine.inv_run [OF requests_ok_MigrateAPI])

subsection \<open>The life cycle of a row\<close>

lemma purge_row:
  assumes "requests_ok s" "request_of s i = Some r"
  shows "case request_of (purgeRequests outb subject e now limit s) i of
      None \<Rightarrow> purgeable now r | Some r' \<Rightarrow> request_step\<^sup>*\<^sup>* r r'"
proof (cases "PurgeExpiredTx outb subject e now limit s")
  case (Pair res s')
  let ?L = "map fst (lapsed_reservations now limit s)" and ?X = "expired_requests now limit s"
  have d: "distinct (map r_id (requests s))" "\<forall>q\<in>set (request_payloads s). rp_request_id q \<in> r_id ` set (requests s)"
    using assms(1) by (auto simp: requests_ok_def)
  have r: "r \<in> set (requests s)" "r_id r = i"
    using sql_row_Some [OF assms(2)] by auto
  show ?thesis
  proof (cases res)
    case (Inr u)
    have L: "lapsed now r" if "i \<in> set ?L"
      using that r d(1) by (auto dest!: lapsed_reservations_sub simp: distinct_map inj_on_def)
    have X: "purgeable now r" if "i \<in> set ?X"
      using that r sql_top_keys(1) [OF d(1) r(1)] by (simp add: expired_requests_def)
    have "requests s' = sql_delete (\<lambda>r. r_id r \<in> set ?X) (sql_update (\<lambda>r. r_id r \<in> set ?L) ended (requests s))"
      using PurgeExpiredTx_effect [OF Pair [unfolded Inr] d] by auto
    moreover have "distinct (map r_id (sql_update (\<lambda>r. r_id r \<in> set ?L) ended (requests s)))"
      using d(1) by (simp add: map_key_update)
    ultimately have "request_of s' i = (if i \<in> set ?X then None else Some (if i \<in> set ?L then ended r else r))"
      using assms(2) r(2) by (simp add: sql_row_delete [where key = r_id] sql_row_update [where key = r_id])
    moreover have "request_step r (ended r)" if "i \<in> set ?L"
      unfolding ended_def using L [OF that] by (intro request_step.end_reservation) (auto simp: lapsed_def)
    ultimately show ?thesis
      using Pair Inr X by (auto simp: purgeRequests_def)
  qed (use Pair assms(2) in \<open>simp add: purgeRequests_def\<close>)
qed

lemma purge_no_row:
  assumes "requests_ok s" "request_of s i = None"
  shows "request_of (purgeRequests outb subject e now limit s) i = None"
proof (cases "PurgeExpiredTx outb subject e now limit s")
  case (Pair res s')
  have d: "distinct (map r_id (requests s))" "\<forall>q\<in>set (request_payloads s). rp_request_id q \<in> r_id ` set (requests s)"
    using assms(1) by (auto simp: requests_ok_def)
  show ?thesis
  proof (cases res)
    case (Inr u)
    have "set (map r_id (requests s')) \<subseteq> set (map r_id (requests s))"
      using PurgeExpiredTx_effect [OF Pair [unfolded Inr] d] by (auto simp: sql_delete_def sql_update_def)
    with assms(2) Pair Inr show ?thesis
      by (simp add: purgeRequests_def sql_row_None) (metis image_eqI image_iff subsetD)
  qed (use Pair assms(2) in \<open>simp add: purgeRequests_def\<close>)
qed

lemma create_row:
  "request_of s i = Some r \<Longrightarrow> request_of (snd (CreateRequest st e k ttl s)) i = Some r"
  "request_of s i = None \<Longrightarrow> request_of (snd (CreateRequest st e k ttl s)) i = Some r' \<Longrightarrow> stage_of r' = (''waiting'', 1)"
proof -
  obtain res s' where c: "CreateRequest st e k ttl s = (res, s')" by fastforce
  consider "s' = s" | r0 where "requests s' = requests s @ [r0]" "stage_of r0 = (''waiting'', 1)"
  proof (cases res)
    case (Inr cr)
    from c [unfolded Inr] show thesis
      by (rule CreateRequest_Inr) (rule that(2), auto simp: stage_of_def new_request_row_def)
  qed (use c that(1) CreateRequest_Inl in blast)
  then show "request_of s i = Some r \<Longrightarrow> request_of (snd (CreateRequest st e k ttl s)) i = Some r"
    "request_of s i = None \<Longrightarrow> request_of (snd (CreateRequest st e k ttl s)) i = Some r' \<Longrightarrow> stage_of r' = (''waiting'', 1)"
    by (cases; auto simp: c sql_row_append split: if_splits)+
qed

lemma evolves_no_row: "evolves s s' \<Longrightarrow> request_of s i = None \<Longrightarrow> request_of s' i = None"
  using arg_cong [OF evolves_ids [of s s'], of set] by (simp add: sql_row_None) (metis image_eqI image_iff)

text \<open>
  C30: The request store refines the abstract life cycle. Whatever the operation, creation, purge, scan and
  the halves of an interleaved call included, with any faults: each row that is still there has moved along
  the life cycle only, so its generation never falls or passes the limit, its key and expiry are fixed, and
  a request that was consumed, cancelled or made unavailable stays exactly that; a row is gone only after a
  purge that found it expired, and not an opened object inside its streaming grace; and a new row is there
  only after a creation, waiting in generation one.
\<close>

theorem request_life_cycle:
  assumes "requests_ok s"
  shows "(\<forall>r. request_of s i = Some r \<longrightarrow>
      (case request_of (fst (request_exec st s ev)) i of
         None \<Rightarrow> \<exists>e now limit. ev = RPurge e now limit \<and> purgeable now r
       | Some r' \<Rightarrow> life\<^sup>*\<^sup>* (stage_of r) (stage_of r') \<and>
           r_generation r \<le> r_generation r' \<and> r_generation r' \<le> MaxGeneration \<and>
           (r_state r \<in> {''consumed'', ''cancelled'', ''unavailable''} \<longrightarrow> stage_of r' = stage_of r) \<and>
           r_public_key r' = r_public_key r \<and> r_expires_at r' = r_expires_at r)) \<and>
    (\<forall>r'. request_of s i = None \<and> request_of (fst (request_exec st s ev)) i = Some r' \<longrightarrow>
      (\<exists>e k ttl. ev = RCreate e k ttl) \<and> stage_of r' = (''waiting'', 1))"
proof (intro conjI allI impI)
  let ?s = "fst (request_exec st s ev)"
  have d: "distinct (map r_id (requests s))" by (rule requests_ok_distinct [OF assms])
  fix r assume r: "request_of s i = Some r"
  have steps: "case request_of ?s i of None \<Rightarrow> \<exists>e now limit. ev = RPurge e now limit \<and> purgeable now r | Some r' \<Rightarrow> request_step\<^sup>*\<^sup>* r r'"
  proof (cases "moves_rows ev")
    case True
    then show ?thesis
      by (metis (no_types, lifting) evolves_row [OF request_exec_evolves [OF d True] r] option.simps(5))
  next
    case False
    then show ?thesis
    proof (cases ev)
      case (RPurge e now limit)
      with purge_row [OF assms r, where outb = "rq_hasOutbox st" and subject = "rq_subject st" and e = e and now = now and limit = limit] show ?thesis
        by (simp split: option.splits)
    qed (use create_row(1) [OF r] in \<open>simp_all add: other_def\<close>)
  qed
  show "case request_of ?s i of
         None \<Rightarrow> \<exists>e now limit. ev = RPurge e now limit \<and> purgeable now r
       | Some r' \<Rightarrow> life\<^sup>*\<^sup>* (stage_of r) (stage_of r') \<and>
           r_generation r \<le> r_generation r' \<and> r_generation r' \<le> MaxGeneration \<and>
           (r_state r \<in> {''consumed'', ''cancelled'', ''unavailable''} \<longrightarrow> stage_of r' = stage_of r) \<and>
           r_public_key r' = r_public_key r \<and> r_expires_at r' = r_expires_at r"
  proof (cases "request_of ?s i")
    case (Some r')
    with steps have r': "request_step\<^sup>*\<^sup>* r r'" by simp
    have "request_check r'"
      using requests_ok_row [OF requests_ok_request_exec [OF assms]] sql_row_Some [OF Some] by blast
    then have "r_generation r' \<le> MaxGeneration"
      by (simp add: request_check_def MaxGeneration_def)
    with Some life_rtrancl [OF request_steps_life [OF r']] request_steps_life [OF r'] request_steps_fixed [OF r']
    show ?thesis by (auto simp: stage_of_def)
  qed (use steps in simp)
next
  let ?s = "fst (request_exec st s ev)"
  fix r' assume n: "request_of s i = None \<and> request_of ?s i = Some r'"
  then have "\<not> moves_rows ev"
    using evolves_no_row [OF request_exec_evolves [OF requests_ok_distinct [OF assms], of ev st]] by force
  then show "\<exists>e k ttl. ev = RCreate e k ttl" "stage_of r' = (''waiting'', 1)"
    using n purge_no_row [OF assms] create_row(2)
    by (cases ev; force simp: other_def)+
qed

end
