(* ===== verification/Secret_Reaper.thy ===== *)
theory Secret_Reaper
  imports Secret_Delivery Request_Delivery
begin

text \<open>
  The reaper (internal/secrets/reaper.go and reconciliation.go): one transaction that claims expired and
  orphaned secrets, deletes their rows, queues the deletes of their objects, purges management rows past
  their time and runs the expiry pass of requests; and the scan of the bucket below
  \<open>managed/secrets/\<close>. The claim compares RFC3339Nano texts less their final Z and orders candidates by
  SQLite's \<open>datetime\<close> texts; rows that tie there are taken in table order.
\<close>

definition DefaultReaperBatchSize :: int where "DefaultReaperBatchSize = 50"

record reaper =
  rp_store :: store
  rp_requests :: "request_store option"
  rp_batchSize :: int

definition NewReaper ::
  "bool \<Rightarrow> store option \<Rightarrow> bool \<Rightarrow> request_store option \<Rightarrow> int \<Rightarrow> secret_error + reaper" where
  "NewReaper db st outb reqs batchSize =
     (if \<not> db then Inl (ErrSecret ''db is required'')
      else (case st of
        None \<Rightarrow> Inl (ErrSecret ''secret store is required'')
      | Some st \<Rightarrow>
          if \<not> outb then Inl (ErrSecret ''outbox is required'')
          else Inr \<lparr>rp_store = st, rp_requests = reqs,
                     rp_batchSize = (if batchSize \<le> 0 then DefaultReaperBatchSize else batchSize)\<rparr>))"

subsection \<open>Claiming\<close>

definition trim_le :: "time \<Rightarrow> time \<Rightarrow> bool" where
  "trim_le a b \<longleftrightarrow> str_le (rtrimZ (formatTime a)) (rtrimZ (formatTime b))"

definition reclaimable :: "duration \<Rightarrow> time \<Rightarrow> secret_row \<Rightarrow> bool" where
  "reclaimable ttl now r \<longleftrightarrow> s_reclaim_enqueued_at r = None \<and> s_consumed_at r = None \<and>
     (trim_le (s_expires_at r) now \<or> (s_state r = statePendingUpload \<and> trim_le (s_created_at r) (now - ttl)))"

text \<open>The instant a row became reclaimable, as SQLite's text.\<close>

definition reclaimable_since :: "sqlite \<Rightarrow> duration \<Rightarrow> secret_row \<Rightarrow> string" where
  "reclaimable_since db ttl r =
     (let expires = datetime db (s_expires_at r);
          orphaned = datetime db (s_created_at r + quot ttl Second * Second) in
      if s_state r = stateActive then expires else if str_le expires orphaned then expires else orphaned)"

definition claim_order :: "sqlite \<Rightarrow> duration \<Rightarrow> secret_row \<Rightarrow> secret_row \<Rightarrow> bool" where
  "claim_order db ttl a b \<longleftrightarrow> str_le (reclaimable_since db ttl a) (reclaimable_since db ttl b)"

definition candidates :: "store \<Rightarrow> time \<Rightarrow> int \<Rightarrow> api \<Rightarrow> string list" where
  "candidates st now limit s =
     map s_id (sql_top (claim_order (engine st) (pendingTTL st)) (nat limit)
       (filter (reclaimable (pendingTTL st) now) (secrets s)))"

definition claimed_row :: "time \<Rightarrow> secret_row \<Rightarrow> secret_row" where
  "claimed_row now r = r\<lparr>s_reclaim_enqueued_at := Some now, s_updated_at := now\<rparr>"

text \<open>The claiming statement: the rows it returns and the state it leaves.\<close>

definition claimReclaimable :: "store \<Rightarrow> time \<Rightarrow> int \<Rightarrow> api \<Rightarrow> secret_row list \<times> api" where
  "claimReclaimable st now limit s =
     (let ids = candidates st now limit s; s' = update_secrets (\<lambda>r. s_id r \<in> set ids) (claimed_row now) s in
      (filter (\<lambda>r. s_id r \<in> set ids) (secrets s'), s'))"

definition reclaim_reason :: "secret_row \<Rightarrow> string" where
  "reclaim_reason c = (if s_state c = statePendingUpload then ReasonOrphan else ReasonExpired)"

definition reclaimRow :: "store \<Rightarrow> env \<Rightarrow> secret_row \<Rightarrow> time \<Rightarrow> api \<Rightarrow> (secret_error + unit) \<times> api" where
  "reclaimRow st e c now s =
     (case (if s_state c = statePendingUpload then recordManagementOutcomeTx e (s_id c) ''unavailable'' s else (Inr (), s)) of
        (Inl err, s1) \<Rightarrow> (Inl err, s1)
      | (Inr _, s1) \<Rightarrow>
        (case ReclaimTx e (s_id c) s1 of
           (Inl err, s2) \<Rightarrow> (Inl err, s2)
         | (Inr _, s2) \<Rightarrow>
             if s_storage_backend c \<noteq> StorageS3 then (Inr (), s2)
             else (case NewJobID e (''reclaim '' @ s_id c) of
               None \<Rightarrow> (Inl (ErrSecret ''generate object delete job id''), s2)
             | Some jobID \<Rightarrow>
                 (case enqueue_event (outboxSubject st) (clock e 9) (\<lambda>l. fails e (l @ '' '' @ s_id c))
                         \<lparr>JobID = jobID, JobKind = KindDeleteOCIObject, SecretID = [], ObjectKey = s_storage_key c,
                          Reason = reclaim_reason c, RequestedAt = now\<rparr> s2 of
                    (Inl _, s3) \<Rightarrow> (Inl (ErrSecret ''enqueue object delete''), s3)
                  | (Inr _, s3) \<Rightarrow> (Inr (), s3)))))"

fun reclaim_rows :: "store \<Rightarrow> env \<Rightarrow> time \<Rightarrow> secret_row list \<Rightarrow> api \<Rightarrow> (secret_error + unit) \<times> api" where
  "reclaim_rows st e now [] s = (Inr (), s)"
| "reclaim_rows st e now (c # cs) s =
     (case reclaimRow st e c now s of
        (Inl err, s') \<Rightarrow> (Inl err, s')
      | (Inr _, s') \<Rightarrow> reclaim_rows st e now cs s')"

definition claimExpired :: "reaper \<Rightarrow> env \<Rightarrow> api \<Rightarrow> (secret_error + nat) \<times> api" where
  "claimExpired r e s =
     (let st = rp_store r; now = clock e 0 in
      if fails e ''acquire reaper connection'' then (Inl (ErrSecret ''acquire reaper connection''), s)
      else if fails e ''begin reaper claim tx'' then (Inl (ErrSecret ''begin reaper claim tx''), s)
      else if fails e ''claim reclaimable secrets'' then (Inl (ErrSecret ''claim reclaimable secrets''), s)
      else (case claimReclaimable st now (rp_batchSize r) s of (batch, s1) \<Rightarrow>
        if fails e ''scan claimed secrets'' then (Inl (ErrSecret ''scan claimed secrets''), s)
        else (case reclaim_rows st e now batch s1 of
          (Inl err, _) \<Rightarrow> (Inl err, s)
        | (Inr _, s2) \<Rightarrow>
        (case purgeManagementTx (engine st) e now (rp_batchSize r) s2 of
          (Inl err, _) \<Rightarrow> (Inl err, s)
        | (Inr _, s3) \<Rightarrow>
        (case PurgeExpiredTx True (outboxSubject st) e now (rp_batchSize r) s3 of
          (Inl _, _) \<Rightarrow> (Inl (ErrSecret ''purge expired requests''), s)
        | (Inr _, s4) \<Rightarrow>
            if fails e ''commit reaper claim tx'' then (Inl (ErrSecret ''commit reaper claim tx''), s)
            else (Inr (length batch),
                  s4\<lparr>ActiveUploads := ActiveUploads s4 -
                       int (sql_count (\<lambda>c. s_state c = statePendingUpload) batch)\<rparr>))))))"

subsection \<open>The scan\<close>

definition protectObjectTx :: "store \<Rightarrow> env \<Rightarrow> time \<Rightarrow> api \<Rightarrow> string \<Rightarrow> string + bool" where
  "protectObjectTx st e now s key =
     (if fails e (''check live object protection '' @ key) then Inl ''check live object protection''
      else (case sql_row (\<lambda>r. s_storage_backend r = StorageS3 \<and> s_storage_key r = key \<and> s_reclaim_enqueued_at r = None)
                   (secrets s) of
        None \<Rightarrow> Inr False
      | Some r \<Rightarrow>
          (case s_consumed_at r of
             Some consumed \<Rightarrow> Inr (now < consumed + openObjectGrace)
           | None \<Rightarrow>
               if \<not> now < s_expires_at r then Inr False
               else if s_state r = stateActive then Inr True
               else if s_state r \<noteq> statePendingUpload then Inl ''unknown protected delivery state''
               else Inr (now < s_created_at r + pendingTTL st))))"

definition ReconcileOnce ::
  "reaper \<Rightarrow> s3 \<Rightarrow> (api \<Rightarrow> api) \<Rightarrow> env \<Rightarrow> api \<Rightarrow> (secret_error + nat) \<times> api" where
  "ReconcileOnce r svc meanwhile e s =
     (let st = rp_store r in
      if \<not> hasObjects st then (Inr 0, s)
      else if fails e ''read object reconciliation cursor''
      then (Inl (ErrSecret ''read object reconciliation cursor''), s)
      else let limit = min (rp_batchSize r) 1000; cursor = continuation_token (object_cursor s);
               generation = cur_generation (object_cursor s); s1 = meanwhile s;
               claimed = (cur_generation (object_cursor s1) = generation) in
        (case List_objects svc managedObjectPrefix cursor limit of
           Inl err \<Rightarrow>
             if err = ErrInvalidCursor \<and> cursor \<noteq> [] then
               (if fails e ''reset object reconciliation cursor''
                then (Inl (ErrSecret ''reset object reconciliation cursor''), s1)
                else (Inl (ErrSecret ''list managed objects''),
                      if claimed then s1\<lparr>object_cursor := \<lparr>continuation_token = [], cur_generation = generation + 1\<rparr>\<rparr>
                      else s1))
             else (Inl (ErrSecret ''list managed objects''), s1)
         | Inr page \<Rightarrow>
             if int (length (Keys page)) > limit \<or> (NextCursor page \<noteq> [] \<and> NextCursor page = cursor)
             then (Inl (ErrSecret ''invalid object listing page''), s1)
             else if fails e ''begin object reconciliation'' then (Inl (ErrSecret ''begin object reconciliation''), s1)
             else if fails e ''advance object reconciliation cursor''
             then (Inl (ErrSecret ''advance object reconciliation cursor''), s1)
             else if \<not> claimed then (Inr 0, s1)
             else (case reconcile_keys managedObjectPrefix (protectObjectTx st e (clock e 1) s1) True
                          (outboxSubject st) e (clock e 1) (Keys page) (object_pending s1, outbox_events s1) of
               (Inl err, _) \<Rightarrow> (Inl (ErrSecret err), s1)
             | (Inr n, (pending, jobs)) \<Rightarrow>
                 if fails e ''commit object reconciliation'' then (Inl (ErrSecret ''commit object reconciliation''), s1)
                 else (Inr n, s1\<lparr>object_cursor := \<lparr>continuation_token = NextCursor page, cur_generation = generation + 1\<rparr>,
                                 object_pending := pending, outbox_events := jobs\<rparr>))))"

definition AcknowledgeObjectCleanup :: "env \<Rightarrow> string \<Rightarrow> string \<Rightarrow> api \<Rightarrow> secret_error option \<times> api" where
  "AcknowledgeObjectCleanup e jobID key s =
     (if trimSpace jobID = [] \<or> \<not> hasPrefix key managedObjectPrefix \<or> key = managedObjectPrefix
      then (Some ErrInvalidInput, s)
      else if fails e ''acknowledge object cleanup'' then (Some (ErrSecret ''acknowledge object cleanup''), s)
      else (None, s\<lparr>object_pending :=
              sql_delete (\<lambda>p. pend_object_key p = key \<and> pend_job_id p = jobID) (object_pending s)\<rparr>))"

text \<open>A tick runs the claim, the scan and the scan of requests, each whether or not the one before failed;
  \<open>mw\<close> and \<open>mwr\<close> are what others commit while the two scans list their page.\<close>

definition ClaimOnce ::
  "reaper \<Rightarrow> s3 \<Rightarrow> (api \<Rightarrow> api) \<Rightarrow> (api \<Rightarrow> api) \<Rightarrow> env \<Rightarrow> env \<Rightarrow> env \<Rightarrow> api \<Rightarrow>
   (nat \<times> secret_error option \<times> secret_error option \<times> request_error option) \<times> api" where
  "ClaimOnce r svc mw mwr e1 e2 e3 s =
     (case claimExpired r e1 s of (res1, s1) \<Rightarrow>
      (case ReconcileOnce r svc mw e2 s1 of (res2, s2) \<Rightarrow>
       (let err = (\<lambda>x. case x of Inl e \<Rightarrow> Some e | Inr _ \<Rightarrow> None) in
        case rp_requests r of
          None \<Rightarrow> ((case res1 of Inl _ \<Rightarrow> 0 | Inr n \<Rightarrow> n, err res1, err res2, None), s2)
        | Some rq \<Rightarrow>
            (case ReconcileRequests rq svc mwr e3 (rp_batchSize r) s2 of (res3, s3) \<Rightarrow>
               ((case res1 of Inl _ \<Rightarrow> 0 | Inr n \<Rightarrow> n, err res1, err res2,
                 case res3 of Inl e \<Rightarrow> Some e | Inr _ \<Rightarrow> None), s3)))))"

subsection \<open>What a claim does\<close>

lemma ReclaimTx_Inr:
  assumes "ReclaimTx e i s = (Inr u, s')"
  shows "s' = s\<lparr>secrets := sql_delete (\<lambda>r. s_id r = i \<and> s_reclaim_enqueued_at r \<noteq> None) (secrets s),
      secret_payloads := sql_delete (\<lambda>q. p_secret_id q = i) (secret_payloads s)\<rparr>"
proof -
  have "sql_delete (\<lambda>q. \<exists>r\<in>set t. (s_id r = i \<and> s_reclaim_enqueued_at r \<noteq> None) \<and> s_id r = p_secret_id q)
      (sql_delete (\<lambda>q. p_secret_id q = i) ps) = sql_delete (\<lambda>q. p_secret_id q = i) ps" for t ps
    by (auto simp: sql_delete_def intro!: filter_cong)
  from assms this [of "secrets s" "secret_payloads s"] show ?thesis
    unfolding ReclaimTx_def delete_secrets_def Let_def by (simp split: if_splits del: not_None_eq)
qed

text \<open>The jobs queued for the claimed rows with an object.\<close>

definition reclaim_jobs :: "time \<Rightarrow> secret_row list \<Rightarrow> outbox_row list \<Rightarrow> bool" where
  "reclaim_jobs now cs rs \<longleftrightarrow> list_all2 (\<lambda>c r. o_state r = StatePending \<and>
     o_payload r = \<lparr>JobID = o_id r, JobKind = KindDeleteOCIObject, SecretID = [], ObjectKey = s_storage_key c,
        Reason = reclaim_reason c, RequestedAt = now\<rparr>) (filter (\<lambda>c. s_storage_backend c = StorageS3) cs) rs"

definition reclaimed :: "secret_row list \<Rightarrow> outbox_row list \<Rightarrow> api \<Rightarrow> api" where
  "reclaimed cs rs s = s\<lparr>secrets := sql_delete (\<lambda>r. s_id r \<in> s_id ` set cs \<and> s_reclaim_enqueued_at r \<noteq> None) (secrets s),
     secret_payloads := sql_delete (\<lambda>q. p_secret_id q \<in> s_id ` set cs) (secret_payloads s),
     secret_management := sql_update (\<lambda>m. m_outcome m = None \<and> m_secret_id m \<in> s_id ` {c \<in> set cs. pending_row_state c})
       (\<lambda>m. m\<lparr>m_outcome := Some ''unavailable''\<rparr>) (secret_management s),
     outbox_events := outbox_events s @ rs\<rparr>"

lemma reclaimRow_Inr:
  assumes "reclaimRow st e c now s = (Inr u, s')"
  shows "\<exists>rs. s' = reclaimed [c] rs s \<and> reclaim_jobs now [c] rs"
proof -
  define s1 where "s1 = (if pending_row_state c then with_outcome (s_id c) ''unavailable'' s else s)"
  from assms obtain v s2 where r: "ReclaimTx e (s_id c) s1 = (Inr v, s2)"
    by (auto simp: reclaimRow_def s1_def dest!: recordManagementOutcomeTx_ok split: prod.splits sum.splits if_splits)
  have m: "secret_management s1 = sql_update (\<lambda>m. m_outcome m = None \<and> m_secret_id m \<in> s_id ` {c' \<in> set [c]. pending_row_state c'})
      (\<lambda>m. m\<lparr>m_outcome := Some ''unavailable''\<rparr>) (secret_management s)"
    by (auto simp: s1_def with_outcome_def sql_update_def intro!: map_cong [OF refl] map_idI [symmetric])
  have s2: "s2 = s\<lparr>secrets := sql_delete (\<lambda>r. s_id r \<in> s_id ` set [c] \<and> s_reclaim_enqueued_at r \<noteq> None) (secrets s),
      secret_payloads := sql_delete (\<lambda>q. p_secret_id q \<in> s_id ` set [c]) (secret_payloads s), secret_management := secret_management s1\<rparr>"
    using ReclaimTx_Inr [OF r] by (auto simp: s1_def with_outcome_def)
  show ?thesis
  proof (cases "s_storage_backend c = StorageS3")
    case False
    with assms r have "s' = s2"
      by (auto simp: reclaimRow_def s1_def dest!: recordManagementOutcomeTx_ok split: prod.splits sum.splits if_splits)
    with False s2 m show ?thesis
      by (intro exI [of _ "[]"]) (simp add: reclaimed_def reclaim_jobs_def)
  next
    case True
    with assms r obtain jobID row where "enqueue_event (outboxSubject st) (clock e 9) (\<lambda>l. fails e (l @ '' '' @ s_id c))
        \<lparr>JobID = jobID, JobKind = KindDeleteOCIObject, SecretID = [], ObjectKey = s_storage_key c,
         Reason = reclaim_reason c, RequestedAt = now\<rparr> s2 = (Inr row, s')"
      by (auto simp: reclaimRow_def s1_def dest!: recordManagementOutcomeTx_ok
          split: prod.splits sum.splits if_splits option.splits)
    from enqueue_event_Inr [OF this] True s2 m show ?thesis
      by (intro exI [of _ "[row]"]) (simp add: reclaimed_def reclaim_jobs_def)
  qed
qed

lemma reclaimed_append: "reclaimed ds qs (reclaimed cs rs s) = reclaimed (cs @ ds) (rs @ qs) s"
proof -
  have "sql_update (\<lambda>m. m_outcome m = None \<and> m_secret_id m \<in> B) f (sql_update (\<lambda>m. m_outcome m = None \<and> m_secret_id m \<in> A) f t) =
      sql_update (\<lambda>m. m_outcome m = None \<and> m_secret_id m \<in> A \<union> B) f t"
    if "f = (\<lambda>m. m\<lparr>m_outcome := Some ''unavailable''\<rparr>)" for A B f and t :: "mgmt_row list"
    using that by (auto simp: sql_update_def)
  moreover have "s_id ` {c. (c \<in> set cs \<or> c \<in> set ds) \<and> pending_row_state c} =
      s_id ` {c \<in> set cs. pending_row_state c} \<union> s_id ` {c \<in> set ds. pending_row_state c}"
    by auto
  ultimately show ?thesis
    by (simp add: reclaimed_def sql_delete_delete image_Un conj_disj_distribR)
qed

lemma reclaim_jobs_append: "reclaim_jobs now cs rs \<Longrightarrow> reclaim_jobs now ds qs \<Longrightarrow> reclaim_jobs now (cs @ ds) (rs @ qs)"
  by (simp add: reclaim_jobs_def list_all2_appendI)

lemma reclaim_rows_Inr:
  "reclaim_rows st e now cs s = (Inr u, s') \<Longrightarrow> \<exists>rs. s' = reclaimed cs rs s \<and> reclaim_jobs now cs rs"
proof (induction cs arbitrary: s)
  case Nil
  then show ?case
    by (intro exI [of _ "[]"]) (auto simp: reclaimed_def reclaim_jobs_def sql_delete_def sql_update_def)
next
  case (Cons c cs)
  then obtain v s1 where 1: "reclaimRow st e c now s = (Inr v, s1)" "reclaim_rows st e now cs s1 = (Inr u, s')"
    by (auto split: prod.splits sum.splits)
  from reclaimRow_Inr [OF 1(1)] obtain rs where a: "s1 = reclaimed [c] rs s" "reclaim_jobs now [c] rs" by blast
  from Cons.IH [OF 1(2)] obtain qs where b: "s' = reclaimed cs qs s1" "reclaim_jobs now cs qs" by blast
  from reclaimed_append [of cs qs "[c]" rs s] reclaim_jobs_append [OF a(2) b(2)] a(1) b(1) show ?case
    by (intro exI [of _ "rs @ qs"]) simp
qed

lemma claimed_row_simps [simp]:
  "s_id (claimed_row now r) = s_id r" "s_state (claimed_row now r) = s_state r"
  "s_storage_backend (claimed_row now r) = s_storage_backend r" "s_storage_key (claimed_row now r) = s_storage_key r"
  "s_reclaim_enqueued_at (claimed_row now r) = Some now" "s_consumed_at (claimed_row now r) = s_consumed_at r"
  by (simp_all add: claimed_row_def)

lemma candidates_in_table: "set (candidates st now limit s) \<subseteq> s_id ` set (secrets s)"
  by (auto simp: candidates_def dest!: in_sql_topD)

lemma distinct_candidates: "distinct (map s_id (secrets s)) \<Longrightarrow> distinct (candidates st now limit s)"
  unfolding candidates_def by (rule distinct_sql_top) (simp add: distinct_map_filter)

lemma candidates_ids: "set (candidates st now limit s) \<subseteq> s_id ` set (secrets s)"
  by (auto simp: candidates_def dest!: in_sql_topD)

text \<open>The state after the claimed rows are gone.\<close>

definition swept :: "string set \<Rightarrow> outbox_row list \<Rightarrow> api \<Rightarrow> api" where
  "swept ids rs s = s\<lparr>secrets := sql_delete (\<lambda>r. s_id r \<in> ids) (secrets s),
     secret_payloads := sql_delete (\<lambda>q. p_secret_id q \<in> ids) (secret_payloads s),
     secret_management := sql_update (\<lambda>m. m_outcome m = None \<and>
         m_secret_id m \<in> s_id ` {r \<in> set (secrets s). s_id r \<in> ids \<and> pending_row_state r})
       (\<lambda>m. m\<lparr>m_outcome := Some ''unavailable''\<rparr>) (secret_management s),
     outbox_events := outbox_events s @ rs\<rparr>"

lemma reclaim_jobs_claimed:
  "reclaim_jobs now (map (claimed_row now) cs) rs \<longleftrightarrow> reclaim_jobs now cs rs"
  by (simp add: reclaim_jobs_def filter_map comp_def list_all2_map1 reclaim_reason_def)

lemma claim_effect:
  assumes "claimReclaimable st now limit s = (batch, s1)" "reclaim_rows st e now batch s1 = (Inr u, s2)"
    "distinct (map s_id (secrets s))"
  defines "ids \<equiv> candidates st now limit s"
  shows "\<exists>rs. s2 = swept (set ids) rs s \<and> reclaim_jobs now (filter (\<lambda>r. s_id r \<in> set ids) (secrets s)) rs \<and>
    length batch = length ids \<and>
    sql_count pending_row_state batch = sql_count (\<lambda>r. s_id r \<in> set ids \<and> pending_row_state r) (secrets s)"
proof -
  let ?p = "\<lambda>r. s_id r \<in> set ids"
  have upd: "filter ?p (sql_update ?p (claimed_row now) t) = map (claimed_row now) (filter ?p t)" for t
    by (induction t) (auto simp: sql_update_def)
  have s1: "s1 = update_secrets ?p (claimed_row now) s" and b: "batch = map (claimed_row now) (filter ?p (secrets s))"
    using assms(1) upd unfolding claimReclaimable_def Let_def ids_def [symmetric]
    by (auto simp: update_secrets_def)
  have idb: "s_id ` set batch = set ids"
    using candidates_in_table [of st now limit s] unfolding b ids_def
    by (auto simp: image_image)
  have pend: "s_id ` {c \<in> set batch. pending_row_state c} = s_id ` {r \<in> set (secrets s). ?p r \<and> pending_row_state r}"
  proof -
    have "{c \<in> set batch. pending_row_state c} = claimed_row now ` {r \<in> set (secrets s). ?p r \<and> pending_row_state r}"
      unfolding b by auto
    then show ?thesis by (simp add: image_image)
  qed
  from reclaim_rows_Inr [OF assms(2)] obtain rs where r: "s2 = reclaimed batch rs s1" "reclaim_jobs now batch rs" by blast
  have del: "sql_delete (\<lambda>r. ?p r \<and> s_reclaim_enqueued_at r \<noteq> None) (sql_update ?p (claimed_row now) t) = sql_delete ?p t" for t
    by (induction t) (auto simp: sql_delete_def sql_update_def)
  have "s2 = swept (set ids) rs s"
    unfolding r(1) reclaimed_def swept_def idb pend using s1 by (simp add: update_secrets_def del [simplified])
  moreover have "length batch = length ids"
  proof -
    have "distinct (map s_id batch)"
      using assms(3) unfolding b by (simp add: comp_def distinct_map_filter)
    moreover have "distinct ids"
      using assms(3) unfolding ids_def by (rule distinct_candidates)
    ultimately show ?thesis
      using idb by (metis distinct_card length_map set_map)
  qed
  moreover have "sql_count pending_row_state batch = sql_count (\<lambda>r. ?p r \<and> pending_row_state r) (secrets s)"
    unfolding b by (simp add: sql_count_def filter_map comp_def conj_commute)
  ultimately show ?thesis
    using r(2) b reclaim_jobs_claimed by auto
qed

subsection \<open>The invariant of the secret tables\<close>

lemma secret_tables_ok_swept: "secret_tables_ok s \<Longrightarrow> secret_tables_ok (swept ids rs s)"
proof -
  assume ok: "secret_tables_ok s"
  have "table_ok m_secret_id mgmt_check (secret_management (swept ids rs s))"
    using ok unfolding swept_def secret_tables_ok_def by (auto simp: mgmt_check_def intro!: table_ok_update)
  with ok show ?thesis
    by (auto simp: secret_tables_ok_def swept_def table_ok_delete)
qed

lemma purgeManagementTx_Inr:
  assumes "purgeManagementTx db e now limit s = (Inr u, s')"
  obtains ids gone where "s' = s\<lparr>secrets := sql_delete (\<lambda>r. s_consumed_at r \<noteq> None \<and> s_id r \<in> ids) (secrets s),
      secret_payloads := sql_delete (\<lambda>q. \<exists>r\<in>set (secrets s). (s_consumed_at r \<noteq> None \<and> s_id r \<in> ids) \<and> s_id r = p_secret_id q)
        (secret_payloads s),
      secret_management := sql_delete (\<lambda>m. m_secret_id m \<in> gone) (secret_management s)\<rparr>"
    "ids = set (expired_management db now limit s)"
    "gone = set (expired_management db now limit (delete_secrets (\<lambda>r. s_consumed_at r \<noteq> None \<and> s_id r \<in> ids) s))"
  using assms by (auto simp: purgeManagementTx_def Let_def delete_secrets_def split: if_splits)

lemma secret_tables_ok_purge:
  assumes "secret_tables_ok s" "purgeManagementTx db e now limit s = (Inr u, s')"
  shows "secret_tables_ok s' \<and> sql_count pending_row_state (secrets s') = sql_count pending_row_state (secrets s)"
proof -
  from assms(2) obtain ids gone where p: "s' = s\<lparr>secrets := sql_delete (\<lambda>r. s_consumed_at r \<noteq> None \<and> s_id r \<in> ids) (secrets s),
      secret_payloads := sql_delete (\<lambda>q. \<exists>r\<in>set (secrets s). (s_consumed_at r \<noteq> None \<and> s_id r \<in> ids) \<and> s_id r = p_secret_id q)
        (secret_payloads s),
      secret_management := sql_delete (\<lambda>m. m_secret_id m \<in> gone) (secret_management s)\<rparr>"
    by (rule purgeManagementTx_Inr)
  have "sql_count (\<lambda>r. (s_consumed_at r \<noteq> None \<and> s_id r \<in> ids) \<and> pending_row_state r) (secrets s) = 0"
    using assms(1) by (auto simp: sql_count_0 secret_tables_ok_def table_ok_def list_all_iff secret_row_ok_def)
  then have "sql_count pending_row_state (secrets s') = sql_count pending_row_state (secrets s)"
    using sql_count_delete [of pending_row_state "\<lambda>r. s_consumed_at r \<noteq> None \<and> s_id r \<in> ids" "secrets s"] p by simp
  moreover have "\<forall>q\<in>set (secret_payloads s'). p_secret_id q \<in> s_id ` set (secrets s')"
  proof
    fix q assume q: "q \<in> set (secret_payloads s')"
    then obtain r where "r \<in> set (secrets s)" "s_id r = p_secret_id q"
      using assms(1) p by (auto simp: secret_tables_ok_def image_iff)
    with q show "p_secret_id q \<in> s_id ` set (secrets s')"
      by (auto simp: p image_iff intro!: exI [of _ r])
  qed
  then have "secret_tables_ok s'"
    using assms(1) unfolding secret_tables_ok_def by (simp add: p table_ok_delete)
  ultimately show ?thesis by blast
qed

lemma secret_tables_ok_frame:
  "secrets s' = secrets s \<Longrightarrow> secret_payloads s' = secret_payloads s \<Longrightarrow> secret_management s' = secret_management s \<Longrightarrow>
   secret_tables_ok s' = secret_tables_ok s"
  by (simp add: secret_tables_ok_def)

lemma claimExpired_Inl: "claimExpired r e s = (Inl err, s') \<Longrightarrow> s' = s"
  by (auto simp: claimExpired_def Let_def split: if_splits prod.splits sum.splits)

text \<open>The whole effect of a committed claim: the sweep of the candidates, the purge of management rows, and the
  expiry pass of requests.\<close>

lemma claimExpired_Inr:
  assumes "claimExpired r e s = (Inr n, s')" "secrets_ok s" "requests_ok s"
  defines "st \<equiv> rp_store r" and "now \<equiv> clock e 0"
  defines "ids \<equiv> candidates st now (rp_batchSize r) s"
  obtains rs s3 s4 where "n = length ids" "reclaim_jobs now (filter (\<lambda>x. s_id x \<in> set ids) (secrets s)) rs"
    "purgeManagementTx (engine st) e now (rp_batchSize r) (swept (set ids) rs s) = (Inr (), s3)"
    "PurgeExpiredTx True (outboxSubject st) e now (rp_batchSize r) s3 = (Inr (), s4)"
    "s' = s4\<lparr>ActiveUploads := ActiveUploads s4 - int (sql_count (\<lambda>x. s_id x \<in> set ids \<and> pending_row_state x) (secrets s))\<rparr>"
proof -
  obtain batch s1 where c: "claimReclaimable st now (rp_batchSize r) s = (batch, s1)" by fastforce
  from assms(1) c obtain u2 s2 u3 s3 u4 s4 where x: "reclaim_rows st e now batch s1 = (Inr u2, s2)"
    "purgeManagementTx (engine st) e now (rp_batchSize r) s2 = (Inr u3, s3)"
    "PurgeExpiredTx True (outboxSubject st) e now (rp_batchSize r) s3 = (Inr u4, s4)"
    "n = length batch" "s' = s4\<lparr>ActiveUploads := ActiveUploads s4 - int (sql_count pending_row_state batch)\<rparr>"
    unfolding st_def now_def by (auto simp: claimExpired_def Let_def split: if_splits prod.splits sum.splits)
  from claim_effect [OF c x(1) secrets_ok_distinct [OF assms(2)]] obtain rs where
    "s2 = swept (set ids) rs s" "reclaim_jobs now (filter (\<lambda>x. s_id x \<in> set ids) (secrets s)) rs" "length batch = length ids"
    "sql_count pending_row_state batch = sql_count (\<lambda>x. s_id x \<in> set ids \<and> pending_row_state x) (secrets s)"
    unfolding ids_def by blast
  with x show thesis by (intro that [of rs s3 s4]) auto
qed

lemma requests_swept: "requests (swept ids rs s) = requests s" "request_payloads (swept ids rs s) = request_payloads s"
  by (simp_all add: swept_def)

lemma purgeManagementTx_frame:
  "purgeManagementTx db e now limit s = (Inr u, s') \<Longrightarrow>
   requests s' = requests s \<and> request_payloads s' = request_payloads s \<and> ActiveUploads s' = ActiveUploads s \<and>
   outbox_events s' = outbox_events s"
  by (auto simp: purgeManagementTx_def Let_def delete_secrets_def split: if_splits)

lemma PurgeExpiredTx_frame:
  assumes "PurgeExpiredTx outb subject e now limit s = (Inr u, s')" "requests_ok s"
  shows "secrets s' = secrets s \<and> secret_payloads s' = secret_payloads s \<and> secret_management s' = secret_management s \<and>
    ActiveUploads s' = ActiveUploads s \<and> (\<exists>rs. outbox_events s' = outbox_events s @ rs)"
  using PurgeExpiredTx_effect [OF assms(1)] assms(2) by (auto simp: requests_ok_def)

lemma requests_ok_claim_parts:
  assumes "requests_ok s" "purgeManagementTx db e now limit (swept ids rs s) = (Inr u, s3)"
  shows "requests_ok s3"
  using assms purgeManagementTx_frame [OF assms(2)] requests_ok_cong [of s3 s] by (simp add: requests_swept)

lemma claimExpired_ok:
  assumes "secrets_ok s" "requests_ok s"
  shows "secrets_ok (snd (claimExpired r e s)) \<and> requests_ok (snd (claimExpired r e s))"
proof (cases "claimExpired r e s")
  case (Pair res s')
  show ?thesis
  proof (cases res)
    case (Inl err)
    with Pair assms show ?thesis by (auto dest: claimExpired_Inl)
  next
    case (Inr n)
    let ?ids = "set (candidates (rp_store r) (clock e 0) (rp_batchSize r) s)"
    from Pair [unfolded Inr] assms obtain rs s3 s4 where c:
      "purgeManagementTx (engine (rp_store r)) e (clock e 0) (rp_batchSize r) (swept ?ids rs s) = (Inr (), s3)"
      "PurgeExpiredTx True (outboxSubject (rp_store r)) e (clock e 0) (rp_batchSize r) s3 = (Inr (), s4)"
      "s' = s4\<lparr>ActiveUploads := ActiveUploads s4 - int (sql_count (\<lambda>x. s_id x \<in> ?ids \<and> pending_row_state x) (secrets s))\<rparr>"
      by (rule claimExpired_Inr)
    have rok: "requests_ok s3"
      using assms(2) c(1) by (rule requests_ok_claim_parts)
    have t: "secret_tables_ok (swept ?ids rs s)"
      using assms(1) by (simp add: secrets_ok_def secret_tables_ok_swept)
    note p = secret_tables_ok_purge [OF t c(1)] and f = PurgeExpiredTx_frame [OF c(2) rok]
    have "secret_tables_ok s'"
      using p f c(3) by (simp add: secret_tables_ok_def)
    moreover have "ActiveUploads s' = int (sql_count pending_row_state (secrets s'))"
    proof -
      have "sql_count pending_row_state (sql_delete (\<lambda>x. s_id x \<in> ?ids) (secrets s)) +
          sql_count (\<lambda>x. s_id x \<in> ?ids \<and> pending_row_state x) (secrets s) = sql_count pending_row_state (secrets s)"
        by (rule sql_count_delete)
      moreover have "ActiveUploads s4 = ActiveUploads s"
        using f purgeManagementTx_frame [OF c(1)] by (simp add: swept_def)
      ultimately show ?thesis
        using p f c(3) assms(1) by (simp add: secrets_ok_def swept_def)
    qed
    moreover have "requests_ok s'"
      using requests_ok_PurgeExpiredTx [OF rok c(2)] c(3) requests_ok_cong [of s' s4] by simp
    ultimately show ?thesis
      using Pair by (simp add: secrets_ok_def)
  qed
qed

subsection \<open>What is claimed\<close>

definition secret_times_ok :: "api \<Rightarrow> bool" where
  "secret_times_ok s \<longleftrightarrow> (\<forall>r\<in>set (secrets s). valid_time (s_expires_at r) \<and> valid_time (s_created_at r))"

lemma trim_le_iff: "valid_time a \<Longrightarrow> valid_time b \<Longrightarrow> trim_le a b \<longleftrightarrow> a \<le> b"
  by (simp add: trim_le_def rtrim.col_le)

text \<open>A secret that is over: unconsumed and unclaimed, past its expiry, or an upload that never came.\<close>

definition overdue :: "duration \<Rightarrow> time \<Rightarrow> secret_row \<Rightarrow> bool" where
  "overdue ttl now r \<longleftrightarrow> s_reclaim_enqueued_at r = None \<and> s_consumed_at r = None \<and>
     (s_expires_at r \<le> now \<or> (s_state r = statePendingUpload \<and> s_created_at r + ttl \<le> now))"

lemma reclaimable_overdue:
  assumes "secret_times_ok s" "valid_time now" "valid_time (now - ttl)" "r \<in> set (secrets s)"
  shows "reclaimable ttl now r \<longleftrightarrow> overdue ttl now r"
proof -
  have "trim_le (s_expires_at r) now \<longleftrightarrow> s_expires_at r \<le> now" "trim_le (s_created_at r) (now - ttl) \<longleftrightarrow> s_created_at r + ttl \<le> now"
    using assms by (auto simp: secret_times_ok_def trim_le_iff)
  then show ?thesis by (simp add: reclaimable_def overdue_def)
qed

lemma candidates_exact:
  assumes "secrets_ok s" "secret_times_ok s" "valid_time now" "valid_time (now - pendingTTL st)" "r \<in> set (secrets s)"
  shows "s_id r \<in> set (candidates st now limit s) \<Longrightarrow> overdue (pendingTTL st) now r"
    and "int (length (candidates st now limit s)) < limit \<Longrightarrow> overdue (pendingTTL st) now r \<Longrightarrow> s_id r \<in> set (candidates st now limit s)"
  using sql_top_keys [OF secrets_ok_distinct [OF assms(1)] assms(5), of _ "nat limit" "reclaimable (pendingTTL st) now"]
    reclaimable_overdue [OF assms(2-5)]
  by (auto simp: candidates_def zless_nat_eq_int_zless)

text \<open>
  C16: The reaper claims exactly what is over. A committed pass reports the number of secrets of the database
  it has removed, each with its payload, and each of those was unconsumed, unclaimed and past its expiry or its upload window; it took all
  such secrets unless the batch is full; it kept every other unconsumed secret as it was; it queued one
  delete job for the object of each removed secret that has one, in order; and the sender of an upload that
  never came finds its outcome recorded. A pass that fails has changed nothing.
\<close>

theorem reap_claims:
  assumes "secrets_ok s" "requests_ok s" "secret_times_ok s" "valid_time (clock e 0)"
    and "valid_time (clock e 0 - pendingTTL (rp_store r))" "claimExpired r e s = (res, s')"
  shows "(isl res \<longrightarrow> s' = s) \<and> (\<forall>n. res = Inr n \<longrightarrow> (\<exists>ids rs rest. n = length ids \<and> distinct ids \<and> set ids \<subseteq> s_id ` set (secrets s) \<and>
    outbox_events s' = outbox_events s @ rs @ rest \<and>
    reclaim_jobs (clock e 0) (filter (\<lambda>x. s_id x \<in> set ids) (secrets s)) rs \<and> set (secrets s') \<subseteq> set (secrets s) \<and>
    (\<forall>x\<in>set (secrets s).
      (s_id x \<in> set ids \<longrightarrow> overdue (pendingTTL (rp_store r)) (clock e 0) x \<and>
         secret_of s' (s_id x) = None \<and> payload_of s' (s_id x) = None) \<and>
      (int n < rp_batchSize r \<and> overdue (pendingTTL (rp_store r)) (clock e 0) x \<longrightarrow> s_id x \<in> set ids) \<and>
      (s_id x \<notin> set ids \<and> s_consumed_at x = None \<longrightarrow> x \<in> set (secrets s')) \<and>
      (s_id x \<in> set ids \<and> pending_row_state x \<longrightarrow> (\<forall>m. mgmt_of s' (s_id x) = Some m \<longrightarrow> m_outcome m \<noteq> None)))))"
proof (intro conjI impI allI)
  assume "isl res"
  then show "s' = s"
    using assms(6) by (cases res) (auto dest: claimExpired_Inl)
next
  fix n assume n: "res = Inr n"
  let ?ids = "candidates (rp_store r) (clock e 0) (rp_batchSize r) s"
  from assms(6) [unfolded n] assms(1,2) obtain rs s3 s4 where c: "n = length ?ids"
    "reclaim_jobs (clock e 0) (filter (\<lambda>x. s_id x \<in> set ?ids) (secrets s)) rs"
    "purgeManagementTx (engine (rp_store r)) e (clock e 0) (rp_batchSize r) (swept (set ?ids) rs s) = (Inr (), s3)"
    "PurgeExpiredTx True (outboxSubject (rp_store r)) e (clock e 0) (rp_batchSize r) s3 = (Inr (), s4)"
    "s' = s4\<lparr>ActiveUploads := ActiveUploads s4 - int (sql_count (\<lambda>x. s_id x \<in> set ?ids \<and> pending_row_state x) (secrets s))\<rparr>"
    by (rule claimExpired_Inr)
  from c(3) obtain ids' gone where p: "s3 = (swept (set ?ids) rs s)\<lparr>
      secrets := sql_delete (\<lambda>r. s_consumed_at r \<noteq> None \<and> s_id r \<in> ids') (secrets (swept (set ?ids) rs s)),
      secret_payloads := sql_delete (\<lambda>q. \<exists>r\<in>set (secrets (swept (set ?ids) rs s)).
         (s_consumed_at r \<noteq> None \<and> s_id r \<in> ids') \<and> s_id r = p_secret_id q) (secret_payloads (swept (set ?ids) rs s)),
      secret_management := sql_delete (\<lambda>m. m_secret_id m \<in> gone) (secret_management (swept (set ?ids) rs s))\<rparr>"
    by (rule purgeManagementTx_Inr)
  have f: "secrets s' = secrets s3" "secret_payloads s' = secret_payloads s3" "secret_management s' = secret_management s3"
    and jobs: "\<exists>rest. outbox_events s' = outbox_events s3 @ rest"
    using PurgeExpiredTx_frame [OF c(4) requests_ok_claim_parts [OF assms(2) c(3)]] c(5) by auto
  obtain rest where rest: "outbox_events s' = outbox_events s @ rs @ rest"
    using jobs p by (auto simp: swept_def)
  have sec: "set (secrets s') = {x \<in> set (secrets s). s_id x \<notin> set ?ids \<and> \<not> (s_consumed_at x \<noteq> None \<and> s_id x \<in> ids')}"
    unfolding f p by (auto simp: swept_def)
  have gone: "secret_of s' i = None" "payload_of s' i = None" if "i \<in> set ?ids" for i
    using that sec unfolding f(2) p by (auto simp: sql_row_None swept_def)
  have out: "m_outcome m \<noteq> None" if "x \<in> set (secrets s)" "s_id x \<in> set ?ids" "pending_row_state x" "mgmt_of s' (s_id x) = Some m" for x m
    using that unfolding f(3) p by (auto simp: swept_def set_update dest!: sql_row_Some)
  show "\<exists>ids rs rest. n = length ids \<and> distinct ids \<and> set ids \<subseteq> s_id ` set (secrets s) \<and> outbox_events s' = outbox_events s @ rs @ rest \<and>
    reclaim_jobs (clock e 0) (filter (\<lambda>x. s_id x \<in> set ids) (secrets s)) rs \<and> set (secrets s') \<subseteq> set (secrets s) \<and>
    (\<forall>x\<in>set (secrets s).
      (s_id x \<in> set ids \<longrightarrow> overdue (pendingTTL (rp_store r)) (clock e 0) x \<and>
         secret_of s' (s_id x) = None \<and> payload_of s' (s_id x) = None) \<and>
      (int n < rp_batchSize r \<and> overdue (pendingTTL (rp_store r)) (clock e 0) x \<longrightarrow> s_id x \<in> set ids) \<and>
      (s_id x \<notin> set ids \<and> s_consumed_at x = None \<longrightarrow> x \<in> set (secrets s')) \<and>
      (s_id x \<in> set ids \<and> pending_row_state x \<longrightarrow> (\<forall>m. mgmt_of s' (s_id x) = Some m \<longrightarrow> m_outcome m \<noteq> None)))"
    by (rule exI [of _ ?ids], rule exI [of _ rs], rule exI [of _ rest], intro conjI ballI impI allI)
      (use c(1,2) rest sec gone out distinct_candidates [OF secrets_ok_distinct [OF assms(1)]] candidates_ids
         candidates_exact [OF assms(1,3,4,5)] in auto)
qed

subsection \<open>What the scan spares\<close>

text \<open>An object a secret still needs: of an unclaimed row that is live, waits for its upload, or was opened
  within the streaming grace.\<close>

definition secret_needs :: "store \<Rightarrow> time \<Rightarrow> string \<Rightarrow> secret_row \<Rightarrow> bool" where
  "secret_needs st now key r \<longleftrightarrow> s_storage_backend r = StorageS3 \<and> s_storage_key r = key \<and> s_reclaim_enqueued_at r = None \<and>
     (case s_consumed_at r of
        Some t \<Rightarrow> now < t + openObjectGrace
      | None \<Rightarrow> now < s_expires_at r \<and> (s_state r = stateActive \<or> now < s_created_at r + pendingTTL st))"

definition secret_needed :: "store \<Rightarrow> time \<Rightarrow> api \<Rightarrow> string \<Rightarrow> bool" where
  "secret_needed st now s key \<longleftrightarrow> (\<exists>r\<in>set (secrets s). secret_needs st now key r)"

lemma object_row_unique:
  assumes "secrets_ok s" "r \<in> set (secrets s)" "s_storage_backend r = StorageS3" "s_reclaim_enqueued_at r = None"
  shows "sql_row (\<lambda>x. s_storage_backend x = StorageS3 \<and> s_storage_key x = s_storage_key r \<and> s_reclaim_enqueued_at x = None)
    (secrets s) = Some r"
proof -
  let ?p = "\<lambda>x. s_storage_backend x = StorageS3 \<and> s_storage_key x = s_storage_key r \<and> s_reclaim_enqueued_at x = None"
  have key: "s_storage_key x = managedObjectPrefix @ s_id x" if "x \<in> set (secrets s)" "s_storage_backend x = StorageS3" for x
    using assms(1) that by (auto simp: secrets_ok_def secret_tables_ok_def secret_row_ok_def dest!: table_ok_chk)
  obtain x where x: "sql_row ?p (secrets s) = Some x"
    using assms by (cases "sql_row ?p (secrets s)") (auto simp: sql_row_None)
  from sql_row_Some [OF x] key [of x] key [OF assms(2,3)] have "x \<in> set (secrets s)" "s_id x = s_id r"
    by auto
  with secrets_ok_distinct [OF assms(1)] assms(2) have "x = r"
    by (auto simp: distinct_map inj_on_def)
  with x show ?thesis by simp
qed

interpretation secret_guard: object_guard managedObjectPrefix "protectObjectTx st" "secret_needed st" secrets_ok for st
proof unfold_locales
  fix s :: api and now key e
  assume ok: "secrets_ok s" and "secret_needed st now s key"
  then obtain r where r: "r \<in> set (secrets s)" "secret_needs st now key r"
    by (auto simp: secret_needed_def)
  then have "s_state r \<in> {stateActive, statePendingUpload}"
    using ok by (auto simp: secrets_ok_def secret_tables_ok_def secret_row_ok_def secret_check_def dest!: table_ok_chk)
  with r object_row_unique [OF ok r(1)] show "protectObjectTx st e now s key \<noteq> Inr False"
    by (auto simp: protectObjectTx_def secret_needs_def split: option.splits)
qed

lemma ReconcileOnce_Inr:
  assumes "ReconcileOnce r svc meanwhile e s = (Inr n, s')"
  obtains (idle) "n = 0" "s' = s \<or> s' = meanwhile s"
  | (scanned) page pending jobs where
      "List_objects svc managedObjectPrefix (continuation_token (object_cursor s)) (min (rp_batchSize r) 1000) = Inr page"
      "cur_generation (object_cursor (meanwhile s)) = cur_generation (object_cursor s)"
      "reconcile_keys managedObjectPrefix (protectObjectTx (rp_store r) e (clock e 1) (meanwhile s)) True
         (outboxSubject (rp_store r)) e (clock e 1) (Keys page) (object_pending (meanwhile s), outbox_events (meanwhile s)) =
         (Inr n, (pending, jobs))"
      "s' = (meanwhile s)\<lparr>object_cursor := \<lparr>continuation_token = NextCursor page,
         cur_generation = cur_generation (object_cursor s) + 1\<rparr>, object_pending := pending, outbox_events := jobs\<rparr>"
proof -
  let ?L = "List_objects svc managedObjectPrefix (continuation_token (object_cursor s)) (min (rp_batchSize r) 1000)"
  show thesis
  proof (cases "hasObjects (rp_store r)")
    case False
    with assms show thesis by (intro idle) (auto simp: ReconcileOnce_def)
  next
    case True
    with assms obtain page where page: "?L = Inr page"
      by (cases ?L) (auto simp: ReconcileOnce_def Let_def split: if_splits)
    show thesis
    proof (cases "cur_generation (object_cursor (meanwhile s)) = cur_generation (object_cursor s)")
      case False
      with True page assms show thesis
        by (intro idle) (simp_all add: ReconcileOnce_def Let_def split: if_splits)
    next
      case gen: True
      obtain res pending jobs where k: "reconcile_keys managedObjectPrefix (protectObjectTx (rp_store r) e (clock e 1) (meanwhile s))
          True (outboxSubject (rp_store r)) e (clock e 1) (Keys page)
          (object_pending (meanwhile s), outbox_events (meanwhile s)) = (res, (pending, jobs))"
        by (metis surj_pair)
      with gen True page assms have "res = Inr n" "s' = (meanwhile s)\<lparr>object_cursor := \<lparr>continuation_token = NextCursor page,
         cur_generation = cur_generation (object_cursor s) + 1\<rparr>, object_pending := pending, outbox_events := jobs\<rparr>"
        by (simp_all add: ReconcileOnce_def Let_def split: if_splits sum.splits)
      with k page gen show thesis by (intro scanned) auto
    qed
  qed
qed

text \<open>
  C24: The bucket scan never queues the object of a living secret. A scan that reports \<open>n\<close> has added \<open>n\<close>
  claims and, one to one, \<open>n\<close> delete jobs for listed keys below the prefix, one per key; it changes no
  secret; and no job is for an object whose secret is active and unexpired, still inside its upload window,
  or was opened within the streaming grace. A scan that lost the race for its page changes nothing more.
\<close>

theorem secret_scan_safe:
  assumes "secrets_ok (meanwhile s)" "pending_ok (object_pending (meanwhile s))"
    and "ReconcileOnce r svc meanwhile e s = (Inr n, s')" "s' \<noteq> s"
  shows "\<exists>ps rs. object_pending s' = object_pending (meanwhile s) @ ps \<and> outbox_events s' = outbox_events (meanwhile s) @ rs \<and>
    length ps = n \<and> list_all2 (claim_for (outboxSubject (rp_store r)) (clock e 1)) ps rs \<and> pending_ok (object_pending s') \<and>
    secrets s' = secrets (meanwhile s) \<and> secret_payloads s' = secret_payloads (meanwhile s) \<and>
    (cur_generation (object_cursor (meanwhile s)) \<noteq> cur_generation (object_cursor s) \<longrightarrow> s' = meanwhile s) \<and>
    (\<forall>x\<in>set rs. hasPrefix (ObjectKey (o_payload x)) managedObjectPrefix \<and> ObjectKey (o_payload x) \<noteq> managedObjectPrefix \<and>
       (\<exists>page. List_objects svc managedObjectPrefix (continuation_token (object_cursor s)) (min (rp_batchSize r) 1000) = Inr page \<and>
          ObjectKey (o_payload x) \<in> set (Keys page)) \<and>
       (\<forall>y\<in>set (secrets s'). \<not> secret_needs (rp_store r) (clock e 1) (ObjectKey (o_payload x)) y))"
  using assms(3)
proof (cases rule: ReconcileOnce_Inr)
  case idle
  with assms(2,4) show ?thesis by auto
next
  case (scanned page pending jobs)
  from assms(1,2) scanned(3) obtain ps rs where a: "pending = object_pending (meanwhile s) @ ps"
    "jobs = outbox_events (meanwhile s) @ rs" "length ps = n"
    "list_all2 (claim_for (outboxSubject (rp_store r)) (clock e 1)) ps rs" "pending_ok pending"
    "\<forall>x\<in>set rs. ObjectKey (o_payload x) \<in> set (Keys page) \<and> hasPrefix (ObjectKey (o_payload x)) managedObjectPrefix \<and>
       ObjectKey (o_payload x) \<noteq> managedObjectPrefix \<and>
       \<not> secret_needed (rp_store r) (clock e 1) (meanwhile s) (ObjectKey (o_payload x))"
    by (rule secret_guard.page_safe)
  then show ?thesis
    using scanned(1,2,4) by (intro exI [of _ ps] exI [of _ rs]) (auto simp: secret_needed_def)
qed

lemma secrets_ok_ReconcileOnce:
  "secrets_ok (meanwhile s) \<Longrightarrow> secrets_ok s \<Longrightarrow> secrets_ok (snd (ReconcileOnce r svc meanwhile e s))"
  unfolding ReconcileOnce_def Let_def by (auto split: sum.splits prod.splits)

subsection \<open>Instances\<close>

definition example_reaper :: reaper where
  "example_reaper = \<lparr>rp_store = example_store, rp_requests = None, rp_batchSize = 50\<rparr>"

lemma example_env_simps [simp]: "fails (example_env t) = no_faults" "clock (example_env t) n = t"
  by (simp_all add: example_env_def)

lemma small_instant: "0 \<le> t \<Longrightarrow> t < 86400000000000 \<Longrightarrow> valid_time t"
  by (simp add: valid_time_def year_of_def whole_seconds_def div_less)

lemma example_large_simps:
  "s_id (large_row i inp now x) = i" "s_state (large_row i inp now x) = statePendingUpload"
  "s_created_at (large_row i inp now x) = now" "s_expires_at (large_row i inp now x) = x"
  "s_consumed_at (large_row i inp now x) = None" "s_reclaim_enqueued_at (large_row i inp now x) = None"
  "s_storage_backend (large_row i inp now x) = StorageS3" "s_storage_key (large_row i inp now x) = managedObjectPrefix @ i"
  by (simp_all add: large_row_def split: prod.split)

lemma example_large_frame:
  "requests example_large_state = []" "request_payloads example_large_state = []" "outbox_events example_large_state = []"
  "object_pending example_large_state = []" "object_cursor example_large_state = \<lparr>continuation_token = [], cur_generation = 0\<rparr>"
proof -
  obtain res where c: "CreateLarge example_store example_s3 (example_env 1) example_large_input MigrateAPI = (res, example_large_state)"
    by (metis example_large_state_def surjective_pairing)
  obtain out where "res = Inr out"
  proof (cases res)
    case (Inl err)
    with c have "example_large_state = MigrateAPI"
      by (simp add: CreateLarge_Inl)
    with example_large_rows have False by (simp add: MigrateAPI_def Let_def)
    then show thesis ..
  qed
  with c have "CreateLarge example_store example_s3 (example_env 1) example_large_input MigrateAPI = (Inr out, example_large_state)"
    by simp
  then obtain r m n where s: "example_large_state = MigrateAPI\<lparr>secrets := r, secret_management := m, ActiveUploads := n\<rparr>"
    by (rule CreateLarge_Inr)
  show "requests example_large_state = []" "request_payloads example_large_state = []" "outbox_events example_large_state = []"
    "object_pending example_large_state = []" "object_cursor example_large_state = \<lparr>continuation_token = [], cur_generation = 0\<rparr>"
    unfolding s by (simp_all add: MigrateAPI_def Let_def)
qed

lemma example_large_ok: "secrets_ok example_large_state" "requests_ok example_large_state" "secret_times_ok example_large_state"
proof -
  show "secrets_ok example_large_state"
    unfolding example_large_state_def by (intro secrets_ok_CreateLarge secrets_ok_MigrateAPI)
  show "requests_ok example_large_state"
    by (simp add: requests_ok_def example_large_frame request_constraints_def List.map_filter_simps)
  show "secret_times_ok example_large_state"
    by (simp add: secret_times_ok_def example_large_rows example_large_simps example_expiry_def small_instant)
qed

lemma example_claim:
  "\<exists>s'. claimExpired example_reaper (example_env 1200000000000) example_large_state = (Inr 1, s')"
proof -
  let ?r = "large_row example_id example_large_input 1 example_expiry" and ?now = "1200000000000 :: int"
  have "reclaimable (pendingTTL example_store) ?now ?r"
    by (simp add: reclaimable_def example_large_simps trim_le_iff small_instant example_store_def Minute_def)
  then have ids: "candidates example_store ?now 50 example_large_state = [example_id]"
    by (simp add: candidates_def example_large_rows sql_top_def example_large_simps)
  define s1 where "s1 = update_secrets (\<lambda>r. s_id r \<in> set [example_id]) (claimed_row ?now) example_large_state"
  have c: "claimReclaimable example_store ?now 50 example_large_state = ([claimed_row ?now ?r], s1)"
    by (simp add: claimReclaimable_def ids s1_def Let_def update_secrets_def example_large_rows sql_update_def example_large_simps)
  have fr: "outbox_events s1 = []" "requests s1 = []"
    by (simp_all add: s1_def update_secrets_def example_large_frame)
  obtain job where job: "NewJobID (example_env ?now) (''reclaim '' @ example_id) = Some job" "trimSpace job = job" "job \<noteq> []"
    by (simp add: NewJobID_def example_env_def trimSpace_rawurl rawurl_encode_Nil_iff)
  have id: "example_id \<noteq> []" "trimSpace (managedObjectPrefix @ example_id) = managedObjectPrefix @ example_id"
    by (simp_all add: example_id_def rawurl_encode_Nil_iff)
      (rule trimSpace_visible, simp add: managedObjectPrefix_def rawurl_visible [unfolded list_all_iff] list_all_iff)
  obtain s2 where s2: "reclaimRow example_store (example_env ?now) (claimed_row ?now ?r) ?now s1 = (Inr (), s2)" "requests s2 = []"
  proof -
    have "\<exists>s2. reclaimRow example_store (example_env ?now) (claimed_row ?now ?r) ?now s1 = (Inr (), s2) \<and> requests s2 = []"
      using job id fr by (simp add: reclaimRow_def recordManagementOutcomeTx_def ReclaimTx_def example_large_simps Let_def
          enqueue_event_def EnqueueTx_def JobEvent_JSON_def Validate_def validReason_def reclaim_reason_def delete_secrets_def
          sql_insert_def event_constants)
    then show thesis using that by blast
  qed
  obtain s3 where s3: "purgeManagementTx (engine example_store) (example_env ?now) ?now 50 s2 = (Inr (), s3)" "requests s3 = []"
    using s2(2) by (simp add: purgeManagementTx_def Let_def delete_secrets_def)
  have "PurgeExpiredTx True (outboxSubject example_store) (example_env ?now) ?now 50 s3 = (Inr (), s3)"
    using s3(2) by (simp add: PurgeExpiredTx_def lapsed_reservations_def expired_requests_def sql_top_def)
  with c s2 s3 show ?thesis
    by (simp add: claimExpired_def example_reaper_def Let_def)
qed

theorem reap_claims_witness:
  "\<exists>s' ids rs rest. claimExpired example_reaper (example_env 1200000000000) example_large_state = (Inr 1, s') \<and>
    ids = [example_id] \<and> secret_of s' example_id = None \<and> outbox_events s' = outbox_events example_large_state @ rs @ rest \<and>
    reclaim_jobs 1200000000000 (filter (\<lambda>x. s_id x \<in> set ids) (secrets example_large_state)) rs"
proof -
  obtain s' where s': "claimExpired example_reaper (example_env 1200000000000) example_large_state = (Inr 1, s')"
    using example_claim by blast
  have v: "valid_time (clock (example_env 1200000000000) 0)"
    "valid_time (clock (example_env 1200000000000) 0 - pendingTTL (rp_store example_reaper))"
    by (simp_all add: small_instant example_reaper_def example_store_def Minute_def)
  have i: "s_id ` set (secrets example_large_state) = {example_id}"
    by (simp add: example_large_rows example_large_simps)
  from reap_claims [OF example_large_ok v s'] obtain ids rs rest where r: "1 = length ids" "set ids \<subseteq> {example_id}"
    "outbox_events s' = outbox_events example_large_state @ rs @ rest"
    "reclaim_jobs 1200000000000 (filter (\<lambda>x. s_id x \<in> set ids) (secrets example_large_state)) rs"
    "\<forall>x\<in>set (secrets example_large_state). s_id x \<in> set ids \<longrightarrow> secret_of s' (s_id x) = None"
    unfolding example_env_simps i by blast
  then have "ids = [example_id]"
    by (cases ids) auto
  moreover have "secret_of s' example_id = None"
    using r(5) by (simp add: example_large_rows example_large_simps \<open>ids = [example_id]\<close>)
  ultimately show ?thesis using s' r(3,4) by blast
qed

text \<open>A bucket that lists the object of a waiting upload and one no secret names.\<close>

definition stray_key :: string where
  "stray_key = managedObjectPrefix @ ''stray''"

definition scan_bucket :: s3 where
  "scan_bucket = example_s3\<lparr>s3_list := (\<lambda>p c n. ListObjects [managedObjectPrefix @ example_id, stray_key] False [])\<rparr>"

lemma scan_listing:
  "List_objects scan_bucket managedObjectPrefix [] 50 =
     Inr \<lparr>Keys = [managedObjectPrefix @ example_id, stray_key], NextCursor = []\<rparr>"
  by (simp add: List_objects_def scan_bucket_def managedObjectPrefix_def)

lemma waiting_upload_needed: "secret_needs example_store 2 (managedObjectPrefix @ example_id) (large_row example_id example_large_input 1 example_expiry)"
  by (simp add: secret_needs_def example_large_simps example_store_def example_expiry_def Minute_def)

lemma example_id_stray: "example_id \<noteq> ''stray''"
proof
  assume "example_id = ''stray''"
  then have "length example_id = length ''stray''" by (rule arg_cong)
  then show False by (simp add: example_id_def length_rawurl_encode)
qed

lemma scan_protects:
  "protectObjectTx example_store (example_env 2) 2 example_large_state (managedObjectPrefix @ example_id) = Inr True"
  "protectObjectTx example_store (example_env 2) 2 example_large_state stray_key = Inr False"
  using example_id_stray
  by (simp_all add: protectObjectTx_def example_large_rows example_large_simps sql_row_def stray_key_def example_store_def
      example_expiry_def Minute_def)

lemma example_hasObjects: "hasObjects example_store"
  by (simp add: example_store_def)

lemma example_secret_scan:
  "\<exists>s'. ReconcileOnce example_reaper scan_bucket id (example_env 2) example_large_state = (Inr 1, s') \<and> s' \<noteq> example_large_state"
proof -
  obtain j where j: "NewJobID (example_env 2) (''reconcile '' @ stray_key) = Some j" "trimSpace j = j" "j \<noteq> []"
    by (simp add: NewJobID_def example_env_def trimSpace_rawurl rawurl_encode_Nil_iff)
  have k: "trimSpace stray_key = stray_key" "stray_key \<noteq> []" "stray_key \<noteq> managedObjectPrefix" "hasPrefix stray_key managedObjectPrefix"
    by (rule trimSpace_visible) (simp_all add: stray_key_def managedObjectPrefix_def hasPrefix_def)
  obtain row where row: "EnqueueTx (outboxSubject example_store) 2 no_faults (orphan_job j stray_key 2) [] = (Inr row, [row])"
    using j k by (simp add: EnqueueTx_def JobEvent_JSON_def Validate_def orphan_job_def validReason_def sql_insert_def Let_def
        event_constants)
  have "reconcile_keys managedObjectPrefix (protectObjectTx example_store (example_env 2) 2 example_large_state) True
      (outboxSubject example_store) (example_env 2) 2 [managedObjectPrefix @ example_id, stray_key] ([], []) =
      (Inr 1, ([\<lparr>pend_object_key = stray_key, pend_job_id = j\<rparr>], [row]))"
    using k j row by (simp add: scan_protects insert_pending_def)
  then have "ReconcileOnce example_reaper scan_bucket id (example_env 2) example_large_state =
      (Inr 1, example_large_state\<lparr>object_cursor := \<lparr>continuation_token = [], cur_generation = 1\<rparr>,
        object_pending := [\<lparr>pend_object_key = stray_key, pend_job_id = j\<rparr>], outbox_events := [row]\<rparr>)" (is "_ = (_, ?s)")
    by (simp add: ReconcileOnce_def example_reaper_def example_large_frame Let_def scan_listing example_hasObjects del: reconcile_keys.simps)
  moreover have "object_cursor ?s \<noteq> object_cursor example_large_state"
    by (simp add: example_large_frame)
  ultimately show ?thesis by metis
qed

theorem secret_scan_safe_witness:
  "\<exists>s' x. ReconcileOnce example_reaper scan_bucket id (example_env 2) example_large_state = (Inr 1, s') \<and>
     outbox_events s' = [x] \<and> ObjectKey (o_payload x) = stray_key \<and> secrets s' = secrets example_large_state"
proof -
  obtain s' where s': "ReconcileOnce example_reaper scan_bucket id (example_env 2) example_large_state = (Inr 1, s')"
    "s' \<noteq> example_large_state"
    using example_secret_scan by blast
  have l: "List_objects scan_bucket managedObjectPrefix (continuation_token (object_cursor example_large_state))
      (min (rp_batchSize example_reaper) 1000) = Inr \<lparr>Keys = [managedObjectPrefix @ example_id, stray_key], NextCursor = []\<rparr>"
    by (simp add: example_large_frame example_reaper_def scan_listing)
  have p: "pending_ok (object_pending (id example_large_state))"
    by (simp add: example_large_frame)
  from secret_scan_safe [OF _ p s', unfolded l] example_large_ok(1) obtain ps rs where
    r: "outbox_events s' = rs" "length ps = 1" "list_all2 (claim_for (outboxSubject example_store) 2) ps rs"
      "secrets s' = secrets example_large_state"
      "\<forall>x\<in>set rs. (ObjectKey (o_payload x) = managedObjectPrefix @ example_id \<or> ObjectKey (o_payload x) = stray_key) \<and>
         (\<forall>y\<in>set (secrets s'). \<not> secret_needs example_store 2 (ObjectKey (o_payload x)) y)"
    by (auto simp: example_large_frame example_reaper_def)
  from r(2) list_all2_lengthD [OF r(3)] obtain x where x: "rs = [x]"
    by (cases rs) auto
  have "ObjectKey (o_payload x) \<noteq> managedObjectPrefix @ example_id"
    using r(4,5) x waiting_upload_needed by (auto simp: example_large_rows)
  with r x s'(1) show ?thesis by auto
qed

end
