(* ===== verification/Http_Secrets.thy ===== *)
theory Http_Secrets
  imports Http Secret_Reaper
begin

text \<open>
  The secret endpoints of the API (src/internal/httpapi/secrets.go, config.go): the handlers with their
  guards, answers and calls of the store, each as a function of the request, of the database and of the
  environment of each transaction. The JSON decoder of the standard library is not unfolded: a body is
  its length, the keys of the object it holds, the value it decodes to under the handler's contract
  (\<open>None\<close> when \<open>Decode\<close> fails) and whether nothing follows it.
\<close>

record 'r json_body =
  jb_readable :: bool
  jb_length :: int
  jb_keys :: "string list option"
  jb_value :: "'r option"
  jb_single :: bool

text \<open>\<open>io.ReadAll(http.MaxBytesReader(...))\<close>; a negative limit counts as zero.\<close>

definition body_read :: "int \<Rightarrow> 'r json_body \<Rightarrow> bool" where
  "body_read limit b = (jb_readable b \<and> jb_length b \<le> max 0 limit)"

definition createBodyOverheadLimit :: int where "createBodyOverheadLimit = 64 * 1024"

record create_secret_request =
  rq_Kind :: string
  rq_Ciphertext :: string
  rq_KDF :: kdf_params
  rq_Proof :: string
  rq_WrappedIdentity :: "string option"
  rq_EncryptedFilename :: "string option"
  rq_ContentType :: "string option"
  rq_SizeBytes :: int
  rq_TTLSeconds :: int
  rq_MaxViews :: int

record cleanup_secret_request =
  rq_JobID :: string
  rq_Reason :: string

record ack_request =
  rq_AckJobID :: string
  rq_ObjectKey :: string

record status_json =
  sj_ID :: string
  sj_Status :: string
  sj_ExpiresAt :: string
  sj_ManagementExpiresAt :: string
  sj_CanCancel :: bool

datatype secret_json =
    CreatedJson (cj_token: string) (cj_managementExpiresAt: string) (cj_id: string) (cj_expiresAt: string)
  | CreatedLargeJson string string string string string string string "(string \<times> string) list"
  | FinalizedJson string bool
  | MetadataJson string string "kdf_params option" int string
  | CleanupJson string bool
  | StatusJson status_json
  | NotCancellableJson string string status_json
  | ConfigJson int int bool
  | HealthJson string

record server =
  sv_store :: store
  sv_requests :: "request_store option"
  sv_payloadInlineMaxBytes :: int
  sv_advertisedInlineMaxBytes :: int
  sv_maxFileBytes :: int
  sv_allowedOrigin :: string
  sv_internalToken :: string
  sv_metricsToken :: string
  sv_pipeRelayEnabled :: bool

subsection \<open>Helpers\<close>

definition hashAccessProof :: "string \<Rightarrow> string option" where
  "hashAccessProof proof =
     (if proof = [] then None
      else (case std_decode proof of
        None \<Rightarrow> None
      | Some b \<Rightarrow> if b = [] then None else Some (std_encode (sha256 b))))"

text \<open>\<open>None\<close>: an invalid proof; an absent proof has the empty hash.\<close>

definition accessHash :: "string \<Rightarrow> string option" where
  "accessHash proof = (if proof = [] then Some [] else hashAccessProof proof)"

definition sensitive_keys :: "string list" where
  "sensitive_keys = [''passphrase'', ''password'', ''plaintext'', ''key'', ''derived_key'', ''secret'']"

definition hasSensitiveField :: "'r json_body \<Rightarrow> bool" where
  "hasSensitiveField b = (case jb_keys b of None \<Rightarrow> False | Some ks \<Rightarrow> list_ex (\<lambda>k. k \<in> set sensitive_keys) ks)"

definition httpValidCleanupReason :: "string \<Rightarrow> bool" where
  "httpValidCleanupReason reason = (reason \<in> {''consumed'', ''expired'', ''orphan'', ''manual'', ''retry''})"

definition normalizeMaxViews :: "int \<Rightarrow> int" where
  "normalizeMaxViews v = (if v = 0 then 1 else v)"

definition createSecretBodyLimit :: "server \<Rightarrow> int" where
  "createSecretBodyLimit sv =
     wrap64 (wrap64 (quot (wrap64 (sv_payloadInlineMaxBytes sv + 2)) 3 * 4) + createBodyOverheadLimit)"

definition formatInt :: "int \<Rightarrow> string" where
  "formatInt n = (if n < 0 then ''-'' @ itoa (nat (- n)) else itoa (nat n))"

fun writeSecretError :: "secret_error \<Rightarrow> 'a response" where
  "writeSecretError ErrNotFound = writeError 404 ''not_found'' ''secret was not found''"
| "writeSecretError ErrConsumed = writeError 410 ''consumed'' ''secret has already been consumed''"
| "writeSecretError ErrExpired = writeError 410 ''expired'' ''secret has expired''"
| "writeSecretError ErrInvalidAccess = writeError 403 ''invalid_access'' ''access proof is invalid''"
| "writeSecretError ErrPayloadTooLarge = writeError 413 ''payload_too_large'' ''encrypted payload is too large''"
| "writeSecretError ErrUnsupportedKind = writeError 400 ''unsupported_kind'' ''only text and file secrets are supported''"
| "writeSecretError ErrUnsupportedViews = writeError 400 ''unsupported_max_views'' ''only one-time secrets are supported''"
| "writeSecretError ErrNotPending = writeError 409 ''not_pending'' ''secret is not pending upload''"
| "writeSecretError ErrObjectMissing = writeError 422 ''object_missing'' ''uploaded object is missing or oversized''"
| "writeSecretError ErrInvalidInput = writeError 400 ''invalid_secret'' ''secret metadata is invalid''"
| "writeSecretError _ = writeError 500 ''internal_error'' ''request failed''"

definition writeOpenError :: "secret_error \<Rightarrow> 'a response" where
  "writeOpenError err =
     (if err = ErrInvalidAccess then writeError 403 ''invalid_access'' ''access proof is invalid'' else writeSecretError err)"

definition writeManagementError :: "secret_error \<Rightarrow> 'a response" where
  "writeManagementError err =
     (if err = ErrManagementUnavailable then writeError 404 ''management_unavailable'' ''management link is unavailable''
      else writeError 503 ''management_status_failed'' ''management status is temporarily unavailable'')"

definition managementResponse :: "management_status \<Rightarrow> status_json" where
  "managementResponse st = \<lparr>sj_ID = ms_ID st, sj_Status = ms_Status st, sj_ExpiresAt = formatTime (ms_ExpiresAt st),
     sj_ManagementExpiresAt = formatTime (ms_ExpiresAt st), sj_CanCancel = ms_CanCancel st\<rparr>"

definition too_large :: "'a response" where
  "too_large = writeError 413 ''payload_too_large'' ''request body is too large''"

definition sensitive :: "'a response" where
  "sensitive = writeError 400 ''sensitive_field_forbidden'' ''passphrases, plaintext, and keys must not be sent to the API''"

text \<open>The common prefix of the handlers that read a JSON body: the refusal, or the decoded value.\<close>

definition decode_body :: "int \<Rightarrow> string \<Rightarrow> 'r json_body \<Rightarrow> 'a response + 'r" where
  "decode_body limit contract b =
     (if \<not> body_read limit b then Inl too_large
      else if hasSensitiveField b then Inl sensitive
      else (case jb_value b of
        None \<Rightarrow> Inl (writeError 400 ''invalid_json'' contract)
      | Some v \<Rightarrow>
          if \<not> jb_single b then Inl (writeError 400 ''invalid_json'' ''request body must contain exactly one JSON object'')
          else Inr v))"

definition no_store :: "(string \<times> string) list" where
  "no_store = [(''Cache-Control'', ''no-store'')]"

subsection \<open>Handlers\<close>

definition createLargeSecret ::
  "server \<Rightarrow> s3 \<Rightarrow> env \<Rightarrow> create_secret_request \<Rightarrow> api \<Rightarrow> secret_json response \<times> api" where
  "createLargeSecret sv svc e req s =
     (case accessHash (rq_Proof req) of
        None \<Rightarrow> (writeError 400 ''invalid_access_proof'' ''access proof must be base64 encoded'', s)
      | Some hash \<Rightarrow>
          (case CreateLarge (sv_store sv) svc e
             \<lparr>cl_Kind = rq_Kind req, cl_AccessKDF = rq_KDF req, cl_AccessProofHash = hash,
              cl_WrappedIdentity = rq_WrappedIdentity req, cl_EncryptedFilename = rq_EncryptedFilename req,
              cl_ContentType = rq_ContentType req, cl_SizeBytes = rq_SizeBytes req, cl_TTLSeconds = rq_TTLSeconds req,
              cl_MaxViews = normalizeMaxViews (rq_MaxViews req)\<rparr> s of
             (Inl err, s') \<Rightarrow> (writeSecretError err, s')
           | (Inr res, s') \<Rightarrow>
               (writeJSON 201 (CreatedLargeJson (lr_ManagementToken res) (formatTime (lr_ExpiresAt res)) (lr_ID res)
                  (formatTime (lr_ExpiresAt res)) (URL (lr_Upload res)) (Method (lr_Upload res))
                  (formatTime (UploadExpiresAt (lr_Upload res))) (Headers (lr_Upload res))), s')))"

definition createSecret ::
  "server \<Rightarrow> s3 \<Rightarrow> env \<Rightarrow> create_secret_request json_body \<Rightarrow> api \<Rightarrow> secret_json response \<times> api" where
  "createSecret sv svc e b s =
     map_prod (after_headers no_store) id
     (case decode_body (createSecretBodyLimit sv) ''request body does not match the create secret contract'' b of
        Inl refusal \<Rightarrow> (refusal, s)
      | Inr req \<Rightarrow>
          if rq_Ciphertext req = [] then createLargeSecret sv svc e req s
          else (case std_decode (rq_Ciphertext req) of
            None \<Rightarrow> (writeError 400 ''invalid_ciphertext'' ''ciphertext must be base64 encoded'', s)
          | Some ciphertext \<Rightarrow>
              (case accessHash (rq_Proof req) of
                 None \<Rightarrow> (writeError 400 ''invalid_access_proof'' ''access proof must be base64 encoded'', s)
               | Some hash \<Rightarrow>
                   (case Create (sv_store sv) e
                      \<lparr>ci_Kind = rq_Kind req, ci_Ciphertext = ciphertext, ci_AccessKDF = rq_KDF req, ci_AccessProofHash = hash,
                       ci_WrappedIdentity = rq_WrappedIdentity req, ci_EncryptedFilename = rq_EncryptedFilename req,
                       ci_ContentType = rq_ContentType req, ci_SizeBytes = rq_SizeBytes req,
                       ci_TTLSeconds = rq_TTLSeconds req, ci_MaxViews = normalizeMaxViews (rq_MaxViews req)\<rparr> s of
                      (Inl err, s') \<Rightarrow> (writeSecretError err, s')
                    | (Inr created, s') \<Rightarrow>
                        (writeJSON 201 (CreatedJson (ManagementToken created) (formatTime (ExpiresAt created)) (ID created)
                           (formatTime (ExpiresAt created))), s')))))"

definition finalizeSecret :: "server \<Rightarrow> s3 \<Rightarrow> env \<Rightarrow> string \<Rightarrow> api \<Rightarrow> secret_json response \<times> api" where
  "finalizeSecret sv svc e i s =
     (case Finalize (sv_store sv) svc e i s of
        (Inl err, s') \<Rightarrow> (writeSecretError err, s')
      | (Inr _, s') \<Rightarrow> (writeJSON 200 (FinalizedJson i True), s'))"

definition getSecretMetadata :: "server \<Rightarrow> env \<Rightarrow> string \<Rightarrow> api \<Rightarrow> secret_json response" where
  "getSecretMetadata sv e i s =
     (case Metadata e i s of
        Inl err \<Rightarrow> writeSecretError err
      | Inr m \<Rightarrow> writeJSON 200 (MetadataJson (md_ID m) (md_Kind m)
          (if Algorithm (md_AccessKDF m) \<noteq> [] then Some (md_AccessKDF m) else None) (md_SizeBytes m) (formatTime (md_ExpiresAt m))))"

definition opened_response :: "secret \<Rightarrow> secret_json response" where
  "opened_response sec =
     \<lparr>rs_status = 200,
      rs_headers = [(''Cache-Control'', ''no-store''), (''Content-Type'', ''application/octet-stream''),
                    (''Content-Length'', formatInt (SizeBytes sec)), (''Flick-Kind'', Kind sec),
                    (''Flick-Expires-At'', formatTime (ExpiresAt sec))] @
                   (case ContentType sec of None \<Rightarrow> [] | Some v \<Rightarrow> [(''Flick-Content-Type'', v)]) @
                   (case EncryptedFilename sec of None \<Rightarrow> [] | Some v \<Rightarrow> [(''Flick-Encrypted-Filename'', v)]) @
                   (case WrappedIdentity sec of None \<Rightarrow> [] | Some v \<Rightarrow> [(''Flick-Wrapped-Identity'', v)]),
      rs_body = RawBody (case Body sec of None \<Rightarrow> Ciphertext sec | Some body \<Rightarrow> body)\<rparr>"

text \<open>Up to the answer: the body that streams, if there is one, and its key.\<close>

definition open_answer ::
  "server \<Rightarrow> s3 \<Rightarrow> env \<Rightarrow> string \<Rightarrow> string json_body \<Rightarrow> api \<Rightarrow> (secret_json response \<times> string option) \<times> api" where
  "open_answer sv svc e i b s =
     (case decode_body createBodyOverheadLimit ''request body does not match the open secret contract'' b of
        Inl refusal \<Rightarrow> ((refusal, None), s)
      | Inr accessProof \<Rightarrow>
          (case accessHash accessProof of
             None \<Rightarrow> ((writeError 400 ''invalid_access_proof'' ''access proof must be base64 encoded'', None), s)
           | Some hash \<Rightarrow>
               (case openAndEnqueueCleanup (sv_store sv) svc e i hash s of
                  (Inl err, s') \<Rightarrow> ((writeOpenError err, None), s')
                | (Inr sec, s') \<Rightarrow>
                    ((opened_response sec, if Body sec = None then None else Some (StorageKey sec)), s'))))"

text \<open>While a body streams, others work on the database (\<open>mw\<close>); then its delete is queued.\<close>

definition openSecret ::
  "server \<Rightarrow> s3 \<Rightarrow> (api \<Rightarrow> api) \<Rightarrow> env \<Rightarrow> env \<Rightarrow> string \<Rightarrow> string json_body \<Rightarrow> api \<Rightarrow> secret_json response \<times> api" where
  "openSecret sv svc mw e1 e2 i b s =
     (case open_answer sv svc e1 i b s of
        ((r, None), s') \<Rightarrow> (r, s')
      | ((r, Some key), s') \<Rightarrow> (r, enqueueOpenedObjectCleanup (sv_store sv) e2 key (mw s')))"

definition cleanupSecret ::
  "server \<Rightarrow> env \<Rightarrow> string \<Rightarrow> cleanup_secret_request json_body \<Rightarrow> api \<Rightarrow> secret_json response \<times> api" where
  "cleanupSecret sv e i b s =
     (case decode_body createBodyOverheadLimit ''request body does not match the cleanup secret contract'' b of
        Inl refusal \<Rightarrow> (refusal, s)
      | Inr req \<Rightarrow>
          if rq_JobID req = [] \<or> \<not> httpValidCleanupReason (rq_Reason req)
          then (writeError 400 ''invalid_cleanup'' ''cleanup metadata is invalid'', s)
          else (case Cleanup e i s of
            (Inl err, s') \<Rightarrow> (writeSecretError err, s')
          | (Inr cleaned, s') \<Rightarrow> (writeJSON 200 (CleanupJson i cleaned), s')))"

definition getManagementStatus :: "server \<Rightarrow> env \<Rightarrow> string \<Rightarrow> string \<Rightarrow> api \<Rightarrow> secret_json response" where
  "getManagementStatus sv e i token s =
     (case Management (sv_store sv) e i token s of
        Inl err \<Rightarrow> writeManagementError err
      | Inr status \<Rightarrow> writeJSON 200 (StatusJson (managementResponse status)))"

text \<open>The body of a revoke must be an empty JSON object; it is read after the token was checked.\<close>

definition revokeSecret ::
  "server \<Rightarrow> env \<Rightarrow> env \<Rightarrow> string \<Rightarrow> string \<Rightarrow> 'r json_body \<Rightarrow> api \<Rightarrow> secret_json response \<times> api" where
  "revokeSecret sv e1 e2 i token b s =
     (case Management (sv_store sv) e1 i token s of
        Inl err \<Rightarrow> (writeManagementError err, s)
      | Inr _ \<Rightarrow>
          if \<not> body_read createBodyOverheadLimit b \<or> jb_keys b \<noteq> Some [] \<or> \<not> jb_single b
          then (writeError 400 ''invalid_json'' ''request body must be an empty JSON object'', s)
          else (case Revoke (sv_store sv) e2 i token s of
            ((Some err, status), s') \<Rightarrow>
              if err = ErrNotCancellable
              then (writeJSON 409 (NotCancellableJson ''not_cancellable'' ''Delivery cannot be cancelled'' (managementResponse status)), s')
              else (writeManagementError err, s')
          | ((None, status), s') \<Rightarrow> (writeJSON 200 (StatusJson (managementResponse status)), s')))"

datatype ack_error = AckSecret secret_error | AckRequest request_error

definition acknowledgeObjectCleanup ::
  "server \<Rightarrow> env \<Rightarrow> ack_request json_body \<Rightarrow> api \<Rightarrow> secret_json response \<times> api" where
  "acknowledgeObjectCleanup sv e b s =
     (case (if body_read createBodyOverheadLimit b \<and> jb_single b then jb_value b else None) of
        None \<Rightarrow> (writeError 400 ''invalid_json'' ''invalid cleanup acknowledgement'', s)
      | Some req \<Rightarrow>
          (case (if hasPrefix (rq_ObjectKey req) ObjectPrefix
                 then (if sv_requests sv = None then (Some (AckRequest ErrStorage), s)
                       else map_prod (map_option AckRequest) id (AcknowledgeRequestCleanup e (rq_AckJobID req) (rq_ObjectKey req) s))
                 else map_prod (map_option AckSecret) id (AcknowledgeObjectCleanup e (rq_AckJobID req) (rq_ObjectKey req) s)) of
             (None, s') \<Rightarrow> (noContent, s')
           | (Some err, s') \<Rightarrow>
               if err = AckSecret ErrInvalidInput \<or> err = AckRequest ErrInvalid
               then (writeError 400 ''invalid_cleanup'' ''invalid cleanup acknowledgement'', s')
               else (writeError 503 ''cleanup_ack_failed'' ''cleanup acknowledgement is temporarily unavailable'', s')))"

definition getConfig :: "server \<Rightarrow> secret_json response" where
  "getConfig sv = after_headers [(''Cache-Control'', ''public, max-age=300'')]
     (writeJSON 200 (ConfigJson (sv_advertisedInlineMaxBytes sv) (sv_maxFileBytes sv) (sv_pipeRelayEnabled sv)))"

end
