(* ===== verification/Http_Requests.thy ===== *)
theory Http_Requests
  imports Http_Secrets
begin

text \<open>
  The request-link endpoints (src/internal/httpapi/requests.go). A body is its length, whether reading it
  failed for another reason than its length, its members as \<open>DecodeObject\<close> sees them and the value
  \<open>json.Unmarshal\<close> makes of them. Only the bearer token of a single Authorization header is a capability.
\<close>

record 'r object_body =
  ob_readable :: bool
  ob_raw :: raw_json
  ob_value :: "'r option"

datatype request_json =
    RequestCreatedJson request_created
  | InstructionsJson instructions
  | ReceiptJson receipt
  | OwnerJson owner_status
  | UploadJson upload_result
  | StateJson string

fun writeRequestError :: "request_error \<Rightarrow> 'a response" where
  "writeRequestError ErrUnavailable = writeError 404 ''request_unavailable'' ''request is unavailable''"
| "writeRequestError ErrInvalid = writeError 400 ''invalid_request'' ''input does not match the request contract''"
| "writeRequestError ErrTooLarge = writeError 413 ''payload_too_large'' ''request payload exceeds the configured limit''"
| "writeRequestError ErrConflict = writeError 409 ''request_conflict'' ''request state or attempt conflicts''"
| "writeRequestError _ = writeError 503 ''storage_unavailable'' ''request storage is temporarily unavailable''"

definition readRequestBody :: "int \<Rightarrow> 'r object_body \<Rightarrow> request_error option" where
  "readRequestBody limit b =
     (if raw_len (ob_raw b) > max 0 limit then Some ErrTooLarge else if \<not> ob_readable b then Some ErrInvalid else None)"

text \<open>Reading and decoding, as every handler with a JSON body does.\<close>

definition request_input :: "int \<Rightarrow> string list \<Rightarrow> string list \<Rightarrow> 'r object_body \<Rightarrow> request_error + 'r" where
  "request_input limit required optional b =
     (case readRequestBody limit b of
        Some err \<Rightarrow> Inl err
      | None \<Rightarrow>
          (case DecodeObject (ob_raw b) required optional of
             Inl err \<Rightarrow> Inl err
           | Inr _ \<Rightarrow> (case ob_value b of None \<Rightarrow> Inl ErrInvalid | Some v \<Rightarrow> Inr v)))"

text \<open>\<open>readRequestBody\<close> followed by the check that nothing was sent.\<close>

definition empty_body :: "'r object_body \<Rightarrow> request_error option" where
  "empty_body b = (case readRequestBody 4096 b of Some err \<Rightarrow> Some err | None \<Rightarrow> if raw_len (ob_raw b) \<noteq> 0 then Some ErrInvalid else None)"

definition answer_of :: "int \<Rightarrow> ('r \<Rightarrow> 'a) \<Rightarrow> (request_error + 'r) \<times> api \<Rightarrow> 'a response \<times> api" where
  "answer_of status f x = ((case fst x of Inl err \<Rightarrow> writeRequestError err | Inr r \<Rightarrow> writeJSON status (f r)), snd x)"

definition createRequest ::
  "request_store \<Rightarrow> env \<Rightarrow> (string \<times> int option) object_body \<Rightarrow> api \<Rightarrow> request_json response \<times> api" where
  "createRequest st e b s =
     (case request_input 4096 [''public_key''] [''ttl_seconds''] b of
        Inl err \<Rightarrow> (writeRequestError err, s)
      | Inr (publicKey, ttl) \<Rightarrow> answer_of 201 RequestCreatedJson (CreateRequest st e publicKey ttl s))"

definition getRequestInstructions ::
  "request_store \<Rightarrow> env \<Rightarrow> string \<Rightarrow> http_request \<Rightarrow> api \<Rightarrow> request_json response \<times> api" where
  "getRequestInstructions st e i r s = answer_of 200 InstructionsJson (Instructions st e i (requestBearer r) s)"

definition submitRequest ::
  "server \<Rightarrow> request_store \<Rightarrow> env \<Rightarrow> string \<Rightarrow> http_request \<Rightarrow> submit_input object_body \<Rightarrow> api \<Rightarrow> request_json response \<times> api" where
  "submitRequest sv st e i r b s =
     (case request_input (createSecretBodyLimit sv)
        [''generation'', ''attempt_token'', ''kind'', ''size_bytes'', ''envelope'', ''ciphertext''] [] b of
        Inl err \<Rightarrow> (writeRequestError err, s)
      | Inr inp \<Rightarrow> answer_of 200 ReceiptJson (Submit st e i (requestBearer r) inp s))"

definition getRequestAttempt ::
  "request_store \<Rightarrow> env \<Rightarrow> string \<Rightarrow> http_request \<Rightarrow> (int \<times> string) object_body \<Rightarrow> api \<Rightarrow> request_json response \<times> api" where
  "getRequestAttempt st e i r b s =
     (case request_input 1024 [''generation'', ''attempt_token''] [] b of
        Inl err \<Rightarrow> (writeRequestError err, s)
      | Inr (generation, attemptToken) \<Rightarrow>
          answer_of 200 ReceiptJson (Attempt st e i (requestBearer r) generation attemptToken s))"

definition getRequestOwner ::
  "request_store \<Rightarrow> env \<Rightarrow> string \<Rightarrow> http_request \<Rightarrow> api \<Rightarrow> request_json response \<times> api" where
  "getRequestOwner st e i r s = answer_of 200 OwnerJson (Owner st e i (requestBearer r) s)"

definition request_opened_response :: "opened \<Rightarrow> request_json response" where
  "request_opened_response op =
     \<lparr>rs_status = 200,
      rs_headers = [(''Cache-Control'', ''no-store''), (''Content-Type'', ''application/octet-stream''),
                    (''Content-Length'', formatInt (op_SizeBytes op)), (''Flick-Kind'', op_Kind op)] @
                   (if EnvFilename (op_Envelope op) = [] then []
                    else [(''Flick-Encrypted-Filename'', EnvFilename (op_Envelope op))]),
      rs_body = RawBody (op_Body op)\<rparr>"

text \<open>\<open>mw\<close> is what others do between the two transactions of the open of an object, \<open>mw2\<close> while the body
  streams to the requester.\<close>

definition openRequest ::
  "request_store \<Rightarrow> s3 \<Rightarrow> (api \<Rightarrow> api) \<Rightarrow> (api \<Rightarrow> api) \<Rightarrow> env \<Rightarrow> env \<Rightarrow> env \<Rightarrow> string \<Rightarrow> http_request \<Rightarrow> 'r object_body \<Rightarrow> api \<Rightarrow>
   request_json response \<times> api" where
  "openRequest st svc mw mw2 e e2 e3 i r b s =
     (case empty_body b of
        Some err \<Rightarrow> (writeRequestError err, s)
      | None \<Rightarrow>
          (case OpenRequest st svc mw e e2 i (requestBearer r) s of
             (Inl err, s') \<Rightarrow> (writeRequestError err, s')
           | (Inr op, s') \<Rightarrow>
               (request_opened_response op,
                if op_ObjectKey op \<noteq> [] then snd (FinishOpen st e3 i (op_ObjectKey op) (mw2 s')) else s')))"

definition revokeRequest ::
  "request_store \<Rightarrow> env \<Rightarrow> string \<Rightarrow> http_request \<Rightarrow> 'r object_body \<Rightarrow> api \<Rightarrow> request_json response \<times> api" where
  "revokeRequest st e i r b s =
     (case empty_body b of
        Some err \<Rightarrow> (writeRequestError err, s)
      | None \<Rightarrow>
          (case RevokeRequest st e i (requestBearer r) s of
             (Some err, s') \<Rightarrow> (writeRequestError err, s')
           | (None, s') \<Rightarrow> (writeJSON 200 (StateJson ''cancelled''), s')))"

definition reserveRequest ::
  "request_store \<Rightarrow> s3 \<Rightarrow> env \<Rightarrow> string \<Rightarrow> http_request \<Rightarrow> upload_input object_body \<Rightarrow> api \<Rightarrow> request_json response \<times> api" where
  "reserveRequest st svc e i r b s =
     (case request_input 16384
        [''generation'', ''attempt_token'', ''kind'', ''size_bytes'', ''envelope'', ''ciphertext_sha256''] [] b of
        Inl err \<Rightarrow> (writeRequestError err, s)
      | Inr inp \<Rightarrow> answer_of 200 UploadJson (Reserve st svc e i (requestBearer r) inp s))"

definition requestAttemptMutation ::
  "request_store \<Rightarrow> s3 \<Rightarrow> (string \<rightharpoonup> finalize_call) \<Rightarrow> (api \<Rightarrow> api) \<Rightarrow> env \<Rightarrow> env \<Rightarrow> string \<Rightarrow> http_request \<Rightarrow>
   attempt_input object_body \<Rightarrow> bool \<Rightarrow> api \<Rightarrow>
   request_json response \<times> api" where
  "requestAttemptMutation st svc finalizing mw e e2 i r b abandon s =
     (case request_input 1024 [''generation'', ''attempt_token''] [] b of
        Inl err \<Rightarrow> (writeRequestError err, s)
      | Inr inp \<Rightarrow>
          answer_of 200 ReceiptJson
            (if abandon then Abandon st e i (requestBearer r) inp s
             else fst (FinalizeRequest st svc finalizing mw e e2 i (requestBearer r) inp s)))"

definition finalizeRequest ::
  "request_store \<Rightarrow> s3 \<Rightarrow> (string \<rightharpoonup> finalize_call) \<Rightarrow> (api \<Rightarrow> api) \<Rightarrow> env \<Rightarrow> env \<Rightarrow> string \<Rightarrow> http_request \<Rightarrow>
   attempt_input object_body \<Rightarrow> api \<Rightarrow>
   request_json response \<times> api" where
  "finalizeRequest st svc finalizing mw e e2 i r b s = requestAttemptMutation st svc finalizing mw e e2 i r b False s"

definition abandonRequest ::
  "request_store \<Rightarrow> s3 \<Rightarrow> env \<Rightarrow> string \<Rightarrow> http_request \<Rightarrow> attempt_input object_body \<Rightarrow> api \<Rightarrow> request_json response \<times> api" where
  "abandonRequest st svc e i r b s = requestAttemptMutation st svc Map.empty id e e i r b True s"

end
