(* ===== verification/Client_Address.thy ===== *)
theory Client_Address
  imports Http
begin

text \<open>
  Which client a request comes from (clientIP, isTrustedIP and rightmostUntrusted of
  src/internal/httpapi/ratelimit.go), over the address functions of Go's \<open>net\<close> package: splitting a
  host from its port, textual addresses, and the prefix test of a network. A parsed address has 16
  bytes, an IPv4 address in its mapped form.
\<close>

unbundle bit_operations_syntax

subsection \<open>Splitting\<close>

fun split_on :: "char \<Rightarrow> string \<Rightarrow> string list" where
  "split_on c [] = [[]]"
| "split_on c (x # xs) = (if x = c then [] # split_on c xs
     else (case split_on c xs of [] \<Rightarrow> [[x]] | w # ws \<Rightarrow> (x # w) # ws))"

text \<open>\<open>net.SplitHostPort\<close>, the host only.\<close>

definition after_last :: "char \<Rightarrow> string \<Rightarrow> string" where
  "after_last c s = rev (takeWhile (\<lambda>x. x \<noteq> c) (rev s))"

definition before_last :: "char \<Rightarrow> string \<Rightarrow> string" where
  "before_last c s = take (length s - length (after_last c s) - 1) s"

definition splitHost :: "string \<Rightarrow> string option" where
  "splitHost s =
     (if CHR '':'' \<notin> set s then None
      else if hasPrefix s ''['' then
        (if CHR '']'' \<notin> set s then None
         else let host = takeWhile (\<lambda>x. x \<noteq> CHR '']'') (tl s);
                  rest = drop (length host + 2) s in
           if rest = [] \<or> hd rest \<noteq> CHR '':'' \<or> CHR '':'' \<in> set (tl rest) then None
           else if CHR ''['' \<in> set (tl s) \<or> CHR '']'' \<in> set rest then None
           else Some host)
      else if CHR '':'' \<in> set (before_last CHR '':'' s) then None
      else if CHR ''['' \<in> set s \<or> CHR '']'' \<in> set s then None
      else Some (before_last CHR '':'' s))"

subsection \<open>Textual addresses\<close>

definition is_digit :: "char \<Rightarrow> bool" where
  "is_digit c \<longleftrightarrow> 48 \<le> byte c \<and> byte c \<le> 57"

definition decimal :: "string \<Rightarrow> nat" where
  "decimal ds = foldl (\<lambda>n c. n * 10 + (byte c - 48)) 0 ds"

definition octet :: "string \<Rightarrow> nat option" where
  "octet f = (if f = [] \<or> \<not> list_all is_digit f \<or> (1 < length f \<and> hd f = CHR ''0'') \<or> 255 < decimal f then None
     else Some (decimal f))"

definition parseIPv4Fields :: "string \<Rightarrow> nat list option" where
  "parseIPv4Fields s = (let fs = map octet (split_on CHR ''.'' s) in
     if length fs = 4 \<and> None \<notin> set fs then Some (map the fs) else None)"

definition hex_value :: "char \<Rightarrow> nat option" where
  "hex_value c = (let b = byte c in
     if 48 \<le> b \<and> b \<le> 57 then Some (b - 48) else if 97 \<le> b \<and> b \<le> 102 then Some (b - 87)
     else if 65 \<le> b \<and> b \<le> 70 then Some (b - 55) else None)"

definition hex_number :: "string \<Rightarrow> nat" where
  "hex_number ds = foldl (\<lambda>n c. n * 16 + the (hex_value c)) 0 ds"

text \<open>The loop of \<open>parseIPv6\<close> with at most eight groups to go: the bytes so far, where the ellipsis is, and
  what is left of the text. The result is the bytes and the ellipsis.\<close>

fun parse_groups :: "nat \<Rightarrow> nat list \<Rightarrow> nat option \<Rightarrow> string \<Rightarrow> (nat list \<times> nat option) option" where
  "parse_groups 0 ip ell s = (if s = [] then Some (ip, ell) else None)"
| "parse_groups (Suc n) ip ell s =
     (let ds = takeWhile (\<lambda>c. hex_value c \<noteq> None) s; rest = drop (length ds) s in
      if ds = [] \<or> 4 < length ds then None
      else if rest \<noteq> [] \<and> hd rest = CHR ''.'' then
        (if (ell = None \<and> length ip \<noteq> 12) \<or> 16 < length ip + 4 then None
         else map_option (\<lambda>v4. (ip @ v4, ell)) (parseIPv4Fields s))
      else let ip' = ip @ [hex_number ds div 256, hex_number ds mod 256] in
        if rest = [] then Some (ip', ell)
        else if hd rest \<noteq> CHR '':'' \<or> length rest = 1 then None
        else if hd (tl rest) = CHR '':'' then
          (if ell \<noteq> None then None
           else if tl (tl rest) = [] then Some (ip', Some (length ip'))
           else parse_groups n ip' (Some (length ip')) (tl (tl rest)))
        else parse_groups n ip' ell (tl rest))"

text \<open>\<open>net.ParseIP\<close> refuses an address with a zone.\<close>

definition parseIPv6 :: "string \<Rightarrow> nat list option" where
  "parseIPv6 s =
     (if CHR ''%'' \<in> set s then None
      else let lead = hasPrefix s ''::''; s' = (if lead then drop 2 s else s) in
        if lead \<and> s' = [] then Some (replicate 16 0)
        else (case parse_groups 8 [] (if lead then Some 0 else None) s' of
          None \<Rightarrow> None
        | Some (ip, ell) \<Rightarrow>
            if length ip < 16 then
              (case ell of None \<Rightarrow> None
               | Some k \<Rightarrow> Some (take k ip @ replicate (16 - length ip) 0 @ drop k ip))
            else if ell \<noteq> None then None else Some ip))"

definition mapped_prefix :: "nat list" where "mapped_prefix = replicate 10 0 @ [255, 255]"

definition ParseIP :: "string \<Rightarrow> nat list option" where
  "ParseIP s =
     (case dropWhile (\<lambda>c. c \<notin> {CHR ''.'', CHR '':'', CHR ''%''}) s of
        [] \<Rightarrow> None
      | c # _ \<Rightarrow>
          if c = CHR ''.'' then map_option (\<lambda>v4. mapped_prefix @ v4) (parseIPv4Fields s)
          else if c = CHR '':'' then parseIPv6 s else None)"

subsection \<open>Networks\<close>

record ip_net =
  net_IP :: "nat list"
  net_Mask :: "nat list"

definition To4 :: "nat list \<Rightarrow> nat list option" where
  "To4 ip = (if length ip = 4 then Some ip
     else if length ip = 16 \<and> take 12 ip = mapped_prefix then Some (drop 12 ip) else None)"

definition shortest :: "nat list \<Rightarrow> nat list" where
  "shortest ip = (case To4 ip of None \<Rightarrow> ip | Some v4 \<Rightarrow> v4)"

definition networkNumberAndMask :: "ip_net \<Rightarrow> (nat list \<times> nat list) option" where
  "networkNumberAndMask n =
     (let ip = shortest (net_IP n); m = net_Mask n in
      if length ip \<noteq> 4 \<and> length ip \<noteq> 16 then None
      else if length m = 4 then (if length ip \<noteq> 4 then None else Some (ip, m))
      else if length m = 16 then Some (ip, if length ip = 4 then drop 12 m else m)
      else None)"

definition net_Contains :: "ip_net \<Rightarrow> nat list \<Rightarrow> bool" where
  "net_Contains n ip =
     (case networkNumberAndMask n of
        None \<Rightarrow> False
      | Some (nn, m) \<Rightarrow>
          length (shortest ip) = length nn \<and>
          list_all (\<lambda>(a, b, c). (a AND c) = (b AND c)) (zip nn (zip (shortest ip) m)))"

subsection \<open>The client of a request\<close>

definition isTrustedIP :: "string \<Rightarrow> ip_net list \<Rightarrow> bool" where
  "isTrustedIP ip trusted =
     (case ParseIP ip of None \<Rightarrow> False | Some parsed \<Rightarrow> list_ex (\<lambda>cidr. net_Contains cidr parsed) trusted)"

definition rightmostUntrusted :: "string \<Rightarrow> ip_net list \<Rightarrow> string" where
  "rightmostUntrusted xff trusted =
     (case find (\<lambda>candidate. candidate \<noteq> [] \<and> ParseIP candidate \<noteq> None \<and> \<not> isTrustedIP candidate trusted)
        (map trimSpace (rev (split_on CHR '','' xff))) of
        None \<Rightarrow> []
      | Some ip \<Rightarrow> ip)"

definition peer_of :: "http_request \<Rightarrow> string" where
  "peer_of r = (case splitHost (rq_remoteAddr r) of None \<Rightarrow> rq_remoteAddr r | Some peer \<Rightarrow> peer)"

definition clientIP :: "ip_net list \<Rightarrow> http_request \<Rightarrow> string" where
  "clientIP trusted r =
     (let peer = peer_of r; xff = header_get r ''X-Forwarded-For'' in
      if isTrustedIP peer trusted \<and> xff \<noteq> [] \<and> rightmostUntrusted xff trusted \<noteq> []
      then rightmostUntrusted xff trusted else peer)"

subsection \<open>A client cannot choose its address\<close>

lemma clientIP_direct: "\<not> isTrustedIP (peer_of r) trusted \<Longrightarrow> clientIP trusted r = peer_of r"
  by (simp add: clientIP_def Let_def)

lemma split_on_snoc: "c \<notin> set b \<Longrightarrow> split_on c (a @ c # b) = split_on c a @ [b]"
proof (induction a)
  case Nil
  then have "split_on c b = [b]" by (induction b) auto
  then show ?case by simp
next
  case (Cons x a)
  moreover have "split_on c a \<noteq> []" by (induction a) (auto split: list.split)
  ultimately show ?case by (auto split: list.split)
qed

text \<open>A trusted proxy appends the address it saw: whatever came before in the header is ignored.\<close>

lemma clientIP_forwarded:
  assumes "isTrustedIP (peer_of r) trusted" "header_get r ''X-Forwarded-For'' = spoofed @ '','' @ entry"
    and "CHR '','' \<notin> set entry" "trimSpace entry = ip" "ip \<noteq> []" "ParseIP ip \<noteq> None" "\<not> isTrustedIP ip trusted"
  shows "clientIP trusted r = ip"
  using assms by (simp add: clientIP_def rightmostUntrusted_def split_on_snoc)

text \<open>The address is either that of the peer or a well-formed address no trusted network contains.\<close>

lemma clientIP_valid:
  "clientIP trusted r = peer_of r \<or> (ParseIP (clientIP trusted r) \<noteq> None \<and> \<not> isTrustedIP (clientIP trusted r) trusted)"
  by (auto simp: clientIP_def Let_def rightmostUntrusted_def find_Some_iff split: option.splits)

end
