(* ===== verification/Go_Float.thy ===== *)
theory Go_Float
  imports Prelude Complex_Main
begin

text \<open>
  Go's \<open>float64\<close> as far as the rate limiter needs it: a value is the real it denotes and every operation
  rounds its exact result to 53 significant bits, ties to even. The exponent range is not bounded here;
  the limiter's numbers are far from underflow and overflow.
\<close>

definition round_even :: "real \<Rightarrow> int" where
  "round_even y = (let f = \<lfloor>y\<rfloor> in
     if y - of_int f < 1 / 2 then f else if y - of_int f > 1 / 2 then f + 1 else if even f then f else f + 1)"

text \<open>The weight of the last of the 53 bits.\<close>

definition ulp :: "real \<Rightarrow> real" where
  "ulp x = 2 powr of_int (\<lfloor>log 2 \<bar>x\<bar>\<rfloor> - 52)"

definition f64 :: "real \<Rightarrow> real" where
  "f64 x = (if x = 0 then 0 else of_int (round_even (x / ulp x)) * ulp x)"

text \<open>The unit roundoff.\<close>

definition ulp1 :: real where "ulp1 = 1 / 2 ^ 53"

lemma round_even_error: "\<bar>of_int (round_even y) - y\<bar> \<le> 1 / 2"
  using of_int_floor_le [of y] real_of_int_floor_add_one_gt [of y]
  by (auto simp: round_even_def Let_def abs_le_iff)

lemma round_even_int [simp]: "round_even (of_int n) = n"
  by (simp add: round_even_def)

lemma ulp_pos: "0 < ulp x"
  by (simp add: ulp_def)

lemma ulp_le: "x \<noteq> 0 \<Longrightarrow> ulp x \<le> \<bar>x\<bar> / 2 ^ 52"
proof -
  assume "x \<noteq> 0"
  then have "2 powr of_int \<lfloor>log 2 \<bar>x\<bar>\<rfloor> \<le> \<bar>x\<bar>" by (simp add: powr_le_iff)
  moreover have "ulp x = 2 powr of_int \<lfloor>log 2 \<bar>x\<bar>\<rfloor> / 2 ^ 52"
    by (simp add: ulp_def powr_diff powr_numeral)
  ultimately show ?thesis by (simp add: divide_right_mono)
qed

lemma f64_error: "\<bar>f64 x - x\<bar> \<le> ulp1 * \<bar>x\<bar>"
proof (cases "x = 0")
  case False
  have "f64 x - x = (of_int (round_even (x / ulp x)) - x / ulp x) * ulp x"
    using False ulp_pos [of x] by (simp add: f64_def left_diff_distrib)
  then have "\<bar>f64 x - x\<bar> = \<bar>of_int (round_even (x / ulp x)) - x / ulp x\<bar> * ulp x"
    using ulp_pos [of x] by (simp add: abs_mult)
  also have "\<dots> \<le> 1 / 2 * (\<bar>x\<bar> / 2 ^ 52)"
    using round_even_error [of "x / ulp x"] ulp_le [OF False] ulp_pos [of x] by (intro mult_mono) auto
  finally show ?thesis by (simp add: ulp1_def)
qed (simp add: f64_def)

lemma f64_upper: "0 \<le> x \<Longrightarrow> f64 x \<le> x * (1 + ulp1)"
  using f64_error [of x] by (simp add: algebra_simps abs_le_iff)

lemma f64_lower: "0 \<le> x \<Longrightarrow> x * (1 - ulp1) \<le> f64 x"
  using f64_error [of x] by (simp add: algebra_simps abs_le_iff)

lemma f64_nonneg: "0 \<le> x \<Longrightarrow> 0 \<le> f64 x"
proof -
  assume "0 \<le> x"
  moreover have "0 \<le> x * (1 - ulp1)" using \<open>0 \<le> x\<close> by (simp add: ulp1_def)
  ultimately show ?thesis using f64_lower [of x] by linarith
qed

lemma f64_int:
  assumes "\<bar>n\<bar> < 2 ^ 53"
  shows "f64 (of_int n) = of_int n"
proof (cases "n = 0")
  case False
  have "log 2 \<bar>of_int n\<bar> < 53"
  proof -
    have "\<bar>real_of_int n\<bar> < 2 ^ 53" using assms by (metis of_int_abs of_int_less_iff of_int_numeral of_int_power)
    then show ?thesis using False by (simp add: log_less_iff powr_numeral)
  qed
  then have k: "\<lfloor>log 2 \<bar>real_of_int n\<bar>\<rfloor> \<le> 52" by linarith
  define k' where "k' = nat (52 - \<lfloor>log 2 \<bar>real_of_int n\<bar>\<rfloor>)"
  have "ulp (of_int n) = 1 / 2 ^ k'"
    using k by (simp add: ulp_def k'_def powr_minus_divide [symmetric] powr_realpow [symmetric] flip: of_int_minus)
  then have "of_int n / ulp (of_int n) = real_of_int (n * 2 ^ k')" by simp
  then show ?thesis using False ulp_pos [of "of_int n"]
    by (metis f64_def round_even_int nonzero_eq_divide_eq of_int_eq_0_iff order_less_irrefl)
qed (simp add: f64_def)

end
