(* ===== verification/Rate_Limit.thy ===== *)
theory Rate_Limit
  imports Client_Address Go_Float
begin

text \<open>
  The token-bucket limiter of src/internal/httpapi/ratelimit.go: one bucket per key, refilled with the
  time since it was last asked, and dropped after ten idle minutes. The lock makes each call one step;
  the background goroutine is the event \<open>LTick\<close>. Token counts are \<open>float64\<close> values, so every sum is
  rounded; the bound below pays for the rounding.
\<close>

record token_bucket =
  tokens :: real
  last :: time

record rate_limiter =
  buckets :: "string \<rightharpoonup> token_bucket"
  rl_rate :: real
  burst :: real
  trustedProxies :: "ip_net list"

definition newRateLimiter :: "int \<Rightarrow> ip_net list \<Rightarrow> rate_limiter" where
  "newRateLimiter perMinute proxies =
     (let n = (if perMinute \<le> 0 then 10 else perMinute) in
      \<lparr>buckets = Map.empty, rl_rate = f64 (f64 (of_int n) / 60), burst = f64 (of_int n), trustedProxies = proxies\<rparr>)"

text \<open>\<open>Time.Sub\<close> saturates; \<open>Duration.Seconds\<close> adds the rounded fraction to the whole seconds.\<close>

definition time_Sub :: "time \<Rightarrow> time \<Rightarrow> duration" where
  "time_Sub a b = max (- (2 ^ 63)) (min (2 ^ 63 - 1) (a - b))"

definition Seconds :: "duration \<Rightarrow> real" where
  "Seconds d = (let sec = quot d Second; nsec = d - sec * Second in f64 (f64 (of_int sec) + f64 (f64 (of_int nsec) / 1000000000)))"

definition refill :: "rate_limiter \<Rightarrow> time \<Rightarrow> token_bucket \<Rightarrow> token_bucket" where
  "refill rl now b =
     (let elapsed = Seconds (time_Sub now (last b));
          t = (if elapsed > 0 then min (burst rl) (f64 (tokens b + f64 (elapsed * rl_rate rl))) else tokens b) in
      \<lparr>tokens = t, last = now\<rparr>)"

definition allow :: "string \<Rightarrow> time \<Rightarrow> rate_limiter \<Rightarrow> bool \<times> rate_limiter" where
  "allow key now rl =
     (let b = refill rl now (case buckets rl key of None \<Rightarrow> \<lparr>tokens = burst rl, last = now\<rparr> | Some b \<Rightarrow> b) in
      if tokens b < 1 then (False, rl\<lparr>buckets := (buckets rl)(key \<mapsto> b)\<rparr>)
      else (True, rl\<lparr>buckets := (buckets rl)(key \<mapsto> b\<lparr>tokens := f64 (tokens b - 1)\<rparr>)\<rparr>))"

definition limiter_cleanup :: "time \<Rightarrow> rate_limiter \<Rightarrow> rate_limiter" where
  "limiter_cleanup now rl =
     rl\<lparr>buckets := (\<lambda>key. case buckets rl key of None \<Rightarrow> None
        | Some b \<Rightarrow> if time_Sub now (last b) > 10 * Minute then None else Some b)\<rparr>"

definition rate_limited :: "'a response" where
  "rate_limited = after_headers [(''Retry-After'', ''60'')]
     (writeError 429 ''rate_limited'' ''too many requests, slow down'')"

text \<open>The answer of the limiter, or \<open>None\<close> when the request is passed on.\<close>

definition middlewareByKey ::
  "(http_request \<Rightarrow> string) \<Rightarrow> http_request \<Rightarrow> time \<Rightarrow> rate_limiter \<Rightarrow> 'a response option \<times> rate_limiter" where
  "middlewareByKey resource r now rl =
     (case allow (clientIP (trustedProxies rl) r @ ''|'' @ resource r) now rl of
        (ok, rl') \<Rightarrow> (if ok then None else Some rate_limited, rl'))"

definition path_middleware :: "http_request \<Rightarrow> time \<Rightarrow> rate_limiter \<Rightarrow> 'a response option \<times> rate_limiter" where
  "path_middleware r now rl = middlewareByKey rq_path r now rl"

definition managementMiddleware :: "string \<Rightarrow> http_request \<Rightarrow> time \<Rightarrow> rate_limiter \<Rightarrow> 'a response option \<times> rate_limiter" where
  "managementMiddleware i r now rl = middlewareByKey (\<lambda>_. i) r now rl"

text \<open>One bucket per client over all request links.\<close>

definition requestRateLimit :: "http_request \<Rightarrow> time \<Rightarrow> rate_limiter \<Rightarrow> 'a response option \<times> rate_limiter" where
  "requestRateLimit r now rl =
     (case allow (clientIP (trustedProxies rl) r) now rl of (ok, rl') \<Rightarrow> (if ok then None else Some rate_limited, rl'))"

subsection \<open>One call\<close>

lemma Seconds_bounds:
  assumes "0 \<le> d" "d < 2 ^ 63"
  shows "0 \<le> Seconds d" "Seconds d \<le> of_int d / 1000000000 * (1 + ulp1) ^ 2"
proof -
  let ?s = "real_of_int (quot d Second)" and ?n = "real_of_int (d - quot d Second * Second)"
  have q: "quot d Second = d div 1000000000" using assms by (simp add: quot_nonneg Second_def)
  have fs: "f64 ?s = ?s" using assms by (intro f64_int) (simp add: q)
  have n: "d - quot d Second * Second = d mod 1000000000"
    unfolding q by (simp add: Second_def minus_div_mult_eq_mod)
  have fn: "f64 ?n = ?n" unfolding n by (rule f64_int) (simp add: abs_of_nonneg order_less_trans [OF pos_mod_bound])
  have S: "Seconds d = f64 (?s + f64 (?n / 1000000000))" unfolding Seconds_def Let_def fs fn ..
  have nn: "0 \<le> ?s" "0 \<le> ?n" unfolding n using assms by (simp_all add: q)
  have f: "0 \<le> f64 (?n / 1000000000)" "f64 (?n / 1000000000) \<le> ?n / 1000000000 * (1 + ulp1)"
    using nn(2) by (intro f64_nonneg f64_upper divide_nonneg_nonneg; simp)+
  show "0 \<le> Seconds d" unfolding S using nn f by (intro f64_nonneg) simp
  have "?s * 1 \<le> ?s * (1 + ulp1)" using nn by (intro mult_left_mono) (simp_all add: ulp1_def)
  then have "?s + f64 (?n / 1000000000) \<le> (?s + ?n / 1000000000) * (1 + ulp1)" using f by (simp add: distrib_right)
  moreover have eq: "?s + ?n / 1000000000 = of_int d / 1000000000" by (simp add: Second_def field_simps)
  ultimately have "?s + f64 (?n / 1000000000) \<le> of_int d / 1000000000 * (1 + ulp1)" unfolding eq by (simp only:)
  moreover have "Seconds d \<le> (?s + f64 (?n / 1000000000)) * (1 + ulp1)" unfolding S using nn f by (intro f64_upper) simp
  moreover have "0 \<le> 1 + ulp1" by (simp add: ulp1_def)
  ultimately have "Seconds d \<le> (of_int d / 1000000000 * (1 + ulp1)) * (1 + ulp1)" by (meson mult_right_mono order_trans)
  then show "Seconds d \<le> of_int d / 1000000000 * (1 + ulp1) ^ 2" by (simp add: power2_eq_square)
qed

lemma time_Sub_bounds:
  "b \<le> a \<Longrightarrow> 0 \<le> time_Sub a b \<and> time_Sub a b < 2 ^ 63 \<and> time_Sub a b \<le> a - b"
  by (auto simp: time_Sub_def)

text \<open>What a limiter is built with: the buckets hold between none and \<open>burst\<close> tokens and carry times that
  have passed; the rate refills a bucket in less than ten minutes.\<close>

definition limiter_ok :: "time \<Rightarrow> rate_limiter \<Rightarrow> bool" where
  "limiter_ok now rl \<longleftrightarrow> 0 \<le> rl_rate rl \<and> 0 \<le> burst rl \<and> burst rl \<le> 600 * rl_rate rl \<and> burst rl * ulp1 \<le> 1 \<and>
     (\<forall>key b. buckets rl key = Some b \<longrightarrow> 0 \<le> tokens b \<and> tokens b \<le> burst rl \<and> last b \<le> now)"

lemma newRateLimiter_conf:
  assumes "0 < perMinute" "perMinute < 2 ^ 53"
  shows "burst (newRateLimiter perMinute proxies) = of_int perMinute"
    "rl_rate (newRateLimiter perMinute proxies) = f64 (of_int perMinute / 60)"
    "buckets (newRateLimiter perMinute proxies) = Map.empty" "trustedProxies (newRateLimiter perMinute proxies) = proxies"
proof -
  have "f64 (of_int perMinute) = of_int perMinute" using assms by (intro f64_int) simp
  then show "burst (newRateLimiter perMinute proxies) = of_int perMinute"
    "rl_rate (newRateLimiter perMinute proxies) = f64 (of_int perMinute / 60)"
    "buckets (newRateLimiter perMinute proxies) = Map.empty" "trustedProxies (newRateLimiter perMinute proxies) = proxies"
    using assms by (simp_all add: newRateLimiter_def Let_def)
qed

lemma newRateLimiter_ok:
  assumes "0 < perMinute" "perMinute < 2 ^ 53"
  shows "limiter_ok now (newRateLimiter perMinute proxies)"
proof -
  let ?b = "real_of_int perMinute"
  have "?b \<le> of_int (2 ^ 53)" using assms(2) by (intro of_int_le_iff [THEN iffD2]) simp
  then have b: "0 \<le> ?b" "?b \<le> 2 ^ 53" using assms(1) by simp_all
  have "?b / 60 * (1 - ulp1) \<le> f64 (?b / 60)" using b by (intro f64_lower) simp
  moreover have "?b * 1 \<le> ?b * (10 * (1 - ulp1))" using b by (intro mult_left_mono) (simp_all add: ulp1_def)
  ultimately have "?b \<le> 600 * f64 (?b / 60)" by (simp add: algebra_simps)
  moreover have "0 \<le> f64 (?b / 60)" using b by (intro f64_nonneg) simp
  moreover have "?b * ulp1 \<le> 1" using b by (simp add: ulp1_def)
  ultimately show ?thesis using b by (simp add: limiter_ok_def newRateLimiter_conf [OF assms])
qed

text \<open>Tokens gained in a second, rounding included.\<close>

definition gain :: "rate_limiter \<Rightarrow> real" where
  "gain rl = rl_rate rl * (1 + ulp1) ^ 4"

definition slack :: "rate_limiter \<Rightarrow> real" where
  "slack rl = 2 * ulp1 * burst rl"

abbreviation seconds_between :: "time \<Rightarrow> time \<Rightarrow> real" where
  "seconds_between a b \<equiv> of_int (b - a) / 1000000000"

lemma refill_bounds:
  assumes "0 \<le> rl_rate rl" "0 \<le> tokens b" "tokens b \<le> burst rl" "last b \<le> now"
  shows "0 \<le> tokens (refill rl now b)" "tokens (refill rl now b) \<le> burst rl" "last (refill rl now b) = now"
    "tokens (refill rl now b) \<le> tokens b + ulp1 * burst rl + gain rl * seconds_between (last b) now"
proof -
  define d where "d = time_Sub now (last b)"
  define T where "T = seconds_between (last b) now"
  let ?e = "Seconds d"
  have d: "0 \<le> d" "d < 2 ^ 63" "d \<le> now - last b" using time_Sub_bounds [OF assms(4)] by (simp_all add: d_def)
  note e = Seconds_bounds [OF d(1,2)]
  have u: "0 \<le> ulp1" by (simp add: ulp1_def)
  have T: "0 \<le> T" "real_of_int d / 1000000000 \<le> T" using assms(4) d(3) by (simp_all add: T_def divide_right_mono)
  then have "real_of_int d / 1000000000 * (1 + ulp1) ^ 2 \<le> T * (1 + ulp1) ^ 2" using u by (intro mult_right_mono) simp_all
  with e(2) have eT: "?e \<le> T * (1 + ulp1) ^ 2" by linarith
  let ?g = "f64 (?e * rl_rate rl)"
  have g: "0 \<le> ?g" "?g \<le> ?e * rl_rate rl * (1 + ulp1)" using e(1) assms(1) by (intro f64_nonneg f64_upper; simp)+
  have "?e * rl_rate rl * (1 + ulp1) \<le> T * (1 + ulp1) ^ 2 * rl_rate rl * (1 + ulp1)"
    using eT assms(1) u by (intro mult_right_mono) simp_all
  also have "\<dots> = rl_rate rl * (1 + ulp1) ^ 3 * T" by (simp add: power2_eq_square power3_eq_cube mult_ac)
  finally have gT: "?g \<le> rl_rate rl * (1 + ulp1) ^ 3 * T" using g(2) by linarith
  have "f64 (tokens b + ?g) \<le> (tokens b + ?g) * (1 + ulp1)" using assms(2) g(1) by (intro f64_upper) simp
  also have "\<dots> = tokens b + ulp1 * tokens b + ?g * (1 + ulp1)" by (simp add: algebra_simps)
  also have "\<dots> \<le> tokens b + ulp1 * burst rl + (rl_rate rl * (1 + ulp1) ^ 3 * T) * (1 + ulp1)"
    using assms(3) gT u by (intro add_mono mult_left_mono mult_right_mono) simp_all
  also have "\<dots> = tokens b + ulp1 * burst rl + gain rl * T"
    by (simp add: gain_def power3_eq_cube power4_eq_xxxx mult_ac)
  finally have up: "f64 (tokens b + ?g) \<le> tokens b + ulp1 * burst rl + gain rl * T" .
  have lo: "0 \<le> f64 (tokens b + ?g)" using assms(2) g(1) by (intro f64_nonneg) simp
  have stay: "tokens b \<le> tokens b + ulp1 * burst rl + gain rl * T"
    using assms(1,2,3) u T(1) by (simp add: gain_def)
  show "0 \<le> tokens (refill rl now b)" "tokens (refill rl now b) \<le> burst rl" "last (refill rl now b) = now"
    using assms(2,3) lo by (auto simp: refill_def Let_def d_def [symmetric])
  show "tokens (refill rl now b) \<le> tokens b + ulp1 * burst rl + gain rl * seconds_between (last b) now"
    unfolding T_def [symmetric] using up stay by (simp add: refill_def Let_def d_def [symmetric] min_le_iff_disj)
qed

text \<open>What a key may still be granted at an instant.\<close>

definition credit :: "rate_limiter \<Rightarrow> string \<Rightarrow> time \<Rightarrow> real" where
  "credit rl key now = (case buckets rl key of None \<Rightarrow> burst rl
     | Some b \<Rightarrow> min (burst rl) (tokens b + gain rl * seconds_between (last b) now))"

definition limiter_conf :: "rate_limiter \<Rightarrow> real \<times> real \<times> ip_net list" where
  "limiter_conf rl = (rl_rate rl, burst rl, trustedProxies rl)"

lemma gain_nonneg: "limiter_ok t rl \<Longrightarrow> 0 \<le> gain rl"
  by (simp add: limiter_ok_def gain_def ulp1_def)

lemma credit_later:
  assumes "limiter_ok t rl" "now \<le> now'"
  shows "credit rl key now' \<le> credit rl key now + gain rl * seconds_between now now'"
proof (cases "buckets rl key")
  case None
  then show ?thesis using gain_nonneg [OF assms(1)] assms(2) by (simp add: credit_def)
next
  case (Some b)
  have "gain rl * seconds_between (last b) now' = gain rl * seconds_between (last b) now + gain rl * seconds_between now now'"
    by (simp add: field_simps)
  moreover have "0 \<le> gain rl * seconds_between now now'" using gain_nonneg [OF assms(1)] assms(2) by simp
  ultimately show ?thesis using Some unfolding credit_def by (simp only: option.case min_def) auto
qed

lemma allow_cases:
  assumes ok: "limiter_ok t rl" "t \<le> now" and al: "allow key now rl = (granted, rl')"
  shows "limiter_ok now rl'" "limiter_conf rl' = limiter_conf rl"
    "credit rl' key now + of_bool granted \<le> credit rl key now + slack rl"
    "key' \<noteq> key \<Longrightarrow> buckets rl' key' = buckets rl key'"
proof -
  define b0 where "b0 = (case buckets rl key of None \<Rightarrow> \<lparr>tokens = burst rl, last = now\<rparr> | Some b \<Rightarrow> b)"
  define b where "b = refill rl now b0"
  have r: "0 \<le> rl_rate rl" "0 \<le> burst rl" using ok by (simp_all add: limiter_ok_def)
  have b0: "0 \<le> tokens b0" "tokens b0 \<le> burst rl" "last b0 \<le> now"
    using ok by (fastforce simp: b0_def limiter_ok_def split: option.split)+
  note b = refill_bounds [OF r(1) b0, folded b_def]
  have c0: "min (burst rl) (tokens b0 + gain rl * seconds_between (last b0) now) = credit rl key now"
    by (simp add: b0_def credit_def split: option.split)
  have al': "allow key now rl = (if tokens b < 1 then (False, rl\<lparr>buckets := (buckets rl)(key \<mapsto> b)\<rparr>)
      else (True, rl\<lparr>buckets := (buckets rl)(key \<mapsto> b\<lparr>tokens := f64 (tokens b - 1)\<rparr>)\<rparr>))"
    by (simp add: allow_def Let_def b_def b0_def)
  define f where "f = (if tokens b < 1 then tokens b else f64 (tokens b - 1))"
  have u: "0 \<le> ulp1" "ulp1 \<le> 1" by (simp_all add: ulp1_def)
  have rl': "rl' = rl\<lparr>buckets := (buckets rl)(key \<mapsto> b\<lparr>tokens := f\<rparr>)\<rparr>" "granted = (\<not> tokens b < 1)"
    using al unfolding al' f_def by (auto split: if_splits)
  have f: "0 \<le> f" "f + of_bool granted \<le> tokens b + ulp1 * burst rl" "f \<le> burst rl"
  proof -
    show "0 \<le> f" using b(1) by (simp add: f_def f64_nonneg)
    show s: "f + of_bool granted \<le> tokens b + ulp1 * burst rl"
    proof (cases "tokens b < 1")
      case False
      then have "f \<le> (tokens b - 1) * (1 + ulp1)" unfolding f_def by (simp add: f64_upper)
      also have "\<dots> = tokens b - 1 + (tokens b - 1) * ulp1" by (simp add: algebra_simps)
      also have "(tokens b - 1) * ulp1 \<le> burst rl * ulp1" using b(2) u by (intro mult_right_mono) simp_all
      finally show ?thesis using False rl'(2) by (simp add: mult.commute)
    qed (use r u rl' in \<open>simp add: f_def\<close>)
    show "f \<le> burst rl"
    proof (cases "tokens b < 1")
      case False
      then have "f \<le> (tokens b - 1) * (1 + ulp1)" unfolding f_def by (simp add: f64_upper)
      also have "\<dots> = tokens b - 1 + (tokens b - 1) * ulp1" by (simp add: algebra_simps)
      also have "(tokens b - 1) * ulp1 \<le> burst rl * ulp1" using b(2) u by (intro mult_right_mono) simp_all
      also have "burst rl * ulp1 \<le> 1" using ok by (simp add: limiter_ok_def)
      finally show ?thesis using b(2) by simp
    qed (use b(2) in \<open>simp add: f_def\<close>)
  qed
  show "limiter_ok now rl'" using ok f b(3) by (fastforce simp: limiter_ok_def rl')
  show "limiter_conf rl' = limiter_conf rl" by (simp add: limiter_conf_def rl')
  show "key' \<noteq> key \<Longrightarrow> buckets rl' key' = buckets rl key'" by (simp add: rl')
  have "credit rl' key now = f" using b(3) f(3) by (simp add: credit_def rl')
  moreover have "tokens b \<le> credit rl key now + ulp1 * burst rl"
    using b(2,4) mult_nonneg_nonneg [OF u(1) r(2)] unfolding c0 [symmetric] min_def by (simp split: if_splits)
  ultimately show "credit rl' key now + of_bool granted \<le> credit rl key now + slack rl"
    using f(2) by (simp add: slack_def)
qed

lemma cleanup_cases:
  assumes ok: "limiter_ok t rl" "t \<le> now"
  shows "limiter_ok now (limiter_cleanup now rl)" "limiter_conf (limiter_cleanup now rl) = limiter_conf rl"
    "credit (limiter_cleanup now rl) key now \<le> credit rl key now"
proof -
  show "limiter_ok now (limiter_cleanup now rl)"
    using ok by (fastforce simp: limiter_ok_def limiter_cleanup_def split: option.splits if_splits)
  show "limiter_conf (limiter_cleanup now rl) = limiter_conf rl" by (simp add: limiter_conf_def limiter_cleanup_def)
  have g: "gain (limiter_cleanup now rl) = gain rl" "burst (limiter_cleanup now rl) = burst rl"
    by (simp_all add: gain_def limiter_cleanup_def)
  show "credit (limiter_cleanup now rl) key now \<le> credit rl key now"
  proof (cases "buckets rl key")
    case (Some b)
    have bb: "0 \<le> tokens b" "last b \<le> now" and r: "0 \<le> rl_rate rl" "burst rl \<le> 600 * rl_rate rl"
      using ok Some by (fastforce simp: limiter_ok_def)+
    have "burst rl \<le> tokens b + gain rl * seconds_between (last b) now" if "time_Sub now (last b) > 10 * Minute"
    proof -
      have "600000000000 < now - last b" using that time_Sub_bounds [OF bb(2)] by (simp add: Minute_def)
      then have "600 \<le> seconds_between (last b) now" by (simp flip: of_int_diff)
      moreover have "rl_rate rl * 1 \<le> gain rl" unfolding gain_def using r by (intro mult_left_mono) (simp_all add: ulp1_def)
      ultimately have "rl_rate rl * 600 \<le> gain rl * seconds_between (last b) now" using r by (intro mult_mono) simp_all
      then show ?thesis using r(2) bb(1) by linarith
    qed
    then show ?thesis using Some unfolding credit_def g by (auto simp: limiter_cleanup_def)
  qed (simp add: credit_def g, simp add: limiter_cleanup_def)
qed

subsection \<open>Any sequence of requests\<close>

datatype limiter_event = LRequest http_request time | LTick time

fun event_time :: "limiter_event \<Rightarrow> time" where
  "event_time (LRequest r now) = now"
| "event_time (LTick now) = now"

text \<open>The result says whether the request was passed on.\<close>

fun limiter_exec :: "rate_limiter \<Rightarrow> limiter_event \<Rightarrow> rate_limiter \<times> bool" where
  "limiter_exec rl (LRequest r now) =
     (case path_middleware r now rl :: unit response option \<times> rate_limiter of (refusal, rl') \<Rightarrow> (rl', refusal = None))"
| "limiter_exec rl (LTick now) = (limiter_cleanup now rl, False)"

fun same_client :: "string \<Rightarrow> string \<Rightarrow> limiter_event \<Rightarrow> bool" where
  "same_client peer path (LRequest r now) = (peer_of r = peer \<and> rq_path r = path)"
| "same_client peer path (LTick now) = False"

lemma limiter_exec_credit:
  assumes ok: "limiter_ok t rl" "t \<le> event_time ev" and p: "\<not> isTrustedIP peer (trustedProxies rl)"
    and key: "key = peer @ ''|'' @ path" and ex: "limiter_exec rl ev = (rl', passed)"
  shows "limiter_ok (event_time ev) rl'" "limiter_conf rl' = limiter_conf rl"
    "credit rl' key (event_time ev) + of_bool (passed \<and> same_client peer path ev)
       \<le> credit rl key t + gain rl * seconds_between t (event_time ev) + slack rl"
proof -
  have s: "0 \<le> slack rl" using ok by (simp add: slack_def ulp1_def limiter_ok_def)
  note late = credit_later [OF ok, of key]
  have "limiter_ok (event_time ev) rl' \<and> limiter_conf rl' = limiter_conf rl \<and>
    credit rl' key (event_time ev) + of_bool (passed \<and> same_client peer path ev) \<le> credit rl key (event_time ev) + slack rl"
  proof (cases ev)
    case (LTick now)
    then show ?thesis using ex cleanup_cases(1,2) [OF ok(1), of now] cleanup_cases(3) [OF ok(1), of now key] ok(2) s by auto
  next
    case (LRequest r now)
    let ?k = "clientIP (trustedProxies rl) r @ ''|'' @ rq_path r"
    have al: "allow ?k now rl = (passed, rl')"
      using ex by (auto simp: LRequest path_middleware_def middlewareByKey_def split: prod.splits if_splits)
    have c: "limiter_ok now rl'" "limiter_conf rl' = limiter_conf rl" "credit rl' ?k now + of_bool passed \<le> credit rl ?k now + slack rl"
      "\<And>k. k \<noteq> ?k \<Longrightarrow> buckets rl' k = buckets rl k"
      using allow_cases [OF ok(1) _ al] ok(2) LRequest by simp_all
    show ?thesis
    proof (cases "key = ?k")
      case True
      have "(of_bool (passed \<and> same_client peer path ev) :: real) \<le> of_bool passed" by simp
      then have "credit rl' key now + of_bool (passed \<and> same_client peer path ev) \<le> credit rl key now + slack rl"
        using c(3) [folded True] by linarith
      with c show ?thesis by (simp only: LRequest event_time.simps simp_thms)
    next
      case False
      have "\<not> same_client peer path ev" using False clientIP_direct p by (auto simp: LRequest key)
      moreover have "credit rl' key now = credit rl key now"
        using c(2,4) False by (simp add: credit_def gain_def limiter_conf_def split: option.split)
      ultimately show ?thesis using c(1,2) s by (auto simp: LRequest)
    qed
  qed
  with late show "limiter_ok (event_time ev) rl'" "limiter_conf rl' = limiter_conf rl"
    "credit rl' key (event_time ev) + of_bool (passed \<and> same_client peer path ev)
       \<le> credit rl key t + gain rl * seconds_between t (event_time ev) + slack rl"
    by linarith+
qed

lemma limiter_run_credit:
  assumes "limiter_ok t rl" "sorted (t # map event_time es)" "list_all (\<lambda>ev. event_time ev \<le> t1) es" "t \<le> t1"
    and "\<not> isTrustedIP peer (trustedProxies rl)"
  shows "real (length (filter (\<lambda>(ev, passed). passed \<and> same_client peer path ev) (zip es (results limiter_exec rl es))))
    \<le> credit rl (peer @ ''|'' @ path) t + gain rl * seconds_between t t1 + slack rl * real (length es)"
  using assms
proof (induction es arbitrary: t rl)
  case Nil
  have "0 \<le> gain rl * seconds_between t t1" using gain_nonneg [OF Nil(1)] Nil(4) by simp
  moreover have "0 \<le> credit rl (peer @ ''|'' @ path) t"
    using Nil(1) gain_nonneg [OF Nil(1)] by (auto simp: credit_def limiter_ok_def split: option.split)
  ultimately show ?case by simp
next
  case (Cons ev es)
  let ?k = "peer @ ''|'' @ path" and ?t = "event_time ev"
  obtain rl' passed where ex: "limiter_exec rl ev = (rl', passed)" by (metis surj_pair)
  have t: "t \<le> ?t" using Cons.prems(2) by simp
  note step = limiter_exec_credit [where key = ?k and path = path, OF Cons.prems(1) t Cons.prems(5) refl ex]
  have conf: "gain rl' = gain rl" "slack rl' = slack rl" "trustedProxies rl' = trustedProxies rl"
    using step(2) by (simp_all add: limiter_conf_def gain_def slack_def)
  let ?n = "length (filter (\<lambda>(ev, passed). passed \<and> same_client peer path ev) (zip es (results limiter_exec rl' es)))"
  have "real ?n \<le> credit rl' ?k ?t + gain rl' * seconds_between ?t t1 + slack rl' * real (length es)"
    by (rule Cons.IH [OF step(1)]) (use Cons.prems conf in auto)
  moreover have "gain rl * seconds_between t t1 = gain rl * seconds_between t ?t + gain rl * seconds_between ?t t1"
    by (simp add: field_simps)
  moreover have "slack rl * real (length (ev # es)) = slack rl * real (length es) + slack rl" by (simp add: algebra_simps)
  moreover have "real (length (filter (\<lambda>(ev, passed). passed \<and> same_client peer path ev) (zip (ev # es) (results limiter_exec rl (ev # es)))))
      = of_bool (passed \<and> same_client peer path ev) + real ?n" by (simp add: ex)
  ultimately show ?case using step(3) unfolding conf by linarith
qed

lemma limiter_run_ok:
  assumes "limiter_ok t rl" "sorted (t # map event_time es)" "list_all (\<lambda>ev. event_time ev \<le> t1) es" "t \<le> t1"
  shows "limiter_ok t1 (run limiter_exec rl es) \<and> limiter_conf (run limiter_exec rl es) = limiter_conf rl"
  using assms
proof (induction es arbitrary: t rl)
  case Nil
  then show ?case by (fastforce simp: limiter_ok_def)
next
  case (Cons ev es)
  obtain rl' passed where ex: "limiter_exec rl ev = (rl', passed)" by (metis surj_pair)
  have "limiter_ok (event_time ev) rl' \<and> limiter_conf rl' = limiter_conf rl"
  proof (cases ev)
    case (LTick now)
    then show ?thesis using ex cleanup_cases(1,2) [OF Cons.prems(1), of now] Cons.prems(2) by auto
  next
    case (LRequest r now)
    then have "allow (clientIP (trustedProxies rl) r @ ''|'' @ rq_path r) now rl = (passed, rl')"
      using ex by (auto simp: path_middleware_def middlewareByKey_def split: prod.splits if_splits)
    then show ?thesis using allow_cases(1,2) [OF Cons.prems(1)] Cons.prems(2) LRequest by auto
  qed
  then show ?case using Cons.IH [of "event_time ev" rl'] Cons.prems by (simp add: ex)
qed

lemma rate_with_slack:
  assumes "0 \<le> pm" "0 \<le> T" "pm * T \<le> 2 ^ 50"
  shows "f64 (pm / 60) * (1 + ulp1) ^ 4 * T \<le> pm * T / 60 + 1 / 8"
proof -
  have "f64 (pm / 60) \<le> pm / 60 * (1 + ulp1)" using assms(1) by (intro f64_upper) simp
  then have "f64 (pm / 60) * ((1 + ulp1) ^ 4 * T) \<le> pm / 60 * (1 + ulp1) * ((1 + ulp1) ^ 4 * T)"
    using assms(2) by (intro mult_right_mono) (simp_all add: ulp1_def)
  also have "\<dots> = pm * T / 60 * (1 + ulp1) ^ 5" by (simp add: power_numeral_reduce)
  also have "\<dots> \<le> pm * T / 60 * (1 + 6 * ulp1)"
    using assms(1,2) by (intro mult_left_mono) (simp_all add: ulp1_def power_numeral_reduce)
  also have "\<dots> = pm * T / 60 + pm * T * (6 * ulp1 / 60)" by (simp add: algebra_simps)
  also have "pm * T * (6 * ulp1 / 60) \<le> 2 ^ 50 * (6 * ulp1 / 60)" using assms(3) by (intro mult_right_mono) (simp_all add: ulp1_def)
  also have "2 ^ 50 * (6 * ulp1 / 60) \<le> 1 / 8" by (simp add: ulp1_def)
  finally show ?thesis by (simp add: mult.assoc)
qed

lemma slack_small: "0 \<le> pm \<Longrightarrow> pm * n \<le> 2 ^ 50 \<Longrightarrow> 2 * ulp1 * pm * n \<le> 1 / 4"
proof -
  assume "pm * n \<le> 2 ^ 50"
  then have "2 * ulp1 * (pm * n) \<le> 2 * ulp1 * 2 ^ 50" by (intro mult_left_mono) (simp_all add: ulp1_def)
  then show ?thesis by (simp add: ulp1_def)
qed

text \<open>
  C12: A client cannot exceed its rate. Take a limiter built for \<open>perMinute\<close> requests a minute, any history
  \<open>es0\<close> of requests and evictions, and any window from \<open>t0\<close> to \<open>t1\<close> in which \<open>es\<close> happens, other clients'
  requests included. Of the requests a peer that is not a trusted proxy sends to one path, whatever their
  \<open>X-Forwarded-For\<close> headers say, at most \<open>perMinute\<close> and \<open>perMinute\<close> for every minute of the window are
  passed on, despite the rounding of the token counts and the eviction of idle buckets. Requests are taken to
  reach the limiter in the order of the instants they have read.
\<close>

theorem client_rate_bounded:
  assumes "0 < perMinute" "rl = run limiter_exec (newRateLimiter perMinute proxies) es0"
    and "sorted (map event_time es0 @ t0 # map event_time es)" "list_all (\<lambda>ev. event_time ev \<le> t1) es" "t0 \<le> t1"
    and "\<not> isTrustedIP peer proxies"
    and "real_of_int perMinute * (seconds_between t0 t1 + real (length es) + 1) \<le> 2 ^ 50"
  shows "real (length (filter (\<lambda>(ev, passed). passed \<and> same_client peer path ev) (zip es (results limiter_exec rl es))))
    \<le> real_of_int perMinute + real_of_int perMinute * seconds_between t0 t1 / 60 + 1 / 2"
proof -
  define T where "T = seconds_between t0 t1"
  let ?pm = "real_of_int perMinute" and ?n = "real (length es)"
  have T: "0 \<le> T" using assms(5) by (simp add: T_def)
  note cap = assms(7) [folded T_def]
  have pm: "1 \<le> ?pm" using assms(1) by simp
  have "?pm * 1 \<le> ?pm * (T + ?n + 1)" using pm T by (intro mult_left_mono) simp_all
  then have "?pm \<le> 2 ^ 50" using cap by linarith
  have "?pm * T \<le> ?pm * (T + ?n + 1)" "?pm * ?n \<le> ?pm * (T + ?n + 1)" using pm T by (intro mult_left_mono; simp)+
  then have bT: "?pm * T \<le> 2 ^ 50" and bn: "?pm * ?n \<le> 2 ^ 50" using cap by linarith+
  have "perMinute \<le> 2 ^ 50" using \<open>?pm \<le> 2 ^ 50\<close> by (metis of_int_le_iff of_int_numeral of_int_power)
  then have small: "perMinute < 2 ^ 53" by simp
  define t where "t = hd (map event_time es0 @ [t0])"
  have so: "sorted (t # map event_time es0)" "t \<le> t0" "list_all (\<lambda>ev. event_time ev \<le> t0) es0" "sorted (t0 # map event_time es)"
    using assms(3) by (auto simp: t_def sorted_append list_all_iff hd_append hd_map sorted_simps(2) neq_Nil_conv split: if_splits)
  have ok: "limiter_ok t0 rl" and conf: "limiter_conf rl = limiter_conf (newRateLimiter perMinute proxies)"
    using limiter_run_ok [OF newRateLimiter_ok [OF assms(1) small] so(1,3,2)] by (simp_all add: assms(2))
  have c: "burst rl = ?pm" "rl_rate rl = f64 (?pm / 60)" "trustedProxies rl = proxies"
    using conf newRateLimiter_conf [OF assms(1) small, of proxies] by (simp_all add: limiter_conf_def)
  have "credit rl (peer @ ''|'' @ path) t0 \<le> ?pm" by (simp add: credit_def c split: option.split)
  moreover have "gain rl * T \<le> ?pm * T / 60 + 1 / 8"
    unfolding gain_def c by (rule rate_with_slack) (use pm T bT in simp_all)
  moreover have "slack rl * ?n \<le> 1 / 4"
    unfolding slack_def c by (rule slack_small) (use pm bn in simp_all)
  moreover have "\<not> isTrustedIP peer (trustedProxies rl)" using assms(6) c by simp
  ultimately show ?thesis unfolding T_def [symmetric]
    using limiter_run_credit [OF ok so(4) assms(4,5), of peer path, folded T_def] by linarith
qed

definition example_proxies :: "ip_net list" where
  "example_proxies = [\<lparr>net_IP = [10, 0, 0, 0], net_Mask = [255, 0, 0, 0]\<rparr>]"

definition spoofed_request :: "string \<Rightarrow> http_request" where
  "spoofed_request xff = \<lparr>rq_method = ''POST'', rq_path = ''/api/secrets'', rq_rawQuery = [],
     rq_header = (\<lambda>k. if k = ''X-Forwarded-For'' then [xff] else []), rq_remoteAddr = ''198.51.100.7:5555''\<rparr>"

lemma example_peer: "peer_of (spoofed_request xff) = ''198.51.100.7''"
  by (simp add: peer_of_def spoofed_request_def splitHost_def before_last_def after_last_def hasPrefix_def)

lemma example_address: "ParseIP ''198.51.100.7'' = Some (mapped_prefix @ [198, 51, 100, 7])"
  by (simp add: ParseIP_def parseIPv4Fields_def octet_def is_digit_def decimal_def)

lemma example_untrusted: "\<not> isTrustedIP ''198.51.100.7'' example_proxies"
  by (simp add: isTrustedIP_def example_address example_proxies_def net_Contains_def networkNumberAndMask_def
      shortest_def To4_def mapped_prefix_def Let_def)

theorem client_rate_bounded_witness:
  "length (filter (\<lambda>(ev, passed). passed \<and> same_client ''198.51.100.7'' ''/api/secrets'' ev)
     (zip (map (\<lambda>x. LRequest (spoofed_request x) 0) [''1.1.1.1'', ''2.2.2.2'', ''3.3.3.3''])
       (results limiter_exec (newRateLimiter 2 example_proxies)
         (map (\<lambda>x. LRequest (spoofed_request x) 0) [''1.1.1.1'', ''2.2.2.2'', ''3.3.3.3''])))) \<le> 2"
  using client_rate_bounded [of 2 "newRateLimiter 2 example_proxies" example_proxies "[]" 0
      "map (\<lambda>x. LRequest (spoofed_request x) 0) [''1.1.1.1'', ''2.2.2.2'', ''3.3.3.3'']" 0 "''198.51.100.7''" "''/api/secrets''"]
    example_untrusted
  by simp

end
