(* ===== verification/Http_Router.thy ===== *)
theory Http_Router
  imports Http_Requests Rate_Limit
begin

text \<open>
  The router (src/internal/httpapi/router.go): the server it builds from its options, the middlewares in
  the order they wrap each endpoint, and the endpoints that need no store. Matching a path against the
  registered patterns is chi's: a call names the endpoint it was matched to, with the identifier and the
  body as the handler sees them. The recovery and tracing middlewares pass every answer through. The pipe
  endpoints, whose handlers wait on each other, have their own machine (Pipe_Transfer).
\<close>

subsection \<open>The server\<close>

record options =
  PayloadInlineMaxBytes :: int
  AdvertisedInlineMaxBytes :: int
  MaxFileBytes :: int
  AllowedOrigin :: string
  InternalToken :: string
  MetricsToken :: string
  OpenRatePerMinute :: int
  CreateRatePerMinute :: int
  TrustedProxies :: "ip_net list"
  RequestStore :: "request_store option"
  PipeRelayEnabled :: bool

record limiters =
  openLimiter :: rate_limiter
  createLimiter :: rate_limiter
  managementLimiter :: rate_limiter
  requestLimiter :: rate_limiter

record world =
  w_db :: api
  w_limiters :: limiters

definition trimRightSlash :: "string \<Rightarrow> string" where
  "trimRightSlash s = rev (dropWhile (\<lambda>c. c = CHR ''/'') (rev s))"

definition NewServer :: "store \<Rightarrow> options \<Rightarrow> server \<times> limiters" where
  "NewServer st opts =
     (let inline = (if PayloadInlineMaxBytes opts \<le> 0 then 1048576 else PayloadInlineMaxBytes opts);
          advertised = (if AdvertisedInlineMaxBytes opts \<le> 0 then inline else AdvertisedInlineMaxBytes opts);
          maxFile = (if MaxFileBytes opts \<le> 0 then 268435456 else MaxFileBytes opts);
          opn = newRateLimiter (OpenRatePerMinute opts) (TrustedProxies opts);
          create = newRateLimiter (CreateRatePerMinute opts) (TrustedProxies opts) in
      (\<lparr>sv_store = st, sv_requests = RequestStore opts, sv_payloadInlineMaxBytes = inline,
        sv_advertisedInlineMaxBytes = advertised, sv_maxFileBytes = maxFile,
        sv_allowedOrigin = trimRightSlash (AllowedOrigin opts), sv_internalToken = InternalToken opts,
        sv_metricsToken = MetricsToken opts, sv_pipeRelayEnabled = PipeRelayEnabled opts\<rparr>,
       \<lparr>openLimiter = opn, createLimiter = create, managementLimiter = opn, requestLimiter = opn\<rparr>))"

subsection \<open>Middlewares\<close>

definition cors_headers :: "server \<Rightarrow> http_request \<Rightarrow> (string \<times> string) list" where
  "cors_headers sv r =
     (let origin = trimRightSlash (header_get r ''Origin''); path = rq_path r in
      [(''X-Content-Type-Options'', ''nosniff'')] @
      (if path = ''/api/requests'' \<or> hasPrefix path ''/api/requests/'' \<or> hasPrefix path ''/api/pipe/'' \<or>
          hasPrefix path ''/api/v1/pipe/'' then [(''Cache-Control'', ''no-store'')] else []) @
      (if sv_allowedOrigin sv \<noteq> [] \<and> origin = sv_allowedOrigin sv then
         [(''Access-Control-Allow-Origin'', origin), (''Access-Control-Allow-Methods'', ''GET, POST, OPTIONS''),
          (''Access-Control-Allow-Headers'',
           ''Content-Type, Authorization, X-Flick-Pipe-Code, Flick-Kind, Flick-Encrypted-Filename''),
          (''Access-Control-Expose-Headers'',
           ''Flick-Kind, Flick-Content-Type, Flick-Encrypted-Filename, Flick-Wrapped-Identity, Flick-Expires-At, X-Flick-Pipe-Salt''),
          (''Vary'', ''Origin'')]
       else []))"

definition cors :: "server \<Rightarrow> http_request \<Rightarrow> ('w \<Rightarrow> 'a response \<times> 'w) \<Rightarrow> 'w \<Rightarrow> 'a response \<times> 'w" where
  "cors sv r next w =
     (if rq_method r = ''OPTIONS'' then (after_headers (cors_headers sv r) noContent, w)
      else map_prod (after_headers (cors_headers sv r)) id (next w))"

definition internalAuth :: "server \<Rightarrow> http_request \<Rightarrow> ('w \<Rightarrow> 'a response \<times> 'w) \<Rightarrow> 'w \<Rightarrow> 'a response \<times> 'w" where
  "internalAuth sv r next w =
     (if \<not> secureTokenEqual (header_get r ''X-Flick-Internal-Token'') (sv_internalToken sv)
      then (writeError 401 ''unauthorized'' ''internal token is missing or invalid'', w)
      else next w)"

definition metricsAuth :: "server \<Rightarrow> http_request \<Rightarrow> ('w \<Rightarrow> 'a response \<times> 'w) \<Rightarrow> 'w \<Rightarrow> 'a response \<times> 'w" where
  "metricsAuth sv r next w =
     (if \<not> checkBearer (sv_metricsToken sv) (header_get r ''Authorization'')
      then (writeError 401 ''unauthorized'' ''metrics token is missing or invalid'', w)
      else next w)"

definition managementNoStore :: "('w \<Rightarrow> 'a response \<times> 'w) \<Rightarrow> 'w \<Rightarrow> 'a response \<times> 'w" where
  "managementNoStore next w = map_prod (after_headers no_store) id (next w)"

text \<open>\<open>requestReady\<close> hands the store it found to the handler.\<close>

definition requestReady :: "server \<Rightarrow> http_request \<Rightarrow> (request_store \<Rightarrow> 'w \<Rightarrow> 'a response \<times> 'w) \<Rightarrow> 'w \<Rightarrow> 'a response \<times> 'w" where
  "requestReady sv r next w =
     (case sv_requests sv of
        None \<Rightarrow> (writeRequestError (ErrRequest ''request store unavailable''), w)
      | Some st \<Rightarrow> if rq_rawQuery r \<noteq> [] then (writeRequestError ErrInvalid, w) else next st w)"

text \<open>A limiter in front of a handler: \<open>sel\<close> and \<open>upd\<close> name it among the server's limiters.\<close>

definition limited ::
  "(limiters \<Rightarrow> rate_limiter) \<Rightarrow> ((rate_limiter \<Rightarrow> rate_limiter) \<Rightarrow> limiters \<Rightarrow> limiters) \<Rightarrow>
   (rate_limiter \<Rightarrow> 'a response option \<times> rate_limiter) \<Rightarrow> (world \<Rightarrow> 'a response \<times> world) \<Rightarrow> world \<Rightarrow> 'a response \<times> world" where
  "limited sel upd mid next w =
     (case mid (sel (w_limiters w)) of
        (refusal, rl) \<Rightarrow>
          let w' = w\<lparr>w_limiters := upd (\<lambda>_. rl) (w_limiters w)\<rparr> in
          (case refusal of Some r \<Rightarrow> (r, w') | None \<Rightarrow> next w'))"

definition on_db :: "(api \<Rightarrow> 'a response \<times> api) \<Rightarrow> world \<Rightarrow> 'a response \<times> world" where
  "on_db f w = (case f (w_db w) of (r, s) \<Rightarrow> (r, w\<lparr>w_db := s\<rparr>))"

subsection \<open>Endpoints\<close>

datatype api_json = SecretJson secret_json | RequestJson request_json

definition map_response :: "('a \<Rightarrow> 'b) \<Rightarrow> 'a response \<Rightarrow> 'b response" where
  "map_response f r = \<lparr>rs_status = rs_status r, rs_headers = rs_headers r, rs_body = map_reply f (rs_body r)\<rparr>"

definition healthz :: "secret_json response" where
  "healthz = writeJSON 200 (HealthJson ''ok'')"

text \<open>\<open>ping\<close> and \<open>nats\<close>: whether the database answers and, when a check is wired, whether the broker is connected.\<close>

definition readyz :: "bool \<Rightarrow> bool \<Rightarrow> bool option \<Rightarrow> secret_json response" where
  "readyz hasDb ping nats =
     (if \<not> hasDb then writeError 503 ''not_ready'' ''database is not configured''
      else if \<not> ping then writeError 503 ''not_ready'' ''database is not ready''
      else if nats = Some False then writeError 503 ''not_ready'' ''message broker is not ready''
      else writeJSON 200 (HealthJson ''ok''))"

datatype endpoint =
    Healthz
  | Readyz bool bool "bool option"
  | Metrics bytes
  | GetConfig
  | PostSecret "create_secret_request json_body"
  | PostFinalize string
  | GetMetadata string
  | GetManagement string
  | PostRevoke string "string json_body"
  | PostOpen string "string json_body"
  | PostRequest "(string \<times> int option) object_body"
  | GetInstructions string
  | PostSubmit string "submit_input object_body"
  | PostUpload string "upload_input object_body"
  | PostRequestFinalize string "attempt_input object_body"
  | PostAbandon string "attempt_input object_body"
  | PostAttempt string "(int \<times> string) object_body"
  | GetOwner string
  | PostRequestOpen string "unit object_body"
  | PostRequestRevoke string "unit object_body"
  | PostCleanup string "cleanup_secret_request json_body"
  | PostAck "ack_request json_body"

text \<open>What surrounds one call: the bucket, the environments of its transactions, the instant its limiter
  reads, the finalize calls in flight, and what others commit between its transactions and while its body
  streams.\<close>

record surroundings =
  su_s3 :: s3
  su_env :: "nat \<Rightarrow> env"
  su_now :: time
  su_finalizing :: "string \<rightharpoonup> finalize_call"
  su_between :: "api \<Rightarrow> api"
  su_streaming :: "api \<Rightarrow> api"

definition secret_json_of :: "secret_json response \<times> api \<Rightarrow> api_json response \<times> api" where
  "secret_json_of = map_prod (map_response SecretJson) id"

definition request_json_of :: "request_json response \<times> api \<Rightarrow> api_json response \<times> api" where
  "request_json_of = map_prod (map_response RequestJson) id"

definition request_group ::
  "server \<Rightarrow> http_request \<Rightarrow> time \<Rightarrow> (request_store \<Rightarrow> api \<Rightarrow> request_json response \<times> api) \<Rightarrow> world \<Rightarrow> api_json response \<times> world" where
  "request_group sv r now handler =
     requestReady sv r (\<lambda>st. limited requestLimiter requestLimiter_update (requestRateLimit r now)
       (on_db (\<lambda>s. request_json_of (handler st s))))"

fun dispatch :: "server \<Rightarrow> surroundings \<Rightarrow> http_request \<Rightarrow> endpoint \<Rightarrow> world \<Rightarrow> api_json response \<times> world" where
  "dispatch sv x r Healthz w = (map_response SecretJson healthz, w)"
| "dispatch sv x r (Readyz hasDb ping nats) w = (map_response SecretJson (readyz hasDb ping nats), w)"
| "dispatch sv x r (Metrics page) w =
     metricsAuth sv r (\<lambda>w. (\<lparr>rs_status = 200, rs_headers = [], rs_body = RawBody page\<rparr>, w)) w"
| "dispatch sv x r GetConfig w = (map_response SecretJson (getConfig sv), w)"
| "dispatch sv x r (PostSecret b) w =
     limited createLimiter createLimiter_update (path_middleware r (su_now x))
       (on_db (\<lambda>s. secret_json_of (createSecret sv (su_s3 x) (su_env x 0) b s))) w"
| "dispatch sv x r (PostFinalize i) w = on_db (\<lambda>s. secret_json_of (finalizeSecret sv (su_s3 x) (su_env x 0) i s)) w"
| "dispatch sv x r (GetMetadata i) w = on_db (\<lambda>s. secret_json_of (getSecretMetadata sv (su_env x 0) i s, s)) w"
| "dispatch sv x r (GetManagement i) w =
     managementNoStore (limited managementLimiter managementLimiter_update (managementMiddleware i r (su_now x))
       (on_db (\<lambda>s. secret_json_of (getManagementStatus sv (su_env x 0) i (managementBearer r) s, s)))) w"
| "dispatch sv x r (PostRevoke i b) w =
     managementNoStore (limited managementLimiter managementLimiter_update (managementMiddleware i r (su_now x))
       (on_db (\<lambda>s. secret_json_of (revokeSecret sv (su_env x 0) (su_env x 1) i (managementBearer r) b s)))) w"
| "dispatch sv x r (PostOpen i b) w =
     limited openLimiter openLimiter_update (path_middleware r (su_now x))
       (on_db (\<lambda>s. secret_json_of (openSecret sv (su_s3 x) (su_streaming x) (su_env x 0) (su_env x 1) i b s))) w"
| "dispatch sv x r (PostRequest b) w =
     requestReady sv r (\<lambda>st. limited createLimiter createLimiter_update (path_middleware r (su_now x))
       (on_db (\<lambda>s. request_json_of (createRequest st (su_env x 0) b s)))) w"
| "dispatch sv x r (GetInstructions i) w =
     request_group sv r (su_now x) (\<lambda>st. getRequestInstructions st (su_env x 0) i r) w"
| "dispatch sv x r (PostSubmit i b) w =
     request_group sv r (su_now x) (\<lambda>st. submitRequest sv st (su_env x 0) i r b) w"
| "dispatch sv x r (PostUpload i b) w =
     request_group sv r (su_now x) (\<lambda>st. reserveRequest st (su_s3 x) (su_env x 0) i r b) w"
| "dispatch sv x r (PostRequestFinalize i b) w =
     request_group sv r (su_now x) (\<lambda>st. finalizeRequest st (su_s3 x) (su_finalizing x) (su_between x)
       (su_env x 0) (su_env x 1) i r b) w"
| "dispatch sv x r (PostAbandon i b) w =
     request_group sv r (su_now x) (\<lambda>st. abandonRequest st (su_s3 x) (su_env x 0) i r b) w"
| "dispatch sv x r (PostAttempt i b) w =
     request_group sv r (su_now x) (\<lambda>st. getRequestAttempt st (su_env x 0) i r b) w"
| "dispatch sv x r (GetOwner i) w =
     request_group sv r (su_now x) (\<lambda>st. getRequestOwner st (su_env x 0) i r) w"
| "dispatch sv x r (PostRequestOpen i b) w =
     request_group sv r (su_now x) (\<lambda>st. openRequest st (su_s3 x) (su_between x) (su_streaming x)
       (su_env x 0) (su_env x 1) (su_env x 2) i r b) w"
| "dispatch sv x r (PostRequestRevoke i b) w =
     request_group sv r (su_now x) (\<lambda>st. revokeRequest st (su_env x 0) i r b) w"
| "dispatch sv x r (PostCleanup i b) w =
     internalAuth sv r (on_db (\<lambda>s. secret_json_of (cleanupSecret sv (su_env x 0) i b s))) w"
| "dispatch sv x r (PostAck b) w =
     internalAuth sv r (on_db (\<lambda>s. secret_json_of (acknowledgeObjectCleanup sv (su_env x 0) b s))) w"

definition serve :: "server \<Rightarrow> surroundings \<Rightarrow> http_request \<Rightarrow> endpoint \<Rightarrow> world \<Rightarrow> api_json response \<times> world" where
  "serve sv x r ep w = cors sv r (dispatch sv x r ep) w"

end
