(* ===== verification/Api_Frames.thy ===== *)
theory Api_Frames
  imports Http_Requests
begin

text \<open>
  The two halves of the API's database: what the operations on request links leave alone, and what the
  operations on secrets leave alone. Each half's invariant is then kept by the other half's operations.
\<close>

definition secret_side :: "api \<Rightarrow> secret_row list \<times> payload_row list \<times> mgmt_row list \<times> pending_row list \<times> int" where
  "secret_side s = (secrets s, secret_payloads s, secret_management s, object_pending s, ActiveUploads s)"

definition request_side :: "api \<Rightarrow> request_row list \<times> request_payload_row list" where
  "request_side s = (requests s, request_payloads s)"

lemma secret_side_ok:
  assumes "secret_side s' = secret_side s"
  shows "secrets_ok s' = secrets_ok s" "outcome_ok s' = outcome_ok s" "secret_of s' i = secret_of s i"
proof -
  have eq: "secrets s' = secrets s" "secret_payloads s' = secret_payloads s" "secret_management s' = secret_management s"
    "ActiveUploads s' = ActiveUploads s"
    using assms by (auto simp: secret_side_def)
  show "secrets_ok s' = secrets_ok s" by (simp add: secrets_ok_def secret_tables_ok_def eq)
  show "outcome_ok s' = outcome_ok s" by (simp add: outcome_ok_def eq)
  show "secret_of s' i = secret_of s i" by (simp add: eq)
qed

lemma request_side_ok: "request_side s' = request_side s \<Longrightarrow> requests_ok s' = requests_ok s"
  by (rule requests_ok_cong) (simp_all add: request_side_def)

lemma secret_side_upd [simp]:
  "secret_side (s\<lparr>requests := a\<rparr>) = secret_side s" "secret_side (s\<lparr>request_payloads := b\<rparr>) = secret_side s"
  "secret_side (s\<lparr>request_cursor := c\<rparr>) = secret_side s" "secret_side (s\<lparr>request_pending := d\<rparr>) = secret_side s"
  "secret_side (s\<lparr>outbox_events := o'\<rparr>) = secret_side s" "secret_side (s\<lparr>object_cursor := f\<rparr>) = secret_side s"
  by (simp_all add: secret_side_def)

lemma request_side_upd [simp]:
  "request_side (s\<lparr>secrets := a\<rparr>) = request_side s" "request_side (s\<lparr>secret_payloads := b\<rparr>) = request_side s"
  "request_side (s\<lparr>secret_management := c\<rparr>) = request_side s" "request_side (s\<lparr>object_pending := d\<rparr>) = request_side s"
  "request_side (s\<lparr>outbox_events := o'\<rparr>) = request_side s" "request_side (s\<lparr>object_cursor := f\<rparr>) = request_side s"
  "request_side (s\<lparr>ActiveUploads := g\<rparr>) = request_side s" "request_side (s\<lparr>request_pending := p\<rparr>) = request_side s"
  "request_side (s\<lparr>request_cursor := q\<rparr>) = request_side s"
  by (simp_all add: request_side_def)

subsection \<open>Operations on request links\<close>

lemma exec_update_side: "exec e l (update_requests p f s) = Some x \<Longrightarrow> secret_side x = secret_side s"
  by (auto simp: exec_def update_requests_def Let_def split: if_splits)

lemma exec_insert_side:
  "exec e l (insert_request r s) = Some x \<Longrightarrow> secret_side x = secret_side s"
  "exec e l (insert_request_payload q s) = Some x \<Longrightarrow> secret_side x = secret_side s"
  by (auto simp: exec_def insert_request_def insert_request_payload_def split: if_splits)

lemma enqueue_event_side [simp]:
  "secret_side (snd (enqueue_event subject now io ev s)) = secret_side s"
  "request_side (snd (enqueue_event subject now io ev s)) = request_side s"
  by (simp_all add: enqueue_event_def split: prod.split)

lemma enqueueObjectTx_side [simp]: "secret_side (snd (enqueueObjectTx outb subject e key reason now s)) = secret_side s"
  by (simp add: enqueueObjectTx_def case_prod_beta split: sum.split option.split)

lemma enqueue_keys_side [simp]: "secret_side (snd (enqueue_keys outb subject e reason now ks s)) = secret_side s"
proof (induction ks arbitrary: s)
  case (Cons k ks)
  then show ?case by (cases k) (auto simp: case_prod_beta split: sum.split)
qed simp

lemma enqueueRequestKeysTx_side [simp]: "secret_side (snd (enqueueRequestKeysTx outb subject e i reason now s)) = secret_side s"
  by (simp add: enqueueRequestKeysTx_def split: option.split)

lemma endReservationTx_side [simp]: "secret_side (snd (endReservationTx outb subject e i g now s)) = secret_side s"
  by (auto simp: endReservationTx_def case_prod_beta Let_def split: sum.split option.split dest!: exec_update_side)

lemma begin_n_side: "begin_n n st e k i token owner s = Some (r, s') \<Longrightarrow> secret_side s' = secret_side s"
proof (induction n arbitrary: k s)
  case (Suc n)
  from Suc.prems show ?case
    by (auto simp: case_prod_beta split: sum.splits if_splits option.splits dest!: Suc.IH)
qed simp

lemma beginTx_side:
  assumes "distinct (map r_id (requests s))"
  shows "secret_side (snd (beginTx st e k i token owner s)) = secret_side s"
proof -
  obtain r s' where "begin_n 2 st e k i token owner s = Some (r, s')" using begin_enough [OF assms] by (metis not_None_eq surj_pair)
  then show ?thesis using begin_n_side by (simp add: beginTx_def)
qed

lemma clearPayloadTx_side [simp]: "secret_side (snd (clearPayloadTx st e i ps state reason s)) = secret_side s"
  by (auto simp: clearPayloadTx_def case_prod_beta Let_def split: sum.split option.split dest!: exec_update_side)

lemmas side_rules = case_prod_beta Let_def beginTx_side

lemma CreateRequest_side: "secret_side (snd (CreateRequest st e k ttl s)) = secret_side s"
  by (auto simp: CreateRequest_def Let_def split: sum.split option.split dest!: exec_insert_side)

lemma read_request_side: "distinct (map r_id (requests s)) \<Longrightarrow> secret_side (snd (read_request st e i token owner s)) = secret_side s"
  by (simp add: read_request_def side_rules split: sum.split option.split)

lemma Instructions_side: "distinct (map r_id (requests s)) \<Longrightarrow> secret_side (snd (Instructions st e i token s)) = secret_side s"
  by (simp add: Instructions_def case_prod_beta read_request_side split: sum.split)

lemma Owner_side: "distinct (map r_id (requests s)) \<Longrightarrow> secret_side (snd (Owner st e i token s)) = secret_side s"
  by (simp add: Owner_def case_prod_beta read_request_side split: sum.split)

lemma Attempt_side: "distinct (map r_id (requests s)) \<Longrightarrow> secret_side (snd (Attempt st e i token g a s)) = secret_side s"
  by (simp add: Attempt_def side_rules split: sum.split option.split)

lemma consumeObject_side: "distinct (map r_id (requests s)) \<Longrightarrow> secret_side (snd (consumeObject st e i token key s)) = secret_side s"
  by (auto simp: consumeObject_def side_rules split: sum.split option.split dest!: exec_update_side)

lemma RevokeRequest_side: "distinct (map r_id (requests s)) \<Longrightarrow> secret_side (snd (RevokeRequest st e i token s)) = secret_side s"
  by (simp add: RevokeRequest_def side_rules split: sum.split option.split)

lemma FinishOpen_side: "secret_side (snd (FinishOpen st e i key s)) = secret_side s"
  by (auto simp: FinishOpen_def case_prod_beta Let_def split: sum.split option.split dest!: exec_update_side)

lemma Abandon_side: "distinct (map r_id (requests s)) \<Longrightarrow> secret_side (snd (Abandon st e i token inp s)) = secret_side s"
  by (simp add: Abandon_def side_rules split: sum.split option.split)

lemma reserveTx_side: "secret_side (snd (reserveTx st e i inp attempt envelope checksum row s)) = secret_side s"
  by (auto simp: reserveTx_def Let_def split: sum.split option.split dest!: exec_update_side)

lemma Reserve_side: "distinct (map r_id (requests s)) \<Longrightarrow> secret_side (snd (Reserve st svc e i token inp s)) = secret_side s"
  by (simp add: Reserve_def side_rules reserveTx_side split: sum.split option.split)

lemma finalizeAttempt_side: "distinct (map r_id (requests s)) \<Longrightarrow> secret_side (snd (finalizeAttempt st e i token inp a attempt s)) = secret_side s"
  by (auto simp: finalizeAttempt_def side_rules split: sum.split option.split dest!: exec_update_side)

lemma Submit_side:
  assumes "distinct (map r_id (requests s))"
  shows "secret_side (snd (Submit st e i token inp s)) = secret_side s"
  using beginTx_side [OF assms]
  by (auto simp: Submit_def case_prod_beta Let_def split: sum.split option.split dest!: exec_update_side exec_insert_side)

lemma beginTx_distinct:
  assumes "distinct (map r_id (requests s))"
  shows "distinct (map r_id (requests (snd (beginTx st e k i token owner s))))"
  using beginTx_evolves [of st e k i token owner s, OF surjective_pairing assms] assms by (simp add: evolves_ids)

lemma OpenRequest_side:
  assumes "distinct (map r_id (requests s))"
  shows "secret_side (snd (OpenRequest st svc id e e2 i token s)) = secret_side s"
  using beginTx_side [OF assms] beginTx_distinct [OF assms]
  by (simp add: OpenRequest_def case_prod_beta Let_def consumeObject_side split: sum.split option.split prod.split)

lemma await_call_side:
  assumes "distinct (map r_id (requests s))"
  shows "secret_side (snd (await_call st i call s)) = secret_side s"
  using finalizeAttempt_side [OF assms] by (simp add: await_call_def split: option.split)

lemma FinalizeRequest_side:
  assumes "distinct (map r_id (requests s))"
  shows "secret_side (snd (fst (FinalizeRequest st svc finalizing id e e2 i token inp s))) = secret_side s"
  using beginTx_side [OF assms] beginTx_distinct [OF assms]
  by (simp add: FinalizeRequest_def case_prod_beta Let_def finalizeAttempt_side await_call_side split: sum.split option.split)

lemma end_reservations_side [simp]: "secret_side (snd (end_reservations outb subject e now cs s)) = secret_side s"
proof (induction cs arbitrary: s)
  case (Cons c cs)
  then show ?case by (cases c) (auto simp: case_prod_beta split: sum.split)
qed simp

lemma delete_requests_side [simp]: "secret_side (delete_requests p s) = secret_side s"
  by (simp add: delete_requests_def)

lemma delete_expired_side [simp]: "secret_side (snd (delete_expired outb subject e now is s)) = secret_side s"
  by (induction "is" arbitrary: s) (auto simp: case_prod_beta split: sum.split)

lemma PurgeExpiredTx_side [simp]: "secret_side (snd (PurgeExpiredTx outb subject e now limit s)) = secret_side s"
  by (simp add: PurgeExpiredTx_def case_prod_beta split: sum.split)

lemma purgeRequests_side: "secret_side (purgeRequests outb subject e now limit s) = secret_side s"
  by (simp add: purgeRequests_def case_prod_beta split: sum.split)

lemma ReconcileRequests_side: "secret_side (snd (ReconcileRequests st svc id e limit s)) = secret_side s"
  by (simp add: ReconcileRequests_def Let_def case_prod_beta split: sum.split option.split)

lemma request_exec_side:
  assumes "requests_ok s"
  shows "secret_side (fst (request_exec st s ev)) = secret_side s"
proof -
  have d: "distinct (map r_id (requests s))" by (rule requests_ok_distinct [OF assms])
  show ?thesis
  proof (cases ev)
    case (ROpen svc e e2 i tok)
    have "fst (request_exec st s ev) = snd (OpenRequest st svc id e e2 i tok s)"
      by (simp add: ROpen split: prod.split sum.split)
    then show ?thesis using OpenRequest_side [OF d] by simp
  next
    case (RConsume e i tok key)
    have "fst (request_exec st s ev) = snd (consumeObject st e i tok key s)"
      by (simp add: RConsume split: prod.split sum.split)
    then show ?thesis using consumeObject_side [OF d] by simp
  qed (simp_all add: other_def d CreateRequest_side Instructions_side Owner_side Submit_side Attempt_side Reserve_side FinalizeRequest_side
      finalizeAttempt_side Abandon_side FinishOpen_side RevokeRequest_side purgeRequests_side ReconcileRequests_side AcknowledgeRequestCleanup_def)
qed

subsection \<open>Operations on secrets\<close>

lemma update_secrets_request [simp]: "request_side (update_secrets p f s) = request_side s"
  by (simp add: update_secrets_def)

lemma delete_secrets_request [simp]: "request_side (delete_secrets p s) = request_side s"
  by (simp add: delete_secrets_def)

lemma exec_insert_request:
  "exec e l (insert_secret r s) = Some x \<Longrightarrow> request_side x = request_side s"
  "exec e l (insert_payload q s) = Some x \<Longrightarrow> request_side x = request_side s"
  "exec e l (insert_management m s) = Some x \<Longrightarrow> request_side x = request_side s"
  by (auto simp: exec_def insert_secret_def insert_payload_def insert_management_def split: if_splits)

lemma createManagementTx_request [simp]: "request_side (snd (createManagementTx e i t s)) = request_side s"
  by (auto simp: createManagementTx_def Let_def split: option.split dest!: exec_insert_request)

lemma recordManagementOutcomeTx_request [simp]: "request_side (snd (recordManagementOutcomeTx e i oc s)) = request_side s"
  by (simp add: recordManagementOutcomeTx_def)

lemma Create_request: "request_side (snd (Create st e input s)) = request_side s"
  by (auto simp: Create_def Let_def case_prod_beta split: option.split sum.split dest!: exec_insert_request)

lemma CreateLarge_request: "request_side (snd (CreateLarge st svc e input s)) = request_side s"
  by (auto simp: CreateLarge_def Let_def case_prod_beta split: option.split sum.split dest!: exec_insert_request)

lemma Finalize_request: "request_side (snd (Finalize st svc e i s)) = request_side s"
  by (auto simp: Finalize_def activateSecretTx_def Let_def case_prod_beta split: option.split sum.split)

lemma Cleanup_request: "request_side (snd (Cleanup e i s)) = request_side s"
  by (simp add: Cleanup_def Let_def)

lemma recordFailedAccessTx_request [simp]: "request_side (snd (recordFailedAccessTx st e i b k now s)) = request_side s"
  by (auto simp: recordFailedAccessTx_def Let_def case_prod_beta split: option.split sum.split)

lemma OpenTx_request [simp]: "request_side (snd (OpenTx st svc e i h s)) = request_side s"
  by (auto simp: OpenTx_def Let_def case_prod_beta split: option.split sum.split)

lemma openAndEnqueueCleanup_request: "request_side (snd (openAndEnqueueCleanup st svc e i h s)) = request_side s"
  by (simp add: openAndEnqueueCleanup_def case_prod_beta split: option.split sum.split)

lemma enqueueOpenedObjectCleanup_request: "request_side (enqueueOpenedObjectCleanup st e key s) = request_side s"
  by (simp add: enqueueOpenedObjectCleanup_def case_prod_beta split: option.split sum.split)

lemma cancelTx_request: "cancelTx st e i r s = Inr x \<Longrightarrow> request_side x = request_side s"
  by (auto simp: cancelTx_def Let_def case_prod_beta split: if_splits option.splits sum.splits)

lemma Revoke_request: "request_side (snd (Revoke st e i token s)) = request_side s"
  by (auto simp: Revoke_def Let_def split: sum.split option.split dest!: cancelTx_request)

lemma ReconcileOnce_request: "request_side (snd (ReconcileOnce r svc id e s)) = request_side s"
  by (simp add: ReconcileOnce_def Let_def case_prod_beta split: sum.split option.split)

end
