(* ===== verification/Api_System.thy ===== *)
theory Api_System
  imports Api_Frames
begin

text \<open>
  The API as one system: its secret and request endpoints and its background passes as events on the
  shared database, each event one transaction of one of them. Every state the system reaches from a
  freshly migrated database is well formed, and however the events interleave a secret is handed out at
  most once and answers at most five opens before it is gone.
\<close>

datatype api_event =
    ACreate s3 env "create_secret_request json_body"
  | AFinalize s3 env string
  | AOpen s3 env string "string json_body"
  | AOpened env string
  | ACleanup env string "cleanup_secret_request json_body"
  | ARevoke env env string string "string json_body"
  | AAcknowledge env "ack_request json_body"
  | AClaim env
  | AScan s3 env
  | ARequest request_event

datatype api_result = ASecret "secret_json response" | ADone | ARequested request_result

text \<open>\<open>AOpen\<close> is an open up to its answer, \<open>AOpened\<close> the transaction that follows a streamed body,
  \<open>AClaim\<close> and \<open>AScan\<close> the passes of the reaper. Reading endpoints change nothing and are left out.\<close>

fun api_exec :: "server \<Rightarrow> reaper \<Rightarrow> request_store \<Rightarrow> api \<Rightarrow> api_event \<Rightarrow> api \<times> api_result" where
  "api_exec sv rp rst s (ACreate svc e b) = (case createSecret sv svc e b s of (r, s') \<Rightarrow> (s', ASecret r))"
| "api_exec sv rp rst s (AFinalize svc e i) = (case finalizeSecret sv svc e i s of (r, s') \<Rightarrow> (s', ASecret r))"
| "api_exec sv rp rst s (AOpen svc e i b) = (case open_answer sv svc e i b s of ((r, _), s') \<Rightarrow> (s', ASecret r))"
| "api_exec sv rp rst s (AOpened e key) = (enqueueOpenedObjectCleanup (sv_store sv) e key s, ADone)"
| "api_exec sv rp rst s (ACleanup e i b) = (case cleanupSecret sv e i b s of (r, s') \<Rightarrow> (s', ASecret r))"
| "api_exec sv rp rst s (ARevoke e1 e2 i tok b) = (case revokeSecret sv e1 e2 i tok b s of (r, s') \<Rightarrow> (s', ASecret r))"
| "api_exec sv rp rst s (AAcknowledge e b) = (case acknowledgeObjectCleanup sv e b s of (r, s') \<Rightarrow> (s', ASecret r))"
| "api_exec sv rp rst s (AClaim e) = (snd (claimExpired rp e s), ADone)"
| "api_exec sv rp rst s (AScan svc e) = (snd (ReconcileOnce rp svc id e s), ADone)"
| "api_exec sv rp rst s (ARequest ev) = (case request_exec rst s ev of (s', r) \<Rightarrow> (s', ARequested r))"

definition api_ok :: "api \<Rightarrow> bool" where
  "api_ok s \<longleftrightarrow> secrets_ok s \<and> outcome_ok s \<and> requests_ok s"

subsection \<open>The database after a handler\<close>

lemma createSecret_db:
  "snd (createSecret sv svc e b s) \<in> {s} \<union> range (\<lambda>input. snd (Create (sv_store sv) e input s)) \<union>
     range (\<lambda>input. snd (CreateLarge (sv_store sv) svc e input s))"
  by (auto simp: createSecret_def createLargeSecret_def case_prod_beta split: sum.split option.split)

lemma finalizeSecret_db [simp]: "snd (finalizeSecret sv svc e i s) = snd (Finalize (sv_store sv) svc e i s)"
  by (simp add: finalizeSecret_def case_prod_beta split: sum.split)

lemma open_answer_db:
  "snd (open_answer sv svc e i b s) \<in> {s} \<union> range (\<lambda>hash. snd (openAndEnqueueCleanup (sv_store sv) svc e i hash s))"
  by (auto simp: open_answer_def case_prod_beta split: sum.split option.split)

lemma cleanupSecret_db: "snd (cleanupSecret sv e i b s) \<in> {s, snd (Cleanup e i s)}"
  by (auto simp: cleanupSecret_def case_prod_beta split: sum.split)

lemma revokeSecret_db: "snd (revokeSecret sv e1 e2 i tok b s) \<in> {s, snd (Revoke (sv_store sv) e2 i tok s)}"
  by (auto simp: revokeSecret_def case_prod_beta split: sum.split option.split)

text \<open>The tables of secrets and requests, without the queues and cursors beside them.\<close>

definition core :: "api \<Rightarrow> secret_row list \<times> payload_row list \<times> mgmt_row list \<times> int \<times> request_row list \<times> request_payload_row list" where
  "core s = (secrets s, secret_payloads s, secret_management s, ActiveUploads s, requests s, request_payloads s)"

lemma core_ok: "core s' = core s \<Longrightarrow> api_ok s' = api_ok s"
  using requests_ok_cong [of s' s]
  by (simp add: core_def api_ok_def secrets_ok_def secret_tables_ok_def outcome_ok_def)

lemma acknowledge_core [simp]: "core (snd (acknowledgeObjectCleanup sv e b s)) = core s"
  by (simp add: acknowledgeObjectCleanup_def AcknowledgeObjectCleanup_def AcknowledgeRequestCleanup_def core_def
      split: option.split)

lemma enqueue_event_core [simp]: "core (snd (enqueue_event subject now io ev s)) = core s"
  by (simp add: core_def enqueue_event_def split: prod.split)

lemma opened_core [simp]: "core (enqueueOpenedObjectCleanup st e key s) = core s"
  by (simp add: enqueueOpenedObjectCleanup_def case_prod_beta split: option.split sum.split)

lemma ReconcileOnce_core [simp]: "core (snd (ReconcileOnce rp svc id e s)) = core s"
  by (simp add: ReconcileOnce_def Let_def case_prod_beta core_def split: sum.split option.split)

subsection \<open>Invariant\<close>

lemma outcome_ok_swept: "outcome_ok s \<Longrightarrow> outcome_ok (swept ids rs s)"
  by (auto simp: outcome_ok_def swept_def sql_update_def sql_delete_def)

lemma outcome_ok_subtables:
  assumes "outcome_ok s" "set (secrets s') \<subseteq> set (secrets s)" "set (secret_management s') \<subseteq> set (secret_management s)"
  shows "outcome_ok s'"
  using assms unfolding outcome_ok_def by blast

lemma outcome_ok_claimExpired:
  assumes "api_ok s"
  shows "outcome_ok (snd (claimExpired rp e s))"
proof (cases "claimExpired rp e s")
  case (Pair res s')
  have ok: "secrets_ok s" "outcome_ok s" "requests_ok s" using assms by (simp_all add: api_ok_def)
  show ?thesis
  proof (cases res)
    case (Inl err)
    then show ?thesis using claimExpired_Inl [of rp e s err s'] Pair ok by simp
  next
    case (Inr n)
    let ?ids = "candidates (rp_store rp) (clock e 0) (rp_batchSize rp) s"
    obtain rs s3 s4 where st: "purgeManagementTx (engine (rp_store rp)) e (clock e 0) (rp_batchSize rp) (swept (set ?ids) rs s) = (Inr (), s3)"
      "PurgeExpiredTx True (outboxSubject (rp_store rp)) e (clock e 0) (rp_batchSize rp) s3 = (Inr (), s4)"
      "s' = s4\<lparr>ActiveUploads := ActiveUploads s4 - int (sql_count (\<lambda>x. s_id x \<in> set ?ids \<and> pending_row_state x) (secrets s))\<rparr>"
      by (rule claimExpired_Inr [OF Pair [unfolded Inr] ok(1,3)])
    have s3: "outcome_ok s3"
      by (rule purgeManagementTx_Inr [OF st(1)], rule outcome_ok_subtables [OF outcome_ok_swept [OF ok(2)]])
        (auto simp: sql_delete_def)
    have "secrets s4 = secrets s3" "secret_management s4 = secret_management s3"
      using PurgeExpiredTx_frame [OF st(2) requests_ok_claim_parts [OF ok(3) st(1)]] by simp_all
    then have "outcome_ok s4" using s3 by (simp add: outcome_ok_def)
    then show ?thesis by (simp add: Pair st(3) outcome_ok_def)
  qed
qed

lemma api_ok_request_side: "request_side s' = request_side s \<Longrightarrow> secrets_ok s' \<Longrightarrow> outcome_ok s' \<Longrightarrow> api_ok s \<Longrightarrow> api_ok s'"
  using request_side_ok [of s' s] by (simp add: api_ok_def)

lemma api_ok_parts: "api_ok s \<Longrightarrow> secrets_ok s" "api_ok s \<Longrightarrow> outcome_ok s" "api_ok s \<Longrightarrow> requests_ok s"
  by (simp_all add: api_ok_def)

lemma api_ok_exec:
  assumes ok: "api_ok s"
  shows "api_ok (fst (api_exec sv rp rst s ev))"
proof (cases ev)
  case (ACreate svc e b)
  note parts = api_ok_parts [OF ok]
  have "api_ok (snd (Create (sv_store sv) e input s))" for input
    by (rule api_ok_request_side [OF Create_request secrets_ok_Create outcome_ok_Create ok]) (rule parts)+
  moreover have "api_ok (snd (CreateLarge (sv_store sv) svc e input s))" for input
    by (rule api_ok_request_side [OF CreateLarge_request secrets_ok_CreateLarge outcome_ok_CreateLarge ok]) (rule parts)+
  ultimately have "api_ok (snd (createSecret sv svc e b s))"
    using createSecret_db [of sv svc e b s] ok by auto
  then show ?thesis by (simp add: ACreate case_prod_beta)
next
  case (AFinalize svc e i)
  then show ?thesis
    using api_ok_request_side [OF Finalize_request secrets_ok_Finalize outcome_ok_Finalize ok] api_ok_parts [OF ok]
    by (simp add: case_prod_beta)
next
  case (AOpen svc e i b)
  have "api_ok (snd (openAndEnqueueCleanup (sv_store sv) svc e i hash s))" for hash
    using api_ok_parts [OF ok] ok
    by (intro api_ok_request_side [OF openAndEnqueueCleanup_request secrets_ok_openAndEnqueueCleanup
        outcome_ok_openAndEnqueueCleanup])
  then have "api_ok (snd (open_answer sv svc e i b s))" using open_answer_db [of sv svc e i b s] ok by auto
  then show ?thesis by (simp add: AOpen case_prod_beta)
next
  case (ACleanup e i b)
  have "api_ok (snd (Cleanup e i s))"
    by (rule api_ok_request_side [OF Cleanup_request secrets_ok_Cleanup outcome_ok_Cleanup ok]) (simp_all add: api_ok_parts ok)
  then have "api_ok (snd (cleanupSecret sv e i b s))" using cleanupSecret_db [of sv e i b s] ok by auto
  then show ?thesis by (simp add: ACleanup case_prod_beta)
next
  case (ARevoke e1 e2 i tok b)
  have "api_ok (snd (Revoke (sv_store sv) e2 i tok s))"
    by (rule api_ok_request_side [OF Revoke_request secrets_ok_Revoke outcome_ok_Revoke ok]) (simp_all add: api_ok_parts ok)
  then have "api_ok (snd (revokeSecret sv e1 e2 i tok b s))" using revokeSecret_db [of sv e1 e2 i tok b s] ok by auto
  then show ?thesis by (simp add: ARevoke case_prod_beta)
next
  case (AClaim e)
  then show ?thesis using claimExpired_ok [of s rp e] outcome_ok_claimExpired [OF ok, of rp e] ok by (simp add: api_ok_def)
next
  case (ARequest rev)
  then show ?thesis
    using requests_ok_request_exec [of s rst rev] secret_side_ok [OF request_exec_side [OF api_ok_parts(3) [OF ok]]] ok
    by (simp add: case_prod_beta api_ok_def)
qed (rule core_ok [THEN iffD2, OF _ ok], simp add: case_prod_beta)+

interpretation api_machine: machine "api_exec sv rp rst" api_ok for sv rp rst
  by unfold_locales (rule api_ok_exec)

lemma api_ok_MigrateAPI: "api_ok MigrateAPI"
  by (simp add: api_ok_def secrets_ok_MigrateAPI outcome_ok_MigrateAPI requests_ok_MigrateAPI)

subsection \<open>How often a secret answers\<close>

definition row_left :: "secret_row \<Rightarrow> nat" where
  "row_left r = (if s_consumed_at r = None then nat (maxFailedAccessAttempts - s_failed_access_count r) else 0)"

definition answers_left :: "string \<Rightarrow> api \<Rightarrow> nat" where
  "answers_left i s = (case secret_of s i of None \<Rightarrow> 0 | Some r \<Rightarrow> row_left r)"

fun draws_id :: "string \<Rightarrow> api_event \<Rightarrow> bool" where
  "draws_id i (ACreate svc e b) = (generateID e = Some i)"
| "draws_id i _ = False"

fun answered :: "int \<Rightarrow> string \<Rightarrow> api_event \<Rightarrow> api_result \<Rightarrow> bool" where
  "answered status i (AOpen svc e j b) (ASecret r) = (j = i \<and> rs_status r = status)"
| "answered status i _ _ = False"

lemma answers_left_cong: "secrets s' = secrets s \<Longrightarrow> answers_left i s' = answers_left i s"
  by (simp add: answers_left_def)

lemma row_left_rows [simp]:
  "row_left (opened_row now r) = 0" "row_left (active_row now r) = row_left r" "row_left (r\<lparr>s_updated_at := now\<rparr>) = row_left r"
  by (simp_all add: row_left_def opened_row_def active_row_def)

lemma row_left_refused:
  assumes "s_consumed_at r = None" "s_failed_access_count r < maxFailedAccessAttempts"
  shows "row_left (refused_row now r) < row_left r"
  using assms by (simp add: row_left_def refused_row_def)

lemma answers_left_update:
  assumes "\<And>r. s_id (f r) = s_id r" "\<And>r. row_left (f r) \<le> row_left r"
  shows "answers_left i (update_secrets p f s) \<le> answers_left i s"
  using assms(2) by (simp add: answers_left_def sql_row_update [where key = s_id, OF assms(1)] split: option.split)

lemma answers_left_sub:
  assumes "distinct (map s_id (secrets s))" "set (secrets s') \<subseteq> set (secrets s)" "distinct (map s_id (secrets s'))"
  shows "answers_left i s' \<le> answers_left i s"
proof (cases "secret_of s' i")
  case (Some r)
  then have "secret_of s i = Some r" using assms by (auto simp: sql_row_iff)
  with Some show ?thesis by (simp add: answers_left_def)
qed (simp add: answers_left_def)

lemma answers_left_live_other:
  "j \<noteq> i \<Longrightarrow> (\<And>r. s_id (f r) = s_id r) \<Longrightarrow> answers_left i (update_secrets (live_row j) f s) = answers_left i s"
  unfolding answers_left_def by (subst secret_of_live_update_other) simp_all

lemma new_row_ids [simp]: "s_id (inline_row i input now x) = i" "s_id (large_row i linput now x) = i"
  by (simp_all add: inline_row_def large_row_def case_prod_beta)

lemma answers_left_Create: "generateID e \<noteq> Some i \<Longrightarrow> answers_left i (snd (Create st e input s)) = answers_left i s"
proof (cases "Create st e input s")
  case (Pair res s')
  assume i: "generateID e \<noteq> Some i"
  show ?thesis
  proof (cases res)
    case (Inl err)
    then show ?thesis using Pair Create_Inl [of st e input s err s'] by simp
  next
    case (Inr sec)
    from Pair [unfolded Inr] have "answers_left i s' = answers_left i s"
      by (rule Create_Inr) (use i in \<open>auto simp: answers_left_def sql_row_append split: option.split\<close>)
    then show ?thesis by (simp add: Pair)
  qed
qed

lemma answers_left_CreateLarge: "generateID e \<noteq> Some i \<Longrightarrow> answers_left i (snd (CreateLarge st svc e input s)) = answers_left i s"
proof (cases "CreateLarge st svc e input s")
  case (Pair res s')
  assume i: "generateID e \<noteq> Some i"
  show ?thesis
  proof (cases res)
    case (Inl err)
    then show ?thesis using Pair CreateLarge_Inl [of st svc e input s err s'] by simp
  next
    case (Inr sec)
    from Pair [unfolded Inr] have "answers_left i s' = answers_left i s"
      by (rule CreateLarge_Inr) (use i in \<open>auto simp: answers_left_def sql_row_append split: option.split\<close>)
    then show ?thesis by (simp add: Pair)
  qed
qed

lemma answers_left_Finalize: "answers_left i (snd (Finalize st svc e j s)) \<le> answers_left i s"
proof (cases "Finalize st svc e j s")
  case (Pair res s')
  show ?thesis
  proof (cases res)
    case (Inl err)
    then show ?thesis using Pair Finalize_Inl [of st svc e j s err s'] by simp
  next
    case (Inr u)
    from Pair [unfolded Inr] have "answers_left i s' \<le> answers_left i s"
    proof (cases rule: Finalize_Inr)
      case (activated r)
      have "answers_left i s' = answers_left i (update_secrets (\<lambda>r. s_id r = j \<and> s_state r = statePendingUpload) (active_row (clock e 1)) s)"
        by (rule answers_left_cong) (simp add: activated)
      also have "\<dots> \<le> answers_left i s" by (rule answers_left_update) simp_all
      finally show ?thesis .
    qed simp
    then show ?thesis by (simp add: Pair)
  qed
qed

lemma answers_left_Cleanup: "answers_left i (snd (Cleanup e j s)) \<le> answers_left i s"
proof -
  have "secrets (snd (Cleanup e j s)) = secrets s \<or>
      secrets (snd (Cleanup e j s)) = secrets (update_secrets (\<lambda>r. s_id r = j) (\<lambda>r. r\<lparr>s_updated_at := clock e 0\<rparr>) s)"
    by (simp add: Cleanup_def Let_def)
  then show ?thesis
  proof
    assume "secrets (snd (Cleanup e j s)) = secrets s"
    then show ?thesis by (simp add: answers_left_def)
  next
    assume "secrets (snd (Cleanup e j s)) = secrets (update_secrets (\<lambda>r. s_id r = j) (\<lambda>r. r\<lparr>s_updated_at := clock e 0\<rparr>) s)"
    from answers_left_cong [OF this] show ?thesis by (simp only:) (rule answers_left_update, simp_all)
  qed
qed

lemma answers_left_Revoke:
  assumes "secrets_ok s"
  shows "answers_left i (snd (Revoke st e j tok s)) \<le> answers_left i s"
proof (cases "Revoke st e j tok s")
  case (Pair res s')
  obtain err status where res: "res = (err, status)" by (cases res)
  from Pair [unfolded res] have "answers_left i s' \<le> answers_left i s"
  proof (cases rule: Revoke_cases)
    case (cancelled r status0 status1 s1)
    have "secrets s' = sql_delete (revocable j) (secrets s)"
      by (rule cancelTx_Inr [OF cancelled(8)]) (simp add: cancelled(9) delete_secrets_def)
    then show ?thesis
      using secrets_ok_distinct [OF assms] by (intro answers_left_sub) (auto simp: sql_delete_def distinct_map_filter)
  qed simp
  then show ?thesis by (simp add: Pair)
qed

lemma claimExpired_rows:
  assumes "api_ok s"
  shows "set (secrets (snd (claimExpired rp e s))) \<subseteq> set (secrets s)"
proof (cases "claimExpired rp e s")
  case (Pair res s')
  have ok: "secrets_ok s" "requests_ok s" using assms by (simp_all add: api_ok_def)
  show ?thesis
  proof (cases res)
    case (Inl err)
    then show ?thesis using claimExpired_Inl [of rp e s err s'] Pair by simp
  next
    case (Inr n)
    let ?ids = "candidates (rp_store rp) (clock e 0) (rp_batchSize rp) s"
    obtain rs s3 s4 where st: "purgeManagementTx (engine (rp_store rp)) e (clock e 0) (rp_batchSize rp) (swept (set ?ids) rs s) = (Inr (), s3)"
      "PurgeExpiredTx True (outboxSubject (rp_store rp)) e (clock e 0) (rp_batchSize rp) s3 = (Inr (), s4)"
      "s' = s4\<lparr>ActiveUploads := ActiveUploads s4 - int (sql_count (\<lambda>x. s_id x \<in> set ?ids \<and> pending_row_state x) (secrets s))\<rparr>"
      by (rule claimExpired_Inr [OF Pair [unfolded Inr] ok])
    have "secrets s4 = secrets s3"
      using PurgeExpiredTx_frame [OF st(2) requests_ok_claim_parts [OF ok(2) st(1)]] by simp
    moreover have "set (secrets s3) \<subseteq> set (secrets s)"
      by (rule purgeManagementTx_Inr [OF st(1)]) (auto simp: sql_delete_def swept_def)
    ultimately show ?thesis by (simp add: Pair st(3))
  qed
qed

lemma recordFailed_rows:
  assumes "OpenTx st svc e i h s = (Inl ErrInvalidAccess, s')" "secrets_ok s"
  obtains r where "secret_of s i = Some r" "s_consumed_at r = None" "secrets s' = secrets (refused i (clock e 0) s)"
proof -
  note d = secrets_ok_distinct [OF assms(2)]
  obtain r u where r: "secret_of s i = Some r" "s_consumed_at r = None"
    "recordFailedAccessTx st e i (s_storage_backend r) (s_storage_key r) (clock e 0) s = (Inr u, s')"
    by (rule OpenTx_refused [OF assms(1) d])
  have "secrets s' = secrets (refused i (clock e 0) s)"
    by (rule recordFailedAccessTx_Inr [OF r(3,1,2)]) (auto dest: enqueue_event_Inr)
  with r that show thesis by blast
qed

lemma open_rows:
  assumes ok: "secrets_ok s" and op: "openAndEnqueueCleanup st svc e j h s = (res, s')"
  obtains (opened) sec r where "res = Inr sec" "secret_of s j = Some r" "s_consumed_at r = None"
      "secrets s' = secrets (update_secrets (live_row j) (opened_row (clock e 1)) s)"
  | (refused) r where "res = Inl ErrInvalidAccess" "secret_of s j = Some r" "s_consumed_at r = None"
      "secrets s' = secrets (update_secrets (live_row j) (refused_row (clock e 0)) s)"
  | (rolled_back) err where "res = Inl err" "err \<noteq> ErrInvalidAccess" "s' = s"
proof (cases res)
  case (Inl err)
  from op [unfolded Inl] show thesis
  proof (cases rule: openAndEnqueueCleanup_Inl)
    case refused
    from refused(3) ok show thesis
      by (rule recordFailed_rows) (use that(2) refused(2) Inl in \<open>simp add: Secret_Store.refused_def\<close>)
  next
    case rolled_back
    then show thesis using that(3) Inl by blast
  qed
next
  case (Inr sec)
  obtain jobID row s1 where s1: "OpenTx st svc e j h s = (Inr sec, s1)"
    "enqueue_event (outboxSubject st) (clock e 3) (fails e) (consumed_job jobID j (clock e 2)) s1 = (Inr row, s')"
    by (rule openAndEnqueueCleanup_Inr [OF op [unfolded Inr]])
  from s1(1) secrets_ok_distinct [OF ok] show thesis
    by (rule OpenTx_Inr) (use that(1) Inr enqueue_event_Inr [OF s1(2)] in simp)
qed

lemma answers_left_same_rows: "secrets s' = secrets x \<Longrightarrow> answers_left i x \<le> n \<Longrightarrow> answers_left i s' \<le> n"
  using answers_left_cong [of s' x] by simp

lemma secrets_ok_unlocked:
  "secrets_ok s \<Longrightarrow> secret_of s i = Some r \<Longrightarrow> s_consumed_at r = None \<Longrightarrow> s_failed_access_count r < maxFailedAccessAttempts"
  using secrets_ok_row by (fastforce simp: secret_row_ok_def)

lemma answers_left_live_update:
  assumes "secret_of s i = Some r" "s_consumed_at r = None" "\<And>r. s_id (f r) = s_id r"
    and "secrets s' = secrets (update_secrets (live_row i) f s)"
  shows "answers_left i s' = row_left (f r)" "answers_left i s = row_left r"
  using secret_of_live_update [OF assms(3,1,2)] assms(1) answers_left_cong [OF assms(4)] by (simp_all add: answers_left_def)

lemma answers_left_open:
  assumes ok: "secrets_ok s" and op: "openAndEnqueueCleanup st svc e j h s = (res, s')"
  shows "answers_left i s' \<le> answers_left i s"
    and "j = i \<Longrightarrow> res = Inr sec \<Longrightarrow> answers_left i s' = 0 \<and> 0 < answers_left i s"
    and "j = i \<Longrightarrow> res = Inl ErrInvalidAccess \<Longrightarrow> answers_left i s' < answers_left i s"
proof -
  from ok op have "answers_left i s' \<le> answers_left i s \<and>
    (j = i \<longrightarrow> (\<forall>sec. res = Inr sec \<longrightarrow> answers_left i s' = 0 \<and> 0 < answers_left i s) \<and>
      (res = Inl ErrInvalidAccess \<longrightarrow> answers_left i s' < answers_left i s))"
  proof (cases rule: open_rows)
    case (opened sec r)
    show ?thesis
    proof (cases "j = i")
      case True
      have "0 < row_left r" using secrets_ok_unlocked [OF ok opened(2,3)] opened(3) by (simp add: row_left_def)
      then show ?thesis
        using answers_left_live_update [OF opened(2,3) _ opened(4)] True opened(1) by simp
    next
      case False
      then show ?thesis using answers_left_same_rows [OF opened(4)] answers_left_live_other [OF False] by simp
    qed
  next
    case (refused r)
    show ?thesis
    proof (cases "j = i")
      case True
      then show ?thesis
        using answers_left_live_update [OF refused(2,3) _ refused(4)] refused(1)
          row_left_refused [OF refused(3) secrets_ok_unlocked [OF ok refused(2,3)], of "clock e 0"] by simp
    next
      case False
      then show ?thesis using answers_left_same_rows [OF refused(4)] answers_left_live_other [OF False] by simp
    qed
  qed simp
  then show "answers_left i s' \<le> answers_left i s" "j = i \<Longrightarrow> res = Inr sec \<Longrightarrow> answers_left i s' = 0 \<and> 0 < answers_left i s"
    "j = i \<Longrightarrow> res = Inl ErrInvalidAccess \<Longrightarrow> answers_left i s' < answers_left i s"
    by simp_all
qed

lemma writeSecretError_status: "rs_status (writeSecretError err) \<in> {400, 403, 404, 409, 410, 413, 422, 500}"
  "rs_status (writeSecretError err) = 403 \<longleftrightarrow> err = ErrInvalidAccess"
  by (cases err; simp)+

lemma writeOpenError_status: "rs_status (writeOpenError err) = 403 \<longleftrightarrow> err = ErrInvalidAccess"
  "rs_status (writeOpenError err) \<in> {400, 403, 404, 409, 410, 413, 422, 500}"
  using writeSecretError_status [of err] by (auto simp: writeOpenError_def)

lemma decode_body_Inl: "decode_body limit contract b = Inl r \<Longrightarrow> rs_status r \<in> {400, 413}"
  by (auto simp: decode_body_def too_large_def sensitive_def split: if_splits option.splits)

lemma open_answer_cases:
  assumes "open_answer sv svc e j b s = ((r, k), s')"
  obtains (bad_input) "s' = s" "rs_status r \<in> {400, 413}" "k = None"
  | (store) hash res where "openAndEnqueueCleanup (sv_store sv) svc e j hash s = (res, s')"
      "r = (case res of Inl err \<Rightarrow> writeOpenError err | Inr sec \<Rightarrow> opened_response sec)"
proof (cases "\<exists>hash. snd (open_answer sv svc e j b s) = snd (openAndEnqueueCleanup (sv_store sv) svc e j hash s) \<and>
    r = (case fst (openAndEnqueueCleanup (sv_store sv) svc e j hash s) of Inl err \<Rightarrow> writeOpenError err | Inr sec \<Rightarrow> opened_response sec)")
  case True
  then show thesis using assms store by (metis prod.collapse snd_conv)
next
  case False
  then have "s' = s \<and> rs_status r \<in> {400, 413} \<and> k = None"
    using assms by (auto simp: open_answer_def case_prod_beta dest: decode_body_Inl split: sum.splits option.splits)
  then show thesis using bad_input by blast
qed

lemma opened_response_status [simp]: "rs_status (opened_response sec) = 200"
  by (simp add: opened_response_def)

lemma answers_left_answer:
  assumes ok: "secrets_ok s" and op: "open_answer sv svc e j b s = ((r, k), s')"
  shows "answers_left i s' \<le> answers_left i s"
    and "j = i \<Longrightarrow> rs_status r = 200 \<Longrightarrow> answers_left i s' = 0 \<and> 0 < answers_left i s"
    and "j = i \<Longrightarrow> rs_status r = 403 \<Longrightarrow> answers_left i s' < answers_left i s"
proof -
  from op have "answers_left i s' \<le> answers_left i s \<and>
    (j = i \<longrightarrow> (rs_status r = 200 \<longrightarrow> answers_left i s' = 0 \<and> 0 < answers_left i s) \<and>
      (rs_status r = 403 \<longrightarrow> answers_left i s' < answers_left i s))"
  proof (cases rule: open_answer_cases)
    case (store hash res)
    show ?thesis
    proof (cases res)
      case (Inl err)
      then show ?thesis
        using answers_left_open [OF ok store(1), of i] writeOpenError_status [of err] store(2) by auto
    next
      case (Inr sec)
      then show ?thesis using answers_left_open [OF ok store(1), of i] store(2) by auto
    qed
  qed auto
  then show "answers_left i s' \<le> answers_left i s"
    "j = i \<Longrightarrow> rs_status r = 200 \<Longrightarrow> answers_left i s' = 0 \<and> 0 < answers_left i s"
    "j = i \<Longrightarrow> rs_status r = 403 \<Longrightarrow> answers_left i s' < answers_left i s"
    by simp_all
qed

lemma answers_left_core: "core s' = core s \<Longrightarrow> answers_left i s' \<le> answers_left i s"
  by (simp add: answers_left_def core_def)

lemma answers_left_exec:
  assumes ok: "api_ok s" and i: "\<not> draws_id i ev"
  shows "answers_left i (fst (api_exec sv rp rst s ev)) \<le> answers_left i s"
proof (cases ev)
  case (ACreate svc e b)
  then show ?thesis
    using createSecret_db [of sv svc e b s] answers_left_Create answers_left_CreateLarge i by (auto simp: case_prod_beta)
next
  case (AFinalize svc e j)
  then show ?thesis using answers_left_Finalize by (simp add: case_prod_beta)
next
  case (AOpen svc e j b)
  obtain r k s' where op: "open_answer sv svc e j b s = ((r, k), s')" by (metis surj_pair)
  then show ?thesis using answers_left_answer(1) [OF api_ok_parts(1) [OF ok] op] by (simp add: AOpen)
next
  case (ACleanup e j b)
  then show ?thesis using cleanupSecret_db [of sv e j b s] answers_left_Cleanup by (auto simp: case_prod_beta)
next
  case (ARevoke e1 e2 j tok b)
  then show ?thesis
    using revokeSecret_db [of sv e1 e2 j tok b s] answers_left_Revoke [OF api_ok_parts(1) [OF ok]] by (auto simp: case_prod_beta)
next
  case (AClaim e)
  have "api_ok (snd (claimExpired rp e s))" using api_ok_exec [OF ok, of sv rp rst "AClaim e"] by simp
  then show ?thesis unfolding AClaim
    using answers_left_sub [OF _ claimExpired_rows [OF ok]] secrets_ok_distinct api_ok_parts(1) ok by simp
next
  case (ARequest rev)
  have "secret_of (fst (request_exec rst s rev)) i = secret_of s i"
    by (rule secret_side_ok [OF request_exec_side [OF api_ok_parts(3) [OF ok]]])
  then show ?thesis by (simp add: ARequest case_prod_beta answers_left_def)
qed (rule answers_left_core, simp add: case_prod_beta)+

lemma answered_AOpen:
  assumes "answered status i ev (snd (api_exec sv rp rst s ev))"
  obtains svc e b r k s' where "open_answer sv svc e i b s = ((r, k), s')" "rs_status r = status"
    "fst (api_exec sv rp rst s ev) = s'"
proof (cases ev)
  case (AOpen svc e j b)
  obtain r k s' where "open_answer sv svc e j b s = ((r, k), s')" by (metis surj_pair)
  then show thesis using that assms by (simp add: AOpen)
qed (use assms in \<open>simp_all add: case_prod_beta\<close>)

interpretation one_open: one_shot "api_exec sv rp rst" api_ok "\<lambda>ev. \<not> draws_id i ev" "answered 200 i"
  "\<lambda>s. answers_left i s = 0" for sv rp rst i
proof
  fix s ev
  assume ok: "api_ok s" and i: "\<not> draws_id i ev"
  show "answers_left i (fst (api_exec sv rp rst s ev)) = 0" if "answered 200 i ev (snd (api_exec sv rp rst s ev))"
    using that by (rule answered_AOpen) (use answers_left_answer(2) [OF api_ok_parts(1) [OF ok]] in blast)
  show "answers_left i (fst (api_exec sv rp rst s ev)) = 0" if "answers_left i s = 0"
    using answers_left_exec [OF ok i, of sv rp rst] that by simp
  show "\<not> answered 200 i ev (snd (api_exec sv rp rst s ev))" if "answers_left i s = 0"
  proof
    assume "answered 200 i ev (snd (api_exec sv rp rst s ev))"
    then show False
      by (rule answered_AOpen) (use answers_left_answer(2) [OF api_ok_parts(1) [OF ok], of _ _ _ i _ _ _ _ i] that in fastforce)
  qed
qed

interpretation five_answers: rationed "api_exec sv rp rst" api_ok "\<lambda>ev. \<not> draws_id i ev"
  "\<lambda>ev r. answered 200 i ev r \<or> answered 403 i ev r" "answers_left i" for sv rp rst i
proof
  fix s ev
  assume ok: "api_ok s" and i: "\<not> draws_id i ev"
  show "answers_left i (fst (api_exec sv rp rst s ev)) \<le> answers_left i s" by (rule answers_left_exec [OF ok i])
  assume "answered 200 i ev (snd (api_exec sv rp rst s ev)) \<or> answered 403 i ev (snd (api_exec sv rp rst s ev))"
  then show "answers_left i (fst (api_exec sv rp rst s ev)) < answers_left i s"
  proof
    assume "answered 200 i ev (snd (api_exec sv rp rst s ev))"
    then show ?thesis
      by (rule answered_AOpen) (use answers_left_answer(2) [OF api_ok_parts(1) [OF ok], of _ _ _ i _ _ _ _ i] in fastforce)
  next
    assume "answered 403 i ev (snd (api_exec sv rp rst s ev))"
    then show ?thesis
      by (rule answered_AOpen) (use answers_left_answer(3) [OF api_ok_parts(1) [OF ok], of _ _ _ i _ _ _ _ i] in fastforce)
  qed
qed

lemma answers_left_bound: "api_ok s \<Longrightarrow> answers_left i s \<le> 5"
  using secrets_ok_row [of s i] api_ok_parts(1)
  by (auto simp: answers_left_def row_left_def maxFailedAccessAttempts_def secret_row_ok_def secret_check_def split: option.split)

end
