(* ===== verification/Request_Promises.thy ===== *)
theory Request_Promises
  imports Request_Delivery
begin

text \<open>
  What a submitter and an owner can rely on, call by call: the capabilities handed out at creation, the
  round trip of a submission, retries that answer the same, attempts of an ended generation that are
  fenced, and copies that are verified.
\<close>

subsection \<open>Calls without faults\<close>

lemma beginTx_ok:
  assumes "fails e = no_faults" "tokenHash token = Inr (capability owner r)" "request_of s i = Some r"
    "r_state r \<notin> {''unavailable'', ''uploading''}" "clock e k < r_expires_at r"
  shows "beginTx st e k i token owner s = (Inr (record_of r), s)"
  using assms by (simp add: beginTx_def numeral_2_eq_2 authorized_def record_of_def)

lemma beginTx_idle:
  assumes "request_of s i = Some r" "r_state r \<noteq> ''uploading''" "beginTx st e k i token owner s = (Inr row, s')"
  shows "s' = s \<and> row = record_of r"
  using assms by (auto simp: beginTx_def numeral_2_eq_2 authorized_def record_of_def
      split: sum.splits if_splits)

lemma commit_ok: "fails e = no_faults \<Longrightarrow> clock e k < x \<or> x = 0 \<Longrightarrow> commit_error e k x = None"
  by (auto simp: commit_error_def)

subsection \<open>Capabilities\<close>

lemma hash_or_nil_32: "length (hash_or_nil h) = 32 \<Longrightarrow> h = Inr (hash_or_nil h)"
  by (cases h) (auto simp: hash_or_nil_def)

lemma created_row:
  assumes "CreateRequest st e k ttl s = (Inr c, s')"
  obtains r fp where "request_of s' (rc_ID c) = Some r" "r_state r = ''waiting''" "r_generation r = 1"
    "r_public_key r = k" "r_fingerprint r = fp" "publicKeyFingerprint st k = Inr fp" "r_expires_at r = rc_ExpiresAt c"
    "tokenHash (rc_SubmissionToken c) = Inr (r_submission_token_hash r)"
    "tokenHash (rc_RetrievalToken c) = Inr (r_retrieval_token_hash r)"
  using assms
proof (rule CreateRequest_Inr)
  fix fp seconds random
  let ?r = "new_request_row (rc_ID c) k fp (hash_or_nil (tokenHash (rc_SubmissionToken c)))
     (hash_or_nil (tokenHash (rc_RetrievalToken c))) (rc_ExpiresAt c)"
  assume a: "publicKeyFingerprint st k = Inr fp" "rc_ID c \<notin> r_id ` set (requests s)" "request_check ?r"
    "s' = s\<lparr>requests := requests s @ [?r]\<rparr>"
  have "request_of s (rc_ID c) = None"
    using a(2) unfolding sql_row_None by (metis image_eqI)
  then have "request_of s' (rc_ID c) = Some ?r"
    using a(4) by (simp add: sql_row_append new_request_row_def)
  moreover have "tokenHash (rc_SubmissionToken c) = Inr (r_submission_token_hash ?r)"
    "tokenHash (rc_RetrievalToken c) = Inr (r_retrieval_token_hash ?r)"
    using a(3) by (auto simp: request_check_def new_request_row_def intro: hash_or_nil_32)
  ultimately show thesis
    using a(1) that [of ?r fp] by (simp add: new_request_row_def)
qed

lemma read_request_ok:
  assumes "fails e = no_faults" "tokenHash token = Inr (capability owner r)" "request_of s i = Some r"
    "r_state r \<notin> {''unavailable'', ''uploading''}" "clock e 20 < r_expires_at r"
  shows "read_request st e i token owner s = (Inr (record_of r), s)"
  using assms by (simp add: read_request_def authorized_def record_of_def)

lemma read_request_Inr:
  assumes "read_request st e i token owner s = (Inr row, s')" "distinct (map r_id (requests s))"
  obtains r where "request_of s' i = Some r" "row = record_of r" "tokenHash token = Inr (capability owner r)"
    "r_state r \<noteq> ''unavailable''"
proof (cases "beginTx st e 0 i token owner s = (Inr row, s')")
  case True
  from True assms(2) show thesis
    by (rule beginTx_row_steps) (use that in auto)
next
  case False
  then obtain hash where "tokenHash token = Inr hash" "authorized (fails e) (clock e 20) i hash owner s = Inr row" "s' = s"
    using assms(1) by (auto simp: read_request_def split: sum.splits if_splits prod.splits option.splits)
  with that show thesis by (auto elim!: authorized_Inr)
qed

text \<open>
  The two capabilities of a new request open exactly their own views. Before the expiry, the
  submission token reads the recipient's key, its fingerprint and the open first generation, and the
  retrieval token reads the waiting state. Whoever obtains an answer presented the text of 32 bytes whose
  SHA-256 is the stored hash of that capability.
\<close>

theorem request_capabilities:
  assumes "requests_ok s" "CreateRequest st e k ttl s = (Inr c, s1)"
    and "fails e1 = no_faults" "clock e1 20 < rc_ExpiresAt c"
  shows "(\<exists>fp. publicKeyFingerprint st k = Inr fp \<and>
      Instructions st e1 (rc_ID c) (rc_SubmissionToken c) s1 =
        (Inr \<lparr>in_PublicKey = k, in_Fingerprint = fp, in_ExpiresAt = rc_ExpiresAt c, in_Generation = 1, in_CanSubmit = True\<rparr>, s1) \<and>
      Owner st e1 (rc_ID c) (rc_RetrievalToken c) s1 =
        (Inr \<lparr>os_PublicKey = k, os_Fingerprint = fp, os_ExpiresAt = rc_ExpiresAt c, os_State = ''waiting''\<rparr>, s1)) \<and>
    (\<forall>e2 token ans s2. Owner st e2 (rc_ID c) token s1 = (Inr ans, s2) \<longrightarrow>
       (\<exists>raw raw'. length raw = 32 \<and> length raw' = 32 \<and> token = rawurl_encode raw \<and>
          rc_RetrievalToken c = rawurl_encode raw' \<and> sha256 raw = sha256 raw'))"
proof -
  have ok1: "requests_ok s1"
    using requests_ok_CreateRequest [OF assms(1), of st e k ttl] assms(2) by simp
  from assms(2) obtain r fp where r: "request_of s1 (rc_ID c) = Some r" "r_state r = ''waiting''" "r_generation r = 1"
    "r_public_key r = k" "r_fingerprint r = fp" "publicKeyFingerprint st k = Inr fp" "r_expires_at r = rc_ExpiresAt c"
    "tokenHash (rc_SubmissionToken c) = Inr (r_submission_token_hash r)"
    "tokenHash (rc_RetrievalToken c) = Inr (r_retrieval_token_hash r)"
    by (rule created_row)
  have read: "read_request st e1 (rc_ID c) (rc_SubmissionToken c) False s1 = (Inr (record_of r), s1)"
    "read_request st e1 (rc_ID c) (rc_RetrievalToken c) True s1 = (Inr (record_of r), s1)"
    using r assms(3,4) by (auto intro!: read_request_ok simp: capability_def)
  have only: "\<exists>raw raw'. length raw = 32 \<and> length raw' = 32 \<and> token = rawurl_encode raw \<and>
      rc_RetrievalToken c = rawurl_encode raw' \<and> sha256 raw = sha256 raw'"
    if ans: "Owner st e2 (rc_ID c) token s1 = (Inr ans, s2)" for e2 token ans s2
  proof -
    from ans obtain row where row: "read_request st e2 (rc_ID c) token True s1 = (Inr row, s2)"
      by (auto simp: Owner_def split: prod.splits sum.splits)
    from row requests_ok_distinct [OF ok1] obtain r2 where r2: "request_of s2 (rc_ID c) = Some r2"
      "tokenHash token = Inr (capability True r2)"
      by (rule read_request_Inr)
    obtain r' where "request_of s2 (rc_ID c) = Some r'" "request_step\<^sup>*\<^sup>* r r'"
      by (rule evolves_row [OF read_request_evolves [OF requests_ok_distinct [OF ok1] row] r(1)])
    then have "r_retrieval_token_hash r2 = r_retrieval_token_hash r"
      using r2(1) request_steps_fixed by fastforce
    with r2(2) r(9) show ?thesis
      by (auto simp: capability_def dest!: tokenHash_Inr) metis
  qed
  from r read only show ?thesis
    by (intro conjI exI [of _ fp]) (auto simp: Instructions_def Owner_def record_of_def)
qed

subsection \<open>Submissions\<close>

lemma Submit_Inr:
  assumes "Submit st e i token inp s = (Inr rc, s')" "distinct (map r_id (requests s))"
  obtains (fresh) attempt v c s0 r0 r where "validateSubmission st inp = Inr (attempt, v, c)"
      "request_of s i = Some r0" "request_of s0 i = Some r" "request_step\<^sup>*\<^sup>* r0 r" "evolves s s0"
      "tokenHash token = Inr (r_submission_token_hash r)" "r_generation r = si_Generation inp" "r_state r = ''waiting''"
      "rc = \<lparr>rec_Generation = si_Generation inp, rec_State = ''submitted''\<rparr>"
      "request_of s' i = Some (submitted_row attempt
         (submission_digest (si_Kind inp) (si_SizeBytes inp) v (si_Ciphertext inp)) inp v r)"
      "request_payloads s' = request_payloads s0 @ [\<lparr>rp_request_id = i, rp_ciphertext = c\<rparr>]"
      "i \<notin> rp_request_id ` set (request_payloads s0)" "beginTx st e 0 i token False s = (Inr (record_of r), s0)"
  | (retry) attempt v c r0 r where "validateSubmission st inp = Inr (attempt, v, c)"
      "request_of s i = Some r0" "request_of s' i = Some r" "request_step\<^sup>*\<^sup>* r0 r" "evolves s s'"
      "tokenHash token = Inr (r_submission_token_hash r)" "r_generation r = si_Generation inp"
      "r_state r \<notin> {''waiting'', ''uploading'', ''unavailable''}"
      "rc = \<lparr>rec_Generation = si_Generation inp, rec_State = ''submitted''\<rparr>"
      "r_attempt_token_hash r = Some attempt"
      "r_attempt_body_hash r = Some (submission_digest (si_Kind inp) (si_SizeBytes inp) v (si_Ciphertext inp))"
      "beginTx st e 0 i token False s = (Inr (record_of r), s')"
proof -
  from assms(1) obtain attempt v c where v: "validateSubmission st inp = Inr (attempt, v, c)"
    by (auto simp: Submit_def split: sum.splits)
  with assms(1) obtain row s0 where b: "beginTx st e 0 i token False s = (Inr row, s0)"
    by (auto simp: Submit_def Let_def split: prod.splits sum.splits)
  from b assms(2) obtain r0 r where r: "request_of s i = Some r0" "request_of s0 i = Some r" "request_step\<^sup>*\<^sup>* r0 r"
    "row = record_of r" "tokenHash token = Inr (capability False r)" "r_state r \<noteq> ''unavailable''" "distinct (map r_id (requests s0))"
    by (rule beginTx_row_steps)
  have ev: "evolves s s0"
    using b assms(2) by (rule beginTx_evolves)
  let ?d = "submission_digest (si_Kind inp) (si_SizeBytes inp) v (si_Ciphertext inp)"
  let ?p = "\<lambda>r. r_id r = i \<and> r_state r = ''waiting'' \<and> r_generation r = si_Generation inp"
  have g: "r_generation r = si_Generation inp" "r_state r \<noteq> ''uploading''"
    "rc = \<lparr>rec_Generation = si_Generation inp, rec_State = ''submitted''\<rparr>"
    using assms(1) v b r(2,4) by (auto simp: Submit_def Let_def record_of_def exec_Some
        split: if_splits option.splits sum.splits)
  show thesis
  proof (cases "r_state r = ''waiting''")
    case True
    with assms(1) v b r(2,4) g obtain s1 where u: "update_requests ?p (submitted_row attempt ?d inp v) s0 = Some s1"
      "insert_request_payload \<lparr>rp_request_id = i, rp_ciphertext = c\<rparr> s1 = Some s'"
      by (auto simp: Submit_def Let_def record_of_def exec_Some split: if_splits option.splits sum.splits)
    have "request_of s1 i = Some (submitted_row attempt ?d inp v r)"
      using update_requests_row [OF u(1), of i] r(2) True g sql_row_Some [OF r(2)] by (simp add: submitted_row_def)
    moreover have "request_payloads s1 = request_payloads s0"
      using u(1) by (auto simp: update_requests_def Let_def split: if_splits)
    ultimately show thesis
      using v b r g ev True u(2) by (intro fresh [of attempt v c r0 s0 r])
        (auto simp: insert_request_payload_def sql_insert_Some capability_def split: if_splits)
  next
    case False
    with assms(1) v b r(2,4) g have "s' = s0" "r_attempt_token_hash r = Some attempt" "r_attempt_body_hash r = Some ?d"
      by (auto simp: Submit_def Let_def record_of_def split: if_splits option.splits sum.splits)
    with v b r g ev False show thesis
      by (intro retry [of attempt v c r0 r]) (auto simp: capability_def)
  qed
qed

text \<open>Once submitted, a row keeps its generation and the hashes of the accepted attempt.\<close>

lemma settled_step:
  assumes "request_step r r'" "r_state r \<in> {''submitted'', ''consumed'', ''cancelled''}"
  shows "r_state r' \<in> {''submitted'', ''consumed'', ''cancelled''} \<and> r_generation r' = r_generation r \<and>
    r_attempt_token_hash r' = r_attempt_token_hash r \<and> r_attempt_body_hash r' = r_attempt_body_hash r"
  using assms by (induction rule: request_step.induct) (auto simp: request_rows)

lemma settled_steps:
  assumes "request_step\<^sup>*\<^sup>* r r'" "r_state r \<in> {''submitted'', ''consumed'', ''cancelled''}"
  shows "r_state r' \<in> {''submitted'', ''consumed'', ''cancelled''} \<and> r_generation r' = r_generation r \<and>
    r_attempt_token_hash r' = r_attempt_token_hash r \<and> r_attempt_body_hash r' = r_attempt_body_hash r"
  using assms by (induction rule: rtranclp_induct) (auto dest!: settled_step)

lemma Submit_settled:
  assumes "Submit st e i token inp s = (Inr rc, s')" "distinct (map r_id (requests s))"
    "validateSubmission st inp = Inr (attempt, v, c)" "requests_ok s"
  obtains r where "request_of s' i = Some r" "r_state r \<in> {''submitted'', ''consumed'', ''cancelled''}"
    "r_generation r = si_Generation inp" "r_attempt_token_hash r = Some attempt"
    "r_attempt_body_hash r = Some (submission_digest (si_Kind inp) (si_SizeBytes inp) v (si_Ciphertext inp))"
    "tokenHash token = Inr (r_submission_token_hash r)" "rc = \<lparr>rec_Generation = si_Generation inp, rec_State = ''submitted''\<rparr>"
  using assms(1,2)
proof (cases rule: Submit_Inr)
  case (fresh attempt' v' c' s0 r0 r)
  with assms(3) show thesis
    by (intro that [OF fresh(10)]) (auto simp: submitted_row_def)
next
  case (retry attempt' v' c' r0 r)
  have "request_check r"
    using requests_ok_row [OF evolves_ok [OF retry(5) assms(4)]] sql_row_Some [OF retry(3)] by blast
  then have "r_state r \<in> {''submitted'', ''consumed'', ''cancelled''}"
    using retry(8) by (auto simp: request_check_def)
  with retry assms(3) show thesis
    by (intro that [OF retry(3)]) auto
qed

text \<open>
  C21: An accepted submission sticks. After it, whatever else happened to the request, the same call repeated
  without faults before the expiry gets the same receipt and changes nothing, and a call for the same
  generation with another attempt token or another body is refused as a conflict and changes nothing.
\<close>

theorem submission_sticks:
  assumes "requests_ok s" "Submit st e i token inp s = (Inr rc, s1)" "evolves s1 s2"
    and "validateSubmission st inp = Inr (a, v, c)" "validateSubmission st inp' = Inr (a', v', c')"
    and "si_Generation inp' = si_Generation inp" "fails e' = no_faults"
    and "\<And>r n. request_of s2 i = Some r \<Longrightarrow> clock e' n < r_expires_at r"
  shows "Submit st e' i token inp' s2 =
    (if a' = a \<and> submission_digest (si_Kind inp') (si_SizeBytes inp') v' (si_Ciphertext inp') =
         submission_digest (si_Kind inp) (si_SizeBytes inp) v (si_Ciphertext inp)
     then Inr rc else Inl ErrConflict, s2)"
proof -
  from assms(2) requests_ok_distinct [OF assms(1)] assms(4,1) obtain r where r: "request_of s1 i = Some r"
    "r_state r \<in> {''submitted'', ''consumed'', ''cancelled''}" "r_generation r = si_Generation inp"
    "r_attempt_token_hash r = Some a"
    "r_attempt_body_hash r = Some (submission_digest (si_Kind inp) (si_SizeBytes inp) v (si_Ciphertext inp))"
    "tokenHash token = Inr (r_submission_token_hash r)" "rc = \<lparr>rec_Generation = si_Generation inp, rec_State = ''submitted''\<rparr>"
    by (rule Submit_settled)
  from assms(3) r(1) obtain r' where r': "request_of s2 i = Some r'" "request_step\<^sup>*\<^sup>* r r'"
    by (rule evolves_row)
  note keep = settled_steps [OF r'(2) r(2)] request_steps_fixed [OF r'(2)]
  have live: "clock e' n < r_expires_at r'" for n
    using assms(8) r'(1) by blast
  have b: "beginTx st e' 0 i token False s2 = (Inr (record_of r'), s2)"
    by (rule beginTx_ok [OF assms(7) _ r'(1) _ live]) (use r keep in \<open>auto simp: capability_def\<close>)
  have "commit_error e' 20 (r_expires_at r') = None"
    using assms(7) live by (simp add: commit_ok)
  with b r r' keep assms(5,6,7) show ?thesis
    by (auto simp: Submit_def Let_def record_of_def)
qed

subsection \<open>From submission to delivery\<close>

lemma map_filter_update_subset:
  "(\<And>r. g (f r) = None \<or> g (f r) = g r) \<Longrightarrow> set (List.map_filter g (sql_update p f t)) \<subseteq> set (List.map_filter g t)"
proof (induction t)
  case (Cons r t)
  from Cons.prems [of r] Cons.IH [OF Cons.prems] show ?case
    by (auto simp: sql_update_def List.map_filter_simps split: option.splits if_splits)
qed (simp add: sql_update_def List.map_filter_simps)

lemma distinct_keys_update:
  assumes "\<And>r. g (f r) = None \<or> g (f r) = g r"
  shows "distinct (List.map_filter g t) \<Longrightarrow> distinct (List.map_filter g (sql_update p f t))"
proof (induction t)
  case (Cons r t)
  let ?r = "if p r then f r else r"
  have u: "sql_update p f (r # t) = ?r # sql_update p f t"
    by (simp add: sql_update_def)
  have "g ?r = None \<or> g ?r = g r"
    using assms by simp
  with Cons map_filter_update_subset [of g f p t, OF assms] show ?case
    unfolding u by (auto simp: List.map_filter_simps split: option.splits)
qed (simp add: sql_update_def List.map_filter_simps)

lemma request_check_cleared:
  "request_check r \<Longrightarrow> state \<in> {''consumed'', ''cancelled''} \<Longrightarrow> request_check (cleared_row state now r)"
  by (auto simp: request_check_def cleared_row_def hash_column_def)

lemma request_constraints_cleared:
  assumes "request_constraints t" "state \<in> {''consumed'', ''cancelled''}"
  shows "request_constraints (sql_update p (cleared_row state now) t)"
proof -
  have "list_all request_check (sql_update p (cleared_row state now) t)"
    using assms by (auto simp: request_constraints_def list_all_iff set_update intro: request_check_cleared)
  moreover have "distinct (List.map_filter r_upload_key (sql_update p (cleared_row state now) t))"
    "distinct (List.map_filter r_final_key (sql_update p (cleared_row state now) t))"
    using assms(1) by (auto simp: request_constraints_def intro!: distinct_keys_update simp: cleared_row_def)
  ultimately show ?thesis by (simp add: request_constraints_def)
qed

lemma clearPayloadTx_ok:
  assumes "requests_ok s" "request_of s i = Some r" "r_upload_key r = None" "r_final_key r = None"
    "fails e = no_faults" "state \<in> {''consumed'', ''cancelled''}"
  shows "\<exists>s'. clearPayloadTx st e i (r_state r) state reason s = (Inr (), s')"
proof -
  have "sql_count (\<lambda>x. r_id x = i \<and> r_state x = r_state r) (requests s) = 1"
    using assms(2) by (simp add: sql_count_key [OF requests_ok_distinct [OF assms(1)]])
  moreover have "request_constraints (sql_update p (cleared_row state now) (requests s))" for p now
    using assms(1,6) by (intro request_constraints_cleared) (auto simp: requests_ok_def)
  ultimately show ?thesis
    using assms(2-5) by (simp add: clearPayloadTx_def enqueueRequestKeysTx_def exec_def update_requests_def
        requireTransition_def Let_def)
qed

lemma validateSubmission_Inr:
  assumes "validateSubmission st inp = Inr (a, v, c)"
  shows "si_Ciphertext inp = std_encode c \<and> si_SizeBytes inp = int (length c) \<and> isAgeFile c \<and>
    si_Kind inp \<in> {''text'', ''file''} \<and> Version v = 2 \<and> (si_Kind inp = ''text'' \<longleftrightarrow> EnvFilename v = []) \<and>
    si_SizeBytes inp \<le> rq_PayloadInlineMaxBytes st \<and> 1 \<le> si_Generation inp \<and> si_Generation inp \<le> MaxGeneration"
  using assms
  by (auto simp: validateSubmission_def dest: canonicalBase64_Some validateEnvelope_Inr
      split: if_splits sum.splits option.splits)

lemma inline_open_ok:
  assumes "requests_ok s" "request_of s i = Some r" "inline_waiting r" "tokenHash token = Inr (r_retrieval_token_hash r)"
    "fails e = no_faults" "\<And>n. clock e n < r_expires_at r"
    "sql_row (\<lambda>q. rp_request_id q = i) (request_payloads s) = Some q"
    "r_kind r = Some kind" "r_size_bytes r = Some (int (length (rp_ciphertext q)))" "r_envelope r = Some v"
  shows "\<exists>s'. OpenRequest st svc meanwhile e e2 i token s =
    (Inr \<lparr>op_Kind = kind, op_SizeBytes = int (length (rp_ciphertext q)), op_Envelope = v,
          op_Body = rp_ciphertext q, op_ObjectKey = []\<rparr>, s')"
proof -
  have st: "r_state r = ''submitted''" "r_storage_backend r = StorageSQLite"
    using assms(3) by (simp_all add: inline_waiting_def)
  have b: "beginTx st e 0 i token True s = (Inr (record_of r), s)"
    using assms(2,4-6) st by (intro beginTx_ok) (auto simp: capability_def)
  have "request_row_ok r"
    using requests_ok_row [OF assms(1)] sql_row_Some [OF assms(2)] by blast
  then have "r_upload_key r = None" "r_final_key r = None"
    using st by (auto simp: request_row_ok_def)
  then obtain s' where "clearPayloadTx st e i ''submitted'' ''consumed'' ReasonConsumed s = (Inr (), s')"
    using clearPayloadTx_ok [OF assms(1,2) _ _ assms(5), of "''consumed''" st ReasonConsumed] st by auto
  moreover have "commit_error e 20 (r_expires_at r) = None"
    using assms(5,6) by (simp add: commit_ok)
  ultimately show ?thesis
    using b st assms by (simp add: OpenRequest_def record_of_def Let_def)
qed

text \<open>
  C31: What was submitted inline is what the owner gets. After an accepted first submission to a waiting
  request, the owner's open before the expiry returns the kind, size and envelope of the submission and
  the very bytes whose base64 text was submitted, an age file; the request is then consumed and its body
  is gone from the database.
\<close>

theorem submit_open_roundtrip:
  assumes "requests_ok s" "request_of s i = Some r0" "r_state r0 = ''waiting''"
    and "Submit st e i token inp s = (Inr rc, s1)" "validateSubmission st inp = Inr (a, v, c)"
    and "tokenHash ownerToken = Inr (r_retrieval_token_hash r0)" "fails e2 = no_faults" "\<And>n. clock e2 n < r_expires_at r0"
  shows "\<exists>s2 r2. OpenRequest st svc meanwhile e2 e3 i ownerToken s1 =
      (Inr \<lparr>op_Kind = si_Kind inp, op_SizeBytes = si_SizeBytes inp, op_Envelope = v, op_Body = c, op_ObjectKey = []\<rparr>, s2) \<and>
    si_Ciphertext inp = std_encode c \<and> isAgeFile c \<and> request_of s2 i = Some r2 \<and> r_state r2 = ''consumed'' \<and>
    sql_row (\<lambda>q. rp_request_id q = i) (request_payloads s2) = None"
proof -
  note val = validateSubmission_Inr [OF assms(5)]
  have d: "distinct (map r_id (requests s))"
    using assms(1) by (rule requests_ok_distinct)
  have ok1: "requests_ok s1"
    using evolves_ok [OF Submit_evolves [OF d] assms(1), of st e i token inp] assms(4) by simp
  from assms(4) d obtain r where f: "r = r0"
    "request_of s1 i = Some (submitted_row a (submission_digest (si_Kind inp) (si_SizeBytes inp) v (si_Ciphertext inp)) inp v r)"
    "request_payloads s1 = request_payloads s @ [\<lparr>rp_request_id = i, rp_ciphertext = c\<rparr>]"
    "i \<notin> rp_request_id ` set (request_payloads s)"
  proof (cases rule: Submit_Inr)
    case (fresh a' v' c' s0 r0' r)
    have "s0 = s"
      using beginTx_idle [OF assms(2) _ fresh(13)] assms(3) by simp
    with fresh(1,3,10,11,12) assms(2,5) show thesis by (intro that [of r]) simp_all
  next
    case (retry a' v' c' r0' r)
    have "s1 = s"
      using beginTx_idle [OF assms(2) _ retry(12)] assms(3) by simp
    with retry(3,8) assms(2,3) show thesis by simp
  qed
  let ?r = "submitted_row a (submission_digest (si_Kind inp) (si_SizeBytes inp) v (si_Ciphertext inp)) inp v r0"
  let ?q = "\<lparr>rp_request_id = i, rp_ciphertext = c\<rparr>"
  have row0: "request_row_ok r0"
    using requests_ok_row [OF assms(1)] sql_row_Some [OF assms(2)] by blast
  have q: "sql_row (\<lambda>q. rp_request_id q = i) (request_payloads s1) = Some ?q"
  proof -
    have "sql_row (\<lambda>q. rp_request_id q = i) (request_payloads s) = None"
      using f(4) unfolding sql_row_None by (metis image_eqI)
    then show ?thesis by (simp add: f(3) sql_row_append)
  qed
  have wait: "inline_waiting ?r"
    using row0 assms(3) by (simp add: inline_waiting_def submitted_row_def request_row_ok_def)
  have r1: "request_of s1 i = Some ?r"
    using f(1,2) by simp
  have "\<exists>s2. OpenRequest st svc meanwhile e2 e3 i ownerToken s1 =
      (Inr \<lparr>op_Kind = si_Kind inp, op_SizeBytes = int (length (rp_ciphertext ?q)), op_Envelope = v, op_Body = rp_ciphertext ?q,
            op_ObjectKey = []\<rparr>, s2)"
    by (rule inline_open_ok [OF ok1 r1 wait _ assms(7) _ q])
      (use assms(6,8) val in \<open>simp_all add: submitted_row_def\<close>)
  then obtain s2 where s2: "OpenRequest st svc meanwhile e2 e3 i ownerToken s1 =
      (Inr \<lparr>op_Kind = si_Kind inp, op_SizeBytes = si_SizeBytes inp, op_Envelope = v, op_Body = c, op_ObjectKey = []\<rparr>, s2)"
    using val by auto
  have "\<exists>r2. request_of s2 i = Some r2 \<and> r_state r2 = ''consumed'' \<and>
      sql_row (\<lambda>q. rp_request_id q = i) (request_payloads s2) = None"
    using s2 requests_ok_distinct [OF ok1]
  proof (cases rule: OpenRequest_Inr)
    case (inline s0 r0' r')
    from inline(13,14) show ?thesis
      by (rule clearPayloadTx_Inr) (auto simp: cleared_row_def sql_row_None)
  next
    case (object s0 r0' r')
    have "request_row_ok r'"
      using requests_ok_row [OF evolves_ok [OF object(12) ok1]] sql_row_Some [OF object(2)] by blast
    then have "request_key []"
      using object(6) by (auto simp: request_row_ok_def)
    then show ?thesis
      by (simp add: request_key_def hasPrefix_def ObjectPrefix_def)
  qed
  with s2 val show ?thesis by blast
qed

subsection \<open>Generations\<close>

lemma beginTx_generation:
  assumes "beginTx st e k i token owner s = (Inr row, s0)" "distinct (map r_id (requests s))" "request_of s i = Some r"
  shows "r_generation r \<le> rr_generation row"
proof -
  from assms(1,2) obtain r0 r' where "request_of s i = Some r0" "request_step\<^sup>*\<^sup>* r0 r'" "row = record_of r'"
    by (rule beginTx_row_steps)
  with assms(3) life_rtrancl(1) [OF request_steps_life] show ?thesis
    by (fastforce simp: stage_of_def record_of_def)
qed

text \<open>
  C22: An ended generation is fenced for good. Once a request has moved past generation \<open>g\<close>, because its
  reservation was abandoned or ran out, no call of that generation is accepted any more: submitting,
  reserving, finalizing, abandoning and asking for an attempt all fail, in this state and, as generations
  never fall, in every later one.
\<close>

theorem generation_fenced:
  assumes "requests_ok s" "request_of s i = Some r" "g < r_generation r"
  shows "(si_Generation inp = g \<longrightarrow> isl (fst (Submit st e i token inp s))) \<and>
    (ui_Generation up = g \<longrightarrow> isl (fst (Reserve st svc e i token up s))) \<and>
    (ai_Generation at = g \<longrightarrow> isl (fst (fst (FinalizeRequest st svc finalizing meanwhile e e2 i token at s)))) \<and>
    (ai_Generation at = g \<longrightarrow> isl (fst (Abandon st e i token at s))) \<and>
    isl (fst (Attempt st e i token g attempt s))"
proof -
  obtain b s0 where b: "beginTx st e 0 i token False s = (b, s0)" by fastforce
  have f: "rr_generation row \<noteq> g" if "b = Inr row" for row
    using beginTx_generation [OF b [unfolded that] requests_ok_distinct [OF assms(1)] assms(2)] assms(3) by simp
  have "isl (fst (Submit st e i token inp s))" if "si_Generation inp = g"
    using b f that by (cases b) (simp_all add: Submit_def Let_def split: sum.split)
  moreover have "isl (fst (Reserve st svc e i token up s))" if "ui_Generation up = g"
    using b f that by (cases b) (simp_all add: Reserve_def split: sum.split option.split)
  moreover have "isl (fst (fst (FinalizeRequest st svc finalizing meanwhile e e2 i token at s)))" if "ai_Generation at = g"
    using b f that by (cases b) (simp_all add: FinalizeRequest_def objectAttemptTx_def split: sum.split option.split)
  moreover have "isl (fst (Abandon st e i token at s))" if "ai_Generation at = g"
    using b f that by (cases b) (simp_all add: Abandon_def split: sum.split)
  moreover have "isl (fst (Attempt st e i token g attempt s))"
    using b f by (cases b) (auto simp: Attempt_def split: sum.split)
  ultimately show ?thesis by blast
qed

subsection \<open>Uploads\<close>

lemma copyVerified_writes:
  assumes "copyVerified svc e a = (err, Some (key, body))"
  shows "\<exists>full n. Open svc (case r_upload_key a of None \<Rightarrow> [] | Some k \<Rightarrow> k) = Inr (full, n) \<and> body = take (nat n) full \<and>
    key = (case r_final_key a of None \<Rightarrow> [] | Some k \<Rightarrow> k) \<and> r_size_bytes a = Some (int (length body)) \<and>
    r_ciphertext_sha256 a = Some (sha256 body) \<and> isAgeFile (take (length AgeMagic) body)"
  using assms by (auto simp: copyVerified_def split: if_splits sum.splits prod.splits option.splits
      dest!: PutStream_verified)

lemma copyVerified_ok: "copyVerified svc e a = (None, w) \<Longrightarrow> \<exists>key body. w = Some (key, body)"
  by (auto simp: copyVerified_def split: if_splits sum.splits prod.splits option.splits dest: PutStream_ok)

lemma isAgeFile_take: "isAgeFile (take (length AgeMagic) b) \<longleftrightarrow> isAgeFile b"
  by (simp add: isAgeFile_def hasPrefix_def AgeMagic_def)

lemma finalizeAttempt_Inr:
  assumes "finalizeAttempt st e i token inp a attempt s = (Inr rc, s')" "distinct (map r_id (requests s))"
  obtains (accepted) s0 r where "request_of s0 i = Some r" "r_state r = ''uploading''" "r_attempt_token_hash r = Some attempt"
      "r_final_key r = r_final_key a" "r_ciphertext_sha256 r = r_ciphertext_sha256 a" "r_generation r = ai_Generation inp"
      "request_of s' i = Some (accepted_row r)" "clock e 22 < rr_reservationExpires (record_of r)"
      "rec_Generation rc = ai_Generation inp"
  | (settled) r where "request_of s' i = Some r" "r_attempt_token_hash r = Some attempt" "r_generation r = ai_Generation inp"
      "r_state r \<in> {''submitted'', ''consumed'', ''cancelled''}" "rec_Generation rc = ai_Generation inp"
proof -
  from assms(1) obtain row s0 where b: "beginTx st e 0 i token False s = (Inr row, s0)"
    by (auto simp: finalizeAttempt_def split: prod.splits sum.splits)
  from b assms(2) obtain r where r: "request_of s0 i = Some r" "row = record_of r" "distinct (map r_id (requests s0))"
    by (rule beginTx_row_steps)
  have g: "r_generation r = ai_Generation inp" "r_attempt_token_hash r = Some attempt"
    using assms(1) b r by (auto simp: finalizeAttempt_def objectAttemptTx_def record_of_def split: if_splits)
  show thesis
  proof (cases "r_state r = ''uploading''")
    case False
    with assms(1) b r g have "s' = s0" "settled_receipt e 20 row = Inr rc"
      by (auto simp: finalizeAttempt_def objectAttemptTx_def record_of_def split: if_splits)
    with r g show thesis
      by (intro settled [of r]) (auto simp: settled_receipt_def record_of_def split: if_splits option.splits)
  next
    case True
    let ?p = "\<lambda>r. r_id r = i \<and> r_state r = ''uploading'' \<and> r_generation r = ai_Generation inp \<and>
      r_final_key r = Some (case r_final_key a of None \<Rightarrow> [] | Some k \<Rightarrow> k)"
    from True assms(1) b r g obtain s1 u where x: "update_requests ?p accepted_row s0 = Some s1"
      "sql_count ?p (requests s0) = 1"
      "enqueueObjectTx (rq_hasOutbox st) (rq_subject st) e (case r_upload_key a of None \<Rightarrow> [] | Some k \<Rightarrow> k)
         ReasonOrphan (clock e 21) s1 = (Inr u, s')"
      "r_final_key r = r_final_key a" "r_ciphertext_sha256 r = r_ciphertext_sha256 a" "clock e 22 < rr_reservationExpires row"
      "rec_Generation rc = ai_Generation inp"
      by (auto simp: finalizeAttempt_def objectAttemptTx_def record_of_def Let_def exec_Some dest!: requireTransition_Inr
          split: if_splits option.splits sum.splits prod.splits)
    have "?p r"
      by (rule sql_count_1_row [OF r(3) x(2)]) (use r(1) in auto)
    then have "request_of s1 i = Some (accepted_row r)"
      using update_requests_row [OF x(1), of i] r(1) by (simp add: accepted_row_def)
    then have "request_of s' i = Some (accepted_row r)"
      using enqueueObjectTx_frame [OF x(3)] by simp
    with True r g x show thesis by (intro accepted [of s0 r]) auto
  qed
qed

lemma uploading_step:
  assumes "request_step x y" "r_state r = ''uploading''"
    "x = r \<or> x = accepted_row r \<or> r_generation r < r_generation x \<or> r_state x \<in> {''unavailable'', ''cancelled'', ''consumed''}"
  shows "y = r \<or> y = accepted_row r \<or> r_generation r < r_generation y \<or> r_state y \<in> {''unavailable'', ''cancelled'', ''consumed''}"
  using assms by (induction rule: request_step.induct) (auto simp: request_rows)

lemma uploading_steps:
  assumes "request_step\<^sup>*\<^sup>* r r'" "r_state r = ''uploading''"
  shows "r' = r \<or> r' = accepted_row r \<or> r_generation r < r_generation r' \<or> r_state r' \<in> {''unavailable'', ''cancelled'', ''consumed''}"
  using assms by (induction rule: rtranclp_induct) (auto dest: uploading_step)

text \<open>The attempt a finalize works on, as its first transaction read it.\<close>

lemma FinalizeRequest_cases:
  assumes "FinalizeRequest st svc finalizing meanwhile e e2 i token inp s = ((res, s'), w)" "distinct (map r_id (requests s))"
  obtains (refused) "isl res" "w = None"
  | (settled) r rc where "w = None" "request_of s' i = Some r" "r_generation r = ai_Generation inp"
      "r_state r \<in> {''submitted'', ''consumed'', ''cancelled''}" "res = Inr rc" "rec_Generation rc = ai_Generation inp"
  | (joined) s0 a call where "evolves s s0" "request_of s0 i = Some a" "r_state a = ''uploading''"
      "r_generation a = ai_Generation inp" "finalizing i = Some call" "w = None" "await_call st i call (meanwhile s0) = (res, s')"
  | (copied) s0 a attempt err where "evolves s s0" "request_of s0 i = Some a" "r_state a = ''uploading''"
      "r_generation a = ai_Generation inp" "r_attempt_token_hash a = Some attempt" "r_final_key a \<noteq> None" "r_upload_key a \<noteq> None"
      "finalizing i = None" "copyVerified svc e2 a = (err, w)"
      "err \<noteq> None \<Longrightarrow> isl res"
      "err = None \<Longrightarrow> finalizeAttempt st e2 i token inp a attempt (meanwhile s0) = (res, s')"
proof -
  obtain b s0 where b: "beginTx st e 0 i token False s = (b, s0)" by fastforce
  show thesis
  proof (cases "\<exists>attempt row. validateAttempt inp = Inr attempt \<and> b = Inr row")
    case False
    then show thesis
      using assms(1) b by (intro refused; cases b) (auto simp: FinalizeRequest_def split: sum.splits)
  next
    case True
    then obtain attempt row where v: "validateAttempt inp = Inr attempt" "b = Inr row" by blast
    from b [unfolded v(2)] assms(2) obtain a where a: "request_of s0 i = Some a" "row = record_of a"
      by (rule beginTx_row_steps)
    have ev: "evolves s s0"
      using b assms(2) by (rule beginTx_evolves)
    show thesis
    proof (cases "fails e ''read attempt'' \<or> ai_Generation inp \<noteq> rr_generation row \<or> Some attempt \<noteq> r_attempt_token_hash a")
      case True
      then show thesis
        using assms(1) b v a by (intro refused) (auto simp: FinalizeRequest_def objectAttemptTx_def split: if_splits)
    next
      case g: False
      show thesis
      proof (cases "r_state a = ''uploading''")
        case False
        with assms(1) b v a g have "res = settled_receipt e 20 row" "s' = s0" "w = None"
          by (auto simp: FinalizeRequest_def objectAttemptTx_def record_of_def split: if_splits)
        with a g refused settled [of a] show thesis
          by (cases res) (auto simp: settled_receipt_def record_of_def split: if_splits option.splits)
      next
        case up: True
        show thesis
        proof (cases "\<exists>x. copyVerified svc e2 a = x \<and> r_upload_key a \<noteq> None \<and> r_final_key a \<noteq> None \<and> rq_hasObjects st \<and>
            commit_error e 20 (rr_expires row) = None \<and>
            \<not> (case r_size_bytes a of None \<Rightarrow> True | Some n \<Rightarrow> n < 0 \<or> n > rq_MaxObjectBytes st)")
          case False
          then show thesis
            using assms(1) b v a g up by (intro refused)
              (auto simp: FinalizeRequest_def objectAttemptTx_def record_of_def split: if_splits option.splits)
        next
          case ready: True
          show thesis
          proof (cases "finalizing i")
            case (Some call)
            with ready assms(1) b v a g up have "w = None" "isl res \<or> await_call st i call (meanwhile s0) = (res, s')"
              by (auto simp: FinalizeRequest_def objectAttemptTx_def record_of_def split: option.splits if_splits)
            with Some ev a g up refused show thesis
              by (cases "isl res") (auto intro!: joined [of s0 a call] simp: record_of_def)
          next
            case None
          obtain err w' where c: "copyVerified svc e2 a = (err, w')" by fastforce
          with ready None assms(1) b v a g up have "w = w'" "err \<noteq> None \<Longrightarrow> isl res"
            "err = None \<Longrightarrow> finalizeAttempt st e2 i token inp a attempt (meanwhile s0) = (res, s')"
            by (auto simp: FinalizeRequest_def objectAttemptTx_def record_of_def split: option.splits)
          with c ready None ev a g up show thesis
            by (intro copied [of s0 a attempt err]) (auto simp: record_of_def)
          qed
        qed
      qed
    qed
  qed
qed

text \<open>The generation a row is in can only grow while the database evolves.\<close>

lemma evolves_generation:
  assumes "evolves s s'" "request_of s i = Some a" "request_of s' i = Some r"
  shows "r_generation a \<le> r_generation r"
  using evolves_row [OF assms(1,2)] assms(3) life_rtrancl(1) [OF request_steps_life]
  by (fastforce simp: stage_of_def)

text \<open>What the success of a second transaction means: the row is settled in the generation the receipt names.\<close>

definition settled_in :: "api \<Rightarrow> string \<Rightarrow> int \<Rightarrow> bool" where
  "settled_in s i g = (case request_of s i of
     None \<Rightarrow> False
   | Some r \<Rightarrow> r_generation r = g \<and> r_state r \<in> {''submitted'', ''consumed'', ''cancelled''})"

lemma finalizeAttempt_settles:
  assumes "finalizeAttempt st e i token inp a attempt s = (Inr rc, s')" "distinct (map r_id (requests s))"
  shows "settled_in s' i (rec_Generation rc) \<and> rec_Generation rc = ai_Generation inp"
  using assms by (cases rule: finalizeAttempt_Inr) (auto simp: settled_in_def accepted_row_def)

lemma await_call_settles:
  assumes "await_call st i call s = (Inr rc, s')" "distinct (map r_id (requests s))"
  shows "settled_in s' i (rec_Generation rc) \<and> rec_Generation rc = ai_Generation (fc_input call)"
proof -
  from assms(1) have "finalizeAttempt st (fc_env call) i (fc_token call) (fc_input call) (fc_row call) (fc_attempt call) s =
      (Inr rc, s')"
    by (simp add: await_call_def split: option.splits)
  then show ?thesis using assms(2) by (rule finalizeAttempt_settles)
qed

text \<open>After its own copy, the row a finalize accepted is the one whose object it copied.\<close>

lemma copied_row:
  assumes "evolves s0 s'" "request_of s0 i = Some a" "r_state a = ''uploading''" "request_of s' i = Some r"
    "r_state r = ''submitted''" "r_generation r = r_generation a"
  shows "r_final_key r = r_final_key a \<and> r_size_bytes r = r_size_bytes a \<and> r_ciphertext_sha256 r = r_ciphertext_sha256 a"
proof -
  from assms(1,2,4) have "request_step\<^sup>*\<^sup>* a r"
    by (auto elim: evolves_row)
  from uploading_steps [OF this assms(3)] assms(3,5,6) show ?thesis
    by (auto simp: accepted_row_def)
qed

text \<open>
  C9: Only verified bytes reach the object an owner can open, and a success is never made up. Whatever a
  finalize writes to the bucket, even when it fails afterwards, goes to the final key of the reserved
  attempt and is an age file with exactly the reserved length and SHA-256. When it succeeds, the request
  is settled in the generation its receipt names; if it then waits for its owner after a copy of this
  call, its row names that key, length and checksum. That generation is the caller's own, unless another
  call for the same id was in flight: then nothing is copied by this call, and the receipt is that of the
  call it waited for, whose generation may be a later one.
\<close>

theorem finalize_verified:
  assumes "requests_ok s" "\<And>t. evolves s t \<Longrightarrow> evolves t (meanwhile t)"
    and "FinalizeRequest st svc finalizing meanwhile e e2 i token inp s = ((res, s'), w)"
  shows "(\<forall>key body. w = Some (key, body) \<longrightarrow> finalizing i = None \<and> isAgeFile body \<and>
      (\<exists>s0 a. evolves s s0 \<and> request_of s0 i = Some a \<and> r_state a = ''uploading'' \<and> r_generation a = ai_Generation inp \<and>
        r_final_key a = Some key \<and> r_size_bytes a = Some (int (length body)) \<and> r_ciphertext_sha256 a = Some (sha256 body))) \<and>
    (\<forall>rc. res = Inr rc \<longrightarrow> (\<exists>r. request_of s' i = Some r \<and> r_generation r = rec_Generation rc \<and>
      r_state r \<in> {''submitted'', ''consumed'', ''cancelled''} \<and>
      (rec_Generation rc = ai_Generation inp \<or>
        ai_Generation inp < rec_Generation rc \<and> (\<exists>call. finalizing i = Some call \<and> rec_Generation rc = ai_Generation (fc_input call))) \<and>
      (\<forall>key body. w = Some (key, body) \<and> r_state r = ''submitted'' \<longrightarrow> r_final_key r = Some key \<and>
        r_size_bytes r = Some (int (length body)) \<and> r_ciphertext_sha256 r = Some (sha256 body))))"
  using assms(3) requests_ok_distinct [OF assms(1)]
proof (cases rule: FinalizeRequest_cases)
  case (joined s0 a call)
  have m: "evolves s0 (meanwhile s0)"
    using assms(2) joined(1) .
  have d: "distinct (map r_id (requests (meanwhile s0)))"
    using distinct_ids_evolves [OF evolves_trans [OF joined(1) m] requests_ok_distinct [OF assms(1)]] .
  have ev: "evolves s0 s'"
    using evolves_trans [OF m await_call_evolves [OF d, of st i call]] joined(7) by simp
  have "\<exists>r. request_of s' i = Some r \<and> r_generation r = rec_Generation rc \<and> r_state r \<in> {''submitted'', ''consumed'', ''cancelled''} \<and>
      rec_Generation rc = ai_Generation (fc_input call) \<and> ai_Generation inp \<le> rec_Generation rc" if "res = Inr rc" for rc
    using await_call_settles [OF joined(7) [unfolded that] d] evolves_generation [OF ev joined(2)] joined(4)
    by (fastforce simp: settled_in_def split: option.splits)
  with joined(5,6) show ?thesis by fastforce
next
  case (copied s0 a attempt err)
  have wr: "r_final_key a = Some key \<and> r_size_bytes a = Some (int (length body)) \<and>
      r_ciphertext_sha256 a = Some (sha256 body) \<and> isAgeFile body" if "w = Some (key, body)" for key body
    using copyVerified_writes [of svc e2 a err key body] copied(6,9) that by (auto simp: isAgeFile_take)
  have m: "evolves s0 (meanwhile s0)"
    using assms(2) copied(1) .
  have d: "distinct (map r_id (requests (meanwhile s0)))"
    using distinct_ids_evolves [OF evolves_trans [OF copied(1) m] requests_ok_distinct [OF assms(1)]] .
  have fin: "\<exists>r. request_of s' i = Some r \<and> r_generation r = rec_Generation rc \<and>
      r_state r \<in> {''submitted'', ''consumed'', ''cancelled''} \<and> rec_Generation rc = ai_Generation inp \<and>
      (r_state r = ''submitted'' \<longrightarrow> r_final_key r = r_final_key a \<and> r_size_bytes r = r_size_bytes a \<and>
        r_ciphertext_sha256 r = r_ciphertext_sha256 a)" if "res = Inr rc" for rc
  proof -
    from that copied(10) have n: "err = None" by (metis sum.disc(2))
    have "evolves s0 s'"
      using evolves_trans [OF m finalizeAttempt_evolves [OF d, of st e2 i token inp a attempt]] copied(11) [OF n] by simp
    from copied_row [OF this copied(2,3)] finalizeAttempt_settles [OF copied(11) [OF n, unfolded that] d] copied(4) show ?thesis
      by (auto simp: settled_in_def split: option.splits)
  qed
  have gone: "\<exists>s0 a. evolves s s0 \<and> request_of s0 i = Some a \<and> r_state a = ''uploading'' \<and> r_generation a = ai_Generation inp \<and>
      r_final_key a = Some key \<and> r_size_bytes a = Some (int (length body)) \<and> r_ciphertext_sha256 a = Some (sha256 body)"
    if "w = Some (key, body)" for key body
    using wr [OF that] copied(1-4) by blast
  show ?thesis
    using wr gone fin copied(8) by (intro conjI allI impI) (blast, blast, blast, fastforce)
next
  case (settled r rc)
  then show ?thesis by auto
qed auto

text \<open>A caller of an ended generation that passed its first transaction before the generation ended, and
  found a call of the next one in flight, is answered with that call's success.\<close>

lemma finalize_joins:
  assumes "validateAttempt inp = Inr attempt" "beginTx st e 0 i token False s = (Inr row, s0)"
    "objectAttemptTx e i s0 = Inr a" "ai_Generation inp = rr_generation row" "r_attempt_token_hash a = Some attempt"
    "rr_state row = ''uploading''" "rq_hasObjects st" "r_upload_key a \<noteq> None" "r_final_key a \<noteq> None"
    "r_size_bytes a = Some n" "0 \<le> n" "n \<le> rq_MaxObjectBytes st" "commit_error e 20 (rr_expires row) = None"
    "finalizing i = Some call" "\<not> fails e2 ''await finalize''"
    "await_call st i call (meanwhile s0) = (Inr rc, s')"
  shows "FinalizeRequest st svc finalizing meanwhile e e2 i token inp s = ((Inr rc, s'), None)"
  using assms by (simp add: FinalizeRequest_def)

text \<open>
  C32: Starting a request transaction ends after at most two rounds. The first round may find a
  reservation past its deadline and end it; the row it leaves is not uploading, so the second round
  returns. More fuel changes nothing. The rounds are taken one after the other: a call that reserves
  again between them could make the next round end that reservation too, once it has run out.
\<close>

theorem begin_terminates:
  assumes "requests_ok s"
  shows "begin_n 2 st e k i token owner s \<noteq> None \<and>
    begin_n (Suc (Suc n)) st e k i token owner s = begin_n 2 st e k i token owner s"
  using requests_ok_distinct [OF assms] by (rule begin_enough)

end
