(* ===== verification/Request_Sweep.thy ===== *)
theory Request_Sweep
  imports Request_Promises
begin

text \<open>
  The expiry pass and the bucket scan of request links: what they remove, what they queue, and what they
  never touch.
\<close>

subsection \<open>Texts of instants\<close>

definition request_times_ok :: "api \<Rightarrow> bool" where
  "request_times_ok s \<longleftrightarrow> (\<forall>r\<in>set (requests s). valid_time (r_expires_at r) \<and>
     (\<forall>t. r_reservation_expires_at r = Some t \<or> r_consumed_at r = Some t \<longrightarrow> valid_time t))"

lemma text_le_iff: "valid_time a \<Longrightarrow> valid_time b \<Longrightarrow> text_le a b \<longleftrightarrow> a \<le> b"
  by (simp add: text_le_def fixed.col_le)

subsection \<open>The expiry pass\<close>

text \<open>
  A committed expiry pass does exactly this: each selected reservation past its deadline is ended, each
  selected request past its expiry is deleted with its inline body, every other row is unchanged, and one
  delete job is queued, in order, for each object key of those rows. The selection takes only rows that are
  due at \<open>now\<close>, never an opened object inside its streaming grace, and leaves none out unless the batch is
  full.
\<close>

theorem purge_expired:
  assumes "requests_ok s" "request_times_ok s" "valid_time now" "valid_time (now - openObjectGrace)"
    and "PurgeExpiredTx outb subject e now limit s = (Inr u, s')"
  shows "\<exists>L X rs1 rs2.
    requests s' = sql_delete (\<lambda>r. r_id r \<in> set X) (sql_update (\<lambda>r. r_id r \<in> set L) ended (requests s)) \<and>
    request_payloads s' = sql_delete (\<lambda>q. rp_request_id q \<in> set X) (request_payloads s) \<and>
    outbox_events s' = outbox_events s @ rs1 @ rs2 \<and>
    delete_jobs ReasonOrphan now (concat (map (keys_of s) L)) rs1 \<and>
    delete_jobs ReasonExpired now (concat (map (keys_of s) X)) rs2 \<and>
    (\<forall>r\<in>set (requests s).
      (r_id r \<in> set L \<longrightarrow> r_state r = ''uploading'' \<and> now < r_expires_at r \<and> (\<exists>t. r_reservation_expires_at r = Some t \<and> t \<le> now)) \<and>
      (r_id r \<in> set X \<longrightarrow> r_expires_at r \<le> now \<and>
         \<not> (r_state r = ''consumed'' \<and> r_final_key r \<noteq> None \<and> (\<exists>t. r_consumed_at r = Some t \<and> now - openObjectGrace < t))) \<and>
      (int (length L) < limit \<and> r_state r = ''uploading'' \<and> now < r_expires_at r \<and>
         (\<exists>t. r_reservation_expires_at r = Some t \<and> t \<le> now) \<longrightarrow> r_id r \<in> set L) \<and>
      (int (length X) < limit \<and> r_expires_at r \<le> now \<and> r_state r \<noteq> ''consumed'' \<longrightarrow> r_id r \<in> set X))"
proof -
  let ?L = "map fst (lapsed_reservations now limit s)" and ?X = "expired_requests now limit s"
  have d: "distinct (map r_id (requests s))" and fk: "\<forall>q\<in>set (request_payloads s). rp_request_id q \<in> r_id ` set (requests s)"
    using assms(1) by (auto simp: requests_ok_def)
  from PurgeExpiredTx_effect [OF assms(5) d fk] obtain rs1 rs2 where eff:
    "requests s' = sql_delete (\<lambda>r. r_id r \<in> set ?X) (sql_update (\<lambda>r. r_id r \<in> set ?L) ended (requests s))"
    "request_payloads s' = sql_delete (\<lambda>q. rp_request_id q \<in> set ?X) (request_payloads s)"
    "outbox_events s' = outbox_events s @ rs1 @ rs2"
    "delete_jobs ReasonOrphan now (concat (map (keys_of s) ?L)) rs1"
    "delete_jobs ReasonExpired now (concat (map (keys_of s) ?X)) rs2"
    by auto
  have lap: "lapsed now r \<longleftrightarrow> r_state r = ''uploading'' \<and> now < r_expires_at r \<and>
      (\<exists>t. r_reservation_expires_at r = Some t \<and> t \<le> now)" if "r \<in> set (requests s)" for r
    using that assms(2,3) by (auto simp: lapsed_def request_times_ok_def text_le_iff split: option.splits)
  have pur: "purgeable now r \<Longrightarrow> r_expires_at r \<le> now \<and>
      \<not> (r_state r = ''consumed'' \<and> r_final_key r \<noteq> None \<and> (\<exists>t. r_consumed_at r = Some t \<and> now - openObjectGrace < t))"
    "r_expires_at r \<le> now \<Longrightarrow> r_state r \<noteq> ''consumed'' \<Longrightarrow> purgeable now r" if "r \<in> set (requests s)" for r
    using that assms(2,3,4) by (auto simp: purgeable_def request_times_ok_def text_le_iff split: option.splits)
  have L: "r_id r \<in> set ?L \<longrightarrow> lapsed now r" "int (length ?L) < limit \<and> lapsed now r \<longrightarrow> r_id r \<in> set ?L"
    if "r \<in> set (requests s)" for r
    using sql_top_keys [OF d that, of _ "nat limit" "lapsed now"]
    by (auto simp: lapsed_reservations_def image_image zless_nat_eq_int_zless)
  have X: "r_id r \<in> set ?X \<longrightarrow> purgeable now r" "int (length ?X) < limit \<and> purgeable now r \<longrightarrow> r_id r \<in> set ?X"
    if "r \<in> set (requests s)" for r
    using sql_top_keys [OF d that, of _ "nat limit" "purgeable now"]
    by (auto simp: expired_requests_def zless_nat_eq_int_zless)
  have "(r_id r \<in> set ?L \<longrightarrow> r_state r = ''uploading'' \<and> now < r_expires_at r \<and> (\<exists>t. r_reservation_expires_at r = Some t \<and> t \<le> now)) \<and>
      (r_id r \<in> set ?X \<longrightarrow> r_expires_at r \<le> now \<and>
         \<not> (r_state r = ''consumed'' \<and> r_final_key r \<noteq> None \<and> (\<exists>t. r_consumed_at r = Some t \<and> now - openObjectGrace < t))) \<and>
      (int (length ?L) < limit \<and> r_state r = ''uploading'' \<and> now < r_expires_at r \<and>
         (\<exists>t. r_reservation_expires_at r = Some t \<and> t \<le> now) \<longrightarrow> r_id r \<in> set ?L) \<and>
      (int (length ?X) < limit \<and> r_expires_at r \<le> now \<and> r_state r \<noteq> ''consumed'' \<longrightarrow> r_id r \<in> set ?X)"
    if r: "r \<in> set (requests s)" for r
    using L [OF r] X [OF r] lap [OF r] pur [OF r] by (intro conjI) blast+
  note selected = this
  show ?thesis
    by (rule exI [of _ ?L], rule exI [of _ ?X], rule exI [of _ rs1], rule exI [of _ rs2],
        rule conjI [OF eff(1)], rule conjI [OF eff(2)], rule conjI [OF eff(3)], rule conjI [OF eff(4)],
        rule conjI [OF eff(5)], rule ballI, rule selected)
qed

subsection \<open>The scan\<close>

text \<open>The objects a request still needs: a submitted one, both keys of a live reservation, and an opened one
  that may still be streaming.\<close>

definition request_needs :: "time \<Rightarrow> string \<Rightarrow> request_row \<Rightarrow> bool" where
  "request_needs now key r \<longleftrightarrow>
     (now < r_expires_at r \<and> r_state r = ''submitted'' \<and> r_final_key r = Some key) \<or>
     (now < r_expires_at r \<and> r_state r = ''uploading'' \<and> (\<exists>t. r_reservation_expires_at r = Some t \<and> now < t) \<and>
        (r_upload_key r = Some key \<or> r_final_key r = Some key)) \<or>
     (r_state r = ''consumed'' \<and> r_final_key r = Some key \<and> (\<exists>t. r_consumed_at r = Some t \<and> now < t + openObjectGrace))"

definition request_needed :: "time \<Rightarrow> api \<Rightarrow> string \<Rightarrow> bool" where
  "request_needed now s key \<longleftrightarrow> valid_time now \<and> valid_time (now - openObjectGrace) \<and>
     (\<exists>r\<in>set (requests s). request_needs now key r)"

lemma request_needs_protects:
  assumes "valid_time now" "valid_time (now - openObjectGrace)" "request_times_ok s" "r \<in> set (requests s)"
    "request_needs now key r"
  shows "request_protects now key r"
proof -
  have x: "\<not> text_le (r_expires_at r) now \<longleftrightarrow> now < r_expires_at r"
    using assms(1,3,4) by (auto simp: request_times_ok_def text_le_iff)
  have t: "\<not> text_le t now \<longleftrightarrow> now < t" if "r_reservation_expires_at r = Some t" for t
    using that assms(1,3,4) by (auto simp: request_times_ok_def text_le_iff)
  have c: "\<not> text_le t (now - openObjectGrace) \<longleftrightarrow> now < t + openObjectGrace" if "r_consumed_at r = Some t" for t
    using that assms(2,3,4) by (auto simp: request_times_ok_def text_le_iff)
  from assms(5) show ?thesis
    unfolding request_needs_def request_protects_def
    by (elim disjE conjE exE) (simp_all add: x t c)
qed

interpretation request_guard: object_guard ObjectPrefix protectRequestObject request_needed request_times_ok
  by unfold_locales
    (auto simp: request_needed_def protectRequestObject_def list_ex_iff dest: request_needs_protects split: if_splits)

lemma ReconcileRequests_Inr:
  assumes "ReconcileRequests st svc meanwhile e limit s = (Inr n, s')"
  obtains (idle) "n = 0" "s' = s \<or> s' = meanwhile s"
  | (scanned) page pending jobs where
      "List_objects svc ObjectPrefix (continuation_token (request_cursor s)) (min limit 1000) = Inr page"
      "cur_generation (request_cursor (meanwhile s)) = cur_generation (request_cursor s)"
      "reconcile_keys ObjectPrefix (protectRequestObject e (clock e 20) (meanwhile s)) (rq_hasOutbox st) (rq_subject st) e
         (clock e 20) (Keys page) (request_pending (meanwhile s), outbox_events (meanwhile s)) = (Inr n, (pending, jobs))"
      "s' = (meanwhile s)\<lparr>request_cursor := \<lparr>continuation_token = NextCursor page,
         cur_generation = cur_generation (request_cursor s) + 1\<rparr>, request_pending := pending, outbox_events := jobs\<rparr>"
proof -
  let ?L = "List_objects svc ObjectPrefix (continuation_token (request_cursor s)) (min limit 1000)"
  show thesis
  proof (cases "rq_hasObjects st")
    case False
    with assms show thesis by (intro idle) (auto simp: ReconcileRequests_def)
  next
    case True
    with assms obtain page where page: "?L = Inr page"
      by (cases ?L) (auto simp: ReconcileRequests_def Let_def split: if_splits)
    show thesis
    proof (cases "cur_generation (request_cursor (meanwhile s)) = cur_generation (request_cursor s)")
      case False
      with True page assms show thesis
        by (intro idle) (simp_all add: ReconcileRequests_def Let_def split: if_splits)
    next
      case gen: True
      obtain res pending jobs where k: "reconcile_keys ObjectPrefix (protectRequestObject e (clock e 20) (meanwhile s))
          (rq_hasOutbox st) (rq_subject st) e (clock e 20) (Keys page)
          (request_pending (meanwhile s), outbox_events (meanwhile s)) = (res, (pending, jobs))"
        by (metis surj_pair)
      with gen True page assms have "res = Inr n" "s' = (meanwhile s)\<lparr>request_cursor := \<lparr>continuation_token = NextCursor page,
         cur_generation = cur_generation (request_cursor s) + 1\<rparr>, request_pending := pending, outbox_events := jobs\<rparr>"
        by (simp_all add: ReconcileRequests_def Let_def split: if_splits sum.splits option.splits)
      with k page gen show thesis by (intro scanned) auto
    qed
  qed
qed


end
