(* ===== verification/Request_Examples.thy ===== *)
theory Request_Examples
  imports Request_Sweep Secret_Delivery
begin

text \<open>
  Concrete request links on which the theorems about requests are applied: a store, a created request, a
  submission, a reservation with its uploaded object, and rows that are due.
\<close>

definition example_request_store :: request_store where
  "example_request_store = \<lparr>rq_hasObjects = True, rq_hasOutbox = True, rq_PayloadInlineMaxBytes = 65536,
     rq_MaxObjectBytes = 1000000, rq_MinTTLSeconds = 60, rq_DefaultTTLSeconds = 3600, rq_MaxTTLSeconds = 86400,
     rq_subject = ''jobs'', rq_parseHybridRecipient = Some\<rparr>"

definition example_request_env :: env where
  "example_request_env = \<lparr>fails = no_faults, clock = (\<lambda>_. 100 * Minute),
     draw = (\<lambda>l. if l = ''request capabilities''
                  then Some (replicate 16 CHR ''a'' @ replicate 32 CHR ''b'' @ replicate 32 CHR ''c'')
                  else Some (take 18 (rev l @ replicate 18 CHR ''x'')))\<rparr>"

definition example_key :: string where "example_key = ''age1pq1example''"

definition example_request_id :: string where "example_request_id = rawurl_encode (replicate 16 CHR ''a'')"
definition example_submit_token :: string where "example_submit_token = rawurl_encode (replicate 32 CHR ''b'')"
definition example_owner_token :: string where "example_owner_token = rawurl_encode (replicate 32 CHR ''c'')"
definition example_attempt_token :: string where "example_attempt_token = rawurl_encode (replicate 32 CHR ''d'')"

definition example_request_expiry :: time where "example_request_expiry = 160 * Minute"

definition example_waiting_row :: request_row where
  "example_waiting_row = new_request_row example_request_id example_key (rawurl_encode (sha256 example_key))
     (sha256 (replicate 32 CHR ''b'')) (sha256 (replicate 32 CHR ''c'')) example_request_expiry"

definition example_created_state :: api where
  "example_created_state = MigrateAPI\<lparr>requests := [example_waiting_row]\<rparr>"

definition example_created :: request_created where
  "example_created = \<lparr>rc_ID = example_request_id, rc_ExpiresAt = example_request_expiry,
     rc_SubmissionToken = example_submit_token, rc_RetrievalToken = example_owner_token\<rparr>"

lemmas example_request_defs = example_request_store_def example_request_env_def example_request_expiry_def
  duration_units

lemma example_env_facts [simp]:
  "fails example_request_env = no_faults" "clock example_request_env n = 6000000000000"
  by (simp_all add: example_request_env_def Minute_def)

lemma example_request_store_simps [simp]:
  "rq_hasObjects example_request_store" "rq_hasOutbox example_request_store" "rq_subject example_request_store = ''jobs''"
  "rq_MaxObjectBytes example_request_store = 1000000"
  by (simp_all add: example_request_store_def)

lemma example_tokens [simp]:
  "tokenHash example_submit_token = Inr (sha256 (replicate 32 CHR ''b''))"
  "tokenHash example_owner_token = Inr (sha256 (replicate 32 CHR ''c''))"
  "tokenHash example_attempt_token = Inr (sha256 (replicate 32 CHR ''d''))"
  by (simp_all add: example_submit_token_def example_owner_token_def example_attempt_token_def tokenHash_token)

lemma example_waiting_row_simps [simp]:
  "r_id example_waiting_row = example_request_id" "r_state example_waiting_row = ''waiting''"
  "r_generation example_waiting_row = 1" "r_expires_at example_waiting_row = 9600000000000"
  "r_retrieval_token_hash example_waiting_row = sha256 (replicate 32 CHR ''c'')"
  "r_submission_token_hash example_waiting_row = sha256 (replicate 32 CHR ''b'')"
  "r_upload_key example_waiting_row = None" "r_final_key example_waiting_row = None"
  "r_consumed_at example_waiting_row = None" "r_reservation_expires_at example_waiting_row = None"
  "r_storage_backend example_waiting_row = StorageSQLite" "r_attempt_token_hash example_waiting_row = None"
  "r_attempt_body_hash example_waiting_row = None" "r_kind example_waiting_row = None"
  "r_size_bytes example_waiting_row = None" "r_envelope example_waiting_row = None"
  "r_ciphertext_sha256 example_waiting_row = None"
  by (simp_all add: example_waiting_row_def new_request_row_def example_request_expiry_def Minute_def)

lemma example_create:
  "CreateRequest example_request_store example_request_env example_key None MigrateAPI =
     (Inr example_created, example_created_state)"
proof -
  have "take 16 (replicate 16 CHR ''a'' @ u) = replicate 16 CHR ''a''"
    "take 32 (drop 16 (replicate 16 CHR ''a'' @ replicate 32 CHR ''b'' @ v)) = replicate 32 CHR ''b''"
    "drop 48 (replicate 16 CHR ''a'' @ replicate 32 CHR ''b'' @ v) = v" for u v :: string
    by (simp_all)
  moreover have "publicKeyFingerprint example_request_store example_key = Inr (rawurl_encode (sha256 example_key))"
    by (simp add: publicKeyFingerprint_def example_request_store_def example_key_def maxRecipientChars_def
        recipientPrefix_def hasPrefix_def)
  moreover have "wrap64 (3600 * Second) = 3600000000000"
    by (simp add: wrap64_def Second_def)
  moreover have "request_check example_waiting_row"
    by (simp add: request_check_def hash_column_def)
  moreover have "new_request_row example_request_id example_key (rawurl_encode (sha256 example_key))
      (sha256 (replicate 32 CHR ''b'')) (sha256 (replicate 32 CHR ''c'')) 9600000000000 = example_waiting_row"
    by (simp add: example_waiting_row_def example_request_expiry_def Minute_def)
  ultimately show ?thesis
    unfolding CreateRequest_def Let_def
    by (simp add: example_request_store_def example_request_env_def exec_def insert_request_def
        example_created_def example_created_state_def MigrateAPI_def Let_def sql_insert_def
        flip: example_request_id_def example_submit_token_def example_owner_token_def)
      (simp add: hash_or_nil_def example_request_expiry_def Minute_def flip: example_waiting_row_def)
qed

lemma example_created_ok: "requests_ok example_created_state"
  using requests_ok_CreateRequest [OF requests_ok_MigrateAPI, of example_request_store example_request_env example_key None]
  by (simp add: example_create)

lemma example_created_row: "request_of example_created_state example_request_id = Some example_waiting_row"
  by (simp add: example_created_state_def sql_row_def)

subsection \<open>A submission\<close>

definition example_submission :: submit_input where
  "example_submission = \<lparr>si_Generation = 1, si_AttemptToken = example_attempt_token, si_Kind = ''text'', si_SizeBytes = 22,
     si_Envelope = \<lparr>raw_len = 13, raw_members = Some [(''version'', JInt 2)]\<rparr>, si_Ciphertext = std_encode ageMagic\<rparr>"

definition example_envelope :: envelope where "example_envelope = \<lparr>Version = 2, EnvFilename = []\<rparr>"

lemma example_validSubmission:
  "validateSubmission example_request_store example_submission =
     Inr (sha256 (replicate 32 CHR ''d''), example_envelope, ageMagic)"
proof -
  have l: "length (std_encode ageMagic) = 32" "length ageMagic = 22"
    by (simp_all add: std_encode_def ageMagic_def)
  have "canonicalBase64 (std_encode ageMagic) 22 22 = Some ageMagic"
    unfolding canonicalBase64_def std_decode_strict_def std_decode_encode
    by (simp add: l std_encodedLen_def quot_def)
  moreover have "validateEnvelope (si_Envelope example_submission) ''text'' = Inr example_envelope"
    by (simp add: validateEnvelope_def example_submission_def EnvelopeMaxBytes_def DecodeObject_def unmarshal_envelope_def
        envelopeVersion_def example_envelope_def)
  moreover have "wrap64 (quot (wrap64 65538) 3 * 4) = 87384"
    by (simp add: wrap64_def quot_def)
  moreover have "isAgeFile ageMagic"
    by (simp add: isAgeFile_def hasPrefix_def)
  ultimately show ?thesis
    by (simp add: validateSubmission_def MaxGeneration_def example_request_store_def l)
      (simp add: example_submission_def l)
qed

definition example_digest :: bytes where
  "example_digest = submission_digest ''text'' 22 example_envelope (std_encode ageMagic)"

definition example_submitted_row :: request_row where
  "example_submitted_row = submitted_row (sha256 (replicate 32 CHR ''d'')) example_digest example_submission example_envelope
     example_waiting_row"

definition example_submitted_state :: api where
  "example_submitted_state = example_created_state\<lparr>requests := [example_submitted_row],
     request_payloads := [\<lparr>rp_request_id = example_request_id, rp_ciphertext = ageMagic\<rparr>]\<rparr>"

lemma length_digest: "length (submission_digest k n v c) = 32"
  by (simp add: submission_digest_def)

lemma example_submit:
  "Submit example_request_store example_request_env example_request_id example_submit_token example_submission
     example_created_state =
   (Inr \<lparr>rec_Generation = 1, rec_State = ''submitted''\<rparr>, example_submitted_state)"
proof -
  have b: "beginTx example_request_store example_request_env 0 example_request_id example_submit_token False
      example_created_state = (Inr (record_of example_waiting_row), example_created_state)"
    using example_created_row by (intro beginTx_ok) (simp_all add: capability_def)
  have si: "si_Generation example_submission = 1" "si_Kind example_submission = ''text''" "si_SizeBytes example_submission = 22"
    "si_Ciphertext example_submission = std_encode ageMagic"
    by (simp_all add: example_submission_def)
  have c: "commit_error example_request_env 20 9600000000000 = None"
    by (simp add: commit_error_def)
  have up: "update_requests (\<lambda>r. r_id r = example_request_id \<and> r_state r = ''waiting'' \<and> r_generation r = 1)
      (submitted_row (sha256 (replicate 32 CHR ''d'')) example_digest example_submission example_envelope) example_created_state =
      Some (example_created_state\<lparr>requests := [example_submitted_row]\<rparr>)"
    by (simp add: update_requests_def example_created_state_def MigrateAPI_def sql_update_def Let_def request_constraints_def
        request_check_def hash_column_def submitted_row_def si length_digest example_digest_def List.map_filter_simps
        example_submitted_row_def)
  have cnt: "sql_count (\<lambda>r. r_id r = example_request_id \<and> r_state r = ''waiting'' \<and> r_generation r = 1) (requests example_created_state) = 1"
    by (simp add: sql_count_def example_created_state_def)
  have pay: "insert_request_payload \<lparr>rp_request_id = example_request_id, rp_ciphertext = ageMagic\<rparr>
      (example_created_state\<lparr>requests := [example_submitted_row]\<rparr>) = Some example_submitted_state"
    by (simp add: insert_request_payload_def example_submitted_state_def example_created_state_def MigrateAPI_def Let_def
        sql_insert_def sql_row_def example_submitted_row_def submitted_row_def)
  show ?thesis
    unfolding Submit_def example_validSubmission sum.case prod.case Let_def b
    by (simp add: record_of_def si exec_def up [unfolded example_digest_def] cnt requireTransition_def pay c example_digest_def)
qed

subsection \<open>The theorems on these instances\<close>

theorem request_delivered_once_witness:
  "length (filter (\<lambda>(ev, res). delivers example_request_id ev res)
     (zip [ROpen example_s3 example_request_env example_request_env example_request_id example_owner_token,
           ROpen example_s3 example_request_env example_request_env example_request_id example_owner_token]
       (results (request_exec example_request_store) example_submitted_state
         [ROpen example_s3 example_request_env example_request_env example_request_id example_owner_token,
          ROpen example_s3 example_request_env example_request_env example_request_id example_owner_token]))) \<le> 1"
proof (rule request_delivered_once)
  show "requests_ok example_submitted_state"
    using requests_ok_request_exec [OF example_created_ok, of example_request_store
        "RSubmit example_request_env example_request_id example_submit_token example_submission"]
    by (simp add: other_def example_submit)
qed simp

theorem request_life_cycle_witness:
  "\<exists>r'. request_of (fst (request_exec example_request_store example_created_state
      (RSubmit example_request_env example_request_id example_submit_token example_submission))) example_request_id = Some r' \<and>
    life\<^sup>*\<^sup>* (stage_of example_waiting_row) (stage_of r') \<and> r_generation example_waiting_row \<le> r_generation r' \<and>
    r_generation r' \<le> MaxGeneration \<and>
    (r_state example_waiting_row \<in> {''consumed'', ''cancelled'', ''unavailable''} \<longrightarrow> stage_of r' = stage_of example_waiting_row) \<and>
    r_public_key r' = r_public_key example_waiting_row \<and> r_expires_at r' = r_expires_at example_waiting_row"
proof -
  let ?ev = "RSubmit example_request_env example_request_id example_submit_token example_submission"
  note c = request_life_cycle [where st = example_request_store and ev = ?ev, OF example_created_ok, THEN conjunct1, THEN spec, THEN mp,
      OF example_created_row]
  show ?thesis
  proof (cases "request_of (fst (request_exec example_request_store example_created_state ?ev)) example_request_id")
    case None
    with c show ?thesis by (simp only: option.case request_event.distinct simp_thms)
  next
    case (Some r')
    with c show ?thesis by (simp only: option.case) blast
  qed
qed

theorem request_capabilities_witness:
  "\<exists>fp. publicKeyFingerprint example_request_store example_key = Inr fp \<and>
      Instructions example_request_store example_request_env (rc_ID example_created) (rc_SubmissionToken example_created)
          example_created_state =
        (Inr \<lparr>in_PublicKey = example_key, in_Fingerprint = fp, in_ExpiresAt = rc_ExpiresAt example_created, in_Generation = 1,
              in_CanSubmit = True\<rparr>, example_created_state) \<and>
      Owner example_request_store example_request_env (rc_ID example_created) (rc_RetrievalToken example_created)
          example_created_state =
        (Inr \<lparr>os_PublicKey = example_key, os_Fingerprint = fp, os_ExpiresAt = rc_ExpiresAt example_created,
              os_State = ''waiting''\<rparr>, example_created_state)"
  by (rule request_capabilities [OF requests_ok_MigrateAPI example_create, THEN conjunct1])
    (simp_all add: example_created_def example_request_expiry_def Minute_def)

lemma example_submitted_lookup: "request_of example_submitted_state example_request_id = Some example_submitted_row"
  by (simp add: example_submitted_state_def sql_row_def example_submitted_row_def submitted_row_def)

theorem submission_sticks_witness:
  "Submit example_request_store example_request_env example_request_id example_submit_token example_submission
     example_submitted_state = (Inr \<lparr>rec_Generation = 1, rec_State = ''submitted''\<rparr>, example_submitted_state)"
proof -
  have "clock example_request_env n < r_expires_at r"
    if "request_of example_submitted_state example_request_id = Some r" for r n
    using that by (auto simp: example_submitted_lookup example_submitted_row_def submitted_row_def)
  from submission_sticks [OF example_created_ok example_submit evolves_refl example_validSubmission example_validSubmission
      refl example_env_facts(1) this] show ?thesis by simp
qed

theorem submit_open_roundtrip_witness:
  "\<exists>s2 r2. OpenRequest example_request_store example_s3 id example_request_env example_request_env example_request_id
      example_owner_token example_submitted_state =
      (Inr \<lparr>op_Kind = si_Kind example_submission, op_SizeBytes = si_SizeBytes example_submission,
            op_Envelope = example_envelope, op_Body = ageMagic, op_ObjectKey = []\<rparr>, s2) \<and>
    si_Ciphertext example_submission = std_encode ageMagic \<and> isAgeFile ageMagic \<and> request_of s2 example_request_id = Some r2 \<and>
    r_state r2 = ''consumed'' \<and> sql_row (\<lambda>q. rp_request_id q = example_request_id) (request_payloads s2) = None"
  by (rule submit_open_roundtrip [OF example_created_ok example_created_row _ example_submit example_validSubmission]) simp_all

definition example_second_generation :: api where
  "example_second_generation = MigrateAPI\<lparr>requests := [example_waiting_row\<lparr>r_generation := 2\<rparr>]\<rparr>"

theorem generation_fenced_witness:
  "isl (fst (Submit example_request_store example_request_env example_request_id example_submit_token example_submission
       example_second_generation)) \<and>
   isl (fst (Attempt example_request_store example_request_env example_request_id example_submit_token 1
       example_attempt_token example_second_generation))"
proof -
  have "requests_ok example_second_generation"
    by (simp add: requests_ok_def example_second_generation_def MigrateAPI_def Let_def request_constraints_def
        request_check_def hash_column_def request_row_ok_def inline_waiting_def List.map_filter_simps)
  moreover have "request_of example_second_generation example_request_id = Some (example_waiting_row\<lparr>r_generation := 2\<rparr>)"
    by (simp add: example_second_generation_def sql_row_def)
  moreover have "si_Generation example_submission = 1"
    by (simp add: example_submission_def)
  ultimately show ?thesis
    using generation_fenced [of example_second_generation example_request_id "example_waiting_row\<lparr>r_generation := 2\<rparr>" 1
        example_submission example_request_store example_request_env example_submit_token undefined example_s3 undefined Map.empty id
        example_request_env example_attempt_token]
    by simp
qed

theorem begin_terminates_witness:
  "begin_n 2 example_request_store example_request_env 0 example_request_id example_submit_token False example_created_state \<noteq> None \<and>
   begin_n (Suc (Suc 5)) example_request_store example_request_env 0 example_request_id example_submit_token False
     example_created_state =
   begin_n 2 example_request_store example_request_env 0 example_request_id example_submit_token False example_created_state"
  by (rule begin_terminates [OF example_created_ok])

subsection \<open>A reservation and its upload\<close>

definition example_upload_key :: string where "example_upload_key = ''managed/requests/u/upload''"
definition example_final_key :: string where "example_final_key = ''managed/requests/f/final''"

definition example_uploading_row :: request_row where
  "example_uploading_row = uploading_row (sha256 (replicate 32 CHR ''d'')) example_digest 22 example_envelope (sha256 ageMagic)
     example_upload_key example_final_key (110 * Minute) example_waiting_row"

definition example_uploading_state :: api where
  "example_uploading_state = MigrateAPI\<lparr>requests := [example_uploading_row]\<rparr>"

definition example_bucket :: s3 where
  "example_bucket = example_s3\<lparr>s3_get := (\<lambda>k. Some (ageMagic, Some 22)),
     s3_list := (\<lambda>p c n. ListObjects [example_final_key] False [])\<rparr>"

definition example_attempt :: attempt_input where
  "example_attempt = \<lparr>ai_Generation = 1, ai_AttemptToken = example_attempt_token\<rparr>"

lemma example_keys: "request_key example_upload_key" "request_key example_final_key"
  by (simp_all add: request_key_def example_upload_key_def example_final_key_def hasPrefix_def ObjectPrefix_def)

lemma example_uploading_ok: "requests_ok example_uploading_state"
  by (simp add: requests_ok_def example_uploading_state_def MigrateAPI_def Let_def request_constraints_def
      request_check_def hash_column_def request_row_ok_def inline_waiting_def List.map_filter_simps example_uploading_row_def
      uploading_row_def length_digest example_digest_def example_keys)

lemma example_uploading_lookup: "request_of example_uploading_state example_request_id = Some example_uploading_row"
  by (simp add: example_uploading_state_def sql_row_def example_uploading_row_def uploading_row_def)

lemma example_uploading_simps [simp]:
  "r_state example_uploading_row = ''uploading''" "r_generation example_uploading_row = 1" "r_id example_uploading_row = example_request_id"
  "r_upload_key example_uploading_row = Some example_upload_key" "r_final_key example_uploading_row = Some example_final_key"
  "r_attempt_token_hash example_uploading_row = Some (sha256 (replicate 32 CHR ''d''))" "r_size_bytes example_uploading_row = Some 22"
  "r_ciphertext_sha256 example_uploading_row = Some (sha256 ageMagic)" "r_expires_at example_uploading_row = 9600000000000"
  "r_reservation_expires_at example_uploading_row = Some 6600000000000"
  "r_submission_token_hash example_uploading_row = sha256 (replicate 32 CHR ''b'')"
  by (simp_all add: example_uploading_row_def uploading_row_def Minute_def)

lemma example_copy:
  "copyVerified example_bucket example_request_env example_uploading_row = (None, Some (example_final_key, ageMagic))"
proof -
  have "length ageMagic = 22" "isAgeFile ageMagic" "example_final_key \<noteq> []"
    by (simp_all add: ageMagic_def isAgeFile_def hasPrefix_def example_final_key_def)
  then show ?thesis
    by (simp add: copyVerified_def Open_def PutStream_def example_bucket_def example_s3_def AgeMagic_def)
qed

lemma example_begin_uploading:
  "beginTx example_request_store example_request_env 0 example_request_id example_submit_token False example_uploading_state =
     (Inr (record_of example_uploading_row), example_uploading_state)"
  by (simp add: beginTx_def numeral_2_eq_2 authorized_def example_uploading_lookup capability_def record_of_def)

lemma example_finalizeAttempt:
  "\<exists>s'. finalizeAttempt example_request_store example_request_env example_request_id example_submit_token example_attempt
     example_uploading_row (sha256 (replicate 32 CHR ''d'')) example_uploading_state =
   (Inr \<lparr>rec_Generation = 1, rec_State = ''submitted''\<rparr>, s')"
proof -
  let ?p = "\<lambda>r. r_id r = example_request_id \<and> r_state r = ''uploading'' \<and> r_generation r = 1 \<and> r_final_key r = Some example_final_key"
  have up: "\<exists>s1. update_requests ?p accepted_row example_uploading_state = Some s1 \<and> outbox_events s1 = []"
    by (simp add: update_requests_def example_uploading_state_def MigrateAPI_def sql_update_def Let_def request_constraints_def
        request_check_def hash_column_def accepted_row_def List.map_filter_simps)
      (simp add: example_uploading_row_def uploading_row_def example_digest_def length_digest)
  then obtain s1 where s1: "update_requests ?p accepted_row example_uploading_state = Some s1" "outbox_events s1 = []"
    by blast
  have "\<exists>s2. enqueueObjectTx True ''jobs'' example_request_env example_upload_key ReasonOrphan 6000000000000 s1 = (Inr (), s2)"
  proof -
    have "\<exists>j. NewJobID example_request_env (''job '' @ example_upload_key) = Some j \<and> trimSpace j = j \<and> j \<noteq> []"
      by (simp add: NewJobID_def example_request_env_def trimSpace_rawurl rawurl_encode_Nil_iff)
    moreover have "trimSpace example_upload_key = example_upload_key"
      by (rule trimSpace_visible) (simp add: example_upload_key_def)
    moreover have "hasPrefix example_upload_key ObjectPrefix" "example_upload_key \<noteq> ObjectPrefix" "example_upload_key \<noteq> []"
      by (simp_all add: example_upload_key_def hasPrefix_def ObjectPrefix_def)
    ultimately show ?thesis
      using s1(2) by (auto simp: enqueueObjectTx_def enqueue_event_def EnqueueTx_def JobEvent_JSON_def Validate_def object_job_def
          validReason_def sql_insert_def Let_def event_constants)
  qed
  moreover have "sql_count ?p (requests example_uploading_state) = 1"
    by (simp add: sql_count_def example_uploading_state_def)
  ultimately show ?thesis
    using s1 by (auto simp: finalizeAttempt_def example_begin_uploading objectAttemptTx_def example_uploading_lookup
        example_attempt_def record_of_def exec_def requireTransition_def commit_error_def)
qed

theorem finalize_verified_witness:
  "\<exists>s'. FinalizeRequest example_request_store example_bucket Map.empty id example_request_env example_request_env example_request_id
      example_submit_token example_attempt example_uploading_state =
      ((Inr \<lparr>rec_Generation = 1, rec_State = ''submitted''\<rparr>, s'), Some (example_final_key, ageMagic)) \<and>
    isAgeFile ageMagic \<and> (\<exists>r. request_of s' example_request_id = Some r \<and> r_generation r = 1 \<and>
      r_state r \<in> {''submitted'', ''consumed'', ''cancelled''} \<and>
      (r_state r = ''submitted'' \<longrightarrow> r_final_key r = Some example_final_key \<and> r_ciphertext_sha256 r = Some (sha256 ageMagic)))"
proof -
  obtain s' where s': "finalizeAttempt example_request_store example_request_env example_request_id example_submit_token
      example_attempt example_uploading_row (sha256 (replicate 32 CHR ''d'')) example_uploading_state =
      (Inr \<lparr>rec_Generation = 1, rec_State = ''submitted''\<rparr>, s')"
    using example_finalizeAttempt by blast
  have "validateAttempt example_attempt = Inr (sha256 (replicate 32 CHR ''d''))"
    by (simp add: validateAttempt_def example_attempt_def MaxGeneration_def)
  then have f: "FinalizeRequest example_request_store example_bucket Map.empty id example_request_env example_request_env example_request_id
      example_submit_token example_attempt example_uploading_state =
      ((Inr \<lparr>rec_Generation = 1, rec_State = ''submitted''\<rparr>, s'), Some (example_final_key, ageMagic))"
    by (simp add: FinalizeRequest_def example_begin_uploading objectAttemptTx_def example_uploading_lookup record_of_def
        commit_error_def example_copy s') (simp add: example_attempt_def)
  have "ai_Generation example_attempt = 1"
    by (simp add: example_attempt_def)
  with f finalize_verified [OF example_uploading_ok _ f] show ?thesis
    by auto
qed

subsection \<open>Rows that are due\<close>

text \<open>An opened object whose streaming grace has passed, on a request that has expired.\<close>

definition example_spent_row :: request_row where
  "example_spent_row = (consumed_row (10 * Minute) (accepted_row example_uploading_row))"

definition example_spent_state :: api where
  "example_spent_state = MigrateAPI\<lparr>requests := [example_spent_row]\<rparr>"

lemma example_spent_simps [simp]:
  "r_state example_spent_row = ''consumed''" "r_id example_spent_row = example_request_id"
  "r_upload_key example_spent_row = None" "r_final_key example_spent_row = Some example_final_key"
  "r_expires_at example_spent_row = 9600000000000" "r_reservation_expires_at example_spent_row = None"
  "r_consumed_at example_spent_row = Some 600000000000"
  by (simp_all add: example_spent_row_def consumed_row_def accepted_row_def Minute_def)

lemma small_time_valid: "0 \<le> t \<Longrightarrow> t < 86400000000000 \<Longrightarrow> valid_time t"
  by (simp add: valid_time_def year_of_def whole_seconds_def div_less)

lemma example_spent_ok: "requests_ok example_spent_state" "request_times_ok example_spent_state"
proof -
  have "request_check example_spent_row"
    by (simp add: example_spent_row_def consumed_row_def accepted_row_def request_check_def hash_column_def)
      (simp add: example_uploading_row_def uploading_row_def example_digest_def length_digest)
  moreover have "request_row_ok example_spent_row"
    using example_keys by (simp add: request_row_ok_def) (simp add: example_spent_row_def consumed_row_def accepted_row_def
        example_uploading_row_def uploading_row_def)
  ultimately show "requests_ok example_spent_state"
    by (simp add: requests_ok_def example_spent_state_def MigrateAPI_def Let_def request_constraints_def inline_waiting_def
        List.map_filter_simps)
  show "request_times_ok example_spent_state"
    by (simp add: request_times_ok_def example_spent_state_def small_time_valid)
qed

lemma example_grace: "openObjectGrace = 2100000000000"
  by (simp add: openObjectGrace_def OpenStreamTimeout_def Minute_def)

lemma example_enqueue:
  "outbox_events s = [] \<Longrightarrow> reason \<in> {ReasonOrphan, ReasonExpired} \<Longrightarrow>
   \<exists>s'. enqueueObjectTx True ''jobs'' example_request_env example_final_key reason 12000000000000 s = (Inr (), s')"
proof -
  assume s: "outbox_events s = []" "reason \<in> {ReasonOrphan, ReasonExpired}"
  have "\<exists>j. NewJobID example_request_env (''job '' @ example_final_key) = Some j \<and> trimSpace j = j \<and> j \<noteq> []"
    by (simp add: NewJobID_def example_request_env_def trimSpace_rawurl rawurl_encode_Nil_iff)
  moreover have "trimSpace example_final_key = example_final_key"
    by (rule trimSpace_visible) (simp add: example_final_key_def)
  moreover have "hasPrefix example_final_key ObjectPrefix" "example_final_key \<noteq> ObjectPrefix" "example_final_key \<noteq> []"
    using example_keys(2) by (auto simp: request_key_def hasPrefix_def ObjectPrefix_def)
  ultimately show ?thesis
    using s by (auto simp: enqueueObjectTx_def enqueue_event_def EnqueueTx_def JobEvent_JSON_def Validate_def object_job_def
        validReason_def sql_insert_def Let_def event_constants)
qed

lemma example_purge:
  "\<exists>s'. PurgeExpiredTx True ''jobs'' example_request_env 12000000000000 10 example_spent_state = (Inr (), s') \<and>
     expired_requests 12000000000000 10 example_spent_state = [example_request_id]"
proof -
  have "text_le 9600000000000 12000000000000" "text_le 600000000000 9900000000000"
    by (simp_all add: text_le_iff small_time_valid)
  then have "lapsed_reservations 12000000000000 10 example_spent_state = []"
    and x: "expired_requests 12000000000000 10 example_spent_state = [example_request_id]"
    by (simp_all add: lapsed_reservations_def lapsed_def expired_requests_def purgeable_def example_spent_state_def
        sql_top_def example_grace)
  moreover have "\<exists>s'. enqueueRequestKeysTx True ''jobs'' example_request_env example_request_id ReasonExpired 12000000000000
      example_spent_state = (Inr (), s')"
    using example_enqueue [of example_spent_state ReasonExpired]
    by (auto simp: enqueueRequestKeysTx_def example_spent_state_def MigrateAPI_def Let_def sql_row_def)
  ultimately show ?thesis
    by (auto simp: PurgeExpiredTx_def)
qed

theorem purge_expired_witness:
  "\<exists>u s' L X rs1 rs2.
    PurgeExpiredTx True ''jobs'' example_request_env 12000000000000 10 example_spent_state = (Inr u, s') \<and>
    requests s' = sql_delete (\<lambda>r. r_id r \<in> set X) (sql_update (\<lambda>r. r_id r \<in> set L) ended [example_spent_row]) \<and>
    outbox_events s' = outbox_events example_spent_state @ rs1 @ rs2 \<and>
    delete_jobs ReasonExpired 12000000000000 (concat (map (keys_of example_spent_state) X)) rs2"
proof -
  obtain s' where p: "PurgeExpiredTx True ''jobs'' example_request_env 12000000000000 10 example_spent_state = (Inr (), s')"
    using example_purge by blast
  have v: "valid_time 12000000000000" "valid_time (12000000000000 - openObjectGrace)"
    by (simp_all add: small_time_valid example_grace)
  have r: "requests example_spent_state = [example_spent_row]"
    by (simp add: example_spent_state_def)
  from purge_expired [OF example_spent_ok v p, unfolded r] p show ?thesis
    by (elim exE conjE) blast
qed

lemma example_scan:
  "\<exists>s'. ReconcileRequests example_request_store example_bucket id example_request_env 10 MigrateAPI = (Inr 1, s') \<and> s' \<noteq> MigrateAPI"
proof -
  have l: "List_objects example_bucket ObjectPrefix [] 10 = Inr \<lparr>Keys = [example_final_key], NextCursor = []\<rparr>"
    by (simp add: List_objects_def example_bucket_def ObjectPrefix_def)
  have pr: "protectRequestObject example_request_env 6000000000000 MigrateAPI example_final_key = Inr False"
    by (simp add: protectRequestObject_def MigrateAPI_def Let_def)
  obtain j where j: "NewJobID example_request_env (''reconcile '' @ example_final_key) = Some j" "trimSpace j = j" "j \<noteq> []"
    by (simp add: NewJobID_def example_request_env_def trimSpace_rawurl rawurl_encode_Nil_iff)
  have "trimSpace example_final_key = example_final_key"
    by (rule trimSpace_visible) (simp add: example_final_key_def)
  moreover have k: "hasPrefix example_final_key ObjectPrefix" "example_final_key \<noteq> ObjectPrefix" "example_final_key \<noteq> []"
    using example_keys(2) by (auto simp: request_key_def hasPrefix_def ObjectPrefix_def)
  ultimately have "\<exists>row. EnqueueTx ''jobs'' 6000000000000 io (orphan_job j example_final_key 6000000000000) [] = (Inr row, [row])"
    if "\<not> io ''insert outbox event''" for io
    using that j by (simp add: EnqueueTx_def JobEvent_JSON_def Validate_def orphan_job_def validReason_def sql_insert_def Let_def
        event_constants)
  from this [of "\<lambda>l. False"] obtain row where
    row: "EnqueueTx ''jobs'' 6000000000000 no_faults (orphan_job j example_final_key 6000000000000) [] = (Inr row, [row])" by auto
  have "reconcile_keys ObjectPrefix (protectRequestObject example_request_env 6000000000000 MigrateAPI) True ''jobs''
      example_request_env 6000000000000 [example_final_key] ([], []) =
      (Inr 1, ([\<lparr>pend_object_key = example_final_key, pend_job_id = j\<rparr>], [row]))"
    using k pr j row by (simp add: insert_pending_def)
  moreover have "request_cursor MigrateAPI = \<lparr>continuation_token = [], cur_generation = 0\<rparr>" "request_pending MigrateAPI = []"
    "outbox_events MigrateAPI = []"
    by (simp_all add: MigrateAPI_def Let_def)
  ultimately show ?thesis
    using l by (auto simp: ReconcileRequests_def Let_def commit_error_def MigrateAPI_def)
qed


end
