(* ===== verification/Api_Promises.thy ===== *)
theory Api_Promises
  imports Api_System Request_Examples
begin

text \<open>
  What the API promises whatever the order of requests and background passes: a well-formed database, at
  most one delivery per secret, a bounded number of guesses, and refusals that leave no trace.
\<close>

text \<open>
  C38: Every state the API reaches from a freshly migrated database, by any sequence of requests to its
  secret and request endpoints, reaper claims, bucket scans and acknowledgements, with any failures of the
  database, the bucket, the clock and the random source, is well formed: secret ids are unique; every row
  satisfies the schema's checks, was viewed at most once and, while it is not consumed, has fewer refused
  proofs than the limit; every ciphertext belongs to a secret; the gauge of active uploads is the number
  of pending uploads; a secret with a recorded outcome is consumed and never reported as cancelled; and
  the request tables are well formed.
\<close>

theorem api_invariant:
  "(\<lambda>s. distinct (map s_id (secrets s)) \<and> list_all secret_row_ok (secrets s) \<and>
     distinct (map p_secret_id (secret_payloads s)) \<and>
     p_secret_id ` set (secret_payloads s) \<subseteq> s_id ` set (secrets s) \<and>
     distinct (map m_secret_id (secret_management s)) \<and> list_all mgmt_check (secret_management s) \<and>
     ActiveUploads s = int (sql_count pending_row_state (secrets s)) \<and> outcome_ok s \<and> requests_ok s)
   (run (api_exec sv rp rst) MigrateAPI es)"
  using api_machine.inv_run [OF api_ok_MigrateAPI, of sv rp rst es]
  by (auto simp: api_ok_def secrets_ok_def secret_tables_ok_def table_ok_def list_all_iff)

text \<open>
  C1: A secret is handed out at most once. Over any sequence of events in which no creation draws its id
  again, among all opens of the secret at most one is answered 200, at most five are answered 200 or 403
  together, so that a wrong proof is refused at most five times (an attempt whose transaction fails is
  answered otherwise and not counted), and a secret that does not exist is never handed out.
\<close>

theorem one_open_per_secret:
  assumes "api_ok s" "list_all (\<lambda>ev. \<not> draws_id i ev) es"
  shows "length (filter (\<lambda>(ev, r). answered 200 i ev r) (zip es (results (api_exec sv rp rst) s es))) \<le> 1 \<and>
    length (filter (\<lambda>(ev, r). answered 200 i ev r \<or> answered 403 i ev r) (zip es (results (api_exec sv rp rst) s es))) \<le> 5 \<and>
    (secret_of s i = None \<longrightarrow> filter (\<lambda>(ev, r). answered 200 i ev r) (zip es (results (api_exec sv rp rst) s es)) = [])"
proof (intro conjI impI)
  show "length (filter (\<lambda>(ev, r). answered 200 i ev r) (zip es (results (api_exec sv rp rst) s es))) \<le> 1"
    by (rule one_open.at_most_one_hit [OF assms])
  show "length (filter (\<lambda>(ev, r). answered 200 i ev r \<or> answered 403 i ev r) (zip es (results (api_exec sv rp rst) s es))) \<le> 5"
    using five_answers.hits_bounded [OF assms, of sv rp rst] answers_left_bound [OF assms(1), of i] by simp
  assume "secret_of s i = None"
  then show "filter (\<lambda>(ev, r). answered 200 i ev r) (zip es (results (api_exec sv rp rst) s es)) = []"
    by (intro one_open.spent_no_hits [OF assms]) (simp add: answers_left_def)
qed

subsection \<open>Refusals\<close>

definition no_payload :: "secret_json response \<Rightarrow> bool" where
  "no_payload r \<longleftrightarrow> (case rs_body r of ErrorBody c m \<Rightarrow> True | JsonBody (NotCancellableJson c m st) \<Rightarrow> True | _ \<Rightarrow> False)"

lemma store_refusals:
  "fst (Create st e input s) = Inl err \<Longrightarrow> snd (Create st e input s) = s"
  "fst (CreateLarge st svc e linput s) = Inl err \<Longrightarrow> snd (CreateLarge st svc e linput s) = s"
  "fst (Finalize st svc e i s) = Inl err \<Longrightarrow> snd (Finalize st svc e i s) = s"
  "fst (Cleanup e i s) = Inl err \<Longrightarrow> snd (Cleanup e i s) = s"
  "fst (fst (Revoke st e i tok s)) = Some rerr \<Longrightarrow> snd (Revoke st e i tok s) = s"
  using Create_Inl CreateLarge_Inl Finalize_Inl
  by (metis prod.collapse)+ (auto simp: Cleanup_def Let_def split: if_splits, metis Revoke_cases option.distinct(1) prod.collapse)

lemma error_replies [simp]:
  "no_payload (writeError n c m)" "no_payload (after_headers hs r) = no_payload r" "no_payload (writeSecretError err)"
  "no_payload (writeOpenError err)" "no_payload (writeManagementError err)"
  "decode_body limit contract b = Inl r \<Longrightarrow> no_payload r"
proof -
  show w: "no_payload (writeError n c m)" for n c m by (simp add: no_payload_def)
  show "no_payload (after_headers hs r) = no_payload r" by (simp add: no_payload_def)
  show x: "no_payload (writeSecretError err)" by (cases err) (simp_all add: w)
  show "no_payload (writeOpenError err)" "no_payload (writeManagementError err)"
    by (simp_all add: writeOpenError_def writeManagementError_def w x)
  show "decode_body limit contract b = Inl r \<Longrightarrow> no_payload r"
    by (auto simp: decode_body_def too_large_def sensitive_def w split: if_splits option.splits)
qed

lemmas refusal_rules = case_prod_beta store_refusals

lemma createSecret_refused:
  "400 \<le> rs_status (fst (createSecret sv svc e b s)) \<Longrightarrow>
   snd (createSecret sv svc e b s) = s \<and> no_payload (fst (createSecret sv svc e b s))"
  by (auto simp: createSecret_def createLargeSecret_def refusal_rules split: sum.splits option.splits if_splits)

lemma finalizeSecret_refused:
  "400 \<le> rs_status (fst (finalizeSecret sv svc e i s)) \<Longrightarrow>
   snd (finalizeSecret sv svc e i s) = s \<and> no_payload (fst (finalizeSecret sv svc e i s))"
  unfolding finalizeSecret_def by (auto simp: refusal_rules split: sum.splits)

lemma cleanupSecret_refused:
  "400 \<le> rs_status (fst (cleanupSecret sv e i b s)) \<Longrightarrow>
   snd (cleanupSecret sv e i b s) = s \<and> no_payload (fst (cleanupSecret sv e i b s))"
  unfolding cleanupSecret_def by (auto simp: refusal_rules split: sum.splits if_splits)

lemma revokeSecret_refused:
  "400 \<le> rs_status (fst (revokeSecret sv e1 e2 i tok b s)) \<Longrightarrow>
   snd (revokeSecret sv e1 e2 i tok b s) = s \<and> no_payload (fst (revokeSecret sv e1 e2 i tok b s))"
  unfolding revokeSecret_def by (auto simp: refusal_rules no_payload_def [of "writeJSON _ _"] split: sum.splits option.splits if_splits)

lemma ack_refusals:
  "fst (AcknowledgeObjectCleanup e job key s) = Some err \<Longrightarrow> snd (AcknowledgeObjectCleanup e job key s) = s"
  "fst (AcknowledgeRequestCleanup e job key s) = Some rerr \<Longrightarrow> snd (AcknowledgeRequestCleanup e job key s) = s"
  by (auto simp: AcknowledgeObjectCleanup_def AcknowledgeRequestCleanup_def split: if_splits)

lemma acknowledge_refused:
  assumes "400 \<le> rs_status (fst (acknowledgeObjectCleanup sv e b s))"
  shows "snd (acknowledgeObjectCleanup sv e b s) = s \<and> no_payload (fst (acknowledgeObjectCleanup sv e b s))"
proof (cases "if body_read createBodyOverheadLimit b \<and> jb_single b then jb_value b else None")
  case None
  then show ?thesis by (simp add: acknowledgeObjectCleanup_def)
next
  case (Some req)
  obtain err s' where x: "(if hasPrefix (rq_ObjectKey req) ObjectPrefix
      then (if sv_requests sv = None then (Some (AckRequest ErrStorage), s)
            else map_prod (map_option AckRequest) id (AcknowledgeRequestCleanup e (rq_AckJobID req) (rq_ObjectKey req) s))
      else map_prod (map_option AckSecret) id (AcknowledgeObjectCleanup e (rq_AckJobID req) (rq_ObjectKey req) s)) = (err, s')"
    by (metis surj_pair)
  have eq: "acknowledgeObjectCleanup sv e b s = (case err of None \<Rightarrow> (noContent, s')
      | Some er \<Rightarrow> if er = AckSecret ErrInvalidInput \<or> er = AckRequest ErrInvalid
          then (writeError 400 ''invalid_cleanup'' ''invalid cleanup acknowledgement'', s')
          else (writeError 503 ''cleanup_ack_failed'' ''cleanup acknowledgement is temporarily unavailable'', s'))"
    unfolding acknowledgeObjectCleanup_def Some option.case x prod.case ..
  have "err \<noteq> None" using assms unfolding eq by (intro notI) (simp add: noContent_def)
  moreover have "err \<noteq> None \<Longrightarrow> s' = s"
    using x by (cases "AcknowledgeRequestCleanup e (rq_AckJobID req) (rq_ObjectKey req) s";
      cases "AcknowledgeObjectCleanup e (rq_AckJobID req) (rq_ObjectKey req) s")
      (use ack_refusals [of e "rq_AckJobID req" "rq_ObjectKey req" s] in \<open>auto split: if_splits\<close>)
  ultimately show ?thesis unfolding eq by auto
qed

text \<open>
  C6: A refused request leaves no trace. When a secret endpoint answers with a status of 400 or more, the
  answer carries an error and no secret material, and the database is as it was, with one exception: an
  open answered 403, which uses up one of the secret's remaining proofs and touches neither another secret
  nor any request link.
\<close>

theorem refusals_leave_no_trace:
  assumes "api_ok s" "api_exec sv rp rst s ev = (s', ASecret r)" "400 \<le> rs_status r"
  shows "no_payload r \<and> (s' = s \<or> (\<exists>svc e i b. ev = AOpen svc e i b \<and> rs_status r = 403 \<and>
    answers_left i s' < answers_left i s \<and> (\<forall>j. j \<noteq> i \<longrightarrow> secret_of s' j = secret_of s j) \<and> request_side s' = request_side s))"
proof (cases ev)
  case (AOpen svc e i b)
  obtain k where op: "open_answer sv svc e i b s = ((r, k), s')" using assms(2) by (auto simp: AOpen split: prod.splits)
  note ok = api_ok_parts(1) [OF assms(1)]
  from op show ?thesis
  proof (cases rule: open_answer_cases)
    case bad_input
    then show ?thesis using op by (auto simp: open_answer_def case_prod_beta split: sum.splits option.splits)
  next
    case (store hash res)
    from ok store(1) show ?thesis
    proof (cases rule: open_rows)
      case (refused row)
      have "secret_of s' j = secret_of s j" if "j \<noteq> i" for j
        using secret_of_live_update_other [OF _ that, of "refused_row (clock e 0)" s] refused(4) by simp
      moreover have "request_side s' = request_side s"
        using openAndEnqueueCleanup_request [of "sv_store sv" svc e i hash s] store(1) by simp
      moreover have "rs_status r = 403" "no_payload r" using store(2) refused(1) by (simp_all add: writeOpenError_def)
      ultimately show ?thesis using answers_left_answer(3) [OF ok op refl] AOpen by blast
    qed (use store assms(3) in auto)
  qed
next
  case (ACreate svc e b)
  then show ?thesis using createSecret_refused [of sv svc e b s] assms(2,3) by (simp split: prod.splits)
next
  case (AFinalize svc e i)
  then show ?thesis using finalizeSecret_refused [of sv svc e i s] assms(2,3) by (simp del: finalizeSecret_db split: prod.splits)
next
  case (ACleanup e i b)
  then show ?thesis using cleanupSecret_refused [of sv e i b s] assms(2,3) by (simp split: prod.splits)
next
  case (ARevoke e1 e2 i tok b)
  then show ?thesis using revokeSecret_refused [of sv e1 e2 i tok b s] assms(2,3) by (simp split: prod.splits)
next
  case (AAcknowledge e b)
  then show ?thesis using acknowledge_refused [of sv e b s] assms(2,3) by (simp split: prod.splits)
qed (use assms(2) in \<open>auto split: prod.splits\<close>)

subsection \<open>A server at work\<close>

definition example_server :: server where
  "example_server = \<lparr>sv_store = example_store, sv_requests = None, sv_payloadInlineMaxBytes = 65536,
     sv_advertisedInlineMaxBytes = 65536, sv_maxFileBytes = 1000000, sv_allowedOrigin = [], sv_internalToken = ''internal'',
     sv_metricsToken = ''metrics'', sv_pipeRelayEnabled = False\<rparr>"

definition proof_body :: "string \<Rightarrow> string json_body" where
  "proof_body proof = \<lparr>jb_readable = True, jb_length = 64, jb_keys = Some [''access_proof''], jb_value = Some proof, jb_single = True\<rparr>"

lemma proof_body_decodes: "decode_body createBodyOverheadLimit contract (proof_body proof) = Inr proof"
  by (simp add: decode_body_def body_read_def hasSensitiveField_def sensitive_keys_def proof_body_def createBodyOverheadLimit_def)

text \<open>A link secret: no passphrase, so no proof to open it.\<close>

definition link_input :: create_input where
  "link_input = \<lparr>ci_Kind = KindText, ci_Ciphertext = ageMagic, ci_AccessKDF = zero_kdf, ci_AccessProofHash = [],
     ci_WrappedIdentity = None, ci_EncryptedFilename = None, ci_ContentType = None, ci_SizeBytes = 22,
     ci_TTLSeconds = 3600, ci_MaxViews = 1\<rparr>"

definition link_state :: api where
  "link_state = snd (Create example_store (example_env 1) link_input MigrateAPI)"

lemma link_Create:
  "\<exists>sec. Create example_store (example_env 1) link_input MigrateAPI = (Inr sec, link_state) \<and>
     ID sec = example_id \<and> ExpiresAt sec = example_expiry"
proof -
  have "validateCreate example_store (one_view link_input) = None"
    by (simp add: validateCreate_def validateCommon_def example_store_def link_input_def one_view_def zero_kdf_def
        hasPrefix_def) (simp add: ageMagic_def row_constants)
  then show ?thesis unfolding Create_def one_view_def [symmetric] link_state_def
    by (simp add: generateID_def example_env_def exec_def insert_secret_def MigrateAPI_def
        insert_payload_def createManagementTx_def insert_management_def sql_insert_def mgmt_check_def Let_def
        sql_row_def inline_row_def modelAColumns_def secret_check_def link_input_def one_view_def
        wrap64_def Second_def example_id_def example_expiry_def)
qed

lemma link_state_ok: "api_ok link_state"
  unfolding link_state_def
  by (intro api_ok_request_side [OF Create_request] secrets_ok_Create outcome_ok_Create secrets_ok_MigrateAPI
      outcome_ok_MigrateAPI api_ok_MigrateAPI)

lemma link_open:
  "\<exists>sec s'. openAndEnqueueCleanup example_store example_s3 (example_env 2) example_id [] link_state = (Inr sec, s') \<and>
     Ciphertext sec = ageMagic \<and> Body sec = None"
proof -
  obtain sec where c: "Create example_store (example_env 1) link_input MigrateAPI = (Inr sec, link_state)"
    "ID sec = example_id" "ExpiresAt sec = example_expiry"
    using link_Create by blast
  have "\<exists>b bs. draw (example_env 2) ''open job'' = Some (b # bs)"
    by (simp add: example_env_def)
  then obtain b bs where d: "draw (example_env 2) ''open job'' = Some (b # bs)" by blast
  show ?thesis
    using create_then_open [OF secrets_ok_MigrateAPI c(1), of "example_env 2" b bs "[]" example_s3] c(2,3) d
    by (auto simp: example_env_def example_store_def link_input_def MigrateAPI_def Let_def example_expiry_def)
qed

definition link_open_event :: api_event where
  "link_open_event = AOpen example_s3 (example_env 2) example_id (proof_body [])"

lemma link_open_answered:
  "\<exists>r. snd (api_exec example_server example_reaper rst link_state link_open_event) = ASecret r \<and> rs_status r = 200 \<and>
     rs_body r = RawBody ageMagic"
proof -
  obtain sec s' where "openAndEnqueueCleanup example_store example_s3 (example_env 2) example_id [] link_state = (Inr sec, s')"
    "Ciphertext sec = ageMagic" "Body sec = None"
    using link_open by blast
  then show ?thesis
    by (simp add: link_open_event_def open_answer_def proof_body_decodes accessHash_def example_server_def opened_response_def)
qed

theorem one_open_per_secret_witness:
  "answered 200 example_id link_open_event (snd (api_exec example_server example_reaper example_request_store link_state link_open_event)) \<and>
   length (filter (\<lambda>(ev, r). answered 200 example_id ev r) (zip [link_open_event, link_open_event]
     (results (api_exec example_server example_reaper example_request_store) link_state [link_open_event, link_open_event]))) \<le> 1"
  using link_open_answered [of example_request_store]
    one_open_per_secret [OF link_state_ok, of example_id "[link_open_event, link_open_event]" example_server example_reaper example_request_store]
  by (auto simp: link_open_event_def)

theorem refusals_leave_no_trace_witness:
  "\<exists>r. api_exec example_server example_reaper example_request_store MigrateAPI link_open_event = (MigrateAPI, ASecret r) \<and>
     rs_status r = 404 \<and> no_payload r"
proof -
  have "\<exists>r. api_exec example_server example_reaper example_request_store MigrateAPI link_open_event = (MigrateAPI, ASecret r) \<and>
      rs_status r = 404"
    by (simp add: link_open_event_def open_answer_def proof_body_decodes accessHash_def example_server_def openAndEnqueueCleanup_def
        example_store_def example_env_def NewJobID_def OpenTx_def load_def MigrateAPI_def Let_def sql_row_def writeOpenError_def)
  then obtain r where r: "api_exec example_server example_reaper example_request_store MigrateAPI link_open_event = (MigrateAPI, ASecret r)"
    "rs_status r = 404" by blast
  with refusals_leave_no_trace [OF api_ok_MigrateAPI r(1)] show ?thesis by auto
qed

end
