(* ===== verification/Worker_Store.thy ===== *)
theory Worker_Store
  imports Api_Db
begin

text \<open>
  The worker's job receipts (internal/worker/store.go on the tables of \<open>MigrateWorker\<close>): a receipt per
  job, an append-only log of its attempts, and the dead letters. \<open>Start\<close> leases an attempt, \<open>MarkSucceeded\<close>
  and \<open>MarkFailed\<close> finish the leased one, and the last failure of the budget dead-letters the job in
  the same transaction. As in the outbox, the \<open>payload_json\<close> text is represented by the event it
  encodes, the empty text by \<open>None\<close>. A transaction that ends in an error leaves the state it began with.
\<close>

definition ProcessingLease :: duration where "ProcessingLease = Minute"
definition StateProcessing :: string where "StateProcessing = ''processing''"
definition StateSucceeded :: string where "StateSucceeded = ''succeeded''"
definition StateFailed :: string where "StateFailed = ''failed''"
definition StateDead :: string where "StateDead = ''dead''"
definition AttemptRunning :: string where "AttemptRunning = ''running''"
definition AttemptSucceeded :: string where "AttemptSucceeded = ''succeeded''"
definition AttemptFailed :: string where "AttemptFailed = ''failed''"

lemmas worker_states [go_simps] = StateProcessing_def StateSucceeded_def StateFailed_def StateDead_def
  AttemptRunning_def AttemptSucceeded_def AttemptFailed_def

lemma job_states_differ [simp]:
  "StateProcessing \<noteq> StateSucceeded" "StateProcessing \<noteq> StateFailed" "StateProcessing \<noteq> StateDead"
  "StateSucceeded \<noteq> StateProcessing" "StateFailed \<noteq> StateProcessing" "StateDead \<noteq> StateProcessing"
  "StateSucceeded \<noteq> StateFailed" "StateSucceeded \<noteq> StateDead" "StateFailed \<noteq> StateDead"
  "StateFailed \<noteq> StateSucceeded" "StateDead \<noteq> StateSucceeded" "StateDead \<noteq> StateFailed"
  "AttemptRunning \<noteq> AttemptSucceeded" "AttemptRunning \<noteq> AttemptFailed" "AttemptSucceeded \<noteq> AttemptFailed"
  "AttemptSucceeded \<noteq> AttemptRunning" "AttemptFailed \<noteq> AttemptRunning" "AttemptFailed \<noteq> AttemptSucceeded"
  by (simp_all add: worker_states)

datatype worker_error = ErrInvalidJob | ErrJobNotFound | ErrJobDead | ErrJobProcessing | ErrStaleAttempt
  | ErrWorker string

record job_receipt =
  jr_job_id :: string
  jr_kind :: string
  jr_state :: string
  jr_attempts :: int
  jr_last_error :: "string option"
  jr_first_seen_at :: time
  jr_updated_at :: time
  jr_completed_at :: "time option"

record job_attempt =
  ja_id :: int
  ja_job_id :: string
  ja_attempt :: int
  ja_started_at :: time
  ja_finished_at :: "time option"
  ja_result :: string
  ja_error :: "string option"

record dead_letter =
  dl_job_id :: string
  dl_kind :: string
  dl_payload :: "job_event option"
  dl_error :: string
  dl_created_at :: time

text \<open>\<open>attempt_seq\<close> is the \<open>autoincrement\<close> counter of \<open>job_attempts\<close>.\<close>

record worker_db =
  job_receipts :: "job_receipt list"
  job_attempts :: "job_attempt list"
  dead_letters :: "dead_letter list"
  attempt_seq :: int

definition MigrateWorker :: worker_db where
  "MigrateWorker = \<lparr>job_receipts = [], job_attempts = [], dead_letters = [], attempt_seq = 0\<rparr>"

definition receipt_check :: "job_receipt \<Rightarrow> bool" where
  "receipt_check r \<longleftrightarrow> jr_state r \<in> {StateProcessing, StateSucceeded, StateFailed, StateDead} \<and> 0 \<le> jr_attempts r"

definition attempt_check :: "job_attempt \<Rightarrow> bool" where
  "attempt_check a \<longleftrightarrow> ja_result a \<in> {AttemptRunning, AttemptSucceeded, AttemptFailed}"

datatype start_result = AlreadySucceeded | Started job_attempt

subsection \<open>Operations\<close>

definition loadReceipt :: "env \<Rightarrow> string \<Rightarrow> worker_db \<Rightarrow> worker_error + job_receipt" where
  "loadReceipt e jobID s =
     (if fails e ''load job receipt'' then Inl (ErrWorker ''load job receipt'')
      else (case sql_row (\<lambda>r. jr_job_id r = jobID) (job_receipts s) of
              None \<Rightarrow> Inl ErrJobNotFound
            | Some r \<Rightarrow> Inr r))"

definition loadAttempt :: "env \<Rightarrow> int \<Rightarrow> worker_db \<Rightarrow> worker_error + job_attempt" where
  "loadAttempt e i s =
     (if fails e ''scan job attempt'' then Inl (ErrWorker ''scan job attempt'')
      else (case sql_row (\<lambda>a. ja_id a = i) (job_attempts s) of
              None \<Rightarrow> Inl ErrJobNotFound
            | Some a \<Rightarrow> Inr a))"

definition is_failure :: "string \<Rightarrow> job_attempt \<Rightarrow> bool" where
  "is_failure jobID a \<longleftrightarrow> ja_job_id a = jobID \<and> ja_result a = AttemptFailed \<and> ja_error a \<noteq> None"

definition failureCount :: "env \<Rightarrow> string \<Rightarrow> worker_db \<Rightarrow> worker_error + int" where
  "failureCount e jobID s =
     (if fails e ''count failures'' then Inl (ErrWorker ''count failures'')
      else Inr (int (sql_count (is_failure jobID) (job_attempts s))))"

definition requireJob :: "env \<Rightarrow> string \<Rightarrow> nat \<Rightarrow> worker_error + unit" where
  "requireJob e label affected =
     (if fails e (''read affected rows '' @ label) then Inl (ErrWorker ''read affected rows'')
      else if affected \<noteq> 1 then Inl ErrJobNotFound else Inr ())"

definition upsert_dead :: "dead_letter \<Rightarrow> dead_letter list \<Rightarrow> dead_letter list" where
  "upsert_dead d t =
     (case sql_insert dl_job_id d t of
        Some t' \<Rightarrow> t'
      | None \<Rightarrow> sql_update (\<lambda>x. dl_job_id x = dl_job_id d) (\<lambda>_. d) t)"

definition deadLetter ::
  "env \<Rightarrow> job_receipt \<Rightarrow> job_event option \<Rightarrow> string \<Rightarrow> time \<Rightarrow> worker_db \<Rightarrow> (worker_error + unit) \<times> worker_db" where
  "deadLetter e receipt payload jobError now s =
     (let p = (\<lambda>r. jr_job_id r = jr_job_id receipt \<and> jr_state r = jr_state receipt \<and> jr_attempts r = jr_attempts receipt);
          s' = s\<lparr>job_receipts := sql_update p (\<lambda>r. r\<lparr>jr_state := StateDead, jr_last_error := Some jobError,
                   jr_updated_at := now, jr_completed_at := Some now\<rparr>) (job_receipts s)\<rparr> in
      if fails e ''update dead job receipt'' then (Inl (ErrWorker ''update dead job receipt''), s)
      else (case requireJob e ''dead'' (sql_count p (job_receipts s)) of
              Inl err \<Rightarrow> (Inl err, s')
            | Inr _ \<Rightarrow>
                if fails e ''upsert dead letter'' then (Inl (ErrWorker ''upsert dead letter''), s')
                else (Inr (), s'\<lparr>dead_letters := upsert_dead \<lparr>dl_job_id = jr_job_id receipt, dl_kind = jr_kind receipt,
                        dl_payload = payload, dl_error = jobError, dl_created_at = now\<rparr> (dead_letters s')\<rparr>)))"

text \<open>The receipt \<open>Start\<close> works on: the stored one, or a new one inserted for this job.\<close>

definition first_receipt :: "string \<Rightarrow> string \<Rightarrow> time \<Rightarrow> job_receipt" where
  "first_receipt jobID kind now = \<lparr>jr_job_id = jobID, jr_kind = kind, jr_state = StateProcessing, jr_attempts = 0,
     jr_last_error = None, jr_first_seen_at = now, jr_updated_at = now, jr_completed_at = None\<rparr>"

definition open_receipt ::
  "env \<Rightarrow> string \<Rightarrow> string \<Rightarrow> worker_db \<Rightarrow> (worker_error + (bool \<times> job_receipt)) \<times> worker_db" where
  "open_receipt e jobID kind s =
     (case loadReceipt e jobID s of
        Inr r \<Rightarrow> (Inr (False, r), s)
      | Inl ErrJobNotFound \<Rightarrow>
          if fails e ''insert job receipt'' then (Inl (ErrWorker ''insert job receipt''), s)
          else (case sql_insert jr_job_id (first_receipt jobID kind (clock e 0)) (job_receipts s) of
                  None \<Rightarrow> (Inl (ErrWorker ''insert job receipt''), s)
                | Some t \<Rightarrow> (Inr (True, first_receipt jobID kind (clock e 0)), s\<lparr>job_receipts := t\<rparr>))
      | Inl err \<Rightarrow> (Inl err, s))"

text \<open>A lapsed lease: the running attempt becomes failed without an error.\<close>

definition interrupt :: "string \<Rightarrow> time \<Rightarrow> worker_db \<Rightarrow> worker_db" where
  "interrupt jobID now s = s\<lparr>job_attempts := sql_update (\<lambda>a. ja_job_id a = jobID \<and> ja_result a = AttemptRunning)
     (\<lambda>a. a\<lparr>ja_result := AttemptFailed, ja_finished_at := Some now, ja_error := None\<rparr>) (job_attempts s)\<rparr>"

definition last_failure :: "string \<Rightarrow> worker_db \<Rightarrow> string option" where
  "last_failure jobID s =
     (case sql_top (\<lambda>a b. ja_attempt b \<le> ja_attempt a) 1 (filter (is_failure jobID) (job_attempts s)) of
        [] \<Rightarrow> None
      | a # _ \<Rightarrow> ja_error a)"

text \<open>The new attempt and the receipt that leases it.\<close>

definition begin_attempt ::
  "env \<Rightarrow> job_receipt \<Rightarrow> time \<Rightarrow> worker_db \<Rightarrow> (worker_error + job_attempt) \<times> worker_db" where
  "begin_attempt e receipt now s =
     (let n = jr_attempts receipt + 1; jobID = jr_job_id receipt;
          s1 = s\<lparr>job_receipts := sql_update (\<lambda>r. jr_job_id r = jobID)
                 (\<lambda>r. r\<lparr>jr_state := StateProcessing, jr_attempts := n, jr_updated_at := now, jr_last_error := None\<rparr>)
                 (job_receipts s)\<rparr>;
          a = \<lparr>ja_id = attempt_seq s + 1, ja_job_id = jobID, ja_attempt = n, ja_started_at = now, ja_finished_at = None,
               ja_result = AttemptRunning, ja_error = None\<rparr> in
      if fails e ''update job receipt for attempt'' then (Inl (ErrWorker ''update job receipt for attempt''), s)
      else (case requireJob e ''attempt'' (sql_count (\<lambda>r. jr_job_id r = jobID) (job_receipts s)) of
              Inl err \<Rightarrow> (Inl err, s1)
            | Inr _ \<Rightarrow>
                if fails e ''insert job attempt'' then (Inl (ErrWorker ''insert job attempt''), s1)
                else if fails e ''read attempt id'' then (Inl (ErrWorker ''read attempt id''), s1)
                else (Inr a, s1\<lparr>job_attempts := job_attempts s1 @ [a], attempt_seq := attempt_seq s + 1\<rparr>)))"

definition lease_attempt ::
  "env \<Rightarrow> job_receipt \<Rightarrow> time \<Rightarrow> worker_db \<Rightarrow> worker_db \<Rightarrow> (worker_error + start_result) \<times> worker_db" where
  "lease_attempt e receipt now s2 s =
     (case begin_attempt e receipt now s2 of
        (Inl err, _) \<Rightarrow> (Inl err, s)
      | (Inr a, s3) \<Rightarrow>
          if fails e ''commit start job'' then (Inl (ErrWorker ''commit start job''), s) else (Inr (Started a), s3))"

text \<open>A job that has spent its failures without a dead letter gets one instead of an attempt.\<close>

definition bury ::
  "env \<Rightarrow> job_receipt \<Rightarrow> job_event option \<Rightarrow> time \<Rightarrow> worker_db \<Rightarrow> worker_db \<Rightarrow> (worker_error + start_result) \<times> worker_db" where
  "bury e receipt payload now s2 s =
     (if fails e ''load final job failure'' then (Inl (ErrWorker ''load final job failure''), s)
      else (case last_failure (jr_job_id receipt) s2 of
          None \<Rightarrow> (Inl (ErrWorker ''load final job failure''), s)
        | Some lastError \<Rightarrow>
            (case deadLetter e receipt payload lastError now s2 of
               (Inl err, _) \<Rightarrow> (Inl err, s)
             | (Inr _, s3) \<Rightarrow>
                 if fails e ''commit recovered dead letter''
                 then (Inl (ErrWorker ''commit recovered dead letter''), s) else (Inl ErrJobDead, s3))))"

text \<open>\<open>Start\<close> on a stored receipt that is not terminal.\<close>

definition resume ::
  "env \<Rightarrow> job_receipt \<Rightarrow> job_event option \<Rightarrow> int \<Rightarrow> worker_db \<Rightarrow> (worker_error + start_result) \<times> worker_db" where
  "resume e receipt payload maxFailures s =
     (let now = clock e 1; processing = (jr_state receipt = StateProcessing) in
      if processing \<and> now < jr_updated_at receipt + ProcessingLease then (Inl ErrJobProcessing, s)
      else if processing \<and> fails e ''recover interrupted attempt'' then (Inl (ErrWorker ''recover interrupted attempt''), s)
      else
        let s2 = (if processing then interrupt (jr_job_id receipt) now s else s) in
        (case failureCount e (jr_job_id receipt) s2 of
           Inl err \<Rightarrow> (Inl err, s)
         | Inr failures \<Rightarrow>
             if maxFailures \<le> failures then bury e receipt payload now s2 s
             else lease_attempt e receipt now s2 s))"

definition Start ::
  "env \<Rightarrow> string \<Rightarrow> string \<Rightarrow> job_event option \<Rightarrow> int \<Rightarrow> worker_db \<Rightarrow> (worker_error + start_result) \<times> worker_db" where
  "Start e jobID kind payload maxFailures s =
     (if jobID = [] \<or> kind = [] \<or> payload = None \<or> maxFailures < 1 then (Inl ErrInvalidJob, s)
      else if fails e ''begin start job'' then (Inl (ErrWorker ''begin start job''), s)
      else (case open_receipt e jobID kind s of
        (Inl err, _) \<Rightarrow> (Inl err, s)
      | (Inr (created, receipt), s1) \<Rightarrow>
        if jr_kind receipt \<noteq> kind then (Inl ErrInvalidJob, s)
        else if jr_state receipt = StateSucceeded then
          (if fails e ''commit duplicate succeeded job'' then (Inl (ErrWorker ''commit duplicate succeeded job''), s)
           else (Inr AlreadySucceeded, s1))
        else if jr_state receipt = StateDead then (Inl ErrJobDead, s)
        else if created then lease_attempt e receipt (clock e 1) s1 s
        else resume e receipt payload maxFailures s))"

definition finishAttempt ::
  "env \<Rightarrow> int \<Rightarrow> string \<Rightarrow> string option \<Rightarrow> job_event option \<Rightarrow> int \<Rightarrow> worker_db \<Rightarrow> (worker_error + bool) \<times> worker_db" where
  "finishAttempt e attemptID result jobErr payload maxFailures s =
     (if fails e ''begin finish job attempt'' then (Inl (ErrWorker ''begin finish job attempt''), s)
      else (case loadAttempt e attemptID s of
        Inl err \<Rightarrow> (Inl err, s)
      | Inr a \<Rightarrow>
        if ja_result a \<noteq> AttemptRunning then (Inl ErrStaleAttempt, s)
        else (case loadReceipt e (ja_job_id a) s of
          Inl err \<Rightarrow> (Inl err, s)
        | Inr receipt \<Rightarrow>
          if jr_state receipt \<noteq> StateProcessing \<or> jr_attempts receipt \<noteq> ja_attempt a then (Inl ErrStaleAttempt, s)
          else
            let now = clock e 1;
                pa = (\<lambda>x. ja_id x = attemptID \<and> ja_result x = AttemptRunning);
                s1 = s\<lparr>job_attempts := sql_update pa (\<lambda>x. x\<lparr>ja_result := result, ja_finished_at := Some now, ja_error := jobErr\<rparr>)
                       (job_attempts s)\<rparr>;
                state = (if result = AttemptFailed then StateFailed else StateSucceeded);
                completed = (if result = AttemptFailed then None else Some now);
                pr = (\<lambda>r. jr_job_id r = ja_job_id a \<and> jr_state r = StateProcessing \<and> jr_attempts r = ja_attempt a);
                s2 = s1\<lparr>job_receipts := sql_update pr (\<lambda>r. r\<lparr>jr_state := state, jr_last_error := jobErr, jr_updated_at := now,
                         jr_completed_at := (case completed of None \<Rightarrow> jr_completed_at r | Some t \<Rightarrow> Some t)\<rparr>) (job_receipts s1)\<rparr> in
            if fails e ''update job attempt'' then (Inl (ErrWorker ''update job attempt''), s)
            else (case requireJob e ''attempt'' (sql_count pa (job_attempts s)) of
              Inl err \<Rightarrow> (Inl err, s)
            | Inr _ \<Rightarrow>
              if fails e ''update job receipt'' then (Inl (ErrWorker ''update job receipt''), s)
              else if fails e ''read affected rows'' then (Inl (ErrWorker ''read affected rows''), s)
              else if sql_count pr (job_receipts s1) \<noteq> 1 then (Inl ErrStaleAttempt, s)
              else
                let commit = (\<lambda>dead t. if fails e ''commit finish job attempt''
                      then (Inl (ErrWorker ''commit finish job attempt''), s) else (Inr dead, t)) in
                if result \<noteq> AttemptFailed then commit False s2
                else (case failureCount e (ja_job_id a) s2 of
                  Inl err \<Rightarrow> (Inl err, s)
                | Inr failures \<Rightarrow>
                  if failures < maxFailures then commit False s2
                  else (case deadLetter e (receipt\<lparr>jr_state := StateFailed\<rparr>) payload (case jobErr of None \<Rightarrow> [] | Some t \<Rightarrow> t) now s2 of
                      (Inl err, _) \<Rightarrow> (Inl err, s)
                    | (Inr _, s3) \<Rightarrow> commit True s3))))))"

definition MarkSucceeded :: "env \<Rightarrow> int \<Rightarrow> worker_db \<Rightarrow> worker_error option \<times> worker_db" where
  "MarkSucceeded e attemptID s =
     (case finishAttempt e attemptID AttemptSucceeded None None 0 s of
        (Inl err, s') \<Rightarrow> (Some err, s')
      | (Inr _, s') \<Rightarrow> (None, s'))"

definition MarkFailed ::
  "env \<Rightarrow> int \<Rightarrow> string option \<Rightarrow> job_event option \<Rightarrow> int \<Rightarrow> worker_db \<Rightarrow> (worker_error + bool) \<times> worker_db" where
  "MarkFailed e attemptID jobErr payload maxFailures s =
     (if jobErr = None then (Inl (ErrWorker ''job error is required''), s)
      else if payload = None \<or> maxFailures < 1 then (Inl ErrInvalidJob, s)
      else finishAttempt e attemptID AttemptFailed jobErr payload maxFailures s)"

definition Attempts :: "env \<Rightarrow> string \<Rightarrow> worker_db \<Rightarrow> worker_error + job_attempt list" where
  "Attempts e jobID s =
     (if fails e ''list job attempts'' then Inl (ErrWorker ''list job attempts'')
      else Inr (sort_by (\<lambda>a b. ja_attempt a \<le> ja_attempt b) (filter (\<lambda>a. ja_job_id a = jobID) (job_attempts s))))"

definition DeadLetterRecord :: "env \<Rightarrow> string \<Rightarrow> worker_db \<Rightarrow> worker_error + dead_letter" where
  "DeadLetterRecord e jobID s =
     (if fails e ''load dead letter'' then Inl (ErrWorker ''load dead letter'')
      else (case sql_row (\<lambda>d. dl_job_id d = jobID) (dead_letters s) of
              None \<Rightarrow> Inl ErrJobNotFound
            | Some d \<Rightarrow> Inr d))"

subsection \<open>What the operations do\<close>

definition dead_db :: "job_receipt \<Rightarrow> job_event option \<Rightarrow> string \<Rightarrow> time \<Rightarrow> worker_db \<Rightarrow> worker_db" where
  "dead_db receipt payload err now s = s\<lparr>
     job_receipts := sql_update (\<lambda>r. jr_job_id r = jr_job_id receipt \<and> jr_state r = jr_state receipt \<and>
         jr_attempts r = jr_attempts receipt) (\<lambda>r. r\<lparr>jr_state := StateDead, jr_last_error := Some err,
         jr_updated_at := now, jr_completed_at := Some now\<rparr>) (job_receipts s),
     dead_letters := upsert_dead \<lparr>dl_job_id = jr_job_id receipt, dl_kind = jr_kind receipt, dl_payload = payload,
         dl_error = err, dl_created_at = now\<rparr> (dead_letters s)\<rparr>"

lemma deadLetter_Inr:
  assumes "deadLetter e receipt payload err now s = (Inr u, s')"
  shows "s' = dead_db receipt payload err now s"
  using assms by (auto simp: deadLetter_def Let_def dead_db_def split: if_splits sum.splits)

lemma deadLetter_Inl: "deadLetter e receipt payload err now s = (Inl x, s') \<Longrightarrow> x \<notin> {ErrJobDead, ErrInvalidJob}"
  by (auto simp: deadLetter_def Let_def requireJob_def split: if_splits)

definition new_attempt :: "worker_db \<Rightarrow> time \<Rightarrow> job_receipt \<Rightarrow> job_attempt" where
  "new_attempt s now r = \<lparr>ja_id = attempt_seq s + 1, ja_job_id = jr_job_id r, ja_attempt = jr_attempts r + 1,
     ja_started_at = now, ja_finished_at = None, ja_result = AttemptRunning, ja_error = None\<rparr>"

definition lease_db :: "time \<Rightarrow> job_receipt \<Rightarrow> worker_db \<Rightarrow> worker_db" where
  "lease_db now r s = s\<lparr>job_receipts := sql_update (\<lambda>x. jr_job_id x = jr_job_id r) (\<lambda>x. x\<lparr>jr_state := StateProcessing,
        jr_attempts := jr_attempts r + 1, jr_updated_at := now, jr_last_error := None\<rparr>) (job_receipts s),
      job_attempts := job_attempts s @ [new_attempt s now r], attempt_seq := attempt_seq s + 1\<rparr>"

abbreviation receipt_of :: "worker_db \<Rightarrow> string \<Rightarrow> job_receipt option" where
  "receipt_of s i \<equiv> sql_row (\<lambda>r. jr_job_id r = i) (job_receipts s)"

abbreviation attempts_of :: "worker_db \<Rightarrow> string \<Rightarrow> job_attempt list" where
  "attempts_of s i \<equiv> filter (\<lambda>a. ja_job_id a = i) (job_attempts s)"

abbreviation dead_of :: "worker_db \<Rightarrow> string \<Rightarrow> dead_letter option" where
  "dead_of s i \<equiv> sql_row (\<lambda>d. dl_job_id d = i) (dead_letters s)"

lemma begin_attempt_Inr:
  assumes "begin_attempt e r now s = (Inr a, s')"
  shows "a = new_attempt s now r \<and> s' = lease_db now r s"
  using assms by (auto simp: begin_attempt_def Let_def new_attempt_def lease_db_def split: if_splits sum.splits)

lemma open_receipt_Inr:
  assumes "open_receipt e jobID kind s = (Inr (created, r), s')"
  obtains (found) "\<not> created" "receipt_of s jobID = Some r" "s' = s"
  | (new) "created" "receipt_of s jobID = None" "r = first_receipt jobID kind (clock e 0)"
      "s' = s\<lparr>job_receipts := job_receipts s @ [r]\<rparr>"
proof (cases "loadReceipt e jobID s")
  case (Inr x)
  with assms have "x = r" "\<not> created" "s' = s" by (auto simp: open_receipt_def)
  with Inr show thesis by (intro found) (auto simp: loadReceipt_def split: if_splits option.splits)
next
  case (Inl err)
  then have "err = ErrJobNotFound"
    using assms by (cases err) (simp_all add: open_receipt_def)
  with Inl have "receipt_of s jobID = None"
    by (auto simp: loadReceipt_def split: if_splits option.splits)
  moreover have "created \<and> r = first_receipt jobID kind (clock e 0) \<and> s' = s\<lparr>job_receipts := job_receipts s @ [r]\<rparr>"
    using assms Inl \<open>err = ErrJobNotFound\<close> by (auto simp: open_receipt_def sql_insert_def split: if_splits)
  ultimately show thesis by (intro new) auto
qed

lemma lease_attempt_cases:
  assumes "lease_attempt e r now s2 s = (res, s')"
  obtains (refused) err where "res = Inl err" "err \<notin> {ErrJobDead, ErrInvalidJob}" "s' = s"
  | (leased) "res = Inr (Started (new_attempt s2 now r))" "s' = lease_db now r s2"
proof (cases "begin_attempt e r now s2")
  case (Pair b s3)
  show thesis
  proof (cases b)
    case (Inl err)
    then have "err \<notin> {ErrJobDead, ErrInvalidJob}"
      using Pair by (auto simp: begin_attempt_def Let_def requireJob_def split: if_splits)
    with Inl Pair assms show thesis by (intro refused) (auto simp: lease_attempt_def)
  next
    case (Inr a)
    with Pair have a: "a = new_attempt s2 now r" "s3 = lease_db now r s2"
      by (auto dest: begin_attempt_Inr)
    show thesis
    proof (cases "fails e ''commit start job''")
      case True
      with Pair Inr assms show thesis by (intro refused) (auto simp: lease_attempt_def)
    next
      case False
      with Pair Inr a assms show thesis by (intro leased) (auto simp: lease_attempt_def)
    qed
  qed
qed

lemma bury_cases:
  assumes "bury e r payload now s2 s = (res, s')"
  obtains (refused) err where "res = Inl err" "err \<notin> {ErrJobDead, ErrInvalidJob}" "s' = s"
  | (dead) err where "res = Inl ErrJobDead" "last_failure (jr_job_id r) s2 = Some err"
      "s' = dead_db r payload err now s2"
  using assms by (auto simp: bury_def dest!: deadLetter_Inr dest: deadLetter_Inl split: if_splits option.splits prod.splits sum.splits)

text \<open>What \<open>Start\<close> resumes from: the stored receipt is failed, or its lease has lapsed and the attempt that
  held it is marked interrupted.\<close>

definition resumable :: "job_receipt \<Rightarrow> time \<Rightarrow> worker_db \<Rightarrow> worker_db \<Rightarrow> bool" where
  "resumable r now s s1 \<longleftrightarrow> (if jr_state r = StateProcessing
     then jr_updated_at r + ProcessingLease \<le> now \<and> s1 = interrupt (jr_job_id r) now s else s1 = s)"

lemma resume_cases:
  assumes "resume e r payload maxF s = (res, s')"
  obtains (refused) err where "res = Inl err" "err \<notin> {ErrJobDead, ErrInvalidJob}" "s' = s"
  | (leased) s1 where "resumable r (clock e 1) s s1" "int (sql_count (is_failure (jr_job_id r)) (job_attempts s1)) < maxF"
      "res = Inr (Started (new_attempt s1 (clock e 1) r))" "s' = lease_db (clock e 1) r s1"
  | (dead) s1 err where "resumable r (clock e 1) s s1" "maxF \<le> int (sql_count (is_failure (jr_job_id r)) (job_attempts s1))"
      "res = Inl ErrJobDead" "last_failure (jr_job_id r) s1 = Some err" "s' = dead_db r payload err (clock e 1) s1"
proof -
  define s1 where "s1 = (if jr_state r = StateProcessing then interrupt (jr_job_id r) (clock e 1) s else s)"
  let ?n = "int (sql_count (is_failure (jr_job_id r)) (job_attempts s1))"
  consider (err) err where "res = Inl err" "err \<notin> {ErrJobDead, ErrInvalidJob}" "s' = s"
    | (bury) "resumable r (clock e 1) s s1" "maxF \<le> ?n" "bury e r payload (clock e 1) s1 s = (res, s')"
    | (lease) "resumable r (clock e 1) s s1" "?n < maxF" "lease_attempt e r (clock e 1) s1 s = (res, s')"
    using assms by (fastforce simp: resume_def Let_def failureCount_def s1_def resumable_def split: if_splits)
  then show thesis
  proof cases
    case err
    then show thesis by (rule refused)
  next
    case bury
    from bury(3) show thesis
      by (cases rule: bury_cases) (use bury refused dead in blast)+
  next
    case lease
    from lease(3) show thesis
      by (cases rule: lease_attempt_cases) (use lease refused leased in blast)+
  qed
qed

text \<open>The outcomes of \<open>Start\<close>.\<close>

lemma Start_cases:
  assumes "Start e jobID kind payload maxF s = (res, s')"
  obtains (refused) err where "res = Inl err" "s' = s"
      "err = ErrJobDead \<Longrightarrow> \<exists>r. receipt_of s jobID = Some r \<and> jr_state r = StateDead"
      "err = ErrInvalidJob \<Longrightarrow> jobID = [] \<or> kind = [] \<or> payload = None \<or> maxF < 1 \<or>
         (\<exists>r. receipt_of s jobID = Some r \<and> jr_kind r \<noteq> kind)"
  | (duplicate) r where "res = Inr AlreadySucceeded" "s' = s" "receipt_of s jobID = Some r" "jr_state r = StateSucceeded"
      "jr_kind r = kind"
  | (first) r where "receipt_of s jobID = None" "r = first_receipt jobID kind (clock e 0)"
      "res = Inr (Started (new_attempt s (clock e 1) r))"
      "s' = lease_db (clock e 1) r (s\<lparr>job_receipts := job_receipts s @ [r]\<rparr>)"
  | (again) r s1 where "receipt_of s jobID = Some r" "jr_kind r = kind" "jr_state r \<notin> {StateSucceeded, StateDead}"
      "resumable r (clock e 1) s s1" "int (sql_count (is_failure jobID) (job_attempts s1)) < maxF"
      "res = Inr (Started (new_attempt s1 (clock e 1) r))" "s' = lease_db (clock e 1) r s1"
  | (dead) r s1 err where "receipt_of s jobID = Some r" "jr_kind r = kind" "jr_state r \<notin> {StateSucceeded, StateDead}"
      "resumable r (clock e 1) s s1" "maxF \<le> int (sql_count (is_failure jobID) (job_attempts s1))"
      "res = Inl ErrJobDead" "last_failure jobID s1 = Some err" "s' = dead_db r payload err (clock e 1) s1" "payload \<noteq> None"
proof (cases "jobID = [] \<or> kind = [] \<or> payload = None \<or> maxF < 1 \<or> fails e ''begin start job''")
  case True
  with assms show thesis by (auto simp: Start_def intro: refused split: if_splits)
next
  case False
  obtain op s1 where o: "open_receipt e jobID kind s = (op, s1)" by fastforce
  show thesis
  proof (cases op)
    case (Inl err)
    have "err \<notin> {ErrJobDead, ErrInvalidJob}"
    proof
      assume "err \<in> {ErrJobDead, ErrInvalidJob}"
      with o Inl show False
        by (cases "loadReceipt e jobID s"; cases "projl (loadReceipt e jobID s)")
          (auto simp: open_receipt_def loadReceipt_def split: if_splits option.splits)
    qed
    with Inl False o assms show thesis by (intro refused) (auto simp: Start_def)
  next
    case (Inr cr)
    obtain created r where cr: "cr = (created, r)" by fastforce
    consider (kind) "jr_kind r \<noteq> kind" | (over) "jr_kind r = kind" "jr_state r \<in> {StateSucceeded, StateDead}"
      | (live) "jr_kind r = kind" "jr_state r \<notin> {StateSucceeded, StateDead}" by blast
    then show thesis
    proof cases
      case kind
      with o [unfolded Inr cr] have "receipt_of s jobID = Some r"
        by (cases rule: open_receipt_Inr) (simp_all add: first_receipt_def)
      with kind False o Inr cr assms show thesis by (intro refused [of ErrInvalidJob]) (auto simp: Start_def)
    next
      case over
      from o [unfolded Inr cr] over(2) have "receipt_of s jobID = Some r" "s1 = s"
        by (cases rule: open_receipt_Inr; simp add: first_receipt_def)+
      with over False o Inr cr assms show thesis
        by (auto simp: Start_def intro: refused duplicate split: if_splits)
    next
      case live
      with False o Inr cr assms
      have body: "(if created then lease_attempt e r (clock e 1) s1 s else resume e r payload maxF s) = (res, s')"
        by (auto simp: Start_def split: if_splits)
      from o [unfolded Inr cr] show thesis
      proof (cases rule: open_receipt_Inr)
        case new
        with body have "lease_attempt e r (clock e 1) s1 s = (res, s')" by simp
        then show thesis
        proof (cases rule: lease_attempt_cases)
          case leased
          with new first show thesis by (simp add: new_attempt_def)
        next
          case (refused err)
          with that(1) show thesis by blast
        qed
      next
        case found
        then have i: "jr_job_id r = jobID" by (auto dest: sql_row_Some)
        from found body have "resume e r payload maxF s = (res, s')" by simp
        then show thesis
          by (cases rule: resume_cases) (use found live refused again dead i False in blast)+
      qed
    qed
  qed
qed

text \<open>The state a finished attempt leaves, before a dead letter.\<close>

definition finish_db :: "job_attempt \<Rightarrow> string \<Rightarrow> string option \<Rightarrow> time \<Rightarrow> worker_db \<Rightarrow> worker_db" where
  "finish_db a result jobErr now s = s\<lparr>
     job_attempts := sql_update (\<lambda>x. ja_id x = ja_id a \<and> ja_result x = AttemptRunning)
       (\<lambda>x. x\<lparr>ja_result := result, ja_finished_at := Some now, ja_error := jobErr\<rparr>) (job_attempts s),
     job_receipts := sql_update (\<lambda>r. jr_job_id r = ja_job_id a \<and> jr_state r = StateProcessing \<and> jr_attempts r = ja_attempt a)
       (\<lambda>r. r\<lparr>jr_state := (if result = AttemptFailed then StateFailed else StateSucceeded), jr_last_error := jobErr,
          jr_updated_at := now, jr_completed_at := (if result = AttemptFailed then jr_completed_at r else Some now)\<rparr>)
       (job_receipts s)\<rparr>"

lemma finishAttempt_cases:
  assumes "finishAttempt e i result jobErr payload maxF s = (res, s')"
  obtains (refused) err where "res = Inl err" "s' = s"
  | (finished) a r where "sql_row (\<lambda>a. ja_id a = i) (job_attempts s) = Some a" "ja_result a = AttemptRunning"
      "receipt_of s (ja_job_id a) = Some r" "jr_state r = StateProcessing" "jr_attempts r = ja_attempt a"
      "res = Inr False" "s' = finish_db a result jobErr (clock e 1) s"
      "result = AttemptFailed \<Longrightarrow> int (sql_count (is_failure (ja_job_id a)) (job_attempts s')) < maxF"
  | (dead) a r where "sql_row (\<lambda>a. ja_id a = i) (job_attempts s) = Some a" "ja_result a = AttemptRunning"
      "receipt_of s (ja_job_id a) = Some r" "jr_state r = StateProcessing" "jr_attempts r = ja_attempt a"
      "res = Inr True" "result = AttemptFailed"
      "s' = dead_db (r\<lparr>jr_state := StateFailed\<rparr>) payload (case jobErr of None \<Rightarrow> [] | Some t \<Rightarrow> t) (clock e 1)
         (finish_db a result jobErr (clock e 1) s)"
      "maxF \<le> int (sql_count (is_failure (ja_job_id a)) (job_attempts s'))"
proof -
  consider (err) "\<exists>err. res = Inl err" "s' = s" | (found) a r where "sql_row (\<lambda>a. ja_id a = i) (job_attempts s) = Some a"
      "ja_result a = AttemptRunning" "receipt_of s (ja_job_id a) = Some r" "jr_state r = StateProcessing"
      "jr_attempts r = ja_attempt a" "\<not> fails e ''begin finish job attempt''" "loadAttempt e i s = Inr a"
      "loadReceipt e (ja_job_id a) s = Inr r"
    using assms by (auto simp: finishAttempt_def loadAttempt_def loadReceipt_def split: if_splits option.splits)
  then show thesis
  proof cases
    case err
    then show thesis using refused by blast
  next
    case found
    let ?s2 = "finish_db a result jobErr (clock e 1) s"
    have i: "ja_id a = i" using found(1) by (auto dest: sql_row_Some)
    show thesis
    proof (cases "\<exists>err. res = Inl err \<and> s' = s")
      case True
      then show thesis using refused by blast
    next
      case False
      let ?n = "int (sql_count (is_failure (ja_job_id a)) (job_attempts ?s2))"
      let ?dead = "deadLetter e (r\<lparr>jr_state := StateFailed\<rparr>) payload (case jobErr of None \<Rightarrow> [] | Some t \<Rightarrow> t) (clock e 1) ?s2"
      have "res = Inr False \<and> s' = ?s2 \<and> (result = AttemptFailed \<longrightarrow> ?n < maxF) \<or>
        (res = Inr True \<and> result = AttemptFailed \<and> maxF \<le> ?n \<and> (\<exists>u. ?dead = (Inr u, s')))"
        using assms False found(2-)
        by (cases "result = AttemptFailed")
          (auto simp: finishAttempt_def Let_def failureCount_def finish_db_def i split: if_splits sum.splits prod.splits)
      then show thesis
        using finished [OF found(1-5)] dead [OF found(1-5)] by (auto simp: dead_db_def dest!: deadLetter_Inr)
    qed
  qed
qed

lemma finishAttempt_Inl: "finishAttempt e i result jobErr payload maxF s = (Inl err, s') \<Longrightarrow> err \<noteq> ErrInvalidJob"
  by (auto simp: finishAttempt_def Let_def failureCount_def loadAttempt_def loadReceipt_def requireJob_def dest: deadLetter_Inl
      split: if_splits sum.splits prod.splits option.splits)

end
