(* ===== verification/Worker_Jobs.thy ===== *)
theory Worker_Jobs
  imports Worker_Store
begin

text \<open>
  The life of a job in the worker's tables: what every sequence of \<open>Start\<close>, \<open>MarkSucceeded\<close> and
  \<open>MarkFailed\<close> calls, by any number of workers sharing the database, keeps. The attempts of a job are
  numbered 1, 2, ... without gaps, only the newest can be running, at most one has succeeded, and a job is
  dead exactly when it has a dead letter.
\<close>

subsection \<open>The invariant\<close>

definition job_ok :: "job_receipt \<Rightarrow> job_attempt list \<Rightarrow> dead_letter option \<Rightarrow> bool" where
  "job_ok r as d \<longleftrightarrow> 1 \<le> jr_attempts r \<and> map ja_attempt as = [1..jr_attempts r] \<and>
     (\<forall>a\<in>set as. (ja_result a = AttemptRunning \<longleftrightarrow> jr_state r = StateProcessing \<and> ja_attempt a = jr_attempts r) \<and>
                 (ja_result a = AttemptRunning \<longrightarrow> ja_started_at a = jr_updated_at r) \<and>
                 (ja_result a = AttemptSucceeded \<longleftrightarrow> jr_state r = StateSucceeded \<and> ja_attempt a = jr_attempts r)) \<and>
     (jr_completed_at r \<noteq> None \<longleftrightarrow> jr_state r \<in> {StateSucceeded, StateDead}) \<and>
     (case d of None \<Rightarrow> jr_state r \<noteq> StateDead
      | Some x \<Rightarrow> jr_state r = StateDead \<and> dl_kind x = jr_kind r \<and> jr_last_error r = Some (dl_error x) \<and> dl_payload x \<noteq> None)"

definition worker_tables_ok :: "worker_db \<Rightarrow> bool" where
  "worker_tables_ok s \<longleftrightarrow> table_ok jr_job_id receipt_check (job_receipts s) \<and> table_ok ja_id attempt_check (job_attempts s) \<and>
     (\<forall>a\<in>set (job_attempts s). ja_id a \<le> attempt_seq s) \<and> distinct (map dl_job_id (dead_letters s))"

definition job_view_ok :: "worker_db \<Rightarrow> string \<Rightarrow> bool" where
  "job_view_ok s i \<longleftrightarrow> (case receipt_of s i of
      None \<Rightarrow> attempts_of s i = [] \<and> dead_of s i = None
    | Some r \<Rightarrow> job_ok r (attempts_of s i) (dead_of s i))"

definition worker_ok :: "worker_db \<Rightarrow> bool" where
  "worker_ok s \<longleftrightarrow> worker_tables_ok s \<and> (\<forall>i. job_view_ok s i)"

lemma worker_ok_Migrate [simp]: "worker_ok MigrateWorker"
  by (simp add: worker_ok_def worker_tables_ok_def job_view_ok_def MigrateWorker_def)

lemma worker_ok_job: "worker_ok s \<Longrightarrow> receipt_of s i = Some r \<Longrightarrow> job_ok r (attempts_of s i) (dead_of s i)"
  by (auto simp: worker_ok_def job_view_ok_def dest!: spec [of _ i] split: option.splits)

lemma worker_ok_none: "worker_ok s \<Longrightarrow> receipt_of s i = None \<Longrightarrow> attempts_of s i = [] \<and> dead_of s i = None"
  by (auto simp: worker_ok_def job_view_ok_def dest!: spec [of _ i] split: option.splits)

text \<open>A step that touches the rows of one job only.\<close>

definition same_job :: "worker_db \<Rightarrow> worker_db \<Rightarrow> string \<Rightarrow> bool" where
  "same_job s s' j \<longleftrightarrow> receipt_of s' j = receipt_of s j \<and> attempts_of s' j = attempts_of s j \<and> dead_of s' j = dead_of s j"

lemma job_view_ok_same: "same_job s s' j \<Longrightarrow> job_view_ok s' j = job_view_ok s j"
  by (auto simp: job_view_ok_def same_job_def split: option.splits)

lemma worker_ok_step:
  assumes "worker_ok s" "worker_tables_ok s'" "\<And>j. j \<noteq> i \<Longrightarrow> same_job s s' j" "job_view_ok s' i"
  shows "worker_ok s'"
proof -
  have "job_view_ok s' j" for j
    using assms job_view_ok_same [OF assms(3)] by (cases "j = i") (auto simp: worker_ok_def)
  with assms(2) show ?thesis by (simp add: worker_ok_def)
qed

subsection \<open>Views after a step\<close>

lemma filter_sql_update: "(\<And>x. q (f x) = q x) \<Longrightarrow> filter q (sql_update p f t) = sql_update p f (filter q t)"
  by (induction t) (auto simp: sql_update_def)

lemma receipt_of_lease [table_simps]: "receipt_of (lease_db now r s) j =
    map_option (\<lambda>x. if jr_job_id x = jr_job_id r then x\<lparr>jr_state := StateProcessing, jr_attempts := jr_attempts r + 1,
      jr_updated_at := now, jr_last_error := None\<rparr> else x) (receipt_of s j)"
  by (simp add: lease_db_def sql_row_update)

lemma attempts_of_lease [table_simps]: "attempts_of (lease_db now r s) j =
    attempts_of s j @ (if j = jr_job_id r then [new_attempt s now r] else [])"
  by (simp add: lease_db_def new_attempt_def)

lemma lease_frame [frame_simps]: "dead_letters (lease_db now r s) = dead_letters s" "attempt_seq (lease_db now r s) = attempt_seq s + 1"
  "job_attempts (lease_db now r s) = job_attempts s @ [new_attempt s now r]"
  by (simp_all add: lease_db_def)

lemma attempts_filter_update:
  "(\<And>a. ja_job_id (f a) = ja_job_id a) \<Longrightarrow>
   filter (\<lambda>a. ja_job_id a = j) (sql_update (\<lambda>a. ja_job_id a = i \<and> p a) f t) =
     (if j = i then sql_update p f (filter (\<lambda>a. ja_job_id a = j) t) else filter (\<lambda>a. ja_job_id a = j) t)"
  by (induction t) (auto simp: sql_update_def)

lemma attempts_of_interrupt [table_simps]: "attempts_of (interrupt i now s) j =
    (if j = i then sql_update (\<lambda>a. ja_result a = AttemptRunning)
       (\<lambda>a. a\<lparr>ja_result := AttemptFailed, ja_finished_at := Some now, ja_error := None\<rparr>) (attempts_of s j) else attempts_of s j)"
  by (simp add: interrupt_def attempts_filter_update)

lemma interrupt_frame [frame_simps]: "job_receipts (interrupt i now s) = job_receipts s" "dead_letters (interrupt i now s) = dead_letters s"
  "attempt_seq (interrupt i now s) = attempt_seq s"
  by (simp_all add: interrupt_def)

lemma dead_of_upsert [table_simps]:
  "sql_row (\<lambda>d. dl_job_id d = j) (upsert_dead x t) =
     (if j = dl_job_id x then Some x else sql_row (\<lambda>d. dl_job_id d = j) t)"
proof (cases "dl_job_id x \<in> dl_job_id ` set t")
  case True
  let ?u = "sql_update (\<lambda>y. dl_job_id y = dl_job_id x) (\<lambda>_. x)"
  have "j \<noteq> dl_job_id x \<Longrightarrow> sql_row (\<lambda>d. dl_job_id d = j) (?u t) = sql_row (\<lambda>d. dl_job_id d = j) t"
    by (induction t) (simp_all add: sql_row_def sql_update_def)
  moreover have "sql_row (\<lambda>d. dl_job_id d = dl_job_id x) (?u t) = Some x"
    using True by (induction t) (auto simp: sql_row_def sql_update_def)
  ultimately show ?thesis
    using True by (auto simp: upsert_dead_def sql_insert_def)
next
  case False
  then have "j = dl_job_id x \<Longrightarrow> sql_row (\<lambda>d. dl_job_id d = j) t = None"
    by (auto simp: sql_row_None image_iff)
  with False show ?thesis
    by (auto simp: upsert_dead_def sql_insert_def sql_row_append split: option.splits)
qed

lemma distinct_upsert: "distinct (map dl_job_id t) \<Longrightarrow> distinct (map dl_job_id (upsert_dead x t))"
proof -
  have "map dl_job_id (sql_update (\<lambda>y. dl_job_id y = dl_job_id x) (\<lambda>_. x) t) = map dl_job_id t"
    by (induction t) (auto simp: sql_update_def)
  moreover assume "distinct (map dl_job_id t)"
  ultimately show ?thesis
    by (auto simp: upsert_dead_def sql_insert_def)
qed

lemma receipt_of_dead [table_simps]: "receipt_of (dead_db r payload err now s) j =
    map_option (\<lambda>x. if jr_job_id x = jr_job_id r \<and> jr_state x = jr_state r \<and> jr_attempts x = jr_attempts r
      then x\<lparr>jr_state := StateDead, jr_last_error := Some err, jr_updated_at := now, jr_completed_at := Some now\<rparr> else x)
      (receipt_of s j)"
  by (simp add: dead_db_def sql_row_update)

lemma dead_frame [frame_simps]: "job_attempts (dead_db r payload err now s) = job_attempts s"
  "attempt_seq (dead_db r payload err now s) = attempt_seq s"
  by (simp_all add: dead_db_def)

lemma dead_of_dead [table_simps]: "dead_of (dead_db r payload err now s) j = (if j = jr_job_id r
    then Some \<lparr>dl_job_id = jr_job_id r, dl_kind = jr_kind r, dl_payload = payload, dl_error = err, dl_created_at = now\<rparr>
    else dead_of s j)"
  by (simp add: dead_db_def dead_of_upsert)

lemma receipt_of_finish [table_simps]: "receipt_of (finish_db a result jobErr now s) j =
    map_option (\<lambda>r. if jr_job_id r = ja_job_id a \<and> jr_state r = StateProcessing \<and> jr_attempts r = ja_attempt a
      then r\<lparr>jr_state := (if result = AttemptFailed then StateFailed else StateSucceeded), jr_last_error := jobErr,
          jr_updated_at := now, jr_completed_at := (if result = AttemptFailed then jr_completed_at r else Some now)\<rparr>
      else r) (receipt_of s j)"
  by (simp add: finish_db_def sql_row_update)

lemma attempts_of_finish [table_simps]: "attempts_of (finish_db a result jobErr now s) j =
    sql_update (\<lambda>x. ja_id x = ja_id a \<and> ja_result x = AttemptRunning)
       (\<lambda>x. x\<lparr>ja_result := result, ja_finished_at := Some now, ja_error := jobErr\<rparr>) (attempts_of s j)"
  by (simp add: finish_db_def filter_sql_update)

lemma finish_frame [frame_simps]: "dead_letters (finish_db a result jobErr now s) = dead_letters s"
  "attempt_seq (finish_db a result jobErr now s) = attempt_seq s"
  by (simp_all add: finish_db_def)

subsection \<open>Tables\<close>

lemma table_ok_append: "table_ok key chk t \<Longrightarrow> chk r \<Longrightarrow> key r \<notin> key ` set t \<Longrightarrow> table_ok key chk (t @ [r])"
  by (auto simp: table_ok_def)

lemma tables_ok_lease:
  assumes "worker_tables_ok s" "0 \<le> jr_attempts r"
  shows "worker_tables_ok (lease_db now r s)"
proof -
  have "table_ok jr_job_id receipt_check (job_receipts (lease_db now r s))"
    unfolding lease_db_def using assms
    by (auto simp: worker_tables_ok_def receipt_check_def intro!: table_ok_update)
  moreover have "table_ok ja_id attempt_check (job_attempts (lease_db now r s))"
    unfolding lease_frame using assms
    by (intro table_ok_append) (auto simp: worker_tables_ok_def attempt_check_def new_attempt_def)
  ultimately show ?thesis
    using assms by (auto simp: worker_tables_ok_def frame_simps new_attempt_def)
qed

lemma tables_ok_interrupt: "worker_tables_ok s \<Longrightarrow> worker_tables_ok (interrupt i now s)"
  by (auto simp: worker_tables_ok_def interrupt_def attempt_check_def set_update intro!: table_ok_update)

lemma tables_ok_resumable: "worker_tables_ok s \<Longrightarrow> resumable r now s s1 \<Longrightarrow> worker_tables_ok s1"
  by (auto simp: resumable_def tables_ok_interrupt split: if_splits)

lemma tables_ok_dead: "worker_tables_ok s \<Longrightarrow> worker_tables_ok (dead_db r payload err now s)"
  by (auto simp: worker_tables_ok_def dead_db_def receipt_check_def distinct_upsert intro!: table_ok_update)

lemma tables_ok_finish:
  "worker_tables_ok s \<Longrightarrow> result \<in> {AttemptSucceeded, AttemptFailed} \<Longrightarrow> worker_tables_ok (finish_db a result jobErr now s)"
  by (auto simp: worker_tables_ok_def finish_db_def receipt_check_def attempt_check_def set_update intro!: table_ok_update)

subsection \<open>Every operation keeps it\<close>

text \<open>The rows of a job after its lapsed lease is interrupted.\<close>

definition idle :: "job_receipt \<Rightarrow> job_attempt list \<Rightarrow> bool" where
  "idle r as \<longleftrightarrow> map ja_attempt as = [1..jr_attempts r] \<and> (\<forall>a\<in>set as. ja_result a \<notin> {AttemptRunning, AttemptSucceeded})"

lemma idle_interrupted:
  assumes "job_ok r as d" "jr_state r = StateProcessing"
  shows "idle r (sql_update (\<lambda>a. ja_result a = AttemptRunning)
    (\<lambda>a. a\<lparr>ja_result := AttemptFailed, ja_finished_at := Some now, ja_error := None\<rparr>) as)"
  using assms by (auto simp: idle_def job_ok_def set_update map_key_update)

lemma idle_waiting: "job_ok r as d \<Longrightarrow> jr_state r \<notin> {StateProcessing, StateSucceeded} \<Longrightarrow> idle r as"
  by (auto simp: idle_def job_ok_def)

lemma idle_resumable:
  assumes "worker_ok s" "receipt_of s (jr_job_id r) = Some r" "jr_state r \<notin> {StateSucceeded, StateDead}" "resumable r now s s1"
  shows "idle r (attempts_of s1 (jr_job_id r))"
proof (cases "jr_state r = StateProcessing")
  case True
  with assms(4) idle_interrupted [OF worker_ok_job [OF assms(1,2)] True] show ?thesis
    by (simp add: resumable_def attempts_of_interrupt)
next
  case False
  with assms(3,4) idle_waiting [OF worker_ok_job [OF assms(1,2)]] show ?thesis
    by (simp add: resumable_def)
qed

lemma resumable_frame:
  assumes "resumable r now s s1"
  shows "job_receipts s1 = job_receipts s" "dead_letters s1 = dead_letters s" "attempt_seq s1 = attempt_seq s"
    "j \<noteq> jr_job_id r \<Longrightarrow> attempts_of s1 j = attempts_of s j"
  using assms by (auto simp: resumable_def attempts_of_interrupt frame_simps split: if_splits)

lemma upto_snoc: "1 \<le> n + 1 \<Longrightarrow> [1..n] @ [n + 1] = [1..n + (1 :: int)]"
  by (simp add: upto_rec2)

lemma other_receipt:
  "k \<noteq> i \<Longrightarrow> map_option (\<lambda>x. if jr_job_id x = i then f x else x) (receipt_of s k) = receipt_of s k"
  "k \<noteq> i \<Longrightarrow> map_option (\<lambda>x. if jr_job_id x = i \<and> p x then f x else x) (receipt_of s k) = receipt_of s k"
  by (cases "receipt_of s k"; auto dest: sql_row_Some)+

lemma idle_leased:
  assumes "idle r as" "job_ok r as' d" "jr_state r \<noteq> StateDead" "jr_state r \<noteq> StateSucceeded" "ja_attempt a = jr_attempts r + 1"
    "ja_result a = AttemptRunning" "ja_started_at a = now"
  shows "job_ok (r\<lparr>jr_state := StateProcessing, jr_attempts := jr_attempts r + 1, jr_updated_at := now, jr_last_error := None\<rparr>)
    (as @ [a]) d"
proof -
  have "ja_attempt x < jr_attempts r + 1" if "x \<in> set as" for x
  proof -
    have "ja_attempt x \<in> set [1..jr_attempts r]"
      using assms(1) that by (metis idle_def imageI list.set_map)
    then show ?thesis by simp
  qed
  with assms show ?thesis
    by (fastforce simp: job_ok_def idle_def upto_snoc split: option.splits)
qed

lemma worker_ok_again:
  assumes "worker_ok s" "receipt_of s (jr_job_id r) = Some r" "jr_state r \<notin> {StateSucceeded, StateDead}" "resumable r now s s1"
  shows "worker_ok (lease_db now r s1)"
proof (rule worker_ok_step [OF assms(1)])
  note f = resumable_frame [OF assms(4)] and j = worker_ok_job [OF assms(1,2)]
  show "worker_tables_ok (lease_db now r s1)"
    using assms(1) j by (intro tables_ok_lease tables_ok_resumable [OF _ assms(4)]) (simp_all add: worker_ok_def job_ok_def)
  show "same_job s (lease_db now r s1) k" if "k \<noteq> jr_job_id r" for k
    unfolding same_job_def receipt_of_lease attempts_of_lease lease_frame(1,2) f(1-3) f(4) [OF that] other_receipt(1) [OF that]
    using that by simp
  have "job_ok (r\<lparr>jr_state := StateProcessing, jr_attempts := jr_attempts r + 1, jr_updated_at := now, jr_last_error := None\<rparr>)
      (attempts_of s1 (jr_job_id r) @ [new_attempt s1 now r]) (dead_of s (jr_job_id r))"
    using assms(3) by (intro idle_leased [OF idle_resumable [OF assms] j]) (auto simp: new_attempt_def)
  then show "job_view_ok (lease_db now r s1) (jr_job_id r)"
    using assms(2) by (simp add: job_view_ok_def receipt_of_lease attempts_of_lease f(1-3) lease_frame(1,2))
qed

lemma worker_ok_first:
  assumes "worker_ok s" "receipt_of s i = None" "r = first_receipt i kind t"
  shows "worker_ok (lease_db now r (s\<lparr>job_receipts := job_receipts s @ [r]\<rparr>))" (is "worker_ok (lease_db now r ?s1)")
proof (rule worker_ok_step [OF assms(1)])
  have id: "jr_job_id r = i" "jr_attempts r = 0" "jr_state r = StateProcessing" "jr_completed_at r = None"
    by (simp_all add: assms(3) first_receipt_def)
  note n = worker_ok_none [OF assms(1,2)]
  have rcpt: "sql_row (\<lambda>r. jr_job_id r = k) (job_receipts s @ [r]) = (if k = i then Some r else receipt_of s k)" for k
    using assms(2) id by (auto simp: sql_row_append split: option.splits)
  have "worker_tables_ok ?s1"
    using assms(1,2) id by (auto simp: worker_ok_def worker_tables_ok_def receipt_check_def sql_row_None intro!: table_ok_append)
  then show "worker_tables_ok (lease_db now r ?s1)"
    by (rule tables_ok_lease) (simp add: id)
  show "same_job s (lease_db now r ?s1) k" if "k \<noteq> i" for k
    using that id unfolding same_job_def receipt_of_lease attempts_of_lease lease_frame(1,2)
    by (simp add: rcpt other_receipt)
  show "job_view_ok (lease_db now r ?s1) i"
    using n id by (simp add: job_view_ok_def receipt_of_lease attempts_of_lease lease_frame(1,2) rcpt job_ok_def new_attempt_def)
qed

lemma idle_dead:
  assumes "idle r as" "1 \<le> jr_attempts r" "dl_kind x = jr_kind r" "dl_payload x \<noteq> None"
  shows "job_ok (r\<lparr>jr_state := StateDead, jr_last_error := Some (dl_error x), jr_updated_at := now, jr_completed_at := Some now\<rparr>)
    as (Some x)"
  using assms by (auto simp: job_ok_def idle_def)

lemma worker_ok_dead:
  assumes "worker_tables_ok s1" "\<And>k. k \<noteq> jr_job_id r \<Longrightarrow> job_view_ok s1 k" "receipt_of s1 (jr_job_id r) = Some r'"
    "jr_state r' = jr_state r" "jr_attempts r' = jr_attempts r" "jr_kind r' = jr_kind r"
    "idle r' (attempts_of s1 (jr_job_id r))" "1 \<le> jr_attempts r" "payload \<noteq> None"
  shows "worker_ok (dead_db r payload err now s1)"
proof -
  let ?s' = "dead_db r payload err now s1"
  have "jr_job_id r' = jr_job_id r" using assms(3) by (auto dest: sql_row_Some)
  then have "job_view_ok ?s' (jr_job_id r)"
    using idle_dead [OF assms(7), of "\<lparr>dl_job_id = jr_job_id r, dl_kind = jr_kind r, dl_payload = payload, dl_error = err,
        dl_created_at = now\<rparr>" now] assms
    by (simp add: job_view_ok_def receipt_of_dead dead_of_dead dead_frame)
  moreover have "job_view_ok ?s' k" if "k \<noteq> jr_job_id r" for k
  proof -
    have "same_job s1 ?s' k"
      using that unfolding same_job_def receipt_of_dead dead_of_dead dead_frame by (simp add: other_receipt(2) [OF that])
    with assms(2) [OF that] show ?thesis by (simp add: job_view_ok_same)
  qed
  ultimately have "job_view_ok ?s' k" for k by (cases "k = jr_job_id r") simp_all
  with tables_ok_dead [OF assms(1)] show ?thesis by (simp add: worker_ok_def)
qed

text \<open>The running attempt of a job is its newest.\<close>

lemma running_unique:
  assumes "job_ok r as d" "a \<in> set as" "ja_result a = AttemptRunning" "x \<in> set as"
  shows "ja_result x = AttemptRunning \<longleftrightarrow> x = a"
proof
  assume "ja_result x = AttemptRunning"
  with assms have "ja_attempt x = ja_attempt a" by (auto simp: job_ok_def)
  moreover have "distinct (map ja_attempt as)" using assms(1) by (simp add: job_ok_def)
  ultimately show "x = a" using assms(2,4) by (auto simp: distinct_map inj_on_def)
qed (use assms in simp)

abbreviation finish_list :: "job_attempt \<Rightarrow> string \<Rightarrow> string option \<Rightarrow> time \<Rightarrow> job_attempt list \<Rightarrow> job_attempt list" where
  "finish_list a result jobErr now \<equiv> sql_update (\<lambda>x. ja_id x = ja_id a \<and> ja_result x = AttemptRunning)
     (\<lambda>x. x\<lparr>ja_result := result, ja_finished_at := Some now, ja_error := jobErr\<rparr>)"

lemma finish_list_running:
  assumes "job_ok r as d" "a \<in> set as" "ja_result a = AttemptRunning"
  shows "finish_list a result jobErr now as = sql_update (\<lambda>x. ja_result x = AttemptRunning)
     (\<lambda>x. x\<lparr>ja_result := result, ja_finished_at := Some now, ja_error := jobErr\<rparr>) as"
  using running_unique [OF assms] by (intro sql_update_cong) blast

lemma idle_finished:
  assumes "job_ok r as d" "a \<in> set as" "ja_result a = AttemptRunning" "jr_state r = StateProcessing"
  shows "idle r (finish_list a AttemptFailed jobErr now as)"
  using assms(1,4) unfolding finish_list_running [OF assms(1-3)]
  by (auto simp: idle_def job_ok_def set_update map_key_update)

lemma job_ok_failed:
  assumes "idle r as" "1 \<le> jr_attempts r" "jr_completed_at r = None" "jr_state r \<notin> {StateProcessing, StateSucceeded, StateDead}"
  shows "job_ok r as None"
  using assms by (auto simp: job_ok_def idle_def)

lemma job_ok_succeeded:
  assumes "job_ok r as d" "a \<in> set as" "ja_result a = AttemptRunning" "jr_state r = StateProcessing"
  shows "job_ok (r\<lparr>jr_state := StateSucceeded, jr_last_error := None, jr_updated_at := now, jr_completed_at := Some now\<rparr>)
    (finish_list a AttemptSucceeded None now as) d"
  using assms(1,4) unfolding finish_list_running [OF assms(1-3)]
  by (auto simp: job_ok_def set_update map_key_update split: option.splits)

text \<open>An attempt that holds the lease of its job: what \<open>finishAttempt\<close> requires.\<close>

definition holds_lease :: "worker_db \<Rightarrow> job_attempt \<Rightarrow> job_receipt \<Rightarrow> bool" where
  "holds_lease s a r \<longleftrightarrow> a \<in> set (job_attempts s) \<and> ja_result a = AttemptRunning \<and>
     receipt_of s (ja_job_id a) = Some r \<and> jr_state r = StateProcessing \<and> jr_attempts r = ja_attempt a"

lemma holds_leaseD:
  assumes "worker_ok s" "holds_lease s a r"
  shows "job_ok r (attempts_of s (ja_job_id a)) (dead_of s (ja_job_id a))" "jr_job_id r = ja_job_id a"
    "a \<in> set (attempts_of s (ja_job_id a))" "ja_result a = AttemptRunning" "receipt_of s (ja_job_id a) = Some r"
    "jr_state r = StateProcessing" "jr_attempts r = ja_attempt a" "dead_of s (ja_job_id a) = None"
proof -
  show r: "receipt_of s (ja_job_id a) = Some r" "jr_state r = StateProcessing" "ja_result a = AttemptRunning"
    "jr_attempts r = ja_attempt a" "a \<in> set (attempts_of s (ja_job_id a))"
    using assms(2) by (auto simp: holds_lease_def)
  show "job_ok r (attempts_of s (ja_job_id a)) (dead_of s (ja_job_id a))"
    by (rule worker_ok_job [OF assms(1) r(1)])
  then show "dead_of s (ja_job_id a) = None"
    using r(2) by (auto simp: job_ok_def split: option.splits)
  show "jr_job_id r = ja_job_id a" using r(1) by (auto dest: sql_row_Some)
qed

lemma finish_others:
  assumes "worker_ok s" "holds_lease s a r" "k \<noteq> ja_job_id a"
  shows "same_job s (finish_db a result jobErr now s) k"
proof -
  have "distinct (map ja_id (job_attempts s))"
    using assms(1) by (auto simp: worker_ok_def worker_tables_ok_def table_ok_def)
  with assms(2,3) have "ja_id x \<noteq> ja_id a" if "x \<in> set (attempts_of s k)" for x
    using that by (auto simp: holds_lease_def distinct_map inj_on_def)
  then have "finish_list a result jobErr now (attempts_of s k) = attempts_of s k"
    by (auto simp: sql_update_def intro!: map_idI)
  then show ?thesis
    unfolding same_job_def receipt_of_finish attempts_of_finish finish_frame
    by (simp add: other_receipt(2) [OF assms(3)])
qed

lemma finish_tables:
  "worker_ok s \<Longrightarrow> result \<in> {AttemptSucceeded, AttemptFailed} \<Longrightarrow> worker_tables_ok (finish_db a result jobErr now s)"
  by (intro tables_ok_finish) (simp_all add: worker_ok_def)

lemma worker_ok_succeeded:
  assumes "worker_ok s" "holds_lease s a r"
  shows "worker_ok (finish_db a AttemptSucceeded None now s)"
proof (rule worker_ok_step [OF assms(1) finish_tables finish_others])
  note h = holds_leaseD [OF assms]
  show "job_view_ok (finish_db a AttemptSucceeded None now s) (ja_job_id a)"
    using job_ok_succeeded [OF h(1,3,4,6), of now] h
    by (simp add: job_view_ok_def receipt_of_finish attempts_of_finish finish_frame)
qed (use assms in simp_all)

lemma failed_receipt:
  assumes "worker_ok s" "holds_lease s a r"
  shows "receipt_of (finish_db a AttemptFailed jobErr now s) (ja_job_id a) =
    Some (r\<lparr>jr_state := StateFailed, jr_last_error := jobErr, jr_updated_at := now\<rparr>)"
  using holds_leaseD [OF assms] by (simp add: receipt_of_finish)

lemma failed_idle:
  assumes "worker_ok s" "holds_lease s a r"
  shows "idle r (attempts_of (finish_db a AttemptFailed jobErr now s) (ja_job_id a))"
  unfolding attempts_of_finish by (rule idle_finished [OF holds_leaseD(1,3,4,6) [OF assms]])

lemma worker_ok_failed:
  assumes "worker_ok s" "holds_lease s a r"
  shows "worker_ok (finish_db a AttemptFailed jobErr now s)" (is "worker_ok ?s'")
proof (rule worker_ok_step [OF assms(1) finish_tables finish_others])
  note h = holds_leaseD [OF assms]
  have "job_ok (r\<lparr>jr_state := StateFailed, jr_last_error := jobErr, jr_updated_at := now\<rparr>) (attempts_of ?s' (ja_job_id a)) None"
    by (rule job_ok_failed) (use failed_idle [OF assms, of jobErr now] h(1,6) in \<open>simp_all add: idle_def job_ok_def\<close>)
  then show "job_view_ok ?s' (ja_job_id a)"
    using h(8) unfolding job_view_ok_def failed_receipt [OF assms] finish_frame by simp
qed (use assms in simp_all)

lemma worker_ok_died:
  assumes "worker_ok s" "holds_lease s a r" "payload \<noteq> None"
  shows "worker_ok (dead_db (r\<lparr>jr_state := StateFailed\<rparr>) payload err now (finish_db a AttemptFailed jobErr now s))"
    (is "worker_ok (dead_db ?r payload err now ?s')")
proof (rule worker_ok_dead [where r' = "r\<lparr>jr_state := StateFailed, jr_last_error := jobErr, jr_updated_at := now\<rparr>"])
  note h = holds_leaseD [OF assms(1,2)]
  show "worker_tables_ok ?s'" "job_view_ok ?s' k" for k
    using worker_ok_failed [OF assms(1,2)] by (simp_all add: worker_ok_def)
  show "receipt_of ?s' (jr_job_id ?r) = Some (r\<lparr>jr_state := StateFailed, jr_last_error := jobErr, jr_updated_at := now\<rparr>)"
    using failed_receipt [OF assms(1,2)] h(2) by simp
  show "idle (r\<lparr>jr_state := StateFailed, jr_last_error := jobErr, jr_updated_at := now\<rparr>) (attempts_of ?s' (jr_job_id ?r))"
    using failed_idle [OF assms(1,2), of jobErr now] h(2) by (simp add: idle_def)
  show "1 \<le> jr_attempts ?r" using h(1) by (simp add: job_ok_def)
qed (use assms in simp_all)

lemma worker_ok_Start:
  assumes "worker_ok s" "Start e jobID kind payload maxF s = (res, s')"
  shows "worker_ok s'"
  using assms(2)
proof (cases rule: Start_cases)
  case (first r)
  with assms(1) show ?thesis by (simp add: worker_ok_first)
next
  case (again r s1)
  then have "jr_job_id r = jobID" by (auto dest: sql_row_Some)
  with again assms(1) show ?thesis by (simp add: worker_ok_again)
next
  case (dead r s1 err)
  then have i: "jr_job_id r = jobID" by (auto dest: sql_row_Some)
  note f = resumable_frame [OF dead(4)]
  have "job_view_ok s1 k" if "k \<noteq> jr_job_id r" for k
    using assms(1) f(4) [OF that] job_view_ok_same [of s s1 k] by (simp add: worker_ok_def same_job_def f(1,2))
  moreover have "1 \<le> jr_attempts r" using worker_ok_job [OF assms(1) dead(1)] by (simp add: job_ok_def)
  ultimately show ?thesis
    unfolding dead(8) using dead(1-4,9) assms(1) i
    by (intro worker_ok_dead [where r' = r] tables_ok_resumable [OF _ dead(4)] idle_resumable [OF assms(1) _ _ dead(4)])
      (simp_all add: f(1) worker_ok_def)
qed (use assms(1) in simp_all)

lemma finishAttempt_holds:
  assumes "sql_row (\<lambda>a. ja_id a = i) (job_attempts s) = Some a" "ja_result a = AttemptRunning"
    "receipt_of s (ja_job_id a) = Some r" "jr_state r = StateProcessing" "jr_attempts r = ja_attempt a"
  shows "holds_lease s a r"
  using assms by (auto simp: holds_lease_def dest: sql_row_Some)

lemma worker_ok_MarkSucceeded:
  assumes "worker_ok s" "MarkSucceeded e i s = (res, s')"
  shows "worker_ok s'"
proof -
  obtain x where "finishAttempt e i AttemptSucceeded None None 0 s = (x, s')"
    using assms(2) by (auto simp: MarkSucceeded_def split: prod.splits sum.splits)
  then show ?thesis
  proof (cases rule: finishAttempt_cases)
    case (finished a r)
    with assms(1) finishAttempt_holds [OF finished(1-5)] show ?thesis by (simp add: worker_ok_succeeded)
  qed (use assms(1) in simp_all)
qed

lemma worker_ok_MarkFailed:
  assumes "worker_ok s" "MarkFailed e i jobErr payload maxF s = (res, s')"
  shows "worker_ok s'"
proof (cases "jobErr = None \<or> payload = None \<or> maxF < 1")
  case True
  with assms show ?thesis by (auto simp: MarkFailed_def split: if_splits)
next
  case False
  with assms(2) have "finishAttempt e i AttemptFailed jobErr payload maxF s = (res, s')"
    by (auto simp: MarkFailed_def)
  then show ?thesis
  proof (cases rule: finishAttempt_cases)
    case (finished a r)
    with assms(1) finishAttempt_holds [OF finished(1-5)] show ?thesis by (simp add: worker_ok_failed)
  next
    case (dead a r)
    with assms(1) finishAttempt_holds [OF dead(1-5)] False show ?thesis by (simp add: worker_ok_died)
  qed (use assms(1) in simp_all)
qed

subsection \<open>Sequences of calls\<close>

text \<open>Calls by any number of workers, with the failure budget \<open>maxF\<close> of their processors.\<close>

datatype worker_event =
    StartJob env string string "job_event option"
  | SucceedJob env int
  | FailJob env int "string option" "job_event option"

datatype worker_result =
    StartResult "worker_error + start_result"
  | SucceedResult "worker_error option"
  | FailResult "worker_error + bool"

fun worker_exec :: "int \<Rightarrow> worker_db \<Rightarrow> worker_event \<Rightarrow> worker_db \<times> worker_result" where
  "worker_exec maxF s (StartJob e i kind payload) = (case Start e i kind payload maxF s of (res, s') \<Rightarrow> (s', StartResult res))"
| "worker_exec maxF s (SucceedJob e a) = (case MarkSucceeded e a s of (res, s') \<Rightarrow> (s', SucceedResult res))"
| "worker_exec maxF s (FailJob e a err payload) = (case MarkFailed e a err payload maxF s of (res, s') \<Rightarrow> (s', FailResult res))"

lemma worker_ok_exec: "worker_ok s \<Longrightarrow> worker_ok (fst (worker_exec maxF s ev))"
  by (cases ev) (auto split: prod.splits intro: worker_ok_Start worker_ok_MarkSucceeded worker_ok_MarkFailed)

interpretation worker: machine "worker_exec maxF" worker_ok for maxF
  by unfold_locales (rule worker_ok_exec)

text \<open>What one call does to the tables.\<close>

lemma worker_exec_cases:
  assumes "worker_exec maxF s ev = (s', res)"
  obtains (none) "s' = s" "\<And>a. res \<noteq> StartResult (Inr (Started a))"
  | (first) e i kind payload r where "ev = StartJob e i kind payload" "receipt_of s i = None" "r = first_receipt i kind (clock e 0)"
      "s' = lease_db (clock e 1) r (s\<lparr>job_receipts := job_receipts s @ [r]\<rparr>)" "res = StartResult (Inr (Started (new_attempt s (clock e 1) r)))"
  | (again) e i kind payload r s1 where "ev = StartJob e i kind payload" "receipt_of s i = Some r"
      "jr_state r \<notin> {StateSucceeded, StateDead}" "resumable r (clock e 1) s s1"
      "int (sql_count (is_failure i) (job_attempts s1)) < maxF" "s' = lease_db (clock e 1) r s1"
      "res = StartResult (Inr (Started (new_attempt s1 (clock e 1) r)))"
  | (buried) e i kind payload r s1 err where "ev = StartJob e i kind payload" "receipt_of s i = Some r"
      "jr_state r \<notin> {StateSucceeded, StateDead}" "resumable r (clock e 1) s s1"
      "maxF \<le> int (sql_count (is_failure i) (job_attempts s1))" "s' = dead_db r payload err (clock e 1) s1"
      "payload \<noteq> None" "res = StartResult (Inl ErrJobDead)"
  | (succeeded) e i a r where "ev = SucceedJob e i" "ja_id a = i" "holds_lease s a r"
      "s' = finish_db a AttemptSucceeded None (clock e 1) s" "res = SucceedResult None"
  | (failed) e i err payload a r where "ev = FailJob e i err payload" "ja_id a = i" "holds_lease s a r" "err \<noteq> None"
      "s' = finish_db a AttemptFailed err (clock e 1) s" "int (sql_count (is_failure (ja_job_id a)) (job_attempts s')) < maxF"
      "res = FailResult (Inr False)"
  | (died) e i err payload a r where "ev = FailJob e i (Some err) payload" "ja_id a = i" "holds_lease s a r" "payload \<noteq> None"
      "s' = dead_db (r\<lparr>jr_state := StateFailed\<rparr>) payload err (clock e 1) (finish_db a AttemptFailed (Some err) (clock e 1) s)"
      "maxF \<le> int (sql_count (is_failure (ja_job_id a)) (job_attempts s'))" "res = FailResult (Inr True)"
proof (cases ev)
  case (StartJob e i kind payload)
  then obtain x where x: "Start e i kind payload maxF s = (x, s')" "res = StartResult x"
    using assms by (auto split: prod.splits)
  from x(1) show thesis
  proof (cases rule: Start_cases)
    case (first r)
    then show thesis using that(2) [OF StartJob] x(2) by simp
  next
    case (again r s1)
    then show thesis using that(3) [OF StartJob again(1,3,4,5)] x(2) by simp
  next
    case (dead r s1 err)
    then show thesis using that(4) [OF StartJob dead(1,3,4,5)] x(2) by simp
  qed (use that(1) x(2) in simp_all)
next
  case (SucceedJob e i)
  then obtain x where x: "finishAttempt e i AttemptSucceeded None None 0 s = (x, s')"
    "res = SucceedResult (case x of Inl err \<Rightarrow> Some err | Inr _ \<Rightarrow> None)"
    using assms by (auto simp: MarkSucceeded_def split: prod.splits sum.splits)
  from x(1) show thesis
  proof (cases rule: finishAttempt_cases)
    case (finished a r)
    then show thesis
      using that(5) [OF SucceedJob _ finishAttempt_holds [OF finished(1-5)]] x(2) by (auto dest: sql_row_Some)
  qed (use that(1) x(2) in simp_all)
next
  case (FailJob e i err payload)
  then have m: "MarkFailed e i err payload maxF s = (case res of FailResult x \<Rightarrow> x, s')" "\<exists>x. res = FailResult x"
    using assms by (auto split: prod.splits)
  show thesis
  proof (cases "err = None \<or> payload = None \<or> maxF < 1")
    case True
    with m that(1) show thesis by (auto simp: MarkFailed_def split: if_splits)
  next
    case False
    then obtain x where x: "finishAttempt e i AttemptFailed err payload maxF s = (x, s')" "res = FailResult x"
      using m by (auto simp: MarkFailed_def)
    from x(1) show thesis
    proof (cases rule: finishAttempt_cases)
      case (finished a r)
      then show thesis
        using that(6) [OF FailJob _ finishAttempt_holds [OF finished(1-5)]] x(2) False by (auto dest: sql_row_Some)
    next
      case (dead a r)
      obtain t where t: "err = Some t" using False by auto
      show thesis
        using that(7) [OF FailJob [unfolded t] _ finishAttempt_holds [OF dead(1-5)]] dead x(2) False t by (auto dest: sql_row_Some)
    qed (use that(1) x(2) in simp_all)
  qed
qed

end
