(* ===== verification/Worker_Promises.thy ===== *)
theory Worker_Promises
  imports Worker_Jobs
begin

text \<open>
  What the receipts promise the worker: the invariant of the tables, that a settled job stays as it is,
  that a lease is exclusive and fences every older attempt, and that a job fails at most as often as its
  budget allows, the last failure leaving a dead letter.
\<close>

subsection \<open>What a step leaves alone\<close>

lemma lease_others:
  assumes "resumable r now s s1" "k \<noteq> jr_job_id r"
  shows "same_job s (lease_db now r s1) k"
  unfolding same_job_def receipt_of_lease attempts_of_lease lease_frame(1,2) resumable_frame(1-3) [OF assms(1)]
    resumable_frame(4) [OF assms] other_receipt(1) [OF assms(2)]
  using assms(2) by simp

lemma first_others:
  assumes "r = first_receipt i kind t" "k \<noteq> i"
  shows "same_job s (lease_db now r (s\<lparr>job_receipts := job_receipts s @ [r]\<rparr>)) k"
proof -
  have i: "jr_job_id r = i" by (simp add: assms(1) first_receipt_def)
  with assms(2) have "sql_row (\<lambda>x. jr_job_id x = k) (job_receipts s @ [r]) = receipt_of s k"
    by (auto simp: sql_row_append split: option.splits)
  with i assms(2) other_receipt(1) [OF assms(2), of _ s] show ?thesis
    unfolding same_job_def receipt_of_lease attempts_of_lease lease_frame(1,2) by simp
qed

lemma dead_others:
  assumes "k \<noteq> jr_job_id r"
  shows "same_job s (dead_db r payload err now s) k"
  unfolding same_job_def receipt_of_dead dead_of_dead dead_frame other_receipt(2) [OF assms] using assms by simp

lemma same_job_refl [simp]: "same_job s s k"
  by (simp add: same_job_def)

lemma same_job_trans: "same_job s s1 k \<Longrightarrow> same_job s1 s2 k \<Longrightarrow> same_job s s2 k"
  by (simp add: same_job_def)

lemma resumable_others: "resumable r now s s1 \<Longrightarrow> k \<noteq> jr_job_id r \<Longrightarrow> same_job s s1 k"
  using resumable_frame [of r now s s1] by (simp add: same_job_def)

text \<open>Attempts that are over are never touched again.\<close>

lemma exec_history:
  assumes "worker_exec maxF s ev = (s', res)" "x \<in> set (job_attempts s)" "ja_result x \<noteq> AttemptRunning"
  shows "x \<in> set (job_attempts s')"
proof -
  have upd: "x \<in> set (sql_update (\<lambda>a. p a \<and> ja_result a = AttemptRunning) f (job_attempts s))" for p f
    using assms(2,3) by (force simp: set_update)
  then have res: "x \<in> set (job_attempts s1)" if "resumable r now s s1" for r now s1
    using that assms(2) by (auto simp: resumable_def interrupt_def split: if_splits)
  from assms(1) show ?thesis
  proof (cases rule: worker_exec_cases)
    case none
    with assms(2) show ?thesis by simp
  next
    case first
    with assms(2) show ?thesis by (simp add: lease_db_def)
  next
    case again
    with res show ?thesis by (simp add: lease_db_def)
  next
    case buried
    with res show ?thesis by (simp add: dead_frame)
  next
    case succeeded
    with upd show ?thesis by (simp add: finish_db_def)
  next
    case failed
    with upd show ?thesis by (simp add: finish_db_def)
  next
    case died
    with upd show ?thesis by (simp add: finish_db_def dead_frame)
  qed
qed

lemma run_history:
  "x \<in> set (job_attempts s) \<Longrightarrow> ja_result x \<noteq> AttemptRunning \<Longrightarrow> x \<in> set (job_attempts (run (worker_exec maxF) s es))"
proof (induction es arbitrary: s)
  case (Cons ev es)
  then show ?case using exec_history [of maxF s ev "fst (worker_exec maxF s ev)" "snd (worker_exec maxF s ev)" x] by simp
qed simp

subsection \<open>Settled jobs\<close>

definition settled :: "worker_db \<Rightarrow> string \<Rightarrow> bool" where
  "settled s i \<longleftrightarrow> (\<exists>r. receipt_of s i = Some r \<and> jr_state r \<in> {StateSucceeded, StateDead})"

definition leases :: "string \<Rightarrow> worker_result \<Rightarrow> bool" where
  "leases i res \<longleftrightarrow> (\<exists>a. res = StartResult (Inr (Started a)) \<and> ja_job_id a = i)"

lemma exec_settled:
  assumes "worker_ok s" "settled s i" "worker_exec maxF s ev = (s', res)"
  shows "same_job s s' i \<and> \<not> leases i res"
  using assms(3)
proof (cases rule: worker_exec_cases)
  case none
  then show ?thesis by (auto simp: leases_def)
next
  case (first e j kind payload r)
  with assms(2) have "i \<noteq> j" by (auto simp: settled_def)
  with first first_others [OF first(3) this] show ?thesis
    by (auto simp: leases_def new_attempt_def first_receipt_def)
next
  case (again e j kind payload r s1)
  then have j: "jr_job_id r = j" by (auto dest: sql_row_Some)
  with again assms(2) have "i \<noteq> jr_job_id r" by (auto simp: settled_def)
  with again j lease_others [OF again(4) this] show ?thesis by (auto simp: leases_def new_attempt_def)
next
  case (buried e j kind payload r s1 err)
  then have j: "jr_job_id r = j" by (auto dest: sql_row_Some)
  with buried assms(2) have "i \<noteq> jr_job_id r" by (auto simp: settled_def)
  with buried dead_others [OF this] resumable_others [OF buried(4) this] show ?thesis
    by (auto simp: leases_def intro: same_job_trans)
next
  case (succeeded e j a r)
  with assms(1,2) have "i \<noteq> ja_job_id a" by (auto simp: settled_def holds_lease_def)
  with succeeded finish_others [OF assms(1) succeeded(3) this] show ?thesis by (auto simp: leases_def)
next
  case (failed e j err payload a r)
  with assms(1,2) have "i \<noteq> ja_job_id a" by (auto simp: settled_def holds_lease_def)
  with failed finish_others [OF assms(1) failed(3) this] show ?thesis by (auto simp: leases_def)
next
  case (died e j err payload a r)
  with assms(1,2) have "i \<noteq> ja_job_id a" by (auto simp: settled_def holds_lease_def)
  moreover have "jr_job_id r = ja_job_id a" by (rule holds_leaseD(2) [OF assms(1) died(3)])
  ultimately have ne: "i \<noteq> ja_job_id a" "i \<noteq> jr_job_id (r\<lparr>jr_state := StateFailed\<rparr>)" by simp_all
  have "same_job s s' i"
    unfolding died(5) by (rule same_job_trans [OF finish_others [OF assms(1) died(3) ne(1)] dead_others [OF ne(2)]])
  with died show ?thesis by (simp add: leases_def)
qed

lemma settled_same: "same_job s s' i \<Longrightarrow> settled s' i = settled s i"
  by (simp add: settled_def same_job_def)

text \<open>
  C15: A settled job is settled for good. Once the receipt of a job says succeeded or dead, no sequence of
  calls by any worker, with any faults and clocks, changes its receipt, its attempts or its dead letter, or
  leases it again; in particular no handler runs for it a second time.
\<close>

theorem job_settles_once:
  assumes "worker_ok s" "settled s i"
  shows "same_job s (run (worker_exec maxF) s es) i \<and> \<not> list_ex (leases i) (results (worker_exec maxF) s es)"
  using assms
proof (induction es arbitrary: s)
  case (Cons ev es)
  obtain s' res where x: "worker_exec maxF s ev = (s', res)" by fastforce
  have "same_job s s' i" "\<not> leases i res"
    using exec_settled [OF Cons.prems x] by simp_all
  moreover have "worker_ok s'" using worker_ok_exec [OF Cons.prems(1), of maxF ev] x by simp
  moreover have "settled s' i" using Cons.prems(2) settled_same [OF \<open>same_job s s' i\<close>] by simp
  ultimately show ?case
    using Cons.IH [of s'] x by (auto intro: same_job_trans)
qed simp

subsection \<open>Leases\<close>

lemma finish_not_running:
  assumes "worker_ok s" "b \<in> set (job_attempts s)" "ja_result b \<noteq> AttemptRunning"
    "finishAttempt e (ja_id b) result jobErr payload maxF s = (res, s')"
  shows "isl res \<and> s' = s"
  using assms(4)
proof (cases rule: finishAttempt_cases)
  case (finished a r)
  have "distinct (map ja_id (job_attempts s))"
    using assms(1) by (auto simp: worker_ok_def worker_tables_ok_def table_ok_def)
  from sql_row_unique [OF this assms(2)] finished(1,2) assms(3) show ?thesis by simp
next
  case (dead a r)
  have "distinct (map ja_id (job_attempts s))"
    using assms(1) by (auto simp: worker_ok_def worker_tables_ok_def table_ok_def)
  from sql_row_unique [OF this assms(2)] dead(1,2) assms(3) show ?thesis by simp
qed simp

text \<open>What \<open>Start\<close> found when it leased an attempt.\<close>

lemma Start_leases:
  assumes "worker_ok s" "Start e i kind payload maxF s = (Inr (Started a), s')"
  obtains r where "a \<in> set (attempts_of s' i)" "ja_result a = AttemptRunning" "ja_started_at a = clock e 1"
    "ja_attempt a = int (length (attempts_of s i)) + 1"
    "\<forall>b\<in>set (attempts_of s i). ja_result b = AttemptRunning \<longrightarrow> ja_started_at b + ProcessingLease \<le> clock e 1"
    "\<forall>b\<in>set (attempts_of s i). \<exists>b'\<in>set (attempts_of s' i). ja_id b' = ja_id b \<and> ja_result b' \<noteq> AttemptRunning"
    "receipt_of s' i = Some r" "jr_state r = StateProcessing" "jr_updated_at r = clock e 1"
  using assms(2)
proof (cases rule: Start_cases)
  case (first r)
  then have r: "jr_job_id r = i" "jr_attempts r = 0" by (simp_all add: first_receipt_def)
  have row: "sql_row (\<lambda>x. jr_job_id x = i) (job_receipts s @ [r]) = Some r"
    using first(1) r by (simp add: sql_row_append)
  show thesis
    by (rule that [of "r\<lparr>jr_state := StateProcessing, jr_attempts := 1, jr_updated_at := clock e 1, jr_last_error := None\<rparr>"])
      (use first worker_ok_none [OF assms(1) first(1)] r row in
        \<open>simp_all add: attempts_of_lease receipt_of_lease new_attempt_def\<close>)
next
  case (again r s1)
  then have i: "jr_job_id r = i" by (auto dest: sql_row_Some)
  note j = worker_ok_job [OF assms(1) again(1)] and f = resumable_frame [OF again(4)]
  have idle: "idle r (attempts_of s1 i)"
    using idle_resumable [OF assms(1) _ again(3,4)] again(1) i by simp
  have len: "jr_attempts r = int (length (attempts_of s i))"
  proof -
    have "map ja_attempt (attempts_of s i) = [1..jr_attempts r]" "1 \<le> jr_attempts r"
      using j by (simp_all add: job_ok_def)
    then have "length (map ja_attempt (attempts_of s i)) = nat (jr_attempts r)" by simp
    with \<open>1 \<le> jr_attempts r\<close> show ?thesis by simp
  qed
  have lease: "ja_started_at b + ProcessingLease \<le> clock e 1"
    if "b \<in> set (attempts_of s i)" "ja_result b = AttemptRunning" for b
  proof -
    have "jr_state r = StateProcessing" "ja_started_at b = jr_updated_at r"
      using j that by (auto simp: job_ok_def)
    with again(4) show ?thesis by (simp add: resumable_def)
  qed
  have ids: "map ja_id (attempts_of s1 i) = map ja_id (attempts_of s i)"
    using again(4) i by (auto simp: resumable_def attempts_of_interrupt map_key_update split: if_splits)
  have old: "\<exists>b'\<in>set (attempts_of s1 i). ja_id b' = ja_id b \<and> ja_result b' \<noteq> AttemptRunning"
    if "b \<in> set (attempts_of s i)" for b
  proof -
    have "ja_id b \<in> set (map ja_id (attempts_of s1 i))" unfolding ids using that by simp
    then obtain b' where "b' \<in> set (attempts_of s1 i)" "ja_id b' = ja_id b" by fastforce
    with idle show ?thesis by (auto simp: idle_def)
  qed
  show thesis
    by (rule that [of "r\<lparr>jr_state := StateProcessing, jr_attempts := jr_attempts r + 1, jr_updated_at := clock e 1, jr_last_error := None\<rparr>"])
      (use again i len lease old f(1) in \<open>auto simp: attempts_of_lease receipt_of_lease new_attempt_def\<close>)
qed simp_all

lemma Start_leased:
  assumes "receipt_of s i = Some r" "jr_state r = StateProcessing" "clock e 1 < jr_updated_at r + ProcessingLease"
  shows "isl (fst (Start e i kind payload maxF s)) \<and> snd (Start e i kind payload maxF s) = s"
proof -
  obtain res s' where x: "Start e i kind payload maxF s = (res, s')" by fastforce
  from x show ?thesis
    by (cases rule: Start_cases) (use assms x in \<open>auto simp: resumable_def\<close>)
qed

lemma Mark_stale:
  assumes "worker_ok s" "b \<in> set (job_attempts s)" "ja_result b \<noteq> AttemptRunning"
  shows "fst (MarkSucceeded e (ja_id b) s) \<noteq> None \<and> snd (MarkSucceeded e (ja_id b) s) = s"
    and "isl (fst (MarkFailed e (ja_id b) err payload maxF s)) \<and> snd (MarkFailed e (ja_id b) err payload maxF s) = s"
proof -
  note f = finish_not_running [OF assms]
  show "fst (MarkSucceeded e (ja_id b) s) \<noteq> None \<and> snd (MarkSucceeded e (ja_id b) s) = s"
    by (cases "finishAttempt e (ja_id b) AttemptSucceeded None None 0 s") (use f in \<open>force simp: MarkSucceeded_def split: sum.splits\<close>)
  show "isl (fst (MarkFailed e (ja_id b) err payload maxF s)) \<and> snd (MarkFailed e (ja_id b) err payload maxF s) = s"
    by (cases "finishAttempt e (ja_id b) AttemptFailed err payload maxF s") (use f in \<open>auto simp: MarkFailed_def\<close>)
qed

text \<open>A job whose attempt \<open>a\<close> runs under a lease taken at \<open>t\<close>, and the calls that neither finish that attempt
  nor come for the job at or after \<open>until\<close>.\<close>

definition leased :: "worker_db \<Rightarrow> string \<Rightarrow> int \<Rightarrow> time \<Rightarrow> bool" where
  "leased s i a t \<longleftrightarrow> (\<exists>r. receipt_of s i = Some r \<and> jr_state r = StateProcessing \<and> jr_updated_at r = t) \<and>
     (\<exists>b\<in>set (attempts_of s i). ja_result b = AttemptRunning \<and> ja_id b = a)"

fun spares_lease :: "string \<Rightarrow> int \<Rightarrow> time \<Rightarrow> worker_event \<Rightarrow> bool" where
  "spares_lease i a until (StartJob e j kind payload) = (j = i \<longrightarrow> clock e 1 < until)"
| "spares_lease i a until (SucceedJob e b) = (b \<noteq> a)"
| "spares_lease i a until (FailJob e b err payload) = (b \<noteq> a)"

lemma leased_same: "same_job s s' i \<Longrightarrow> leased s' i a t = leased s i a t"
  by (simp add: leased_def same_job_def)

text \<open>The attempt under lease is the only one that runs.\<close>

lemma leased_holder:
  assumes "worker_ok s" "leased s i a t" "holds_lease s b r" "ja_id b \<noteq> a"
  shows "ja_job_id b \<noteq> i"
proof
  assume i: "ja_job_id b = i"
  from assms(2) obtain c where c: "c \<in> set (attempts_of s i)" "ja_result c = AttemptRunning" "ja_id c = a"
    by (auto simp: leased_def)
  note h = holds_leaseD [OF assms(1,3), unfolded i]
  have "ja_attempt c = ja_attempt b"
    using h(1,3,4) c(1,2) by (simp add: job_ok_def)
  moreover have "distinct (map ja_attempt (attempts_of s i))"
    using h(1) by (simp add: job_ok_def)
  ultimately have "c = b"
    using c(1) h(3) by (auto simp: distinct_map inj_on_def)
  with c(3) assms(4) show False by simp
qed

lemma exec_leased:
  assumes "worker_ok s" "leased s i a t" "worker_exec maxF s ev = (s', res)" "spares_lease i a (t + ProcessingLease) ev"
  shows "same_job s s' i"
  using assms(3)
proof (cases rule: worker_exec_cases)
  case (first e j kind payload r)
  with assms(2) have "i \<noteq> j" by (auto simp: leased_def)
  with first first_others [OF first(3) this] show ?thesis by simp
next
  case (again e j kind payload r s1)
  then have "jr_job_id r = j" by (auto dest: sql_row_Some)
  with again assms(2,4) have "i \<noteq> jr_job_id r" by (auto simp: leased_def resumable_def)
  with again lease_others [OF again(4) this] show ?thesis by simp
next
  case (buried e j kind payload r s1 err)
  then have "jr_job_id r = j" by (auto dest: sql_row_Some)
  with buried assms(2,4) have "i \<noteq> jr_job_id r" by (auto simp: leased_def resumable_def)
  with buried dead_others [OF this] resumable_others [OF buried(4) this] show ?thesis
    by (auto intro: same_job_trans)
next
  case (succeeded e j b r)
  with leased_holder [OF assms(1,2) succeeded(3)] assms(4) have "i \<noteq> ja_job_id b" by auto
  with succeeded finish_others [OF assms(1) succeeded(3) this] show ?thesis by simp
next
  case (failed e j err payload b r)
  with leased_holder [OF assms(1,2) failed(3)] assms(4) have "i \<noteq> ja_job_id b" by auto
  with failed finish_others [OF assms(1) failed(3) this] show ?thesis by simp
next
  case (died e j err payload b r)
  with leased_holder [OF assms(1,2) died(3)] assms(4) have "i \<noteq> ja_job_id b" by auto
  with holds_leaseD(2) [OF assms(1) died(3)] have ne: "i \<noteq> ja_job_id b" "i \<noteq> jr_job_id (r\<lparr>jr_state := StateFailed\<rparr>)"
    by simp_all
  show ?thesis
    unfolding died(5) by (rule same_job_trans [OF finish_others [OF assms(1) died(3) ne(1)] dead_others [OF ne(2)]])
qed simp

lemma run_leased:
  assumes "worker_ok s" "leased s i a t" "list_all (spares_lease i a (t + ProcessingLease)) es"
  shows "same_job s (run (worker_exec maxF) s es) i"
  using assms
proof (induction es arbitrary: s)
  case (Cons ev es)
  obtain s1 res where x: "worker_exec maxF s ev = (s1, res)" by fastforce
  have same: "same_job s s1 i"
    using exec_leased [OF Cons.prems(1,2) x] Cons.prems(3) by simp
  moreover have "worker_ok s1" using worker_ok_exec [OF Cons.prems(1), of maxF ev] x by simp
  ultimately show ?case
    using Cons.IH [of s1] Cons.prems leased_same [OF same] x by (auto intro: same_job_trans)
qed simp

text \<open>
  C14: A lease is exclusive and fences older attempts. When \<open>Start\<close> hands out an attempt it is the next in
  number and no other attempt of the job was running within the processing lease. From then on, until the
  lease has passed or that attempt is itself reported succeeded or failed, no delivery gets another attempt
  and the receipt, the attempts and the dead letter of the job stay as they are, whatever else the workers
  do meanwhile: deliveries of this job, calls for other attempts, calls for other jobs, with any faults.
  And whatever happens afterwards, the attempts from before can neither complete nor fail the job:
  \<open>MarkSucceeded\<close> and \<open>MarkFailed\<close> refuse them and change nothing.
\<close>

theorem lease_exclusive:
  assumes "worker_ok s" "Start e i kind payload maxF s = (Inr (Started a), s')"
  shows "ja_result a = AttemptRunning \<and> a \<in> set (attempts_of s' i) \<and> ja_attempt a = int (length (attempts_of s i)) + 1 \<and>
    (\<forall>b\<in>set (attempts_of s i). ja_result b = AttemptRunning \<longrightarrow> ja_started_at b + ProcessingLease \<le> clock e 1) \<and>
    (\<forall>es max2. list_all (spares_lease i (ja_id a) (clock e 1 + ProcessingLease)) es \<longrightarrow>
       (let t = run (worker_exec max2) s' es in same_job s' t i \<and>
          (\<forall>e2 kind2 payload2. clock e2 1 < clock e 1 + ProcessingLease \<longrightarrow>
             isl (fst (Start e2 i kind2 payload2 max2 t)) \<and> snd (Start e2 i kind2 payload2 max2 t) = t))) \<and>
    (\<forall>b\<in>set (attempts_of s i). \<forall>es e2 err payload2 max2. let t = run (worker_exec max2) s' es in
       fst (MarkSucceeded e2 (ja_id b) t) \<noteq> None \<and> snd (MarkSucceeded e2 (ja_id b) t) = t \<and>
       isl (fst (MarkFailed e2 (ja_id b) err payload2 max2 t)) \<and> snd (MarkFailed e2 (ja_id b) err payload2 max2 t) = t)"
proof -
  have ok: "worker_ok s'" by (rule worker_ok_Start [OF assms])
  obtain r where a: "a \<in> set (attempts_of s' i)" "ja_result a = AttemptRunning"
    "ja_attempt a = int (length (attempts_of s i)) + 1"
    "\<forall>b\<in>set (attempts_of s i). ja_result b = AttemptRunning \<longrightarrow> ja_started_at b + ProcessingLease \<le> clock e 1"
    and old: "\<forall>b\<in>set (attempts_of s i). \<exists>b'\<in>set (attempts_of s' i). ja_id b' = ja_id b \<and> ja_result b' \<noteq> AttemptRunning"
    and r: "receipt_of s' i = Some r" "jr_state r = StateProcessing" "jr_updated_at r = clock e 1"
    using Start_leases [OF assms] by metis
  have fence: "fst (MarkSucceeded e2 (ja_id b) t) \<noteq> None \<and> snd (MarkSucceeded e2 (ja_id b) t) = t \<and>
       isl (fst (MarkFailed e2 (ja_id b) err payload2 max2 t)) \<and> snd (MarkFailed e2 (ja_id b) err payload2 max2 t) = t"
    if "b \<in> set (attempts_of s i)" "t = run (worker_exec max2) s' es" for b es e2 err payload2 max2 t
  proof -
    obtain b' where b': "b' \<in> set (attempts_of s' i)" "ja_id b' = ja_id b" "ja_result b' \<noteq> AttemptRunning"
      using old \<open>b \<in> set (attempts_of s i)\<close> by blast
    then have "b' \<in> set (job_attempts t)"
      unfolding that(2) by (intro run_history) auto
    moreover have "worker_ok t" unfolding that(2) by (rule worker.inv_run [OF ok])
    ultimately show ?thesis
      using Mark_stale [of t b'] b' by simp
  qed
  have l: "leased s' i (ja_id a) (clock e 1)"
    using a(1,2) r by (auto simp: leased_def)
  have same: "same_job s' (run (worker_exec max2) s' es) i"
    if "list_all (spares_lease i (ja_id a) (clock e 1 + ProcessingLease)) es" for es max2
    using run_leased [OF ok l that] .
  have "isl (fst (Start e2 i kind2 payload2 max2 t)) \<and> snd (Start e2 i kind2 payload2 max2 t) = t"
    if "same_job s' t i" "clock e2 1 < clock e 1 + ProcessingLease" for e2 kind2 payload2 max2 t
  proof -
    have "receipt_of t i = Some r" using that(1) r(1) by (simp add: same_job_def)
    from Start_leased [OF this r(2)] that(2) r(3) show ?thesis by simp
  qed
  with same a fence show ?thesis unfolding Let_def by blast
qed

subsection \<open>The failure budget\<close>

abbreviation failures :: "worker_db \<Rightarrow> string \<Rightarrow> nat" where
  "failures s i \<equiv> sql_count (is_failure i) (job_attempts s)"

lemma failures_of: "failures s i = sql_count (is_failure i) (attempts_of s i)"
proof -
  have "filter (is_failure i) t = filter (is_failure i) (filter (\<lambda>a. ja_job_id a = i) t)" for t
    by (induction t) (auto simp: is_failure_def)
  then show ?thesis unfolding sql_count_def by metis
qed

lemma failures_same: "same_job s s' i \<Longrightarrow> failures s' i = failures s i"
  by (simp add: failures_of same_job_def)

definition budget_ok :: "int \<Rightarrow> worker_db \<Rightarrow> bool" where
  "budget_ok maxF s \<longleftrightarrow> (\<forall>i r. receipt_of s i = Some r \<longrightarrow>
     int (failures s i) \<le> maxF \<and> (jr_state r = StateDead \<longleftrightarrow> int (failures s i) = maxF))"

lemma budget_step:
  assumes "budget_ok maxF s" "\<And>k. k \<noteq> i \<Longrightarrow> same_job s s' k" "int (failures s' i) \<le> maxF"
    "map_option (\<lambda>r. jr_state r = StateDead) (receipt_of s' i) = Some (int (failures s' i) = maxF)"
  shows "budget_ok maxF s'"
  unfolding budget_ok_def
proof (intro allI impI)
  fix k x assume k: "receipt_of s' k = Some x"
  show "int (failures s' k) \<le> maxF \<and> (jr_state x = StateDead \<longleftrightarrow> int (failures s' k) = maxF)"
  proof (cases "k = i")
    case True
    with k assms(3,4) show ?thesis by auto
  next
    case False
    then have "receipt_of s k = Some x" "failures s' k = failures s k"
      using assms(2) [OF False] k failures_same [OF assms(2) [OF False]] by (simp_all add: same_job_def)
    with assms(1) show ?thesis by (simp add: budget_ok_def)
  qed
qed

lemma failures_lease: "failures (lease_db now r s) i = failures s i"
  by (simp add: lease_db_def new_attempt_def is_failure_def)

lemma failures_resumable: "resumable r now s s1 \<Longrightarrow> failures s1 i = failures s i"
  by (auto simp: resumable_def interrupt_def is_failure_def intro!: sql_count_update_same split: if_splits)

lemma sql_count_update_in:
  "(\<And>r. r \<in> set t \<Longrightarrow> p r \<Longrightarrow> \<not> q r \<and> q (f r)) \<Longrightarrow> sql_count q (sql_update p f t) = sql_count q t + sql_count p t"
  by (induction t) (auto simp: sql_count_def sql_update_def)

lemma failures_finish:
  assumes "worker_ok s" "holds_lease s a r"
  shows "failures (finish_db a AttemptSucceeded None now s) (ja_job_id a) = failures s (ja_job_id a)"
    and "err \<noteq> None \<Longrightarrow> failures (finish_db a AttemptFailed err now s) (ja_job_id a) = failures s (ja_job_id a) + 1"
proof -
  let ?i = "ja_job_id a" and ?as = "attempts_of s (ja_job_id a)" and ?p = "\<lambda>x. ja_id x = ja_id a \<and> ja_result x = AttemptRunning"
  note h = holds_leaseD [OF assms]
  have "sql_count (is_failure ?i) (finish_list a AttemptSucceeded None now ?as) = sql_count (is_failure ?i) ?as"
    by (rule sql_count_update_same) (auto simp: is_failure_def)
  then show "failures (finish_db a AttemptSucceeded None now s) ?i = failures s ?i"
    unfolding failures_of attempts_of_finish .
  have "distinct ?as"
    using h(1) by (metis distinct_map distinct_upto job_ok_def)
  moreover have "filter ?p ?as = filter (\<lambda>x. x = a) ?as"
    using running_unique [OF h(1,3,4)] by (intro filter_cong) auto
  ultimately have "sql_count ?p ?as = card ({a} \<inter> set ?as)"
    unfolding sql_count_def by (simp only: distinct_length_filter singleton_conv)
  with h(3) have one: "sql_count ?p ?as = 1" by simp
  assume "err \<noteq> None"
  then have "sql_count (is_failure ?i) (finish_list a AttemptFailed err now ?as) = sql_count (is_failure ?i) ?as + sql_count ?p ?as"
    by (intro sql_count_update_in) (auto simp: is_failure_def)
  then show "failures (finish_db a AttemptFailed err now s) ?i = failures s ?i + 1"
    unfolding failures_of attempts_of_finish one .
qed

lemma budget_ok_exec:
  assumes "1 \<le> maxF" "worker_ok s" "budget_ok maxF s" "worker_exec maxF s ev = (s', res)"
  shows "budget_ok maxF s'"
proof -
  have live: "int (failures s i) < maxF" if "receipt_of s i = Some r" "jr_state r \<noteq> StateDead" for i r
    using assms(3) that unfolding budget_ok_def by (metis order_le_imp_less_or_eq)
  from assms(4) show ?thesis
  proof (cases rule: worker_exec_cases)
    case none
    with assms(3) show ?thesis by simp
  next
    case (first e i kind payload r)
    have "failures s i = 0"
      using worker_ok_none [OF assms(2) first(2)] unfolding failures_of by (simp add: sql_count_def)
    moreover have "sql_row (\<lambda>x. jr_job_id x = i) (job_receipts s @ [r]) = Some r" "jr_job_id r = i"
      using first(2,3) by (simp_all add: sql_row_append first_receipt_def)
    ultimately show ?thesis
      using assms(1) unfolding first(4)
      by (intro budget_step [OF assms(3) first_others [OF first(3)], of i]) (simp_all add: receipt_of_lease failures_lease)
  next
    case (again e i kind payload r s1)
    then have "jr_job_id r = i" by (auto dest: sql_row_Some)
    with again live [OF again(2)] show ?thesis
      unfolding again(6) by (intro budget_step [OF assms(3) lease_others [OF again(4)], of i])
        (simp_all add: receipt_of_lease failures_lease failures_resumable [OF again(4)] resumable_frame [OF again(4)])
  next
    case (buried e i kind payload r s1 err)
    with live [OF buried(2)] failures_resumable [OF buried(4)] show ?thesis by simp
  next
    case (succeeded e i a r)
    note h = holds_leaseD [OF assms(2) succeeded(3)]
    have n: "int (failures s (ja_job_id a)) < maxF" using live [OF h(5)] h(6) by simp
    show ?thesis
      unfolding succeeded(4)
    proof (rule budget_step [OF assms(3) finish_others [OF assms(2) succeeded(3)]])
      show "int (failures (finish_db a AttemptSucceeded None (clock e 1) s) (ja_job_id a)) \<le> maxF"
        unfolding failures_finish(1) [OF assms(2) succeeded(3)] using n by simp
      show "map_option (\<lambda>r. jr_state r = StateDead) (receipt_of (finish_db a AttemptSucceeded None (clock e 1) s) (ja_job_id a)) =
          Some (int (failures (finish_db a AttemptSucceeded None (clock e 1) s) (ja_job_id a)) = maxF)"
        unfolding failures_finish(1) [OF assms(2) succeeded(3)] receipt_of_finish h(5) using n h(2,6,7) by simp
    qed
  next
    case (failed e i err payload a r)
    note h = holds_leaseD [OF assms(2) failed(3)]
    have "receipt_of s' (ja_job_id a) = Some (r\<lparr>jr_state := StateFailed, jr_last_error := err, jr_updated_at := clock e 1\<rparr>)"
      unfolding failed(5) by (rule failed_receipt [OF assms(2) failed(3)])
    then have "map_option (\<lambda>r. jr_state r = StateDead) (receipt_of s' (ja_job_id a)) = Some (int (failures s' (ja_job_id a)) = maxF)"
      using failed(6) by simp
    moreover have "same_job s s' k" if "k \<noteq> ja_job_id a" for k
      unfolding failed(5) by (rule finish_others [OF assms(2) failed(3) that])
    ultimately show ?thesis
      using failed(6) by (intro budget_step [OF assms(3), of "ja_job_id a"]) simp_all
  next
    case (died e i err payload a r)
    note h = holds_leaseD [OF assms(2) died(3)]
    have n: "failures s' (ja_job_id a) = failures s (ja_job_id a) + 1"
      unfolding died(5) using failures_finish(2) [OF assms(2) died(3)] by (simp add: dead_frame)
    have "same_job s s' k" if "k \<noteq> ja_job_id a" for k
      unfolding died(5)
      by (rule same_job_trans [OF finish_others [OF assms(2) died(3) that] dead_others]) (use that h(2) in simp)
    moreover have "int (failures s' (ja_job_id a)) = maxF"
      using died(6) live [OF h(5)] h(6) n by simp
    moreover have "map_option (\<lambda>r. jr_state r = StateDead) (receipt_of s' (ja_job_id a)) = Some True"
      unfolding died(5) using h by (simp add: receipt_of_dead failed_receipt [OF assms(2) died(3)])
    ultimately show ?thesis
      by (intro budget_step [OF assms(3), of "ja_job_id a"]) simp_all
  qed
qed

interpretation budget: machine "worker_exec (int (Suc n))" "\<lambda>s. worker_ok s \<and> budget_ok (int (Suc n)) s" for n
proof unfold_locales
  fix s :: worker_db and ev
  assume "worker_ok s \<and> budget_ok (int (Suc n)) s"
  then show "worker_ok (fst (worker_exec (int (Suc n)) s ev)) \<and> budget_ok (int (Suc n)) (fst (worker_exec (int (Suc n)) s ev))"
    using worker_ok_exec budget_ok_exec [of "int (Suc n)" s ev "fst (worker_exec (int (Suc n)) s ev)" "snd (worker_exec (int (Suc n)) s ev)"] by simp
qed

text \<open>
  C33: The tables of the worker stay consistent. In every state that any sequence of calls reaches from the
  empty database, with any faults, clocks and arguments: one receipt per job and one row per attempt; the
  attempts of a job are numbered 1 to n without gaps; only the newest attempt can be running, exactly when
  the receipt is processing; at most one has succeeded, and then the receipt says so; the receipt has a
  completion time exactly when the job is settled; and a job is dead exactly when it has a dead letter,
  which holds its kind, its last error and a payload.
\<close>

theorem worker_invariant: "worker_ok (run (worker_exec maxF) MigrateWorker es)"
  by (rule worker.inv_run) simp

text \<open>
  C19: A job fails at most as often as its budget says. In every reachable state a job has at most
  \<open>maxAttempts\<close> recorded failures (interruptions do not count), and it is dead, with its dead letter,
  exactly when it has that many.
\<close>

theorem failure_budget:
  assumes "s = run (worker_exec (int (Suc n))) MigrateWorker es" "receipt_of s i = Some r"
  shows "failures s i \<le> Suc n \<and> (jr_state r = StateDead \<longleftrightarrow> failures s i = Suc n) \<and>
    (dead_of s i = None \<longleftrightarrow> failures s i < Suc n)"
proof -
  have "budget_ok (int (Suc n)) MigrateWorker" by (simp add: budget_ok_def MigrateWorker_def)
  then have ok: "worker_ok s" "budget_ok (int (Suc n)) s"
    using budget.inv_run [of MigrateWorker n es] assms(1) by simp_all
  then have b: "failures s i \<le> Suc n" "jr_state r = StateDead \<longleftrightarrow> failures s i = Suc n"
    using assms(2) unfolding budget_ok_def by (metis of_nat_le_iff, metis of_nat_eq_iff)
  moreover have "dead_of s i = None \<longleftrightarrow> jr_state r \<noteq> StateDead"
    using worker_ok_job [OF ok(1) assms(2)] by (auto simp: job_ok_def split: option.splits)
  ultimately show ?thesis by linarith
qed

subsection \<open>Instances\<close>

text \<open>A job that fails once with a budget of one.\<close>

definition quiet_env :: "time \<Rightarrow> env" where
  "quiet_env t = \<lparr>fails = no_faults, clock = (\<lambda>_. t), draw = (\<lambda>_. None)\<rparr>"

definition example_job :: job_event where
  "example_job = \<lparr>JobID = ''j1'', JobKind = KindDeleteOCIObject, SecretID = [], ObjectKey = ''managed/secrets/a'',
     Reason = ReasonExpired, RequestedAt = 5\<rparr>"

definition example_running :: worker_db where
  "example_running = \<lparr>job_receipts = [\<lparr>jr_job_id = ''j1'', jr_kind = KindDeleteOCIObject, jr_state = StateProcessing, jr_attempts = 1,
      jr_last_error = None, jr_first_seen_at = 10, jr_updated_at = 10, jr_completed_at = None\<rparr>],
     job_attempts = [\<lparr>ja_id = 1, ja_job_id = ''j1'', ja_attempt = 1, ja_started_at = 10, ja_finished_at = None,
       ja_result = AttemptRunning, ja_error = None\<rparr>], dead_letters = [], attempt_seq = 1\<rparr>"

lemma example_start:
  "Start (quiet_env 10) ''j1'' KindDeleteOCIObject (Some example_job) 1 MigrateWorker =
     (Inr (Started \<lparr>ja_id = 1, ja_job_id = ''j1'', ja_attempt = 1, ja_started_at = 10, ja_finished_at = None,
       ja_result = AttemptRunning, ja_error = None\<rparr>), example_running)"
  by (simp add: Start_def open_receipt_def loadReceipt_def MigrateWorker_def quiet_env_def KindDeleteOCIObject_def sql_insert_def
      first_receipt_def lease_attempt_def begin_attempt_def requireJob_def sql_count_def sql_update_def Let_def example_running_def)

definition example_dead :: worker_db where
  "example_dead = snd (MarkFailed (quiet_env 20) 1 (Some ''gone'') (Some example_job) 1 example_running)"

lemma example_dead_receipt: "receipt_of example_dead ''j1'' = Some \<lparr>jr_job_id = ''j1'', jr_kind = KindDeleteOCIObject,
    jr_state = StateDead, jr_attempts = 1, jr_last_error = Some ''gone'', jr_first_seen_at = 10, jr_updated_at = 20,
    jr_completed_at = Some 20\<rparr>"
  by (simp add: example_dead_def MarkFailed_def finishAttempt_def loadAttempt_def loadReceipt_def quiet_env_def example_running_def
      sql_row_def sql_count_def sql_update_def requireJob_def failureCount_def is_failure_def deadLetter_def upsert_dead_def sql_insert_def Let_def)

lemma example_dead_run: "example_dead = run (worker_exec (int (Suc 0))) MigrateWorker
    [StartJob (quiet_env 10) ''j1'' KindDeleteOCIObject (Some example_job), FailJob (quiet_env 20) 1 (Some ''gone'') (Some example_job)]"
  by (simp add: example_start example_dead_def split: prod.splits)

theorem failure_budget_witness: "failures example_dead ''j1'' = 1 \<and> dead_of example_dead ''j1'' \<noteq> None"
  using failure_budget [OF example_dead_run example_dead_receipt] by auto

theorem job_settles_once_witness:
  "same_job example_dead (run (worker_exec 5) example_dead [StartJob (quiet_env 100) ''j1'' KindDeleteOCIObject (Some example_job)]) ''j1''"
proof -
  have "worker_ok example_dead" unfolding example_dead_run by (rule worker.inv_run) simp
  moreover have "settled example_dead ''j1''" by (simp add: settled_def example_dead_receipt)
  ultimately show ?thesis using job_settles_once by blast
qed

text \<open>Meanwhile another delivery of the job, another job, and a late report for an attempt that is none.\<close>

definition example_meanwhile :: "worker_event list" where
  "example_meanwhile = [StartJob (quiet_env 11) ''j1'' KindDeleteOCIObject (Some example_job),
     StartJob (quiet_env 12) ''j2'' KindDeleteOCIObject (Some example_job), SucceedJob (quiet_env 13) 7]"

theorem lease_exclusive_witness:
  "isl (fst (Start (quiet_env 14) ''j1'' KindDeleteOCIObject (Some example_job) 1
     (run (worker_exec 1) example_running example_meanwhile)))"
proof -
  have t: "clock (quiet_env 14) 1 < clock (quiet_env 10) 1 + ProcessingLease"
    by (simp add: quiet_env_def ProcessingLease_def Minute_def)
  have "list_all (spares_lease ''j1'' 1 (clock (quiet_env 10) 1 + ProcessingLease)) example_meanwhile"
    by (simp add: example_meanwhile_def quiet_env_def ProcessingLease_def Minute_def)
  with lease_exclusive [OF worker_ok_Migrate example_start] t show ?thesis
    unfolding Let_def job_attempt.simps by blast
qed

end
