(* ===== verification/Worker_Process.thy ===== *)
theory Worker_Process
  imports Worker_Promises
begin

text \<open>
  The worker's processor and its cleanup handler (internal/worker/processor.go and cleanup.go). \<open>Process\<close>
  leases the job of a message, runs the handler, records the outcome and, for a managed object, confirms
  the deletion to the API. The API and the bucket are reached through parameters over a world \<open>'w\<close>: the
  HTTP transport answers a call with no answer or a status and the decoded body. \<open>mw\<close> is what other
  workers commit to the shared database while the handler runs.
\<close>

subsection \<open>The cleanup client\<close>

datatype job_error = InvalidJob string | JobError string

fun job_error_text :: "job_error \<Rightarrow> string" where
  "job_error_text (InvalidJob t) = ''invalid job: '' @ t"
| "job_error_text (JobError t) = t"

text \<open>\<open>url.PathEscape\<close>.\<close>

definition path_safe :: "char \<Rightarrow> bool" where
  "path_safe c \<longleftrightarrow> c \<in> set ''ABCDEFGHIJKLMNOPQRSTUVWXYZabcdefghijklmnopqrstuvwxyz0123456789-_.~$&+=:@''"

definition hex_digit :: "nat \<Rightarrow> char" where
  "hex_digit n = ''0123456789ABCDEF'' ! n"

definition pathEscape :: "string \<Rightarrow> string" where
  "pathEscape s = concat (map (\<lambda>c. if path_safe c then [c]
     else [CHR ''%'', hex_digit (byte c div 16), hex_digit (byte c mod 16)]) s)"

definition trimRightByte :: "char \<Rightarrow> string \<Rightarrow> string" where
  "trimRightByte c s = rev (dropWhile (\<lambda>x. x = c) (rev s))"

record cleanup_client =
  cc_baseURL :: string
  cc_token :: string

definition NewCleanupClient :: "string \<Rightarrow> string \<Rightarrow> string + cleanup_client" where
  "NewCleanupClient url token =
     (let baseURL = trimRightByte CHR ''/'' (trimSpace url); tok = trimSpace token in
      if baseURL = [] then Inl ''internal api base url is required''
      else if tok = [] then Inl ''internal token is required''
      else Inr \<lparr>cc_baseURL = baseURL, cc_token = tok\<rparr>)"

record cleanup_request =
  cr_SecretID :: string
  cr_JobID :: string
  cr_Reason :: string

record cleanup_call =
  call_url :: string
  call_token :: string
  call_JobID :: string
  call_Reason :: string

record ack_call =
  ack_url :: string
  ack_token :: string
  ack_JobID :: string
  ack_ObjectKey :: string

datatype 'b answer = NoAnswer | Answer int "'b option"

definition CleanupSecret ::
  "cleanup_client \<Rightarrow> (cleanup_call \<Rightarrow> 'w \<Rightarrow> (string \<times> bool) answer \<times> 'w) \<Rightarrow> cleanup_request \<Rightarrow> 'w \<Rightarrow>
   (job_error + bool) \<times> 'w" where
  "CleanupSecret c transport req w =
     (if trimSpace (cr_SecretID req) = [] \<or> trimSpace (cr_JobID req) = [] \<or> trimSpace (cr_Reason req) = []
      then (Inl (InvalidJob ''cleanup request is incomplete''), w)
      else (case transport \<lparr>call_url = cc_baseURL c @ ''/internal/secrets/'' @ pathEscape (cr_SecretID req) @ ''/cleanup'',
                call_token = cc_token c, call_JobID = cr_JobID req, call_Reason = cr_Reason req\<rparr> w of
        (NoAnswer, w') \<Rightarrow> (Inl (JobError ''call cleanup endpoint''), w')
      | (Answer status body, w') \<Rightarrow>
          if status < 200 \<or> 300 \<le> status then (Inl (JobError ''cleanup endpoint returned status''), w')
          else (case body of
              None \<Rightarrow> (Inl (JobError ''decode cleanup response''), w')
            | Some (i, cleaned) \<Rightarrow>
                if i \<noteq> cr_SecretID req then (Inl (JobError ''cleanup response id''), w') else (Inr cleaned, w'))))"

definition requiresObjectAcknowledgement :: "string \<Rightarrow> bool" where
  "requiresObjectAcknowledgement key \<longleftrightarrow>
     list_ex (\<lambda>p. hasPrefix key p \<and> key \<noteq> p) [''managed/secrets/'', ''managed/requests/'']"

definition client_acknowledge ::
  "cleanup_client \<Rightarrow> (ack_call \<Rightarrow> 'w \<Rightarrow> unit answer \<times> 'w) \<Rightarrow> job_event \<Rightarrow> 'w \<Rightarrow> job_error option \<times> 'w" where
  "client_acknowledge c transport event w =
     (if JobKind event \<noteq> KindDeleteOCIObject \<or> JobID event = [] \<or> \<not> requiresObjectAcknowledgement (ObjectKey event)
      then (Some (InvalidJob ''invalid object cleanup acknowledgement''), w)
      else (case transport \<lparr>ack_url = cc_baseURL c @ ''/internal/object-reconciliation/ack'', ack_token = cc_token c,
                ack_JobID = JobID event, ack_ObjectKey = ObjectKey event\<rparr> w of
        (NoAnswer, w') \<Rightarrow> (Some (JobError ''object cleanup acknowledgement request failed''), w')
      | (Answer status _, w') \<Rightarrow>
          if status \<noteq> 204 then (Some (JobError ''object cleanup acknowledgement returned status''), w') else (None, w')))"

subsection \<open>The handler\<close>

definition validCleanupReason :: "string \<Rightarrow> bool" where
  "validCleanupReason reason \<longleftrightarrow> reason \<in> {ReasonConsumed, ReasonExpired, ReasonOrphan, ReasonManual, ReasonRetry}"

definition cleanupReason :: "job_event \<Rightarrow> job_error + string" where
  "cleanupReason event =
     (if JobKind event = KindDeleteSecret then
        (if Reason event \<noteq> [] then
           (if \<not> validCleanupReason (Reason event) then Inl (InvalidJob ''unsupported cleanup reason'') else Inr (Reason event))
         else Inr ReasonConsumed)
      else Inl (InvalidJob ''unsupported cleanup job kind''))"

definition handleObjectDelete ::
  "(string \<Rightarrow> 'w \<Rightarrow> string option \<times> 'w) option \<Rightarrow> job_event \<Rightarrow> 'w \<Rightarrow> job_error option \<times> 'w" where
  "handleObjectDelete objects event w =
     (if trimSpace (ObjectKey event) = [] then (Some (InvalidJob ''object_key is required''), w)
      else (case objects of
        None \<Rightarrow>
          if requiresObjectAcknowledgement (ObjectKey event)
          then (Some (JobError ''managed object deletion requires object storage''), w) else (None, w)
      | Some delete \<Rightarrow>
          (case delete (ObjectKey event) w of
             (Some err, w') \<Rightarrow> (Some (JobError err), w')
           | (None, w') \<Rightarrow> (None, w'))))"

definition HandleJob ::
  "(cleanup_request \<Rightarrow> 'w \<Rightarrow> (job_error + bool) \<times> 'w) \<Rightarrow> (string \<Rightarrow> 'w \<Rightarrow> string option \<times> 'w) option \<Rightarrow>
   job_event \<Rightarrow> 'w \<Rightarrow> job_error option \<times> 'w" where
  "HandleJob api objects event w =
     (if JobKind event = KindDeleteOCIObject then handleObjectDelete objects event w
      else (case cleanupReason event of
        Inl err \<Rightarrow> (Some err, w)
      | Inr reason \<Rightarrow>
          if trimSpace (SecretID event) = [] then (Some (InvalidJob ''secret_id is required''), w)
          else if trimSpace (JobID event) = [] then (Some (InvalidJob ''job_id is required''), w)
          else (case api \<lparr>cr_SecretID = SecretID event, cr_JobID = JobID event, cr_Reason = reason\<rparr> w of
            (Inl err, w') \<Rightarrow> (Some err, w')
          | (Inr _, w') \<Rightarrow> (None, w'))))"

subsection \<open>The processor\<close>

definition DefaultMaxAttempts :: int where "DefaultMaxAttempts = 3"

record processor =
  maxAttempts :: int
  hasAcknowledger :: bool

definition NewProcessor :: "bool \<Rightarrow> bool \<Rightarrow> bool \<Rightarrow> int \<Rightarrow> string + processor" where
  "NewProcessor st handler ack attempts =
     (if \<not> st then Inl ''receipt store is required''
      else if \<not> handler then Inl ''job handler is required''
      else let n = (if attempts = 0 then DefaultMaxAttempts else attempts) in
        if n < 0 then Inl ''max attempts must be positive''
        else Inr \<lparr>maxAttempts = n, hasAcknowledger = ack\<rparr>)"

record process_result =
  P_Attempt :: int
  P_Started :: bool
  P_Succeeded :: bool
  P_Failed :: bool
  P_DeadLettered :: bool
  P_AlreadySucceeded :: bool
  P_AlreadyProcessing :: bool
  P_AlreadyDead :: bool

definition zero_result :: process_result where
  "zero_result = \<lparr>P_Attempt = 0, P_Started = False, P_Succeeded = False, P_Failed = False, P_DeadLettered = False,
     P_AlreadySucceeded = False, P_AlreadyProcessing = False, P_AlreadyDead = False\<rparr>"

datatype process_failure = PEvent events_error | PStore worker_error | PJob job_error | PCancelled | PAck job_error

definition finishFailed ::
  "processor \<Rightarrow> env \<Rightarrow> job_event \<Rightarrow> job_attempt \<Rightarrow> process_result \<Rightarrow> job_error \<Rightarrow> worker_db \<Rightarrow>
   (process_result \<times> process_failure option) \<times> worker_db" where
  "finishFailed p e event a result jobErr db =
     (case MarkFailed e (ja_id a) (Some (job_error_text jobErr)) (Some event) (maxAttempts p) db of
        (Inl err, db') \<Rightarrow> ((result, Some (PStore err)), db')
      | (Inr dead, db') \<Rightarrow>
          if \<not> dead then ((result\<lparr>P_Failed := True\<rparr>, Some (PJob jobErr)), db')
          else ((result\<lparr>P_Failed := True, P_DeadLettered := True\<rparr>, None), db'))"

text \<open>The deferred acknowledgement.\<close>

definition acknowledge ::
  "processor \<Rightarrow> (job_event \<Rightarrow> 'w \<Rightarrow> job_error option \<times> 'w) \<Rightarrow> job_event \<Rightarrow>
   (process_result \<times> process_failure option) \<Rightarrow> 'w \<Rightarrow> (process_result \<times> process_failure option) \<times> 'w" where
  "acknowledge p ack event res w =
     (case res of (result, err) \<Rightarrow>
        if err \<noteq> None \<or> (\<not> P_Succeeded result \<and> \<not> P_DeadLettered result) \<or> JobKind event \<noteq> KindDeleteOCIObject \<or>
           \<not> requiresObjectAcknowledgement (ObjectKey event) then (res, w)
        else if \<not> hasAcknowledger p
        then ((result, Some (PAck (JobError ''managed object cleanup acknowledger is required''))), w)
        else (case ack event w of (ackErr, w') \<Rightarrow> ((result, map_option PAck ackErr), w')))"

text \<open>The handler and the record of its outcome, for a leased attempt.\<close>

definition run_attempt ::
  "processor \<Rightarrow> (job_event \<Rightarrow> 'w \<Rightarrow> job_error option \<times> 'w) \<Rightarrow> bool \<Rightarrow> (worker_db \<Rightarrow> worker_db) \<Rightarrow> env \<Rightarrow> job_event \<Rightarrow>
   job_attempt \<Rightarrow> worker_db \<times> 'w \<Rightarrow> (process_result \<times> process_failure option) \<times> worker_db \<times> 'w" where
  "run_attempt p handle cancelled mw e event a s =
     (let result = zero_result\<lparr>P_Attempt := ja_attempt a, P_Started := True\<rparr> in
      case handle event (snd s) of (jobErr, w) \<Rightarrow>
        let db = mw (fst s) in
        if cancelled then ((result, Some PCancelled), (db, w))
        else (case jobErr of
          Some err \<Rightarrow> (case finishFailed p e event a result err db of (r, db') \<Rightarrow> (r, (db', w)))
        | None \<Rightarrow>
            (case MarkSucceeded e (ja_id a) db of
               (Some err, db') \<Rightarrow> ((result, Some (PStore err)), (db', w))
             | (None, db') \<Rightarrow> ((result\<lparr>P_Succeeded := True\<rparr>, None), (db', w)))))"

definition process_event ::
  "processor \<Rightarrow> (job_event \<Rightarrow> 'w \<Rightarrow> job_error option \<times> 'w) \<Rightarrow> bool \<Rightarrow> (worker_db \<Rightarrow> worker_db) \<Rightarrow> env \<Rightarrow> env \<Rightarrow>
   job_event \<Rightarrow> worker_db \<times> 'w \<Rightarrow> (process_result \<times> process_failure option) \<times> worker_db \<times> 'w" where
  "process_event p handle cancelled mw e1 e2 event s =
     (case JobEvent_JSON event of
        Inl err \<Rightarrow> ((zero_result, Some (PEvent err)), s)
      | Inr payload \<Rightarrow>
        (case Start e1 (JobID event) (JobKind event) (Some payload) (maxAttempts p) (fst s) of
           (Inl ErrJobProcessing, db) \<Rightarrow> ((zero_result\<lparr>P_AlreadyProcessing := True\<rparr>, None), (db, snd s))
         | (Inl ErrJobDead, db) \<Rightarrow> ((zero_result\<lparr>P_AlreadyDead := True, P_DeadLettered := True\<rparr>, None), (db, snd s))
         | (Inl err, db) \<Rightarrow> ((zero_result, Some (PStore err)), (db, snd s))
         | (Inr AlreadySucceeded, db) \<Rightarrow> ((zero_result\<lparr>P_AlreadySucceeded := True, P_Succeeded := True\<rparr>, None), (db, snd s))
         | (Inr (Started a), db) \<Rightarrow> run_attempt p handle cancelled mw e2 event a (db, snd s)))"

definition Process ::
  "processor \<Rightarrow> (job_event \<Rightarrow> 'w \<Rightarrow> job_error option \<times> 'w) \<Rightarrow> (job_event \<Rightarrow> 'w \<Rightarrow> job_error option \<times> 'w) \<Rightarrow> bool \<Rightarrow>
   (worker_db \<Rightarrow> worker_db) \<Rightarrow> env \<Rightarrow> env \<Rightarrow> job_event option \<Rightarrow> worker_db \<times> 'w \<Rightarrow>
   (process_result \<times> process_failure option) \<times> worker_db \<times> 'w" where
  "Process p handle ack cancelled mw e1 e2 raw s =
     (case DecodeJobEvent raw of
        Inl err \<Rightarrow> ((zero_result, Some (PEvent err)), s)
      | Inr event \<Rightarrow>
          (case process_event p handle cancelled mw e1 e2 event s of (res, (db, w)) \<Rightarrow>
             (case acknowledge p ack event res w of (res', w') \<Rightarrow> (res', (db, w')))))"

fun is_invalid_job :: "process_failure \<Rightarrow> bool" where
  "is_invalid_job (PStore err) = (err = ErrInvalidJob)"
| "is_invalid_job (PJob (InvalidJob _)) = True"
| "is_invalid_job (PAck (InvalidJob _)) = True"
| "is_invalid_job _ = False"

definition process_error_of :: "process_failure \<Rightarrow> process_error" where
  "process_error_of err = (case err of PEvent (ErrInvalidEvent _) \<Rightarrow> InvalidEventError | _ \<Rightarrow> OtherProcessError [])"

definition ProcessMessage ::
  "processor \<Rightarrow> (job_event \<Rightarrow> 'w \<Rightarrow> job_error option \<times> 'w) \<Rightarrow> (job_event \<Rightarrow> 'w \<Rightarrow> job_error option \<times> 'w) \<Rightarrow> bool \<Rightarrow>
   (worker_db \<Rightarrow> worker_db) \<Rightarrow> env \<Rightarrow> env \<Rightarrow> job_event option \<Rightarrow> worker_db \<times> 'w \<Rightarrow>
   (string \<times> process_error option) \<times> worker_db \<times> 'w" where
  "ProcessMessage p handle ack cancelled mw e1 e2 raw s =
     (case Process p handle ack cancelled mw e1 e2 raw s of ((result, err), s') \<Rightarrow>
        ((case err of
            Some f \<Rightarrow> if is_invalid_job f then (MessageTerminate, None) else ([], Some (process_error_of f))
          | None \<Rightarrow>
              if P_DeadLettered result then (MessageTerminate, None)
              else if P_AlreadyProcessing result then (MessageRetry, None)
              else (MessageAck, None)), s'))"

end
