(* ===== verification/Worker_Delivery.thy ===== *)
theory Worker_Delivery
  imports Worker_Process
begin

text \<open>
  What processing a message guarantees: the settlement it asks for is the truth about the job, a job that
  can run does run and is acknowledged, and a job whose handler keeps failing is dead-lettered after
  exactly its budget of deliveries.
\<close>

subsection \<open>Attempts keep their job\<close>

lemma map_fields_update: "(\<And>x. g (f x) = g x) \<Longrightarrow> map g (sql_update p f t) = map g t"
  by (rule map_key_update)

lemma exec_attempt_jobs:
  assumes "worker_exec maxF s ev = (s', res)"
  shows "\<exists>xs. map (\<lambda>a. (ja_id a, ja_job_id a)) (job_attempts s') = map (\<lambda>a. (ja_id a, ja_job_id a)) (job_attempts s) @ xs"
proof -
  have res: "map (\<lambda>a. (ja_id a, ja_job_id a)) (job_attempts s1) = map (\<lambda>a. (ja_id a, ja_job_id a)) (job_attempts s)"
    if "resumable r now s s1" for r now s1
    using that by (auto simp: resumable_def interrupt_def map_fields_update split: if_splits)
  from assms show ?thesis
    by (cases rule: worker_exec_cases) (auto simp: lease_db_def finish_db_def dead_frame map_fields_update dest!: res)
qed

lemma run_attempt_jobs:
  "\<exists>xs. map (\<lambda>a. (ja_id a, ja_job_id a)) (job_attempts (run (worker_exec maxF) s es)) =
     map (\<lambda>a. (ja_id a, ja_job_id a)) (job_attempts s) @ xs"
proof (induction es arbitrary: s)
  case (Cons ev es)
  obtain s' res where "worker_exec maxF s ev = (s', res)" by fastforce
  with exec_attempt_jobs [OF this] Cons.IH [of s'] show ?case by auto
qed simp

lemma run_attempt_job:
  assumes "worker_ok s" "a \<in> set (job_attempts s)" "b \<in> set (job_attempts (run (worker_exec maxF) s es))" "ja_id b = ja_id a"
  shows "ja_job_id b = ja_job_id a"
proof -
  let ?t = "run (worker_exec maxF) s es" and ?g = "\<lambda>a. (ja_id a, ja_job_id a)"
  have "distinct (map ja_id (job_attempts ?t))"
    using worker.inv_run [OF assms(1)] by (auto simp: worker_ok_def worker_tables_ok_def table_ok_def)
  then have inj: "inj_on ja_id (set (job_attempts ?t))" by (simp add: distinct_map)
  have "?g a \<in> set (map ?g (job_attempts ?t))"
    using run_attempt_jobs [of maxF s es] assms(2) by (metis (no_types, lifting) Un_iff imageI list.set_map set_append)
  then obtain a' where "a' \<in> set (job_attempts ?t)" "ja_id a' = ja_id a" "ja_job_id a' = ja_job_id a" by auto
  with inj assms(3,4) show ?thesis by (auto simp: inj_on_def)
qed

subsection \<open>What the settlement says\<close>

definition job_state :: "worker_db \<Rightarrow> string \<Rightarrow> string option" where
  "job_state s i = map_option jr_state (receipt_of s i)"

lemma Start_dead:
  assumes "Start e i kind payload maxF s = (Inl ErrJobDead, s')"
  shows "job_state s' i = Some StateDead"
  using assms
proof (cases rule: Start_cases)
  case (refused err)
  then show ?thesis by (auto simp: job_state_def)
next
  case (dead r s1 err)
  then have "jr_job_id r = i" by (auto dest: sql_row_Some)
  with dead show ?thesis by (simp add: job_state_def receipt_of_dead resumable_frame(1) [OF dead(4)])
qed simp_all

lemma Start_done: "Start e i kind payload maxF s = (Inr AlreadySucceeded, s') \<Longrightarrow> job_state s' i = Some StateSucceeded \<and> s' = s"
  by (erule Start_cases) (auto simp: job_state_def)

lemma finish_state:
  assumes "worker_ok s" "holds_lease s a r"
  shows "job_state (finish_db a AttemptSucceeded None now s) (ja_job_id a) = Some StateSucceeded"
    and "job_state (dead_db (r\<lparr>jr_state := StateFailed\<rparr>) payload err now (finish_db a AttemptFailed jobErr now s)) (ja_job_id a) = Some StateDead"
    and "job_state (finish_db a AttemptFailed jobErr now s) (ja_job_id a) = Some StateFailed"
  using holds_leaseD [OF assms] failed_receipt [OF assms]
  by (simp_all add: job_state_def receipt_of_finish receipt_of_dead)

lemma MarkSucceeded_None:
  assumes "worker_ok s" "MarkSucceeded e i s = (None, s')"
  obtains a where "a \<in> set (job_attempts s)" "ja_id a = i" "job_state s' (ja_job_id a) = Some StateSucceeded"
proof -
  from assms(2) obtain x where "finishAttempt e i AttemptSucceeded None None 0 s = (Inr x, s')"
    by (auto simp: MarkSucceeded_def split: prod.splits sum.splits)
  then show thesis
  proof (cases rule: finishAttempt_cases)
    case (finished a r)
    with that finish_state(1) [OF assms(1) finishAttempt_holds [OF finished(1-5)]] show thesis by (auto dest: sql_row_Some)
  qed simp_all
qed

lemma MarkFailed_Inr:
  assumes "worker_ok s" "MarkFailed e i (Some err) payload maxF s = (Inr dead, s')"
  obtains a where "a \<in> set (job_attempts s)" "ja_id a = i"
    "job_state s' (ja_job_id a) = Some (if dead then StateDead else StateFailed)"
proof -
  from assms(2) have "finishAttempt e i AttemptFailed (Some err) payload maxF s = (Inr dead, s')"
    by (auto simp: MarkFailed_def split: if_splits)
  then show thesis
  proof (cases rule: finishAttempt_cases)
    case (finished a r)
    with that finish_state(3) [OF assms(1) finishAttempt_holds [OF finished(1-5)]] show thesis by (auto dest: sql_row_Some)
  next
    case (dead a r)
    with that finish_state(2) [OF assms(1) finishAttempt_holds [OF dead(1-5)]] show thesis by (auto dest: sql_row_Some)
  qed simp_all
qed

subsection \<open>Processing one event\<close>

text \<open>What processing an event may leave: \<open>es\<close> are the calls other workers make while the handler runs.\<close>

definition report_ok :: "job_event \<Rightarrow> process_result \<times> process_failure option \<Rightarrow> worker_db \<Rightarrow> bool" where
  "report_ok event res db \<longleftrightarrow> worker_ok db \<and> (case res of (result, err) \<Rightarrow> err = None \<longrightarrow>
     (P_DeadLettered result \<longrightarrow> job_state db (JobID event) = Some StateDead) \<and>
     (\<not> P_DeadLettered result \<and> \<not> P_AlreadyProcessing result \<longrightarrow>
        P_Succeeded result \<and> job_state db (JobID event) = Some StateSucceeded))"

lemma run_attempt_outcome:
  assumes "worker_ok db" "a \<in> set (job_attempts db)" "ja_job_id a = JobID event"
    "run_attempt p handle c (\<lambda>d. run (worker_exec m) d es) e event a (db, w) = (res, (db', w'))"
  shows "report_ok event res db' \<and> w' = snd (handle event w) \<and>
    (\<forall>f. snd res = Some f \<and> is_invalid_job f \<longrightarrow> maxAttempts p < 1 \<or> (\<exists>t. fst (handle event w) = Some (InvalidJob t)))"
proof -
  let ?t = "run (worker_exec m) db es"
  obtain jobErr w1 where h: "handle event w = (jobErr, w1)" by fastforce
  have ok: "worker_ok ?t" by (rule worker.inv_run [OF assms(1)])
  have mine: "ja_job_id b = JobID event" if "b \<in> set (job_attempts ?t)" "ja_id b = ja_id a" for b
    using run_attempt_job [OF assms(1,2) that] assms(3) by simp
  consider (cancelled) "c" | (fail) err where "\<not> c" "jobErr = Some err" | (ok) "\<not> c" "jobErr = None" by (cases jobErr) auto
  then show ?thesis
  proof cases
    case cancelled
    with assms(4) h ok show ?thesis by (auto simp: run_attempt_def report_ok_def Let_def)
  next
    case (fail err)
    obtain mr db2 where m: "MarkFailed e (ja_id a) (Some (job_error_text err)) (Some event) (maxAttempts p) ?t = (mr, db2)"
      by fastforce
    have ok2: "worker_ok db2" by (rule worker_ok_MarkFailed [OF ok m])
    show ?thesis
    proof (cases mr)
      case (Inl x)
      have "x = ErrInvalidJob \<Longrightarrow> maxAttempts p < 1"
        using m Inl by (auto simp: MarkFailed_def split: if_splits dest: finishAttempt_Inl)
      with Inl fail m ok2 h assms(4) show ?thesis
        by (auto simp: run_attempt_def finishFailed_def report_ok_def Let_def)
    next
      case (Inr dead)
      from MarkFailed_Inr [OF ok m [unfolded Inr]] mine
      have "job_state db2 (JobID event) = Some (if dead then StateDead else StateFailed)" by metis
      with Inr fail m ok2 h assms(4) show ?thesis
        by (cases err; cases dead) (auto simp: run_attempt_def finishFailed_def report_ok_def Let_def zero_result_def)
    qed
  next
    case ok2: ok
    obtain mr db2 where m: "MarkSucceeded e (ja_id a) ?t = (mr, db2)" by fastforce
    have ok3: "worker_ok db2" by (rule worker_ok_MarkSucceeded [OF ok m])
    show ?thesis
    proof (cases mr)
      case None
      from MarkSucceeded_None [OF ok m [unfolded None]] mine
      have "job_state db2 (JobID event) = Some StateSucceeded" by metis
      with None ok2 m ok3 h assms(4) show ?thesis
        by (auto simp: run_attempt_def report_ok_def Let_def zero_result_def)
    next
      case (Some x)
      have "x \<noteq> ErrInvalidJob"
        using m Some by (auto simp: MarkSucceeded_def split: prod.splits sum.splits dest: finishAttempt_Inl)
      with Some ok2 m ok3 h assms(4) show ?thesis
        by (auto simp: run_attempt_def report_ok_def Let_def)
    qed
  qed
qed

lemma process_event_outcome:
  assumes "worker_ok db" "Validate event = Inr ()"
    "process_event p handle c (\<lambda>d. run (worker_exec m) d es) e1 e2 event (db, w) = (res, (db', w'))"
  shows "report_ok event res db' \<and> (w' = w \<or> \<not> settled db (JobID event) \<and> w' = snd (handle event w)) \<and>
    (\<forall>f. snd res = Some f \<and> is_invalid_job f \<longrightarrow> maxAttempts p < 1 \<or> (\<exists>t. fst (handle event w) = Some (InvalidJob t)) \<or>
       (\<exists>r. receipt_of db (JobID event) = Some r \<and> jr_kind r \<noteq> JobKind event))"
proof -
  have valid: "JobEvent_JSON event = Inr event" "JobID event \<noteq> []" "JobKind event \<noteq> []"
    using assms(2) by (auto simp: JobEvent_JSON_def Validate_def event_constants trimSpace_visible split: if_splits)
  obtain sr db1 where st: "Start e1 (JobID event) (JobKind event) (Some event) (maxAttempts p) db = (sr, db1)" by fastforce
  have ok: "worker_ok db1" by (rule worker_ok_Start [OF assms(1) st])
  note defs = process_event_def valid(1) st
  show ?thesis
  proof (cases sr)
    case (Inl err)
    have inv: "err = ErrInvalidJob \<Longrightarrow> maxAttempts p < 1 \<or> (\<exists>r. receipt_of db (JobID event) = Some r \<and> jr_kind r \<noteq> JobKind event)"
      using st [unfolded Inl] valid(2,3) by (cases rule: Start_cases) auto
    have dead: "err = ErrJobDead \<Longrightarrow> job_state db1 (JobID event) = Some StateDead"
      using Start_dead st Inl by simp
    from assms(3) Inl ok inv dead show ?thesis
      by (cases err) (auto simp: defs report_ok_def zero_result_def)
  next
    case (Inr x)
    show ?thesis
    proof (cases x)
      case AlreadySucceeded
      with Inr st have "job_state db1 (JobID event) = Some StateSucceeded" by (auto dest: Start_done)
      with AlreadySucceeded Inr assms(3) ok show ?thesis
        by (auto simp: defs report_ok_def zero_result_def)
    next
      case (Started a)
      have run: "run_attempt p handle c (\<lambda>d. run (worker_exec m) d es) e2 event a (db1, w) = (res, (db', w'))"
        using assms(3) Started Inr by (simp add: defs)
      have st': "Start e1 (JobID event) (JobKind event) (Some event) (maxAttempts p) db = (Inr (Started a), db1)"
        using st Inr Started by simp
      from Start_leases [OF assms(1) st'] have "a \<in> set (attempts_of db1 (JobID event))" by metis
      moreover have "\<not> settled db (JobID event)"
        using st' by (cases rule: Start_cases) (auto simp: settled_def)
      ultimately show ?thesis
        using run_attempt_outcome [OF ok _ _ run] by auto
    qed
  qed
qed

subsection \<open>The cleanup handler never calls a valid job invalid\<close>

lemma reason_visible: "validCleanupReason reason \<Longrightarrow> trimSpace reason = reason \<and> reason \<noteq> []"
  by (auto simp: validCleanupReason_def event_constants trimSpace_visible)

lemma CleanupSecret_valid:
  "trimSpace (cr_SecretID req) \<noteq> [] \<Longrightarrow> trimSpace (cr_JobID req) \<noteq> [] \<Longrightarrow> validCleanupReason (cr_Reason req) \<Longrightarrow>
   fst (CleanupSecret c tr req w) \<noteq> Inl (InvalidJob t)"
  using reason_visible [of "cr_Reason req"]
  by (auto simp: CleanupSecret_def split: prod.splits answer.splits option.splits)

lemma HandleJob_valid:
  assumes "Validate event = Inr ()"
  shows "fst (HandleJob (CleanupSecret c tr) objects event w) \<noteq> Some (InvalidJob t)"
proof (cases "JobKind event = KindDeleteOCIObject")
  case True
  with assms have "trimSpace (ObjectKey event) \<noteq> []" by (auto simp: Validate_def event_constants split: if_splits)
  with True show ?thesis
    by (auto simp: HandleJob_def handleObjectDelete_def split: option.splits prod.splits)
next
  case False
  with assms have v: "JobKind event = KindDeleteSecret" "trimSpace (SecretID event) \<noteq> []" "trimSpace (JobID event) \<noteq> []"
    "Reason event \<noteq> [] \<Longrightarrow> validCleanupReason (Reason event)"
    by (auto simp: Validate_def validReason_def validCleanupReason_def split: if_splits)
  then obtain reason where r: "cleanupReason event = Inr reason" "validCleanupReason reason"
    by (cases "Reason event = []") (auto simp: cleanupReason_def validCleanupReason_def)
  let ?req = "\<lparr>cr_SecretID = SecretID event, cr_JobID = JobID event, cr_Reason = reason\<rparr>"
  have "fst (CleanupSecret c tr ?req w) \<noteq> Inl (InvalidJob t)"
    using v r by (intro CleanupSecret_valid) simp_all
  with False v r show ?thesis
    by (auto simp: HandleJob_def split: prod.splits sum.splits)
qed

lemma client_acknowledge_valid:
  "JobKind event = KindDeleteOCIObject \<Longrightarrow> JobID event \<noteq> [] \<Longrightarrow> requiresObjectAcknowledgement (ObjectKey event) \<Longrightarrow>
   fst (client_acknowledge c tr event w) \<noteq> Some (InvalidJob t)"
  by (auto simp: client_acknowledge_def split: prod.splits answer.splits)

text \<open>
  C8: What the processor tells the broker is the truth about the job. Whatever fails, and whatever other
  workers do to the shared database while the handler runs: a message is acknowledged only if the job's
  receipt says succeeded and, for a managed object, the API has confirmed the acknowledgement; it is
  terminated only if the job is dead, or its receipt is for another kind of job; and the handler is not run
  for a job that was settled before.
\<close>

theorem settlement_truthful:
  assumes "worker_ok db" "1 \<le> maxAttempts p" "Validate event = Inr ()"
    and "handle = HandleJob (CleanupSecret cl tr) objects" "ack = client_acknowledge cl tr2"
    and "ProcessMessage p handle ack c (\<lambda>d. run (worker_exec m) d es) e1 e2 (Some event) (db, w) = ((action, err), (db', w'))"
  shows "worker_ok db' \<and>
    (action = MessageAck \<longrightarrow> job_state db' (JobID event) = Some StateSucceeded \<and>
       (JobKind event = KindDeleteOCIObject \<and> requiresObjectAcknowledgement (ObjectKey event) \<longrightarrow>
          hasAcknowledger p \<and> (\<exists>w0. ack event w0 = (None, w')))) \<and>
    (action = MessageTerminate \<longrightarrow> job_state db' (JobID event) = Some StateDead \<or>
       (\<exists>r. receipt_of db (JobID event) = Some r \<and> jr_kind r \<noteq> JobKind event)) \<and>
    (settled db (JobID event) \<longrightarrow> w' = w \<or> w' = snd (ack event w))"
proof -
  obtain res dbx wx where pe: "process_event p handle c (\<lambda>d. run (worker_exec m) d es) e1 e2 event (db, w) = (res, (dbx, wx))"
    by (metis surj_pair)
  obtain result perr where res: "res = (result, perr)" by fastforce
  from process_event_outcome [OF assms(1,3) pe]
  have o: "report_ok event res dbx" "wx = w \<or> \<not> settled db (JobID event) \<and> wx = snd (handle event w)"
    and inv: "\<And>f. perr = Some f \<Longrightarrow> is_invalid_job f \<Longrightarrow> \<exists>r. receipt_of db (JobID event) = Some r \<and> jr_kind r \<noteq> JobKind event"
    using assms(2) by (auto simp: assms(4) res HandleJob_valid [OF assms(3)])
  have id: "JobID event \<noteq> []"
    using assms(3) by (auto simp: Validate_def trimSpace_visible split: if_splits)
  have dec: "DecodeJobEvent (Some event) = Inr event" using assms(3) by (simp add: DecodeJobEvent_def)
  obtain r2 f2 w2 where a: "acknowledge p ack event res wx = ((r2, f2), w2)" by (metis surj_pair)
  have pm: "db' = dbx" "w' = w2" "(action, err) = (case f2 of
      Some f \<Rightarrow> if is_invalid_job f then (MessageTerminate, None) else ([], Some (process_error_of f))
    | None \<Rightarrow> if P_DeadLettered r2 then (MessageTerminate, None)
        else if P_AlreadyProcessing r2 then (MessageRetry, None) else (MessageAck, None))"
    using assms(6) by (simp_all add: ProcessMessage_def Process_def dec pe a)
  show ?thesis
  proof (cases "perr \<noteq> None \<or> (\<not> P_Succeeded result \<and> \<not> P_DeadLettered result) \<or> JobKind event \<noteq> KindDeleteOCIObject \<or>
      \<not> requiresObjectAcknowledgement (ObjectKey event)")
    case True
    then have "(r2, f2) = res" "w2 = wx" using a res by (auto simp: acknowledge_def split: if_splits)
    with pm o inv res True show ?thesis
      by (cases perr) (auto simp: report_ok_def message_actions split: if_splits)
  next
    case False
    note F = this
    show ?thesis
    proof (cases "hasAcknowledger p")
      case False
      with F a res have "(r2, f2) = (result, Some (PAck (JobError ''managed object cleanup acknowledger is required'')))" "w2 = wx"
        by (auto simp: acknowledge_def split: if_splits)
      with pm o res show ?thesis by (auto simp: report_ok_def message_actions)
    next
      case True
      obtain ae where ae: "ack event wx = (ae, w2)" "(r2, f2) = (result, map_option PAck ae)"
        using F True a res by (auto simp: acknowledge_def split: if_splits prod.splits)
      have "ae \<noteq> Some (InvalidJob t)" for t
        using client_acknowledge_valid [of event] F id ae(1) by (metis assms(5) fst_conv)
      then have "ae = None \<or> (\<exists>x. ae = Some (JobError x))" by (metis job_error.exhaust option.exhaust)
      with pm o res ae F True show ?thesis
        by (auto simp: report_ok_def message_actions split: if_splits)
    qed
  qed
qed

subsection \<open>Runs without faults\<close>

lemma Start_first_ok:
  assumes "fails e = no_faults" "i \<noteq> []" "kind \<noteq> []" "payload \<noteq> None" "1 \<le> maxF" "receipt_of s i = None"
    "r = first_receipt i kind (clock e 0)"
  shows "Start e i kind payload maxF s = (Inr (Started (new_attempt s (clock e 1) r)),
     lease_db (clock e 1) r (s\<lparr>job_receipts := job_receipts s @ [r]\<rparr>))"
proof -
  have i: "jr_job_id r = i" "jr_kind r = kind" "jr_state r = StateProcessing" by (simp_all add: assms(7) first_receipt_def)
  have new: "i \<notin> jr_job_id ` set (job_receipts s)" using assms(6) by (auto simp: sql_row_None)
  then have "filter (\<lambda>x. jr_job_id x = i) (job_receipts s) = []" by (auto simp: filter_empty_conv)
  then have "sql_count (\<lambda>x. jr_job_id x = i) (job_receipts s @ [r]) = 1"
    using i by (simp add: sql_count_def)
  with assms(1-6) i new show ?thesis
    unfolding Start_def open_receipt_def loadReceipt_def assms(7) [symmetric]
    by (simp add: sql_insert_def lease_attempt_def begin_attempt_def requireJob_def Let_def lease_db_def new_attempt_def)
qed

lemma Start_again_ok:
  assumes "worker_ok s" "fails e = no_faults" "i \<noteq> []" "kind \<noteq> []" "payload \<noteq> None" "1 \<le> maxF" "receipt_of s i = Some r"
    "jr_kind r = kind" "jr_state r \<notin> {StateSucceeded, StateDead}" "resumable r (clock e 1) s s1" "int (failures s i) < maxF"
  shows "Start e i kind payload maxF s = (Inr (Started (new_attempt s1 (clock e 1) r)), lease_db (clock e 1) r s1)"
proof -
  have i: "jr_job_id r = i" using assms(7) by (auto dest: sql_row_Some)
  have "distinct (map jr_job_id (job_receipts s))"
    using assms(1) by (auto simp: worker_ok_def worker_tables_ok_def table_ok_def)
  from sql_count_key [OF this, of i "\<lambda>_. True"] assms(7)
  have one: "sql_count (\<lambda>x. jr_job_id x = i) (job_receipts s) = 1" by simp
  have f: "failures s1 i = failures s i" by (rule failures_resumable [OF assms(10)])
  have lease: "lease_attempt e r (clock e 1) s1 s = (Inr (Started (new_attempt s1 (clock e 1) r)), lease_db (clock e 1) r s1)"
    using assms(2) one i by (simp add: lease_attempt_def begin_attempt_def requireJob_def Let_def lease_db_def new_attempt_def
        resumable_frame(1) [OF assms(10)])
  have "resume e r payload maxF s = lease_attempt e r (clock e 1) s1 s"
    using assms(2,10,11) f i by (auto simp: resume_def resumable_def failureCount_def Let_def split: if_splits)
  with assms lease show ?thesis
    by (simp add: Start_def open_receipt_def loadReceipt_def)
qed

lemma finish_rows:
  assumes "worker_ok s" "holds_lease s a r"
  shows "sql_row (\<lambda>x. ja_id x = ja_id a) (job_attempts s) = Some a"
    "sql_count (\<lambda>x. ja_id x = ja_id a \<and> ja_result x = AttemptRunning) (job_attempts s) = 1"
    "sql_count (\<lambda>x. jr_job_id x = ja_job_id a \<and> jr_state x = StateProcessing \<and> jr_attempts x = ja_attempt a) (job_receipts s) = 1"
proof -
  have d: "distinct (map ja_id (job_attempts s))" "distinct (map jr_job_id (job_receipts s))"
    using assms(1) by (auto simp: worker_ok_def worker_tables_ok_def table_ok_def)
  show row: "sql_row (\<lambda>x. ja_id x = ja_id a) (job_attempts s) = Some a"
    using sql_row_unique [OF d(1)] assms(2) by (auto simp: holds_lease_def)
  show "sql_count (\<lambda>x. ja_id x = ja_id a \<and> ja_result x = AttemptRunning) (job_attempts s) = 1"
    using row holds_leaseD(4) [OF assms] by (simp add: sql_count_key [OF d(1)])
  show "sql_count (\<lambda>x. jr_job_id x = ja_job_id a \<and> jr_state x = StateProcessing \<and> jr_attempts x = ja_attempt a) (job_receipts s) = 1"
    using holds_leaseD(5-7) [OF assms] by (simp add: sql_count_key [OF d(2)])
qed

lemma MarkSucceeded_ok:
  assumes "worker_ok s" "holds_lease s a r" "fails e = no_faults"
  shows "MarkSucceeded e (ja_id a) s = (None, finish_db a AttemptSucceeded None (clock e 1) s)"
  using finish_rows [OF assms(1,2)] holds_leaseD [OF assms(1,2)] assms(3)
  by (simp add: MarkSucceeded_def finishAttempt_def loadAttempt_def loadReceipt_def requireJob_def finish_db_def Let_def)

lemma leased_holds:
  assumes "worker_ok s'" "a \<in> set (attempts_of s' i)" "ja_result a = AttemptRunning" "receipt_of s' i = Some r"
  shows "holds_lease s' a r"
proof -
  have "jr_state r = StateProcessing \<and> ja_attempt a = jr_attempts r"
    using worker_ok_job [OF assms(1,4)] assms(2,3) by (auto simp: job_ok_def)
  with assms show ?thesis by (auto simp: holds_lease_def)
qed

text \<open>A job that \<open>Start\<close> would lease now.\<close>

definition startable :: "processor \<Rightarrow> env \<Rightarrow> job_event \<Rightarrow> worker_db \<Rightarrow> bool" where
  "startable p e event db \<longleftrightarrow> (case receipt_of db (JobID event) of
      None \<Rightarrow> True
    | Some r \<Rightarrow> jr_kind r = JobKind event \<and> jr_state r \<notin> {StateSucceeded, StateDead} \<and>
        (jr_state r = StateProcessing \<longrightarrow> jr_updated_at r + ProcessingLease \<le> clock e 1) \<and>
        int (failures db (JobID event)) < maxAttempts p)"

lemma startable_starts:
  assumes "worker_ok db" "Validate event = Inr ()" "1 \<le> maxAttempts p" "fails e = no_faults" "startable p e event db"
  obtains a r db1 where "Start e (JobID event) (JobKind event) (Some event) (maxAttempts p) db = (Inr (Started a), db1)"
    "worker_ok db1" "holds_lease db1 a r" "ja_job_id a = JobID event" "failures db1 (JobID event) = failures db (JobID event)"
proof -
  have n: "JobID event \<noteq> []" "JobKind event \<noteq> []"
    using assms(2) by (auto simp: Validate_def event_constants trimSpace_visible split: if_splits)
  let ?i = "JobID event"
  have "\<exists>a db1. Start e ?i (JobKind event) (Some event) (maxAttempts p) db = (Inr (Started a), db1) \<and> failures db1 ?i = failures db ?i"
  proof (cases "receipt_of db ?i")
    case None
    with Start_first_ok [OF assms(4) n _ assms(3) None refl, of "Some event"] show ?thesis
      by (simp add: failures_lease)
  next
    case (Some r)
    have i: "jr_job_id r = ?i" using Some by (auto dest: sql_row_Some)
    define s1 where "s1 = (if jr_state r = StateProcessing then interrupt (jr_job_id r) (clock e 1) db else db)"
    have s1: "resumable r (clock e 1) db s1"
      using assms(5) Some by (simp add: resumable_def startable_def s1_def)
    with Start_again_ok [OF assms(1,4) n _ assms(3) Some _ _ s1, of "Some event"] assms(5) Some show ?thesis
      by (auto simp: startable_def failures_lease failures_resumable)
  qed
  then obtain a db1 where st: "Start e ?i (JobKind event) (Some event) (maxAttempts p) db = (Inr (Started a), db1)"
    "failures db1 ?i = failures db ?i" by blast
  have ok: "worker_ok db1" by (rule worker_ok_Start [OF assms(1) st(1)])
  obtain r where "a \<in> set (attempts_of db1 ?i)" "ja_result a = AttemptRunning" "receipt_of db1 ?i = Some r"
    using Start_leases [OF assms(1) st(1)] by metis
  with that [OF st(1) ok leased_holds [OF ok]] st(2) show thesis by auto
qed

lemma delivery_ok:
  assumes "worker_ok db" "Validate event = Inr ()" "1 \<le> maxAttempts p" "fails e1 = no_faults" "fails e2 = no_faults"
    and "startable p e1 event db" "handle event w = (None, w1)"
    and "JobKind event = KindDeleteOCIObject \<and> requiresObjectAcknowledgement (ObjectKey event) \<longrightarrow>
       hasAcknowledger p \<and> ack event w1 = (None, w2)"
  shows "\<exists>db' w'. ProcessMessage p handle ack False id e1 e2 (Some event) (db, w) = ((MessageAck, None), (db', w')) \<and>
    job_state db' (JobID event) = Some StateSucceeded \<and> worker_ok db' \<and> w' \<in> {w1, w2}"
proof -
  obtain a r db1 where st: "Start e1 (JobID event) (JobKind event) (Some event) (maxAttempts p) db = (Inr (Started a), db1)"
    "worker_ok db1" "holds_lease db1 a r" "ja_job_id a = JobID event"
    using startable_starts [OF assms(1,2,3,4,6)] by metis
  let ?db = "finish_db a AttemptSucceeded None (clock e2 1) db1"
  let ?res = "zero_result\<lparr>P_Attempt := ja_attempt a, P_Started := True, P_Succeeded := True\<rparr>"
  have "process_event p handle False id e1 e2 event (db, w) = ((?res, None), (?db, w1))"
    using assms(2,7) st(1) MarkSucceeded_ok [OF st(2,3) assms(5)]
    by (simp add: process_event_def JobEvent_JSON_def run_attempt_def Let_def)
  moreover have "acknowledge p ack event (?res, None) w1 = ((?res, None), w1) \<or> acknowledge p ack event (?res, None) w1 = ((?res, None), w2)"
    using assms(8) by (auto simp: acknowledge_def)
  moreover have "DecodeJobEvent (Some event) = Inr event" using assms(2) by (simp add: DecodeJobEvent_def)
  moreover have "\<not> P_DeadLettered ?res" "\<not> P_AlreadyProcessing ?res" by (simp_all add: zero_result_def)
  ultimately have "\<exists>w'. ProcessMessage p handle ack False id e1 e2 (Some event) (db, w) = ((MessageAck, None), (?db, w')) \<and> w' \<in> {w1, w2}"
    by (auto simp: ProcessMessage_def Process_def)
  with finish_state(1) [OF st(2,3)] worker_ok_succeeded [OF st(2,3)] st(4) show ?thesis by auto
qed

text \<open>
  C34: A job that can run does run and is acknowledged. If the job is new, or has failed with budget left, or
  its last lease has lapsed, and neither the database, the handler nor the API's acknowledgement fails, then
  processing its message once runs the handler, records success and acknowledges the message.
\<close>

theorem delivery_succeeds:
  assumes "worker_ok db" "Validate event = Inr ()" "1 \<le> maxAttempts p" "fails e1 = no_faults" "fails e2 = no_faults"
    and "startable p e1 event db" "handle event w = (None, w1)"
    and "JobKind event = KindDeleteOCIObject \<and> requiresObjectAcknowledgement (ObjectKey event) \<longrightarrow>
       hasAcknowledger p \<and> ack event w1 = (None, w2)"
  shows "\<exists>db' w'. ProcessMessage p handle ack False id e1 e2 (Some event) (db, w) = ((MessageAck, None), (db', w')) \<and>
    job_state db' (JobID event) = Some StateSucceeded \<and> worker_ok db' \<and> w' \<in> {w1, w2}"
  by (rule delivery_ok [where handle = handle and ack = ack and w = w, OF assms])

subsection \<open>Poison jobs\<close>

text \<open>\<open>n\<close> deliveries of the same message, one after the other.\<close>

fun deliveries ::
  "processor \<Rightarrow> (job_event \<Rightarrow> 'w \<Rightarrow> job_error option \<times> 'w) \<Rightarrow> (job_event \<Rightarrow> 'w \<Rightarrow> job_error option \<times> 'w) \<Rightarrow>
   (nat \<Rightarrow> env) \<Rightarrow> job_event \<Rightarrow> nat \<Rightarrow> worker_db \<times> 'w \<Rightarrow> (string \<times> process_error option) list \<times> worker_db \<times> 'w" where
  "deliveries p handle ack e event 0 s = ([], s)"
| "deliveries p handle ack e event (Suc n) s =
     (case deliveries p handle ack e event n s of (rs, s1) \<Rightarrow>
      (case ProcessMessage p handle ack False id (e n) (e n) (Some event) s1 of (r, s2) \<Rightarrow> (rs @ [r], s2)))"

lemma MarkFailed_ok:
  assumes "worker_ok s" "holds_lease s a r" "fails e = no_faults" "1 \<le> maxF"
  shows "\<exists>s'. MarkFailed e (ja_id a) (Some err) (Some event) maxF s = (Inr (maxF \<le> int (failures s (ja_job_id a)) + 1), s') \<and>
    worker_ok s' \<and> failures s' (ja_job_id a) = failures s (ja_job_id a) + 1 \<and>
    (if maxF \<le> int (failures s (ja_job_id a)) + 1
     then \<exists>d. dead_of s' (ja_job_id a) = Some d \<and> dl_error d = err \<and> dl_payload d = Some event
     else \<exists>x. receipt_of s' (ja_job_id a) = Some x \<and> jr_state x = StateFailed \<and> jr_kind x = jr_kind r)"
proof -
  let ?s2 = "finish_db a AttemptFailed (Some err) (clock e 1) s" and ?i = "ja_job_id a"
  note h = holds_leaseD [OF assms(1,2)] and f = finish_rows [OF assms(1,2)]
  have n: "failures ?s2 ?i = failures s ?i + 1" by (rule failures_finish(2) [OF assms(1,2)]) simp
  have "distinct (map jr_job_id (job_receipts ?s2))"
    using worker_ok_failed [OF assms(1,2)] by (auto simp: worker_ok_def worker_tables_ok_def table_ok_def)
  from sql_count_key [OF this, of ?i "\<lambda>x. jr_state x = StateFailed \<and> jr_attempts x = jr_attempts r"] failed_receipt [OF assms(1,2)] h(2,7)
  have one: "sql_count (\<lambda>x. jr_job_id x = ?i \<and> jr_state x = StateFailed \<and> jr_attempts x = jr_attempts r) (job_receipts ?s2) = 1"
    by simp
  have dl: "deadLetter e (r\<lparr>jr_state := StateFailed\<rparr>) (Some event) err (clock e 1) ?s2 =
      (Inr (), dead_db (r\<lparr>jr_state := StateFailed\<rparr>) (Some event) err (clock e 1) ?s2)"
    using assms(3) one h(2) by (simp add: deadLetter_def requireJob_def dead_db_def Let_def)
  let ?dead = "maxF \<le> int (failures s ?i) + 1"
  have fin: "MarkFailed e (ja_id a) (Some err) (Some event) maxF s = (Inr ?dead,
      if ?dead then dead_db (r\<lparr>jr_state := StateFailed\<rparr>) (Some event) err (clock e 1) ?s2 else ?s2)"
  proof -
    have u: "s\<lparr>job_attempts := finish_list a AttemptFailed (Some err) (clock e 1) (job_attempts s),
        job_receipts := sql_update (\<lambda>x. jr_job_id x = ?i \<and> jr_state x = StateProcessing \<and> jr_attempts x = ja_attempt a)
          (\<lambda>r. r\<lparr>jr_state := StateFailed, jr_last_error := Some err, jr_updated_at := clock e 1\<rparr>) (job_receipts s)\<rparr> = ?s2"
      by (simp add: finish_db_def)
    have "sql_count (is_failure ?i) (finish_list a AttemptFailed (Some err) (clock e 1) (job_attempts s)) = failures s ?i + 1"
      using n by (simp add: finish_db_def)
    then show ?thesis
      using assms(3,4) f h(4-7) dl
      by (simp add: MarkFailed_def finishAttempt_def loadAttempt_def loadReceipt_def requireJob_def failureCount_def Let_def u [simplified])
  qed
  show ?thesis
  proof (cases ?dead)
    case True
    with fin n h worker_ok_died [OF assms(1,2), of "Some event"] show ?thesis
      by (auto simp: dead_frame dead_of_dead)
  next
    case False
    with fin n failed_receipt [OF assms(1,2)] worker_ok_failed [OF assms(1,2)] show ?thesis by auto
  qed
qed

lemma failing_delivery:
  assumes "worker_ok db" "Validate event = Inr ()" "1 \<le> maxAttempts p" "fails e = no_faults" "startable p e event db"
    and "fst (handle event w) = Some (JobError t)"
    and "\<And>w'. JobKind event = KindDeleteOCIObject \<Longrightarrow> requiresObjectAcknowledgement (ObjectKey event) \<Longrightarrow>
       hasAcknowledger p \<and> fst (ack event w') = None"
  defines "k \<equiv> failures db (JobID event) + 1"
  obtains db' w' where "worker_ok db'" "failures db' (JobID event) = k"
    "ProcessMessage p handle ack False id e e (Some event) (db, w) =
       (if maxAttempts p \<le> int k then (MessageTerminate, None) else ([], Some (OtherProcessError [])), (db', w'))"
    "maxAttempts p \<le> int k \<Longrightarrow> \<exists>d. dead_of db' (JobID event) = Some d \<and> dl_error d = t \<and> dl_payload d = Some event"
    "int k < maxAttempts p \<Longrightarrow> \<exists>x. receipt_of db' (JobID event) = Some x \<and> jr_state x = StateFailed \<and> jr_kind x = JobKind event"
proof -
  let ?i = "JobID event"
  obtain a r db1 where st: "Start e ?i (JobKind event) (Some event) (maxAttempts p) db = (Inr (Started a), db1)"
    "worker_ok db1" "holds_lease db1 a r" "ja_job_id a = ?i" "failures db1 ?i = failures db ?i"
    using startable_starts [OF assms(1-5)] by metis
  have kind: "jr_kind r = JobKind event"
  proof -
    have r: "receipt_of db1 ?i = Some r" using holds_leaseD(5) [OF st(2,3)] st(4) by simp
    from st(1) show ?thesis
    proof (cases rule: Start_cases)
      case (first x)
      with r show ?thesis by (auto simp: receipt_of_lease sql_row_append first_receipt_def)
    next
      case (again x s1)
      then have "jr_job_id x = ?i" by (auto dest: sql_row_Some)
      with again r show ?thesis by (auto simp: receipt_of_lease resumable_frame(1) [OF again(4)])
    qed simp_all
  qed
  let ?dead = "maxAttempts p \<le> int k"
  obtain db' where m: "MarkFailed e (ja_id a) (Some t) (Some event) (maxAttempts p) db1 = (Inr ?dead, db')" "worker_ok db'"
    "failures db' ?i = k"
    "if ?dead then \<exists>d. dead_of db' ?i = Some d \<and> dl_error d = t \<and> dl_payload d = Some event
     else \<exists>x. receipt_of db' ?i = Some x \<and> jr_state x = StateFailed \<and> jr_kind x = jr_kind r"
    using MarkFailed_ok [OF st(2,3) assms(4,3), of t event, unfolded st(4), unfolded st(5)] by (auto simp: k_def add.commute)
  obtain w1 where h: "handle event w = (Some (JobError t), w1)" using assms(6) by (cases "handle event w") simp
  let ?r0 = "zero_result\<lparr>P_Attempt := ja_attempt a, P_Started := True, P_Failed := True\<rparr>"
  have pe: "process_event p handle False id e e event (db, w) =
      ((if ?dead then (?r0\<lparr>P_DeadLettered := True\<rparr>, None) else (?r0, Some (PJob (JobError t)))), (db', w1))"
    using assms(2) st(1) h m(1) by (simp add: process_event_def JobEvent_JSON_def run_attempt_def finishFailed_def Let_def)
  have dec: "DecodeJobEvent (Some event) = Inr event" using assms(2) by (simp add: DecodeJobEvent_def)
  have "\<exists>w'. ProcessMessage p handle ack False id e e (Some event) (db, w) =
       (if ?dead then (MessageTerminate, None) else ([], Some (OtherProcessError [])), (db', w'))"
    using assms(7) [of w1]
    by (cases "ack event w1") (auto simp: ProcessMessage_def Process_def dec pe acknowledge_def process_error_of_def)
  then show thesis using that m kind by (auto split: if_splits)
qed

text \<open>
  C20: A job whose handler always fails is dead-lettered after exactly its budget of deliveries. With no other
  fault, the deliveries before the last report an error, so that the broker redelivers; the last one
  terminates the message, and the dead letter holds the job and its last error.
\<close>

theorem poison_job_buried:
  assumes "worker_ok db" "receipt_of db (JobID event) = None" "Validate event = Inr ()" "maxAttempts p = int (Suc n)"
    and "\<And>k. fails (e k) = no_faults" "\<And>w. fst (handle event w) = Some (JobError t)"
    and "\<And>w. JobKind event = KindDeleteOCIObject \<Longrightarrow> requiresObjectAcknowledgement (ObjectKey event) \<Longrightarrow>
       hasAcknowledger p \<and> fst (ack event w) = None"
  shows "\<exists>db' w'. deliveries p handle ack e event (Suc n) (db, w) =
      (replicate n ([], Some (OtherProcessError [])) @ [(MessageTerminate, None)], (db', w')) \<and>
    (\<exists>d. dead_of db' (JobID event) = Some d \<and> dl_error d = t \<and> dl_payload d = Some event)"
proof -
  let ?i = "JobID event"
  have one: "1 \<le> maxAttempts p" using assms(4) by simp
  have zero: "failures db ?i = 0"
    using worker_ok_none [OF assms(1,2)] unfolding failures_of by (simp add: sql_count_def)
  have "\<exists>db1 w1. deliveries p handle ack e event m (db, w) = (replicate m ([], Some (OtherProcessError [])), (db1, w1)) \<and>
      worker_ok db1 \<and> failures db1 ?i = m \<and> startable p (e m) event db1" if "m \<le> n" for m
    using that
  proof (induction m)
    case 0
    then show ?case using assms(1,2) zero by (simp add: startable_def)
  next
    case (Suc m)
    then obtain db1 w1 where ih: "deliveries p handle ack e event m (db, w) = (replicate m ([], Some (OtherProcessError [])), (db1, w1))"
      "worker_ok db1" "failures db1 ?i = m" "startable p (e m) event db1" by auto
    have lt: "int (failures db1 ?i + 1) < maxAttempts p" using Suc.prems ih(3) assms(4) by simp
    obtain db2 w2 where d: "worker_ok db2" "failures db2 ?i = Suc m"
      "ProcessMessage p handle ack False id (e m) (e m) (Some event) (db1, w1) = (([], Some (OtherProcessError [])), (db2, w2))"
      "\<exists>x. receipt_of db2 ?i = Some x \<and> jr_state x = StateFailed \<and> jr_kind x = JobKind event"
    proof (rule failing_delivery [where handle = handle and ack = ack and w = w1, OF ih(2) assms(3) one assms(5) [of m] ih(4) assms(6) [of w1]], goal_cases)
      case (1 w')
      then show ?case using assms(7) by blast
    next
      case (2 db2 w2)
      then show ?case using lt ih(3) by auto
    qed
    then have "startable p (e (Suc m)) event db2" using Suc.prems assms(4) by (auto simp: startable_def)
    with ih d show ?case by (simp add: replicate_append_same)
  qed
  then obtain db1 w1 where ih: "deliveries p handle ack e event n (db, w) = (replicate n ([], Some (OtherProcessError [])), (db1, w1))"
    "worker_ok db1" "failures db1 ?i = n" "startable p (e n) event db1" by blast
  obtain db2 w2 where "ProcessMessage p handle ack False id (e n) (e n) (Some event) (db1, w1) = ((MessageTerminate, None), (db2, w2))"
    "\<exists>d. dead_of db2 ?i = Some d \<and> dl_error d = t \<and> dl_payload d = Some event"
    proof (rule failing_delivery [where handle = handle and ack = ack and w = w1, OF ih(2) assms(3) one assms(5) [of n] ih(4) assms(6) [of w1]], goal_cases)
      case (1 w')
      then show ?case using assms(7) by blast
    next
      case (2 db2 w2)
      then show ?case using assms(4) ih(3) by auto
    qed
  with ih show ?thesis by auto
qed

subsection \<open>Instances\<close>

definition example_processor2 :: processor where
  "example_processor2 = \<lparr>maxAttempts = 2, hasAcknowledger = True\<rparr>"

definition example_client :: cleanup_client where
  "example_client = \<lparr>cc_baseURL = ''http://api'', cc_token = ''t''\<rparr>"

abbreviation example_handler :: "job_event \<Rightarrow> unit \<Rightarrow> job_error option \<times> unit" where
  "example_handler \<equiv> HandleJob (CleanupSecret example_client (\<lambda>_ w. (NoAnswer, w))) (Some (\<lambda>_ w. (None, w)))"

abbreviation broken_handler :: "job_event \<Rightarrow> unit \<Rightarrow> job_error option \<times> unit" where
  "broken_handler \<equiv> HandleJob (CleanupSecret example_client (\<lambda>_ w. (NoAnswer, w))) (Some (\<lambda>_ w. (Some ''denied'', w)))"

abbreviation example_ack :: "job_event \<Rightarrow> unit \<Rightarrow> job_error option \<times> unit" where
  "example_ack \<equiv> client_acknowledge example_client (\<lambda>_ w. (Answer 204 None, w))"

lemma example_job_facts:
  "Validate example_job = Inr ()" "example_handler example_job w = (None, ())" "example_ack example_job w = (None, ())"
  "fst (broken_handler example_job w) = Some (JobError ''denied'')" "startable p e example_job MigrateWorker"
  "fails (quiet_env t) = no_faults"
  by (simp_all add: example_job_def Validate_def event_constants trimSpace_visible HandleJob_def handleObjectDelete_def validReason_def
      client_acknowledge_def requiresObjectAcknowledgement_def hasPrefix_def startable_def MigrateWorker_def quiet_env_def)

lemma example_delivery:
  "\<exists>db'. ProcessMessage example_processor2 example_handler example_ack False id (quiet_env 10) (quiet_env 20) (Some example_job)
     (MigrateWorker, ()) = ((MessageAck, None), (db', ()))"
  using delivery_ok [of MigrateWorker example_job example_processor2 "quiet_env 10" "quiet_env 20" example_handler "()" "()" example_ack "()"]
  by (auto simp: example_job_facts example_processor2_def)

theorem delivery_succeeds_witness:
  "\<exists>db'. ProcessMessage example_processor2 example_handler example_ack False id (quiet_env 10) (quiet_env 20) (Some example_job)
     (MigrateWorker, ()) = ((MessageAck, None), (db', ())) \<and> job_state db' ''j1'' = Some StateSucceeded"
  using delivery_succeeds [of MigrateWorker example_job example_processor2 "quiet_env 10" "quiet_env 20" example_handler "()" "()" example_ack "()"]
  by (auto simp: example_job_facts example_processor2_def) (simp add: example_job_def)

theorem settlement_truthful_witness:
  "\<exists>db'. ProcessMessage example_processor2 example_handler example_ack False (\<lambda>d. run (worker_exec 2) d []) (quiet_env 10) (quiet_env 20)
     (Some example_job) (MigrateWorker, ()) = ((MessageAck, None), (db', ())) \<and> job_state db' (JobID example_job) = Some StateSucceeded"
proof -
  have id: "(\<lambda>d. run (worker_exec 2) d []) = id" by (simp add: id_def)
  obtain db' where d: "ProcessMessage example_processor2 example_handler example_ack False (\<lambda>d. run (worker_exec 2) d [])
      (quiet_env 10) (quiet_env 20) (Some example_job) (MigrateWorker, ()) = ((MessageAck, None), (db', ()))"
    unfolding id using example_delivery by blast
  have "1 \<le> maxAttempts example_processor2" by (simp add: example_processor2_def)
  from settlement_truthful [OF worker_ok_Migrate this example_job_facts(1) refl refl d] d show ?thesis by auto
qed

theorem poison_job_buried_witness:
  "\<exists>db'. deliveries example_processor2 broken_handler example_ack (\<lambda>k. quiet_env 10) example_job 2 (MigrateWorker, ()) =
      ([([], Some (OtherProcessError [])), (MessageTerminate, None)], (db', ())) \<and>
    (\<exists>d. dead_of db' (JobID example_job) = Some d \<and> dl_error d = ''denied'' \<and> dl_payload d = Some example_job)"
proof -
  have "receipt_of MigrateWorker (JobID example_job) = None" by (simp add: MigrateWorker_def)
  moreover have "maxAttempts example_processor2 = int (Suc 1)" "hasAcknowledger example_processor2"
    by (simp_all add: example_processor2_def)
  moreover have "fst (example_ack example_job w) = None" for w by (simp add: example_job_facts)
  ultimately show ?thesis
    using poison_job_buried [of MigrateWorker example_job example_processor2 1 "\<lambda>k. quiet_env 10" broken_handler "''denied''" example_ack "()"]
    by (simp del: deliveries.simps add: example_job_facts numeral_2_eq_2)
qed

end
