(* ===== verification/Cleanup_Path.thy ===== *)
theory Cleanup_Path
  imports Router_Guards Api_Promises Worker_Delivery
begin

text \<open>
  From an open to the erased ciphertext, across the two services: the open queues a job in its own
  transaction, the worker that receives the job calls the API's internal endpoint over HTTP, and the API
  deletes the payload. The worker's transport is the API's router; \<open>route\<close> is how chi reads the
  identifier out of the URL the worker built, and \<open>encsize\<close> the length of the encoded body.
\<close>

definition call_request :: "cleanup_call \<Rightarrow> http_request" where
  "call_request c = \<lparr>rq_method = ''POST'', rq_path = call_url c, rq_rawQuery = [],
     rq_header = (\<lambda>k. if k = ''X-Flick-Internal-Token'' then [call_token c]
       else if k = ''Content-Type'' then [''application/json''] else []), rq_remoteAddr = []\<rparr>"

definition call_body :: "(cleanup_call \<Rightarrow> int) \<Rightarrow> cleanup_call \<Rightarrow> cleanup_secret_request json_body" where
  "call_body encsize c = \<lparr>jb_readable = True, jb_length = encsize c, jb_keys = Some [''job_id'', ''reason''],
     jb_value = Some \<lparr>rq_JobID = call_JobID c, rq_Reason = call_Reason c\<rparr>, jb_single = True\<rparr>"

definition cleanup_transport ::
  "(string \<Rightarrow> string option) \<Rightarrow> (cleanup_call \<Rightarrow> int) \<Rightarrow> server \<Rightarrow> surroundings \<Rightarrow> cleanup_call \<Rightarrow> world \<Rightarrow>
   (string \<times> bool) answer \<times> world" where
  "cleanup_transport route encsize sv x c w =
     (case route (call_url c) of
        None \<Rightarrow> (Answer 404 None, w)
      | Some i \<Rightarrow>
          (case serve sv x (call_request c) (PostCleanup i (call_body encsize c)) w of
             (r, w') \<Rightarrow>
               (Answer (rs_status r)
                  (case rs_body r of JsonBody (SecretJson (CleanupJson j cleaned)) \<Rightarrow> Some (j, cleaned) | _ \<Rightarrow> None), w')))"

lemma Cleanup_ok:
  assumes "fails e = no_faults" "i \<noteq> []"
  shows "\<exists>cleaned. Cleanup e i s = (Inr cleaned, snd (Cleanup e i s))"
    "payload_of (snd (Cleanup e i s)) i = None"
    "j \<noteq> i \<Longrightarrow> payload_of (snd (Cleanup e i s)) j = payload_of s j"
    "map_option s_consumed_at (secret_of (snd (Cleanup e i s)) j) = map_option s_consumed_at (secret_of s j)"
proof -
  have gone: "sql_row (\<lambda>p. p_secret_id p = i) (sql_delete (\<lambda>q. p_secret_id q = i) t) = None" for t
    by (simp add: sql_row_None sql_delete_def)
  have kept: "sql_row (\<lambda>p. p_secret_id p = j) (sql_delete (\<lambda>q. p_secret_id q = i) t) = sql_row (\<lambda>p. p_secret_id p = j) t"
    if "j \<noteq> i" for t
    using that by (induction t) (auto simp: sql_row_def sql_delete_def)
  have row: "map_option s_consumed_at (sql_row (\<lambda>r. s_id r = j) (sql_update p (\<lambda>r. r\<lparr>s_updated_at := now\<rparr>) t)) =
      map_option s_consumed_at (sql_row (\<lambda>r. s_id r = j) t)" for p now t
    by (simp add: sql_row_update [where key = s_id] option.map_comp comp_def) (auto intro: option.map_cong)
  show "\<exists>cleaned. Cleanup e i s = (Inr cleaned, snd (Cleanup e i s))" "payload_of (snd (Cleanup e i s)) i = None"
    "j \<noteq> i \<Longrightarrow> payload_of (snd (Cleanup e i s)) j = payload_of s j"
    "map_option s_consumed_at (secret_of (snd (Cleanup e i s)) j) = map_option s_consumed_at (secret_of s j)"
    using assms by (simp_all add: Cleanup_def Let_def gone kept row)
qed

lemma transport_cleans:
  assumes "route (call_url c) = Some i" "call_token c = sv_internalToken sv" "sv_internalToken sv \<noteq> []"
    and "encsize c \<le> createBodyOverheadLimit" "call_JobID c \<noteq> []" "httpValidCleanupReason (call_Reason c)"
    and "fails (su_env x 0) = no_faults" "i \<noteq> []"
  shows "\<exists>cleaned. cleanup_transport route encsize sv x c w =
    (Answer 200 (Some (i, cleaned)), w\<lparr>w_db := snd (Cleanup (su_env x 0) i (w_db w))\<rparr>)"
proof -
  obtain cleaned where cl: "Cleanup (su_env x 0) i (w_db w) = (Inr cleaned, snd (Cleanup (su_env x 0) i (w_db w)))"
    using Cleanup_ok(1) [OF assms(7,8)] by blast
  have dec: "decode_body createBodyOverheadLimit contract (call_body encsize c) =
      Inr \<lparr>rq_JobID = call_JobID c, rq_Reason = call_Reason c\<rparr>" for contract
    using assms(4) by (simp add: decode_body_def body_read_def hasSensitiveField_def sensitive_keys_def call_body_def)
  have h: "cleanupSecret sv (su_env x 0) i (call_body encsize c) (w_db w) =
      (writeJSON 200 (CleanupJson i cleaned), snd (Cleanup (su_env x 0) i (w_db w)))"
    unfolding cleanupSecret_def dec by (subst cl) (simp add: assms)
  have "secureTokenEqual (header_get (call_request c) ''X-Flick-Internal-Token'') (sv_internalToken sv)"
    using assms(2,3) by (simp add: secureTokenEqual_def header_get_def call_request_def)
  then have "dispatch sv x (call_request c) (PostCleanup i (call_body encsize c)) w =
      (map_response SecretJson (writeJSON 200 (CleanupJson i cleaned)), w\<lparr>w_db := snd (Cleanup (su_env x 0) i (w_db w))\<rparr>)"
    by (simp add: internalAuth_def on_db_def h secret_json_of_def)
  moreover have "rq_method (call_request c) \<noteq> ''OPTIONS''" by (simp add: call_request_def)
  ultimately show ?thesis
    using assms(1) by (simp add: cleanup_transport_def serve_def cors_def map_response_def)
qed

text \<open>
  C11: An opened inline secret is erased by the worker. A successful open leaves a pending delete job in the
  outbox. When a worker whose token is the API's receives that job, in any state of its own tables in which
  the job may start and in any later state of the API, with no fault on the way, its call is answered with
  success, it records that and acknowledges the message, and the API no longer holds the ciphertext; the
  payloads of other secrets, and which secrets are consumed, are as before.
\<close>

theorem opened_payload_erased:
  assumes "openAndEnqueueCleanup st svc e i proofHash s = (Inr sec, s1)" "NewJobID e ''open job'' = Some jobID"
    and "event = consumed_job jobID i (clock e 2)"
    and "worker_ok db" "1 \<le> maxAttempts p" "fails e1 = no_faults" "fails e2 = no_faults" "startable p e1 event db"
    and "cc_token cl = sv_internalToken sv" "sv_internalToken sv \<noteq> []" "fails (su_env x 0) = no_faults"
    and "route (cc_baseURL cl @ ''/internal/secrets/'' @ pathEscape i @ ''/cleanup'') = Some i"
    and "\<forall>c. call_JobID c = jobID \<and> call_Reason c = ReasonConsumed \<longrightarrow> encsize c \<le> createBodyOverheadLimit"
  shows "(\<exists>row\<in>set (outbox_events s1). o_payload row = event \<and> o_state row = StatePending) \<and>
    (\<exists>db' w'. ProcessMessage p (HandleJob (CleanupSecret cl (cleanup_transport route encsize sv x)) objects) ack False id e1 e2
       (Some event) (db, w) = ((MessageAck, None), (db', w')) \<and>
     job_state db' jobID = Some StateSucceeded \<and> payload_of (w_db w') i = None \<and>
     (\<forall>j. j \<noteq> i \<longrightarrow> payload_of (w_db w') j = payload_of (w_db w) j) \<and>
     (\<forall>j. map_option s_consumed_at (secret_of (w_db w') j) = map_option s_consumed_at (secret_of (w_db w) j)))"
proof -
  obtain jobID' row s0 where q: "NewJobID e ''open job'' = Some jobID'"
    "enqueue_event (outboxSubject st) (clock e 3) (fails e) (consumed_job jobID' i (clock e 2)) s0 = (Inr row, s1)"
    by (rule openAndEnqueueCleanup_Inr [OF assms(1)])
  have row: "outbox_events s1 = outbox_events s0 @ [row]" "o_payload row = event" "o_state row = StatePending" "Validate event = Inr ()"
    using enqueue_event_Inr [OF q(2)] q(1) assms(2,3) by auto
  have ev: "JobID event = jobID" "JobKind event = KindDeleteSecret" "SecretID event = i" "Reason event = ReasonConsumed"
    by (simp_all add: assms(3) consumed_job_def)
  have vis: "trimSpace i \<noteq> []" "trimSpace jobID \<noteq> []"
    using row(4) ev by (auto simp: Validate_def split: if_splits)
  then have ne: "i \<noteq> []" "jobID \<noteq> []" by (auto simp: trimSpace_visible)
  let ?call = "\<lparr>call_url = cc_baseURL cl @ ''/internal/secrets/'' @ pathEscape i @ ''/cleanup'', call_token = cc_token cl,
    call_JobID = jobID, call_Reason = ReasonConsumed\<rparr>"
  let ?w1 = "w\<lparr>w_db := snd (Cleanup (su_env x 0) i (w_db w))\<rparr>"
  obtain cleaned where tr: "cleanup_transport route encsize sv x ?call w = (Answer 200 (Some (i, cleaned)), ?w1)"
    using transport_cleans [of route ?call i sv encsize x w] assms(9-13) ne by (auto simp: httpValidCleanupReason_def event_constants)
  have "HandleJob (CleanupSecret cl (cleanup_transport route encsize sv x)) objects event w = (None, ?w1)"
    using ev vis tr by (simp add: HandleJob_def cleanupReason_def CleanupSecret_def validCleanupReason_def event_constants trimSpace_visible)
  from delivery_ok [where handle = "HandleJob (CleanupSecret cl (cleanup_transport route encsize sv x)) objects" and ack = ack
      and w = w and ?w1.0 = ?w1 and ?w2.0 = ?w1, OF assms(4) row(4) assms(5,6,7,8) this] ev
  obtain db' w' where d: "ProcessMessage p (HandleJob (CleanupSecret cl (cleanup_transport route encsize sv x)) objects) ack False id e1 e2
      (Some event) (db, w) = ((MessageAck, None), (db', w'))" "job_state db' jobID = Some StateSucceeded" "w' = ?w1"
    by (auto simp: event_constants)
  show ?thesis using row(1,2,3) d Cleanup_ok(2,3,4) [OF assms(11) ne(1), where s = "w_db w"] by auto
qed

subsection \<open>A call through the router\<close>

definition example_limiters :: limiters where
  "example_limiters = (let l = newRateLimiter 60 [] in
     \<lparr>openLimiter = l, createLimiter = l, managementLimiter = l, requestLimiter = l\<rparr>)"

definition example_world :: "api \<Rightarrow> world" where
  "example_world s = \<lparr>w_db = s, w_limiters = example_limiters\<rparr>"

definition example_surroundings :: surroundings where
  "example_surroundings = \<lparr>su_s3 = example_s3, su_env = (\<lambda>_. example_env 3), su_now = 3, su_finalizing = Map.empty,
     su_between = id, su_streaming = id\<rparr>"

definition anonymous_request :: http_request where
  "anonymous_request = \<lparr>rq_method = ''POST'', rq_path = ''/internal/secrets/x/cleanup'', rq_rawQuery = [],
     rq_header = (\<lambda>_. []), rq_remoteAddr = ''198.51.100.7:5555''\<rparr>"

definition example_cleanup_body :: "cleanup_secret_request json_body" where
  "example_cleanup_body = call_body (\<lambda>_. 64) \<lparr>call_url = [], call_token = [], call_JobID = ''j'', call_Reason = ''manual''\<rparr>"


text \<open>Reading the identifier back out of the URL, for identifiers that need no escaping.\<close>

definition example_route :: "string \<Rightarrow> string option" where
  "example_route url = (let rest = drop (length ''http://api/internal/secrets/'') url in
     Some (take (length rest - length ''/cleanup'') rest))"

definition example_cleanup_client :: cleanup_client where
  "example_cleanup_client = \<lparr>cc_baseURL = ''http://api'', cc_token = ''internal''\<rparr>"

lemma example_id_safe: "pathEscape example_id = example_id"
  by code_simp

lemma link_payload:
  assumes "openAndEnqueueCleanup example_store example_s3 (example_env 2) example_id [] link_state = (Inr sec, s1)"
  shows "payload_of s1 example_id \<noteq> None"
proof -
  obtain csec where c: "Create example_store (example_env 1) link_input MigrateAPI = (Inr csec, link_state)" "ID csec = example_id"
    using link_Create by blast
  have ok: "secrets_ok link_state" by (rule api_ok_parts(1) [OF link_state_ok])
  from c(1) obtain i inp now x raw where st: "link_state = MigrateAPI\<lparr>secrets := secrets MigrateAPI @ [inline_row i inp now x],
       secret_payloads := secret_payloads MigrateAPI @
         [\<lparr>p_secret_id = i, p_ciphertext = ci_Ciphertext inp, p_created_at = now\<rparr>],
       secret_management := secret_management MigrateAPI @
         [\<lparr>m_secret_id = i, m_token_hash = sha256 raw, m_expires_at = x, m_outcome = None\<rparr>]\<rparr>" and i: "ID csec = i"
    by (rule Create_Inr)
  have "\<exists>q\<in>set (secret_payloads link_state). p_secret_id q = example_id" unfolding st using c(2) i by simp
  then have p: "payload_of link_state example_id \<noteq> None" by (simp only: sql_row_None) blast
  obtain jobID row s0 where q: "OpenTx example_store example_s3 (example_env 2) example_id [] link_state = (Inr sec, s0)"
    "enqueue_event (outboxSubject example_store) (clock (example_env 2) 3) (fails (example_env 2))
      (consumed_job jobID example_id (clock (example_env 2) 2)) s0 = (Inr row, s1)"
    by (rule openAndEnqueueCleanup_Inr [OF assms])
  have "secret_payloads s0 = secret_payloads link_state"
    by (rule OpenTx_Inr [OF q(1) secrets_ok_distinct [OF ok]]) simp
  moreover have "secret_payloads s1 = secret_payloads s0" using enqueue_event_Inr [OF q(2)] by simp
  ultimately show ?thesis using p by simp
qed

theorem opened_payload_erased_witness:
  "\<exists>jobID sec s1 db' w'. openAndEnqueueCleanup example_store example_s3 (example_env 2) example_id [] link_state = (Inr sec, s1) \<and>
     payload_of s1 example_id \<noteq> None \<and>
     ProcessMessage example_processor2 (HandleJob (CleanupSecret example_cleanup_client
         (cleanup_transport example_route (\<lambda>_. 64) example_server example_surroundings)) None) (\<lambda>_ w. (None, w)) False id
       (quiet_env 10) (quiet_env 20) (Some (consumed_job jobID example_id 2)) (MigrateWorker, example_world s1) =
       ((MessageAck, None), (db', w')) \<and>
     payload_of (w_db w') example_id = None"
proof -
  obtain sec s1 where op: "openAndEnqueueCleanup example_store example_s3 (example_env 2) example_id [] link_state = (Inr sec, s1)"
    using link_open by blast
  obtain jobID where j: "NewJobID (example_env 2) ''open job'' = Some jobID" by (simp add: NewJobID_def example_env_def)
  have ev: "consumed_job jobID example_id 2 = consumed_job jobID example_id (clock (example_env 2) 2)" by simp
  have p: "1 \<le> maxAttempts example_processor2"
    "startable example_processor2 (quiet_env 10) (consumed_job jobID example_id 2) MigrateWorker"
    by (simp_all add: startable_def MigrateWorker_def example_processor2_def)
  have t: "cc_token example_cleanup_client = sv_internalToken example_server" "sv_internalToken example_server \<noteq> []"
    "fails (su_env example_surroundings 0) = no_faults"
    by (simp_all add: example_cleanup_client_def example_server_def example_surroundings_def)
  have r: "example_route (cc_baseURL example_cleanup_client @ ''/internal/secrets/'' @ pathEscape example_id @ ''/cleanup'') = Some example_id"
    by (simp add: example_route_def example_id_safe example_cleanup_client_def)
  have z: "\<forall>c. call_JobID c = jobID \<and> call_Reason c = ReasonConsumed \<longrightarrow> (64 :: int) \<le> createBodyOverheadLimit"
    by (simp add: createBodyOverheadLimit_def)
  from opened_payload_erased [where route = example_route and encsize = "\<lambda>_. 64" and ack = "\<lambda>_ w. (None, w)" and objects = None and w = "example_world s1"
      and ?e1.0 = "quiet_env 10" and ?e2.0 = "quiet_env 20",
      OF op j ev worker_ok_Migrate p(1) example_job_facts(6) example_job_facts(6) p(2) t r z]
  have "\<exists>db' w'. ProcessMessage example_processor2 (HandleJob (CleanupSecret example_cleanup_client
         (cleanup_transport example_route (\<lambda>_. 64) example_server example_surroundings)) None) (\<lambda>_ w. (None, w)) False id
       (quiet_env 10) (quiet_env 20) (Some (consumed_job jobID example_id 2)) (MigrateWorker, example_world s1) =
       ((MessageAck, None), (db', w')) \<and> payload_of (w_db w') example_id = None" by blast
  then show ?thesis using op link_payload [OF op] by blast
qed

end
