(* ===== verification/Config.thy ===== *)
theory Config
  imports Client_Address Age_Format
begin

text \<open>
  The configuration of both services (src/internal/config/config.go, defaults.go): environment variables
  with their defaults, the numeric and boolean parsers, the list of trusted proxies, and the checks \<open>Load\<close>
  makes in order. The environment maps a name to its value, empty when it is not set; the first failing
  check is the error.
\<close>

record s3_config =
  s3_Enabled :: bool
  s3_Endpoint :: string
  s3_Region :: string
  s3_Bucket :: string
  s3_AccessKeyID :: string
  s3_SecretAccessKey :: string
  s3_PathStyle :: bool

record config =
  cf_Env :: string
  cf_PublicBaseURL :: string
  cf_InternalToken :: string
  cf_MetricsToken :: string
  cf_OTLPEndpoint :: string
  cf_InternalAPIBaseURL :: string
  cf_APIAddr :: string
  cf_APIDBPath :: string
  cf_WorkerDBPath :: string
  cf_NATSURL :: string
  cf_NATSStream :: string
  cf_NATSJobSubject :: string
  cf_PayloadInlineMaxBytes :: int
  cf_MaxFileBytes :: int
  cf_DefaultTTLSeconds :: int
  cf_MinTTLSeconds :: int
  cf_MaxTTLSeconds :: int
  cf_OpenRatePerMinute :: int
  cf_CreateRatePerMinute :: int
  cf_ReaperIntervalSeconds :: int
  cf_ReaperBatchSize :: int
  cf_PipeRelayEnabled :: bool
  cf_PipeMaxConcurrent :: int
  cf_TrustedProxies :: "ip_net list"
  cf_S3 :: s3_config

definition defaultPayloadInlineMaxBytes :: int where "defaultPayloadInlineMaxBytes = 1048576"
definition defaultMaxFileBytes :: int where "defaultMaxFileBytes = 268435456"
definition defaultDefaultTTLSeconds :: int where "defaultDefaultTTLSeconds = 3600"
definition defaultMinTTLSeconds :: int where "defaultMinTTLSeconds = 300"
definition defaultMaxTTLSeconds :: int where "defaultMaxTTLSeconds = 604800"
definition defaultOpenRatePerMinute :: int where "defaultOpenRatePerMinute = 10"
definition defaultCreateRatePerMinute :: int where "defaultCreateRatePerMinute = 5"
definition defaultReaperIntervalSeconds :: int where "defaultReaperIntervalSeconds = 60"
definition defaultReaperBatchSize :: int where "defaultReaperBatchSize = 50"
definition defaultPipeRelayEnabled :: bool where "defaultPipeRelayEnabled = True"
definition defaultPipeMaxConcurrent :: int where "defaultPipeMaxConcurrent = 100"

lemmas config_defaults = defaultPayloadInlineMaxBytes_def defaultMaxFileBytes_def defaultDefaultTTLSeconds_def
  defaultMinTTLSeconds_def defaultMaxTTLSeconds_def defaultOpenRatePerMinute_def defaultCreateRatePerMinute_def
  defaultReaperIntervalSeconds_def defaultReaperBatchSize_def defaultPipeRelayEnabled_def defaultPipeMaxConcurrent_def

subsection \<open>Parsing\<close>

definition getenv :: "(string \<Rightarrow> string) \<Rightarrow> string \<Rightarrow> string \<Rightarrow> string" where
  "getenv E key fallback = (if E key \<noteq> [] then E key else fallback)"

text \<open>\<open>strconv.ParseInt(raw, 10, 64)\<close>, and \<open>Atoi\<close>, whose \<open>int\<close> has 64 bits: an optional sign and digits.\<close>

definition parseInt :: "string \<Rightarrow> int option" where
  "parseInt raw =
     (let neg = hasPrefix raw ''-''; ds = (if neg \<or> hasPrefix raw ''+'' then tl raw else raw);
          n = (if neg then - int (decimal ds) else int (decimal ds)) in
      if ds = [] \<or> \<not> list_all is_digit ds \<or> n < - (2 ^ 63) \<or> n \<ge> 2 ^ 63 then None else Some n)"

definition parsePositive :: "string \<Rightarrow> string \<Rightarrow> string + int" where
  "parsePositive name raw =
     (case parseInt raw of
        None \<Rightarrow> Inl (name @ '' must be a positive integer'')
      | Some n \<Rightarrow> if n \<le> 0 then Inl (name @ '' must be a positive integer'') else Inr n)"

definition envPositive :: "(string \<Rightarrow> string) \<Rightarrow> string \<Rightarrow> int \<Rightarrow> string + int" where
  "envPositive E name cur = (if E name = [] then Inr cur else parsePositive name (E name))"

text \<open>\<open>EqualFold\<close> against a word with an \<open>s\<close> also accepts the long s (U+017F).\<close>

fun short_s :: "string \<Rightarrow> string" where
  "short_s (a # b # xs) = (if byte a = 197 \<and> byte b = 191 then CHR ''s'' # short_s xs else a # short_s (b # xs))"
| "short_s xs = xs"

definition envBool :: "(string \<Rightarrow> string) \<Rightarrow> string \<Rightarrow> bool \<Rightarrow> string + bool" where
  "envBool E name fallback =
     (let raw = trimSpace (E name) in
      if raw = [] then Inr fallback
      else if equalFold raw ''true'' then Inr True
      else if equalFold (short_s raw) ''false'' then Inr False
      else Inl (name @ '' must be true or false''))"

subsection \<open>Trusted proxies\<close>

text \<open>\<open>net.ParseCIDR\<close>: the prefix length counts the bits of the address as written.\<close>

definition is_ipv4_text :: "string \<Rightarrow> bool" where
  "is_ipv4_text s \<longleftrightarrow> (case dropWhile (\<lambda>c. c \<notin> {CHR ''.'', CHR '':'', CHR ''%''}) s of c # _ \<Rightarrow> c = CHR ''.'' | [] \<Rightarrow> False)"

fun mask_bytes :: "nat \<Rightarrow> nat \<Rightarrow> nat list" where
  "mask_bytes 0 n = []"
| "mask_bytes (Suc k) n = (if 8 \<le> n then 255 # mask_bytes k (n - 8) else (255 - 255 div 2 ^ n) # mask_bytes k 0)"

definition CIDRMask :: "nat \<Rightarrow> nat \<Rightarrow> nat list" where
  "CIDRMask ones bits = mask_bytes (bits div 8) ones"

definition mask_ip :: "nat list \<Rightarrow> nat list \<Rightarrow> nat list" where
  "mask_ip ip m = map2 (\<lambda>a b. and a b) (if length m = 4 then shortest ip else ip) m"

definition ParseCIDR :: "string \<Rightarrow> ip_net option" where
  "ParseCIDR s =
     (let addr = takeWhile (\<lambda>c. c \<noteq> CHR ''/'') s; rest = drop (length addr) s; mask = tl rest;
          bits = (if is_ipv4_text addr then 32 else 128) in
      if rest = [] then None
      else (case ParseIP addr of
        None \<Rightarrow> None
      | Some ip \<Rightarrow>
          if mask = [] \<or> \<not> list_all is_digit mask \<or> decimal mask > bits then None
          else let m = CIDRMask (decimal mask) bits in Some \<lparr>net_IP = mask_ip ip m, net_Mask = m\<rparr>))"

definition parseCIDR :: "string \<Rightarrow> string + ip_net" where
  "parseCIDR raw0 =
     (let whole = (if CHR ''/'' \<in> set raw0 then Inr raw0
          else (case ParseIP raw0 of
            None \<Rightarrow> Inl ''invalid IP''
          | Some ip \<Rightarrow> Inr (raw0 @ (if To4 ip \<noteq> None then ''/32'' else ''/128'')))) in
      case whole of
        Inl err \<Rightarrow> Inl err
      | Inr raw \<Rightarrow> (case ParseCIDR raw of None \<Rightarrow> Inl ''invalid CIDR'' | Some cidr \<Rightarrow> Inr cidr))"

fun parse_proxies :: "string list \<Rightarrow> string + ip_net list" where
  "parse_proxies [] = Inr []"
| "parse_proxies (part # parts) =
     (if trimSpace part = [] then Inl ''FLICK_TRUSTED_PROXIES must not contain empty entries''
      else (case parseCIDR (trimSpace part) of
        Inl err \<Rightarrow> Inl (''FLICK_TRUSTED_PROXIES: '' @ err)
      | Inr cidr \<Rightarrow> (case parse_proxies parts of Inl err \<Rightarrow> Inl err | Inr cidrs \<Rightarrow> Inr (cidr # cidrs))))"

definition parseTrustedProxies :: "string \<Rightarrow> string + ip_net list" where
  "parseTrustedProxies raw = parse_proxies (split_on CHR '','' raw)"

subsection \<open>Loading\<close>

definition and_then :: "'e + 'a \<Rightarrow> ('a \<Rightarrow> 'e + 'b) \<Rightarrow> 'e + 'b" where
  "and_then x f = (case x of Inl err \<Rightarrow> Inl err | Inr v \<Rightarrow> f v)"

definition require :: "bool \<Rightarrow> string \<Rightarrow> string + 'a \<Rightarrow> string + 'a" where
  "require ok err next = (if ok then next else Inl err)"

definition base_config :: "(string \<Rightarrow> string) \<Rightarrow> config" where
  "base_config E =
     \<lparr>cf_Env = getenv E ''FLICK_ENV'' ''development'',
      cf_PublicBaseURL = getenv E ''FLICK_PUBLIC_BASE_URL'' ''http://localhost:5173'',
      cf_InternalToken = getenv E ''FLICK_INTERNAL_TOKEN'' [], cf_MetricsToken = getenv E ''FLICK_METRICS_TOKEN'' [],
      cf_OTLPEndpoint = getenv E ''FLICK_OTLP_ENDPOINT'' [],
      cf_InternalAPIBaseURL = getenv E ''FLICK_INTERNAL_API_BASE_URL'' ''http://localhost:8080'',
      cf_APIAddr = getenv E ''FLICK_API_ADDR'' '':8080'', cf_APIDBPath = getenv E ''FLICK_API_DB_PATH'' ''./var/api.db'',
      cf_WorkerDBPath = getenv E ''FLICK_WORKER_DB_PATH'' ''./var/worker.db'',
      cf_NATSURL = getenv E ''FLICK_NATS_URL'' ''nats://127.0.0.1:4222'',
      cf_NATSStream = getenv E ''FLICK_NATS_STREAM'' ''FLICK_JOBS'',
      cf_NATSJobSubject = getenv E ''FLICK_NATS_JOB_SUBJECT'' ''flick.jobs'',
      cf_PayloadInlineMaxBytes = defaultPayloadInlineMaxBytes, cf_MaxFileBytes = defaultMaxFileBytes,
      cf_DefaultTTLSeconds = defaultDefaultTTLSeconds, cf_MinTTLSeconds = defaultMinTTLSeconds,
      cf_MaxTTLSeconds = defaultMaxTTLSeconds, cf_OpenRatePerMinute = defaultOpenRatePerMinute,
      cf_CreateRatePerMinute = defaultCreateRatePerMinute, cf_ReaperIntervalSeconds = defaultReaperIntervalSeconds,
      cf_ReaperBatchSize = defaultReaperBatchSize, cf_PipeRelayEnabled = defaultPipeRelayEnabled,
      cf_PipeMaxConcurrent = defaultPipeMaxConcurrent, cf_TrustedProxies = [],
      cf_S3 = \<lparr>s3_Enabled = (getenv E ''FLICK_STORAGE_LARGE_BACKEND'' ''disabled'' = ''s3''),
        s3_Endpoint = getenv E ''FLICK_S3_ENDPOINT'' [], s3_Region = getenv E ''FLICK_S3_REGION'' ''us-east-1'',
        s3_Bucket = getenv E ''FLICK_S3_BUCKET'' [], s3_AccessKeyID = getenv E ''FLICK_S3_ACCESS_KEY_ID'' [],
        s3_SecretAccessKey = getenv E ''FLICK_S3_SECRET_ACCESS_KEY'' [], s3_PathStyle = False\<rparr>\<rparr>"

definition validate_config :: "config \<Rightarrow> string + config" where
  "validate_config cfg =
     require (0 < cf_MinTTLSeconds cfg) ''FLICK_MIN_TTL_SECONDS must be a positive integer'' (
     require (cf_MinTTLSeconds cfg \<le> cf_MaxTTLSeconds cfg) ''FLICK_MAX_TTL_SECONDS must be >= FLICK_MIN_TTL_SECONDS'' (
     require (cf_MinTTLSeconds cfg \<le> cf_DefaultTTLSeconds cfg \<and> cf_DefaultTTLSeconds cfg \<le> cf_MaxTTLSeconds cfg)
       ''FLICK_DEFAULT_TTL_SECONDS must be within FLICK_MIN_TTL_SECONDS..FLICK_MAX_TTL_SECONDS'' (
     require (0 < cf_OpenRatePerMinute cfg) ''FLICK_OPEN_RATE_PER_MIN must be a positive integer'' (
     require (0 < cf_CreateRatePerMinute cfg) ''FLICK_CREATE_RATE_PER_MIN must be a positive integer'' (
     require (0 < cf_ReaperIntervalSeconds cfg) ''FLICK_REAPER_INTERVAL_SECONDS must be a positive integer'' (
     require (0 < cf_ReaperBatchSize cfg) ''FLICK_REAPER_BATCH_SIZE must be a positive integer'' (
     require (0 < cf_PipeMaxConcurrent cfg) ''FLICK_PIPE_MAX_CONCURRENT must be a positive integer'' (
     require (\<not> s3_Enabled (cf_S3 cfg) \<or> s3_Bucket (cf_S3 cfg) \<noteq> [] \<and> s3_Region (cf_S3 cfg) \<noteq> [])
       ''FLICK_S3_BUCKET and FLICK_S3_REGION are required when FLICK_STORAGE_LARGE_BACKEND=s3'' (
     require (\<not> s3_Enabled (cf_S3 cfg) \<or> s3_AccessKeyID (cf_S3 cfg) \<noteq> [] \<and> s3_SecretAccessKey (cf_S3 cfg) \<noteq> [])
       ''FLICK_S3_ACCESS_KEY_ID and FLICK_S3_SECRET_ACCESS_KEY are required when FLICK_STORAGE_LARGE_BACKEND=s3'' (
     Inr cfg))))))))))"

definition Load :: "(string \<Rightarrow> string) \<Rightarrow> string + config" where
  "Load E =
     (let c = base_config E in
      and_then (envBool E ''FLICK_S3_PATH_STYLE'' True) (\<lambda>pathStyle.
      and_then (envPositive E ''FLICK_PAYLOAD_INLINE_MAX_BYTES'' (cf_PayloadInlineMaxBytes c)) (\<lambda>inline.
      require (MaxCiphertextBytes 0 \<le> inline) ''FLICK_PAYLOAD_INLINE_MAX_BYTES must be at least 4128 bytes (an empty age file)'' (
      and_then (envPositive E ''FLICK_MAX_FILE_BYTES'' (cf_MaxFileBytes c)) (\<lambda>maxFile.
      and_then (envPositive E ''FLICK_DEFAULT_TTL_SECONDS'' (cf_DefaultTTLSeconds c)) (\<lambda>defaultTTL.
      and_then (envPositive E ''FLICK_MIN_TTL_SECONDS'' (cf_MinTTLSeconds c)) (\<lambda>lo.
      and_then (envPositive E ''FLICK_MAX_TTL_SECONDS'' (cf_MaxTTLSeconds c)) (\<lambda>hi.
      and_then (envPositive E ''FLICK_OPEN_RATE_PER_MIN'' (cf_OpenRatePerMinute c)) (\<lambda>openRate.
      and_then (envPositive E ''FLICK_CREATE_RATE_PER_MIN'' (cf_CreateRatePerMinute c)) (\<lambda>createRate.
      and_then (envPositive E ''FLICK_REAPER_INTERVAL_SECONDS'' (cf_ReaperIntervalSeconds c)) (\<lambda>interval.
      and_then (envPositive E ''FLICK_REAPER_BATCH_SIZE'' (cf_ReaperBatchSize c)) (\<lambda>batch.
      and_then (envBool E ''FLICK_PIPE_RELAY_ENABLED'' (cf_PipeRelayEnabled c)) (\<lambda>relay.
      and_then (envPositive E ''FLICK_PIPE_MAX_CONCURRENT'' (cf_PipeMaxConcurrent c)) (\<lambda>maxConcurrent.
      and_then (if E ''FLICK_TRUSTED_PROXIES'' \<noteq> [] then parseTrustedProxies (E ''FLICK_TRUSTED_PROXIES'') else Inr []) (\<lambda>proxies.
        validate_config (c\<lparr>cf_PayloadInlineMaxBytes := inline, cf_MaxFileBytes := maxFile, cf_DefaultTTLSeconds := defaultTTL,
          cf_MinTTLSeconds := lo, cf_MaxTTLSeconds := hi, cf_OpenRatePerMinute := openRate, cf_CreateRatePerMinute := createRate,
          cf_ReaperIntervalSeconds := interval, cf_ReaperBatchSize := batch, cf_PipeRelayEnabled := relay,
          cf_PipeMaxConcurrent := maxConcurrent, cf_TrustedProxies := proxies,
          cf_S3 := (cf_S3 c)\<lparr>s3_PathStyle := pathStyle\<rparr>\<rparr>))))))))))))))))"

text \<open>Both limits call \<open>MaxPlaintextBytes\<close>, which may not return.\<close>

definition EffectivePayloadInlineMaxBytes :: "config \<Rightarrow> int option" where
  "EffectivePayloadInlineMaxBytes c = MaxPlaintextBytes (cf_PayloadInlineMaxBytes c)"

definition EffectiveMaxFileBytes :: "config \<Rightarrow> int option" where
  "EffectiveMaxFileBytes c =
     map_option (\<lambda>inline. if \<not> s3_Enabled (cf_S3 c) \<and> cf_MaxFileBytes c > inline then inline else cf_MaxFileBytes c)
       (EffectivePayloadInlineMaxBytes c)"

subsection \<open>What an accepted configuration guarantees\<close>

lemma and_then_Inr: "and_then x f = Inr v \<longleftrightarrow> (\<exists>u. x = Inr u \<and> f u = Inr v)"
  by (simp add: and_then_def split: sum.split)

lemma require_Inr: "require ok err next = Inr v \<longleftrightarrow> ok \<and> next = Inr v"
  by (simp add: require_def)

lemma envPositive_pos: "envPositive E name cur = Inr n \<Longrightarrow> 0 < cur \<Longrightarrow> cur < 2 ^ 63 \<Longrightarrow> 0 < n \<and> n < 2 ^ 63"
  by (auto simp: envPositive_def parsePositive_def parseInt_def Let_def split: if_splits option.splits)

definition config_ok :: "config \<Rightarrow> bool" where
  "config_ok c \<longleftrightarrow> MaxCiphertextBytes 0 \<le> cf_PayloadInlineMaxBytes c \<and> cf_PayloadInlineMaxBytes c < 2 ^ 63 \<and>
     0 < cf_MaxFileBytes c \<and> cf_MaxFileBytes c < 2 ^ 63 \<and>
     0 < cf_MinTTLSeconds c \<and> cf_MinTTLSeconds c \<le> cf_DefaultTTLSeconds c \<and> cf_DefaultTTLSeconds c \<le> cf_MaxTTLSeconds c \<and>
     0 < cf_OpenRatePerMinute c \<and> 0 < cf_CreateRatePerMinute c \<and> 0 < cf_ReaperIntervalSeconds c \<and>
     0 < cf_ReaperBatchSize c \<and> 0 < cf_PipeMaxConcurrent c \<and>
     (s3_Enabled (cf_S3 c) \<longrightarrow> s3_Bucket (cf_S3 c) \<noteq> [] \<and> s3_Region (cf_S3 c) \<noteq> [] \<and>
        s3_AccessKeyID (cf_S3 c) \<noteq> [] \<and> s3_SecretAccessKey (cf_S3 c) \<noteq> [])"

lemma validate_config_Inr:
  "validate_config c = Inr c' \<Longrightarrow> c' = c \<and> 0 < cf_MinTTLSeconds c \<and> cf_MinTTLSeconds c \<le> cf_DefaultTTLSeconds c \<and>
     cf_DefaultTTLSeconds c \<le> cf_MaxTTLSeconds c \<and> 0 < cf_OpenRatePerMinute c \<and> 0 < cf_CreateRatePerMinute c \<and>
     0 < cf_ReaperIntervalSeconds c \<and> 0 < cf_ReaperBatchSize c \<and> 0 < cf_PipeMaxConcurrent c \<and>
     (s3_Enabled (cf_S3 c) \<longrightarrow> s3_Bucket (cf_S3 c) \<noteq> [] \<and> s3_Region (cf_S3 c) \<noteq> [] \<and>
        s3_AccessKeyID (cf_S3 c) \<noteq> [] \<and> s3_SecretAccessKey (cf_S3 c) \<noteq> [])"
  by (auto simp: validate_config_def require_Inr)

lemma Load_ok:
  assumes "Load E = Inr c"
  shows "config_ok c"
proof -
  obtain inline maxFile c0 where c: "envPositive E ''FLICK_PAYLOAD_INLINE_MAX_BYTES'' defaultPayloadInlineMaxBytes = Inr inline"
    "MaxCiphertextBytes 0 \<le> inline" "envPositive E ''FLICK_MAX_FILE_BYTES'' defaultMaxFileBytes = Inr maxFile"
    "validate_config c0 = Inr c" "cf_PayloadInlineMaxBytes c0 = inline" "cf_MaxFileBytes c0 = maxFile"
    using assms unfolding Load_def Let_def and_then_Inr require_Inr by (auto simp: base_config_def)
  show ?thesis
    using validate_config_Inr [OF c(4)] envPositive_pos [OF c(1)] envPositive_pos [OF c(3)] c
    by (auto simp: config_ok_def config_defaults)
qed

end
