(* ===== verification/Startup.thy ===== *)
theory Startup
  imports Config Http_Router
begin

text \<open>
  How flick-api is put together from its configuration (src/cmd/flick-api/main.go): the stores, their
  limits and the router's options. The result is \<open>None\<close> when computing a limit does not return, and
  an error when a store refuses its options, at which the process exits. Connections, signals and the
  background loops are not part of it.
\<close>

definition secret_options :: "config \<Rightarrow> store_options" where
  "secret_options cfg = \<lparr>opt_PayloadInlineMaxBytes = cf_PayloadInlineMaxBytes cfg,
     opt_MaxObjectBytes = MaxCiphertextBytes (cf_MaxFileBytes cfg), opt_PresignTTL = 0, opt_PendingTTL = 0,
     opt_MinTTLSeconds = cf_MinTTLSeconds cfg, opt_MaxTTLSeconds = cf_MaxTTLSeconds cfg,
     opt_Objects = s3_Enabled (cf_S3 cfg), opt_Outbox = True\<rparr>"

definition request_options :: "(string \<Rightarrow> string option) \<Rightarrow> config \<Rightarrow> request_store" where
  "request_options parse cfg = \<lparr>rq_hasObjects = s3_Enabled (cf_S3 cfg), rq_hasOutbox = True,
     rq_PayloadInlineMaxBytes = cf_PayloadInlineMaxBytes cfg, rq_MaxObjectBytes = MaxCiphertextBytes (cf_MaxFileBytes cfg),
     rq_MinTTLSeconds = cf_MinTTLSeconds cfg, rq_DefaultTTLSeconds = cf_DefaultTTLSeconds cfg,
     rq_MaxTTLSeconds = cf_MaxTTLSeconds cfg, rq_subject = cf_NATSJobSubject cfg, rq_parseHybridRecipient = parse\<rparr>"

definition router_options :: "config \<Rightarrow> int \<Rightarrow> int \<Rightarrow> request_store \<Rightarrow> options" where
  "router_options cfg inline maxFile rst =
     \<lparr>PayloadInlineMaxBytes = cf_PayloadInlineMaxBytes cfg, AdvertisedInlineMaxBytes = inline, MaxFileBytes = maxFile,
      AllowedOrigin = cf_PublicBaseURL cfg, InternalToken = cf_InternalToken cfg, MetricsToken = cf_MetricsToken cfg,
      OpenRatePerMinute = cf_OpenRatePerMinute cfg, CreateRatePerMinute = cf_CreateRatePerMinute cfg,
      TrustedProxies = cf_TrustedProxies cfg, RequestStore = Some rst, PipeRelayEnabled = cf_PipeRelayEnabled cfg\<rparr>"

definition start_api :: "sqlite \<Rightarrow> (string \<Rightarrow> string option) \<Rightarrow> config \<Rightarrow> (string + server \<times> limiters) option" where
  "start_api engn parse cfg =
     (case NewStore engn (cf_NATSJobSubject cfg) True (secret_options cfg) of
        Inl _ \<Rightarrow> Some (Inl ''create secret store'')
      | Inr st \<Rightarrow>
          (case NewRequestStore True (request_options parse cfg) of
             Inl _ \<Rightarrow> Some (Inl ''create request store'')
           | Inr rst \<Rightarrow>
               (case EffectivePayloadInlineMaxBytes cfg of
                  None \<Rightarrow> None
                | Some inline \<Rightarrow>
                    (case EffectiveMaxFileBytes cfg of
                       None \<Rightarrow> None
                     | Some maxFile \<Rightarrow> Some (Inr (NewServer st (router_options cfg inline maxFile rst)))))))"

lemma body_limit:
  assumes "0 < sv_payloadInlineMaxBytes sv" "sv_payloadInlineMaxBytes sv < 2 ^ 62"
  shows "createSecretBodyLimit sv = (sv_payloadInlineMaxBytes sv + 2) div 3 * 4 + createBodyOverheadLimit"
proof -
  let ?p = "sv_payloadInlineMaxBytes sv"
  have q: "quot (wrap64 (?p + 2)) 3 = (?p + 2) div 3" using assms by (simp add: wrap64_id quot_nonneg)
  have b: "0 \<le> (?p + 2) div 3" "3 * ((?p + 2) div 3) \<le> ?p + 2" using assms by linarith+
  then have "(?p + 2) div 3 * 4 + 65536 < 2 ^ 63" using assms(2) by simp
  then show ?thesis using b unfolding createSecretBodyLimit_def q createBodyOverheadLimit_def by (simp add: wrap64_id)
qed

text \<open>
  C39: The limits the API advertises are limits it keeps. For every configuration \<open>Load\<close> accepts with sizes
  below \<open>2 ^ 62\<close>, an inline limit that holds at least one byte of plaintext and a maximal lifetime that fits
  a duration, the API starts. A plaintext within the advertised inline limit, encrypted, fits the inline
  store, and its base64 form together with the allowance for the other fields fits the request body
  limit; a plaintext within the advertised file limit, encrypted, fits the bucket's object limit when
  object storage is on and the inline store when it is off.
\<close>

theorem advertised_limits_hold:
  assumes "Load E = Inr cfg" "cf_PayloadInlineMaxBytes cfg < 2 ^ 62" "cf_MaxFileBytes cfg < 2 ^ 62"
    and "MaxCiphertextBytes 1 \<le> cf_PayloadInlineMaxBytes cfg" "cf_MaxTTLSeconds cfg \<le> (2 ^ 63 - 1) div Second"
  shows "\<exists>sv ls. start_api engn parse cfg = Some (Inr (sv, ls)) \<and>
    (\<forall>n. 0 \<le> n \<and> n \<le> sv_advertisedInlineMaxBytes sv \<longrightarrow>
       MaxCiphertextBytes n \<le> payloadInlineMaxBytes (sv_store sv) \<and>
       (MaxCiphertextBytes n + 2) div 3 * 4 + createBodyOverheadLimit \<le> createSecretBodyLimit sv) \<and>
    (\<forall>n. 0 \<le> n \<and> n \<le> sv_maxFileBytes sv \<longrightarrow>
       MaxCiphertextBytes n \<le> (if hasObjects (sv_store sv) then maxObjectBytes (sv_store sv) else payloadInlineMaxBytes (sv_store sv)))"
proof -
  let ?c = "cf_PayloadInlineMaxBytes cfg" and ?m = "cf_MaxFileBytes cfg"
  note ok = Load_ok [OF assms(1), unfolded config_ok_def]
  have c1: "age_size 1 \<le> ?c" using assms(4) by (simp add: MaxCiphertextBytes_exact)
  then have c0: "age_size 0 \<le> ?c" using age_size_step [of 0] by simp
  obtain p where p: "MaxPlaintextBytes ?c = Some p" "0 \<le> p" "age_size p \<le> ?c" "?c < age_size (p + 1)"
    using MaxPlaintextBytes_returns [OF c0 assms(2)] by blast
  have p1: "1 \<le> p" using p c1 by (cases "p = 0") auto
  have fits: "MaxCiphertextBytes n \<le> ?c" if "0 \<le> n" "n \<le> p" for n
    using that p age_size_mono [of n p] age_size_greater [of n] assms(2) by (subst MaxCiphertextBytes_exact) linarith+
  have obj: "MaxCiphertextBytes n \<le> MaxCiphertextBytes ?m" if "0 \<le> n" "n \<le> ?m" for n
    using that age_size_mono [of n ?m] assms(3) by (simp add: MaxCiphertextBytes_exact)
  have m: "0 < MaxCiphertextBytes ?m" using obj [of 0] ok by (simp add: MaxCiphertextBytes_exact age_size_def)
  have st: "\<exists>st. NewStore engn (cf_NATSJobSubject cfg) True (secret_options cfg) = Inr st \<and> payloadInlineMaxBytes st = ?c \<and>
      maxObjectBytes st = MaxCiphertextBytes ?m \<and> hasObjects st = s3_Enabled (cf_S3 cfg)"
    using ok m c0 by (auto simp: NewStore_def secret_options_def age_size_def)
  then obtain st where st: "NewStore engn (cf_NATSJobSubject cfg) True (secret_options cfg) = Inr st" "payloadInlineMaxBytes st = ?c"
    "maxObjectBytes st = MaxCiphertextBytes ?m" "hasObjects st = s3_Enabled (cf_S3 cfg)" by blast
  have rst: "NewRequestStore True (request_options parse cfg) = Inr (request_options parse cfg)"
    using ok m c0 assms(5) by (simp add: NewRequestStore_def request_options_def age_size_def AgeMagic_def ageMagic_def quot_nonneg Second_def)
  define mf where "mf = (if \<not> s3_Enabled (cf_S3 cfg) \<and> ?m > p then p else ?m)"
  have mf: "EffectiveMaxFileBytes cfg = Some mf" "0 < mf" "EffectivePayloadInlineMaxBytes cfg = Some p"
    using p(1) p1 ok by (simp_all add: EffectiveMaxFileBytes_def EffectivePayloadInlineMaxBytes_def mf_def)
  obtain sv ls where sv: "NewServer st (router_options cfg p mf (request_options parse cfg)) = (sv, ls)" by (metis surj_pair)
  have f: "sv_store sv = st" "sv_advertisedInlineMaxBytes sv = p" "sv_maxFileBytes sv = mf" "sv_payloadInlineMaxBytes sv = ?c"
    using sv mf(2) p1 c0 by (auto simp: NewServer_def router_options_def Let_def age_size_def split: if_splits)
  have lim: "createSecretBodyLimit sv = (?c + 2) div 3 * 4 + createBodyOverheadLimit"
    using body_limit [of sv] f c0 assms(2) by (simp add: age_size_def)
  have "start_api engn parse cfg = Some (Inr (sv, ls))" by (simp add: start_api_def st rst mf sv)
  moreover have "(MaxCiphertextBytes n + 2) div 3 * 4 + createBodyOverheadLimit \<le> createSecretBodyLimit sv"
    if "0 \<le> n" "n \<le> p" for n
    unfolding lim using zdiv_mono1 [of "MaxCiphertextBytes n + 2" "?c + 2" 3] fits [OF that] by simp
  moreover have "MaxCiphertextBytes n \<le> (if hasObjects st then maxObjectBytes st else payloadInlineMaxBytes st)" if "0 \<le> n" "n \<le> mf" for n
    using that obj [of n] fits [of n] st by (auto simp: mf_def split: if_splits)
  ultimately show ?thesis using fits f st by auto
qed

definition example_environment :: "string \<Rightarrow> string" where
  "example_environment name = (if name = ''FLICK_ENV'' then ''production'' else [])"

definition example_config :: config where
  "example_config = (base_config example_environment)
     \<lparr>cf_S3 := (cf_S3 (base_config example_environment))\<lparr>s3_PathStyle := True\<rparr>\<rparr>"

lemma example_Load: "Load example_environment = Inr example_config"
  by (simp add: Load_def and_then_def require_def envBool_def envPositive_def example_environment_def trimSpace_visible
      validate_config_def example_config_def base_config_def getenv_def config_defaults Let_def
      MaxCiphertextBytes_exact age_size_def)

theorem advertised_limits_hold_witness:
  "\<exists>sv ls. start_api \<lparr>julianday = (\<lambda>t. t), datetime = (\<lambda>_. [])\<rparr> (\<lambda>_. None) example_config = Some (Inr (sv, ls)) \<and>
     (sv_advertisedInlineMaxBytes sv < 1000 \<or> MaxCiphertextBytes 1000 \<le> payloadInlineMaxBytes (sv_store sv))"
proof -
  have "cf_PayloadInlineMaxBytes example_config = 1048576" "cf_MaxFileBytes example_config = 268435456"
    "cf_MaxTTLSeconds example_config = 604800"
    by (simp_all add: example_config_def base_config_def config_defaults)
  then obtain sv ls where sv: "start_api \<lparr>julianday = (\<lambda>t. t), datetime = (\<lambda>_. [])\<rparr> (\<lambda>_. None) example_config = Some (Inr (sv, ls))"
    and lim: "\<forall>n. 0 \<le> n \<and> n \<le> sv_advertisedInlineMaxBytes sv \<longrightarrow> MaxCiphertextBytes n \<le> payloadInlineMaxBytes (sv_store sv) \<and>
       (MaxCiphertextBytes n + 2) div 3 * 4 + createBodyOverheadLimit \<le> createSecretBodyLimit sv"
    using advertised_limits_hold [OF example_Load, of "\<lparr>julianday = (\<lambda>t. t), datetime = (\<lambda>_. [])\<rparr>" "\<lambda>_. None"]
    by (auto simp: MaxCiphertextBytes_exact age_size_def Second_def)
  have "sv_advertisedInlineMaxBytes sv < 1000 \<or> MaxCiphertextBytes 1000 \<le> payloadInlineMaxBytes (sv_store sv)"
    using spec [OF lim, of 1000] by linarith
  with sv show ?thesis by blast
qed

subsection \<open>Where the promise fails\<close>

text \<open>The smallest inline limit the configuration accepts holds no plaintext. The router takes the zero for an
  option that was not set and advertises its own defaults: more than the store accepts.\<close>

lemma smallest_limit_overpromises:
  assumes "cf_PayloadInlineMaxBytes cfg = MaxCiphertextBytes 0" "\<not> s3_Enabled (cf_S3 cfg)" "0 < cf_MaxFileBytes cfg"
    and "start_api engn parse cfg = Some (Inr (sv, ls))"
  shows "sv_advertisedInlineMaxBytes sv = MaxCiphertextBytes 0 \<and> sv_maxFileBytes sv = 268435456 \<and>
    payloadInlineMaxBytes (sv_store sv) < MaxCiphertextBytes (sv_advertisedInlineMaxBytes sv)"
proof -
  obtain p where p: "MaxPlaintextBytes (MaxCiphertextBytes 0) = Some p" "0 \<le> p" "age_size p \<le> MaxCiphertextBytes 0"
    using MaxPlaintextBytes_returns [of "MaxCiphertextBytes 0"] by (auto simp: MaxCiphertextBytes_exact age_size_def)
  have "p = 0" using p(2,3) age_size_greater [of p] by (simp add: MaxCiphertextBytes_exact age_size_def [of 0])
  then show ?thesis
    using assms p(1)
    by (auto simp: start_api_def EffectivePayloadInlineMaxBytes_def EffectiveMaxFileBytes_def NewStore_def secret_options_def
        NewServer_def router_options_def Let_def MaxCiphertextBytes_exact age_size_def split: sum.splits if_splits)
qed

end
