(* ===== verification/Pipe_Relay.thy ===== *)
theory Pipe_Relay
  imports Http
begin

text \<open>
  The live pipe relay's coordinator (src/internal/piperelay/coordinator.go). Sessions are objects shared
  by the coordinator's map and by the requests that hold a pointer to them, so that the state has a heap
  of sessions (a session's address is its index) beside the map from code hashes to addresses. Each
  function below is one critical section of the source, or one alternative of a \<open>select\<close>; the requests
  that run them are the threads of Pipe\_Transfer. A closed channel is a \<open>True\<close>; a \<open>sync.Once\<close> is whether
  it has run. \<open>io.Pipe\<close> keeps the first error given to each of its ends; \<open>passed\<close> records the bytes that have gone
  through it.
\<close>

datatype pipe_error =
    ErrCapacityExceeded | PipeNotFound | ErrSessionClosed | ErrSessionBurned | ErrAlreadyConnected
  | ErrInvalidCode | PipeExpired | PipeCancelled | PipeEOF | ErrClosedPipe | PipeFailure string

definition defaultMaxConcurrent :: int where "defaultMaxConcurrent = 100"
definition defaultTTL :: duration where "defaultTTL = 3 * Minute"
definition defaultCleanInterval :: duration where "defaultCleanInterval = 30 * Second"
definition defaultMaxTransferDuration :: duration where "defaultMaxTransferDuration = 10 * Minute"
definition saltLengthBytes :: nat where "saltLengthBytes = 16"
definition pipeChunkBufferBytes :: nat where "pipeChunkBufferBytes = 64 * 1024"

record session_metadata =
  Kind :: string
  EncryptedFilename :: string

record session =
  codeHash :: bytes
  salt :: bytes
  createdAt :: time
  expiresAt :: time
  failedAttempts :: int
  burned :: bool
  kind :: string
  encryptedFilename :: string
  receiverReady :: bool
  senderReady :: bool
  session_done :: bool
  readerErr :: "pipe_error option"
  writerErr :: "pipe_error option"
  receiverOnce :: bool
  senderOnce :: bool
  closeOnce :: bool
  passed :: bytes

record coordinator =
  sessions :: "(bytes \<times> nat) list"
  heap :: "session list"
  maxConcurrent :: int
  ttl :: duration
  cleanInterval :: duration
  maxTransferDuration :: duration
  stopClean :: bool

definition NewCoordinator :: "int \<Rightarrow> duration \<Rightarrow> duration \<Rightarrow> duration \<Rightarrow> coordinator" where
  "NewCoordinator optMax optTTL optClean optTransfer =
     \<lparr>sessions = [], heap = [],
      maxConcurrent = (if optMax \<le> 0 then defaultMaxConcurrent else optMax),
      ttl = (if optTTL \<le> 0 then defaultTTL else optTTL),
      cleanInterval = (if optClean \<le> 0 then defaultCleanInterval else optClean),
      maxTransferDuration = (if optTransfer \<le> 0 then defaultMaxTransferDuration else optTransfer),
      stopClean = False\<rparr>"

subsection \<open>Codes\<close>

definition NormalizeCode :: "string \<Rightarrow> pipe_error + string" where
  "NormalizeCode raw =
     (let normalized = dropByte CHR '' '' (dropByte CHR ''-'' (trimSpace raw)) in
      if length normalized \<noteq> 6 then Inl ErrInvalidCode
      else if list_all (\<lambda>c. 48 \<le> byte c \<and> byte c \<le> 57) normalized then Inr normalized
      else Inl ErrInvalidCode)"

text \<open>\<open>rand.Int\<close> draws a number below 900000, or fails.\<close>

definition GenerateCode :: "nat option \<Rightarrow> pipe_error + string" where
  "GenerateCode draw = (case draw of
     None \<Rightarrow> Inl (PipeFailure ''generate random code'')
   | Some n \<Rightarrow> Inr (append_int (n + 100000) 6))"

text \<open>The retry loop of \<open>Init\<close>: the draws of the attempts that are left. An empty code means that every
  attempt collided.\<close>

fun draw_code :: "nat option list \<Rightarrow> coordinator \<Rightarrow> pipe_error + string" where
  "draw_code [] c = Inr []"
| "draw_code (d # ds) c =
     (case GenerateCode d of
        Inl err \<Rightarrow> Inl err
      | Inr code \<Rightarrow> if map_of (sessions c) (sha256 code) = None then Inr code else draw_code ds c)"

definition new_session :: "bytes \<Rightarrow> bytes \<Rightarrow> time \<Rightarrow> duration \<Rightarrow> session" where
  "new_session hash slt now lifetime =
     \<lparr>codeHash = hash, salt = slt, createdAt = now, expiresAt = now + lifetime, failedAttempts = 0, burned = False,
      kind = [], encryptedFilename = [], receiverReady = False, senderReady = False, session_done = False,
      readerErr = None, writerErr = None, receiverOnce = False, senderOnce = False, closeOnce = False, passed = []\<rparr>"

text \<open>\<open>Init\<close>: ten draws at most, then the salt (\<open>None\<close> when the random source fails). The whole call holds
  the coordinator's lock. \<open>int(ttl.Seconds())\<close> goes through a float64, which is exact below 2^23 seconds.\<close>

definition Init ::
  "time \<Rightarrow> (nat \<Rightarrow> nat option) \<Rightarrow> bytes option \<Rightarrow> coordinator \<Rightarrow> (pipe_error + string \<times> bytes \<times> int) \<times> coordinator" where
  "Init now draws rnd c =
     (if int (length (sessions c)) \<ge> maxConcurrent c then (Inl ErrCapacityExceeded, c)
      else (case draw_code (map draws [0 ..< 10]) c of
        Inl err \<Rightarrow> (Inl err, c)
      | Inr code \<Rightarrow>
          if code = [] then (Inl (PipeFailure ''piperelay: failed to generate unique code''), c)
          else (case rnd of
            None \<Rightarrow> (Inl (PipeFailure ''generate salt''), c)
          | Some slt \<Rightarrow>
              (Inr (code, slt, quot (ttl c) Second),
               c\<lparr>sessions := (sha256 code, length (heap c)) # sessions c,
                 heap := heap c @ [new_session (sha256 code) slt now (ttl c)]\<rparr>))))"

subsection \<open>Ending a session\<close>

definition upd_session :: "nat \<Rightarrow> (session \<Rightarrow> session) \<Rightarrow> coordinator \<Rightarrow> coordinator" where
  "upd_session a f c = c\<lparr>heap := (heap c)[a := f (heap c ! a)]\<rparr>"

text \<open>\<open>CloseWithError\<close> of the two ends of the pipe: the first error of an end stays.\<close>

definition closeReader :: "pipe_error \<Rightarrow> session \<Rightarrow> session" where
  "closeReader err s = s\<lparr>readerErr := (case readerErr s of None \<Rightarrow> Some err | Some x \<Rightarrow> Some x)\<rparr>"

definition closeWriter :: "pipe_error \<Rightarrow> session \<Rightarrow> session" where
  "closeWriter err s = s\<lparr>writerErr := (case writerErr s of None \<Rightarrow> Some err | Some x \<Rightarrow> Some x)\<rparr>"

definition pipe_closed :: "session \<Rightarrow> bool" where
  "pipe_closed s = (readerErr s \<noteq> None \<or> writerErr s \<noteq> None)"

definition readCloseError :: "session \<Rightarrow> pipe_error" where
  "readCloseError s = (case (readerErr s, writerErr s) of (None, Some err) \<Rightarrow> err | _ \<Rightarrow> ErrClosedPipe)"

definition writeCloseError :: "session \<Rightarrow> pipe_error" where
  "writeCloseError s = (case (writerErr s, readerErr s) of (None, Some err) \<Rightarrow> err | _ \<Rightarrow> ErrClosedPipe)"

definition close_session :: "pipe_error \<Rightarrow> session \<Rightarrow> session" where
  "close_session cause s =
     (if closeOnce s then s
      else closeReader cause (closeWriter cause (s\<lparr>closeOnce := True, session_done := True\<rparr>)))"

definition removeLocked :: "bytes \<Rightarrow> pipe_error \<Rightarrow> coordinator \<Rightarrow> coordinator" where
  "removeLocked hash cause c =
     (case map_of (sessions c) hash of
        None \<Rightarrow> c
      | Some a \<Rightarrow> upd_session a (close_session cause) (c\<lparr>sessions := filter (\<lambda>p. fst p \<noteq> hash) (sessions c)\<rparr>))"

definition burnSession :: "bytes \<Rightarrow> coordinator \<Rightarrow> coordinator" where
  "burnSession hash c = removeLocked hash ErrSessionClosed c"

text \<open>The range over the map removes entries as it goes: each of the keys present at the start is visited.\<close>

definition cleanExpired :: "time \<Rightarrow> coordinator \<Rightarrow> coordinator" where
  "cleanExpired now c =
     foldl (\<lambda>c p. if expiresAt (heap c ! snd p) < now then removeLocked (fst p) PipeExpired c else c) c (sessions c)"

definition CloseCoordinator :: "coordinator \<Rightarrow> coordinator" where
  "CloseCoordinator c =
     (if stopClean c then c
      else foldl (\<lambda>c p. removeLocked (fst p) ErrSessionClosed c) (c\<lparr>stopClean := True\<rparr>) (sessions c))"

definition ActiveSessions :: "coordinator \<Rightarrow> nat" where
  "ActiveSessions c = length (sessions c)"

definition find_session :: "string \<Rightarrow> coordinator \<Rightarrow> pipe_error + bytes \<times> nat" where
  "find_session raw c =
     (case NormalizeCode raw of
        Inl err \<Rightarrow> Inl err
      | Inr code \<Rightarrow> (case map_of (sessions c) (sha256 code) of None \<Rightarrow> Inl PipeNotFound | Some a \<Rightarrow> Inr (sha256 code, a)))"

definition RecordFailedAttempt :: "string \<Rightarrow> coordinator \<Rightarrow> (bool \<times> pipe_error option) \<times> coordinator" where
  "RecordFailedAttempt raw c =
     (case find_session raw c of
        Inl err \<Rightarrow> ((False, Some err), c)
      | Inr (hash, a) \<Rightarrow>
          let c1 = upd_session a (\<lambda>s. s\<lparr>failedAttempts := failedAttempts s + 1\<rparr>) c in
          if 3 \<le> failedAttempts (heap c1 ! a)
          then ((True, Some ErrSessionBurned), removeLocked hash ErrSessionBurned (upd_session a (\<lambda>s. s\<lparr>burned := True\<rparr>) c1))
          else ((False, None), c1))"

subsection \<open>Connecting and waiting\<close>

text \<open>The locked prefixes of \<open>Receive\<close> and \<open>Send\<close>.\<close>

definition connect_receiver :: "string \<Rightarrow> coordinator \<Rightarrow> (pipe_error + bytes \<times> nat) \<times> coordinator" where
  "connect_receiver raw c =
     (case find_session raw c of
        Inl err \<Rightarrow> (Inl err, c)
      | Inr (hash, a) \<Rightarrow>
          if burned (heap c ! a) then (Inl ErrSessionBurned, c)
          else if receiverOnce (heap c ! a) then (Inl ErrAlreadyConnected, c)
          else (Inr (hash, a), upd_session a (\<lambda>s. s\<lparr>receiverOnce := True, receiverReady := True\<rparr>) c))"

definition connect_sender :: "string \<Rightarrow> session_metadata \<Rightarrow> coordinator \<Rightarrow> (pipe_error + bytes \<times> nat) \<times> coordinator" where
  "connect_sender raw meta c =
     (case find_session raw c of
        Inl err \<Rightarrow> (Inl err, c)
      | Inr (hash, a) \<Rightarrow>
          if burned (heap c ! a) then (Inl ErrSessionBurned, c)
          else
            let c1 = upd_session a (\<lambda>s. s\<lparr>kind := Kind meta, encryptedFilename := EncryptedFilename meta\<rparr>) c in
            if senderOnce (heap c1 ! a) then (Inl ErrAlreadyConnected, c1)
            else (Inr (hash, a), upd_session a (\<lambda>s. s\<lparr>senderOnce := True, senderReady := True\<rparr>) c1))"

text \<open>The alternatives of the \<open>select\<close> statements. When several are ready, any of them may be taken.\<close>

datatype choice = PeerReady | Closed | Cancelled | TimedOut

definition wait_ready :: "choice \<Rightarrow> time \<Rightarrow> bool \<Rightarrow> session \<Rightarrow> bool" where
  "wait_ready ch now peer s = (case ch of
     PeerReady \<Rightarrow> peer
   | Closed \<Rightarrow> session_done s
   | Cancelled \<Rightarrow> True
   | TimedOut \<Rightarrow> expiresAt s \<le> now)"

fun choice_error :: "choice \<Rightarrow> pipe_error option" where
  "choice_error PeerReady = None"
| "choice_error Closed = Some ErrSessionClosed"
| "choice_error Cancelled = Some PipeCancelled"
| "choice_error TimedOut = Some PipeExpired"

text \<open>What \<open>Receive\<close> copies out of the session once the sender is there.\<close>

definition received_metadata :: "session \<Rightarrow> bytes \<times> session_metadata" where
  "received_metadata s = (salt s, \<lparr>Kind = kind s, EncryptedFilename = encryptedFilename s\<rparr>)"

end
