(* ===== verification/Pipe_Transfer.thy ===== *)
theory Pipe_Transfer
  imports Pipe_Relay
begin

text \<open>
  The requests of the live pipe relay (src/internal/httpapi/piperelay.go over the coordinator): each HTTP
  request is a thread, and an event is one atomic step of one of them, of the cleaner or of shutdown, in any
  interleaving. A blocked \<open>select\<close>, the rendezvous of \<open>io.Pipe\<close>, the deferred calls and the second critical
  section of a handler are steps of their own. The body of a send is the list of reads \<open>io.CopyBuffer\<close> gets
  from it and how it ends. Deadlines of the connection are events like any other cancellation.
\<close>

datatype pipe_json =
    PipeInit (init_code: string) (init_salt: string) (init_expires: int)
  | PipeStatus string
  | PipeSent string int

subsection \<open>Answers\<close>

definition pipe_disabled :: "pipe_json response" where
  "pipe_disabled = writeError 503 ''service_unavailable'' ''live pipe relay is disabled''"

definition missing_code :: "pipe_json response" where
  "missing_code = writeError 400 ''bad_request'' ''missing X-Flick-Pipe-Code header''"

definition initPipe ::
  "bool \<Rightarrow> time \<Rightarrow> (nat \<Rightarrow> nat option) \<Rightarrow> bytes option \<Rightarrow> coordinator \<Rightarrow> pipe_json response \<times> coordinator" where
  "initPipe enabled now draws rnd c =
     (if \<not> enabled then (pipe_disabled, c)
      else (case Init now draws rnd c of
        (Inl ErrCapacityExceeded, c') \<Rightarrow>
          (after_headers [(''Retry-After'', ''30'')]
             (writeError 429 ''capacity_exceeded'' ''server is at maximum concurrent pipe relay capacity''), c')
      | (Inl _, c') \<Rightarrow> (writeError 500 ''internal_error'' ''failed to initialize pipe rendezvous'', c')
      | (Inr (code, slt, expiresIn), c') \<Rightarrow> (writeJSON 201 (PipeInit code (std_encode slt) expiresIn), c')))"

text \<open>Errors of the three waiting handlers. \<open>gone\<close>: the request's context has ended, and nothing is written
  for an error that has no answer of its own.\<close>

fun pipe_error_text :: "pipe_error \<Rightarrow> string" where
  "pipe_error_text (PipeFailure t) = t"
| "pipe_error_text PipeEOF = ''EOF''"
| "pipe_error_text ErrClosedPipe = ''io: read/write on closed pipe''"
| "pipe_error_text PipeCancelled = ''context canceled''"
| "pipe_error_text ErrCapacityExceeded = ''piperelay: maximum concurrent pipe sessions reached''"
| "pipe_error_text PipeNotFound = ''piperelay: rendezvous session not found or expired''"
| "pipe_error_text ErrSessionClosed = ''piperelay: rendezvous session closed''"
| "pipe_error_text ErrSessionBurned = ''piperelay: rendezvous session burned due to excessive failed attempts''"
| "pipe_error_text ErrAlreadyConnected = ''piperelay: party already connected to session''"
| "pipe_error_text ErrInvalidCode = ''piperelay: code must be a 6-digit numeric string''"
| "pipe_error_text PipeExpired = ''piperelay: rendezvous session expired''"

definition unanswered :: "bool \<Rightarrow> 'a response \<Rightarrow> 'a response option" where
  "unanswered gone r = (if gone then None else Some r)"

fun waitPipe_error :: "bool \<Rightarrow> pipe_error \<Rightarrow> pipe_json response option" where
  "waitPipe_error gone ErrInvalidCode = Some (writeError 400 ''bad_request'' ''invalid 6-digit pipe code'')"
| "waitPipe_error gone PipeNotFound = Some (writeError 404 ''not_found'' ''pipe rendezvous not found or expired'')"
| "waitPipe_error gone PipeExpired = Some (writeError 410 ''expired'' ''pipe rendezvous expired'')"
| "waitPipe_error gone ErrSessionBurned = Some (writeError 410 ''burned'' ''pipe session burned'')"
| "waitPipe_error gone ErrSessionClosed = Some (writeError 410 ''closed'' ''pipe session closed'')"
| "waitPipe_error gone err = unanswered gone (writeError 500 ''internal_error'' (pipe_error_text err))"

fun receivePipe_error :: "bool \<Rightarrow> bool \<Rightarrow> pipe_error \<Rightarrow> pipe_json response option" where
  "receivePipe_error wasBurned gone err =
     (if wasBurned \<or> err = ErrSessionBurned
      then Some (writeError 410 ''burned'' ''pipe rendezvous burned due to excessive failed attempts'')
      else (case err of
        ErrInvalidCode \<Rightarrow> Some (writeError 400 ''bad_request'' ''invalid 6-digit pipe code'')
      | PipeNotFound \<Rightarrow> Some (writeError 404 ''not_found'' ''pipe rendezvous not found or expired'')
      | PipeExpired \<Rightarrow> Some (writeError 410 ''expired'' ''pipe rendezvous expired'')
      | ErrAlreadyConnected \<Rightarrow> Some (writeError 409 ''already_connected'' ''receiver is already connected to this pipe session'')
      | ErrSessionClosed \<Rightarrow> Some (writeError 410 ''closed'' ''pipe session closed'')
      | _ \<Rightarrow> unanswered gone (writeError 500 ''internal_error'' (pipe_error_text err))))"

fun sendPipe_error :: "bool \<Rightarrow> pipe_error \<Rightarrow> pipe_json response option" where
  "sendPipe_error gone ErrInvalidCode = Some (writeError 400 ''bad_request'' ''invalid 6-digit pipe code'')"
| "sendPipe_error gone PipeNotFound = Some (writeError 404 ''not_found'' ''pipe rendezvous not found or expired'')"
| "sendPipe_error gone PipeExpired = Some (writeError 410 ''expired'' ''pipe rendezvous expired'')"
| "sendPipe_error gone ErrAlreadyConnected = Some (writeError 409 ''already_connected'' ''sender is already active on this pipe session'')"
| "sendPipe_error gone ErrSessionBurned = Some (writeError 410 ''burned'' ''pipe session burned'')"
| "sendPipe_error gone ErrSessionClosed = Some (writeError 410 ''closed'' ''pipe session closed'')"
| "sendPipe_error gone ErrClosedPipe = Some (writeError 502 ''receiver_disconnected'' ''receiver disconnected during live stream'')"
| "sendPipe_error gone err = unanswered gone (writeError 502 ''transfer_failed'' (pipe_error_text err))"

definition sendPipe_ok :: "bytes \<Rightarrow> pipe_json response" where
  "sendPipe_ok sent = writeJSON 200 (PipeSent ''completed'' (int (length sent)))"

definition receivePipe_ok :: "bytes \<times> session_metadata \<Rightarrow> bytes \<Rightarrow> pipe_json response" where
  "receivePipe_ok info got =
     \<lparr>rs_status = 200,
      rs_headers = [(''Content-Type'', ''application/octet-stream''), (''Cache-Control'', ''no-store''),
                    (''X-Flick-Pipe-Salt'', std_encode (fst info))] @
                   (if Kind (snd info) = [] then [] else [(''Flick-Kind'', Kind (snd info))]) @
                   (if EncryptedFilename (snd info) = [] then []
                    else [(''Flick-Encrypted-Filename'', EncryptedFilename (snd info))]),
      rs_body = RawBody got\<rparr>"

subsection \<open>Threads\<close>

datatype role = WaitRole | RecvRole | SendRole
datatype body_end = BodyEOF | BodyError string

datatype pc =
    Waiting
  | RecvWaiting
  | RecvAbandoning pipe_error
  | RecvFailed pipe_error
  | Streaming "bytes \<times> session_metadata"
  | RecvClosing "bytes \<times> session_metadata"
  | RecvBurning "bytes \<times> session_metadata"
  | SendWaiting "bytes list" body_end
  | Copying bytes "bytes list" body_end
  | SendBurning pipe_error
  | Answered "pipe_json response option"

text \<open>A thread holds its session once it has one; \<open>th_moved\<close> are the bytes it has put into or taken out of
  the pipe, \<open>th_body\<close> what a send's body holds.\<close>

record thread =
  th_role :: role
  th_code :: string
  th_session :: "(bytes \<times> nat) option"
  th_body :: bytes
  th_moved :: bytes
  th_pc :: pc

record relay =
  relay_enabled :: bool
  coord :: coordinator
  threads :: "thread list"

datatype pipe_event =
    EvInit time "nat \<Rightarrow> nat option" "bytes option"
  | EvWait string
  | EvReceive string
  | EvSend string session_metadata "bytes list" body_end
  | EvSelect nat choice time
  | EvRead nat
  | EvTransfer nat nat nat
  | EvWriteFail nat
  | EvStreamEnd nat
  | EvClientGone nat
  | EvClose nat
  | EvBurn nat bool
  | EvRecord nat bool
  | EvClean time
  | EvStop

definition spawn :: "thread \<Rightarrow> relay \<Rightarrow> relay" where
  "spawn t R = R\<lparr>threads := threads R @ [t]\<rparr>"

definition goto :: "nat \<Rightarrow> pc \<Rightarrow> relay \<Rightarrow> relay" where
  "goto i p R = R\<lparr>threads := (threads R)[i := (threads R ! i)\<lparr>th_pc := p\<rparr>]\<rparr>"

definition new_thread :: "role \<Rightarrow> string \<Rightarrow> (bytes \<times> nat) option \<Rightarrow> bytes \<Rightarrow> pc \<Rightarrow> thread" where
  "new_thread r code ses body p =
     \<lparr>th_role = r, th_code = code, th_session = ses, th_body = body, th_moved = [], th_pc = p\<rparr>"

text \<open>The handlers up to their first blocking point.\<close>

definition waitPipe :: "string \<Rightarrow> relay \<Rightarrow> relay" where
  "waitPipe code R =
     (if \<not> relay_enabled R then spawn (new_thread WaitRole code None [] (Answered (Some pipe_disabled))) R
      else if code = [] then spawn (new_thread WaitRole code None [] (Answered (Some missing_code))) R
      else (case find_session code (coord R) of
        Inl err \<Rightarrow> spawn (new_thread WaitRole code None [] (Answered (waitPipe_error False err))) R
      | Inr ses \<Rightarrow> spawn (new_thread WaitRole code (Some ses) [] Waiting) R))"

definition receivePipe :: "string \<Rightarrow> relay \<Rightarrow> relay" where
  "receivePipe code R =
     (if \<not> relay_enabled R then spawn (new_thread RecvRole code None [] (Answered (Some pipe_disabled))) R
      else if code = [] then spawn (new_thread RecvRole code None [] (Answered (Some missing_code))) R
      else (case connect_receiver code (coord R) of
        (Inl err, c) \<Rightarrow> spawn (new_thread RecvRole code None [] (RecvFailed err)) (R\<lparr>coord := c\<rparr>)
      | (Inr ses, c) \<Rightarrow> spawn (new_thread RecvRole code (Some ses) [] RecvWaiting) (R\<lparr>coord := c\<rparr>)))"

definition sendPipe :: "string \<Rightarrow> session_metadata \<Rightarrow> bytes list \<Rightarrow> body_end \<Rightarrow> relay \<Rightarrow> relay" where
  "sendPipe code meta reads ending R =
     (if \<not> relay_enabled R then spawn (new_thread SendRole code None (concat reads) (Answered (Some pipe_disabled))) R
      else if code = [] then spawn (new_thread SendRole code None (concat reads) (Answered (Some missing_code))) R
      else (case connect_sender code meta (coord R) of
        (Inl err, c) \<Rightarrow>
          spawn (new_thread SendRole code None (concat reads) (Answered (sendPipe_error False err))) (R\<lparr>coord := c\<rparr>)
      | (Inr ses, c) \<Rightarrow> spawn (new_thread SendRole code (Some ses) (concat reads) (SendWaiting reads ending)) (R\<lparr>coord := c\<rparr>)))"

abbreviation thread_addr :: "thread \<Rightarrow> nat" where
  "thread_addr t \<equiv> snd (the (th_session t))"

abbreviation session_of :: "relay \<Rightarrow> nat \<Rightarrow> session" where
  "session_of R i \<equiv> heap (coord R) ! thread_addr (threads R ! i)"

definition on_session :: "nat \<Rightarrow> (session \<Rightarrow> session) \<Rightarrow> relay \<Rightarrow> relay" where
  "on_session i f R = R\<lparr>coord := upd_session (thread_addr (threads R ! i)) f (coord R)\<rparr>"

text \<open>One alternative of a handler's \<open>select\<close>.\<close>

definition select_step :: "nat \<Rightarrow> choice \<Rightarrow> time \<Rightarrow> relay \<Rightarrow> relay" where
  "select_step i ch now R =
     (let s = session_of R i in
      case th_pc (threads R ! i) of
        Waiting \<Rightarrow>
          if \<not> wait_ready ch now (receiverReady s) s then R
          else (case choice_error ch of
            None \<Rightarrow> goto i (Answered (Some (writeJSON 200 (PipeStatus ''ready'')))) R
          | Some err \<Rightarrow> goto i (Answered (waitPipe_error (ch = Cancelled) err)) R)
      | RecvWaiting \<Rightarrow>
          if \<not> wait_ready ch now (senderReady s) s then R
          else (case ch of
            PeerReady \<Rightarrow> goto i (Streaming (received_metadata s)) R
          | Closed \<Rightarrow> goto i (RecvFailed ErrSessionClosed) R
          | Cancelled \<Rightarrow> goto i (RecvAbandoning PipeCancelled) (on_session i (close_session PipeEOF) R)
          | TimedOut \<Rightarrow> goto i (RecvAbandoning PipeExpired) (on_session i (close_session PipeEOF) R))
      | SendWaiting reads ending \<Rightarrow>
          if \<not> wait_ready ch now (receiverReady s) s then R
          else (case ch of
            PeerReady \<Rightarrow> goto i (Copying [] reads ending) R
          | Closed \<Rightarrow> goto i (Answered (sendPipe_error False ErrSessionClosed)) R
          | Cancelled \<Rightarrow> goto i (SendBurning PipeCancelled) (on_session i (closeWriter PipeCancelled) R)
          | TimedOut \<Rightarrow> goto i (SendBurning PipeExpired) (on_session i (closeWriter PipeExpired) R))
      | _ \<Rightarrow> R)"

text \<open>The next read of the body in \<open>io.CopyBuffer\<close>.\<close>

definition read_step :: "nat \<Rightarrow> relay \<Rightarrow> relay" where
  "read_step i R =
     (case th_pc (threads R ! i) of
        Copying [] (b # bs) ending \<Rightarrow> goto i (Copying b bs ending) R
      | Copying [] [] BodyEOF \<Rightarrow>
          goto i (Answered (Some (sendPipe_ok (th_moved (threads R ! i))))) (on_session i (closeWriter PipeEOF) R)
      | Copying [] [] (BodyError t) \<Rightarrow>
          goto i (SendBurning (PipeFailure t)) (on_session i (closeWriter (PipeFailure t)) R)
      | _ \<Rightarrow> R)"

text \<open>A rendezvous of the writer with a reader whose buffer has room for \<open>k\<close> bytes. A \<open>select\<close> may still take
  it in the moment the pipe is closed.\<close>

definition transfer_step :: "nat \<Rightarrow> nat \<Rightarrow> nat \<Rightarrow> relay \<Rightarrow> relay" where
  "transfer_step i j k R =
     (case (th_pc (threads R ! i), th_pc (threads R ! j)) of
        (Copying pending reads ending, Streaming info) \<Rightarrow>
          if pending = [] \<or> k = 0 \<or> thread_addr (threads R ! i) \<noteq> thread_addr (threads R ! j) then R
          else
            let b = take k pending; ti = threads R ! i; tj = threads R ! j in
            R\<lparr>coord := upd_session (thread_addr ti) (\<lambda>s. s\<lparr>passed := passed s @ b\<rparr>) (coord R),
              threads := (threads R)[i := ti\<lparr>th_moved := th_moved ti @ b, th_pc := Copying (drop k pending) reads ending\<rparr>,
                                     j := tj\<lparr>th_moved := th_moved tj @ b\<rparr>]\<rparr>
      | _ \<Rightarrow> R)"

definition write_fail_step :: "nat \<Rightarrow> relay \<Rightarrow> relay" where
  "write_fail_step i R =
     (case th_pc (threads R ! i) of
        Copying (b # bs) reads ending \<Rightarrow>
          if \<not> pipe_closed (session_of R i) then R
          else (let err = writeCloseError (session_of R i) in goto i (SendBurning err) (on_session i (closeWriter err) R))
      | _ \<Rightarrow> R)"

text \<open>\<open>io.Copy\<close> to the response ends: the pipe is closed, or a write to the recipient fails. Then \<open>pr.Close\<close>.\<close>

definition stream_end_step :: "bool \<Rightarrow> nat \<Rightarrow> relay \<Rightarrow> relay" where
  "stream_end_step clientGone i R =
     (case th_pc (threads R ! i) of
        Streaming info \<Rightarrow>
          if \<not> clientGone \<and> \<not> pipe_closed (session_of R i) then R
          else goto i (RecvClosing info) (on_session i (closeReader ErrClosedPipe) R)
      | _ \<Rightarrow> R)"

definition close_step :: "nat \<Rightarrow> relay \<Rightarrow> relay" where
  "close_step i R =
     (case th_pc (threads R ! i) of
        RecvClosing info \<Rightarrow> goto i (RecvBurning info) (on_session i (close_session PipeEOF) R)
      | _ \<Rightarrow> R)"

definition burn_step :: "nat \<Rightarrow> bool \<Rightarrow> relay \<Rightarrow> relay" where
  "burn_step i gone R =
     (let t = threads R ! i; R' = R\<lparr>coord := burnSession (fst (the (th_session t))) (coord R)\<rparr> in
      case th_pc t of
        RecvBurning info \<Rightarrow> goto i (Answered (Some (receivePipe_ok info (th_moved t)))) R'
      | RecvAbandoning err \<Rightarrow> goto i (RecvFailed err) R'
      | SendBurning err \<Rightarrow> goto i (Answered (sendPipe_error (gone \<or> err = PipeCancelled) err)) R'
      | _ \<Rightarrow> R)"

definition record_step :: "nat \<Rightarrow> bool \<Rightarrow> relay \<Rightarrow> relay" where
  "record_step i gone R =
     (case th_pc (threads R ! i) of
        RecvFailed err \<Rightarrow>
          (case RecordFailedAttempt (th_code (threads R ! i)) (coord R) of ((wasBurned, _), c) \<Rightarrow>
             goto i (Answered (receivePipe_error wasBurned (gone \<or> err = PipeCancelled) err)) (R\<lparr>coord := c\<rparr>))
      | _ \<Rightarrow> R)"

text \<open>An event of a thread that is not at the point it names is no step.\<close>

definition at_thread :: "nat \<Rightarrow> relay \<Rightarrow> relay \<Rightarrow> relay" where
  "at_thread i R R' = (if i < length (threads R) then R' else R)"

fun relay_step :: "relay \<Rightarrow> pipe_event \<Rightarrow> relay \<times> pipe_json response option" where
  "relay_step R (EvInit now draws rnd) =
     (case initPipe (relay_enabled R) now draws rnd (coord R) of (r, c) \<Rightarrow> (R\<lparr>coord := c\<rparr>, Some r))"
| "relay_step R (EvWait code) = (waitPipe code R, None)"
| "relay_step R (EvReceive code) = (receivePipe code R, None)"
| "relay_step R (EvSend code meta reads ending) = (sendPipe code meta reads ending R, None)"
| "relay_step R (EvSelect i ch now) = (at_thread i R (select_step i ch now R), None)"
| "relay_step R (EvRead i) = (at_thread i R (read_step i R), None)"
| "relay_step R (EvTransfer i j k) = (at_thread i R (at_thread j R (transfer_step i j k R)), None)"
| "relay_step R (EvWriteFail i) = (at_thread i R (write_fail_step i R), None)"
| "relay_step R (EvStreamEnd i) = (at_thread i R (stream_end_step False i R), None)"
| "relay_step R (EvClientGone i) = (at_thread i R (stream_end_step True i R), None)"
| "relay_step R (EvClose i) = (at_thread i R (close_step i R), None)"
| "relay_step R (EvBurn i gone) = (at_thread i R (burn_step i gone R), None)"
| "relay_step R (EvRecord i gone) = (at_thread i R (record_step i gone R), None)"
| "relay_step R (EvClean now) = (R\<lparr>coord := cleanExpired now (coord R)\<rparr>, None)"
| "relay_step R EvStop = (R\<lparr>coord := CloseCoordinator (coord R)\<rparr>, None)"

end
