(* ===== verification/Pipe_Safety.thy ===== *)
theory Pipe_Safety
  imports Pipe_Transfer
begin

text \<open>
  What the pipe relay promises in every interleaving: the invariant of the coordinator and of its requests,
  one receiver and one sender per session, the bound on open sessions, and the delivery of a body byte by
  byte.
\<close>

subsection \<open>The invariant\<close>

definition session_ok :: "session \<Rightarrow> bool" where
  "session_ok s = ((\<not> senderOnce s \<or> \<not> receiverOnce s \<longrightarrow> passed s = []) \<and>
     receiverReady s = receiverOnce s \<and> senderReady s = senderOnce s \<and> session_done s = closeOnce s)"

definition live :: "bytes \<Rightarrow> session \<Rightarrow> bool" where
  "live h s = (codeHash s = h \<and> \<not> burned s \<and> 0 \<le> failedAttempts s \<and> failedAttempts s < 3)"

definition coord_ok :: "coordinator \<Rightarrow> bool" where
  "coord_ok c = (distinct (map fst (sessions c)) \<and> int (length (sessions c)) \<le> maxConcurrent c \<and>
     (\<forall>(h, a) \<in> set (sessions c). a < length (heap c) \<and> live h (heap c ! a)) \<and>
     (\<forall>s \<in> set (heap c). session_ok s))"

text \<open>A session is only ever added to, in the respects a thread relies on.\<close>

definition later :: "session \<Rightarrow> session \<Rightarrow> bool" where
  "later s s' = (passed s' = passed s \<and> (receiverOnce s \<longrightarrow> receiverOnce s') \<and> (senderOnce s \<longrightarrow> senderOnce s') \<and>
     codeHash s' = codeHash s)"

definition grows :: "coordinator \<Rightarrow> coordinator \<Rightarrow> bool" where
  "grows c c' = (length (heap c) \<le> length (heap c') \<and> (\<forall>a < length (heap c). later (heap c ! a) (heap c' ! a)))"

text \<open>What a request that holds a session knows: the bytes it moved are those that passed.\<close>

fun send_pc_ok :: "bytes \<Rightarrow> bytes \<Rightarrow> pc \<Rightarrow> bool" where
  "send_pc_ok moved body (SendWaiting reads ending) = (moved = [] \<and> body = concat reads)"
| "send_pc_ok moved body (Copying pending reads ending) = (body = moved @ pending @ concat reads)"
| "send_pc_ok moved body (SendBurning err) = True"
| "send_pc_ok moved body (Answered None) = True"
| "send_pc_ok moved body (Answered (Some r)) = (rs_status r = 200 \<longrightarrow> moved = body \<and> r = sendPipe_ok body)"
| "send_pc_ok moved body _ = False"

fun recv_pc_ok :: "bytes \<Rightarrow> pc \<Rightarrow> bool" where
  "recv_pc_ok moved RecvWaiting = True"
| "recv_pc_ok moved (RecvAbandoning err) = True"
| "recv_pc_ok moved (RecvFailed err) = True"
| "recv_pc_ok moved (Streaming info) = True"
| "recv_pc_ok moved (RecvClosing info) = True"
| "recv_pc_ok moved (RecvBurning info) = True"
| "recv_pc_ok moved (Answered None) = True"
| "recv_pc_ok moved (Answered (Some r)) = (rs_status r = 200 \<longrightarrow> rs_body r = RawBody moved)"
| "recv_pc_ok moved _ = False"

fun wait_pc_ok :: "pc \<Rightarrow> bool" where
  "wait_pc_ok Waiting = True"
| "wait_pc_ok (Answered r) = True"
| "wait_pc_ok _ = False"

definition holder_ok :: "session \<Rightarrow> thread \<Rightarrow> bool" where
  "holder_ok s t = (case th_role t of
     WaitRole \<Rightarrow> wait_pc_ok (th_pc t)
   | RecvRole \<Rightarrow> receiverOnce s \<and> th_moved t = passed s \<and> recv_pc_ok (th_moved t) (th_pc t)
   | SendRole \<Rightarrow> senderOnce s \<and> th_moved t = passed s \<and> send_pc_ok (th_moved t) (th_body t) (th_pc t) \<and>
       (\<exists>rest. th_body t = th_moved t @ rest))"

definition refused_ok :: "thread \<Rightarrow> bool" where
  "refused_ok t = (th_moved t = [] \<and> (case th_pc t of
     RecvFailed err \<Rightarrow> th_role t = RecvRole
   | Answered r \<Rightarrow> (\<forall>x. r = Some x \<longrightarrow> rs_status x \<noteq> 200)
   | _ \<Rightarrow> False))"

definition thread_ok :: "coordinator \<Rightarrow> thread \<Rightarrow> bool" where
  "thread_ok c t = (case th_session t of
     None \<Rightarrow> refused_ok t
   | Some (h, a) \<Rightarrow> a < length (heap c) \<and> codeHash (heap c ! a) = h \<and> holder_ok (heap c ! a) t)"

definition exclusive :: "thread list \<Rightarrow> bool" where
  "exclusive ts = (\<forall>i < length ts. \<forall>j < length ts. th_session (ts ! i) \<noteq> None \<and> th_session (ts ! j) \<noteq> None \<and>
     thread_addr (ts ! i) = thread_addr (ts ! j) \<and> th_role (ts ! i) = th_role (ts ! j) \<and> th_role (ts ! i) \<noteq> WaitRole \<longrightarrow> i = j)"

definition relay_ok :: "relay \<Rightarrow> bool" where
  "relay_ok R = (coord_ok (coord R) \<and> exclusive (threads R) \<and> (\<forall>t \<in> set (threads R). thread_ok (coord R) t))"

subsection \<open>The coordinator's operations keep it\<close>

lemma later_refl [simp]: "later s s"
  by (simp add: later_def)

lemma grows_refl [simp]: "grows c c"
  by (simp add: grows_def)

lemma grows_trans: "grows a b \<Longrightarrow> grows b c \<Longrightarrow> grows a c"
  by (auto simp: grows_def later_def)

lemma later_close [simp]: "later s (closeReader e s)" "later s (closeWriter e s)" "later s (close_session e s)"
  by (simp_all add: later_def closeReader_def closeWriter_def close_session_def)

lemma live_close [simp]: "live h (closeReader e s) = live h s" "live h (closeWriter e s) = live h s" "live h (close_session e s) = live h s"
  by (simp_all add: live_def closeReader_def closeWriter_def close_session_def)

lemma session_ok_close [simp]:
  "session_ok s \<Longrightarrow> session_ok (closeReader e s)" "session_ok s \<Longrightarrow> session_ok (closeWriter e s)"
  "session_ok s \<Longrightarrow> session_ok (close_session e s)"
  by (simp_all add: session_ok_def closeReader_def closeWriter_def close_session_def)

lemma upd_session_frame [simp]:
  "sessions (upd_session a f c) = sessions c" "maxConcurrent (upd_session a f c) = maxConcurrent c"
  "length (heap (upd_session a f c)) = length (heap c)" "ttl (upd_session a f c) = ttl c"
  by (simp_all add: upd_session_def)

lemma heap_upd_session:
  "heap (upd_session a f c) ! b = (if a = b \<and> a < length (heap c) then f (heap c ! a) else heap c ! b)"
  by (cases "a < length (heap c)") (auto simp: upd_session_def nth_list_update list_update_beyond)

lemma coord_ok_upd:
  assumes "coord_ok c" "a < length (heap c) \<Longrightarrow> session_ok (f (heap c ! a))" "\<And>h. (h, a) \<in> set (sessions c) \<Longrightarrow> live h (f (heap c ! a))"
  shows "coord_ok (upd_session a f c)"
proof (cases "a < length (heap c)")
  case True
  have "\<forall>(h, b) \<in> set (sessions c). b < length (heap c) \<and> live h (heap (upd_session a f c) ! b)"
    using assms(1,3) by (auto simp: coord_ok_def heap_upd_session)
  moreover have "\<forall>s \<in> set (heap (upd_session a f c)). session_ok s"
    using assms(1,2) True set_update_subset_insert [of "heap c" a "f (heap c ! a)"] by (auto simp: upd_session_def coord_ok_def)
  ultimately show ?thesis using assms(1) by (simp add: coord_ok_def)
next
  case False
  then show ?thesis using assms(1) by (simp add: upd_session_def list_update_beyond)
qed

lemma grows_upd: "(a < length (heap c) \<Longrightarrow> later (heap c ! a) (f (heap c ! a))) \<Longrightarrow> grows c (upd_session a f c)"
  by (auto simp: grows_def heap_upd_session)

lemma coord_ok_session: "coord_ok c \<Longrightarrow> a < length (heap c) \<Longrightarrow> session_ok (heap c ! a)"
  by (simp add: coord_ok_def)

lemma coord_ok_live: "coord_ok c \<Longrightarrow> map_of (sessions c) h = Some a \<Longrightarrow> a < length (heap c) \<and> live h (heap c ! a)"
  by (auto simp: coord_ok_def dest!: map_of_SomeD)

lemma coord_ok_filter:
  assumes "coord_ok c"
  shows "coord_ok (c\<lparr>sessions := filter p (sessions c)\<rparr>)"
proof -
  have "int (length (filter p (sessions c))) \<le> int (length (sessions c))" by simp
  also have "\<dots> \<le> maxConcurrent c" using assms by (simp add: coord_ok_def)
  finally have "int (length (filter p (sessions c))) \<le> maxConcurrent c" .
  then show ?thesis using assms by (auto simp: coord_ok_def distinct_map_filter)
qed

lemma removeLocked_ok:
  assumes "coord_ok c"
  shows "coord_ok (removeLocked h e c)" "grows c (removeLocked h e c)"
proof -
  let ?c = "c\<lparr>sessions := filter (\<lambda>p. fst p \<noteq> h) (sessions c)\<rparr>"
  have f: "coord_ok ?c" by (rule coord_ok_filter [OF assms])
  have "coord_ok (upd_session a (close_session e) ?c)" if "map_of (sessions c) h = Some a" for a
  proof (rule coord_ok_upd [OF f])
    show "a < length (heap ?c) \<Longrightarrow> session_ok (close_session e (heap ?c ! a))" using coord_ok_session [OF f] by simp
    show "(k, a) \<in> set (sessions ?c) \<Longrightarrow> live k (close_session e (heap ?c ! a))" for k
      using assms by (auto simp: coord_ok_def)
  qed
  then show "coord_ok (removeLocked h e c)" using assms by (simp add: removeLocked_def split: option.splits)
  show "grows c (removeLocked h e c)"
    by (simp add: removeLocked_def grows_def heap_upd_session split: option.splits)
qed

lemma foldl_ok:
  assumes "coord_ok c" "\<And>c x. coord_ok c \<Longrightarrow> coord_ok (f c x) \<and> grows c (f c x)"
  shows "coord_ok (foldl f c xs) \<and> grows c (foldl f c xs)"
  using assms(1)
proof (induction xs arbitrary: c)
  case (Cons x xs)
  then show ?case using assms(2) [of c x] by (auto intro: grows_trans)
qed simp

lemma cleanExpired_ok: "coord_ok c \<Longrightarrow> coord_ok (cleanExpired now c) \<and> grows c (cleanExpired now c)"
  unfolding cleanExpired_def by (rule foldl_ok) (auto simp: removeLocked_ok)

lemma CloseCoordinator_ok:
  assumes "coord_ok c"
  shows "coord_ok (CloseCoordinator c) \<and> grows c (CloseCoordinator c)"
proof -
  let ?c = "c\<lparr>stopClean := True\<rparr>" and ?f = "\<lambda>c p. removeLocked (fst p) ErrSessionClosed c"
  have "coord_ok ?c" using assms by (simp add: coord_ok_def)
  then have "coord_ok (foldl ?f ?c (sessions c)) \<and> grows ?c (foldl ?f ?c (sessions c))"
    by (rule foldl_ok) (simp add: removeLocked_ok)
  then show ?thesis using assms by (auto simp: CloseCoordinator_def grows_def)
qed

lemma find_session_cases:
  assumes "find_session raw c = Inr (h, a)"
  obtains code where "NormalizeCode raw = Inr code" "h = sha256 code" "map_of (sessions c) h = Some a"
  using assms by (auto simp: find_session_def split: sum.splits option.splits)

lemma find_session_live:
  "coord_ok c \<Longrightarrow> find_session raw c = Inr (h, a) \<Longrightarrow> a < length (heap c) \<and> live h (heap c ! a)"
  by (auto elim!: find_session_cases dest: coord_ok_live)

text \<open>A key of the map is the hash of its session, so that an update of a session touches one key.\<close>

lemma live_upd:
  assumes "coord_ok c" "\<And>h. live h (heap c ! a) \<Longrightarrow> live h (f (heap c ! a))"
  shows "(k, a) \<in> set (sessions c) \<Longrightarrow> live k (f (heap c ! a))"
  using assms by (auto simp: coord_ok_def)

lemma coord_ok_drop:
  assumes "coord_ok c" "map_of (sessions c) h = Some a" "session_ok (f (heap c ! a))"
  shows "coord_ok (upd_session a f (c\<lparr>sessions := filter (\<lambda>p. fst p \<noteq> h) (sessions c)\<rparr>))"
proof (rule coord_ok_upd [OF coord_ok_filter [OF assms(1)]])
  show "live k (f (heap (c\<lparr>sessions := filter (\<lambda>p. fst p \<noteq> h) (sessions c)\<rparr>) ! a))"
    if k: "(k, a) \<in> set (sessions (c\<lparr>sessions := filter (\<lambda>p. fst p \<noteq> h) (sessions c)\<rparr>))" for k
  proof -
    have "live k (heap c ! a)" "k \<noteq> h" using assms(1) k by (auto simp: coord_ok_def)
    then show ?thesis using coord_ok_live [OF assms(1,2)] by (simp add: live_def)
  qed
qed (use assms(3) in simp)

lemma upd_upd: "upd_session a f (upd_session a g c) = upd_session a (\<lambda>s. f (g s)) c" if "a < length (heap c)"
  using that by (simp add: upd_session_def)

lemma upd_filter: "(upd_session a f c)\<lparr>sessions := xs\<rparr> = upd_session a f (c\<lparr>sessions := xs\<rparr>)"
  by (simp add: upd_session_def)

text \<open>The third failed attempt takes the session out of the map.\<close>

lemma RecordFailedAttempt_cases:
  assumes "coord_ok c" "RecordFailedAttempt raw c = ((b, e), c')"
  obtains (refused) "c' = c" "\<not> b"
  | (counted) h a where "find_session raw c = Inr (h, a)" "\<not> b" "failedAttempts (heap c ! a) < 2"
      "c' = upd_session a (\<lambda>s. s\<lparr>failedAttempts := failedAttempts s + 1\<rparr>) c"
  | (burnt) h a where "find_session raw c = Inr (h, a)" "b" "failedAttempts (heap c ! a) = 2"
      "c' = upd_session a (\<lambda>s. close_session ErrSessionBurned (s\<lparr>failedAttempts := failedAttempts s + 1, burned := True\<rparr>))
              (c\<lparr>sessions := filter (\<lambda>p. fst p \<noteq> h) (sessions c)\<rparr>)"
proof (cases "find_session raw c")
  case (Inr x)
  obtain h a where x: "x = (h, a)" by (cases x)
  have f: "find_session raw c = Inr (h, a)" using Inr x by simp
  have a: "a < length (heap c)" "failedAttempts (heap c ! a) \<le> 2" "map_of (sessions c) h = Some a"
    using find_session_live [OF assms(1) f] f by (auto simp: live_def elim!: find_session_cases)
  show thesis
  proof (cases "failedAttempts (heap c ! a) = 2")
    case True
    show thesis
      by (rule burnt [OF f]) (use assms(2) a True in \<open>auto simp: RecordFailedAttempt_def f heap_upd_session removeLocked_def upd_filter upd_upd\<close>)
  next
    case False
    show thesis
      by (rule counted [OF f]) (use assms(2) a False in \<open>auto simp: RecordFailedAttempt_def f heap_upd_session split: if_splits\<close>)
  qed
qed (use assms(2) refused in \<open>auto simp: RecordFailedAttempt_def\<close>)

lemma RecordFailedAttempt_ok:
  assumes "coord_ok c" "RecordFailedAttempt raw c = ((b, e), c')"
  shows "coord_ok c' \<and> grows c c'"
  using assms
proof (cases rule: RecordFailedAttempt_cases)
  case (counted h a)
  have a: "a < length (heap c)" "live h (heap c ! a)" using find_session_live [OF assms(1) counted(1)] by auto
  have "coord_ok c'" unfolding counted(4)
    by (rule coord_ok_upd [OF assms(1)])
      (use a coord_ok_session [OF assms(1) a(1)] counted(3) assms(1) in \<open>auto simp: session_ok_def live_def coord_ok_def\<close>)
  then show ?thesis unfolding counted(4) by (auto simp: later_def intro!: grows_upd)
next
  case (burnt h a)
  have a: "a < length (heap c)" "map_of (sessions c) h = Some a"
    using find_session_live [OF assms(1) burnt(1)] burnt(1) by (auto elim!: find_session_cases)
  have "session_ok ((heap c ! a)\<lparr>failedAttempts := failedAttempts (heap c ! a) + 1, burned := True\<rparr>)"
    using coord_ok_session [OF assms(1) a(1)] by (simp add: session_ok_def)
  then have "coord_ok c'" unfolding burnt(4) by (intro coord_ok_drop [OF assms(1) a(2)]) simp
  then show ?thesis unfolding burnt(4)
    by (auto simp: grows_def heap_upd_session later_def close_session_def closeReader_def closeWriter_def)
qed (simp_all add: assms)

lemma connect_receiver_cases:
  assumes "coord_ok c" "connect_receiver raw c = (r, c')"
  obtains (refused) err where "r = Inl err" "c' = c"
  | (connected) h a where "r = Inr (h, a)" "find_session raw c = Inr (h, a)" "a < length (heap c)" "live h (heap c ! a)"
      "\<not> receiverOnce (heap c ! a)" "passed (heap c ! a) = []"
      "c' = upd_session a (\<lambda>s. s\<lparr>receiverOnce := True, receiverReady := True\<rparr>) c"
proof (cases r)
  case (Inr x)
  obtain h a where x: "x = (h, a)" by (cases x)
  have f: "find_session raw c = Inr (h, a)" "\<not> receiverOnce (heap c ! a)"
    "c' = upd_session a (\<lambda>s. s\<lparr>receiverOnce := True, receiverReady := True\<rparr>) c"
    using assms(2) Inr x by (auto simp: connect_receiver_def split: sum.splits if_splits)
  moreover have "a < length (heap c)" "live h (heap c ! a)" using find_session_live [OF assms(1) f(1)] by auto
  ultimately show thesis using connected Inr x coord_ok_session [OF assms(1)] by (auto simp: session_ok_def)
qed (use assms(2) refused in \<open>auto simp: connect_receiver_def split: sum.splits if_splits\<close>)

lemma connect_receiver_ok:
  assumes "coord_ok c" "connect_receiver raw c = (r, c')"
  shows "coord_ok c' \<and> grows c c'"
  using assms
proof (cases rule: connect_receiver_cases)
  case (connected h a)
  have "coord_ok c'" unfolding connected(7)
    by (rule coord_ok_upd [OF assms(1)])
      (use connected coord_ok_session [OF assms(1)] assms(1) in \<open>auto simp: session_ok_def live_def coord_ok_def\<close>)
  then show ?thesis unfolding connected(7) by (auto simp: later_def intro!: grows_upd)
qed (simp add: assms)

lemma connect_sender_cases:
  assumes "coord_ok c" "connect_sender raw meta c = (r, c')"
  obtains (refused) err where "r = Inl err" "c' = c"
  | (duplicate) h a where "r = Inl ErrAlreadyConnected" "find_session raw c = Inr (h, a)" "a < length (heap c)" "senderOnce (heap c ! a)"
      "c' = upd_session a (\<lambda>s. s\<lparr>kind := Kind meta, encryptedFilename := EncryptedFilename meta\<rparr>) c"
  | (connected) h a where "r = Inr (h, a)" "find_session raw c = Inr (h, a)" "a < length (heap c)" "live h (heap c ! a)"
      "\<not> senderOnce (heap c ! a)" "passed (heap c ! a) = []"
      "c' = upd_session a (\<lambda>s. s\<lparr>kind := Kind meta, encryptedFilename := EncryptedFilename meta, senderOnce := True, senderReady := True\<rparr>) c"
proof (cases "find_session raw c")
  case (Inl err)
  show thesis by (rule refused [of err]) (use assms(2) Inl in \<open>auto simp: connect_sender_def\<close>)
next
  case (Inr x)
  obtain h a where x: "x = (h, a)" by (cases x)
  have f: "find_session raw c = Inr (h, a)" using Inr x by simp
  have a: "a < length (heap c)" "live h (heap c ! a)" using find_session_live [OF assms(1) f] by auto
  show thesis
  proof (cases "senderOnce (heap c ! a)")
    case True
    show thesis by (rule duplicate [OF _ f a(1) True])
      (use assms(2) f a True in \<open>auto simp: connect_sender_def heap_upd_session live_def\<close>)
  next
    case False
    show thesis by (rule connected [OF _ f a False])
      (use assms(2) f a False coord_ok_session [OF assms(1) a(1)] in \<open>auto simp: connect_sender_def heap_upd_session live_def upd_upd session_ok_def\<close>)
  qed
qed

lemma connect_sender_ok:
  assumes "coord_ok c" "connect_sender raw meta c = (r, c')"
  shows "coord_ok c' \<and> grows c c'"
  using assms
proof (cases rule: connect_sender_cases)
  case (duplicate h a)
  have "coord_ok c'" unfolding duplicate(5)
    by (rule coord_ok_upd [OF assms(1)])
      (use duplicate coord_ok_session [OF assms(1)] assms(1) in \<open>auto simp: session_ok_def live_def coord_ok_def\<close>)
  then show ?thesis unfolding duplicate(5) by (auto simp: later_def intro!: grows_upd)
next
  case (connected h a)
  have "coord_ok c'" unfolding connected(7)
    by (rule coord_ok_upd [OF assms(1)])
      (use connected coord_ok_session [OF assms(1)] assms(1) in \<open>auto simp: session_ok_def live_def coord_ok_def\<close>)
  then show ?thesis unfolding connected(7) by (auto simp: later_def intro!: grows_upd)
qed (simp add: assms)

lemma draw_code_cases:
  assumes "draw_code ds c = Inr code" "code \<noteq> []"
  shows "map_of (sessions c) (sha256 code) = None" "\<exists>n. Some n \<in> set ds \<and> code = append_int (n + 100000) 6"
  using assms
  by (induction ds) (auto simp: GenerateCode_def split: option.splits if_splits sum.splits)

lemma Init_cases:
  assumes "Init now draws rnd c = (r, c')"
  obtains (refused) err where "r = Inl err" "c' = c"
  | (created) code slt where "r = Inr (code, slt, quot (ttl c) Second)" "map_of (sessions c) (sha256 code) = None"
      "int (length (sessions c)) < maxConcurrent c" "rnd = Some slt"
      "c' = c\<lparr>sessions := (sha256 code, length (heap c)) # sessions c, heap := heap c @ [new_session (sha256 code) slt now (ttl c)]\<rparr>"
proof -
  consider (full) "int (length (sessions c)) \<ge> maxConcurrent c"
    | (failed) err where "int (length (sessions c)) < maxConcurrent c" "draw_code (map draws [0 ..< 10]) c = Inl err"
    | (drawn) code where "int (length (sessions c)) < maxConcurrent c" "draw_code (map draws [0 ..< 10]) c = Inr code"
    by (cases "draw_code (map draws [0 ..< 10]) c") force+
  then show thesis
  proof cases
    case full
    then show thesis using assms by (intro refused [of ErrCapacityExceeded]) (auto simp: Init_def)
  next
    case (failed err)
    then show thesis using assms by (intro refused [of err]) (auto simp: Init_def)
  next
    case drawn
    show thesis
    proof (cases "code = [] \<or> rnd = None")
      case True
      then show thesis using assms drawn refused by (auto simp: Init_def split: if_splits)
    next
      case False
      then obtain slt where "rnd = Some slt" by auto
      then show thesis using assms drawn False draw_code_cases [OF drawn(2)] created [of code slt] by (simp add: Init_def)
    qed
  qed
qed

lemma Init_ok:
  assumes "coord_ok c" "Init now draws rnd c = (r, c')"
  shows "coord_ok c' \<and> grows c c'"
  using assms(2)
proof (cases rule: Init_cases)
  case (created code slt)
  have "\<forall>(h, a) \<in> set (sessions c). a < length (heap c) \<and> live h ((heap c @ [new_session (sha256 code) slt now (ttl c)]) ! a)"
    using assms(1) by (auto simp: coord_ok_def nth_append)
  moreover have "live (sha256 code) (new_session (sha256 code) slt now (ttl c))" "session_ok (new_session (sha256 code) slt now (ttl c))"
    by (simp_all add: new_session_def live_def session_ok_def)
  moreover have "sha256 code \<notin> fst ` set (sessions c)" using created(2) by (simp add: map_of_eq_None_iff)
  ultimately have "coord_ok c'" using assms(1) created(3) by (auto simp: coord_ok_def created(5))
  then show ?thesis by (simp add: grows_def created(5) nth_append)
qed (simp add: assms)

lemma initPipe_ok:
  assumes "coord_ok c" "initPipe en now draws rnd c = (r, c')"
  shows "coord_ok c' \<and> grows c c'"
proof -
  obtain q d where q: "Init now draws rnd c = (q, d)" by fastforce
  have "c' = c \<or> c' = d"
  proof (cases q)
    case (Inl err)
    then show ?thesis using assms(2) q by (cases err) (auto simp: initPipe_def split: if_splits)
  next
    case (Inr x)
    then show ?thesis using assms(2) q by (cases x) (auto simp: initPipe_def split: if_splits)
  qed
  then show ?thesis using Init_ok [OF assms(1) q] assms(1) by auto
qed

subsection \<open>The steps keep the invariant\<close>

lemma thread_ok_grows:
  assumes "grows c c'" "thread_ok c t"
  shows "thread_ok c' t"
proof (cases "th_session t")
  case (Some x)
  obtain h a where x: "x = (h, a)" by (cases x)
  have "later (heap c ! a) (heap c' ! a)" "a < length (heap c')" "codeHash (heap c ! a) = h"
    using assms Some x by (auto simp: grows_def thread_ok_def)
  then show ?thesis using assms(2) Some x by (auto simp: thread_ok_def holder_ok_def later_def split: role.splits)
qed (use assms(2) in \<open>simp add: thread_ok_def\<close>)

lemma relay_ok_coord:
  "relay_ok R \<Longrightarrow> coord_ok c \<and> grows (coord R) c \<Longrightarrow> relay_ok (R\<lparr>coord := c\<rparr>)"
  by (auto simp: relay_ok_def intro: thread_ok_grows)

text \<open>A thread moves on, in the same role and session.\<close>

lemma relay_ok_goto:
  assumes "relay_ok R" "i < length (threads R) \<Longrightarrow> thread_ok (coord R) ((threads R ! i)\<lparr>th_pc := p\<rparr>)"
  shows "relay_ok (goto i p R)"
proof (cases "i < length (threads R)")
  case True
  let ?ts = "(threads R)[i := (threads R ! i)\<lparr>th_pc := p\<rparr>]"
  have same: "th_session (?ts ! j) = th_session (threads R ! j)" "th_role (?ts ! j) = th_role (threads R ! j)" for j
    by (cases "i = j"; use True in auto)+
  have "exclusive (threads R)" using assms(1) by (simp add: relay_ok_def)
  then have "exclusive ?ts" by (simp only: exclusive_def same length_list_update)
  moreover have "\<forall>t \<in> set ?ts. thread_ok (coord R) t"
    using assms True set_update_subset_insert [of "threads R" i] by (fastforce simp: relay_ok_def)
  ultimately show ?thesis using assms(1) by (simp add: relay_ok_def goto_def)
qed (use assms in \<open>simp add: goto_def list_update_beyond\<close>)

lemma relay_ok_spawn:
  assumes "relay_ok R" "thread_ok (coord R) t"
    and "\<And>u. u \<in> set (threads R) \<Longrightarrow> th_session t \<noteq> None \<Longrightarrow> th_session u \<noteq> None \<Longrightarrow> thread_addr u = thread_addr t \<Longrightarrow>
      th_role u = th_role t \<Longrightarrow> th_role t = WaitRole"
  shows "relay_ok (spawn t R)"
proof -
  have "exclusive (threads R @ [t])"
    unfolding exclusive_def
  proof (intro allI impI)
    fix i j
    assume i: "i < length (threads R @ [t])" and j: "j < length (threads R @ [t])"
      and h: "th_session ((threads R @ [t]) ! i) \<noteq> None \<and> th_session ((threads R @ [t]) ! j) \<noteq> None \<and>
        thread_addr ((threads R @ [t]) ! i) = thread_addr ((threads R @ [t]) ! j) \<and>
        th_role ((threads R @ [t]) ! i) = th_role ((threads R @ [t]) ! j) \<and> th_role ((threads R @ [t]) ! i) \<noteq> WaitRole"
    have ex: "exclusive (threads R)" using assms(1) by (simp add: relay_ok_def)
    consider "i < length (threads R)" "j < length (threads R)" | "i = length (threads R)" "j = length (threads R)"
      | "i < length (threads R)" "j = length (threads R)" | "i = length (threads R)" "j < length (threads R)"
      using i j by fastforce
    then show "i = j"
    proof cases
      case 1
      then show ?thesis using ex h unfolding exclusive_def by (auto simp: nth_append)
    next
      case 3
      then show ?thesis using assms(3) [of "threads R ! i"] h by (auto simp: nth_append)
    next
      case 4
      then show ?thesis using assms(3) [of "threads R ! j"] h by (auto simp: nth_append)
    qed simp
  qed
  then show ?thesis using assms(1,2) by (auto simp: relay_ok_def spawn_def)
qed

definition pc_ok :: "thread \<Rightarrow> pc \<Rightarrow> bool" where
  "pc_ok t p = (case th_role t of
     WaitRole \<Rightarrow> wait_pc_ok p | RecvRole \<Rightarrow> recv_pc_ok (th_moved t) p | SendRole \<Rightarrow> send_pc_ok (th_moved t) (th_body t) p)"

lemma thread_at:
  assumes "relay_ok R" "i < length (threads R)"
  shows "thread_ok (coord R) (threads R ! i)"
  using assms by (simp add: relay_ok_def)

text \<open>A thread that is neither refused nor finished holds a session, and its role fits where it is.\<close>

lemma thread_holds:
  assumes "relay_ok R" "i < length (threads R)" "\<And>e. th_pc (threads R ! i) \<noteq> RecvFailed e" "\<And>r. th_pc (threads R ! i) \<noteq> Answered r"
  shows "th_session (threads R ! i) \<noteq> None" "pc_ok (threads R ! i) (th_pc (threads R ! i))"
proof -
  have ok: "thread_ok (coord R) (threads R ! i)" using assms by (simp add: thread_at)
  show s: "th_session (threads R ! i) \<noteq> None"
  proof
    assume "th_session (threads R ! i) = None"
    then have "refused_ok (threads R ! i)" using ok by (simp add: thread_ok_def)
    then show False using assms(3,4) by (cases "th_pc (threads R ! i)") (auto simp: refused_ok_def)
  qed
  then show "pc_ok (threads R ! i) (th_pc (threads R ! i))"
    using ok by (auto simp: thread_ok_def holder_ok_def pc_ok_def split: role.splits)
qed

lemma relay_ok_move:
  assumes "relay_ok R" "th_session (threads R ! i) \<noteq> None" "pc_ok (threads R ! i) p"
  shows "relay_ok (goto i p R)"
proof (rule relay_ok_goto [OF assms(1)])
  assume "i < length (threads R)"
  then have "thread_ok (coord R) (threads R ! i)" using assms(1) by (simp add: thread_at)
  then show "thread_ok (coord R) ((threads R ! i)\<lparr>th_pc := p\<rparr>)"
    using assms(2,3) by (auto simp: thread_ok_def holder_ok_def pc_ok_def split: role.splits)
qed

lemma on_session_threads [simp]: "threads (on_session i f R) = threads R"
  by (simp add: on_session_def)

lemma relay_ok_on_session:
  assumes "relay_ok R" "\<And>s. later s (f s)" "\<And>s. session_ok s \<Longrightarrow> session_ok (f s)" "\<And>h s. live h s \<Longrightarrow> live h (f s)"
  shows "relay_ok (on_session i f R)"
  unfolding on_session_def
proof (rule relay_ok_coord [OF assms(1)], intro conjI)
  have ok: "coord_ok (coord R)" using assms(1) by (simp add: relay_ok_def)
  show "coord_ok (upd_session (thread_addr (threads R ! i)) f (coord R))"
    by (rule coord_ok_upd [OF ok]) (use assms(3,4) ok in \<open>auto simp: coord_ok_def\<close>)
qed (simp add: grows_upd assms(2))

lemma relay_ok_closing:
  assumes "relay_ok R"
  shows "relay_ok (on_session i (closeReader e) R)" "relay_ok (on_session i (closeWriter e) R)" "relay_ok (on_session i (close_session e) R)"
  by (rule relay_ok_on_session [OF assms]; simp)+

lemma relay_ok_burn: "relay_ok R \<Longrightarrow> relay_ok (R\<lparr>coord := burnSession h (coord R)\<rparr>)"
  by (rule relay_ok_coord) (auto simp: burnSession_def removeLocked_ok relay_ok_def)

lemma select_step_ok:
  assumes "relay_ok R" "i < length (threads R)"
  shows "relay_ok (select_step i ch now R)"
proof -
  let ?t = "threads R ! i"
  note holds = thread_holds [OF assms]
  show ?thesis
  proof (cases "th_pc ?t")
    case Waiting
    then have h: "th_session ?t \<noteq> None" "th_role ?t = WaitRole" using holds by (auto simp: pc_ok_def split: role.splits)
    have "relay_ok (goto i (Answered r) R)" for r
      by (rule relay_ok_move [OF assms(1) h(1)]) (simp add: pc_ok_def h(2))
    then show ?thesis using assms(1) Waiting by (simp add: select_step_def Let_def split: option.splits)
  next
    case RecvWaiting
    then have h: "th_session ?t \<noteq> None" "th_role ?t = RecvRole" using holds by (auto simp: pc_ok_def split: role.splits)
    have "relay_ok (goto i p R)" "relay_ok (goto i p (on_session i (close_session PipeEOF) R))" if "recv_pc_ok (th_moved ?t) p" for p
      using that h by (auto intro!: relay_ok_move relay_ok_closing assms(1) simp: pc_ok_def)
    then show ?thesis using assms(1) RecvWaiting by (simp add: select_step_def Let_def split: choice.splits)
  next
    case (SendWaiting reads ending)
    then have h: "th_session ?t \<noteq> None" "th_role ?t = SendRole" "th_moved ?t = []" "th_body ?t = concat reads"
      using holds by (auto simp: pc_ok_def split: role.splits)
    have "relay_ok (goto i p R)" "relay_ok (goto i p (on_session i (closeWriter e) R))" if "send_pc_ok (th_moved ?t) (th_body ?t) p" for p e
      using that h by (auto intro!: relay_ok_move relay_ok_closing assms(1) simp: pc_ok_def)
    then show ?thesis using assms(1) SendWaiting h by (simp add: select_step_def Let_def split: choice.splits)
  qed (simp_all add: select_step_def assms(1))
qed

lemma read_step_ok:
  assumes "relay_ok R" "i < length (threads R)"
  shows "relay_ok (read_step i R)"
proof (cases "th_pc (threads R ! i)")
  case (Copying pending reads ending)
  let ?t = "threads R ! i"
  have h: "th_session ?t \<noteq> None" "th_role ?t = SendRole" "th_body ?t = th_moved ?t @ pending @ concat reads"
    using Copying thread_holds [OF assms] by (auto simp: pc_ok_def split: role.splits)
  have "relay_ok (goto i p R)" "relay_ok (goto i p (on_session i (closeWriter e) R))" if "send_pc_ok (th_moved ?t) (th_body ?t) p" for p e
    using that h by (auto intro!: relay_ok_move relay_ok_closing assms(1) simp: pc_ok_def)
  then show ?thesis using assms(1) Copying h
    by (simp add: read_step_def sendPipe_ok_def split: list.splits body_end.splits)
qed (simp_all add: read_step_def assms(1))

lemma sendPipe_error_not_ok: "sendPipe_error g e = Some r \<Longrightarrow> rs_status r \<noteq> 200"
  by (cases e) (auto simp: unanswered_def split: if_splits)

lemma receivePipe_error_not_ok: "receivePipe_error b g e = Some r \<Longrightarrow> rs_status r \<noteq> 200"
  by (cases e) (auto simp: unanswered_def split: if_splits)

lemma waitPipe_error_not_ok: "waitPipe_error g e = Some r \<Longrightarrow> rs_status r \<noteq> 200"
  by (cases e) (auto simp: unanswered_def split: if_splits)

lemma write_fail_step_ok:
  assumes "relay_ok R" "i < length (threads R)"
  shows "relay_ok (write_fail_step i R)"
proof (cases "th_pc (threads R ! i)")
  case (Copying pending reads ending)
  have h: "th_session (threads R ! i) \<noteq> None" "th_role (threads R ! i) = SendRole"
    using Copying thread_holds [OF assms] by (auto simp: pc_ok_def split: role.splits)
  have "relay_ok (goto i (SendBurning e) (on_session i (closeWriter e) R))" for e
    using h by (auto intro!: relay_ok_move relay_ok_closing assms(1) simp: pc_ok_def)
  then show ?thesis using assms(1) Copying by (simp add: write_fail_step_def Let_def split: list.splits)
qed (simp_all add: write_fail_step_def assms(1))

lemma stream_end_step_ok:
  assumes "relay_ok R" "i < length (threads R)"
  shows "relay_ok (stream_end_step g i R)"
proof (cases "th_pc (threads R ! i)")
  case (Streaming info)
  have "th_session (threads R ! i) \<noteq> None" "th_role (threads R ! i) = RecvRole"
    using Streaming thread_holds [OF assms] by (auto simp: pc_ok_def split: role.splits)
  then have "relay_ok (goto i (RecvClosing info) (on_session i (closeReader e) R))" for e
    by (auto intro!: relay_ok_move relay_ok_closing assms(1) simp: pc_ok_def)
  then show ?thesis using assms(1) Streaming by (simp add: stream_end_step_def)
qed (simp_all add: stream_end_step_def assms(1))

lemma close_step_ok:
  assumes "relay_ok R" "i < length (threads R)"
  shows "relay_ok (close_step i R)"
proof (cases "th_pc (threads R ! i)")
  case (RecvClosing info)
  have "th_session (threads R ! i) \<noteq> None" "th_role (threads R ! i) = RecvRole"
    using RecvClosing thread_holds [OF assms] by (auto simp: pc_ok_def split: role.splits)
  then show ?thesis using RecvClosing
    by (auto intro!: relay_ok_move relay_ok_closing assms(1) simp: pc_ok_def close_step_def)
qed (simp_all add: close_step_def assms(1))

lemma burn_step_ok:
  assumes "relay_ok R" "i < length (threads R)"
  shows "relay_ok (burn_step i g R)"
proof -
  let ?t = "threads R ! i" and ?R = "R\<lparr>coord := burnSession (fst (the (th_session (threads R ! i)))) (coord R)\<rparr>"
  note holds = thread_holds [OF assms]
  have move: "relay_ok (goto i p ?R)" if "th_session ?t \<noteq> None" "pc_ok ?t p" for p
    by (rule relay_ok_move [OF relay_ok_burn [OF assms(1)]]) (use that in simp_all)
  show ?thesis
  proof (cases "th_pc ?t")
    case (RecvBurning info)
    then have "th_session ?t \<noteq> None" "th_role ?t = RecvRole" using holds by (auto simp: pc_ok_def split: role.splits)
    then show ?thesis using RecvBurning move by (simp add: burn_step_def Let_def pc_ok_def receivePipe_ok_def)
  next
    case (RecvAbandoning err)
    then have "th_session ?t \<noteq> None" "th_role ?t = RecvRole" using holds by (auto simp: pc_ok_def split: role.splits)
    then show ?thesis using RecvAbandoning move by (simp add: burn_step_def Let_def pc_ok_def)
  next
    case (SendBurning err)
    then have h: "th_session ?t \<noteq> None" "th_role ?t = SendRole" using holds by (auto simp: pc_ok_def split: role.splits)
    have "pc_ok ?t (Answered (sendPipe_error q err))" for q
      using sendPipe_error_not_ok [of q err] h(2) by (cases "sendPipe_error q err") (auto simp: pc_ok_def)
    then show ?thesis using SendBurning move h by (simp add: burn_step_def Let_def)
  qed (simp_all add: burn_step_def assms(1))
qed

lemma thread_ok_answered:
  assumes "thread_ok c t" "th_role t = RecvRole" "\<And>x. r = Some x \<Longrightarrow> rs_status x \<noteq> 200"
  shows "thread_ok c (t\<lparr>th_pc := Answered r\<rparr>)"
proof -
  have "recv_pc_ok m (Answered r)" for m using assms(3) by (cases r) auto
  then show ?thesis using assms by (auto simp: thread_ok_def holder_ok_def refused_ok_def split: option.splits pc.splits)
qed

lemma record_step_ok:
  assumes "relay_ok R" "i < length (threads R)"
  shows "relay_ok (record_step i g R)"
proof (cases "th_pc (threads R ! i)")
  case (RecvFailed err)
  obtain b e c where rec: "RecordFailedAttempt (th_code (threads R ! i)) (coord R) = ((b, e), c)" by (metis surj_pair)
  have R: "relay_ok (R\<lparr>coord := c\<rparr>)"
    by (rule relay_ok_coord [OF assms(1)]) (rule RecordFailedAttempt_ok [OF _ rec], use assms(1) in \<open>simp add: relay_ok_def\<close>)
  have "thread_ok (coord R) (threads R ! i)" using assms by (simp add: thread_at)
  then have "th_role (threads R ! i) = RecvRole"
    using RecvFailed by (cases "th_role (threads R ! i)") (auto simp: thread_ok_def holder_ok_def refused_ok_def split: option.splits)
  then have "relay_ok (goto i (Answered (receivePipe_error b q err)) (R\<lparr>coord := c\<rparr>))" for q
    using R thread_at [OF R] receivePipe_error_not_ok [of b q err]
    by (intro relay_ok_goto thread_ok_answered) auto
  then show ?thesis using RecvFailed rec by (simp add: record_step_def)
qed (simp_all add: record_step_def assms(1))

text \<open>The writer and the reader of one session move the same bytes.\<close>

lemma exclusive_other:
  assumes "exclusive ts" "i < length ts" "j < length ts" "k < length ts" "th_session (ts ! i) \<noteq> None" "th_role (ts ! i) = SendRole"
    "th_session (ts ! j) \<noteq> None" "th_role (ts ! j) = RecvRole" "thread_addr (ts ! i) = thread_addr (ts ! j)"
    "th_session (ts ! k) = Some (h, thread_addr (ts ! i))" "k \<noteq> i" "k \<noteq> j"
  shows "th_role (ts ! k) = WaitRole"
proof (rule ccontr)
  assume "th_role (ts ! k) \<noteq> WaitRole"
  then consider "th_role (ts ! k) = RecvRole" | "th_role (ts ! k) = SendRole" by (cases "th_role (ts ! k)") auto
  then show False
  proof cases
    case 1
    with assms(1) [unfolded exclusive_def, rule_format, of k j] assms show False by auto
  next
    case 2
    with assms(1) [unfolded exclusive_def, rule_format, of k i] assms show False by auto
  qed
qed

lemma transfer_step_ok:
  assumes "relay_ok R" "i < length (threads R)" "j < length (threads R)"
  shows "relay_ok (transfer_step i j k R)"
proof (cases "\<exists>pending reads ending info. th_pc (threads R ! i) = Copying pending reads ending \<and> th_pc (threads R ! j) = Streaming info \<and>
    pending \<noteq> [] \<and> k \<noteq> 0 \<and> thread_addr (threads R ! i) = thread_addr (threads R ! j)")
  case True
  then obtain pending reads ending info where pcs: "th_pc (threads R ! i) = Copying pending reads ending" "th_pc (threads R ! j) = Streaming info"
    "pending \<noteq> []" "k \<noteq> 0" and addr: "thread_addr (threads R ! i) = thread_addr (threads R ! j)" by blast
  let ?ti = "threads R ! i" and ?tj = "threads R ! j" and ?b = "take k pending" and ?c = "coord R"
  let ?a = "thread_addr ?ti"
  have i: "th_session ?ti \<noteq> None" "th_role ?ti = SendRole" "th_body ?ti = th_moved ?ti @ pending @ concat reads"
    using pcs thread_holds [OF assms(1,2)] by (auto simp: pc_ok_def split: role.splits)
  have j: "th_session ?tj \<noteq> None" "th_role ?tj = RecvRole"
    using pcs thread_holds [OF assms(1,3)] by (auto simp: pc_ok_def split: role.splits)
  have ok: "coord_ok ?c" "exclusive (threads R)" using assms(1) by (simp_all add: relay_ok_def)
  have ne: "i \<noteq> j" using i j by auto
  have hi: "?a < length (heap ?c)" "senderOnce (heap ?c ! ?a)" "th_moved ?ti = passed (heap ?c ! ?a)" "codeHash (heap ?c ! ?a) = fst (the (th_session ?ti))"
    using thread_at [OF assms(1,2)] i by (auto simp: thread_ok_def holder_ok_def)
  have hj: "receiverOnce (heap ?c ! ?a)" "th_moved ?tj = passed (heap ?c ! ?a)" "codeHash (heap ?c ! ?a) = fst (the (th_session ?tj))"
    using thread_at [OF assms(1,3)] j addr by (auto simp: thread_ok_def holder_ok_def)
  let ?c' = "upd_session ?a (\<lambda>s. s\<lparr>passed := passed s @ ?b\<rparr>) ?c"
  let ?ui = "?ti\<lparr>th_moved := th_moved ?ti @ ?b, th_pc := Copying (drop k pending) reads ending\<rparr>"
  let ?uj = "?tj\<lparr>th_moved := th_moved ?tj @ ?b\<rparr>"
  let ?ts = "(threads R)[i := ?ui, j := ?uj]"
  have step: "transfer_step i j k R = R\<lparr>coord := ?c', threads := ?ts\<rparr>"
    using pcs addr by (simp add: transfer_step_def Let_def)
  have c': "coord_ok ?c'"
    by (rule coord_ok_upd [OF ok(1)]) (use coord_ok_session [OF ok(1) hi(1)] hi hj ok(1) in \<open>auto simp: session_ok_def live_def coord_ok_def\<close>)
  have same: "th_session (?ts ! m) = th_session (threads R ! m)" "th_role (?ts ! m) = th_role (threads R ! m)" for m
    by (cases "m = j"; cases "m = i"; use ne assms in auto)+
  have ex: "exclusive ?ts" using ok(2) by (simp only: exclusive_def same length_list_update)
  have "thread_ok ?c' (?ts ! m)" if m: "m < length (threads R)" for m
  proof (cases "m = i \<or> m = j")
    case True
    then show ?thesis
    proof
      assume "m = i"
      then have "?ts ! m = ?ui" using ne m by simp
      moreover have "th_body ?ti = th_moved ?ti @ ?b @ drop k pending @ concat reads" using i(3) by (metis append_assoc append_take_drop_id)
      ultimately show ?thesis using i(1,2) hi by (auto simp: thread_ok_def holder_ok_def heap_upd_session)
    next
      assume "m = j"
      then have "?ts ! m = ?uj" using m by simp
      then show ?thesis using j hj hi pcs(2) addr by (auto simp: thread_ok_def holder_ok_def heap_upd_session)
    qed
  next
    case False
    then have u: "?ts ! m = threads R ! m" by simp
    have tm: "thread_ok ?c (threads R ! m)" using thread_at [OF assms(1) m] .
    show ?thesis
    proof (cases "\<exists>h. th_session (threads R ! m) = Some (h, ?a)")
      case True
      then obtain h where h: "th_session (threads R ! m) = Some (h, ?a)" by blast
      have "th_role (threads R ! m) = WaitRole"
        using exclusive_other [OF ok(2) assms(2,3) m i(1,2) j(1,2) addr h] False by blast
      then show ?thesis using tm h hi(1) by (simp add: u thread_ok_def holder_ok_def heap_upd_session)
    next
      case False
      then show ?thesis using tm by (cases "th_session (threads R ! m)") (auto simp: u thread_ok_def heap_upd_session)
    qed
  qed
  then have "\<forall>t \<in> set ?ts. thread_ok ?c' t" by (simp only: all_set_conv_all_nth length_list_update) blast
  then show ?thesis using c' ex by (simp add: step relay_ok_def)
next
  case False
  have "transfer_step i j k R = R"
  proof (cases "th_pc (threads R ! i)")
    case (Copying pending reads ending)
    note c = this
    show ?thesis
    proof (cases "th_pc (threads R ! j)")
      case (Streaming info)
      then have "pending = [] \<or> k = 0 \<or> thread_addr (threads R ! i) \<noteq> thread_addr (threads R ! j)" using False c by blast
      then show ?thesis using c Streaming by (auto simp: transfer_step_def)
    qed (simp_all add: transfer_step_def c)
  qed (simp_all add: transfer_step_def)
  then show ?thesis using assms(1) by simp
qed

lemma not_ok: "rs_status pipe_disabled \<noteq> 200" "rs_status missing_code \<noteq> 200"
  by (simp_all add: pipe_disabled_def missing_code_def)

lemma waitPipe_ok:
  assumes "relay_ok R"
  shows "relay_ok (waitPipe code R)"
proof -
  have refuse: "relay_ok (spawn (new_thread WaitRole code None [] (Answered r)) R)" if "\<And>x. r = Some x \<Longrightarrow> rs_status x \<noteq> 200" for r
    using that by (intro relay_ok_spawn assms) (auto simp: new_thread_def thread_ok_def refused_ok_def)
  have "relay_ok (spawn (new_thread WaitRole code (Some (h, a)) [] Waiting) R)" if "find_session code (coord R) = Inr (h, a)" for h a
    using find_session_live [OF _ that] assms
    by (intro relay_ok_spawn) (auto simp: new_thread_def thread_ok_def holder_ok_def live_def relay_ok_def)
  moreover have "relay_ok (spawn (new_thread WaitRole code None [] (Answered (Some pipe_disabled))) R)"
    "relay_ok (spawn (new_thread WaitRole code None [] (Answered (Some missing_code))) R)"
    "relay_ok (spawn (new_thread WaitRole code None [] (Answered (waitPipe_error False e))) R)" for e
    by (rule refuse; use not_ok waitPipe_error_not_ok in auto)+
  ultimately show ?thesis by (cases "code = []") (auto simp: waitPipe_def split: sum.splits)
qed

text \<open>A new receiver or sender finds its once unused, so that no thread holds the session in its role.\<close>

lemma unclaimed:
  assumes "relay_ok R" "u \<in> set (threads R)" "th_session u = Some (h, a)"
  shows "th_role u = RecvRole \<Longrightarrow> receiverOnce (heap (coord R) ! a)" "th_role u = SendRole \<Longrightarrow> senderOnce (heap (coord R) ! a)"
  using assms by (auto simp: relay_ok_def thread_ok_def holder_ok_def)

lemma receivePipe_step_ok:
  assumes "relay_ok R"
  shows "relay_ok (receivePipe code R)"
proof -
  have refuse: "relay_ok (spawn (new_thread RecvRole code None [] (Answered (Some r))) R)" if "rs_status r \<noteq> 200" for r
    using that by (intro relay_ok_spawn assms) (auto simp: new_thread_def thread_ok_def refused_ok_def)
  obtain r c where con: "connect_receiver code (coord R) = (r, c)" by fastforce
  have ok: "coord_ok (coord R)" using assms by (simp add: relay_ok_def)
  have c: "coord_ok c \<and> grows (coord R) c" by (rule connect_receiver_ok [OF ok con])
  have R: "relay_ok (R\<lparr>coord := c\<rparr>)" by (rule relay_ok_coord [OF assms c])
  from ok con have "relay_ok (case r of Inl err \<Rightarrow> spawn (new_thread RecvRole code None [] (RecvFailed err)) (R\<lparr>coord := c\<rparr>)
      | Inr ses \<Rightarrow> spawn (new_thread RecvRole code (Some ses) [] RecvWaiting) (R\<lparr>coord := c\<rparr>))"
  proof (cases rule: connect_receiver_cases)
    case (refused err)
    then show ?thesis using R by (auto intro!: relay_ok_spawn simp: new_thread_def thread_ok_def refused_ok_def)
  next
    case (connected h a)
    have "relay_ok (spawn (new_thread RecvRole code (Some (h, a)) [] RecvWaiting) (R\<lparr>coord := c\<rparr>))"
    proof (rule relay_ok_spawn [OF R])
      show "thread_ok (coord (R\<lparr>coord := c\<rparr>)) (new_thread RecvRole code (Some (h, a)) [] RecvWaiting)"
        using connected by (simp add: new_thread_def thread_ok_def holder_ok_def heap_upd_session live_def)
    qed (use unclaimed(1) [OF assms] connected(5) in \<open>auto simp: new_thread_def\<close>)
    then show ?thesis by (simp add: connected(1))
  qed
  then show ?thesis using refuse con
    by (cases "code = []") (simp_all add: receivePipe_def not_ok split: sum.splits)
qed

lemma sendPipe_step_ok:
  assumes "relay_ok R"
  shows "relay_ok (sendPipe code meta reads ending R)"
proof -
  let ?new = "new_thread SendRole code"
  obtain r c where con: "connect_sender code meta (coord R) = (r, c)" by fastforce
  have ok: "coord_ok (coord R)" using assms by (simp add: relay_ok_def)
  have c: "coord_ok c \<and> grows (coord R) c" by (rule connect_sender_ok [OF ok con])
  have R: "relay_ok (R\<lparr>coord := c\<rparr>)" by (rule relay_ok_coord [OF assms c])
  have refuse: "relay_ok (spawn (?new None (concat reads) (Answered q)) S)" if "relay_ok S" "\<And>x. q = Some x \<Longrightarrow> rs_status x \<noteq> 200" for q S
    using that by (intro relay_ok_spawn) (auto simp: new_thread_def thread_ok_def refused_ok_def)
  have err: "relay_ok (spawn (?new None (concat reads) (Answered (sendPipe_error g e))) (R\<lparr>coord := c\<rparr>))" for g e
    by (rule refuse [OF R sendPipe_error_not_ok])
  from ok con have "relay_ok (case r of Inl e \<Rightarrow> spawn (?new None (concat reads) (Answered (sendPipe_error False e))) (R\<lparr>coord := c\<rparr>)
      | Inr ses \<Rightarrow> spawn (?new (Some ses) (concat reads) (SendWaiting reads ending)) (R\<lparr>coord := c\<rparr>))"
  proof (cases rule: connect_sender_cases)
    case (refused e)
    then show ?thesis using err [of False e] by simp
  next
    case (duplicate h a)
    then show ?thesis using err [of False ErrAlreadyConnected] by simp
  next
    case (connected h a)
    have "relay_ok (spawn (?new (Some (h, a)) (concat reads) (SendWaiting reads ending)) (R\<lparr>coord := c\<rparr>))"
    proof (rule relay_ok_spawn [OF R])
      show "thread_ok (coord (R\<lparr>coord := c\<rparr>)) (?new (Some (h, a)) (concat reads) (SendWaiting reads ending))"
        using connected by (simp add: new_thread_def thread_ok_def holder_ok_def heap_upd_session live_def)
    qed (use unclaimed(2) [OF assms] connected(5) in \<open>auto simp: new_thread_def\<close>)
    then show ?thesis by (simp add: connected(1))
  qed
  moreover have "relay_ok (spawn (?new None (concat reads) (Answered (Some pipe_disabled))) R)"
    "relay_ok (spawn (?new None (concat reads) (Answered (Some missing_code))) R)"
    by (rule refuse [OF assms]; use not_ok in auto)+
  ultimately show ?thesis using con by (cases "code = []") (simp_all add: sendPipe_def split: sum.splits)
qed

lemma relay_step_ok: "relay_ok R \<Longrightarrow> relay_ok (fst (relay_step R e))"
proof (induction R e rule: relay_step.induct)
  case (1 R now draws rnd)
  obtain r c where "initPipe (relay_enabled R) now draws rnd (coord R) = (r, c)" by fastforce
  moreover have "coord_ok (coord R)" using 1 by (simp add: relay_ok_def)
  ultimately show ?case using relay_ok_coord [OF 1 initPipe_ok] by simp
next
  case (14 R now)
  then have "coord_ok (coord R)" by (simp add: relay_ok_def)
  then show ?case using relay_ok_coord [OF 14 cleanExpired_ok] by simp
next
  case (15 R)
  then have "coord_ok (coord R)" by (simp add: relay_ok_def)
  then show ?case using relay_ok_coord [OF 15 CloseCoordinator_ok] by simp
qed (simp_all add: at_thread_def waitPipe_ok receivePipe_step_ok sendPipe_step_ok select_step_ok read_step_ok transfer_step_ok
    write_fail_step_ok stream_end_step_ok close_step_ok burn_step_ok record_step_ok)

interpretation relay: machine relay_step relay_ok
  by unfold_locales (rule relay_step_ok)

definition start_relay :: "bool \<Rightarrow> int \<Rightarrow> duration \<Rightarrow> duration \<Rightarrow> duration \<Rightarrow> relay" where
  "start_relay enabled optMax optTTL optClean optTransfer =
     \<lparr>relay_enabled = enabled, coord = NewCoordinator optMax optTTL optClean optTransfer, threads = []\<rparr>"

lemma start_relay_ok: "relay_ok (start_relay en m t cl tr)"
  by (simp add: start_relay_def NewCoordinator_def relay_ok_def coord_ok_def exclusive_def defaultMaxConcurrent_def)

subsection \<open>Properties\<close>

lemma maxConcurrent_step:
  "maxConcurrent (coord (fst (relay_step R e))) = maxConcurrent (coord R)"
proof -
  have rem: "maxConcurrent (removeLocked h x c) = maxConcurrent c" for h x c
    by (simp add: removeLocked_def split: option.splits)
  have fold: "maxConcurrent (foldl f c xs) = maxConcurrent c" if "\<And>c x. maxConcurrent (f c x) = maxConcurrent c" for f c and xs :: "(bytes \<times> nat) list"
    by (induction xs arbitrary: c) (simp_all add: that)
  show ?thesis
  proof (induction R e rule: relay_step.induct)
    case (1 R now draws rnd)
    obtain r c where i: "initPipe (relay_enabled R) now draws rnd (coord R) = (r, c)" by fastforce
    obtain q d where q: "Init now draws rnd (coord R) = (q, d)" by fastforce
    have "maxConcurrent d = maxConcurrent (coord R)" using q by (cases rule: Init_cases) auto
    then show ?case using i q
      by (cases q) (auto simp: initPipe_def split: if_splits pipe_error.splits)
  next
    case (3 R code)
    show ?case by (auto simp: receivePipe_def connect_receiver_def spawn_def split: sum.splits prod.splits if_splits)
  next
    case (4 R code meta reads ending)
    show ?case by (auto simp: sendPipe_def connect_sender_def spawn_def Let_def split: sum.splits prod.splits if_splits)
  next
    case (13 R i g)
    show ?case
      by (auto simp: at_thread_def record_step_def goto_def RecordFailedAttempt_def rem Let_def split: pc.splits prod.splits sum.splits if_splits)
  next
    case (14 R now)
    show ?case by (simp add: cleanExpired_def fold rem)
  next
    case (15 R)
    show ?case by (simp add: CloseCoordinator_def fold rem)
  qed (simp_all add: at_thread_def waitPipe_def select_step_def read_step_def transfer_step_def write_fail_step_def stream_end_step_def
      close_step_def burn_step_def burnSession_def rem goto_def spawn_def on_session_def Let_def
      split: sum.split pc.split choice.split list.split body_end.split option.split)
qed

lemma maxConcurrent_run: "maxConcurrent (coord (run relay_step R es)) = maxConcurrent (coord R)"
  by (induction es arbitrary: R) (simp_all add: maxConcurrent_step)

text \<open>
  C36: In every interleaving of the relay's requests, of the cleaner and of shutdown, no more sessions are
  open than the configured maximum; an open session is found under the hash of its code, has fewer than
  three failed attempts and is not burned; and no two requests are receiver, or sender, of one session.
\<close>

theorem relay_exclusive:
  assumes "R = run relay_step (start_relay en optMax optTTL optClean optTransfer) es"
  shows "int (ActiveSessions (coord R)) \<le> (if optMax \<le> 0 then 100 else optMax) \<and>
    (\<forall>h a. map_of (sessions (coord R)) h = Some a \<longrightarrow>
      codeHash (heap (coord R) ! a) = h \<and> failedAttempts (heap (coord R) ! a) < 3 \<and> \<not> burned (heap (coord R) ! a)) \<and>
    (\<forall>i j h a. i < length (threads R) \<and> j < length (threads R) \<and> th_role (threads R ! i) = th_role (threads R ! j) \<and>
      th_role (threads R ! i) \<noteq> WaitRole \<and> th_session (threads R ! i) = Some (h, a) \<and> th_session (threads R ! j) = Some (h, a) \<longrightarrow> i = j)"
proof (intro conjI allI impI)
  have ok: "relay_ok R" unfolding assms by (rule relay.inv_run [OF start_relay_ok])
  have "maxConcurrent (coord R) = (if optMax \<le> 0 then 100 else optMax)"
    unfolding assms maxConcurrent_run by (simp add: start_relay_def NewCoordinator_def defaultMaxConcurrent_def)
  then show "int (ActiveSessions (coord R)) \<le> (if optMax \<le> 0 then 100 else optMax)"
    using ok by (simp add: ActiveSessions_def relay_ok_def coord_ok_def)
  fix h a
  assume "map_of (sessions (coord R)) h = Some a"
  then have "live h (heap (coord R) ! a)" using coord_ok_live ok by (auto simp: relay_ok_def)
  then show "codeHash (heap (coord R) ! a) = h" "failedAttempts (heap (coord R) ! a) < 3" "\<not> burned (heap (coord R) ! a)"
    by (auto simp: live_def)
next
  have ok: "relay_ok R" unfolding assms by (rule relay.inv_run [OF start_relay_ok])
  fix i j h a
  assume "i < length (threads R) \<and> j < length (threads R) \<and> th_role (threads R ! i) = th_role (threads R ! j) \<and>
      th_role (threads R ! i) \<noteq> WaitRole \<and> th_session (threads R ! i) = Some (h, a) \<and> th_session (threads R ! j) = Some (h, a)"
  then show "i = j" using ok unfolding relay_ok_def exclusive_def by auto
qed

text \<open>
  C35: The relay delivers what was sent. In every interleaving, a request that sends and one that receives
  the same session have moved the same prefix of the sender's body through the pipe; and the send
  answers 200 only if this is the whole body, whose length it reports.
\<close>

theorem relay_delivers:
  assumes "R = run relay_step (start_relay en optMax optTTL optClean optTransfer) es" "i < length (threads R)" "j < length (threads R)"
    and "th_role (threads R ! i) = SendRole" "th_session (threads R ! i) = Some (h, a)"
    and "th_role (threads R ! j) = RecvRole" "th_session (threads R ! j) = Some (h, a)"
  shows "th_moved (threads R ! j) = th_moved (threads R ! i) \<and>
    (\<exists>rest. th_body (threads R ! i) = th_moved (threads R ! j) @ rest) \<and>
    (\<forall>r. th_pc (threads R ! i) = Answered (Some r) \<and> rs_status r = 200 \<longrightarrow>
      th_moved (threads R ! j) = th_body (threads R ! i) \<and>
      rs_body r = JsonBody (PipeSent ''completed'' (int (length (th_body (threads R ! i))))))"
proof -
  have ok: "relay_ok R" unfolding assms(1) by (rule relay.inv_run [OF start_relay_ok])
  have i: "holder_ok (heap (coord R) ! a) (threads R ! i)" using thread_at [OF ok assms(2)] assms(5) by (simp add: thread_ok_def)
  have j: "holder_ok (heap (coord R) ! a) (threads R ! j)" using thread_at [OF ok assms(3)] assms(7) by (simp add: thread_ok_def)
  have "th_moved (threads R ! j) = th_moved (threads R ! i)" using i j assms(4,6) by (simp add: holder_ok_def)
  then show ?thesis using i assms(4) by (auto simp: holder_ok_def sendPipe_ok_def)
qed

end
