(* ===== verification/Pipe_Exchange.thy ===== *)
theory Pipe_Exchange
  imports Pipe_Safety
begin

text \<open>
  The relay at work: a code that was generated is accepted as it is, with dashes and with blanks; an
  undisturbed rendezvous of a receiver and a sender carries any body through; and two schedules in which the code
  does not do what its contract says.
\<close>

subsection \<open>Codes\<close>

definition is_code :: "string \<Rightarrow> bool" where
  "is_code s = (length s = 6 \<and> list_all (\<lambda>c. 48 \<le> byte c \<and> byte c \<le> 57) s)"

lemma is_code_visible: "is_code s \<Longrightarrow> list_all (\<lambda>c. 32 < byte c \<and> byte c < 128) s"
  by (auto simp: is_code_def list_all_iff)

lemma is_code_clean: "is_code s \<Longrightarrow> c \<in> set s \<Longrightarrow> c \<noteq> CHR ''-'' \<and> c \<noteq> CHR '' ''"
  by (auto simp: is_code_def list_all_iff)

lemma dropByte_id: "c \<notin> set s \<Longrightarrow> dropByte c s = s"
  by (auto simp: dropByte_def filter_id_conv)

lemma NormalizeCode_code:
  assumes "is_code s"
  shows "NormalizeCode s = Inr s"
proof -
  have "trimSpace s = s" by (rule trimSpace_visible [OF is_code_visible [OF assms]])
  moreover have "dropByte CHR ''-'' s = s" "dropByte CHR '' '' s = s"
    using is_code_clean [OF assms] by (auto intro: dropByte_id)
  ultimately show ?thesis using assms by (simp add: NormalizeCode_def is_code_def)
qed

lemma NormalizeCode_is_code: "NormalizeCode raw = Inr s \<Longrightarrow> is_code s"
  by (auto simp: NormalizeCode_def is_code_def Let_def split: if_splits)

lemma GenerateCode_is_code:
  assumes "n < 900000"
  shows "is_code (append_int (n + 100000) 6)"
proof -
  have "append_int (n + 100000) 6 = pad_digits 6 (n + 100000)" using assms by (simp add: append_int_def)
  then show ?thesis using pad_digits_are_digits [of _ 6 "n + 100000"] by (fastforce simp: is_code_def list_all_iff)
qed

subsection \<open>An exchange\<close>

text \<open>A receiver \<open>i\<close> and a sender \<open>j\<close> of one open session, with the bytes that have passed.\<close>

definition joined :: "relay \<Rightarrow> nat \<Rightarrow> nat \<Rightarrow> bytes \<Rightarrow> nat \<Rightarrow> bytes \<Rightarrow> session \<Rightarrow> bytes \<Rightarrow> pc \<Rightarrow> pc \<Rightarrow> bool" where
  "joined R i j h a body s m pi pj = (i < length (threads R) \<and> j < length (threads R) \<and> i \<noteq> j \<and>
     th_session (threads R ! i) = Some (h, a) \<and> th_role (threads R ! i) = RecvRole \<and> th_pc (threads R ! i) = pi \<and>
     th_moved (threads R ! i) = m \<and>
     th_session (threads R ! j) = Some (h, a) \<and> th_role (threads R ! j) = SendRole \<and> th_pc (threads R ! j) = pj \<and>
     th_body (threads R ! j) = body \<and> th_moved (threads R ! j) = m \<and> a < length (heap (coord R)) \<and> heap (coord R) ! a = s \<and> map_of (sessions (coord R)) h = Some a)"

definition copy_schedule :: "nat \<Rightarrow> nat \<Rightarrow> bytes list \<Rightarrow> pipe_event list" where
  "copy_schedule i j reads = concat (map (\<lambda>b. [EvRead j, EvTransfer j i (length b)]) reads)"

lemma joined_copy:
  assumes "joined R i j h a body s m (Streaming info) (Copying [] reads e)"
  shows "\<exists>s'. joined (run relay_step R (copy_schedule i j reads)) i j h a body s' (m @ concat reads) (Streaming info) (Copying [] [] e)"
  using assms
proof (induction reads arbitrary: R s m)
  case Nil
  then show ?case by (auto simp: copy_schedule_def)
next
  case (Cons b bs)
  let ?R1 = "fst (relay_step R (EvRead j))" and ?m = "m @ b"
  have R1: "joined ?R1 i j h a body s m (Streaming info) (Copying b bs e)"
    using Cons.prems by (auto simp: joined_def at_thread_def read_step_def goto_def)
  have "\<exists>s'. joined (fst (relay_step ?R1 (EvTransfer j i (length b)))) i j h a body s' (m @ b) (Streaming info) (Copying [] bs e)"
    using R1 by (cases "b = []") (auto simp: joined_def at_thread_def transfer_step_def Let_def heap_upd_session)
  then obtain s' where "joined (fst (relay_step ?R1 (EvTransfer j i (length b)))) i j h a body s' (m @ b) (Streaming info) (Copying [] bs e)"
    by blast
  from Cons.IH [OF this] show ?case by (simp add: copy_schedule_def)
qed

definition ended :: "relay \<Rightarrow> nat \<Rightarrow> nat \<Rightarrow> bytes \<Rightarrow> nat \<Rightarrow> bytes \<Rightarrow> pc \<Rightarrow> pc \<Rightarrow> bool" where
  "ended R i j h a body pi pj = (i < length (threads R) \<and> j < length (threads R) \<and>
     th_session (threads R ! i) = Some (h, a) \<and> th_role (threads R ! i) = RecvRole \<and> th_pc (threads R ! i) = pi \<and>
     th_session (threads R ! j) = Some (h, a) \<and> th_role (threads R ! j) = SendRole \<and> th_pc (threads R ! j) = pj \<and>
     th_body (threads R ! j) = body \<and> map_of (sessions (coord R)) h = None)"

lemma joined_finish:
  assumes "joined R i j h a body s m (Streaming info) (Copying [] [] BodyEOF)"
  shows "ended (run relay_step R [EvRead j, EvStreamEnd i, EvClose i, EvBurn i False]) i j h a body
    (Answered (Some (receivePipe_ok info m))) (Answered (Some (sendPipe_ok m)))"
proof -
  let ?R1 = "fst (relay_step R (EvRead j))"
  have "joined ?R1 i j h a body (closeWriter PipeEOF s) m (Streaming info) (Answered (Some (sendPipe_ok m)))"
    using assms by (auto simp: joined_def at_thread_def read_step_def goto_def on_session_def heap_upd_session)
  moreover have "pipe_closed (closeWriter PipeEOF s)" by (simp add: pipe_closed_def closeWriter_def split: option.splits)
  ultimately obtain s2 where R2: "joined (fst (relay_step ?R1 (EvStreamEnd i))) i j h a body s2 m (RecvClosing info) (Answered (Some (sendPipe_ok m)))"
    by (auto simp: joined_def at_thread_def stream_end_step_def goto_def on_session_def heap_upd_session)
  let ?R2 = "fst (relay_step ?R1 (EvStreamEnd i))" and ?R3 = "fst (relay_step (fst (relay_step ?R1 (EvStreamEnd i))) (EvClose i))"
  obtain s3 where R3: "joined ?R3 i j h a body s3 m (RecvBurning info) (Answered (Some (sendPipe_ok m)))"
    using R2 by (auto simp: joined_def at_thread_def close_step_def goto_def on_session_def heap_upd_session simp del: relay_step.simps(1,2,3,4,5,6,7,8,9))
  have "map_of (filter (\<lambda>p. fst p \<noteq> h) xs) h = None" for xs :: "(bytes \<times> nat) list"
    by (auto simp: map_of_eq_None_iff)
  then show ?thesis using R3
    by (auto simp: joined_def ended_def at_thread_def burn_step_def burnSession_def removeLocked_def goto_def simp del: relay_step.simps(1,2,3,4,5,6,7,8,9,10,11))
qed

lemma find_session_code: "is_code code \<Longrightarrow> map_of (sessions c) (sha256 code) = Some a \<Longrightarrow> find_session code c = Inr (sha256 code, a)"
  by (simp add: find_session_def NormalizeCode_code)

text \<open>A fresh session, its receiver and its sender, up to the first byte. The two ends arrive in either order;
  the one that comes first is thread \<open>n\<close>.\<close>

definition receiver_at :: "bool \<Rightarrow> nat \<Rightarrow> nat" where
  "receiver_at senderFirst n = (if senderFirst then Suc n else n)"

definition sender_at :: "bool \<Rightarrow> nat \<Rightarrow> nat" where
  "sender_at senderFirst n = (if senderFirst then n else Suc n)"

definition arrivals :: "bool \<Rightarrow> string \<Rightarrow> session_metadata \<Rightarrow> bytes list \<Rightarrow> pipe_event list" where
  "arrivals senderFirst code meta reads =
     (if senderFirst then [EvSend code meta reads BodyEOF, EvReceive code] else [EvReceive code, EvSend code meta reads BodyEOF])"

definition meeting ::
  "bool \<Rightarrow> time \<Rightarrow> (nat \<Rightarrow> nat option) \<Rightarrow> bytes \<Rightarrow> string \<Rightarrow> session_metadata \<Rightarrow> bytes list \<Rightarrow> nat \<Rightarrow> pipe_event list" where
  "meeting sf now draws slt code meta reads n =
     EvInit now draws (Some slt) # arrivals sf code meta reads @
     [EvSelect (receiver_at sf n) PeerReady now, EvSelect (sender_at sf n) PeerReady now]"

definition exchange ::
  "bool \<Rightarrow> time \<Rightarrow> (nat \<Rightarrow> nat option) \<Rightarrow> bytes \<Rightarrow> string \<Rightarrow> session_metadata \<Rightarrow> bytes list \<Rightarrow> nat \<Rightarrow> pipe_event list" where
  "exchange sf now draws slt code meta reads n =
     meeting sf now draws slt code meta reads n @ copy_schedule (receiver_at sf n) (sender_at sf n) reads @
     [EvRead (sender_at sf n), EvStreamEnd (receiver_at sf n), EvClose (receiver_at sf n), EvBurn (receiver_at sf n) False]"

lemma Init_first_draw:
  assumes "int (length (sessions c)) < maxConcurrent c" "draws 0 = Some d" "map_of (sessions c) (sha256 (append_int (d + 100000) 6)) = None"
    "d < 900000"
  shows "Init now draws (Some slt) c = (Inr (append_int (d + 100000) 6, slt, quot (ttl c) Second),
    c\<lparr>sessions := (sha256 (append_int (d + 100000) 6), length (heap c)) # sessions c,
      heap := heap c @ [new_session (sha256 (append_int (d + 100000) 6)) slt now (ttl c)]\<rparr>)"
proof -
  have "map draws [0 ..< 10] = Some d # map draws [1 ..< 10]" using assms(2) by (simp add: upt_conv_Cons)
  moreover have "append_int (d + 100000) 6 \<noteq> []" using GenerateCode_is_code [OF assms(4)] by (auto simp: is_code_def)
  ultimately show ?thesis using assms(1,3) by (simp add: Init_def GenerateCode_def del: upt_rec_numeral)
qed

lemma joined_select:
  "joined R i j h a body s m RecvWaiting pj \<Longrightarrow> senderReady s \<Longrightarrow>
    joined (fst (relay_step R (EvSelect i PeerReady now))) i j h a body s m (Streaming (received_metadata s)) pj"
  "joined R i j h a body s m pi (SendWaiting reads e) \<Longrightarrow> receiverReady s \<Longrightarrow>
    joined (fst (relay_step R (EvSelect j PeerReady now))) i j h a body s m pi (Copying [] reads e)"
  by (auto simp: joined_def at_thread_def select_step_def wait_ready_def goto_def)

text \<open>The two connects of a fresh session, and the threads they leave.\<close>

definition receiver_joins :: "session \<Rightarrow> session" where
  "receiver_joins s = s\<lparr>receiverOnce := True, receiverReady := True\<rparr>"

definition sender_joins :: "session_metadata \<Rightarrow> session \<Rightarrow> session" where
  "sender_joins meta s = s\<lparr>kind := Kind meta, encryptedFilename := EncryptedFilename meta, senderOnce := True, senderReady := True\<rparr>"

definition with_session :: "relay \<Rightarrow> bytes \<Rightarrow> session \<Rightarrow> thread list \<Rightarrow> relay" where
  "with_session R h s ts = R\<lparr>coord := (coord R)\<lparr>sessions := (h, length (heap (coord R))) # sessions (coord R),
     heap := heap (coord R) @ [s]\<rparr>, threads := threads R @ ts\<rparr>"

lemma receive_joins:
  assumes "relay_enabled R" "is_code code" "\<not> receiverOnce s" "\<not> burned s"
  shows "relay_step (with_session R (sha256 code) s ts) (EvReceive code) =
    (with_session R (sha256 code) (receiver_joins s)
       (ts @ [new_thread RecvRole code (Some (sha256 code, length (heap (coord R)))) [] RecvWaiting]), None)"
proof -
  have "code \<noteq> []" using assms(2) by (auto simp: is_code_def)
  moreover have "find_session code (coord (with_session R (sha256 code) s ts)) = Inr (sha256 code, length (heap (coord R)))"
    using assms(2) by (simp add: find_session_code with_session_def)
  ultimately show ?thesis
    using assms(1,3,4) by (simp add: receivePipe_def spawn_def connect_receiver_def with_session_def upd_session_def receiver_joins_def)
qed

lemma send_joins:
  assumes "relay_enabled R" "is_code code" "\<not> senderOnce s" "\<not> burned s"
  shows "relay_step (with_session R (sha256 code) s ts) (EvSend code meta reads BodyEOF) =
    (with_session R (sha256 code) (sender_joins meta s)
       (ts @ [new_thread SendRole code (Some (sha256 code, length (heap (coord R)))) (concat reads) (SendWaiting reads BodyEOF)]), None)"
proof -
  have "code \<noteq> []" using assms(2) by (auto simp: is_code_def)
  moreover have "find_session code (coord (with_session R (sha256 code) s ts)) = Inr (sha256 code, length (heap (coord R)))"
    using assms(2) by (simp add: find_session_code with_session_def)
  ultimately show ?thesis
    using assms(1,3,4) by (simp add: sendPipe_def spawn_def connect_sender_def with_session_def upd_session_def sender_joins_def)
qed

lemma arrivals_joined:
  assumes "relay_enabled R" "is_code code" "n = length (threads R)" "s0 = new_session (sha256 code) slt now t"
  shows "\<exists>s. receiverReady s \<and> senderReady s \<and> received_metadata s = (slt, meta) \<and>
    joined (run relay_step (with_session R (sha256 code) s0 []) (arrivals sf code meta reads)) (receiver_at sf n) (sender_at sf n)
      (sha256 code) (length (heap (coord R))) (concat reads) s [] RecvWaiting (SendWaiting reads BodyEOF)"
proof -
  have f: "\<not> receiverOnce s0" "\<not> senderOnce s0" "\<not> burned s0" "\<not> receiverOnce (sender_joins meta s0)" "\<not> burned (sender_joins meta s0)"
    "\<not> senderOnce (receiver_joins s0)" "\<not> burned (receiver_joins s0)"
    by (simp_all add: assms(4) new_session_def sender_joins_def receiver_joins_def)
  let ?s = "receiver_joins (sender_joins meta s0)"
  have s: "receiverReady ?s" "senderReady ?s" "received_metadata ?s = (slt, meta)" "sender_joins meta (receiver_joins s0) = ?s"
    by (simp_all add: assms(4) new_session_def sender_joins_def receiver_joins_def received_metadata_def)
  let ?r = "new_thread RecvRole code (Some (sha256 code, length (heap (coord R)))) [] RecvWaiting"
    and ?t = "new_thread SendRole code (Some (sha256 code, length (heap (coord R)))) (concat reads) (SendWaiting reads BodyEOF)"
  have "run relay_step (with_session R (sha256 code) s0 []) (arrivals sf code meta reads) =
      with_session R (sha256 code) ?s (if sf then [?t, ?r] else [?r, ?t])"
    by (cases sf) (simp_all add: arrivals_def receive_joins [OF assms(1,2)] send_joins [OF assms(1,2)] f s(4) del: relay_step.simps)
  moreover have "joined (with_session R (sha256 code) ?s (if sf then [?t, ?r] else [?r, ?t])) (receiver_at sf n) (sender_at sf n)
      (sha256 code) (length (heap (coord R))) (concat reads) ?s [] RecvWaiting (SendWaiting reads BodyEOF)"
    by (simp add: joined_def receiver_at_def sender_at_def assms(3) with_session_def new_thread_def nth_append)
  ultimately have "joined (run relay_step (with_session R (sha256 code) s0 []) (arrivals sf code meta reads)) (receiver_at sf n) (sender_at sf n)
      (sha256 code) (length (heap (coord R))) (concat reads) ?s [] RecvWaiting (SendWaiting reads BodyEOF)" by simp
  with s(1-3) show ?thesis by blast
qed

lemma meeting_joined:
  assumes "relay_enabled R" "int (length (sessions (coord R))) < maxConcurrent (coord R)" "draws 0 = Some d" "d < 900000"
    and "code = append_int (d + 100000) 6" "map_of (sessions (coord R)) (sha256 code) = None" "n = length (threads R)"
  shows "\<exists>s. joined (run relay_step R (meeting sf now draws slt code meta reads n)) (receiver_at sf n) (sender_at sf n) (sha256 code)
      (length (heap (coord R))) (concat reads) s [] (Streaming (slt, meta)) (Copying [] reads BodyEOF)"
    and "snd (relay_step R (EvInit now draws (Some slt))) = Some (writeJSON 201 (PipeInit code (std_encode slt) (quot (ttl (coord R)) Second)))"
proof -
  let ?s = "new_session (sha256 code) slt now (ttl (coord R))"
  have code: "is_code code" using GenerateCode_is_code [OF assms(4)] assms(5) by simp
  have init: "relay_step R (EvInit now draws (Some slt)) =
      (with_session R (sha256 code) ?s [], Some (writeJSON 201 (PipeInit code (std_encode slt) (quot (ttl (coord R)) Second))))"
    using Init_first_draw [where c = "coord R" and draws = draws and d = d and now = now and slt = slt] assms
    by (simp add: initPipe_def with_session_def)
  then show "snd (relay_step R (EvInit now draws (Some slt))) = Some (writeJSON 201 (PipeInit code (std_encode slt) (quot (ttl (coord R)) Second)))"
    by simp
  obtain s where s: "receiverReady s" "senderReady s" "received_metadata s = (slt, meta)"
    "joined (run relay_step (with_session R (sha256 code) ?s []) (arrivals sf code meta reads)) (receiver_at sf n) (sender_at sf n)
      (sha256 code) (length (heap (coord R))) (concat reads) s [] RecvWaiting (SendWaiting reads BodyEOF)"
    using arrivals_joined [OF assms(1) code assms(7) refl] by blast
  from joined_select(2) [OF joined_select(1) [OF s(4,2)] s(1), unfolded s(3)]
  have "joined (run relay_step (with_session R (sha256 code) ?s []) (arrivals sf code meta reads @
      [EvSelect (receiver_at sf n) PeerReady now, EvSelect (sender_at sf n) PeerReady now])) (receiver_at sf n) (sender_at sf n)
      (sha256 code) (length (heap (coord R))) (concat reads) s [] (Streaming (slt, meta)) (Copying [] reads BodyEOF)"
    by (simp add: run_append del: relay_step.simps)
  then show "\<exists>s. joined (run relay_step R (meeting sf now draws slt code meta reads n)) (receiver_at sf n) (sender_at sf n) (sha256 code)
      (length (heap (coord R))) (concat reads) s [] (Streaming (slt, meta)) (Copying [] reads BodyEOF)"
    unfolding meeting_def run.simps init fst_conv by blast
qed

lemma exchange_joined:
  assumes "relay_enabled R" "int (length (sessions (coord R))) < maxConcurrent (coord R)" "draws 0 = Some d" "d < 900000"
    and "code = append_int (d + 100000) 6" "map_of (sessions (coord R)) (sha256 code) = None" "n = length (threads R)"
  shows "ended (run relay_step R (exchange sf now draws slt code meta reads n)) (receiver_at sf n) (sender_at sf n) (sha256 code)
    (length (heap (coord R))) (concat reads)
    (Answered (Some (receivePipe_ok (slt, meta) (concat reads)))) (Answered (Some (sendPipe_ok (concat reads))))"
proof -
  let ?i = "receiver_at sf n" and ?j = "sender_at sf n" and ?R = "run relay_step R (meeting sf now draws slt code meta reads n)"
  obtain s where "joined ?R ?i ?j (sha256 code) (length (heap (coord R))) (concat reads) s [] (Streaming (slt, meta)) (Copying [] reads BodyEOF)"
    using meeting_joined(1) [where draws = draws and now = now and slt = slt and meta = meta and reads = reads and sf = sf, OF assms] by blast
  from joined_copy [OF this] obtain s' where "joined (run relay_step ?R (copy_schedule ?i ?j reads)) ?i ?j (sha256 code)
    (length (heap (coord R))) (concat reads) s' (concat reads) (Streaming (slt, meta)) (Copying [] [] BodyEOF)" by auto
  from joined_finish [OF this] show ?thesis by (simp only: exchange_def run_append)
qed

text \<open>
  C37: An undisturbed rendezvous carries the body through. Take any state of an enabled relay with room for
  one more session, in which the first code drawn is free. When a session is opened, its receiver and its
  sender arrive with that code, in either order, each finds the other ready, every read of the sender's
  body is passed on at once, and nothing else happens to the relay in between, then any body, in any split
  into reads, ends up at the receiver: the sender is told its length, the receiver gets the salt, the
  sender's metadata and the body, and the code is no longer in use. This is the outcome of that schedule;
  it does not say that the relay reaches it whatever others do.
\<close>

theorem relay_exchange:
  assumes "relay_enabled R" "int (length (sessions (coord R))) < maxConcurrent (coord R)" "draws 0 = Some d" "d < 900000"
    and "code = append_int (d + 100000) 6" "map_of (sessions (coord R)) (sha256 code) = None" "n = length (threads R)"
    and "R' = run relay_step R (exchange senderFirst now draws slt code meta reads n)"
  shows "snd (relay_step R (EvInit now draws (Some slt))) = Some (writeJSON 201 (PipeInit code (std_encode slt) (quot (ttl (coord R)) Second))) \<and>
    th_pc (threads R' ! receiver_at senderFirst n) = Answered (Some (receivePipe_ok (slt, meta) (concat reads))) \<and>
    th_pc (threads R' ! sender_at senderFirst n) = Answered (Some (sendPipe_ok (concat reads))) \<and>
    map_of (sessions (coord R')) (sha256 code) = None"
  using exchange_joined [where draws = draws and now = now and slt = slt and meta = meta and reads = reads and sf = senderFirst, OF assms(1-7)]
    meeting_joined(2) [where draws = draws and now = now and slt = slt, OF assms(1-7)] assms(8)
  by (simp add: ended_def del: relay_step.simps)

subsection \<open>Where the code departs from its contract\<close>

text \<open>A second sender is refused, but only after its metadata has replaced that of the first: the receiver
  that starts reading after it gets the wrong kind and file name.\<close>

lemma duplicate_sender_overwrites:
  assumes "coord_ok c" "find_session raw c = Inr (h, a)" "senderOnce (heap c ! a)"
  shows "\<exists>c'. connect_sender raw meta c = (Inl ErrAlreadyConnected, c') \<and>
    received_metadata (heap c' ! a) = (salt (heap c ! a), meta)"
proof -
  have "a < length (heap c)" "\<not> burned (heap c ! a)" using find_session_live [OF assms(1,2)] by (auto simp: live_def)
  then show ?thesis using assms(2,3) by (simp add: connect_sender_def heap_upd_session received_metadata_def)
qed

text \<open>A wrong code is never held against a session; three refused receivers that know the code end the
  transfer of the one that is connected.\<close>

lemma wrong_code_not_counted: "find_session raw c = Inl err \<Longrightarrow> RecordFailedAttempt raw c = ((False, Some err), c)"
  by (simp add: RecordFailedAttempt_def)

lemma extra_receiver_burns:
  assumes "coord_ok c" "find_session raw c = Inr (h, a)" "receiverOnce (heap c ! a)" "failedAttempts (heap c ! a) = 2"
  shows "connect_receiver raw c = (Inl ErrAlreadyConnected, c)"
    and "\<exists>c'. RecordFailedAttempt raw c = ((True, Some ErrSessionBurned), c') \<and> map_of (sessions c') h = None \<and>
      session_done (heap c' ! a)"
proof -
  have a: "a < length (heap c)" "live h (heap c ! a)" "map_of (sessions c) h = Some a"
    using find_session_live [OF assms(1,2)] assms(2) by (auto elim!: find_session_cases)
  then show "connect_receiver raw c = (Inl ErrAlreadyConnected, c)"
    using assms(2,3) by (simp add: connect_receiver_def live_def)
  have "session_done (heap c ! a) = closeOnce (heap c ! a)" using coord_ok_session [OF assms(1) a(1)] by (simp add: session_ok_def)
  then show "\<exists>c'. RecordFailedAttempt raw c = ((True, Some ErrSessionBurned), c') \<and> map_of (sessions c') h = None \<and>
      session_done (heap c' ! a)"
    using a assms(2,4) by (auto simp: RecordFailedAttempt_def heap_upd_session removeLocked_def map_of_eq_None_iff
        close_session_def closeReader_def closeWriter_def)
qed

text \<open>A request that gives up ends whatever session has its code by then, its own or a newer one.\<close>

lemma stale_cleanup_burns:
  assumes "map_of (sessions (coord R)) h = Some b" "b < length (heap (coord R))" "i < length (threads R)"
    and "th_session (threads R ! i) = Some (h, a)" "th_pc (threads R ! i) = RecvAbandoning err"
  shows "map_of (sessions (coord (burn_step i g R))) h = None \<and> closeOnce (heap (coord (burn_step i g R)) ! b)"
  using assms by (auto simp: burn_step_def goto_def burnSession_def removeLocked_def heap_upd_session map_of_eq_None_iff
      close_session_def closeReader_def closeWriter_def)

subsection \<open>Instances\<close>

abbreviation example_relay :: relay where
  "example_relay \<equiv> start_relay True 2 0 0 0"

abbreviation example_exchange :: "pipe_event list" where
  "example_exchange \<equiv> exchange False 5 (\<lambda>_. Some 23) ''0123456789abcdef'' ''100023'' \<lparr>Kind = ''text'', EncryptedFilename = []\<rparr> [''hel'', [], ''lo''] 0"

lemma pad_digits_numeral: "pad_digits (numeral k) n = pad_digits (pred_numeral k) (n div 10) @ [digit (n mod 10)]"
  by (simp only: numeral_eq_Suc [of k] pad_digits.simps)

lemma example_code: "append_int (23 + 100000) 6 = ''100023''"
  by (simp add: append_int_def digit_def pad_digits_numeral char_of_eq_iff take_bit_eq_mod)

lemma example_relay_facts:
  "relay_enabled example_relay" "int (length (sessions (coord example_relay))) < maxConcurrent (coord example_relay)"
  "map_of (sessions (coord example_relay)) h = None" "0 = length (threads example_relay)" "(23::nat) < 900000"
  by (simp_all add: start_relay_def NewCoordinator_def)

text \<open>The sender comes first.\<close>

abbreviation example_early_sender :: "pipe_event list" where
  "example_early_sender \<equiv> exchange True 5 (\<lambda>_. Some 23) ''0123456789abcdef'' ''100023'' \<lparr>Kind = ''text'', EncryptedFilename = []\<rparr> [''hel'', [], ''lo''] 0"

theorem relay_exchange_witness:
  "th_pc (threads (run relay_step example_relay example_early_sender) ! 1) =
     Answered (Some (receivePipe_ok (''0123456789abcdef'', \<lparr>Kind = ''text'', EncryptedFilename = []\<rparr>) ''hello'')) \<and>
   th_pc (threads (run relay_step example_relay example_early_sender) ! 0) = Answered (Some (sendPipe_ok ''hello''))"
proof -
  have i: "receiver_at True 0 = 1" "sender_at True 0 = 0" by (simp_all add: receiver_at_def sender_at_def)
  show ?thesis
    using relay_exchange [where draws = "\<lambda>_. Some 23" and d = 23 and now = 5 and slt = "''0123456789abcdef''" and
      meta = "\<lparr>Kind = ''text'', EncryptedFilename = []\<rparr>" and reads = "[''hel'', [], ''lo'']" and senderFirst = True,
      OF example_relay_facts(1,2) refl example_relay_facts(5) example_code [symmetric] example_relay_facts(3,4) refl]
    by (simp only: i concat.simps append.simps)
qed

theorem relay_delivers_witness:
  "\<exists>h a R. R = run relay_step example_relay example_exchange \<and> th_session (threads R ! 1) = Some (h, a) \<and> th_session (threads R ! 0) = Some (h, a) \<and>
     th_moved (threads R ! 0) = th_moved (threads R ! 1) \<and> th_moved (threads R ! 0) = ''hello'' \<and>
     th_pc (threads R ! 1) = Answered (Some (sendPipe_ok ''hello''))"
proof -
  let ?R = "run relay_step example_relay example_exchange" and ?h = "sha256 ''100023''" and ?a = "length (heap (coord example_relay))"
  have "concat [''hel'', [], ''lo''] = ''hello''" by simp
  note e = exchange_joined [where draws = "\<lambda>_. Some 23" and d = 23 and now = 5 and slt = "''0123456789abcdef''" and
      meta = "\<lparr>Kind = ''text'', EncryptedFilename = []\<rparr>" and reads = "[''hel'', [], ''lo'']" and sf = False,
      OF example_relay_facts(1,2) refl example_relay_facts(5) example_code [symmetric] example_relay_facts(3,4),
      unfolded ended_def this receiver_at_def sender_at_def if_False]
  have f: "0 < length (threads ?R)" "Suc 0 < length (threads ?R)" "th_role (threads ?R ! 0) = RecvRole" "th_role (threads ?R ! Suc 0) = SendRole"
    "th_session (threads ?R ! 0) = Some (?h, ?a)" "th_session (threads ?R ! Suc 0) = Some (?h, ?a)" "th_body (threads ?R ! Suc 0) = ''hello''"
    "th_pc (threads ?R ! Suc 0) = Answered (Some (sendPipe_ok ''hello''))"
    using e by blast+
  have "rs_status (sendPipe_ok ''hello'') = 200" by (simp add: sendPipe_ok_def)
  with relay_delivers [OF refl f(2,1,4,6,3,5)] f(5-8) show ?thesis
    unfolding One_nat_def by metis
qed

theorem relay_exclusive_witness:
  "int (ActiveSessions (coord (run relay_step example_relay example_exchange))) \<le> 2"
  using relay_exclusive [of "run relay_step example_relay example_exchange" True 2 0 0 0 example_exchange, OF refl] by simp

end
