(* ===== verification/Client_Crypto.thy ===== *)
theory Client_Crypto
  imports Base64 Sha256 Api_Db Go_Time
begin

text \<open>
  Client-side cryptography (src/internal/clientcrypto): the access proof with its KDF block, the identity in
  a link's fragment, and the wrapped identity. PBKDF2 with HMAC-SHA-256 is defined as Go's \<open>crypto/pbkdf2\<close>
  computes it. The age library is a parameter, a record of the functions the sources call: a file is
  encrypted to an identity, and decrypting what a reader delivers (the bytes and the error it ended with,
  if any) fails at the header or yields plaintext that ends well or in an error. Error messages leave out
  the values they quote.
\<close>

datatype cli_error =
    Failed string
  | APIError string int string
  | ErrDecrypt
  | AgeError string
  | Consumed cli_error
  | ErrWriteAfterConsume string

datatype age_failure = NoIdentityMatch | AgeFailure string

record 'i age =
  ag_Generate :: "'i option"
  ag_String :: "'i \<Rightarrow> string"
  ag_Parse :: "string \<Rightarrow> 'i option"
  ag_Encrypt :: "string \<Rightarrow> 'i \<Rightarrow> bytes \<Rightarrow> bytes option"
  ag_Decrypt :: "'i \<Rightarrow> bytes \<Rightarrow> cli_error option \<Rightarrow> age_failure + bytes \<times> age_failure option"
  ag_Wrap :: "string \<Rightarrow> nat \<Rightarrow> bytes \<Rightarrow> bytes option"
  ag_Unwrap :: "string \<Rightarrow> nat \<Rightarrow> bytes \<Rightarrow> age_failure + bytes \<times> age_failure option"

subsection \<open>PBKDF2\<close>

definition xor_bytes :: "bytes \<Rightarrow> bytes \<Rightarrow> bytes" where
  "xor_bytes a b = map2 (\<lambda>x y. char_of (xor (byte x) (byte y) :: nat)) a b"

definition hmac_sha256 :: "bytes \<Rightarrow> bytes \<Rightarrow> bytes" where
  "hmac_sha256 key msg =
     (let k0 = (if length key > 64 then sha256 key else key);
          k = k0 @ replicate (64 - length k0) (char_of (0::nat)) in
      sha256 (xor_bytes k (replicate 64 (char_of (92::nat))) @
        sha256 (xor_bytes k (replicate 64 (char_of (54::nat))) @ msg)))"

fun pbkdf2_rounds :: "nat \<Rightarrow> bytes \<Rightarrow> bytes \<Rightarrow> bytes \<Rightarrow> bytes" where
  "pbkdf2_rounds 0 pw u t = t"
| "pbkdf2_rounds (Suc n) pw u t = (let u' = hmac_sha256 pw u in pbkdf2_rounds n pw u' (xor_bytes t u'))"

definition pbkdf2_block :: "bytes \<Rightarrow> bytes \<Rightarrow> nat \<Rightarrow> nat \<Rightarrow> bytes" where
  "pbkdf2_block pw salt iter i =
     (let u = hmac_sha256 pw (salt @ bytes_of_nat 4 i) in pbkdf2_rounds (iter - 1) pw u u)"

definition pbkdf2_Key :: "bytes \<Rightarrow> bytes \<Rightarrow> nat \<Rightarrow> nat \<Rightarrow> bytes" where
  "pbkdf2_Key pw salt iter keyLength =
     take keyLength (concat (map (pbkdf2_block pw salt iter) [1..<Suc ((keyLength + 31) div 32)]))"

subsection \<open>The access proof\<close>

definition KDFAlgorithm :: string where "KDFAlgorithm = ''PBKDF2-SHA-256''"
definition KDFIterations :: int where "KDFIterations = 600000"
definition KDFMaxIterations :: int where "KDFMaxIterations = 6000000"
definition cli_KeyLengthBits :: int where "cli_KeyLengthBits = 256"
definition AccessVerifierPurpose :: string where "AccessVerifierPurpose = ''Flick access verifier v1''"

definition ValidateKDF :: "kdf_params \<Rightarrow> cli_error option" where
  "ValidateKDF kdf =
     (if Algorithm kdf \<noteq> KDFAlgorithm then Some (Failed ''unsupported KDF algorithm'')
      else if Iterations kdf < KDFIterations then Some (Failed ''KDF iterations below the minimum'')
      else if Iterations kdf > KDFMaxIterations then Some (Failed ''KDF iterations above the maximum'')
      else if KeyLengthBits kdf \<noteq> cli_KeyLengthBits then Some (Failed ''unsupported KDF key length'')
      else if Salt kdf = [] then Some (Failed ''KDF salt is required'')
      else None)"

definition DeriveAccessProof :: "string \<Rightarrow> kdf_params \<Rightarrow> cli_error + string" where
  "DeriveAccessProof passphrase kdf =
     (case ValidateKDF kdf of
        Some err \<Rightarrow> Inl err
      | None \<Rightarrow>
          if passphrase = [] then Inl (Failed ''passphrase is required'')
          else (case std_decode (Salt kdf) of
            None \<Rightarrow> Inl (Failed ''access KDF salt is not valid base64'')
          | Some salt \<Rightarrow>
              Inr (std_encode (pbkdf2_Key (AccessVerifierPurpose @ [char_of (0::nat)] @ passphrase) salt
                (nat (Iterations kdf)) (nat (cli_KeyLengthBits div 8))))))"

text \<open>The sixteen salt bytes are drawn by the caller; \<open>None\<close> when the random source fails.\<close>

definition NewAccessVerifier :: "bytes option \<Rightarrow> string \<Rightarrow> cli_error + kdf_params \<times> string" where
  "NewAccessVerifier drawn passphrase =
     (case drawn of
        None \<Rightarrow> Inl (Failed ''could not read random bytes'')
      | Some salt \<Rightarrow>
          let kdf = \<lparr>Algorithm = KDFAlgorithm, Salt = std_encode salt, Iterations = KDFIterations,
                     KeyLengthBits = cli_KeyLengthBits\<rparr> in
          (case DeriveAccessProof passphrase kdf of Inl err \<Rightarrow> Inl err | Inr proof \<Rightarrow> Inr (kdf, proof)))"

subsection \<open>Identities\<close>

definition IdentityPrefix :: string where "IdentityPrefix = ''AGE-SECRET-KEY-PQ-1''"
definition WrapWorkFactor :: nat where "WrapWorkFactor = 18"
definition MaxWrapWorkFactor :: nat where "MaxWrapWorkFactor = 20"
definition maxIdentityBytes :: nat where "maxIdentityBytes = 1024"

definition ParseIdentity :: "'i age \<Rightarrow> string \<Rightarrow> cli_error + 'i" where
  "ParseIdentity ag s0 =
     (let s = trimSpace s0 in
      if \<not> hasPrefix s IdentityPrefix then Inl (Failed ''identity must start with AGE-SECRET-KEY-PQ-1'')
      else (case ag_Parse ag s of None \<Rightarrow> Inl (AgeError ''malformed secret key'') | Some i \<Rightarrow> Inr i))"

fun decryptError :: "age_failure \<Rightarrow> cli_error" where
  "decryptError NoIdentityMatch = ErrDecrypt"
| "decryptError (AgeFailure m) = AgeError m"

definition DecryptWith :: "'i age \<Rightarrow> bytes \<times> cli_error option \<Rightarrow> 'i \<Rightarrow> cli_error + bytes \<times> age_failure option" where
  "DecryptWith ag src i = (case ag_Decrypt ag i (fst src) (snd src) of Inl f \<Rightarrow> Inl (decryptError f) | Inr r \<Rightarrow> Inr r)"

definition WrapIdentity :: "'i age \<Rightarrow> 'i \<Rightarrow> string \<Rightarrow> cli_error + bytes" where
  "WrapIdentity ag i passphrase =
     (if passphrase = [] then Inl (Failed ''passphrase is required'')
      else (case ag_Wrap ag passphrase WrapWorkFactor (ag_String ag i) of
        None \<Rightarrow> Inl (AgeError ''encrypt'')
      | Some out \<Rightarrow> Inr out))"

text \<open>\<open>io.LimitReader\<close> stops before the error of a reader that has more than the limit.\<close>

definition UnwrapIdentity :: "'i age \<Rightarrow> bytes \<Rightarrow> string \<Rightarrow> cli_error + 'i" where
  "UnwrapIdentity ag wrapped passphrase =
     (if passphrase = [] then Inl (Failed ''passphrase is required'')
      else (case ag_Unwrap ag passphrase MaxWrapWorkFactor wrapped of
        Inl f \<Rightarrow> Inl (decryptError f)
      | Inr (p, ending) \<Rightarrow>
          if length p < maxIdentityBytes + 1 \<and> ending \<noteq> None then Inl (decryptError (the ending))
          else if length (take (maxIdentityBytes + 1) p) > maxIdentityBytes then Inl (Failed ''wrapped identity is too large'')
          else ParseIdentity ag p))"

subsection \<open>The fragment\<close>

definition FragmentKeyPrefix :: string where "FragmentKeyPrefix = ''key=''"
definition maxKeyFragmentChars :: nat where "maxKeyFragmentChars = 128"

text \<open>The regular expression \<open>^AGE-SECRET-KEY-PQ-1[02-9AC-HJ-NP-Z]+$\<close>.\<close>

definition bech32_char :: "char \<Rightarrow> bool" where
  "bech32_char c \<longleftrightarrow> byte c = 48 \<or> (50 \<le> byte c \<and> byte c \<le> 57) \<or> byte c = 65 \<or> (67 \<le> byte c \<and> byte c \<le> 72) \<or>
     (74 \<le> byte c \<and> byte c \<le> 78) \<or> (80 \<le> byte c \<and> byte c \<le> 90)"

definition identityPattern :: "string \<Rightarrow> bool" where
  "identityPattern s \<longleftrightarrow> hasPrefix s IdentityPrefix \<and> drop (length IdentityPrefix) s \<noteq> [] \<and>
     list_all bech32_char (drop (length IdentityPrefix) s)"

definition EncodeKeyFragment :: "'i age \<Rightarrow> 'i \<Rightarrow> string" where
  "EncodeKeyFragment ag i = FragmentKeyPrefix @ ag_String ag i"

definition DecodeKeyFragment :: "'i age \<Rightarrow> string \<Rightarrow> cli_error + 'i" where
  "DecodeKeyFragment ag fragment =
     (let stripped = (if hasPrefix fragment ''#'' then drop 1 fragment else fragment) in
      if \<not> hasPrefix stripped FragmentKeyPrefix then Inl (Failed ''link fragment does not carry a key'')
      else let encoded = drop (length FragmentKeyPrefix) stripped in
        if encoded = [] \<or> length encoded > maxKeyFragmentChars then Inl (Failed ''link fragment key has an implausible length'')
        else if \<not> identityPattern encoded then Inl (Failed ''link fragment key is not an age identity'')
        else (case ParseIdentity ag encoded of
          Inl _ \<Rightarrow> Inl (Failed ''link fragment key is not a valid age identity'')
        | Inr i \<Rightarrow> Inr i))"

subsection \<open>What the clients rely on\<close>

text \<open>The documented behaviour of the age library: an identity's text is upper-case bech32 of at most 128
  characters that parses back, a file begins with the version line, has the size of the age format, and
  opens with its identity to what was encrypted; a passphrase file opens with its passphrase at an allowed
  work factor.\<close>

definition identity_text_ok :: "'i age \<Rightarrow> bool" where
  "identity_text_ok ag \<longleftrightarrow> (\<forall>i. identityPattern (ag_String ag i) \<and> length (ag_String ag i) \<le> maxKeyFragmentChars \<and>
     ag_Parse ag (ag_String ag i) = Some i)"

definition age_opens :: "'i age \<Rightarrow> bool" where
  "age_opens ag \<longleftrightarrow> (\<forall>what i p c. ag_Encrypt ag what i p = Some c \<longrightarrow> ag_Decrypt ag i c None = Inr (p, None))"

definition age_unwraps :: "'i age \<Rightarrow> bool" where
  "age_unwraps ag \<longleftrightarrow> (\<forall>pw n m p c. ag_Wrap ag pw n p = Some c \<longrightarrow> n \<le> m \<longrightarrow> ag_Unwrap ag pw m c = Inr (p, None))"

lemma identityPattern_visible:
  assumes "identityPattern s"
  shows "trimSpace s = s" "hasPrefix s IdentityPrefix" "s \<noteq> []"
proof -
  obtain t where s: "s = IdentityPrefix @ t" and t: "list_all bech32_char t"
    using assms by (auto simp: identityPattern_def hasPrefix_iff)
  have "list_all (\<lambda>c. 32 < byte c \<and> byte c < 128) t" using t by (rule list.pred_mono_strong) (auto simp: bech32_char_def)
  then have "list_all (\<lambda>c. 32 < byte c \<and> byte c < 128) s" by (simp add: s IdentityPrefix_def)
  then show "trimSpace s = s" by (rule trimSpace_visible)
  show "hasPrefix s IdentityPrefix" "s \<noteq> []" by (simp add: s) (simp add: s IdentityPrefix_def)
qed

lemma ParseIdentity_String: "identity_text_ok ag \<Longrightarrow> ParseIdentity ag (ag_String ag i) = Inr i"
  by (simp add: ParseIdentity_def identity_text_ok_def identityPattern_visible)

lemma fragment_roundtrip:
  assumes "identity_text_ok ag"
  shows "DecodeKeyFragment ag (EncodeKeyFragment ag i) = Inr i"
    and "DecodeKeyFragment ag (''#'' @ EncodeKeyFragment ag i) = Inr i"
proof -
  have i: "identityPattern (ag_String ag i)" "length (ag_String ag i) \<le> maxKeyFragmentChars" "ag_String ag i \<noteq> []"
    using assms identityPattern_visible(3) by (auto simp: identity_text_ok_def)
  show "DecodeKeyFragment ag (EncodeKeyFragment ag i) = Inr i" "DecodeKeyFragment ag (''#'' @ EncodeKeyFragment ag i) = Inr i"
    using i ParseIdentity_String [OF assms]
    by (simp_all add: DecodeKeyFragment_def EncodeKeyFragment_def FragmentKeyPrefix_def hasPrefix_def Let_def)
qed

lemma unwrap_wrap:
  assumes "identity_text_ok ag" "age_unwraps ag" "WrapIdentity ag i pw = Inr c"
  shows "UnwrapIdentity ag c pw = Inr i"
proof -
  have "ag_Unwrap ag pw MaxWrapWorkFactor c = Inr (ag_String ag i, None)" "pw \<noteq> []"
    using assms(2,3) unfolding age_unwraps_def WrapIdentity_def
    by (auto simp: WrapWorkFactor_def MaxWrapWorkFactor_def split: if_splits option.splits)
  moreover have "length (ag_String ag i) \<le> maxIdentityBytes"
    using assms(1) by (auto simp: identity_text_ok_def maxKeyFragmentChars_def maxIdentityBytes_def intro: order_trans)
  ultimately show ?thesis using ParseIdentity_String [OF assms(1)] by (simp add: UnwrapIdentity_def)
qed

text \<open>A proof derived again under the block of a verifier is the verifier's proof; it stands for 32 bytes.\<close>

lemma length_pbkdf2_rounds: "length u = 32 \<Longrightarrow> length t = 32 \<Longrightarrow> length (pbkdf2_rounds n pw u t) = 32"
  by (induction n arbitrary: u t) (simp_all add: Let_def hmac_sha256_def length_sha256 xor_bytes_def)

lemma length_pbkdf2_Key: "length (pbkdf2_Key pw salt n 32) = 32"
proof -
  have "length (pbkdf2_block pw salt n 1) = 32"
    by (simp add: pbkdf2_block_def Let_def hmac_sha256_def length_sha256 length_pbkdf2_rounds)
  then show ?thesis by (simp add: pbkdf2_Key_def)
qed

lemma DeriveAccessProof_bytes:
  assumes "DeriveAccessProof pw kdf = Inr proof"
  shows "\<exists>b. length b = 32 \<and> proof = std_encode b" "pw \<noteq> []" "ValidateKDF kdf = None"
  using assms length_pbkdf2_Key
  by (auto simp: DeriveAccessProof_def cli_KeyLengthBits_def split: option.splits if_splits)

lemma derive_again:
  "NewAccessVerifier drawn pw = Inr (kdf, proof) \<Longrightarrow> DeriveAccessProof pw kdf = Inr proof"
  by (auto simp: NewAccessVerifier_def Let_def split: option.splits sum.splits)

end
