(* ===== verification/Client_Api.thy ===== *)
theory Client_Api
  imports Client_Crypto Http Age_Format
begin

text \<open>
  The client's calls of the API (src/internal/flickcli/client.go). The network is a parameter: it answers a
  request, or fails, and changes the world it stands for. The JSON decoder is given by its result: an
  answer holds what its body decodes to under each of the client's contracts, and its body as a stream, the
  bytes it delivers and whether it ends at the end of the file or in a read error.
\<close>

definition DefaultPayloadInlineMaxBytes :: int where "DefaultPayloadInlineMaxBytes = 1044208"
definition DefaultMaxFileBytes :: int where "DefaultMaxFileBytes = 268435456"

record size_limits =
  lm_PayloadInlineMaxBytes :: int
  lm_MaxFileBytes :: int

record create_call =
  cc_Kind :: string
  cc_Ciphertext :: string
  cc_Access :: "(kdf_params \<times> string) option"
  cc_WrappedIdentity :: string
  cc_EncryptedFilename :: string
  cc_ContentType :: string
  cc_SizeBytes :: int
  cc_TTLSeconds :: int
  cc_MaxViews :: int

record presigned_upload =
  pu_URL :: string
  pu_Method :: string
  pu_Headers :: "(string \<times> string) list"

record create_answer =
  ca_ID :: string
  ca_ExpiresAt :: string
  ca_Upload :: "presigned_upload option"

record secret_metadata =
  sm_Kind :: string
  sm_Access :: "kdf_params option"
  sm_SizeBytes :: int

datatype wire_body =
    NoWire
  | CreateWire create_call
  | OpenWire "string option"
  | EmptyWire
  | UploadWire "(string \<times> string) list" bytes int

record wire_request =
  wq_method :: string
  wq_url :: string
  wq_body :: wire_body

record http_answer =
  ha_status :: int
  ha_header :: "string \<Rightarrow> string"
  ha_config :: "size_limits option"
  ha_created :: "create_answer option"
  ha_metadata :: "secret_metadata option"
  ha_finalized :: "bool option"
  ha_error :: "string \<times> string"
  ha_stream :: "bytes \<times> bool"

type_synonym 'w transport = "wire_request \<Rightarrow> 'w \<Rightarrow> (string + http_answer) \<times> 'w"

text \<open>A client is its base URL and the network it talks through.\<close>

record 'w client =
  baseURL :: string
  cl_http :: "'w transport"

definition trimRightSlashes :: "string \<Rightarrow> string" where
  "trimRightSlashes s = rev (dropWhile (\<lambda>c. c = CHR ''/'') (rev s))"

definition NewClient :: "string \<Rightarrow> 'w transport \<Rightarrow> 'w client" where
  "NewClient base http = \<lparr>baseURL = trimRightSlashes base, cl_http = http\<rparr>"

text \<open>\<open>url.PathEscape\<close>.\<close>

definition hex_upper :: "nat \<Rightarrow> char" where
  "hex_upper n = (if n < 10 then char_of (48 + n) else char_of (55 + n))"

definition segment_char :: "char \<Rightarrow> bool" where
  "segment_char c \<longleftrightarrow> (48 \<le> byte c \<and> byte c \<le> 57) \<or> (65 \<le> byte c \<and> byte c \<le> 90) \<or> (97 \<le> byte c \<and> byte c \<le> 122) \<or>
     c \<in> set ''-_.~$&+=:@''"

definition PathEscape :: "string \<Rightarrow> string" where
  "PathEscape s = concat (map (\<lambda>c. if segment_char c then [c] else [CHR ''%'', hex_upper (byte c div 16), hex_upper (byte c mod 16)]) s)"

subsection \<open>Requests and answers\<close>

definition readAPIError :: "http_answer \<Rightarrow> cli_error" where
  "readAPIError a = APIError (if fst (ha_error a) = [] then ''request_failed'' else fst (ha_error a)) (ha_status a) (snd (ha_error a))"

definition cli_send :: "'w client \<Rightarrow> string \<Rightarrow> string \<Rightarrow> wire_body \<Rightarrow> 'w \<Rightarrow> (cli_error + http_answer) \<times> 'w" where
  "cli_send c method path body w =
     (case cl_http c \<lparr>wq_method = method, wq_url = baseURL c @ path, wq_body = body\<rparr> w of
        (Inl err, w') \<Rightarrow> (Inl (Failed (''could not reach '' @ baseURL c @ '': '' @ err)), w')
      | (Inr a, w') \<Rightarrow> (if ha_status a < 200 \<or> ha_status a \<ge> 300 then Inl (readAPIError a) else Inr a, w'))"

text \<open>\<open>do\<close> with the contract the body is decoded under.\<close>

definition cli_do ::
  "'w client \<Rightarrow> string \<Rightarrow> string \<Rightarrow> wire_body \<Rightarrow> (http_answer \<Rightarrow> 'a option) \<Rightarrow> 'w \<Rightarrow> (cli_error + 'a) \<times> 'w" where
  "cli_do c method path body out w =
     (case cli_send c method path body w of
        (Inl err, w') \<Rightarrow> (Inl err, w')
      | (Inr a, w') \<Rightarrow>
          (case out a of None \<Rightarrow> Inl (Failed (''decode response from '' @ path)) | Some v \<Rightarrow> Inr v, w'))"

definition DefaultLimits :: size_limits where
  "DefaultLimits = \<lparr>lm_PayloadInlineMaxBytes = DefaultPayloadInlineMaxBytes, lm_MaxFileBytes = DefaultMaxFileBytes\<rparr>"

definition cli_Config :: "'w client \<Rightarrow> 'w \<Rightarrow> size_limits \<times> 'w" where
  "cli_Config c w =
     (case cli_do c ''GET'' ''/api/config'' NoWire ha_config w of
        (Inl _, w') \<Rightarrow> (DefaultLimits, w')
      | (Inr f, w') \<Rightarrow>
          (\<lparr>lm_PayloadInlineMaxBytes = (if lm_PayloadInlineMaxBytes f > 0 then lm_PayloadInlineMaxBytes f else DefaultPayloadInlineMaxBytes),
            lm_MaxFileBytes = (if lm_MaxFileBytes f > 0 then lm_MaxFileBytes f else DefaultMaxFileBytes)\<rparr>, w'))"

definition CreateSecret :: "'w client \<Rightarrow> create_call \<Rightarrow> 'w \<Rightarrow> (cli_error + create_answer) \<times> 'w" where
  "CreateSecret c req w = cli_do c ''POST'' ''/api/secrets'' (CreateWire req) ha_created w"

definition SecretMetadata :: "'w client \<Rightarrow> string \<Rightarrow> 'w \<Rightarrow> (cli_error + secret_metadata) \<times> 'w" where
  "SecretMetadata c i w = cli_do c ''GET'' (''/api/secrets/'' @ PathEscape i) NoWire ha_metadata w"

definition NeedsPassphrase :: "secret_metadata \<Rightarrow> bool" where
  "NeedsPassphrase m \<longleftrightarrow> sm_Access m \<noteq> None"

definition client_AccessKDF :: "secret_metadata \<Rightarrow> kdf_params" where
  "client_AccessKDF m = (case sm_Access m of None \<Rightarrow> zero_kdf | Some kdf \<Rightarrow> kdf)"

record opened_secret =
  os_Kind :: string
  os_ContentType :: string
  os_EncryptedFilename :: string
  os_WrappedIdentity :: "bytes option"
  os_Body :: "(bytes \<times> bool) \<times> nat"

definition headerBytes :: "http_answer \<Rightarrow> string \<Rightarrow> cli_error + bytes option" where
  "headerBytes a name =
     (if ha_header a name = [] then Inr None
      else (case std_decode (ha_header a name) of
        None \<Rightarrow> Inl (Failed (''open response header '' @ name @ '' is not valid base64''))
      | Some b \<Rightarrow> Inr (Some b)))"

definition openedSecret :: "http_answer \<Rightarrow> int \<Rightarrow> cli_error + opened_secret" where
  "openedSecret a sizeBytes =
     (let kind = ha_header a ''Flick-Kind'' in
      if kind \<noteq> ''text'' \<and> kind \<noteq> ''file'' then Inl (Failed ''open response has an unknown kind'')
      else (case headerBytes a ''Flick-Wrapped-Identity'' of
        Inl err \<Rightarrow> Inl err
      | Inr wrapped \<Rightarrow>
          Inr \<lparr>os_Kind = kind, os_ContentType = ha_header a ''Flick-Content-Type'',
            os_EncryptedFilename = ha_header a ''Flick-Encrypted-Filename'', os_WrappedIdentity = wrapped,
            os_Body = (ha_stream a, nat sizeBytes)\<rparr>))"

definition OpenSecret :: "'w client \<Rightarrow> string \<Rightarrow> string \<Rightarrow> int \<Rightarrow> 'w \<Rightarrow> (cli_error + opened_secret) \<times> 'w" where
  "OpenSecret c i accessProof sizeBytes w =
     (if sizeBytes \<le> 0 then (Inl (Failed ''secret metadata reports an impossible size''), w)
      else (case cli_send c ''POST'' (''/api/secrets/'' @ PathEscape i @ ''/open'')
             (OpenWire (if accessProof \<noteq> [] then Some accessProof else None)) w of
        (Inl err, w') \<Rightarrow> (Inl err, w')
      | (Inr a, w') \<Rightarrow> (openedSecret a sizeBytes, w')))"

definition FinalizeSecret :: "'w client \<Rightarrow> string \<Rightarrow> 'w \<Rightarrow> cli_error option \<times> 'w" where
  "FinalizeSecret c i w =
     (case cli_do c ''POST'' (''/api/secrets/'' @ PathEscape i @ ''/finalize'') EmptyWire ha_finalized w of
        (Inl err, w') \<Rightarrow> (Some err, w')
      | (Inr finalized, w') \<Rightarrow>
          (if finalized then None else Some (APIError ''upload_failed'' 0 ''server did not finalize the upload''), w'))"

definition Upload :: "'w client \<Rightarrow> presigned_upload \<Rightarrow> bytes \<Rightarrow> int \<Rightarrow> 'w \<Rightarrow> cli_error option \<times> 'w" where
  "Upload c upload body sz w =
     (case cl_http c \<lparr>wq_method = pu_Method upload, wq_url = pu_URL upload,
             wq_body = UploadWire (filter (\<lambda>h. \<not> equalFold (fst h) ''Content-Length'') (pu_Headers upload)) body sz\<rparr> w of
        (Inl err, w') \<Rightarrow> (Some (Failed (''upload ciphertext: '' @ err)), w')
      | (Inr a, w') \<Rightarrow>
          (if ha_status a < 200 \<or> ha_status a \<ge> 300
           then Some (APIError ''upload_failed'' (ha_status a) ''object store rejected the upload'') else None, w'))"

subsection \<open>Reading exactly the recorded size\<close>

text \<open>One read of the underlying body into a buffer of \<open>n\<close> bytes: at least one byte while there are any, at
  most \<open>k\<close>, and the end together with the last bytes (\<open>early\<close>) or by itself.\<close>

datatype read_end = More | EOF | Broken

definition raw_read :: "nat \<Rightarrow> nat \<Rightarrow> bool \<Rightarrow> bytes \<times> bool \<Rightarrow> bytes \<times> read_end \<times> bytes \<times> bool" where
  "raw_read n k early st =
     (let m = min n (max 1 k); rest = drop m (fst st) in
      (take m (fst st),
       if rest = [] \<and> (early \<or> fst st = []) then (if snd st then EOF else Broken) else More, (rest, snd st)))"

definition err_longer :: cli_error where "err_longer = Failed ''opened secret is longer than its recorded size''"
definition err_short :: cli_error where "err_short = Failed ''opened secret ended short''"
definition err_read :: cli_error where "err_read = Failed ''read opened secret''"

text \<open>The result is what was read and, where the reader ends, how.\<close>

definition exact_Read ::
  "nat \<Rightarrow> nat \<Rightarrow> bool \<Rightarrow> (bytes \<times> bool) \<times> nat \<Rightarrow> bytes \<times> cli_error option option \<times> (bytes \<times> bool) \<times> nat" where
  "exact_Read n k early b =
     (case b of (st, remaining) \<Rightarrow>
        if remaining = 0 then
          (case raw_read 1 k early st of (c, _, st') \<Rightarrow>
             if c \<noteq> [] then ([], Some (Some err_longer), (st', 0))
             else ([], Some None, (st', 0)))
        else (case raw_read (if n > remaining then remaining else n) k early st of (c, e, st') \<Rightarrow>
          let left = remaining - length c in
          (c, (case e of
             EOF \<Rightarrow> if left > 0 then Some (Some err_short) else None
           | Broken \<Rightarrow> Some (Some err_read)
           | More \<Rightarrow> None), (st', left))))"

lemma exact_Read_more:
  assumes "r \<noteq> 0" "m = min (if n > r then r else n) (max 1 k)"
  shows "exact_Read n k early ((data, ok), r) =
    (take m data, (if drop m data = [] \<and> (early \<or> data = []) then (if ok then (if r - length (take m data) > 0 then Some (Some err_short) else None)
        else Some (Some err_read)) else None), (drop m data, ok), r - length (take m data))"
  unfolding exact_Read_def raw_read_def Let_def prod.case fst_conv snd_conv assms(2) [symmetric] if_not_P [OF assms(1)]
  by (simp split: if_split)

text \<open>What one read does: it delivers a part, not empty, and goes on, or it ends.\<close>

lemma exact_Read_step:
  assumes "exact_Read (Suc n) k early ((data, ok), r) = (c, e, (st', r'))"
  shows "(e = None \<longrightarrow> c \<noteq> [] \<and> length c \<le> r \<and> (\<exists>rest. data = c @ rest \<and> st' = (rest, ok) \<and> r' = r - length c)) \<and>
    (e = Some None \<longrightarrow> c = [] \<and> r = 0 \<and> data = []) \<and>
    (ok \<and> length data = r \<and> e \<noteq> None \<longrightarrow> e = Some None)"
proof -
  define m where "m = min (if Suc n > r then r else Suc n) (max 1 k)"
  have d: "take m data @ drop m data = data" by simp
  show ?thesis
  proof (cases "r = 0")
    case True
    then show ?thesis using assms by (cases data) (auto simp: exact_Read_def raw_read_def Let_def split: if_splits)
  next
    case False
    then have m: "1 \<le> m" "m \<le> r" by (auto simp: m_def)
    define fin where "fin \<longleftrightarrow> drop m data = [] \<and> (early \<or> data = [])"
    have x: "c = take m data" "st' = (drop m data, ok)" "r' = r - length (take m data)"
      "e = (if fin then (if ok then (if r - length (take m data) > 0 then Some (Some err_short) else None)
        else Some (Some err_read)) else None)"
      using assms unfolding exact_Read_more [OF False m_def] fin_def [symmetric] prod.inject by blast+
    have c: "c \<noteq> []" if "data \<noteq> []" using m that unfolding x(1) by simp
    have l: "length c \<le> r" using m by (simp add: x(1))
    have "e \<noteq> None" if "data = []" using that False by (simp add: x(4) fin_def)
    moreover have "e = None" if "ok" "length data = r"
    proof -
      have "r - length (take m data) = 0" if fin using that \<open>length data = r\<close> by (simp add: fin_def)
      then show ?thesis using that by (auto simp: x(4))
    qed
    moreover have "e \<noteq> Some None" by (auto simp: x(4))
    ultimately show ?thesis using c l d x(2,3) by (metis x(1))
  qed
qed

lemma exact_Read_shrinks:
  "exact_Read (Suc n) k early b = (c, None, b') \<Longrightarrow> length (fst (fst b')) < length (fst (fst b))"
  using exact_Read_step [of n k early "fst (fst b)" "snd (fst b)" "snd b" c None "fst b'" "snd b'"] by auto

text \<open>Reading to the end, as \<open>io.ReadAll\<close> and the age reader do: \<open>ch i\<close> is the buffer of the \<open>i\<close>th read, less
  one, and what the body makes of it.\<close>

function read_all :: "(nat \<Rightarrow> nat \<times> nat \<times> bool) \<Rightarrow> nat \<Rightarrow> (bytes \<times> bool) \<times> nat \<Rightarrow> bytes \<times> cli_error option" where
  "read_all ch i b =
     (case ch i of (n, k, early) \<Rightarrow>
        (case exact_Read (Suc n) k early b of
           (c, Some e, _) \<Rightarrow> (c, e)
         | (c, None, b') \<Rightarrow> (case read_all ch (Suc i) b' of (cs, e) \<Rightarrow> (c @ cs, e))))"
  by pat_completeness auto

termination read_all
proof (relation "measure (\<lambda>(ch, i, b). length (fst (fst b)))", goal_cases)
  case prems: (2 ch i b)
  then show ?case using exact_Read_shrinks by auto (metis prod.collapse)
qed simp

declare read_all.simps [simp del]

text \<open>However the reads fall, a body that is read without error is the whole body and has the recorded size,
  and a body of that size that ends well is read without error.\<close>

lemma read_all_exact:
  "(snd (read_all ch i ((data, ok), r)) = None \<longrightarrow> fst (read_all ch i ((data, ok), r)) = data \<and> length data = r) \<and>
   (ok \<and> length data = r \<longrightarrow> read_all ch i ((data, ok), r) = (data, None))"
proof (induction "length data" arbitrary: data r i rule: less_induct)
  case less
  obtain n k early where ch: "ch i = (n, k, early)" using prod_cases3 by blast
  obtain c e st' r' where x: "exact_Read (Suc n) k early ((data, ok), r) = (c, e, (st', r'))" by (metis surj_pair)
  note step = exact_Read_step [OF x]
  show ?case
  proof (cases e)
    case (Some f)
    then have eq: "read_all ch i ((data, ok), r) = (c, f)" unfolding read_all.simps [of ch i] ch prod.case x by simp
    have "f = None \<Longrightarrow> c = [] \<and> r = 0 \<and> data = []" "ok \<and> length data = r \<Longrightarrow> f = None"
      using step [unfolded Some] by blast+
    then show ?thesis unfolding eq fst_conv snd_conv prod.inject by (metis list.size(3))
  next
    case None
    obtain rest where rest: "data = c @ rest" "st' = (rest, ok)" "r' = r - length c" "c \<noteq> []" "length c \<le> r"
      using step [unfolded None] by blast
    have eq: "read_all ch i ((data, ok), r) = (case read_all ch (Suc i) ((rest, ok), r') of (cs, e) \<Rightarrow> (c @ cs, e))"
      unfolding read_all.simps [of ch i] ch prod.case x using None rest(2) by simp
    have "length rest < length data" using rest by auto
    note IH = less [OF this, of "Suc i" r']
    obtain cs f where cs: "read_all ch (Suc i) ((rest, ok), r') = (cs, f)" by fastforce
    have "length data = r \<longleftrightarrow> length rest = r'" using rest by auto
    then show ?thesis using IH unfolding eq cs prod.case fst_conv snd_conv prod.inject using rest(1) by (metis same_append_eq)
  qed
qed

end
