(* ===== verification/Client_Paths.thy ===== *)
theory Client_Paths
  imports Client_Address Go_Time
begin

text \<open>
  Path arithmetic of the command-line client: the functions of Go's \<open>path/filepath\<close> (on Unix) that
  src/internal/flickcli/open.go uses, the reduction of a sender's file name to a name inside the output
  directory, and the numbered names tried when that name is taken. Both can only name entries of the
  directory.
\<close>

subsection \<open>Paths\<close>

fun join_with :: "string \<Rightarrow> string list \<Rightarrow> string" where
  "join_with sep [] = []"
| "join_with sep [x] = x"
| "join_with sep (x # xs) = x @ sep @ join_with sep xs"

fun clean_parts :: "bool \<Rightarrow> string list \<Rightarrow> string list \<Rightarrow> string list" where
  "clean_parts rooted stack [] = rev stack"
| "clean_parts rooted stack (p # ps) =
     (if p = [] \<or> p = ''.'' then clean_parts rooted stack ps
      else if p = ''..'' then
        (case stack of
           [] \<Rightarrow> clean_parts rooted (if rooted then [] else [''..'']) ps
         | t # ts \<Rightarrow> clean_parts rooted (if t = ''..'' then ''..'' # stack else ts) ps)
      else clean_parts rooted (p # stack) ps)"

text \<open>\<open>filepath.Clean\<close>, \<open>Join\<close> of two elements, \<open>Base\<close>, \<open>Dir\<close> and \<open>Ext\<close>.\<close>

definition Clean :: "string \<Rightarrow> string" where
  "Clean path =
     (let rooted = hasPrefix path ''/''; parts = clean_parts rooted [] (split_on CHR ''/'' path) in
      if rooted then ''/'' @ join_with ''/'' parts
      else if parts = [] then ''.'' else join_with ''/'' parts)"

definition Join :: "string \<Rightarrow> string \<Rightarrow> string" where
  "Join dir name =
     (if dir = [] then (if name = [] then [] else Clean name) else Clean (dir @ ''/'' @ name))"

definition trim_slashes :: "string \<Rightarrow> string" where
  "trim_slashes s = rev (dropWhile (\<lambda>c. c = CHR ''/'') (rev s))"

definition Base :: "string \<Rightarrow> string" where
  "Base path =
     (if path = [] then ''.''
      else let last = after_last CHR ''/'' (trim_slashes path) in if last = [] then ''/'' else last)"

definition Dir :: "string \<Rightarrow> string" where
  "Dir path = Clean (take (length path - length (after_last CHR ''/'' path)) path)"

definition Ext :: "string \<Rightarrow> string" where
  "Ext path = (let last = after_last CHR ''/'' path in
     if CHR ''.'' \<in> set last then CHR ''.'' # after_last CHR ''.'' last else [])"

definition safeFilename :: "string \<Rightarrow> string" where
  "safeFilename name =
     (let cleaned = Base (map (\<lambda>c. if byte c = 92 then CHR ''/'' else c) name) in
      if cleaned = ''.'' \<or> cleaned = ''..'' \<or> cleaned = ''/'' \<or> cleaned = [] then ''flick-file'' else cleaned)"

definition numberedPath :: "string \<Rightarrow> nat \<Rightarrow> string" where
  "numberedPath path n = take (length path - length (Ext path)) path @ ''-'' @ itoa n @ Ext path"

subsection \<open>Names stay inside their directory\<close>

definition entry_name :: "string \<Rightarrow> bool" where
  "entry_name n \<longleftrightarrow> n \<noteq> [] \<and> n \<noteq> ''.'' \<and> n \<noteq> ''..'' \<and> CHR ''/'' \<notin> set n"

lemma split_on_ne: "split_on c xs \<noteq> []"
  by (induction xs) (auto split: list.splits)

lemma split_on_self: "c \<notin> set n \<Longrightarrow> split_on c n = [n]"
  by (induction n) auto

lemma clean_parts_snoc: "entry_name n \<Longrightarrow> clean_parts rooted stack (ps @ [n]) = clean_parts rooted stack ps @ [n]"
  by (induction rooted stack ps rule: clean_parts.induct) (auto simp: entry_name_def split: list.splits)

lemma join_with_snoc: "join_with sep (ps @ [n]) = (if ps = [] then n else join_with sep ps @ sep @ n)"
  by (induction sep ps rule: join_with.induct) auto

text \<open>The entry \<open>n\<close> of a directory.\<close>

definition entry :: "string \<Rightarrow> string \<Rightarrow> string" where
  "entry dir n = (let d = Clean (if dir = [] then ''.'' else dir) in
     if d = ''.'' then n else if d = ''/'' then ''/'' @ n else d @ ''/'' @ n)"

lemma clean_parts_all:
  assumes "\<And>p. p \<in> set ps \<Longrightarrow> p \<noteq> [] \<Longrightarrow> p \<noteq> ''.'' \<Longrightarrow> P p" "P ''..''"
  shows "\<forall>p\<in>set stack. P p \<Longrightarrow> \<forall>p\<in>set (clean_parts rooted stack ps). P p"
  using assms(1)
proof (induction ps arbitrary: stack)
  case (Cons p ps)
  have IH: "\<forall>p\<in>set st. P p \<Longrightarrow> \<forall>p\<in>set (clean_parts rooted st ps). P p" for st
    using Cons.IH [of st] Cons.prems(2) by (meson list.set_intros(2))
  consider "p = [] \<or> p = ''.''" | "p = ''..''" "stack = []" | t ts where "p = ''..''" "stack = t # ts" | "p \<noteq> []" "p \<noteq> ''.''" "p \<noteq> ''..''"
    using list.exhaust [of stack] by blast
  then show ?case
  proof cases
    case 1
    then show ?thesis using IH [OF Cons.prems(1)] by auto
  next
    case 2
    have "\<forall>p\<in>set (if rooted then [] else [''..'']). P p" using assms(2) by simp
    from IH [OF this] show ?thesis unfolding 2 by simp
  next
    case 4
    have "\<forall>q\<in>set (p # stack). P q" using Cons.prems 4 by simp
    from IH [OF this] show ?thesis using 4 by simp
  next
    case 3
    have "\<forall>p\<in>set (if t = ''..'' then ''..'' # stack else ts). P p"
      using 3(2) Cons.prems(1) assms(2) by (cases "t = ''..''") simp_all
    from IH [OF this] show ?thesis unfolding 3 by simp
  qed
qed simp

lemma split_on_slash_free: "p \<in> set (split_on c xs) \<Longrightarrow> c \<notin> set p"
proof (induction xs arbitrary: p)
  case (Cons x xs)
  obtain w ws where w: "split_on c xs = w # ws" using split_on_ne [of c xs] by (cases "split_on c xs") auto
  with Cons.IH [of w] Cons.IH [of p] Cons.prems show ?case by (auto split: if_splits)
qed simp

definition path_part :: "string \<Rightarrow> bool" where
  "path_part p \<longleftrightarrow> p \<noteq> [] \<and> p \<noteq> ''.'' \<and> CHR ''/'' \<notin> set p"

lemma join_with_parts:
  assumes "\<forall>p\<in>set ps. path_part p"
  shows "join_with ''/'' ps \<noteq> ''.''" "join_with ''/'' ps = [] \<longleftrightarrow> ps = []"
proof -
  consider "ps = []" | x where "ps = [x]" | x y zs where "ps = x # y # zs" by (metis list.exhaust)
  then show "join_with ''/'' ps \<noteq> ''.''" "join_with ''/'' ps = [] \<longleftrightarrow> ps = []"
    using assms by (cases; auto simp: path_part_def append_eq_Cons_conv)+
qed

lemma Clean_entry_parts:
  assumes "entry_name n" "dir \<noteq> []" "hasPrefix path ''/'' = hasPrefix dir ''/''" "split_on CHR ''/'' path = qs @ [n]"
    and "\<And>rooted. clean_parts rooted [] qs = clean_parts rooted [] (split_on CHR ''/'' dir)"
  shows "Clean path = entry dir n"
proof -
  define r where "r = hasPrefix dir ''/''"
  define ps where "ps = clean_parts r [] (split_on CHR ''/'' dir)"
  have sf: "\<forall>p\<in>set ps. path_part p"
    unfolding ps_def by (rule clean_parts_all) (auto simp: path_part_def dest: split_on_slash_free)
  have c: "Clean dir = (if r then ''/'' @ join_with ''/'' ps else if ps = [] then ''.'' else join_with ''/'' ps)"
    by (simp add: Clean_def ps_def r_def Let_def)
  have "Clean path = (if r then ''/'' @ join_with ''/'' (ps @ [n]) else join_with ''/'' (ps @ [n]))"
    unfolding Clean_def Let_def assms(3,4) clean_parts_snoc [OF assms(1)] assms(5) by (simp add: ps_def r_def)
  moreover have "join_with ''/'' ps \<noteq> ''/''" if "\<not> r"
  proof -
    have "hd (join_with ''/'' ps) \<noteq> CHR ''/''" if "ps \<noteq> []"
      using sf that by (cases ps rule: list.exhaust; cases "tl ps") (auto simp: path_part_def dest: hd_in_set)
    then show ?thesis using join_with_parts(2) [OF sf] by (cases "ps = []") auto
  qed
  ultimately show ?thesis
    using assms(2) join_with_parts [OF sf] by (simp add: entry_def c join_with_snoc)
qed

lemma Clean_entry:
  assumes "entry_name n" "dir \<noteq> []"
  shows "Clean (dir @ ''/'' @ n) = entry dir n"
proof (rule Clean_entry_parts [OF assms, of _ "split_on CHR ''/'' dir"])
  show "hasPrefix (dir @ ''/'' @ n) ''/'' = hasPrefix dir ''/''" using assms(2) by (cases dir) (auto simp: hasPrefix_def)
  show "split_on CHR ''/'' (dir @ ''/'' @ n) = split_on CHR ''/'' dir @ [n]"
    using split_on_snoc [of "CHR ''/''" n dir] assms(1) by (simp add: entry_name_def)
qed simp

lemma clean_parts_trailing: "clean_parts rooted stack (ps @ [[]]) = clean_parts rooted stack ps"
  by (induction rooted stack ps rule: clean_parts.induct) (auto split: list.splits)

lemma Clean_entry_slash:
  assumes "entry_name n" "hasSuffix dir ''/''"
  shows "Clean (dir @ n) = entry dir n"
proof -
  have "drop (length dir - 1) dir = ''/''" "dir \<noteq> []" using assms(2) by (auto simp: hasSuffix_def)
  then obtain d where d: "dir = d @ ''/''" by (metis append_take_drop_id)
  show ?thesis
  proof (rule Clean_entry_parts [OF assms(1), of _ _ "split_on CHR ''/'' d"])
    show "dir \<noteq> []" using d by simp
    show "hasPrefix (dir @ n) ''/'' = hasPrefix dir ''/''" using d by (cases d) (auto simp: hasPrefix_def)
    show "split_on CHR ''/'' (dir @ n) = split_on CHR ''/'' d @ [n]"
      using split_on_snoc [of "CHR ''/''" n d] assms(1) by (simp add: d entry_name_def)
    show "clean_parts rooted [] (split_on CHR ''/'' d) = clean_parts rooted [] (split_on CHR ''/'' dir)" for rooted
      using split_on_snoc [of "CHR ''/''" "[]" d] clean_parts_trailing [of rooted "[]" "split_on CHR ''/'' d"] by (simp add: d)
  qed
qed

lemma Clean_self: "entry_name n \<Longrightarrow> Clean n = n"
proof -
  assume n: "entry_name n"
  then have "\<not> hasPrefix n ''/''" by (cases n) (auto simp: hasPrefix_def entry_name_def)
  then show ?thesis using n by (simp add: Clean_def Let_def split_on_self entry_name_def)
qed

lemma Join_entry: "entry_name n \<Longrightarrow> Join dir n = entry dir n"
proof (cases "dir = []")
  case True
  moreover assume n: "entry_name n"
  moreover have "Clean ''.'' = ''.''" by code_simp
  ultimately show ?thesis by (simp add: Join_def Clean_self entry_def entry_name_def)
qed (use Clean_entry in \<open>simp add: Join_def\<close>)

lemma after_last_free: "c \<notin> set (after_last c s)"
  by (auto simp: after_last_def dest: set_takeWhileD)

lemma safeFilename_entry: "entry_name (safeFilename name)"
  by (auto simp: safeFilename_def entry_name_def Let_def Base_def after_last_free split: if_splits)

text \<open>A cleaned path is clean.\<close>

definition clean_form :: "bool \<Rightarrow> string list \<Rightarrow> bool" where
  "clean_form rooted ps \<longleftrightarrow> (\<exists>k ns. ps = replicate k ''..'' @ ns \<and> ''..'' \<notin> set ns \<and> (rooted \<longrightarrow> k = 0))"

lemma clean_form_snoc: "clean_form rooted ps \<Longrightarrow> p \<noteq> ''..'' \<Longrightarrow> clean_form rooted (ps @ [p])"
proof -
  assume "clean_form rooted ps" and p: "p \<noteq> ''..''"
  then obtain k ns where "ps = replicate k ''..'' @ ns" "''..'' \<notin> set ns" "rooted \<longrightarrow> k = 0"
    by (auto simp: clean_form_def)
  then show ?thesis using p unfolding clean_form_def by (intro exI [of _ k] exI [of _ "ns @ [p]"]) auto
qed

lemma clean_form_up: "clean_form rooted (ps @ [t]) \<Longrightarrow> t = ''..'' \<Longrightarrow> \<not> rooted \<and> clean_form False (ps @ [t, ''..''])"
proof -
  assume "clean_form rooted (ps @ [t])" "t = ''..''"
  then obtain k ns where k: "ps @ [''..''] = replicate k ''..'' @ ns" "''..'' \<notin> set ns" "rooted \<longrightarrow> k = 0"
    by (auto simp: clean_form_def)
  then have ns: "ns = []" by (cases ns rule: rev_cases) auto
  with k(1) have ps: "ps @ [''..''] = replicate k ''..''" by simp
  then have "(ps @ [''..'']) @ [''..''] = replicate (Suc k) ''..''" "k \<noteq> 0"
    by (simp_all only: replicate_append_same replicate_Suc) (cases k; simp)
  then have "ps @ [''..'', ''..''] = replicate (Suc k) ''..''" "k \<noteq> 0" by simp_all
  with k(3) \<open>t = ''..''\<close> show ?thesis unfolding clean_form_def by (metis append_Nil2 empty_iff list.set(1))
qed

lemma clean_form_butlast: "clean_form rooted (ps @ [t]) \<Longrightarrow> t \<noteq> ''..'' \<Longrightarrow> clean_form rooted ps"
proof -
  assume "clean_form rooted (ps @ [t])" and t: "t \<noteq> ''..''"
  then obtain k ns where k: "ps @ [t] = replicate k ''..'' @ ns" "''..'' \<notin> set ns" "rooted \<longrightarrow> k = 0"
    by (auto simp: clean_form_def)
  have "ns \<noteq> []"
  proof
    assume "ns = []"
    then have "t \<in> set (replicate k ''..'')" using k(1) by (metis append_Nil2 in_set_conv_decomp)
    then show False using t by simp
  qed
  then obtain ns' where "ns = ns' @ [t]" using k(1) by (metis append_butlast_last_id last_appendR last_snoc)
  with k show ?thesis by (auto simp: clean_form_def)
qed

lemma clean_parts_form: "clean_form rooted (rev stack) \<Longrightarrow> clean_form rooted (clean_parts rooted stack ps)"
proof (induction ps arbitrary: stack)
  case (Cons p ps)
  consider "p = [] \<or> p = ''.''" | "p = ''..''" "stack = []" | t ts where "p = ''..''" "stack = t # ts"
    | "p \<noteq> []" "p \<noteq> ''.''" "p \<noteq> ''..''"
    using list.exhaust [of stack] by blast
  then show ?case
  proof cases
    case 1
    then show ?thesis using Cons.IH [OF Cons.prems] by auto
  next
    case 2
    have "clean_form rooted (rev (if rooted then [] else [''..'']))"
      unfolding clean_form_def by (rule exI [of _ "if rooted then 0 else 1"]) auto
    from Cons.IH [OF this] show ?thesis unfolding 2 by simp
  next
    case 3
    have "clean_form rooted (rev (if t = ''..'' then ''..'' # stack else ts))"
      using Cons.prems clean_form_up [of rooted "rev ts" t] clean_form_butlast [of rooted "rev ts" t] unfolding 3(2)
      by (cases "t = ''..''") simp_all
    from Cons.IH [OF this] show ?thesis unfolding 3 by simp
  next
    case 4
    have "clean_form rooted (rev (p # stack))" using clean_form_snoc [OF Cons.prems 4(3)] by simp
    from Cons.IH [OF this] show ?thesis using 4 by simp
  qed
qed simp

lemma clean_parts_names:
  "\<forall>p\<in>set ns. path_part p \<Longrightarrow> ''..'' \<notin> set ns \<Longrightarrow> clean_parts rooted stack ns = rev stack @ ns"
  by (induction ns arbitrary: stack) (auto simp: path_part_def)

lemma clean_parts_id:
  assumes "clean_form rooted ps" "\<forall>p\<in>set ps. path_part p"
  shows "clean_parts rooted [] ps = ps"
proof -
  obtain k ns where ps: "ps = replicate k ''..'' @ ns" "''..'' \<notin> set ns" "rooted \<longrightarrow> k = 0" using assms(1) by (auto simp: clean_form_def)
  have up: "clean_parts False (replicate j ''..'') (replicate k ''..'' @ ns) = replicate (j + k) ''..'' @ ns" for j
  proof (induction k arbitrary: j)
    case 0
    then show ?case using clean_parts_names [of ns False "replicate j ''..''"] assms(2) ps by simp
  next
    case (Suc k)
    show ?case using Suc [of "Suc j"] by (cases j) simp_all
  qed
  show ?thesis
  proof (cases rooted)
    case True
    then show ?thesis using ps assms(2) clean_parts_names [of ps rooted "[]"] by simp
  next
    case False
    then show ?thesis using up [of 0] ps by simp
  qed
qed

lemma split_join:
  assumes "\<forall>p\<in>set ps. path_part p" "ps \<noteq> []"
  shows "split_on CHR ''/'' (join_with ''/'' ps) = ps"
  using assms
proof (induction ps rule: rev_induct)
  case (snoc p ps)
  then show ?case
    using split_on_self [of "CHR ''/''" p] split_on_snoc [of "CHR ''/''" p "join_with ''/'' ps"]
    by (cases "ps = []") (auto simp: join_with_snoc path_part_def)
qed simp

lemma Clean_Clean [simp]: "Clean (Clean path) = Clean path"
proof -
  define r where "r = hasPrefix path ''/''"
  define ps where "ps = clean_parts r [] (split_on CHR ''/'' path)"
  have sf: "\<forall>p\<in>set ps. path_part p"
    unfolding ps_def by (rule clean_parts_all) (auto simp: path_part_def dest: split_on_slash_free)
  have id: "clean_parts r [] ps = ps"
    unfolding ps_def by (rule clean_parts_id [OF clean_parts_form]) (use sf in \<open>auto simp: clean_form_def ps_def\<close>)
  have c: "Clean path = (if r then ''/'' @ join_with ''/'' ps else if ps = [] then ''.'' else join_with ''/'' ps)"
    by (simp add: Clean_def ps_def r_def Let_def)
  have hd: "\<not> hasPrefix (join_with ''/'' ps) ''/''" if "ps \<noteq> []"
    using sf that by (cases ps rule: list.exhaust; cases "tl ps") (auto simp: path_part_def hasPrefix_def take_Suc dest: hd_in_set split: list.splits)
  show ?thesis
  proof (cases "ps = []")
    case True
    have "Clean ''/'' = ''/''" "Clean ''.'' = ''.''" by code_simp+
    with True c show ?thesis by auto
  next
    case False
    have "split_on CHR ''/'' (''/'' @ join_with ''/'' ps) = [] # ps" using split_join [OF sf False] by simp
    moreover have "hasPrefix (''/'' @ join_with ''/'' ps) ''/''" by (rule hasPrefix_append)
    ultimately show ?thesis
      unfolding c using False id hd [OF False] split_join [OF sf False] by (auto simp: Clean_def Let_def)
  qed
qed

lemma Clean_of_entry [simp]: "entry_name n \<Longrightarrow> Clean (entry dir n) = entry dir n"
proof (cases "dir = []")
  case True
  moreover assume n: "entry_name n"
  moreover have "Clean ''.'' = ''.''" by code_simp
  ultimately show ?thesis by (simp add: entry_def Clean_self)
next
  case False
  assume n: "entry_name n"
  from Clean_entry [OF this False] show ?thesis by (metis Clean_Clean)
qed

lemma entry_prefix: "\<exists>pre. (pre = [] \<or> last pre = CHR ''/'') \<and> (\<forall>n. entry dir n = pre @ n)"
proof -
  let ?d = "Clean (if dir = [] then ''.'' else dir)"
  show ?thesis
    by (rule exI [of _ "if ?d = ''.'' then [] else if ?d = ''/'' then ''/'' else ?d @ ''/''"]) (simp add: entry_def Let_def)
qed

lemma numberedPath_entry:
  assumes "entry_name n"
  shows "numberedPath (entry dir n) k = entry dir (numberedPath n k)" "entry_name (numberedPath n k)"
proof -
  obtain pre where pre: "pre = [] \<or> last pre = CHR ''/''" "\<And>n. entry dir n = pre @ n" using entry_prefix by metis
  have free: "CHR ''/'' \<notin> set n" "n \<noteq> []" using assms by (auto simp: entry_name_def)
  have all: "takeWhile (\<lambda>x. x \<noteq> CHR ''/'') (rev n) = rev n" using free by (auto simp: takeWhile_eq_all_conv)
  have last: "after_last CHR ''/'' (pre @ n) = n"
  proof (cases pre rule: rev_cases)
    case (snoc qs q)
    then have "pre = qs @ ''/''" using pre(1) by simp
    then show ?thesis using all by (simp add: after_last_def takeWhile_append)
  qed (simp add: after_last_def all)
  have self: "after_last CHR ''/'' n = n" by (simp add: after_last_def all)
  have ext: "Ext (pre @ n) = Ext n" unfolding Ext_def last self ..
  have len: "length (Ext n) \<le> length n"
  proof (cases "CHR ''.'' \<in> set n")
    case True
    have "length (takeWhile (\<lambda>x. x \<noteq> CHR ''.'') (rev n)) \<noteq> length (rev n)"
    proof
      assume "length (takeWhile (\<lambda>x. x \<noteq> CHR ''.'') (rev n)) = length (rev n)"
      then have "takeWhile (\<lambda>x. x \<noteq> CHR ''.'') (rev n) = rev n" by (metis takeWhile_eq_take take_all_iff order_refl)
      then show False using True by (metis set_rev set_takeWhileD)
    qed
    then show ?thesis using length_takeWhile_le [of "\<lambda>x. x \<noteq> CHR ''.''" "rev n"] True unfolding Ext_def self Let_def
      by (simp add: after_last_def)
  qed (simp add: Ext_def self)
  show "numberedPath (entry dir n) k = entry dir (numberedPath n k)"
    unfolding numberedPath_def pre(2) ext using len by simp
  have "CHR ''/'' \<notin> set (Ext n)"
    using free by (auto simp: Ext_def self after_last_def Let_def dest: set_takeWhileD split: if_splits)
  moreover have "CHR ''/'' \<notin> set (itoa k)"
  proof -
    have "48 \<le> byte c" if "c \<in> set (itoa k)" for c
      using that by (induction k rule: itoa.induct) (subst (asm) itoa.simps, auto simp: byte_digit split: if_splits)
    then show ?thesis by force
  qed
  ultimately have "CHR ''/'' \<notin> set (numberedPath n k)" using free by (auto simp: numberedPath_def dest: in_set_takeD)
  moreover have "CHR ''-'' \<in> set (numberedPath n k)" by (simp add: numberedPath_def)
  ultimately show "entry_name (numberedPath n k)" by (auto simp: entry_name_def)
qed

end
