(* ===== verification/Client_Files.thy ===== *)
theory Client_Files
  imports Client_Paths
begin

text \<open>
  Where the command-line client puts what it opened (src/internal/flickcli/open.go): the
  destination reserved before the secret is consumed, the staging file and its move into place. A disk maps
  cleaned paths to contents. The operating system is a parameter: which call fails with which error, the
  names it draws for temporary files and how much of a failing write it did. Whatever makes a call fail
  other than an existing name is such a failure; symbolic links are not part of the disk.
\<close>

subsection \<open>The disk\<close>

record disk =
  files :: "string \<Rightarrow> bytes option"
  is_dir :: "string \<Rightarrow> bool"

datatype os_error = ErrExist | OsError string

record os =
  os_fails :: "string \<Rightarrow> nat \<Rightarrow> string option"
  os_temp :: "string \<Rightarrow> string"
  os_written :: "string \<Rightarrow> nat"

definition put_file :: "string \<Rightarrow> bytes \<Rightarrow> disk \<Rightarrow> disk" where
  "put_file path c d = d\<lparr>files := (files d)(Clean path \<mapsto> c)\<rparr>"

definition drop_file :: "string \<Rightarrow> disk \<Rightarrow> disk" where
  "drop_file path d = d\<lparr>files := (files d)(Clean path := None)\<rparr>"

definition taken :: "string \<Rightarrow> disk \<Rightarrow> bool" where
  "taken path d \<longleftrightarrow> files d (Clean path) \<noteq> None \<or> is_dir d (Clean path)"

text \<open>\<open>os.OpenFile\<close> with \<open>O\_CREATE|O\_EXCL\<close>, \<open>os.CreateTemp\<close> (the last of the names it tries), \<open>os.Remove\<close>
  and \<open>os.Link\<close>. A hard link shares its contents with the linked name; nothing is written after a link is
  made, so that it is a second copy.\<close>

definition open_excl :: "os \<Rightarrow> string \<Rightarrow> nat \<Rightarrow> string \<Rightarrow> disk \<Rightarrow> os_error option \<times> disk" where
  "open_excl S what k path d =
     (if taken path d then (Some ErrExist, d)
      else case os_fails S what k of Some err \<Rightarrow> (Some (OsError err), d) | None \<Rightarrow> (None, put_file path [] d))"

definition create_temp :: "os \<Rightarrow> string \<Rightarrow> string \<Rightarrow> string \<Rightarrow> disk \<Rightarrow> (os_error + string) \<times> disk" where
  "create_temp S what dir pre d =
     (let path = (if hasSuffix dir ''/'' then dir else dir @ ''/'') @ pre @ os_temp S what in
      case open_excl S what 0 path d of (Some err, d') \<Rightarrow> (Inl err, d') | (None, d') \<Rightarrow> (Inr path, d'))"

definition remove_file :: "os \<Rightarrow> string \<Rightarrow> string \<Rightarrow> disk \<Rightarrow> string option \<times> disk" where
  "remove_file S what path d =
     (case os_fails S what 0 of
        Some err \<Rightarrow> (Some err, d)
      | None \<Rightarrow> (if files d (Clean path) = None then Some ''no such file'' else None, drop_file path d))"

definition link_file :: "os \<Rightarrow> nat \<Rightarrow> string \<Rightarrow> string \<Rightarrow> disk \<Rightarrow> os_error option \<times> disk" where
  "link_file S k old new d =
     (if taken new d then (Some ErrExist, d)
      else case os_fails S ''link'' k of
        Some err \<Rightarrow> (Some (OsError err), d)
      | None \<Rightarrow>
          (case files d (Clean old) of
             None \<Rightarrow> (Some (OsError ''no such file''), d)
           | Some c \<Rightarrow> (None, put_file new c d)))"

subsection \<open>Destinations\<close>

record out_options =
  OutputPath :: string
  OutputDir :: string

record destination =
  dt_held :: bool
  dt_path :: string

definition discard :: "os \<Rightarrow> destination \<Rightarrow> disk \<Rightarrow> disk" where
  "discard S r d = (if dt_held r then snd (remove_file S ''discard'' (dt_path r) d) else d)"

definition checkWritableDir :: "os \<Rightarrow> string \<Rightarrow> disk \<Rightarrow> string option \<times> disk" where
  "checkWritableDir S dir0 d =
     (let dir = (if dir0 = [] then ''.'' else dir0) in
      case os_fails S ''stat'' 0 of
        Some err \<Rightarrow> (Some (''output directory is not usable: '' @ err), d)
      | None \<Rightarrow>
          if \<not> taken dir d then (Some ''output directory is not usable: no such file'', d)
          else if \<not> is_dir d (Clean dir) then (Some (dir @ '' is not a directory''), d)
          else (case create_temp S ''probe'' dir ''.flick-write-check-'' d of
            (Inl _, d') \<Rightarrow> (Some ''output directory is not writable'', d')
          | (Inr probe, d') \<Rightarrow> remove_file S ''remove probe'' probe d'))"

definition reserveDestination ::
  "os \<Rightarrow> 'o out_options_scheme \<Rightarrow> string \<Rightarrow> disk \<Rightarrow> (string + destination) \<times> disk" where
  "reserveDestination S opts kind d =
     (if OutputPath opts \<noteq> [] then
        (case open_excl S ''reserve'' 0 (OutputPath opts) d of
           (Some ErrExist, d') \<Rightarrow> (Inl (OutputPath opts @ '' already exists''), d')
         | (Some (OsError err), d') \<Rightarrow> (Inl err, d')
         | (None, d') \<Rightarrow> (Inr \<lparr>dt_held = True, dt_path = OutputPath opts\<rparr>, d'))
      else if kind \<noteq> ''file'' then (Inr \<lparr>dt_held = False, dt_path = []\<rparr>, d)
      else (case checkWritableDir S (OutputDir opts) d of
        (Some err, d') \<Rightarrow> (Inl err, d')
      | (None, d') \<Rightarrow> (Inr \<lparr>dt_held = False, dt_path = []\<rparr>, d')))"

text \<open>\<open>file.Write\<close> and \<open>Sync\<close>: a failing write has written a part.\<close>

definition write_synced :: "os \<Rightarrow> string \<Rightarrow> string \<Rightarrow> bytes \<Rightarrow> disk \<Rightarrow> string option \<times> disk" where
  "write_synced S what path c d =
     (case os_fails S what 0 of
        Some err \<Rightarrow> (Some err, put_file path (take (os_written S what) c) d)
      | None \<Rightarrow> (os_fails S what 1, put_file path c d))"

definition writeText :: "os \<Rightarrow> destination \<Rightarrow> bytes \<Rightarrow> disk \<Rightarrow> string option \<times> disk" where
  "writeText S r payload d = write_synced S ''write text'' (dt_path r) payload d"

definition stage :: "os \<Rightarrow> 'o out_options_scheme \<Rightarrow> destination \<Rightarrow> disk \<Rightarrow> (os_error + string) \<times> disk" where
  "stage S opts r d =
     (let dir = (if dt_held r then Dir (dt_path r) else OutputDir opts) in
      create_temp S ''stage'' (if dir = [] then ''.'' else dir) ''.flick-partial-'' d)"

definition copyExclusive :: "os \<Rightarrow> nat \<Rightarrow> string \<Rightarrow> string \<Rightarrow> disk \<Rightarrow> os_error option \<times> disk" where
  "copyExclusive S k src dst d =
     (case (os_fails S ''open source'' k, files d (Clean src)) of
        (Some err, _) \<Rightarrow> (Some (OsError err), d)
      | (None, None) \<Rightarrow> (Some (OsError ''no such file''), d)
      | (None, Some c) \<Rightarrow>
          (case open_excl S ''create copy'' k dst d of
             (Some err, d') \<Rightarrow> (Some err, d')
           | (None, d') \<Rightarrow>
               (case write_synced S ''copy'' dst c d' of
                  (Some err, d'') \<Rightarrow> (Some (OsError err), snd (remove_file S ''remove copy'' dst d''))
                | (None, d'') \<Rightarrow> (map_option OsError (os_fails S ''close copy'' k), d''))))"

definition place_at :: "os \<Rightarrow> nat \<Rightarrow> string \<Rightarrow> string \<Rightarrow> disk \<Rightarrow> os_error option \<times> disk" where
  "place_at S k staged candidate d =
     (case link_file S k staged candidate d of
        (Some (OsError _), d') \<Rightarrow> copyExclusive S k staged candidate d'
      | r \<Rightarrow> r)"

text \<open>The loop over the hundred candidates, \<open>n\<close> of them left. The result is the path written, if any, and
  the error, if any.\<close>

fun place_loop :: "os \<Rightarrow> string \<Rightarrow> string \<Rightarrow> nat \<Rightarrow> disk \<Rightarrow> (string \<times> string option) \<times> disk" where
  "place_loop S target staged 0 d = (([], Some (''could not find an unused filename near '' @ target)), d)"
| "place_loop S target staged (Suc n) d =
     (let attempt = 99 - n; candidate = (if attempt > 0 then numberedPath target attempt else target) in
      case place_at S attempt staged candidate d of
        (Some ErrExist, d') \<Rightarrow> place_loop S target staged n d'
      | (Some (OsError err), d') \<Rightarrow> (([], Some err), d')
      | (None, d') \<Rightarrow>
          (case remove_file S ''remove staging'' staged d' of
             (Some err, d'') \<Rightarrow> ((candidate, Some (''saved, but could not remove the staging link: '' @ err)), d'')
           | (None, d'') \<Rightarrow> ((candidate, None), d'')))"

definition placeFile ::
  "os \<Rightarrow> 'o out_options_scheme \<Rightarrow> string \<Rightarrow> string \<Rightarrow> disk \<Rightarrow> (string \<times> string option) \<times> disk" where
  "placeFile S opts filename staged d = place_loop S (Join (OutputDir opts) (safeFilename filename)) staged 100 d"

definition place ::
  "os \<Rightarrow> 'o out_options_scheme \<Rightarrow> destination \<Rightarrow> string \<Rightarrow> string \<Rightarrow> disk \<Rightarrow> (string \<times> string option) \<times> disk" where
  "place S opts r filename staged d =
     (case os_fails S ''close staged'' 0 of
        Some err \<Rightarrow> (([], Some err), d)
      | None \<Rightarrow>
          if dt_held r then
            (case (os_fails S ''rename'' 0, files d (Clean staged)) of
               (None, Some c) \<Rightarrow> ((dt_path r, None), put_file (dt_path r) c (drop_file staged d))
             | (Some err, _) \<Rightarrow> (([], Some err), d)
             | (None, None) \<Rightarrow> (([], Some ''no such file''), d))
          else placeFile S opts filename staged d)"

subsection \<open>What an operation leaves alone\<close>

text \<open>\<open>keeps d0 d\<close>: every file of \<open>d0\<close> is still on \<open>d\<close> with its contents, and what is new is at a place
  that \<open>ok\<close> allows.\<close>

definition keeps :: "(string \<Rightarrow> bool) \<Rightarrow> disk \<Rightarrow> disk \<Rightarrow> bool" where
  "keeps ok d0 d \<longleftrightarrow> is_dir d = is_dir d0 \<and>
     (\<forall>p. (files d0 p \<noteq> None \<longrightarrow> files d p = files d0 p) \<and> (files d0 p = None \<and> files d p \<noteq> None \<longrightarrow> ok p))"

lemma keeps_refl [simp]: "keeps ok d d"
  by (auto simp: keeps_def)

lemma keeps_free: "keeps ok d0 d \<Longrightarrow> files d p = None \<Longrightarrow> files d0 p = None"
  unfolding keeps_def by metis

lemma keeps_put: "keeps ok d0 d \<Longrightarrow> files d0 (Clean path) = None \<Longrightarrow> ok (Clean path) \<Longrightarrow> keeps ok d0 (put_file path c d)"
  by (auto simp: keeps_def put_file_def)

lemma keeps_drop: "keeps ok d0 d \<Longrightarrow> files d0 (Clean path) = None \<Longrightarrow> keeps ok d0 (drop_file path d)"
  by (auto simp: keeps_def drop_file_def)

lemma keeps_remove: "keeps ok d0 d \<Longrightarrow> files d0 (Clean path) = None \<Longrightarrow> keeps ok d0 (snd (remove_file S what path d))"
  by (auto simp: remove_file_def keeps_drop split: option.split)

lemma keeps_open_excl:
  assumes "keeps ok d0 d" "open_excl S what k path d = (r, d')" "ok (Clean path)"
  shows "keeps ok d0 d'" "r = None \<Longrightarrow> files d0 (Clean path) = None \<and> files d (Clean path) = None \<and> d' = put_file path [] d"
  using assms keeps_put [OF assms(1)] keeps_free [OF assms(1)]
  by (auto simp: open_excl_def taken_def split: if_splits option.splits)

lemma keeps_write:
  assumes "keeps ok d0 d" "files d0 (Clean path) = None" "ok (Clean path)"
  shows "keeps ok d0 (snd (write_synced S what path c d))"
  using assms keeps_put by (auto simp: write_synced_def split: option.split)

subsection \<open>Where files may appear\<close>

definition out_dir :: "'o out_options_scheme \<Rightarrow> string" where
  "out_dir opts = (if OutputPath opts \<noteq> [] then Dir (OutputPath opts) else if OutputDir opts = [] then ''.'' else OutputDir opts)"

definition allowed :: "'o out_options_scheme \<Rightarrow> string \<Rightarrow> bool" where
  "allowed opts p \<longleftrightarrow> (OutputPath opts \<noteq> [] \<and> p = Clean (OutputPath opts)) \<or> (\<exists>n. entry_name n \<and> p = entry (out_dir opts) n)"

definition temp_names_ok :: "os \<Rightarrow> bool" where
  "temp_names_ok S \<longleftrightarrow> (\<forall>what. CHR ''/'' \<notin> set (os_temp S what))"

lemma keeps_create_temp:
  assumes "keeps ok d0 d" "create_temp S what dir pre d = (r, d')" "\<And>n. entry_name n \<Longrightarrow> ok (entry dir n)"
    and "temp_names_ok S" "entry_name pre" "2 < length pre" "dir \<noteq> []"
  shows "keeps ok d0 d'" "r = Inr path \<Longrightarrow> files d0 (Clean path) = None \<and> ok (Clean path) \<and> files d (Clean path) = None \<and> d' = put_file path [] d"
proof -
  let ?n = "pre @ os_temp S what"
  let ?p = "(if hasSuffix dir ''/'' then dir else dir @ ''/'') @ ?n"
  have n: "entry_name ?n"
    using assms(4-6) by (auto simp: entry_name_def temp_names_ok_def append_eq_Cons_conv)
  have "Clean ?p = entry dir ?n"
    using Clean_entry [OF n assms(7)] Clean_entry_slash [OF n, of dir] by simp
  with assms(3) [OF n] have ok: "ok (Clean ?p)" by simp
  obtain e d1 where o: "open_excl S what 0 ?p d = (e, d1)" by (cases "open_excl S what 0 ?p d")
  note k = keeps_open_excl [OF assms(1) o ok]
  show "keeps ok d0 d'" using assms(2) k(1) by (auto simp: create_temp_def Let_def o split: option.splits)
  show "r = Inr path \<Longrightarrow> files d0 (Clean path) = None \<and> ok (Clean path) \<and> files d (Clean path) = None \<and> d' = put_file path [] d"
    using assms(2) k(2) ok by (auto simp: create_temp_def Let_def o split: option.splits)
qed

lemma Dir_ne: "Dir path \<noteq> []"
proof -
  have "Clean p \<noteq> []" for p
  proof -
    define r where "r = hasPrefix p ''/''"
    define ps where "ps = clean_parts r [] (split_on CHR ''/'' p)"
    have sf: "\<forall>p\<in>set ps. path_part p"
      unfolding ps_def by (rule clean_parts_all) (auto simp: path_part_def dest: split_on_slash_free)
    have "Clean p = (if r then ''/'' @ join_with ''/'' ps else if ps = [] then ''.'' else join_with ''/'' ps)"
      by (simp add: Clean_def ps_def r_def Let_def)
    then show ?thesis using join_with_parts(2) [OF sf] by auto
  qed
  then show ?thesis by (simp add: Dir_def)
qed

lemma keeps_reserve:
  assumes "reserveDestination S opts kind d = (r, d')" "temp_names_ok S"
  shows "keeps (allowed opts) d d'"
    and "r = Inr dest \<Longrightarrow> dt_held dest = (OutputPath opts \<noteq> []) \<and>
      (dt_held dest \<longrightarrow> dt_path dest = OutputPath opts \<and> files d (Clean (OutputPath opts)) = None \<and> d' = put_file (OutputPath opts) [] d)"
proof -
  have ok: "OutputPath opts \<noteq> [] \<Longrightarrow> allowed opts (Clean (OutputPath opts))"
    "\<And>n. OutputPath opts = [] \<Longrightarrow> entry_name n \<Longrightarrow> allowed opts (entry (if OutputDir opts = [] then ''.'' else OutputDir opts) n)"
    by (auto simp: allowed_def out_dir_def)
  have chk: "keeps (allowed opts) d d1" if "OutputPath opts = []" "checkWritableDir S (OutputDir opts) d = (e, d1)" for e d1
  proof -
    let ?dir = "if OutputDir opts = [] then ''.'' else OutputDir opts"
    obtain rt d2 where ct: "create_temp S ''probe'' ?dir ''.flick-write-check-'' d = (rt, d2)" by fastforce
    have pre: "entry_name ''.flick-write-check-''" by (simp add: entry_name_def)
    note k = keeps_create_temp [where ok = "allowed opts" and dir = ?dir, OF keeps_refl ct ok(2) [OF that(1)] assms(2) pre]
    show ?thesis
    proof (cases rt)
      case (Inl err)
      then show ?thesis using that(2) k(1) ct by (auto simp: checkWritableDir_def Let_def split: option.splits if_splits)
    next
      case (Inr probe)
      then have "keeps (allowed opts) d (snd (remove_file S ''remove probe'' probe d2))" using k keeps_remove by auto
      then show ?thesis using that(2) Inr ct by (auto simp: checkWritableDir_def Let_def split: option.splits if_splits)
    qed
  qed
  show "keeps (allowed opts) d d'"
  proof (cases "OutputPath opts = []")
    case True
    then show ?thesis using assms(1) chk [OF True] by (auto simp: reserveDestination_def split: if_splits prod.splits option.splits)
  next
    case False
    obtain e d1 where o: "open_excl S ''reserve'' 0 (OutputPath opts) d = (e, d1)" by fastforce
    show ?thesis using assms(1) False keeps_open_excl(1) [where ok = "allowed opts", OF keeps_refl o ok(1) [OF False]]
      by (auto simp: reserveDestination_def o split: option.splits os_error.splits)
  qed
  show "r = Inr dest \<Longrightarrow> dt_held dest = (OutputPath opts \<noteq> []) \<and>
      (dt_held dest \<longrightarrow> dt_path dest = OutputPath opts \<and> files d (Clean (OutputPath opts)) = None \<and> d' = put_file (OutputPath opts) [] d)"
    using assms(1)
    by (auto simp: reserveDestination_def open_excl_def taken_def split: option.splits if_splits prod.splits os_error.splits)
qed

lemma keeps_copyExclusive:
  assumes "keeps ok d0 d" "copyExclusive S k src dst d = (r, d')" "ok (Clean dst)" "Clean src \<noteq> Clean dst"
  shows "keeps ok d0 d'"
    and "files d (Clean src) = Some c \<Longrightarrow> files d' (Clean src) = Some c"
    and "r = None \<Longrightarrow> files d (Clean src) = Some c \<Longrightarrow> files d' (Clean dst) = Some c"
proof -
  obtain e d1 where o: "open_excl S ''create copy'' k dst d = (e, d1)" by fastforce
  note op = keeps_open_excl [OF assms(1) o assms(3)]
  have w: "keeps ok d0 (snd (write_synced S ''copy'' dst x d1))" "keeps ok d0 (snd (remove_file S ''remove copy'' dst (snd (write_synced S ''copy'' dst x d1))))"
    if "e = None" for x
  proof -
    show "keeps ok d0 (snd (write_synced S ''copy'' dst x d1))" using that op assms(3) by (auto intro: keeps_write)
    then show "keeps ok d0 (snd (remove_file S ''remove copy'' dst (snd (write_synced S ''copy'' dst x d1))))"
      using that op by (auto intro: keeps_remove)
  qed
  show "keeps ok d0 d'"
  proof (cases "files d (Clean src)")
    case (Some x)
    obtain f d2 where ws: "write_synced S ''copy'' dst x d1 = (f, d2)" by fastforce
    show ?thesis using assms(1,2) op(1) w [of x] Some o ws by (auto simp: copyExclusive_def split: option.splits)
  qed (use assms(1,2) in \<open>auto simp: copyExclusive_def split: option.splits\<close>)
  show "files d (Clean src) = Some c \<Longrightarrow> files d' (Clean src) = Some c"
    "r = None \<Longrightarrow> files d (Clean src) = Some c \<Longrightarrow> files d' (Clean dst) = Some c"
    using assms(2,4)
    by (auto simp: copyExclusive_def open_excl_def write_synced_def remove_file_def put_file_def drop_file_def
        split: option.splits if_splits)
qed

lemma keeps_place_at:
  assumes "keeps ok d0 d" "place_at S k staged cand d = (r, d')" "ok (Clean cand)" "files d (Clean staged) = Some c"
  shows "keeps ok d0 d' \<and> files d' (Clean staged) = Some c \<and>
    (r = None \<longrightarrow> files d' (Clean cand) = Some c \<and> Clean cand \<noteq> Clean staged)"
proof (cases "taken cand d")
  case True
  then show ?thesis using assms by (auto simp: place_at_def link_file_def)
next
  case False
  then have ne: "Clean staged \<noteq> Clean cand" and free: "files d (Clean cand) = None" using assms(4) by (auto simp: taken_def)
  have put: "keeps ok d0 (put_file cand c d)" using keeps_put [OF assms(1)] keeps_free [OF assms(1) free] assms(3) by blast
  show ?thesis
  proof (cases "os_fails S ''link'' k")
    case None
    then show ?thesis using assms(2,4) False ne put by (auto simp: place_at_def link_file_def put_file_def)
  next
    case (Some err)
    then have "copyExclusive S k staged cand d = (r, d')" using assms(2) False by (simp add: place_at_def link_file_def)
    from keeps_copyExclusive [OF assms(1) this assms(3) ne] show ?thesis using assms(4) ne by metis
  qed
qed

lemma keeps_place_loop:
  assumes "keeps ok d0 d" "place_loop S target staged n d = ((path, err), d')" "files d (Clean staged) = Some c" "files d0 (Clean staged) = None"
    and "\<And>k. ok (Clean (numberedPath target k))" "ok (Clean target)" "target \<noteq> []"
  shows "keeps ok d0 d' \<and>
    (if path = [] then err \<noteq> None \<and> files d' (Clean staged) = Some c
     else files d' (Clean path) = Some c \<and> (path = target \<or> (\<exists>k. path = numberedPath target k)))"
  using assms(1-3)
proof (induction n arbitrary: d)
  case 0
  then show ?case by auto
next
  case (Suc n)
  define cand where "cand = (if 99 - n > 0 then numberedPath target (99 - n) else target)"
  have cand: "ok (Clean cand)" "cand \<noteq> []" "cand = target \<or> (\<exists>k. cand = numberedPath target k)"
    using assms(5-7) by (auto simp: numberedPath_def cand_def)
  obtain r d1 where p: "place_at S (99 - n) staged cand d = (r, d1)" by fastforce
  note loop = Suc.prems(2) [unfolded place_loop.simps Let_def, folded cand_def, unfolded p prod.case]
  note k = keeps_place_at [OF Suc.prems(1) p cand(1) Suc.prems(3)]
  show ?case
  proof (cases r)
    case None
    then have "files (snd (remove_file S ''remove staging'' staged d1)) (Clean cand) = Some c"
      using k by (auto simp: remove_file_def drop_file_def split: option.split)
    moreover have "keeps ok d0 (snd (remove_file S ''remove staging'' staged d1))" using k assms(4) keeps_remove by blast
    moreover have "path = cand \<and> d' = snd (remove_file S ''remove staging'' staged d1)"
      using loop None by (auto split: prod.splits option.splits)
    ultimately show ?thesis using cand by simp
  next
    case (Some e)
    then show ?thesis
      using loop k Suc.IH [of d1] by (cases e) auto
  qed
qed

text \<open>Moving the staging file: whether the place was found or not, the contents are on the disk, at the path
  that is reported or still at the staging name.\<close>

lemma keeps_place:
  assumes "keeps (allowed opts) d0 d" "place S opts r filename staged d = ((path, err), d')"
    and "files d (Clean staged) = Some c" "files d0 (Clean staged) = None"
    and "dt_held r \<longleftrightarrow> OutputPath opts \<noteq> []"
    and "dt_held r \<longrightarrow> dt_path r = OutputPath opts \<and> files d0 (Clean (OutputPath opts)) = None \<and> Clean (OutputPath opts) \<noteq> Clean staged"
  shows "keeps (allowed opts) d0 d' \<and>
    (if path = [] then err \<noteq> None \<and> files d' (Clean staged) = Some c
     else files d' (Clean path) = Some c \<and>
       (if OutputPath opts \<noteq> [] then path = OutputPath opts else \<exists>n. entry_name n \<and> path = entry (OutputDir opts) n))"
proof (cases "os_fails S ''close staged'' 0")
  case (Some e)
  then have "path = [] \<and> err = Some e \<and> d' = d" using assms(2) by (simp add: place_def)
  then show ?thesis using assms(1,3) by simp
next
  case None
  show ?thesis
  proof (cases "dt_held r")
    case True
    then have p: "dt_path r = OutputPath opts" "OutputPath opts \<noteq> []" "Clean (OutputPath opts) \<noteq> Clean staged" "files d0 (Clean (OutputPath opts)) = None"
      using assms(5,6) by auto
    have "keeps (allowed opts) d0 (put_file (OutputPath opts) c (drop_file staged d))"
      using keeps_put [OF keeps_drop [OF assms(1,4)] p(4)] p(2) by (simp add: allowed_def)
    moreover have "(path, err, d') = (if os_fails S ''rename'' 0 = None
        then (OutputPath opts, None, put_file (OutputPath opts) c (drop_file staged d)) else ([], os_fails S ''rename'' 0, d))"
      using assms(2,3) None True p(1) by (cases "os_fails S ''rename'' 0") (auto simp: place_def)
    ultimately show ?thesis using assms(1,3) p by (auto simp: put_file_def split: if_splits)
  next
    case False
    let ?n = "safeFilename filename"
    have n: "entry_name ?n" by (rule safeFilename_entry)
    have dir: "entry (OutputDir opts) m = entry (out_dir opts) m" for m
      using False assms(5) by (simp add: entry_def out_dir_def)
    have loop: "place_loop S (entry (OutputDir opts) ?n) staged 100 d = ((path, err), d')"
      using assms(2) None False by (simp add: place_def placeFile_def Join_entry [OF n])
    have ne: "entry (OutputDir opts) ?n \<noteq> []" using entry_prefix [of "OutputDir opts"] n by (auto simp: entry_name_def)
    have ok: "allowed opts (Clean (numberedPath (entry (OutputDir opts) ?n) k))" "allowed opts (Clean (entry (OutputDir opts) ?n))" for k
      using numberedPath_entry [OF n] n by (auto simp: allowed_def dir)
    show ?thesis
      using keeps_place_loop [OF assms(1) loop assms(3,4) ok ne] numberedPath_entry [OF n] n False assms(5)
      by (auto; metis)
  qed
qed

end
