(* ===== verification/Client_Flow.thy ===== *)
theory Client_Flow
  imports Client_Api Client_Files
begin

text \<open>
  The send and open flows of the command-line client (src/internal/flickcli/send.go, open.go and
  \<open>BuildShareLink\<close> of link.go). Both thread the world behind the network; \<open>cli_Open\<close> also threads the disk. The
  staging file of a send holds ciphertext only and is removed when the call returns: it is the bytes it
  holds, and its calls may fail. A flow answers with its result and its error, as the code does.
\<close>

definition MinTTL :: duration where "MinTTL = 5 * Minute"
definition MaxTTL :: duration where "MaxTTL = 7 * 24 * 60 * Minute"

subsection \<open>Sending\<close>

text \<open>The file as a reader: its bytes, and the error it ends with, if any.\<close>

record send_options =
  sn_Text :: string
  sn_FileName :: string
  sn_File :: "(bytes \<times> string option) option"
  sn_ContentType :: string
  sn_Passphrase :: string
  sn_TTL :: duration
  sn_ShareOrigin :: string

record send_result =
  sr_ID :: string
  sr_ExpiresAt :: string
  sr_Link :: string
  sr_Model :: string
  sr_Uploaded :: bool

definition validateSendOptions :: "send_options \<Rightarrow> cli_error option" where
  "validateSendOptions opts =
     (if sn_Text opts = [] \<and> sn_FileName opts = [] then Some (Failed ''nothing to send: provide text or a file'')
      else if sn_Text opts \<noteq> [] \<and> sn_FileName opts \<noteq> [] then Some (Failed ''send text or a file, not both'')
      else if sn_FileName opts \<noteq> [] \<and> sn_File opts = None then Some (Failed ''no file contents to send'')
      else if sn_TTL opts < MinTTL then Some (Failed ''TTL is below the minimum'')
      else if sn_TTL opts > MaxTTL then Some (Failed ''TTL is above the maximum'')
      else None)"

text \<open>\<open>mime.TypeByExtension\<close> reads the system's tables: a parameter.\<close>

definition resolveContentType :: "(string \<Rightarrow> string) \<Rightarrow> string \<Rightarrow> string \<Rightarrow> string" where
  "resolveContentType mime filename override =
     (if override \<noteq> [] then override
      else let guessed = mime (map lower (Ext filename)) in
        if guessed \<noteq> [] then guessed else ''application/octet-stream'')"

definition seal :: "'i age \<Rightarrow> string \<Rightarrow> 'i \<Rightarrow> bytes \<Rightarrow> cli_error + bytes" where
  "seal ag what i plaintext = (case ag_Encrypt ag what i plaintext of None \<Rightarrow> Inl (AgeError ''encrypt'') | Some c \<Rightarrow> Inr c)"

record sealed_file =
  sf_bytes :: bytes
  sf_size :: int
  sf_plaintextBytes :: int

text \<open>\<open>io.LimitReader(src, limit+1)\<close>: the sum wraps, and a limit below one reads nothing.\<close>

definition sealFile :: "'i age \<Rightarrow> os \<Rightarrow> 'i \<Rightarrow> bytes \<times> string option \<Rightarrow> int \<Rightarrow> cli_error + sealed_file" where
  "sealFile ag S i src limit =
     (case os_fails S ''stage sealed'' 0 of
        Some err \<Rightarrow> Inl (Failed (''stage encrypted file: '' @ err))
      | None \<Rightarrow>
          let most = nat (wrap64 (limit + 1)); plaintext = take most (fst src) in
          if (snd src \<noteq> None \<and> length (fst src) < most) \<or> os_fails S ''write sealed'' 0 \<noteq> None then Inl (Failed ''encrypt file'')
          else if int (length plaintext) > limit then Inl (Failed ''file is larger than this deployment accepts'')
          else (case ag_Encrypt ag ''body'' i plaintext of
            None \<Rightarrow> Inl (Failed ''encrypt file'')
          | Some c \<Rightarrow>
              (case os_fails S ''seek sealed'' 0 of
                 Some err \<Rightarrow> Inl (Failed err)
               | None \<Rightarrow> Inr \<lparr>sf_bytes = c, sf_size = int (length c), sf_plaintextBytes = int (length plaintext)\<rparr>)))"

definition sealed_bytes :: "os \<Rightarrow> sealed_file \<Rightarrow> cli_error + bytes" where
  "sealed_bytes S sf = (case os_fails S ''read sealed'' 0 of Some err \<Rightarrow> Inl (Failed err) | None \<Rightarrow> Inr (sf_bytes sf))"

definition addPassphrase :: "'i age \<Rightarrow> bytes option \<Rightarrow> 'i \<Rightarrow> string \<Rightarrow> create_call \<Rightarrow> cli_error + create_call" where
  "addPassphrase ag drawn i passphrase req =
     (case NewAccessVerifier drawn passphrase of
        Inl err \<Rightarrow> Inl err
      | Inr verifier \<Rightarrow>
          (case WrapIdentity ag i passphrase of
             Inl err \<Rightarrow> Inl err
           | Inr wrapped \<Rightarrow> Inr (req\<lparr>cc_Access := Some verifier, cc_WrappedIdentity := std_encode wrapped\<rparr>)))"

definition SharePath :: string where "SharePath = ''/s/''"

definition BuildShareLink :: "'i age \<Rightarrow> string \<Rightarrow> string \<Rightarrow> 'i option \<Rightarrow> string" where
  "BuildShareLink ag origin i identity =
     trimRightSlashes origin @ SharePath @ PathEscape i @
       (case identity of None \<Rightarrow> [] | Some k \<Rightarrow> ''#'' @ EncodeKeyFragment ag k)"

text \<open>The request up to the call: the payload is sealed, the passphrase added, and a file above the inline
  limit leaves its body out. The second component is the sealed file that is then uploaded.\<close>

definition prepare_text :: "'i age \<Rightarrow> 'i \<Rightarrow> size_limits \<Rightarrow> send_options \<Rightarrow> cli_error + bytes" where
  "prepare_text ag i limits opts =
     (if lm_PayloadInlineMaxBytes limits > 0 \<and> int (length (sn_Text opts)) > lm_PayloadInlineMaxBytes limits
      then Inl (Failed ''text is too large'')
      else (case seal ag ''body'' i (sn_Text opts) of Inl _ \<Rightarrow> Inl (Failed ''encrypt payload'') | Inr body \<Rightarrow> Inr body))"

definition text_call :: "bytes \<Rightarrow> duration \<Rightarrow> create_call" where
  "text_call body ttl = \<lparr>cc_Kind = ''text'', cc_Ciphertext = std_encode body, cc_Access = None, cc_WrappedIdentity = [],
     cc_EncryptedFilename = [], cc_ContentType = [], cc_SizeBytes = int (length body), cc_TTLSeconds = ttl div Second,
     cc_MaxViews = 1\<rparr>"

definition file_call ::
  "'i age \<Rightarrow> os \<Rightarrow> (string \<Rightarrow> string) \<Rightarrow> 'i \<Rightarrow> size_limits \<Rightarrow> send_options \<Rightarrow> sealed_file \<Rightarrow> create_call \<Rightarrow>
   cli_error + create_call \<times> bool" where
  "file_call ag S mime i limits opts sf req =
     (case seal ag ''filename'' i (sn_FileName opts) of
        Inl _ \<Rightarrow> Inl (Failed ''encrypt filename'')
      | Inr filename \<Rightarrow>
          let req' = req\<lparr>cc_Kind := ''file'', cc_ContentType := resolveContentType mime (sn_FileName opts) (sn_ContentType opts),
                cc_EncryptedFilename := std_encode filename, cc_SizeBytes := sf_size sf\<rparr> in
          if sf_plaintextBytes sf > lm_PayloadInlineMaxBytes limits then Inr (req'\<lparr>cc_Ciphertext := []\<rparr>, True)
          else (case sealed_bytes S sf of Inl err \<Rightarrow> Inl err | Inr body \<Rightarrow> Inr (req'\<lparr>cc_Ciphertext := std_encode body\<rparr>, False)))"

definition prepare ::
  "'i age \<Rightarrow> os \<Rightarrow> (string \<Rightarrow> string) \<Rightarrow> bytes option \<Rightarrow> 'i \<Rightarrow> size_limits \<Rightarrow> send_options \<Rightarrow>
   cli_error + create_call \<times> sealed_file option" where
  "prepare ag S mime drawn i limits opts =
     (let isFile = sn_FileName opts \<noteq> [];
          payload = (if isFile then map_sum id Inl (sealFile ag S i (the (sn_File opts)) (lm_MaxFileBytes limits))
                     else map_sum id Inr (prepare_text ag i limits opts)) in
      case payload of
        Inl err \<Rightarrow> Inl err
      | Inr p \<Rightarrow>
          let req0 = text_call (case p of Inl _ \<Rightarrow> [] | Inr body \<Rightarrow> body) (sn_TTL opts) in
          (case (if sn_Passphrase opts \<noteq> [] then addPassphrase ag drawn i (sn_Passphrase opts) req0 else Inr req0) of
             Inl err \<Rightarrow> Inl err
           | Inr req \<Rightarrow>
               (case p of
                  Inr _ \<Rightarrow> Inr (req, None)
                | Inl sf \<Rightarrow>
                    (case file_call ag S mime i limits opts sf req of
                       Inl err \<Rightarrow> Inl err
                     | Inr (req', large) \<Rightarrow> Inr (req', if large then Some sf else None)))))"

definition upload_sealed :: "'w client \<Rightarrow> create_answer \<Rightarrow> sealed_file \<Rightarrow> 'w \<Rightarrow> cli_error option \<times> 'w" where
  "upload_sealed c created sf w =
     (case ca_Upload created of
        None \<Rightarrow> (Some (Failed ''server did not return a presigned upload for a large file''), w)
      | Some up \<Rightarrow>
          (case Upload c up (sf_bytes sf) (sf_size sf) w of
             (Some err, w') \<Rightarrow> (Some err, w')
           | (None, w') \<Rightarrow> FinalizeSecret c (ca_ID created) w'))"

definition cli_Send ::
  "'i age \<Rightarrow> os \<Rightarrow> (string \<Rightarrow> string) \<Rightarrow> bytes option \<Rightarrow> 'w client \<Rightarrow> send_options \<Rightarrow> 'w \<Rightarrow> (cli_error + send_result) \<times> 'w" where
  "cli_Send ag S mime drawn c opts w =
     (case validateSendOptions opts of
        Some err \<Rightarrow> (Inl err, w)
      | None \<Rightarrow>
          (case cli_Config c w of (limits, w1) \<Rightarrow>
             (case ag_Generate ag of
                None \<Rightarrow> (Inl (AgeError ''generate''), w1)
              | Some i \<Rightarrow>
                  (case prepare ag S mime drawn i limits opts of
                     Inl err \<Rightarrow> (Inl err, w1)
                   | Inr (req, large) \<Rightarrow>
                       (case CreateSecret c req w1 of
                          (Inl err, w2) \<Rightarrow> (Inl err, w2)
                        | (Inr created, w2) \<Rightarrow>
                            (case (case large of None \<Rightarrow> (None, w2) | Some sf \<Rightarrow> upload_sealed c created sf w2) of
                               (Some err, w3) \<Rightarrow> (Inl err, w3)
                             | (None, w3) \<Rightarrow>
                                 let origin = (if sn_ShareOrigin opts = [] then baseURL c else sn_ShareOrigin opts);
                                     secret_in_link = sn_Passphrase opts = [] in
                                 (Inr \<lparr>sr_ID = ca_ID created, sr_ExpiresAt = ca_ExpiresAt created,
                                    sr_Link = BuildShareLink ag origin (ca_ID created) (if secret_in_link then Some i else None),
                                    sr_Model = (if secret_in_link then ''link-key'' else ''passphrase''),
                                    sr_Uploaded = (large \<noteq> None)\<rparr>, w3)))))))"

subsection \<open>Opening\<close>

text \<open>\<open>op_Passphrase\<close> is what the prompt answers; \<open>None\<close> when there is no prompt.\<close>

record 'i open_options = out_options +
  op_ID :: string
  op_Identity :: "'i option"
  op_Passphrase :: "(cli_error + string) option"

record open_result =
  or_Kind :: string
  or_Plaintext :: bytes
  or_Filename :: string
  or_ContentType :: string
  or_WrittenPath :: string
  or_RescuedPath :: string
  or_FilenameUnreadable :: bool

definition empty_result :: open_result where
  "empty_result = \<lparr>or_Kind = [], or_Plaintext = [], or_Filename = [], or_ContentType = [], or_WrittenPath = [],
     or_RescuedPath = [], or_FilenameUnreadable = False\<rparr>"

definition ageFileBytes :: "int \<Rightarrow> int" where
  "ageFileBytes n = wrap64 (wrap64 (4112 + n) + wrap64 (16 * max 1 (quot (wrap64 (n + 65535)) 65536)))"

definition unsealReader :: "'i age \<Rightarrow> 'i \<Rightarrow> bytes \<times> cli_error option \<Rightarrow> cli_error + bytes" where
  "unsealReader ag i src =
     (case DecryptWith ag src i of
        Inl err \<Rightarrow> Inl err
      | Inr (p, None) \<Rightarrow> Inr p
      | Inr (p, Some f) \<Rightarrow> Inl (AgeError ''read''))"

text \<open>\<open>utf8.Valid\<close>.\<close>

definition cont :: "char \<Rightarrow> bool" where "cont c \<longleftrightarrow> 128 \<le> byte c \<and> byte c < 192"

fun utf8_Valid :: "bytes \<Rightarrow> bool" where
  "utf8_Valid [] = True"
| "utf8_Valid (a # r) =
     (if byte a < 128 then utf8_Valid r
      else if 194 \<le> byte a \<and> byte a \<le> 223 then
        (case r of b # r' \<Rightarrow> cont b \<and> utf8_Valid r' | _ \<Rightarrow> False)
      else if 224 \<le> byte a \<and> byte a \<le> 239 then
        (case r of b # c # r' \<Rightarrow> cont b \<and> cont c \<and> (byte a = 224 \<longrightarrow> 160 \<le> byte b) \<and> (byte a = 237 \<longrightarrow> byte b < 160) \<and> utf8_Valid r'
         | _ \<Rightarrow> False)
      else if 240 \<le> byte a \<and> byte a \<le> 244 then
        (case r of b # c # d # r' \<Rightarrow> cont b \<and> cont c \<and> cont d \<and> (byte a = 240 \<longrightarrow> 144 \<le> byte b) \<and> (byte a = 244 \<longrightarrow> byte b < 144) \<and> utf8_Valid r'
         | _ \<Rightarrow> False)
      else False)"

definition openFilename :: "'i age \<Rightarrow> 'i \<Rightarrow> string \<Rightarrow> string option" where
  "openFilename ag i encoded =
     (case std_decode encoded of
        None \<Rightarrow> None
      | Some file \<Rightarrow>
          (case unsealReader ag i (file, None) of Inl _ \<Rightarrow> None | Inr name \<Rightarrow> if utf8_Valid name then Some name else None))"

definition openText ::
  "'i age \<Rightarrow> os \<Rightarrow> 'o out_options_scheme \<Rightarrow> destination \<Rightarrow> 'i \<Rightarrow> bytes \<times> cli_error option \<Rightarrow> open_result \<Rightarrow> disk \<Rightarrow>
   (open_result \<times> cli_error option) \<times> disk" where
  "openText ag S opts r i body result d =
     (case unsealReader ag i body of
        Inl err \<Rightarrow> ((empty_result, Some (Consumed err)), discard S r d)
      | Inr plaintext \<Rightarrow>
          let result' = result\<lparr>or_Plaintext := plaintext\<rparr> in
          if OutputPath opts = [] then ((result', None), d)
          else (case writeText S r plaintext d of
            (Some err, d') \<Rightarrow> ((result', Some (ErrWriteAfterConsume err)), d')
          | (None, d') \<Rightarrow> ((result'\<lparr>or_WrittenPath := OutputPath opts\<rparr>, None), d')))"

text \<open>\<open>decryptInto\<close> streams the plaintext into the staging file: what it wrote is there when it fails.\<close>

datatype into_error = BodyError cli_error | StagingWriteError string

definition synced_into :: "os \<Rightarrow> string \<Rightarrow> bytes \<Rightarrow> age_failure option \<Rightarrow> disk \<Rightarrow> into_error option \<times> disk" where
  "synced_into S staged p ending d =
     (if ending \<noteq> None then Some (BodyError (AgeError ''read'')) else map_option StagingWriteError (os_fails S ''staging'' 1),
      put_file staged p d)"

definition decryptInto ::
  "'i age \<Rightarrow> os \<Rightarrow> string \<Rightarrow> 'i \<Rightarrow> bytes \<times> cli_error option \<Rightarrow> disk \<Rightarrow> into_error option \<times> disk" where
  "decryptInto ag S staged i body d =
     (case DecryptWith ag body i of
        Inl err \<Rightarrow> (Some (BodyError err), d)
      | Inr (p, ending) \<Rightarrow>
          (case os_fails S ''staging'' 0 of
             Some err \<Rightarrow>
               if os_written S ''staging'' < length p
               then (Some (StagingWriteError err), put_file staged (take (os_written S ''staging'') p) d)
               else synced_into S staged p ending d
           | None \<Rightarrow> synced_into S staged p ending d))"

definition openFile ::
  "'i age \<Rightarrow> os \<Rightarrow> 'o out_options_scheme \<Rightarrow> destination \<Rightarrow> 'i \<Rightarrow> opened_secret \<Rightarrow> bytes \<times> cli_error option \<Rightarrow> open_result \<Rightarrow>
   disk \<Rightarrow> (open_result \<times> cli_error option) \<times> disk" where
  "openFile ag S opts r i opened body result0 d =
     (let result = (if OutputPath opts = [] \<and> os_EncryptedFilename opened \<noteq> [] then
            (case openFilename ag i (os_EncryptedFilename opened) of
               None \<Rightarrow> result0\<lparr>or_Filename := [], or_FilenameUnreadable := True\<rparr>
             | Some name \<Rightarrow> result0\<lparr>or_Filename := name, or_FilenameUnreadable := False\<rparr>)
          else result0) in
      case stage S opts r d of
        (Inl _, d1) \<Rightarrow> ((result, Some (ErrWriteAfterConsume ''stage'')), discard S r d1)
      | (Inr staged, d1) \<Rightarrow>
          (case decryptInto ag S staged i body d1 of
             (Some err, d2) \<Rightarrow>
               ((result, Some (case err of StagingWriteError m \<Rightarrow> ErrWriteAfterConsume m | BodyError e \<Rightarrow> Consumed e)),
                discard S r (snd (remove_file S ''remove staged'' staged d2)))
           | (None, d2) \<Rightarrow>
               (case place S opts r (or_Filename result) staged d2 of
                  ((path, err), d3) \<Rightarrow>
                    ((case err of
                        None \<Rightarrow> (result\<lparr>or_WrittenPath := path\<rparr>, None)
                      | Some m \<Rightarrow>
                          if path \<noteq> [] then (result\<lparr>or_WrittenPath := path\<rparr>, Some (Failed m))
                          else (result\<lparr>or_WrittenPath := [], or_RescuedPath := staged\<rparr>, Some (ErrWriteAfterConsume m))), d3))))"

text \<open>Before the call that consumes: the proof, and the identity if the link carries one.\<close>

definition open_access :: "'i open_options \<Rightarrow> secret_metadata \<Rightarrow> cli_error + string \<times> string" where
  "open_access opts m =
     (if NeedsPassphrase m then
        (case op_Passphrase opts of
           None \<Rightarrow> Inl (Failed ''this secret needs a passphrase and none can be read'')
         | Some (Inl err) \<Rightarrow> Inl err
         | Some (Inr passphrase) \<Rightarrow>
             (case DeriveAccessProof passphrase (client_AccessKDF m) of Inl err \<Rightarrow> Inl err | Inr proof \<Rightarrow> Inr (passphrase, proof)))
      else if op_Identity opts = None then Inl (Failed ''this secret is opened with the key in the link fragment'')
      else Inr ([], []))"

text \<open>After it: the identity the payload is decrypted with.\<close>

definition open_identity :: "'i age \<Rightarrow> 'i open_options \<Rightarrow> secret_metadata \<Rightarrow> string \<Rightarrow> opened_secret \<Rightarrow> cli_error + 'i" where
  "open_identity ag opts m passphrase opened =
     (if NeedsPassphrase m then
        (case os_WrappedIdentity opened of
           None \<Rightarrow> Inl (Failed ''open response carries no wrapped identity for a passphrase secret'')
         | Some wrapped \<Rightarrow> UnwrapIdentity ag wrapped passphrase)
      else Inr (the (op_Identity opts)))"

definition cli_Open ::
  "'i age \<Rightarrow> os \<Rightarrow> (nat \<Rightarrow> nat \<times> nat \<times> bool) \<Rightarrow> 'w client \<Rightarrow> 'i open_options \<Rightarrow> disk \<Rightarrow> 'w \<Rightarrow>
   (open_result \<times> cli_error option) \<times> disk \<times> 'w" where
  "cli_Open ag S ch c opts d w =
     (if op_ID opts = [] then ((empty_result, Some (Failed ''no secret ID to open'')), d, w)
      else (case SecretMetadata c (op_ID opts) w of
        (Inl err, w1) \<Rightarrow> ((empty_result, Some err), d, w1)
      | (Inr m, w1) \<Rightarrow>
          (case open_access opts m of
             Inl err \<Rightarrow> ((empty_result, Some err), d, w1)
           | Inr (passphrase, accessProof) \<Rightarrow>
               (case (if sm_Kind m \<noteq> ''file'' then cli_Config c w1 else (DefaultLimits, w1)) of (limits, w2) \<Rightarrow>
                  if sm_Kind m \<noteq> ''file'' \<and> sm_SizeBytes m > ageFileBytes (lm_PayloadInlineMaxBytes limits)
                  then ((empty_result, Some (Failed ''text secret reports more bytes than this deployment stores inline'')), d, w2)
                  else (case reserveDestination S opts (sm_Kind m) d of
                    (Inl err, d1) \<Rightarrow> ((empty_result, Some (Failed err)), d1, w2)
                  | (Inr r, d1) \<Rightarrow>
                      (case OpenSecret c (op_ID opts) accessProof (sm_SizeBytes m) w2 of
                         (Inl err, w3) \<Rightarrow> ((empty_result, Some err), discard S r d1, w3)
                       | (Inr opened, w3) \<Rightarrow>
                           (case open_identity ag opts m passphrase opened of
                              Inl err \<Rightarrow> ((empty_result, Some err), discard S r d1, w3)
                            | Inr i \<Rightarrow>
                                let result = empty_result\<lparr>or_Kind := os_Kind opened, or_ContentType := os_ContentType opened\<rparr>;
                                    body = read_all ch 0 (os_Body opened) in
                                (case (if os_Kind opened \<noteq> ''file'' then openText ag S opts r i body result d1
                                       else openFile ag S opts r i opened body result d1) of
                                   (res, d2) \<Rightarrow> (res, d2, w3)))))))))"

subsection \<open>The largest limit\<close>

text \<open>A server that advertises the largest limit an \<open>int64\<close> holds gets an empty file whatever was to be sent:
  the limit of the reader wraps.\<close>

lemma largest_limit_empties:
  assumes "\<And>what. os_fails S what 0 = None" "ag_Encrypt ag ''body'' i [] = Some c"
  shows "sealFile ag S i src (2 ^ 63 - 1) = Inr \<lparr>sf_bytes = c, sf_size = int (length c), sf_plaintextBytes = 0\<rparr>"
  using assms by (simp add: sealFile_def wrap64_def)

end
