(* ===== verification/Client_Safety.thy ===== *)
theory Client_Safety
  imports Client_Flow
begin

text \<open>
  What opening with the command-line client does to the recipient's disk and to the secret: no file is
  lost, nothing appears outside the place that was asked for, nothing is consumed before everything that
  can be checked was checked, and what was consumed is handed over or rescued.
\<close>

subsection \<open>The disk\<close>

text \<open>A destination reserved on \<open>d\<close>.\<close>

definition reserved :: "'o out_options_scheme \<Rightarrow> destination \<Rightarrow> disk \<Rightarrow> bool" where
  "reserved opts r d \<longleftrightarrow> dt_held r = (OutputPath opts \<noteq> []) \<and>
     (dt_held r \<longrightarrow> dt_path r = OutputPath opts \<and> files d (Clean (OutputPath opts)) = None)"

lemma keeps_discard:
  "keeps (allowed opts) d0 d \<Longrightarrow> reserved opts r d0 \<Longrightarrow> keeps (allowed opts) d0 (discard S r d)"
  by (auto simp: discard_def reserved_def intro: keeps_remove)

lemma allowed_path: "reserved opts r d \<Longrightarrow> dt_held r \<Longrightarrow> allowed opts (Clean (dt_path r))"
  by (auto simp: reserved_def allowed_def)

lemma keeps_openText:
  assumes "keeps (allowed opts) d0 d" "reserved opts r d0"
  shows "keeps (allowed opts) d0 (snd (openText ag S opts r i body result d))"
proof (cases "unsealReader ag i body")
  case (Inl err)
  then show ?thesis using keeps_discard [OF assms] by (simp add: openText_def)
next
  case (Inr p)
  have "keeps (allowed opts) d0 (snd (writeText S r p d))" if "OutputPath opts \<noteq> []"
    unfolding writeText_def using assms that
    by (intro keeps_write) (auto simp: reserved_def allowed_def)
  then show ?thesis using Inr assms(1) by (auto simp: openText_def Let_def split: prod.splits option.splits)
qed

lemma keeps_stage:
  assumes "keeps (allowed opts) d0 d" "reserved opts r d0" "temp_names_ok S" "stage S opts r d = (x, d')"
  shows "keeps (allowed opts) d0 d'"
    and "x = Inr staged \<Longrightarrow> files d0 (Clean staged) = None \<and> allowed opts (Clean staged) \<and> files d (Clean staged) = None \<and> d' = put_file staged [] d"
proof -
  let ?dir = "if (if dt_held r then Dir (dt_path r) else OutputDir opts) = [] then ''.'' else if dt_held r then Dir (dt_path r) else OutputDir opts"
  have dir: "?dir = out_dir opts" "?dir \<noteq> []" using assms(2) Dir_ne by (auto simp: reserved_def out_dir_def)
  have ct: "create_temp S ''stage'' (out_dir opts) ''.flick-partial-'' d = (x, d')"
    using assms(4) unfolding stage_def Let_def dir(1) [symmetric] by simp
  have ok: "\<And>n. entry_name n \<Longrightarrow> allowed opts (entry (out_dir opts) n)" by (auto simp: allowed_def)
  have pre: "entry_name ''.flick-partial-''" by (simp add: entry_name_def)
  note k = keeps_create_temp [where ok = "allowed opts", OF assms(1) ct ok assms(3) pre]
  show "keeps (allowed opts) d0 d'" using k(1) dir by simp
  show "x = Inr staged \<Longrightarrow> files d0 (Clean staged) = None \<and> allowed opts (Clean staged) \<and> files d (Clean staged) = None \<and> d' = put_file staged [] d"
    using k(2) dir by simp
qed

lemma decryptInto_writes:
  "decryptInto ag S staged i body d = (e, d') \<Longrightarrow> d' = d \<or> (\<exists>c. d' = put_file staged c d)"
  by (auto simp: decryptInto_def synced_into_def split: sum.splits option.splits if_splits)

lemma decryptInto_done:
  "decryptInto ag S staged i body d = (None, d') \<Longrightarrow> \<exists>p. DecryptWith ag body i = Inr (p, None) \<and> d' = put_file staged p d"
  by (auto simp: decryptInto_def synced_into_def split: sum.splits option.splits if_splits)

lemma keeps_decryptInto:
  assumes "keeps ok d0 d" "decryptInto ag S staged i body d = (e, d')" "files d0 (Clean staged) = None" "ok (Clean staged)"
  shows "keeps ok d0 d'"
  using decryptInto_writes [OF assms(2)] keeps_put [OF assms(1,3,4)] assms(1) by auto

text \<open>The two ways in which the local disk keeps the contents \<open>p\<close> of a file from being staged: its staging file
  cannot be created, or a write or the sync of it fails while the plaintext streams into it.\<close>

definition staging_fails :: "os \<Rightarrow> 'o out_options_scheme \<Rightarrow> destination \<Rightarrow> bytes \<Rightarrow> disk \<Rightarrow> bool" where
  "staging_fails S opts r p d \<longleftrightarrow> isl (fst (stage S opts r d)) \<or>
     (os_fails S ''staging'' 0 \<noteq> None \<and> os_written S ''staging'' < length p) \<or> os_fails S ''staging'' 1 \<noteq> None"

lemma decryptInto_staging:
  assumes "decryptInto ag S staged i body d = (Some f, d')" "DecryptWith ag body i = Inr (p, None)"
  shows "(\<exists>m. f = StagingWriteError m) \<and> staging_fails S opts r p d0"
  using assms by (auto simp: decryptInto_def synced_into_def staging_fails_def split: option.splits if_splits)

text \<open>A file secret: what is on the disk afterwards, and where its contents are.\<close>

lemma openFile_effect:
  assumes "keeps (allowed opts) d0 d" "reserved opts r d0" "temp_names_ok S"
    and "dt_held r \<longrightarrow> files d (Clean (OutputPath opts)) \<noteq> None"
    and "openFile ag S opts r i opened body result0 d = ((res, err), d')"
    and "or_WrittenPath result0 = []" "or_RescuedPath result0 = []"
  shows "keeps (allowed opts) d0 d' \<and>
    (or_WrittenPath res \<noteq> [] \<longrightarrow> (\<exists>p. DecryptWith ag body i = Inr (p, None) \<and> files d' (Clean (or_WrittenPath res)) = Some p) \<and>
       (if OutputPath opts \<noteq> [] then or_WrittenPath res = OutputPath opts
        else \<exists>n. entry_name n \<and> or_WrittenPath res = entry (OutputDir opts) n)) \<and>
    (or_RescuedPath res \<noteq> [] \<longrightarrow> (\<exists>p m. DecryptWith ag body i = Inr (p, None) \<and> files d' (Clean (or_RescuedPath res)) = Some p \<and>
       err = Some (ErrWriteAfterConsume m))) \<and>
    (err = None \<longrightarrow> or_WrittenPath res \<noteq> []) \<and>
    (\<forall>p. DecryptWith ag body i = Inr (p, None) \<and> or_WrittenPath res = [] \<and> or_RescuedPath res = [] \<longrightarrow>
       (\<exists>m. err = Some (ErrWriteAfterConsume m)) \<and> staging_fails S opts r p d)"
proof -
  define result where "result = (if OutputPath opts = [] \<and> os_EncryptedFilename opened \<noteq> [] then
            (case openFilename ag i (os_EncryptedFilename opened) of
               None \<Rightarrow> result0\<lparr>or_Filename := [], or_FilenameUnreadable := True\<rparr>
             | Some name \<Rightarrow> result0\<lparr>or_Filename := name, or_FilenameUnreadable := False\<rparr>)
          else result0)"
  have rp: "or_WrittenPath result = []" "or_RescuedPath result = []" using assms(6,7) by (auto simp: result_def split: option.split)
  note run = assms(5) [unfolded openFile_def Let_def, folded result_def]
  obtain x d1 where st: "stage S opts r d = (x, d1)" by fastforce
  note ks = keeps_stage [OF assms(1-3) st]
  show ?thesis
  proof (cases x)
    case (Inl e)
    then have "res = result" "err = Some (ErrWriteAfterConsume ''stage'')" "d' = discard S r d1" using run st by auto
    moreover have "staging_fails S opts r p d" for p using st Inl by (simp add: staging_fails_def)
    ultimately show ?thesis using keeps_discard [OF ks(1) assms(2)] rp by simp
  next
    case (Inr staged)
    then have sg: "files d0 (Clean staged) = None" "allowed opts (Clean staged)" "files d (Clean staged) = None" "d1 = put_file staged [] d"
      using ks(2) by auto
    obtain e d2 where di: "decryptInto ag S staged i body d1 = (e, d2)" by fastforce
    note kd = keeps_decryptInto [OF ks(1) di sg(1,2)]
    show ?thesis
    proof (cases e)
      case (Some f)
      then have "res = result" "d' = discard S r (snd (remove_file S ''remove staged'' staged d2))"
        "err = Some (case f of StagingWriteError m \<Rightarrow> ErrWriteAfterConsume m | BodyError e \<Rightarrow> Consumed e)"
        using run st Inr di by auto
      moreover have "(\<exists>m. f = StagingWriteError m) \<and> staging_fails S opts r p d" if "DecryptWith ag body i = Inr (p, None)" for p
        using decryptInto_staging [OF di [unfolded Some] that] .
      ultimately show ?thesis using keeps_discard [OF keeps_remove [OF kd sg(1)] assms(2)] rp by fastforce
    next
      case None
      obtain p where p: "DecryptWith ag body i = Inr (p, None)" "d2 = put_file staged p d1" using decryptInto_done [OF di [unfolded None]] by blast
      then have c: "files d2 (Clean staged) = Some p" by (simp add: put_file_def)
      obtain path perr d3 where pl: "place S opts r (or_Filename result) staged d2 = ((path, perr), d3)" by (metis surj_pair)
      have held: "dt_held r \<longrightarrow> dt_path r = OutputPath opts \<and> files d0 (Clean (OutputPath opts)) = None \<and> Clean (OutputPath opts) \<noteq> Clean staged"
        using assms(2,4) sg(3) by (auto simp: reserved_def)
      have "dt_held r \<longleftrightarrow> OutputPath opts \<noteq> []" using assms(2) by (simp add: reserved_def)
      note kp = keeps_place [OF kd pl c sg(1) this held]
      have staged: "staged \<noteq> []"
        using st Inr by (auto simp: stage_def create_temp_def Let_def split: prod.splits option.splits if_splits)
      have out: "d' = d3" "(res, err) = (case perr of None \<Rightarrow> (result\<lparr>or_WrittenPath := path\<rparr>, None)
          | Some m \<Rightarrow> if path \<noteq> [] then (result\<lparr>or_WrittenPath := path\<rparr>, Some (Failed m))
             else (result\<lparr>or_WrittenPath := [], or_RescuedPath := staged\<rparr>, Some (ErrWriteAfterConsume m)))"
        using run st Inr di None pl by (auto split: option.splits)
      show ?thesis
      proof (cases "path = []")
        case True
        then obtain m where "perr = Some m" using kp by auto
        then show ?thesis using out True kp p staged by auto
      next
        case False
        then have "or_WrittenPath res = path" "or_RescuedPath res = []" using out(2) rp by (auto split: option.splits)
        then show ?thesis using False kp p out(1) by auto
      qed
    qed
  qed
qed

subsection \<open>The flow\<close>

text \<open>The calls that only read.\<close>

definition reads_only :: "'w client \<Rightarrow> bool" where
  "reads_only c \<longleftrightarrow> (\<forall>req u. wq_method req = ''GET'' \<longrightarrow> snd (cl_http c req u) = u)"

lemma reads_SecretMetadata: "reads_only c \<Longrightarrow> snd (SecretMetadata c i w) = w"
  by (auto simp: SecretMetadata_def cli_do_def cli_send_def reads_only_def split: prod.splits sum.splits) (metis sndI wire_request.select_convs(1))+

lemma reads_Config: "reads_only c \<Longrightarrow> snd (cli_Config c w) = w"
  by (auto simp: cli_Config_def cli_do_def cli_send_def reads_only_def split: prod.splits sum.splits option.splits) (metis sndI wire_request.select_convs(1))+

text \<open>How an open ends: refused before the call that consumes, by that call, without an identity, or with a
  payload to hand over.\<close>

lemma cli_Open_cases:
  assumes "cli_Open ag S ch c opts d w = ((res, err), d', w')" "reads_only c" "temp_names_ok S"
  obtains (early) "res = empty_result" "err \<noteq> None" "w' = w" "keeps (allowed opts) d d'"
  | (refused) m a r d1 where "fst (SecretMetadata c (op_ID opts) w) = Inr m" "open_access opts m = Inr a"
      "reserveDestination S opts (sm_Kind m) d = (Inr r, d1)" "res = empty_result" "err \<noteq> None" "d' = discard S r d1"
      "\<forall>ops. fst (OpenSecret c (op_ID opts) (snd a) (sm_SizeBytes m) w) = Inr ops \<longrightarrow> (\<exists>e. open_identity ag opts m (fst a) ops = Inl e)"
  | (opened) m a r d1 ops i where "fst (SecretMetadata c (op_ID opts) w) = Inr m" "open_access opts m = Inr a"
      "reserveDestination S opts (sm_Kind m) d = (Inr r, d1)"
      "OpenSecret c (op_ID opts) (snd a) (sm_SizeBytes m) w = (Inr ops, w')" "open_identity ag opts m (fst a) ops = Inr i"
      "((res, err), d') = (let result = empty_result\<lparr>or_Kind := os_Kind ops, or_ContentType := os_ContentType ops\<rparr>;
          body = read_all ch 0 (os_Body ops) in
        if os_Kind ops \<noteq> ''file'' then openText ag S opts r i body result d1 else openFile ag S opts r i ops body result d1)"
proof (cases "op_ID opts = []")
  case True
  then show ?thesis using assms(1) early by (auto simp: cli_Open_def)
next
  case False
  note run = assms(1) [unfolded cli_Open_def if_not_P [OF False]]
  obtain x w1 where md: "SecretMetadata c (op_ID opts) w = (x, w1)" by fastforce
  then have w1: "w1 = w" using reads_SecretMetadata [OF assms(2)] by (metis snd_conv)
  show ?thesis
  proof (cases x)
    case (Inl e)
    then show ?thesis using run md w1 early by auto
  next
    case (Inr m)
    note run = run [unfolded md Inr prod.case sum.case w1]
    show ?thesis
    proof (cases "open_access opts m")
      case (Inl e)
      then show ?thesis using run early by auto
    next
      case acc: (Inr a)
      obtain pw key where a: "a = (pw, key)" by fastforce
      note run = run [unfolded acc a sum.case prod.case]
      obtain limits w2 where lm: "(if sm_Kind m \<noteq> ''file'' then cli_Config c w else (DefaultLimits, w)) = (limits, w2)" by fastforce
      have w2: "w2 = w" using lm reads_Config [OF assms(2), of w] by (auto split: if_splits)
      note run = run [unfolded lm prod.case w2]
      obtain rd d1 where rs: "reserveDestination S opts (sm_Kind m) d = (rd, d1)" by fastforce
      note kr = keeps_reserve [OF rs assms(3)]
      show ?thesis
      proof (cases "sm_Kind m \<noteq> ''file'' \<and> sm_SizeBytes m > ageFileBytes (lm_PayloadInlineMaxBytes limits)")
        case True
        then show ?thesis using run early unfolding if_P [OF True] by auto
      next
        case size_ok: False
        note run = run [unfolded if_not_P [OF size_ok] rs prod.case]
        show ?thesis
        proof (cases rd)
          case (Inl e)
          then show ?thesis using run early kr(1) by auto
        next
          case rsv: (Inr r)
          note run = run [unfolded rsv sum.case]
          obtain y w3 where os: "OpenSecret c (op_ID opts) key (sm_SizeBytes m) w = (y, w3)" by fastforce
          note run = run [unfolded os prod.case]
          have md': "fst (SecretMetadata c (op_ID opts) w) = Inr m" using md Inr by simp
          show ?thesis
          proof (cases y)
            case (Inl e)
            then show ?thesis using run refused [OF md' acc rs [unfolded rsv]] os a by auto
          next
            case opn: (Inr ops)
            note run = run [unfolded opn sum.case]
            show ?thesis
            proof (cases "open_identity ag opts m pw ops")
              case (Inl e)
              then show ?thesis using run refused [OF md' acc rs [unfolded rsv]] os opn a by auto
            next
              case idt: (Inr i)
              have "w' = w3" "((res, err), d') = (let result = empty_result\<lparr>or_Kind := os_Kind ops, or_ContentType := os_ContentType ops\<rparr>;
                  body = read_all ch 0 (os_Body ops) in
                if os_Kind ops \<noteq> ''file'' then openText ag S opts r i body result d1 else openFile ag S opts r i ops body result d1)"
                using run idt by (auto simp: Let_def split: prod.splits)
              then show ?thesis using opened [OF md' acc rs [unfolded rsv]] os opn idt a by simp
            qed
          qed
        qed
      qed
    qed
  qed
qed

lemma reserved_after:
  assumes "reserveDestination S opts kind d = (Inr r, d1)" "temp_names_ok S"
  shows "keeps (allowed opts) d d1" "reserved opts r d" "dt_held r \<longrightarrow> files d1 (Clean (OutputPath opts)) \<noteq> None"
  using keeps_reserve [OF assms] by (auto simp: reserved_def put_file_def)

text \<open>
  C3: Opening with the command-line client is careful with the recipient's disk and with the secret. Whatever
  the server answers and whichever calls of the operating system fail, no file that was on the disk changes or
  disappears; what appears is at the path the caller named or an entry of its output directory, whatever name
  the sender gave the file; a written path is one of these; and the call that consumes the secret is made only
  after the metadata was read, the key or the passphrase is at hand and the destination is reserved.
\<close>

theorem cli_open_safe:
  assumes "temp_names_ok S" "reads_only c" "cli_Open ag S ch c opts d w = ((res, err), d', w')"
  shows "(\<forall>p. files d p \<noteq> None \<longrightarrow> files d' p = files d p) \<and>
    (\<forall>p. files d p = None \<and> files d' p \<noteq> None \<longrightarrow> allowed opts p) \<and>
    (or_WrittenPath res \<noteq> [] \<longrightarrow> (if OutputPath opts \<noteq> [] then or_WrittenPath res = OutputPath opts
       else \<exists>n. entry_name n \<and> or_WrittenPath res = entry (OutputDir opts) n)) \<and>
    (w' \<noteq> w \<longrightarrow> (\<exists>m a r. fst (SecretMetadata c (op_ID opts) w) = Inr m \<and> open_access opts m = Inr a \<and>
       fst (reserveDestination S opts (sm_Kind m) d) = Inr r))"
  using assms(3,2,1)
proof (cases rule: cli_Open_cases)
  case early
  then show ?thesis by (simp add: keeps_def empty_result_def)
next
  case (refused m a r d1)
  then have "keeps (allowed opts) d d'" using reserved_after [OF refused(3) assms(1)] keeps_discard by blast
  then show ?thesis using refused(1-4) by (auto simp: keeps_def empty_result_def)
next
  case (opened m a r d1 ops i)
  note rs = reserved_after [OF opened(3) assms(1)]
  let ?body = "read_all ch 0 (os_Body ops)" and ?result = "empty_result\<lparr>or_Kind := os_Kind ops, or_ContentType := os_ContentType ops\<rparr>"
  have "keeps (allowed opts) d d' \<and> (or_WrittenPath res \<noteq> [] \<longrightarrow> (if OutputPath opts \<noteq> [] then or_WrittenPath res = OutputPath opts
       else \<exists>n. entry_name n \<and> or_WrittenPath res = entry (OutputDir opts) n))"
  proof (cases "os_Kind ops = ''file''")
    case True
    then have run: "openFile ag S opts r i ops ?body ?result d1 = ((res, err), d')" using opened(6) by (simp add: Let_def)
    from openFile_effect [OF rs(1,2) assms(1) rs(3) run] show ?thesis by (simp add: empty_result_def)
  next
    case False
    then have run: "openText ag S opts r i ?body ?result d1 = ((res, err), d')" using opened(6) by (simp add: Let_def)
    then have "or_WrittenPath res \<noteq> [] \<longrightarrow> OutputPath opts \<noteq> [] \<and> or_WrittenPath res = OutputPath opts"
      by (auto simp: openText_def Let_def empty_result_def split: sum.splits if_splits prod.splits option.splits)
    then show ?thesis using keeps_openText [OF rs(1,2), of ag S i ?body ?result] run by simp
  qed
  then show ?thesis using opened(1-3) unfolding keeps_def by auto
qed

text \<open>
  C40: What was consumed is not lost. When the call that consumes the secret was answered, the identity is at
  hand and the body decrypts, a text is in the result even if it could not be written. A file is on the disk
  with its contents: at the path that is reported, always so when there is no error, or in the staging file
  the result names, together with the error that it could not be put in place. There are two exceptions,
  both announced by that error: the staging file could not be created, or the local disk failed to take or
  to sync the contents while they streamed into it.
\<close>

theorem cli_open_hands_over:
  assumes "temp_names_ok S" "reads_only c" "cli_Open ag S ch c opts d w = ((res, err), d', w')" "w' \<noteq> w"
    and "fst (SecretMetadata c (op_ID opts) w) = Inr m" "open_access opts m = Inr (pw, key)"
    and "fst (OpenSecret c (op_ID opts) key (sm_SizeBytes m) w) = Inr ops" "open_identity ag opts m pw ops = Inr i"
    and "unsealReader ag i (read_all ch 0 (os_Body ops)) = Inr p"
  shows "if os_Kind ops = ''file''
    then (or_WrittenPath res \<noteq> [] \<and> files d' (Clean (or_WrittenPath res)) = Some p) \<or>
      (\<exists>e. err = Some (ErrWriteAfterConsume e) \<and> or_WrittenPath res = [] \<and>
        (or_RescuedPath res \<noteq> [] \<and> files d' (Clean (or_RescuedPath res)) = Some p \<or>
         or_RescuedPath res = [] \<and>
           (\<exists>r d1. reserveDestination S opts (sm_Kind m) d = (Inr r, d1) \<and> staging_fails S opts r p d1)))
    else or_Plaintext res = p \<and> (err = None \<or> (\<exists>e. err = Some (ErrWriteAfterConsume e))) \<and>
      (err = None \<and> OutputPath opts \<noteq> [] \<longrightarrow> files d' (Clean (or_WrittenPath res)) = Some p)"
  using assms(3,2,1)
proof (cases rule: cli_Open_cases)
  case early
  then show ?thesis using assms(4) by simp
next
  case (refused m' a r d1)
  then show ?thesis using assms(5-8) by auto
next
  case (opened m' a r d1 ops' i')
  then have same: "m' = m" "a = (pw, key)" "ops' = ops" "i' = i" using assms(5-8) by auto
  note rs = reserved_after [OF opened(3) assms(1)]
  let ?body = "read_all ch 0 (os_Body ops)" and ?result = "empty_result\<lparr>or_Kind := os_Kind ops, or_ContentType := os_ContentType ops\<rparr>"
  have dec: "DecryptWith ag ?body i = Inr (p, None)" using assms(9) by (auto simp: unsealReader_def split: sum.splits option.splits)
  show ?thesis
  proof (cases "os_Kind ops = ''file''")
    case True
    then have run: "openFile ag S opts r i ops ?body ?result d1 = ((res, err), d')" using opened(6) same by (simp add: Let_def)
    have res: "reserveDestination S opts (sm_Kind m) d = (Inr r, d1)" using opened(3) same by simp
    from openFile_effect [OF rs(1,2) assms(1) rs(3) run] dec res True show ?thesis
      by (cases "or_WrittenPath res = []"; cases "or_RescuedPath res = []") (auto simp: empty_result_def)
  next
    case False
    then have run: "openText ag S opts r i ?body ?result d1 = ((res, err), d')" using opened(6) same by (simp add: Let_def)
    have "dt_path r = OutputPath opts" if "OutputPath opts \<noteq> []" using rs(2) that by (simp add: reserved_def)
    then show ?thesis
      using run False assms(9)
      by (auto simp: openText_def Let_def writeText_def write_synced_def put_file_def split: if_splits option.splits)
  qed
qed

subsection \<open>An exchange\<close>

text \<open>A recipient whose disk holds a note, an operating system whose calls work, a server with one text secret
  that is there until it is opened, and an age file in which the plaintext follows the version line.\<close>

definition example_age :: "unit age" where
  "example_age = \<lparr>ag_Generate = Some (), ag_String = (\<lambda>_. IdentityPrefix @ ''QQ''),
     ag_Parse = (\<lambda>s. if s = IdentityPrefix @ ''QQ'' then Some () else None),
     ag_Encrypt = (\<lambda>_ _ p. Some (ageMagic @ p)),
     ag_Decrypt = (\<lambda>_ c e. if e = None \<and> hasPrefix c ageMagic then Inr (drop (length ageMagic) c, None) else Inl NoIdentityMatch),
     ag_Wrap = (\<lambda>_ _ p. Some (ageMagic @ p)),
     ag_Unwrap = (\<lambda>_ _ c. if hasPrefix c ageMagic then Inr (drop (length ageMagic) c, None) else Inl NoIdentityMatch)\<rparr>"

definition example_os :: os where
  "example_os = \<lparr>os_fails = (\<lambda>_ _. None), os_temp = (\<lambda>_. ''123''), os_written = (\<lambda>_. 0)\<rparr>"

definition example_disk :: disk where
  "example_disk = \<lparr>files = [''note'' \<mapsto> ''keep''], is_dir = (\<lambda>p. p = ''.'')\<rparr>"

definition example_answer :: http_answer where
  "example_answer = \<lparr>ha_status = 200, ha_header = (\<lambda>h. if h = ''Flick-Kind'' then ''text'' else []),
     ha_config = Some \<lparr>lm_PayloadInlineMaxBytes = 1000, lm_MaxFileBytes = 1000\<rparr>, ha_created = None,
     ha_metadata = Some \<lparr>sm_Kind = ''text'', sm_Access = None, sm_SizeBytes = int (length ageMagic) + 2\<rparr>, ha_finalized = None,
     ha_error = ([], []), ha_stream = (ageMagic @ ''hi'', True)\<rparr>"

definition example_client :: "bool client" where
  "example_client = NewClient ''https://flick.example/''
     (\<lambda>req there. (Inr example_answer, if wq_method req = ''GET'' then there else False))"

definition example_open :: "unit open_options" where
  "example_open = \<lparr>OutputPath = ''out'', OutputDir = [], op_ID = ''abc'', op_Identity = Some (), op_Passphrase = None\<rparr>"

definition example_reads :: "nat \<Rightarrow> nat \<times> nat \<times> bool" where
  "example_reads i = (511, 7, even i)"

lemma example_premises: "temp_names_ok example_os" "reads_only example_client"
  by (simp_all add: temp_names_ok_def example_os_def reads_only_def example_client_def NewClient_def)

theorem cli_open_safe_witness:
  "\<exists>res err d' w'. cli_Open example_age example_os example_reads example_client example_open example_disk True = ((res, err), d', w') \<and>
     files d' ''note'' = Some ''keep''"
proof -
  obtain res err d' w' where run: "cli_Open example_age example_os example_reads example_client example_open example_disk True = ((res, err), d', w')"
    by (metis surj_pair)
  from cli_open_safe [OF example_premises run] have "files example_disk ''note'' \<noteq> None \<longrightarrow> files d' ''note'' = files example_disk ''note''"
    by blast
  with run show ?thesis by (auto simp: example_disk_def)
qed

lemma example_metadata: "SecretMetadata example_client (op_ID example_open) True = (Inr (the (ha_metadata example_answer)), True)"
  by (simp add: SecretMetadata_def cli_do_def cli_send_def example_client_def NewClient_def example_answer_def)

lemma example_opened:
  "OpenSecret example_client (op_ID example_open) [] (int (length ageMagic) + 2) True =
   (Inr \<lparr>os_Kind = ''text'', os_ContentType = [], os_EncryptedFilename = [], os_WrappedIdentity = None,
      os_Body = ((ageMagic @ ''hi'', True), length ageMagic + 2)\<rparr>, False)"
  by (simp add: OpenSecret_def cli_send_def example_client_def NewClient_def example_answer_def openedSecret_def headerBytes_def
      Let_def nat_add_distrib)

lemma example_access: "open_access example_open (the (ha_metadata example_answer)) = Inr ([], [])"
  by (simp add: open_access_def NeedsPassphrase_def example_answer_def example_open_def)

lemma example_body: "read_all example_reads 0 ((ageMagic @ ''hi'', True), length ageMagic + 2) = (ageMagic @ ''hi'', None)"
  using read_all_exact [of example_reads 0 "ageMagic @ ''hi''" True "length ageMagic + 2"] by simp

lemma example_reserved: "\<exists>r d1. reserveDestination example_os example_open ''text'' example_disk = (Inr r, d1)"
proof -
  have "Clean ''out'' = ''out''" by code_simp
  then show ?thesis
    by (simp add: reserveDestination_def open_excl_def taken_def example_open_def example_os_def example_disk_def)
qed

lemma example_consumes:
  "snd (snd (cli_Open example_age example_os example_reads example_client example_open example_disk True)) = False"
proof -
  obtain r d1 where r: "reserveDestination example_os example_open ''text'' example_disk = (Inr r, d1)" using example_reserved by blast
  have c: "cli_Config example_client True = (\<lparr>lm_PayloadInlineMaxBytes = 1000, lm_MaxFileBytes = 1000\<rparr>, True)"
    by (simp add: cli_Config_def cli_do_def cli_send_def example_client_def NewClient_def example_answer_def)
  have k: "sm_Kind (the (ha_metadata example_answer)) = ''text''" "sm_SizeBytes (the (ha_metadata example_answer)) = int (length ageMagic) + 2"
    "sm_Access (the (ha_metadata example_answer)) = None" by (simp_all add: example_answer_def)
  have z: "\<not> sm_SizeBytes (the (ha_metadata example_answer)) > ageFileBytes 1000"
    unfolding k by (simp add: ageFileBytes_def ageMagic_def wrap64_def quot_def)
  have i: "op_ID example_open \<noteq> []" by (simp add: example_open_def)
  show ?thesis
    unfolding cli_Open_def example_metadata prod.case sum.case example_access k(1) if_not_P [OF i] using z
    by (simp add: c r example_opened k open_identity_def NeedsPassphrase_def Let_def split: prod.splits)
qed

theorem cli_open_hands_over_witness:
  "\<exists>res err d' w'. cli_Open example_age example_os example_reads example_client example_open example_disk True = ((res, err), d', w') \<and>
     or_Plaintext res = ''hi''"
proof -
  obtain res err d' w' where run: "cli_Open example_age example_os example_reads example_client example_open example_disk True = ((res, err), d', w')"
    by (metis surj_pair)
  then have w: "w' \<noteq> True" using example_consumes by simp
  have i: "open_identity example_age example_open (the (ha_metadata example_answer)) [] ops = Inr ()" for ops
    by (simp add: open_identity_def NeedsPassphrase_def example_answer_def)
  have u: "unsealReader example_age () (read_all example_reads 0 ((ageMagic @ ''hi'', True), length ageMagic + 2)) = Inr ''hi''"
    unfolding example_body by (simp add: unsealReader_def DecryptWith_def example_age_def)
  have sz: "sm_SizeBytes (the (ha_metadata example_answer)) = int (length ageMagic) + 2" by (simp add: example_answer_def)
  have "or_Plaintext res = ''hi''"
    using cli_open_hands_over [OF example_premises run w _ example_access _ i, of _ "''hi''"] example_metadata example_opened u sz
    by simp
  with run show ?thesis by blast
qed

end
