(* ===== verification/Client_Roundtrip.thy ===== *)
theory Client_Roundtrip
  imports Client_Safety Http_Router Secret_Delivery
begin

text \<open>
  From the sender's terminal to the recipient's: the command-line client on both ends, the API's router and
  store in between. The client's network is the API: a request is matched to the endpoint whose pattern it
  fits, its body is the JSON object the client's encoder writes (of length \<open>encsize\<close>), and the answer's JSON
  is read under the client's contracts. Each call has its own surroundings.
\<close>

subsection \<open>The wire\<close>

definition some_text :: "string \<Rightarrow> string option" where
  "some_text s = (if s = [] then None else Some s)"

definition wire_create :: "create_call \<Rightarrow> create_secret_request" where
  "wire_create c = \<lparr>rq_Kind = cc_Kind c, rq_Ciphertext = cc_Ciphertext c,
     rq_KDF = (case cc_Access c of None \<Rightarrow> zero_kdf | Some a \<Rightarrow> fst a),
     rq_Proof = (case cc_Access c of None \<Rightarrow> [] | Some a \<Rightarrow> snd a),
     rq_WrappedIdentity = some_text (cc_WrappedIdentity c), rq_EncryptedFilename = some_text (cc_EncryptedFilename c),
     rq_ContentType = some_text (cc_ContentType c), rq_SizeBytes = cc_SizeBytes c, rq_TTLSeconds = cc_TTLSeconds c,
     rq_MaxViews = cc_MaxViews c\<rparr>"

definition create_keys :: "create_call \<Rightarrow> string list" where
  "create_keys c = [''kind''] @ (if cc_Ciphertext c = [] then [] else [''ciphertext'']) @
     (if cc_Access c = None then [] else [''access'']) @ (if cc_WrappedIdentity c = [] then [] else [''wrapped_identity'']) @
     (if cc_EncryptedFilename c = [] then [] else [''encrypted_filename'']) @
     (if cc_ContentType c = [] then [] else [''content_type'']) @ [''size_bytes'', ''ttl_seconds'', ''max_views'']"

definition object_body_of :: "int \<Rightarrow> string list \<Rightarrow> 'r \<Rightarrow> 'r json_body" where
  "object_body_of n ks v = \<lparr>jb_readable = True, jb_length = n, jb_keys = Some ks, jb_value = Some v, jb_single = True\<rparr>"

text \<open>The endpoint of a request below the base URL; the identifier is the path segment.\<close>

definition api_endpoint :: "string \<Rightarrow> (wire_body \<Rightarrow> int) \<Rightarrow> wire_request \<Rightarrow> endpoint option" where
  "api_endpoint base encsize req =
     (let path = drop (length base) (wq_url req); rest = drop (length ''/api/secrets/'') path in
      case wq_body req of
        NoWire \<Rightarrow> Some (if path = ''/api/config'' then GetConfig else GetMetadata rest)
      | CreateWire c \<Rightarrow> Some (PostSecret (object_body_of (encsize (wq_body req)) (create_keys c) (wire_create c)))
      | OpenWire p \<Rightarrow>
          Some (PostOpen (take (length rest - length ''/open'') rest)
            (object_body_of (encsize (wq_body req)) (if p = None then [] else [''access_proof'']) (case p of None \<Rightarrow> [] | Some x \<Rightarrow> x)))
      | EmptyWire \<Rightarrow> Some (PostFinalize (take (length rest - length ''/finalize'') rest))
      | UploadWire _ _ _ \<Rightarrow> None)"

definition wire_answer :: "api_json response \<Rightarrow> http_answer" where
  "wire_answer r =
     \<lparr>ha_status = rs_status r, ha_header = (\<lambda>h. case response_header r h of None \<Rightarrow> [] | Some v \<Rightarrow> v),
      ha_config = (case rs_body r of
          JsonBody (SecretJson (ConfigJson n m _)) \<Rightarrow> Some \<lparr>lm_PayloadInlineMaxBytes = n, lm_MaxFileBytes = m\<rparr> | _ \<Rightarrow> None),
      ha_created = (case rs_body r of
          JsonBody (SecretJson (CreatedJson _ _ i x)) \<Rightarrow> Some \<lparr>ca_ID = i, ca_ExpiresAt = x, ca_Upload = None\<rparr>
        | JsonBody (SecretJson (CreatedLargeJson _ _ i x url meth _ hs)) \<Rightarrow>
            Some \<lparr>ca_ID = i, ca_ExpiresAt = x, ca_Upload = Some \<lparr>pu_URL = url, pu_Method = meth, pu_Headers = hs\<rparr>\<rparr>
        | _ \<Rightarrow> None),
      ha_metadata = (case rs_body r of
          JsonBody (SecretJson (MetadataJson _ kind kdf n _)) \<Rightarrow> Some \<lparr>sm_Kind = kind, sm_Access = kdf, sm_SizeBytes = n\<rparr> | _ \<Rightarrow> None),
      ha_finalized = (case rs_body r of JsonBody (SecretJson (FinalizedJson _ f)) \<Rightarrow> Some f | _ \<Rightarrow> None),
      ha_error = (case rs_body r of ErrorBody c m \<Rightarrow> (c, m) | _ \<Rightarrow> ([], [])),
      ha_stream = (case rs_body r of RawBody b \<Rightarrow> (b, True) | _ \<Rightarrow> ([], True))\<rparr>"

definition wire_http :: "string \<Rightarrow> string \<Rightarrow> wire_request \<Rightarrow> http_request" where
  "wire_http base peer req = \<lparr>rq_method = wq_method req, rq_path = drop (length base) (wq_url req), rq_rawQuery = [],
     rq_header = (\<lambda>k. if k = ''Content-Type'' \<and> wq_body req \<noteq> NoWire then [''application/json''] else []), rq_remoteAddr = peer\<rparr>"

definition deployed ::
  "server \<Rightarrow> (nat \<Rightarrow> surroundings) \<Rightarrow> string \<Rightarrow> string \<Rightarrow> (wire_body \<Rightarrow> int) \<Rightarrow> (world \<times> nat) transport" where
  "deployed sv x base peer encsize req st =
     (case api_endpoint base encsize req of
        None \<Rightarrow> (Inl ''no route'', fst st, Suc (snd st))
      | Some ep \<Rightarrow>
          (case serve sv (x (snd st)) (wire_http base peer req) ep (fst st) of (r, w') \<Rightarrow> (Inr (wire_answer r), w', Suc (snd st))))"

definition deployed_client :: "server \<Rightarrow> (nat \<Rightarrow> surroundings) \<Rightarrow> string \<Rightarrow> string \<Rightarrow> (wire_body \<Rightarrow> int) \<Rightarrow> (world \<times> nat) client" where
  "deployed_client sv x base peer encsize = NewClient base (deployed sv x (trimRightSlashes base) peer encsize)"

subsection \<open>The calls\<close>

lemma serve_method:
  "rq_method r \<noteq> ''OPTIONS'' \<Longrightarrow> serve sv x r ep w = map_prod (after_headers (cors_headers sv r)) id (dispatch sv x r ep w)"
  by (simp add: serve_def cors_def)

lemma base_deployed [simp]: "baseURL (deployed_client sv x base peer encsize) = trimRightSlashes base"
  by (simp add: deployed_client_def NewClient_def)

lemma config_deployed:
  assumes "0 < sv_advertisedInlineMaxBytes sv" "0 < sv_maxFileBytes sv"
  shows "cli_Config (deployed_client sv x base peer encsize) (w, k) =
    (\<lparr>lm_PayloadInlineMaxBytes = sv_advertisedInlineMaxBytes sv, lm_MaxFileBytes = sv_maxFileBytes sv\<rparr>, w, Suc k)"
  using assms
  by (simp add: cli_Config_def cli_do_def cli_send_def deployed_client_def NewClient_def deployed_def api_endpoint_def Let_def
      serve_method wire_http_def wire_answer_def getConfig_def map_response_def)

text \<open>What the calls of one secret need of the server: its identifier passes through a URL unchanged.\<close>

lemma PathEscape_plain: "\<forall>c\<in>set s. segment_char c \<Longrightarrow> PathEscape s = s"
  by (induction s) (simp_all add: PathEscape_def)

lemma PathEscape_rawurl: "PathEscape (rawurl_encode b) = rawurl_encode b"
proof (rule PathEscape_plain, rule ballI)
  fix c assume "c \<in> set (rawurl_encode b)"
  then obtain n where n: "n \<in> set (to_sextets b)" "c = sextet_char url_tail n" by (auto simp: rawurl_encode_def)
  have "n < 64" using n(1) by (rule to_sextets_less)
  then show "segment_char c" unfolding n(2)
    by (cases n rule: sextet_cases) (auto simp: segment_char_def sextet_char_def url_tail_def byte_char_of)
qed

lemma limited_cases:
  assumes "limited sel upd mid next w = (r, w')"
  obtains (refused) rl where "mid (sel (w_limiters w)) = (Some r, rl)"
  | (passed) rl where "mid (sel (w_limiters w)) = (None, rl)" "next (w\<lparr>w_limiters := upd (\<lambda>_. rl) (w_limiters w)\<rparr>) = (r, w')"
  using assms by (auto simp: limited_def Let_def split: prod.splits option.splits)

lemma decode_object:
  assumes "n \<le> max 0 limit" "\<forall>k\<in>set ks. k \<notin> set sensitive_keys"
  shows "decode_body limit contract (object_body_of n ks v) = Inr v"
  using assms by (auto simp: decode_body_def body_read_def hasSensitiveField_def object_body_of_def list_ex_iff)

lemma create_keys_plain: "\<forall>k\<in>set (create_keys c). k \<notin> set sensitive_keys"
  by (simp add: create_keys_def sensitive_keys_def)

text \<open>A create that was answered with success has stored what was sent.\<close>

definition create_input_of :: "create_call \<Rightarrow> bytes \<Rightarrow> string \<Rightarrow> create_input" where
  "create_input_of c ciphertext hash = \<lparr>ci_Kind = cc_Kind c, ci_Ciphertext = ciphertext,
     ci_AccessKDF = (case cc_Access c of None \<Rightarrow> zero_kdf | Some a \<Rightarrow> fst a), ci_AccessProofHash = hash,
     ci_WrappedIdentity = some_text (cc_WrappedIdentity c), ci_EncryptedFilename = some_text (cc_EncryptedFilename c),
     ci_ContentType = some_text (cc_ContentType c), ci_SizeBytes = cc_SizeBytes c, ci_TTLSeconds = cc_TTLSeconds c,
     ci_MaxViews = normalizeMaxViews (cc_MaxViews c)\<rparr>"

lemma createSecret_success:
  assumes "createSecret sv svc e (object_body_of n (create_keys c) (wire_create c)) s = (r, s')" "rs_status r < 300"
    and "cc_Ciphertext c \<noteq> []"
  shows "\<exists>ciphertext hash sec. std_decode (cc_Ciphertext c) = Some ciphertext \<and>
    accessHash (case cc_Access c of None \<Rightarrow> [] | Some a \<Rightarrow> snd a) = Some hash \<and>
    Create (sv_store sv) e (create_input_of c ciphertext hash) s = (Inr sec, s') \<and>
    rs_body r = JsonBody (CreatedJson (ManagementToken sec) (formatTime (ExpiresAt sec)) (ID sec) (formatTime (ExpiresAt sec)))"
proof -
  have no: "\<not> rs_status (too_large :: secret_json response) < 300" "\<not> rs_status (writeSecretError err :: secret_json response) < 300" for err
    by (simp add: too_large_def, cases err, auto simp: writeError_def)
  have dec: "decode_body (createSecretBodyLimit sv) contract (object_body_of n (create_keys c) (wire_create c)) =
      (if n \<le> max 0 (createSecretBodyLimit sv) then Inr (wire_create c) else Inl too_large)" for contract
    using decode_object [OF _ create_keys_plain, of n "createSecretBodyLimit sv" contract c "wire_create c"]
    by (auto simp: decode_body_def body_read_def object_body_of_def)
  have len: "n \<le> max 0 (createSecretBodyLimit sv)"
  proof (rule ccontr)
    assume "\<not> ?thesis"
    then have "r = after_headers no_store too_large" using assms(1) unfolding createSecret_def dec by simp
    then show False using assms(2) no(1) by simp
  qed
  have c: "rq_Ciphertext (wire_create c) = cc_Ciphertext c" "rq_Proof (wire_create c) = (case cc_Access c of None \<Rightarrow> [] | Some a \<Rightarrow> snd a)"
    by (simp_all add: wire_create_def)
  note run = assms(1) [unfolded createSecret_def dec if_P [OF len] sum.case c if_not_P [OF assms(3)]]
  show ?thesis
  proof (cases "std_decode (cc_Ciphertext c)")
    case None
    then show ?thesis using run assms(2) by auto
  next
    case (Some ciphertext)
    show ?thesis
    proof (cases "accessHash (case cc_Access c of None \<Rightarrow> [] | Some a \<Rightarrow> snd a)")
      case None
      then show ?thesis using run assms(2) Some by auto
    next
      case hash: (Some hash)
      have inp: "\<lparr>ci_Kind = rq_Kind (wire_create c), ci_Ciphertext = ciphertext, ci_AccessKDF = rq_KDF (wire_create c), ci_AccessProofHash = hash,
           ci_WrappedIdentity = rq_WrappedIdentity (wire_create c), ci_EncryptedFilename = rq_EncryptedFilename (wire_create c),
           ci_ContentType = rq_ContentType (wire_create c), ci_SizeBytes = rq_SizeBytes (wire_create c),
           ci_TTLSeconds = rq_TTLSeconds (wire_create c), ci_MaxViews = normalizeMaxViews (rq_MaxViews (wire_create c))\<rparr> =
         create_input_of c ciphertext hash" by (simp add: wire_create_def create_input_of_def)
      note run = run [unfolded Some option.case hash inp]
      obtain res s1 where cr: "Create (sv_store sv) e (create_input_of c ciphertext hash) s = (res, s1)" by fastforce
      show ?thesis
      proof (cases res)
        case (Inl err)
        then show ?thesis using run cr no(2) [of err] assms(2) by auto
      next
        case (Inr sec)
        then show ?thesis using run cr Some hash by auto
      qed
    qed
  qed
qed

lemma create_deployed:
  assumes "CreateSecret (deployed_client sv x base peer encsize) req (w, k) = (Inr created, w1, k1)" "cc_Ciphertext req \<noteq> []"
  shows "k1 = Suc k \<and> (\<exists>ciphertext hash sec. std_decode (cc_Ciphertext req) = Some ciphertext \<and>
    accessHash (case cc_Access req of None \<Rightarrow> [] | Some a \<Rightarrow> snd a) = Some hash \<and>
    Create (sv_store sv) (su_env (x k) 0) (create_input_of req ciphertext hash) (w_db w) = (Inr sec, w_db w1) \<and> ca_ID created = ID sec)"
proof -
  let ?b = "trimRightSlashes base"
  define rq where "rq = \<lparr>wq_method = ''POST'', wq_url = ?b @ ''/api/secrets'', wq_body = CreateWire req\<rparr>"
  define body where "body = object_body_of (encsize (CreateWire req)) (create_keys req) (wire_create req)"
  obtain r w2 where sv: "dispatch sv (x k) (wire_http ?b peer rq) (PostSecret body) w = (r, w2)" by fastforce
  define a where "a = wire_answer (after_headers (cors_headers sv (wire_http ?b peer rq)) r)"
  have dep: "deployed sv x ?b peer encsize rq (w, k) = (Inr a, w2, Suc k)"
    by (simp add: deployed_def api_endpoint_def rq_def [symmetric] serve_method)
      (simp add: rq_def api_endpoint_def serve_method wire_http_def sv [unfolded rq_def body_def wire_http_def, simplified] a_def body_def)
  have send: "cl_http (deployed_client sv x base peer encsize) rq (w, k) = (Inr a, w2, Suc k)"
    by (simp add: deployed_client_def NewClient_def dep)
  have "k1 = Suc k \<and> w1 = w2 \<and> ha_status a < 300 \<and> ha_created a = Some created"
    using assms(1) send by (auto simp: CreateSecret_def cli_do_def cli_send_def rq_def split: if_splits option.splits)
  then have out: "k1 = Suc k" "w1 = w2" "rs_status r < 300" "ha_created a = Some created" by (auto simp: a_def wire_answer_def)
  from sv show ?thesis unfolding dispatch.simps
  proof (cases rule: limited_cases)
    case (refused rl)
    then have "r = rate_limited" by (auto simp: path_middleware_def middlewareByKey_def split: prod.splits if_splits)
    then show ?thesis using out(3) by (simp add: rate_limited_def)
  next
    case (passed rl)
    obtain r0 s1 where h: "createSecret sv (su_s3 (x k)) (su_env (x k) 0) body (w_db w) = (r0, s1)" by fastforce
    have r: "r = map_response SecretJson r0" "w_db w2 = s1" using passed(2) h by (auto simp: on_db_def secret_json_of_def)
    have "rs_status r0 < 300" using out(3) r by (simp add: map_response_def)
    from createSecret_success [OF h [unfolded body_def] this assms(2)] show ?thesis
      using out r by (auto simp: a_def wire_answer_def map_response_def)
  qed
qed

lemma metadata_after_create:
  assumes "Create st e input s = (Inr sec, s1)" "draw e ''secret id'' \<noteq> Some []"
    and "\<not> fails e2 ''load secret metadata''" "clock e2 0 < ExpiresAt sec"
  shows "Metadata e2 (ID sec) s1 = Inr \<lparr>md_ID = ID sec, md_Kind = ci_Kind input,
      md_AccessKDF = (if ci_AccessProofHash input = [] then zero_kdf else ci_AccessKDF input),
      md_SizeBytes = ci_SizeBytes input, md_ExpiresAt = ExpiresAt sec\<rparr> \<and> (\<exists>raw. raw \<noteq> [] \<and> ID sec = rawurl_encode raw) \<and>
    ExpiresAt sec = clock e 0 + wrap64 (ci_TTLSeconds input * Second)"
proof -
  from assms(1) obtain i raw inp now x where a: "inp = one_view input" "now = clock e 0" "x = now + wrap64 (ci_TTLSeconds inp * Second)"
    "generateID e = Some i" "i \<notin> s_id ` set (secrets s)" "i \<notin> p_secret_id ` set (secret_payloads s)"
    "s1 = s\<lparr>secrets := secrets s @ [inline_row i inp now x],
       secret_payloads := secret_payloads s @
         [\<lparr>p_secret_id = i, p_ciphertext = ci_Ciphertext inp, p_created_at = now\<rparr>],
       secret_management := secret_management s @
         [\<lparr>m_secret_id = i, m_token_hash = sha256 raw, m_expires_at = x, m_outcome = None\<rparr>]\<rparr>"
    "ID sec = i" "ExpiresAt sec = x"
    by (rule Create_Inr)
  have inp: "ci_Kind inp = ci_Kind input" "ci_AccessProofHash inp = ci_AccessProofHash input" "ci_AccessKDF inp = ci_AccessKDF input"
    "ci_SizeBytes inp = ci_SizeBytes input" "ci_TTLSeconds inp = ci_TTLSeconds input"
    by (simp_all add: a(1) one_view_def)
  obtain b where b: "draw e ''secret id'' = Some b" "i = rawurl_encode b" "b \<noteq> []"
    using a(4) assms(2) by (auto simp: generateID_def)
  have row: "sql_row (\<lambda>r. s_id r = i \<and> (s_storage_backend r = StorageS3 \<or> (\<exists>p\<in>set (secret_payloads s1). p_secret_id p = s_id r))) (secrets s1) =
      Some (inline_row i inp now x)"
  proof -
    have "sql_row (\<lambda>r. s_id r = i \<and> (s_storage_backend r = StorageS3 \<or> (\<exists>p\<in>set (secret_payloads s1). p_secret_id p = s_id r))) (secrets s) = None"
      using a(5) by (auto simp: sql_row_None)
    then show ?thesis by (auto simp: a(7) sql_row_append inline_row_def split: prod.split)
  qed
  have "i \<noteq> []" using b by simp
  then have "Metadata e2 i s1 = Inr \<lparr>md_ID = i, md_Kind = ci_Kind input,
      md_AccessKDF = (if ci_AccessProofHash input = [] then zero_kdf else ci_AccessKDF input),
      md_SizeBytes = ci_SizeBytes input, md_ExpiresAt = x\<rparr>"
    unfolding Metadata_def row using assms(3,4) a(8,9) by (simp add: inline_row_def modelAColumns_def inp)
  then show ?thesis using a(2,3,8,9) b inp by auto
qed

lemma metadata_deployed:
  assumes "Metadata (su_env (x k) 0) i (w_db w) = Inr m" "PathEscape i = i"
  shows "SecretMetadata (deployed_client sv x base peer encsize) i (w, k) =
    (Inr \<lparr>sm_Kind = md_Kind m, sm_Access = (if Algorithm (md_AccessKDF m) \<noteq> [] then Some (md_AccessKDF m) else None),
      sm_SizeBytes = md_SizeBytes m\<rparr>, w, Suc k)"
  using assms
  by (simp add: SecretMetadata_def cli_do_def cli_send_def deployed_client_def NewClient_def deployed_def api_endpoint_def Let_def
      serve_method wire_http_def wire_answer_def getSecretMetadata_def map_response_def on_db_def secret_json_of_def)

definition open_http :: "string \<Rightarrow> string \<Rightarrow> string \<Rightarrow> string \<Rightarrow> http_request" where
  "open_http base peer i proof = wire_http (trimRightSlashes base) peer
     \<lparr>wq_method = ''POST'', wq_url = trimRightSlashes base @ ''/api/secrets/'' @ PathEscape i @ ''/open'',
      wq_body = OpenWire (if proof \<noteq> [] then Some proof else None)\<rparr>"

lemma opened_headers:
  "response_header (opened_response sec) ''Flick-Kind'' = Some (Kind sec)"
  "response_header (opened_response sec) ''Flick-Wrapped-Identity'' = WrappedIdentity sec"
  by (auto simp: response_header_def opened_response_def split: option.split)

lemma open_deployed:
  assumes "0 < n" "fst (path_middleware (open_http base peer i proof) (su_now (x k)) (openLimiter (w_limiters w)) ::
      api_json response option \<times> rate_limiter) = None"
    and "\<forall>p. encsize (OpenWire p) \<le> createBodyOverheadLimit" "PathEscape i = i" "accessHash proof = Some hash"
    and "openAndEnqueueCleanup (sv_store sv) (su_s3 (x k)) (su_env (x k) 0) i hash (w_db w) = (Inr sec, s2)" "Body sec = None"
    and "Kind sec = ''text''" "\<And>v. WrappedIdentity sec = Some v \<Longrightarrow> v \<noteq> [] \<and> std_decode v \<noteq> None"
  shows "\<exists>ops w2. OpenSecret (deployed_client sv x base peer encsize) i proof n (w, k) = (Inr ops, w2) \<and> os_Kind ops = ''text'' \<and>
    os_Body ops = ((Ciphertext sec, True), nat n) \<and>
    os_WrappedIdentity ops = (case WrappedIdentity sec of None \<Rightarrow> None | Some v \<Rightarrow> std_decode v)"
proof -
  let ?b = "trimRightSlashes base"
  define p where "p = (if proof \<noteq> [] then Some proof else None)"
  define rq where "rq = \<lparr>wq_method = ''POST'', wq_url = ?b @ ''/api/secrets/'' @ i @ ''/open'', wq_body = OpenWire p\<rparr>"
  define body where "body = object_body_of (encsize (OpenWire p)) (if p = None then [] else [''access_proof'']) (case p of None \<Rightarrow> [] | Some y \<Rightarrow> y)"
  have http: "open_http base peer i proof = wire_http ?b peer rq" by (simp add: open_http_def rq_def p_def assms(4))
  have proof_p: "(case p of None \<Rightarrow> [] | Some y \<Rightarrow> y) = proof" by (simp add: p_def)
  have ep: "api_endpoint ?b encsize rq = Some (PostOpen i body)"
    by (simp add: api_endpoint_def rq_def body_def Let_def)
  have dec: "decode_body createBodyOverheadLimit contract body = Inr proof" for contract
    unfolding body_def proof_p
    by (rule decode_object) (use assms(3) in \<open>auto simp: sensitive_keys_def createBodyOverheadLimit_def intro: order_trans\<close>)
  have ans: "openSecret sv (su_s3 (x k)) (su_streaming (x k)) (su_env (x k) 0) (su_env (x k) 1) i body (w_db w) = (opened_response sec, s2)"
    using assms(5-7) by (simp add: openSecret_def open_answer_def dec)
  obtain rl where rl: "path_middleware (wire_http ?b peer rq) (su_now (x k)) (openLimiter (w_limiters w)) =
      (None :: api_json response option, rl)" using assms(2) unfolding http by (metis prod.collapse)
  define w2 where "w2 = w\<lparr>w_limiters := openLimiter_update (\<lambda>_. rl) (w_limiters w), w_db := s2\<rparr>"
  have disp: "dispatch sv (x k) (wire_http ?b peer rq) (PostOpen i body) w = (map_response SecretJson (opened_response sec), w2)"
    by (simp add: limited_def rl on_db_def ans [unfolded One_nat_def] secret_json_of_def w2_def)
  define r where "r = after_headers (cors_headers sv (wire_http ?b peer rq)) (map_response SecretJson (opened_response sec))"
  have "rq_method (wire_http ?b peer rq) \<noteq> ''OPTIONS''" by (simp add: wire_http_def rq_def)
  then have dep: "deployed sv x ?b peer encsize rq (w, k) = (Inr (wire_answer r), w2, Suc k)"
    by (simp add: deployed_def ep serve_method disp r_def del: dispatch.simps)
  have hd: "response_header (map_response SecretJson (opened_response sec)) h = response_header (opened_response sec) h" for h
    by (simp add: response_header_def map_response_def)
  have kind: "ha_header (wire_answer r) ''Flick-Kind'' = ''text''"
    by (simp add: wire_answer_def r_def after_headers_get hd opened_headers assms(8))
  have wrap: "ha_header (wire_answer r) ''Flick-Wrapped-Identity'' = (case WrappedIdentity sec of None \<Rightarrow> [] | Some v \<Rightarrow> v)"
    by (auto simp: wire_answer_def r_def after_headers_get hd opened_headers cors_headers_def Let_def split: option.split)
  have hb: "headerBytes (wire_answer r) ''Flick-Wrapped-Identity'' = Inr (case WrappedIdentity sec of None \<Rightarrow> None | Some v \<Rightarrow> std_decode v)"
    unfolding headerBytes_def wrap using assms(9) by (auto split: option.split)
  have st: "ha_status (wire_answer r) = 200" "ha_stream (wire_answer r) = (Ciphertext sec, True)"
    by (simp_all add: wire_answer_def r_def map_response_def opened_response_def assms(7))
  have "cl_http (deployed_client sv x base peer encsize) rq (w, k) = (Inr (wire_answer r), w2, Suc k)"
    by (simp add: deployed_client_def NewClient_def dep)
  then have "OpenSecret (deployed_client sv x base peer encsize) i proof n (w, k) = (openedSecret (wire_answer r) n, w2, Suc k)"
    using assms(1) unfolding OpenSecret_def cli_send_def assms(4) base_deployed p_def [symmetric]
    by (simp add: rq_def [symmetric, simplified] st)
  then show ?thesis using st kind hb by (auto simp: openedSecret_def Let_def)
qed

subsection \<open>The round trip\<close>

text \<open>The age format's documented size: an encrypted file begins with the version line and is no longer than
  the format's formula says.\<close>

definition age_sized :: "'i age \<Rightarrow> bool" where
  "age_sized ag \<longleftrightarrow> (\<forall>what i p c. ag_Encrypt ag what i p = Some c \<longrightarrow> hasPrefix c ageMagic \<and> int (length c) \<le> age_size (int (length p)))"

lemma ageFileBytes_exact: "0 \<le> n \<Longrightarrow> n < 2 ^ 62 \<Longrightarrow> ageFileBytes n = age_size n"
proof -
  assume n: "0 \<le> n" "n < 2 ^ 62"
  have q: "quot (wrap64 (n + 65535)) 65536 = (n + 65535) div 65536" using n by (simp add: wrap64_id quot_nonneg)
  have "16 * max 1 ((n + 65535) div 65536) \<le> n + 65536 * 16" using n by (auto simp: max_def)
  moreover have "16 \<le> 16 * max 1 ((n + 65535) div 65536)" by simp
  ultimately show ?thesis using n unfolding ageFileBytes_def q age_size_def by (simp add: wrap64_id)
qed

text \<open>A text that was sent: its request, and the identity it was encrypted to.\<close>

lemma sent_text:
  assumes "cli_Send ag S mime drawn (deployed_client sv x base peer encsize) opts (w, k) = (Inr result, w1, k1)" "sn_FileName opts = []"
    and "0 < sv_advertisedInlineMaxBytes sv" "0 < sv_maxFileBytes sv"
  shows "\<exists>i c req created. ag_Generate ag = Some i \<and> ag_Encrypt ag ''body'' i (sn_Text opts) = Some c \<and>
    int (length (sn_Text opts)) \<le> sv_advertisedInlineMaxBytes sv \<and> validateSendOptions opts = None \<and>
    (if sn_Passphrase opts = [] then req = text_call c (sn_TTL opts)
     else addPassphrase ag drawn i (sn_Passphrase opts) (text_call c (sn_TTL opts)) = Inr req) \<and>
    CreateSecret (deployed_client sv x base peer encsize) req (w, Suc k) = (Inr created, w1, k1) \<and> sr_ID result = ca_ID created"
proof -
  note run = assms(1) [unfolded cli_Send_def config_deployed [OF assms(3,4)] prod.case]
  obtain i where v: "validateSendOptions opts = None" and i: "ag_Generate ag = Some i" using run by (auto split: option.splits)
  note run = run [unfolded v i option.case]
  let ?lim = "\<lparr>lm_PayloadInlineMaxBytes = sv_advertisedInlineMaxBytes sv, lm_MaxFileBytes = sv_maxFileBytes sv\<rparr>"
  obtain req large where pr: "prepare ag S mime drawn i ?lim opts = Inr (req, large)" using run by (auto split: sum.splits)
  note run = run [unfolded pr sum.case prod.case]
  from pr obtain c where c: "prepare_text ag i ?lim opts = Inr c" "large = None"
    "(if sn_Passphrase opts \<noteq> [] then addPassphrase ag drawn i (sn_Passphrase opts) (text_call c (sn_TTL opts)) else Inr (text_call c (sn_TTL opts))) = Inr req"
    using assms(2) by (cases "prepare_text ag i ?lim opts") (auto simp: prepare_def Let_def split: sum.splits)
  have enc: "ag_Encrypt ag ''body'' i (sn_Text opts) = Some c" "int (length (sn_Text opts)) \<le> sv_advertisedInlineMaxBytes sv"
    using c(1) assms(3) by (auto simp: prepare_text_def seal_def split: if_splits sum.splits option.splits)
  obtain created where "CreateSecret (deployed_client sv x base peer encsize) req (w, Suc k) = (Inr created, w1, k1)" "sr_ID result = ca_ID created"
    using run c(2) by (auto simp: Let_def split: sum.splits prod.splits)
  then show ?thesis using v i enc c(3) by (auto split: if_splits)
qed

text \<open>A text that is printed: the flow without a destination.\<close>

lemma open_text_runs:
  assumes "op_ID opts \<noteq> []" "OutputPath opts = []" "SecretMetadata c (op_ID opts) w = (Inr m, w1)" "sm_Kind m = ''text''"
    and "open_access opts m = Inr (pw, key)" "cli_Config c w1 = (limits, w2)"
    and "sm_SizeBytes m \<le> ageFileBytes (lm_PayloadInlineMaxBytes limits)"
    and "OpenSecret c (op_ID opts) key (sm_SizeBytes m) w2 = (Inr ops, w3)" "os_Kind ops = ''text''"
    and "open_identity ag opts m pw ops = Inr i" "unsealReader ag i (read_all ch 0 (os_Body ops)) = Inr p"
  shows "\<exists>res. cli_Open ag S ch c opts d w = ((res, None), d, w3) \<and> or_Plaintext res = p"
  using assms by (simp add: cli_Open_def reserveDestination_def openText_def Let_def)

lemma accessHash_proof:
  assumes "DeriveAccessProof pw kdf = Inr key" "accessHash key = Some hash"
  shows "key \<noteq> []" "hash \<noteq> []"
proof -
  obtain b where b: "length b = 32" "key = std_encode b" using DeriveAccessProof_bytes(1) [OF assms(1)] by blast
  have ne: "std_encode c \<noteq> []" if "length c = 32" for c
    using that std_decode_encode [of False c] by (cases c) (auto simp: std_encode_def dest: arg_cong [of _ _ length] simp: length_to_sextets)
  show "key \<noteq> []" using b ne by simp
  then show "hash \<noteq> []" using assms(2) ne [OF length_sha256] by (auto simp: accessHash_def hashAccessProof_def split: option.splits if_splits)
qed

text \<open>The access of a sent text, seen by its recipient.\<close>

lemma access_roundtrip:
  assumes "if pw = [] then req = text_call c ttl else addPassphrase ag drawn i pw (text_call c ttl) = Inr req"
    and "accessHash (case cc_Access req of None \<Rightarrow> [] | Some a \<Rightarrow> snd a) = Some hash"
    and "identity_text_ok ag" "age_unwraps ag"
    and "if pw = [] then op_Identity opts = Some i else op_Passphrase opts = Some (Inr pw)"
    and "sm_Access m = (if Algorithm kdf \<noteq> [] then Some kdf else None)"
    and "kdf = (if hash = [] then zero_kdf else case cc_Access req of None \<Rightarrow> zero_kdf | Some a \<Rightarrow> fst a)"
  shows "\<exists>pw' key. open_access opts m = Inr (pw', key) \<and> accessHash key = Some hash \<and>
    (\<forall>ops. os_WrappedIdentity ops = (case some_text (cc_WrappedIdentity req) of None \<Rightarrow> None | Some v \<Rightarrow> std_decode v) \<longrightarrow>
       (pw \<noteq> [] \<longrightarrow> cc_WrappedIdentity req \<noteq> []) \<longrightarrow> open_identity ag opts m pw' ops = Inr i)"
proof (cases "pw = []")
  case True
  then have "hash = []" "cc_Access req = None" using assms(1,2) by (auto simp: text_call_def accessHash_def)
  then have "sm_Access m = None" using assms(6,7) by (simp add: zero_kdf_def)
  moreover have "op_Identity opts = Some i" using assms(5) True by simp
  ultimately show ?thesis
    using \<open>hash = []\<close> by (auto simp: open_access_def open_identity_def NeedsPassphrase_def accessHash_def)
next
  case False
  then obtain k key wrapped where v: "NewAccessVerifier drawn pw = Inr (k, key)" "WrapIdentity ag i pw = Inr wrapped"
    "req = (text_call c ttl)\<lparr>cc_Access := Some (k, key), cc_WrappedIdentity := std_encode wrapped\<rparr>"
    using assms(1) by (auto simp: addPassphrase_def split: sum.splits)
  have dk: "DeriveAccessProof pw k = Inr key" using derive_again [OF v(1)] .
  have h: "accessHash key = Some hash" using assms(2) v(3) by simp
  have "hash \<noteq> []" using accessHash_proof [OF dk h] by simp
  moreover have "Algorithm k \<noteq> []" using DeriveAccessProof_bytes(3) [OF dk] by (auto simp: ValidateKDF_def KDFAlgorithm_def split: if_splits)
  ultimately have "sm_Access m = Some k" using assms(6,7) v(3) by simp
  moreover have "op_Passphrase opts = Some (Inr pw)" using assms(5) False by simp
  moreover have "UnwrapIdentity ag wrapped pw = Inr i" by (rule unwrap_wrap [OF assms(3,4) v(2)])
  ultimately show ?thesis
    using dk h v(3) False std_decode_encode [of False wrapped]
    by (auto simp: open_access_def open_identity_def NeedsPassphrase_def client_AccessKDF_def some_text_def std_decode_def)
qed

lemma Create_wrapped:
  assumes "Create st e input s = (Inr sec, s1)" "ci_AccessProofHash input \<noteq> []"
  shows "ci_WrappedIdentity input \<noteq> None"
proof -
  from assms(1) obtain inp where "inp = one_view input" "validateCreate st inp = None" by (rule Create_Inr)
  then show ?thesis using validateCreate_accepted [of st inp] assms(2) by (auto simp: accepted_def one_view_def split: if_splits)
qed

lemma std_encode_ne: "b \<noteq> [] \<Longrightarrow> std_encode b \<noteq> []"
  by (cases b) (auto simp: std_encode_def length_to_sextets dest: arg_cong [of _ _ length])

text \<open>A lifetime the client accepts does not overflow a duration.\<close>

lemma sent_ttl:
  assumes "validateSendOptions opts = None"
  shows "wrap64 (sn_TTL opts div Second * Second) = sn_TTL opts div Second * Second"
proof (rule wrap64_id)
  have "MinTTL \<le> sn_TTL opts" "sn_TTL opts \<le> MaxTTL" using assms by (auto simp: validateSendOptions_def split: if_splits)
  then show "- (2 ^ 63) \<le> sn_TTL opts div Second * Second" "sn_TTL opts div Second * Second < 2 ^ 63"
    using div_mult_mod_eq [of "sn_TTL opts" Second] pos_mod_bound [of Second "sn_TTL opts"] pos_mod_sign [of Second "sn_TTL opts"]
    by (simp_all add: MinTTL_def MaxTTL_def duration_units)
qed

text \<open>What a sent text left at the server: the ciphertext \<open>c\<close> under the identity \<open>i\<close>, with the access of \<open>req\<close>.\<close>

definition stored_text ::
  "'i age \<Rightarrow> bytes option \<Rightarrow> send_options \<Rightarrow> store \<Rightarrow> env \<Rightarrow> api \<Rightarrow> api \<Rightarrow> 'i \<Rightarrow> bytes \<Rightarrow> create_call \<Rightarrow> string \<Rightarrow> secret \<Rightarrow> bool" where
  "stored_text ag drawn opts st e s s1 i c req hash sec \<longleftrightarrow>
     ag_Generate ag = Some i \<and> ag_Encrypt ag ''body'' i (sn_Text opts) = Some c \<and> c \<noteq> [] \<and>
     (if sn_Passphrase opts = [] then req = text_call c (sn_TTL opts)
      else addPassphrase ag drawn i (sn_Passphrase opts) (text_call c (sn_TTL opts)) = Inr req) \<and>
     accessHash (case cc_Access req of None \<Rightarrow> [] | Some a \<Rightarrow> snd a) = Some hash \<and>
     Create st e (create_input_of req c hash) s = (Inr sec, s1) \<and>
     ExpiresAt sec = clock e 0 + sn_TTL opts div Second * Second"

lemma stored_request:
  assumes "stored_text ag drawn opts st e s s1 i c req hash sec"
  shows "ci_Kind (create_input_of req c hash) = ''text''" "ci_SizeBytes (create_input_of req c hash) = int (length c)"
    "ci_TTLSeconds (create_input_of req c hash) = sn_TTL opts div Second" "cc_Ciphertext req = std_encode c"
  using assms by (auto simp: stored_text_def create_input_of_def text_call_def addPassphrase_def split: if_splits sum.splits)

lemma sent_text_stored:
  assumes "cli_Send ag S mime drawn (deployed_client sv x base peer encsize) opts (w, k) = (Inr result, w1, k1)" "sn_FileName opts = []"
    and "0 < sv_advertisedInlineMaxBytes sv" "0 < sv_maxFileBytes sv" "age_sized ag"
  shows "k1 = Suc (Suc k) \<and> (\<exists>i c req hash sec. sr_ID result = ID sec \<and>
    int (length c) \<le> age_size (int (length (sn_Text opts))) \<and> int (length (sn_Text opts)) \<le> sv_advertisedInlineMaxBytes sv \<and>
    stored_text ag drawn opts (sv_store sv) (su_env (x (Suc k)) 0) (w_db w) (w_db w1) i c req hash sec)"
proof -
  from sent_text [OF assms(1-4)] obtain i c req created where
    i: "ag_Generate ag = Some i" "ag_Encrypt ag ''body'' i (sn_Text opts) = Some c" and
    len: "int (length (sn_Text opts)) \<le> sv_advertisedInlineMaxBytes sv" and v: "validateSendOptions opts = None" and
    req: "if sn_Passphrase opts = [] then req = text_call c (sn_TTL opts)
      else addPassphrase ag drawn i (sn_Passphrase opts) (text_call c (sn_TTL opts)) = Inr req" and
    cr: "CreateSecret (deployed_client sv x base peer encsize) req (w, Suc k) = (Inr created, w1, k1)" and
    id: "sr_ID result = ca_ID created" by blast
  have sized: "hasPrefix c ageMagic" "int (length c) \<le> age_size (int (length (sn_Text opts)))" using assms(5) i(2) by (auto simp: age_sized_def)
  then have c: "c \<noteq> []" by (auto simp: hasPrefix_def ageMagic_def)
  have enc: "cc_Ciphertext req = std_encode c" and t: "cc_TTLSeconds req = sn_TTL opts div Second"
    using req by (auto simp: text_call_def addPassphrase_def split: if_splits sum.splits)
  have dec: "std_decode (std_encode c) = Some c" by (simp add: std_decode_def std_decode_encode)
  from create_deployed [OF cr] std_encode_ne [OF c] enc dec obtain hash sec where
    k1: "k1 = Suc (Suc k)" and hash: "accessHash (case cc_Access req of None \<Rightarrow> [] | Some a \<Rightarrow> snd a) = Some hash" and
    create: "Create (sv_store sv) (su_env (x (Suc k)) 0) (create_input_of req c hash) (w_db w) = (Inr sec, w_db w1)" and
    cid: "ca_ID created = ID sec" by auto
  have "ExpiresAt sec = clock (su_env (x (Suc k)) 0) 0 + sn_TTL opts div Second * Second"
    using create t sent_ttl [OF v] by (auto elim!: Create_Inr simp: one_view_def create_input_of_def split: if_splits)
  then show ?thesis using k1 id cid len sized(2) i c req hash create unfolding stored_text_def by metis
qed

lemma stored_wrapped:
  assumes "stored_text ag drawn opts st e s s1 i c req hash sec"
  shows "sn_Passphrase opts \<noteq> [] \<longrightarrow> cc_WrappedIdentity req \<noteq> []"
    and "some_text (cc_WrappedIdentity req) = Some v \<Longrightarrow> v \<noteq> [] \<and> std_decode v \<noteq> None"
proof
  assume p: "sn_Passphrase opts \<noteq> []"
  then obtain kd ke where "NewAccessVerifier drawn (sn_Passphrase opts) = Inr (kd, ke)" "cc_Access req = Some (kd, ke)"
    using assms by (auto simp: stored_text_def addPassphrase_def split: sum.splits)
  then have "hash \<noteq> []" using accessHash_proof [OF derive_again] assms by (auto simp: stored_text_def)
  then show "cc_WrappedIdentity req \<noteq> []"
    using Create_wrapped [of st e "create_input_of req c hash" s sec s1] assms
    by (auto simp: stored_text_def create_input_of_def some_text_def split: if_splits)
next
  show "some_text (cc_WrappedIdentity req) = Some v \<Longrightarrow> v \<noteq> [] \<and> std_decode v \<noteq> None"
    using assms std_decode_encode [of False]
    by (auto simp: stored_text_def some_text_def text_call_def addPassphrase_def std_decode_def split: if_splits sum.splits)
qed

text \<open>The recipient's probe of a stored text.\<close>

lemma stored_metadata:
  assumes "stored_text ag drawn opts st e s (w_db w1) i c req hash sec" "draw e ''secret id'' \<noteq> Some []"
    and "fails (su_env (x k) 0) = no_faults" "clock (su_env (x k) 0) 0 < ExpiresAt sec"
    and "kdf = (if hash = [] then zero_kdf else case cc_Access req of None \<Rightarrow> zero_kdf | Some a \<Rightarrow> fst a)"
  shows "ID sec \<noteq> [] \<and> PathEscape (ID sec) = ID sec \<and>
    SecretMetadata (deployed_client sv x base peer encsize) (ID sec) (w1, k) =
      (Inr \<lparr>sm_Kind = ''text'', sm_Access = (if Algorithm kdf \<noteq> [] then Some kdf else None), sm_SizeBytes = int (length c)\<rparr>, w1, Suc k)"
proof -
  have create: "Create st e (create_input_of req c hash) s = (Inr sec, w_db w1)" using assms(1) by (simp add: stored_text_def)
  have fault: "\<not> fails (su_env (x k) 0) ''load secret metadata''" using assms(3) by simp
  note ma = metadata_after_create [OF create assms(2) fault assms(4), unfolded stored_request [OF assms(1)]]
  obtain raw where raw: "raw \<noteq> []" "ID sec = rawurl_encode raw" using ma by blast
  then have esc: "PathEscape (ID sec) = ID sec" "ID sec \<noteq> []" using PathEscape_rawurl by simp_all
  show ?thesis
    using metadata_deployed [where x = x and k = k, OF conjunct1 [OF ma] esc(1)] esc by (simp add: assms(5) create_input_of_def)
qed

text \<open>
  C2: What is sent from one terminal arrives at the other. When \<open>flick send\<close> of a text succeeded against the
  API, with a passphrase or with the key in the link, \<open>flick open\<close> with the secret's identifier and that key or
  passphrase prints exactly the text, in whatever pieces the body is read, provided the API meets no fault,
  the open comes before the expiry and, with no other call to the API between them, right after the send, and
  the rate limiter lets it through; the recipient's disk is not touched.
\<close>

theorem cli_roundtrip:
  assumes "identity_text_ok ag" "age_opens ag" "age_unwraps ag" "age_sized ag"
    and "secrets_ok (w_db w)" "hasOutbox (sv_store sv)"
    and "0 < sv_advertisedInlineMaxBytes sv" "sv_advertisedInlineMaxBytes sv < 2 ^ 62" "0 < sv_maxFileBytes sv"
    and "sn_FileName sopts = []" "draw (su_env (x (Suc k)) 0) ''secret id'' \<noteq> Some []"
    and "cli_Send ag S mime drawn (deployed_client sv x base peer encsize) sopts (w, k) = (Inr result, w1, k1)"
    and "op_ID oopts = sr_ID result" "OutputPath oopts = []"
    and "if sn_Passphrase sopts = [] then op_Identity oopts = ag_Generate ag else op_Passphrase oopts = Some (Inr (sn_Passphrase sopts))"
    and "expiry = clock (su_env (x (Suc k)) 0) 0 + sn_TTL sopts div Second * Second"
    and "fails (su_env (x k1) 0) = no_faults" "clock (su_env (x k1) 0) 0 < expiry"
    and "fails (su_env (x (k1 + 2)) 0) = no_faults" "clock (su_env (x (k1 + 2)) 0) 0 < expiry" "clock (su_env (x (k1 + 2)) 0) 1 < expiry"
    and "clock (su_env (x (k1 + 2)) 0) 2 \<noteq> 0" "draw (su_env (x (k1 + 2)) 0) ''open job'' = Some (b # bs)"
    and "rawurl_encode (b # bs) \<notin> o_id ` set (outbox_events (w_db w))"
    and "\<And>key. fst (path_middleware (open_http base peer (sr_ID result) key) (su_now (x (k1 + 2))) (openLimiter (w_limiters w1)) ::
        api_json response option \<times> rate_limiter) = None"
    and "\<forall>p. encsize (OpenWire p) \<le> createBodyOverheadLimit"
  shows "\<exists>res st. cli_Open ag S' ch (deployed_client sv x base peer encsize) oopts d (w1, k1) = ((res, None), d, st) \<and>
    or_Plaintext res = sn_Text sopts"
proof -
  let ?c = "deployed_client sv x base peer encsize"
  from sent_text_stored [OF assms(12,10,7,9,4)] obtain i c req hash sec where
    k1: "k1 = Suc (Suc k)" and id: "sr_ID result = ID sec" and len: "int (length c) \<le> age_size (int (length (sn_Text sopts)))"
      "int (length (sn_Text sopts)) \<le> sv_advertisedInlineMaxBytes sv" and
    st: "stored_text ag drawn sopts (sv_store sv) (su_env (x (Suc k)) 0) (w_db w) (w_db w1) i c req hash sec" by blast
  note facts = st [unfolded stored_text_def]
  have exp: "ExpiresAt sec = expiry" using facts assms(16) by simp
  define kdf where "kdf = (if hash = [] then zero_kdf else case cc_Access req of None \<Rightarrow> zero_kdf | Some a \<Rightarrow> fst a)"
  define m where "m = \<lparr>sm_Kind = ''text'', sm_Access = (if Algorithm kdf \<noteq> [] then Some kdf else None), sm_SizeBytes = int (length c)\<rparr>"
  have early: "clock (su_env (x k1) 0) 0 < ExpiresAt sec" using assms(18) exp by simp
  note md = stored_metadata [where x = x and k = k1, OF st assms(11,17) early kdf_def, folded m_def]
  have m: "sm_Access m = (if Algorithm kdf \<noteq> [] then Some kdf else None)" "sm_Kind m = ''text''" "sm_SizeBytes m = int (length c)"
    by (simp_all add: m_def)
  have ident: "if sn_Passphrase sopts = [] then op_Identity oopts = Some i else op_Passphrase oopts = Some (Inr (sn_Passphrase sopts))"
    using assms(15) facts by simp
  from facts have req: "if sn_Passphrase sopts = [] then req = text_call c (sn_TTL sopts)
      else addPassphrase ag drawn i (sn_Passphrase sopts) (text_call c (sn_TTL sopts)) = Inr req"
    and hash: "accessHash (case cc_Access req of None \<Rightarrow> [] | Some a \<Rightarrow> snd a) = Some hash"
    and create: "Create (sv_store sv) (su_env (x (Suc k)) 0) (create_input_of req c hash) (w_db w) = (Inr sec, w_db w1)" by blast+
  from access_roundtrip [OF req hash assms(1,3) ident m(1) kdf_def] obtain pw' key where
    acc: "open_access oopts m = Inr (pw', key)" "accessHash key = Some hash" and
    idn: "\<And>ops. os_WrappedIdentity ops = (case some_text (cc_WrappedIdentity req) of None \<Rightarrow> None | Some v \<Rightarrow> std_decode v) \<Longrightarrow>
       (sn_Passphrase sopts \<noteq> [] \<longrightarrow> cc_WrappedIdentity req \<noteq> []) \<Longrightarrow> open_identity ag oopts m pw' ops = Inr i" by blast
  have x01: "clock (su_env (x (k1 + 2)) 0) 0 < ExpiresAt sec" "clock (su_env (x (k1 + 2)) 0) 1 < ExpiresAt sec"
    and hs: "ci_AccessProofHash (create_input_of req c hash) \<in> {[], hash}" using assms(20,21) exp by (auto simp: create_input_of_def)
  from create_then_open [OF assms(5) create assms(6,11,19,23,24) x01 assms(22) hs, of "su_s3 (x (k1 + 2))"] obtain sec2 s2 where
    opn: "openAndEnqueueCleanup (sv_store sv) (su_s3 (x (k1 + 2))) (su_env (x (k1 + 2)) 0) (ID sec) hash (w_db w1) = (Inr sec2, s2)" and
    sec2: "Ciphertext sec2 = c" "Body sec2 = None" "Kind sec2 = ''text''" "WrappedIdentity sec2 = some_text (cc_WrappedIdentity req)"
    using stored_request [OF st] by (auto simp: create_input_of_def)
  have lim: "fst (path_middleware (open_http base peer (ID sec) key) (su_now (x (k1 + 2))) (openLimiter (w_limiters w1)) ::
      api_json response option \<times> rate_limiter) = None" using assms(25) id by simp
  have pos: "0 < int (length c)" and wr: "\<And>v. WrappedIdentity sec2 = Some v \<Longrightarrow> v \<noteq> [] \<and> std_decode v \<noteq> None"
    using facts stored_wrapped(2) [OF st] sec2(4) by simp_all
  from open_deployed [where x = x and k = "k1 + 2" and w = w1, OF pos lim assms(26) conjunct1 [OF conjunct2 [OF md]] acc(2) opn sec2(2,3) wr]
  obtain ops fin where os: "OpenSecret ?c (ID sec) key (int (length c)) (w1, k1 + 2) = (Inr ops, fin)" "os_Kind ops = ''text''"
      "os_Body ops = ((c, True), length c)"
      "os_WrappedIdentity ops = (case some_text (cc_WrappedIdentity req) of None \<Rightarrow> None | Some v \<Rightarrow> std_decode v)"
    using sec2 by auto
  have "read_all ch 0 (os_Body ops) = (c, None)" using read_all_exact [of ch 0 c True "length c"] os(3) by simp
  then have uns: "unsealReader ag i (read_all ch 0 (os_Body ops)) = Inr (sn_Text sopts)"
    using assms(2) facts by (auto simp: unsealReader_def DecryptWith_def age_opens_def)
  have size: "sm_SizeBytes m \<le> ageFileBytes (sv_advertisedInlineMaxBytes sv)"
    using len age_size_mono [OF _ len(2)] assms(7,8) by (simp add: m(3) ageFileBytes_exact)
  have cfg: "cli_Config ?c (w1, Suc k1) = (\<lparr>lm_PayloadInlineMaxBytes = sv_advertisedInlineMaxBytes sv, lm_MaxFileBytes = sv_maxFileBytes sv\<rparr>, w1, k1 + 2)"
    using config_deployed [OF assms(7,9)] by simp
  have op: "op_ID oopts = ID sec" "op_ID oopts \<noteq> []" using assms(13) id md by auto
  have md': "SecretMetadata ?c (op_ID oopts) (w1, k1) = (Inr m, w1, Suc k1)" unfolding op(1) using md by blast
  from open_text_runs [OF op(2) assms(14) md' m(2) acc(1) cfg _ _ os(2) idn [OF os(4) stored_wrapped(1) [OF st]] uns, of fin S' d] show ?thesis
    using size os(1) op(1) m(3) by auto
qed

subsection \<open>An exchange through the API\<close>

lemma fresh_allowed:
  assumes "buckets rl key = None" "1 \<le> burst rl"
  shows "fst (allow key now rl)"
proof -
  have "f64 0 = 0" using f64_error [of 0] by simp
  then have "Seconds (time_Sub now now) = 0" by (simp add: Seconds_def time_Sub_def Let_def quot_def)
  then show ?thesis using assms by (simp add: allow_def refill_def Let_def)
qed

lemma create_forward:
  assumes "Create (sv_store sv) (su_env (x k) 0) (create_input_of req c hash) (w_db w) = (Inr sec, s1)"
    and "cc_Ciphertext req \<noteq> []" "std_decode (cc_Ciphertext req) = Some c"
    and "accessHash (case cc_Access req of None \<Rightarrow> [] | Some a \<Rightarrow> snd a) = Some hash"
    and "encsize (CreateWire req) \<le> max 0 (createSecretBodyLimit sv)"
    and "\<And>r. fst (path_middleware r (su_now (x k)) (createLimiter (w_limiters w)) :: api_json response option \<times> rate_limiter) = None"
  shows "\<exists>w1. CreateSecret (deployed_client sv x base peer encsize) req (w, k) =
      (Inr \<lparr>ca_ID = ID sec, ca_ExpiresAt = formatTime (ExpiresAt sec), ca_Upload = None\<rparr>, w1, Suc k) \<and>
    w_db w1 = s1 \<and> openLimiter (w_limiters w1) = openLimiter (w_limiters w)"
proof -
  let ?b = "trimRightSlashes base"
  define rq where "rq = \<lparr>wq_method = ''POST'', wq_url = ?b @ ''/api/secrets'', wq_body = CreateWire req\<rparr>"
  define body where "body = object_body_of (encsize (CreateWire req)) (create_keys req) (wire_create req)"
  define r0 where "r0 = after_headers no_store (writeJSON 201 (CreatedJson (ManagementToken sec) (formatTime (ExpiresAt sec)) (ID sec) (formatTime (ExpiresAt sec))))"
  have dec: "decode_body (createSecretBodyLimit sv) contract body = Inr (wire_create req)" for contract
    unfolding body_def by (rule decode_object [OF assms(5) create_keys_plain])
  have cs: "createSecret sv (su_s3 (x k)) (su_env (x k) 0) body (w_db w) = (r0, s1)"
    unfolding createSecret_def dec using assms(1-4) by (simp add: wire_create_def create_input_of_def r0_def)
  obtain rl where rl: "path_middleware (wire_http ?b peer rq) (su_now (x k)) (createLimiter (w_limiters w)) =
      (None :: api_json response option, rl)" using assms(6) by (metis prod.collapse)
  define w1 where "w1 = w\<lparr>w_limiters := createLimiter_update (\<lambda>_. rl) (w_limiters w), w_db := s1\<rparr>"
  have disp: "dispatch sv (x k) (wire_http ?b peer rq) (PostSecret body) w = (map_response SecretJson r0, w1)"
    by (simp add: limited_def rl on_db_def cs secret_json_of_def w1_def)
  have ep: "api_endpoint ?b encsize rq = Some (PostSecret body)" by (simp add: api_endpoint_def rq_def body_def Let_def)
  have "rq_method (wire_http ?b peer rq) \<noteq> ''OPTIONS''" by (simp add: wire_http_def rq_def)
  then have "cl_http (deployed_client sv x base peer encsize) rq (w, k) =
      (Inr (wire_answer (after_headers (cors_headers sv (wire_http ?b peer rq)) (map_response SecretJson r0))), w1, Suc k)"
    by (simp add: deployed_client_def NewClient_def deployed_def ep serve_method disp del: dispatch.simps)
  then have "CreateSecret (deployed_client sv x base peer encsize) req (w, k) =
      (Inr \<lparr>ca_ID = ID sec, ca_ExpiresAt = formatTime (ExpiresAt sec), ca_Upload = None\<rparr>, w1, Suc k)"
    unfolding CreateSecret_def cli_do_def cli_send_def base_deployed
    by (simp add: rq_def [symmetric, simplified] wire_answer_def map_response_def r0_def)
  then show ?thesis by (simp add: w1_def)
qed

definition trip_server :: server where
  "trip_server = \<lparr>sv_store = example_store, sv_requests = None, sv_payloadInlineMaxBytes = 65536,
     sv_advertisedInlineMaxBytes = 60000, sv_maxFileBytes = 60000, sv_allowedOrigin = [], sv_internalToken = [],
     sv_metricsToken = [], sv_pipeRelayEnabled = False\<rparr>"

definition trip_limiter :: rate_limiter where
  "trip_limiter = \<lparr>buckets = Map.empty, rl_rate = 1, burst = 10, trustedProxies = []\<rparr>"

definition trip_world :: world where
  "trip_world = \<lparr>w_db = MigrateAPI, w_limiters = \<lparr>openLimiter = trip_limiter, createLimiter = trip_limiter,
     managementLimiter = trip_limiter, requestLimiter = trip_limiter\<rparr>\<rparr>"

definition trip_around :: "nat \<Rightarrow> surroundings" where
  "trip_around k = \<lparr>su_s3 = example_s3, su_env = (\<lambda>_. example_env (if k < 2 then 1 else 2)), su_now = int k,
     su_finalizing = Map.empty, su_between = id, su_streaming = id\<rparr>"

definition trip_text :: send_options where
  "trip_text = \<lparr>sn_Text = ''hi'', sn_FileName = [], sn_File = None, sn_ContentType = [], sn_Passphrase = [],
     sn_TTL = 3600 * Second, sn_ShareOrigin = []\<rparr>"

lemma trip_limiter_passes:
  "fst (path_middleware r now trip_limiter :: api_json response option \<times> rate_limiter) = None"
  using fresh_allowed [of trip_limiter "clientIP (trustedProxies trip_limiter) r @ ''|'' @ rq_path r" now]
  by (auto simp: path_middleware_def middlewareByKey_def trip_limiter_def split: prod.splits)

lemma trip_Create:
  "\<exists>sec s1. Create example_store (example_env 1) (create_input_of (text_call (ageMagic @ ''hi'') (3600 * Second)) (ageMagic @ ''hi'') []) MigrateAPI =
     (Inr sec, s1) \<and> ID sec = example_id"
proof -
  let ?in = "create_input_of (text_call (ageMagic @ ''hi'') (3600 * Second)) (ageMagic @ ''hi'') []"
  have in_eq: "?in = \<lparr>ci_Kind = KindText, ci_Ciphertext = ageMagic @ ''hi'', ci_AccessKDF = zero_kdf, ci_AccessProofHash = [],
      ci_WrappedIdentity = None, ci_EncryptedFilename = None, ci_ContentType = None, ci_SizeBytes = 24, ci_TTLSeconds = 3600, ci_MaxViews = 1\<rparr>"
    by (simp add: create_input_of_def text_call_def some_text_def normalizeMaxViews_def Second_def KindText_def ageMagic_def)
  have "validateCreate example_store (one_view ?in) = None"
    unfolding in_eq
    by (simp add: validateCreate_def validateCommon_def example_store_def one_view_def zero_kdf_def) (simp add: ageMagic_def row_constants)
  then show ?thesis
    unfolding Create_def one_view_def [symmetric] in_eq
    by (simp add: generateID_def example_env_def exec_def insert_secret_def MigrateAPI_def
      insert_payload_def createManagementTx_def insert_management_def sql_insert_def mgmt_check_def Let_def
      sql_row_def inline_row_def modelAColumns_def secret_check_def one_view_def wrap64_def Second_def example_id_def row_constants)
qed

lemma trip_Send:
  "\<exists>result w1. cli_Send example_age example_os (\<lambda>_. []) None (deployed_client trip_server trip_around ''https://flick.example'' ''10.0.0.1:5'' (\<lambda>_. 100))
     trip_text (trip_world, 0) = (Inr result, w1, 2) \<and> sr_ID result = example_id \<and> openLimiter (w_limiters w1) = trip_limiter"
proof -
  let ?c = "deployed_client trip_server trip_around ''https://flick.example'' ''10.0.0.1:5'' (\<lambda>_. 100)"
  let ?req = "text_call (ageMagic @ ''hi'') (3600 * Second)"
  obtain sec s1 where cr: "Create (sv_store trip_server) (su_env (trip_around 1) 0) (create_input_of ?req (ageMagic @ ''hi'') []) (w_db trip_world) = (Inr sec, s1)"
    "ID sec = example_id"
    using trip_Create by (auto simp: trip_server_def trip_around_def trip_world_def)
  have dec: "std_decode (cc_Ciphertext ?req) = Some (ageMagic @ ''hi'')" by (simp add: text_call_def std_decode_def std_decode_encode)
  then have ne: "cc_Ciphertext ?req \<noteq> []" by (auto simp: std_decode_def std_decode_gen_def strip_newlines_def Let_def ageMagic_def)
  have ah: "accessHash (case cc_Access ?req of None \<Rightarrow> [] | Some a \<Rightarrow> snd a) = Some []" by (simp add: text_call_def accessHash_def)
  have lim: "(100 :: int) \<le> max 0 (createSecretBodyLimit trip_server)"
    by (simp add: createSecretBodyLimit_def trip_server_def wrap64_def quot_def createBodyOverheadLimit_def)
  have mid: "fst (path_middleware r (su_now (trip_around 1)) (createLimiter (w_limiters trip_world)) :: api_json response option \<times> rate_limiter) = None" for r
    using trip_limiter_passes by (simp add: trip_world_def)
  from create_forward [where x = trip_around and k = 1 and encsize = "\<lambda>_. 100" and sv = trip_server and base = "''https://flick.example''" and peer = "''10.0.0.1:5''",
      OF cr(1) ne dec ah lim mid]
  obtain w1 where w1: "CreateSecret ?c ?req (trip_world, 1) = (Inr \<lparr>ca_ID = ID sec, ca_ExpiresAt = formatTime (ExpiresAt sec), ca_Upload = None\<rparr>, w1, Suc 1)"
    "openLimiter (w_limiters w1) = openLimiter (w_limiters trip_world)" by blast
  have cfg: "cli_Config ?c (trip_world, 0) = (\<lparr>lm_PayloadInlineMaxBytes = 60000, lm_MaxFileBytes = 60000\<rparr>, trip_world, 1)"
    using config_deployed [of trip_server] by (simp add: trip_server_def)
  have v: "validateSendOptions trip_text = None"
    by (simp add: validateSendOptions_def trip_text_def MinTTL_def MaxTTL_def duration_units)
  have pr: "prepare example_age example_os (\<lambda>_. []) None () \<lparr>lm_PayloadInlineMaxBytes = 60000, lm_MaxFileBytes = 60000\<rparr> trip_text = Inr (?req, None)"
    by (simp add: prepare_def prepare_text_def seal_def trip_text_def example_age_def)
  have gen: "ag_Generate example_age = Some ()" by (simp add: example_age_def)
  show ?thesis
    unfolding cli_Send_def v cfg gen option.case prod.case pr sum.case w1(1) using cr(2) w1(2) by (simp add: Let_def trip_world_def)
qed

lemma example_age_laws: "identity_text_ok example_age" "age_opens example_age" "age_unwraps example_age" "age_sized example_age"
proof -
  show "identity_text_ok example_age"
    by (simp add: identity_text_ok_def example_age_def identityPattern_def IdentityPrefix_def hasPrefix_def bech32_char_def maxKeyFragmentChars_def)
  show "age_opens example_age" "age_unwraps example_age" by (simp_all add: age_opens_def age_unwraps_def example_age_def)
  show "age_sized example_age"
  proof -
    have "length ageMagic = 22" by (simp add: ageMagic_def)
    then show ?thesis by (simp add: age_sized_def example_age_def age_size_def)
  qed
qed

theorem cli_roundtrip_witness:
  "\<exists>result w1 res st. cli_Send example_age example_os (\<lambda>_. []) None
       (deployed_client trip_server trip_around ''https://flick.example'' ''10.0.0.1:5'' (\<lambda>_. 100)) trip_text (trip_world, 0) = (Inr result, w1, 2) \<and>
     cli_Open example_age example_os example_reads (deployed_client trip_server trip_around ''https://flick.example'' ''10.0.0.1:5'' (\<lambda>_. 100))
       \<lparr>OutputPath = [], OutputDir = [], op_ID = sr_ID result, op_Identity = Some (), op_Passphrase = None\<rparr> example_disk (w1, 2) =
       ((res, None), example_disk, st) \<and> or_Plaintext res = ''hi''"
proof -
  obtain result w1 where snd: "cli_Send example_age example_os (\<lambda>_. []) None
      (deployed_client trip_server trip_around ''https://flick.example'' ''10.0.0.1:5'' (\<lambda>_. 100)) trip_text (trip_world, 0) = (Inr result, w1, 2)"
    "sr_ID result = example_id" "openLimiter (w_limiters w1) = trip_limiter" using trip_Send by blast
  have "\<exists>b bs. draw (example_env 2) ''open job'' = Some (b # bs)" by (simp add: example_env_def)
  then obtain b bs where d: "draw (example_env 2) ''open job'' = Some (b # bs)" by blast
  let ?o = "\<lparr>OutputPath = [], OutputDir = [], op_ID = sr_ID result, op_Identity = Some (), op_Passphrase = None\<rparr>"
  have "\<exists>res st. cli_Open example_age example_os example_reads (deployed_client trip_server trip_around ''https://flick.example'' ''10.0.0.1:5'' (\<lambda>_. 100))
      ?o example_disk (w1, 2) = ((res, None), example_disk, st) \<and> or_Plaintext res = sn_Text trip_text"
  proof (rule cli_roundtrip [OF example_age_laws _ _ _ _ _ _ _ snd(1), where b = b and bs = bs and expiry = example_expiry])
    show "draw (su_env (trip_around (2 + 2)) 0) ''open job'' = Some (b # bs)" using d by (simp add: trip_around_def)
    show "secrets_ok (w_db trip_world)" by (simp add: trip_world_def secrets_ok_MigrateAPI)
  qed (simp_all add: trip_world_def trip_server_def trip_around_def trip_text_def example_age_def example_store_def example_env_def
      example_expiry_def snd(3) trip_limiter_passes MigrateAPI_def createBodyOverheadLimit_def Second_def Let_def)
  then show ?thesis using snd(1) by (auto simp: trip_text_def)
qed

end
