(* ===== verification/Spec2Isabelle.thy ===== *)
theory Spec2Isabelle
  imports Cleanup_Path Startup Pipe_Exchange Client_Roundtrip
begin

text \<open>
  A verification development of Flick, a service for one-time encrypted secrets (Go sources under src/).

  \<^bold>\<open>The program.\<close> A sender encrypts on its own side and posts the age file to the API (src/cmd/flick-api),
  which stores it in SQLite or, when it is large, has it uploaded to an S3 bucket through a presigned PUT.
  The recipient's open hands the ciphertext out once and, in the same transaction, queues a job in an outbox
  table; a publisher drains the outbox into NATS; the worker (src/cmd/flick-worker) receives the job, keeps a
  receipt per job in its own database and calls the API's internal endpoint, which erases the payload.
  A reaper in the API sweeps expired and abandoned secrets and scans the bucket for objects nobody owns. Request
  links go the other way: an owner creates a link, a submitter fills it once, the owner opens it once. The live
  relay hands a body from one connection to another without storing it. Senders hold a management capability
  with which they read the status of a delivery and cancel it.

  \<^bold>\<open>How it is modelled.\<close> Go functions are HOL functions of the same name, with suffixes or prefixes where two
  packages share a name; structs are records, Go strings and byte slices are lists of characters, instants and
  durations are integers in nanoseconds, machine integers carry \<open>wrap64\<close> where the code could overflow. An
  error is the left of a sum or the error component of the result, as in the code. State is passed explicitly:
  \<open>api\<close> is the API's database, \<open>worker_db\<close> the worker's, tables are lists of rows in rowid order and every
  statement checks its keys and CHECK clauses (Sql, Api_Db). What the code cannot control is an argument: an
  \<open>env\<close> holds the clock readings of a call, its random draws and which statements fail; an \<open>s3\<close> record
  answers for the bucket. A transaction is one function on the database; a handler with two transactions
  takes what others commit in between (\<open>mw\<close>, \<open>meanwhile\<close>) as an argument, so that statements about it hold for
  every interleaving. Third-party code is a parameter, never a definition.

  \<^bold>\<open>Theories and what they show.\<close>
  \<^item> Prelude, Sql, Go_Time, Base64, Sha256: Go's integers, strings and white space; tables and statements;
    RFC3339 texts and when their text order is the order of instants; base64 with its round trip; SHA-256 as a
    computable function. The locales of the library are declared here and interpreted by the components: machines
    with an invariant, one-shot and rationed successes, encoders, ordered columns.
  \<^item> Outbox (internal/events): job events, the outbox table, the publishing pass and the settlement of consumed
    messages. A pass loses no row and marks published only what the broker acknowledged; messages are settled
    once and in order.
  \<^item> Age_Format (internal/secrets/age.go): size arithmetic; \<open>MaxPlaintextBytes\<close>, a loop that may not return, is a
    \<open>partial_function\<close>, returns below \<open>2 ^ 62\<close> and inverts \<open>MaxCiphertextBytes\<close> exactly.
  \<^item> Api_Db, Storage (internal/db, internal/storage): the schema and the client of the bucket.
  \<^item> Secret_Input, Secret_Management, Secret_Store, Secret_Delivery, Secret_Reaper, Reconciliation
    (internal/secrets): creation, upload, finalize, open with its lockout after five wrong proofs, cancel, cleanup,
    reaper and scan. Round trips, the effect of every open and refusal, what is claimed and what is never touched.
  \<^item> Request_Input, Request_Store, Request_Cleanup, Request_Lifecycle, Request_Delivery, Request_Promises,
    Request_Sweep, Request_Examples (internal/requests): request links. The rows move along an inductive step
    relation that refines an abstract life cycle; one delivery per request, fenced generations, verified copies.
    \<open>begin\<close> retries after it ended an overdue reservation; \<open>begin_n\<close> has fuel 2, and \<open>begin_terminates\<close> shows
    that the second round never asks for a third when no other call acts between them. A finalize that finds
    another one in flight for the same id returns that call's result (\<open>await_call\<close>); the calls in flight are an
    argument of \<open>FinalizeRequest\<close>.
  \<^item> Worker_Store, Worker_Jobs, Worker_Promises, Worker_Process, Worker_Delivery (internal/worker): receipts,
    leases, budgets and dead letters, the processor and its handler. Leases are exclusive, failures are bounded,
    the settlement of a message tells the truth, healthy jobs succeed and poison jobs are buried.
  \<^item> Http, Http_Secrets, Http_Requests, Http_Router, Router_Guards, Client_Address, Go_Float, Rate_Limit
    (internal/httpapi): every handler, the middlewares in their order, the client address no header can forge,
    and the token bucket in \<open>float64\<close> arithmetic with a bound on the requests let through in any window.
  \<^item> Api_Frames, Api_System, Api_Promises: all endpoints and background passes as events on the one database.
    The invariant of the whole database, at most one delivery per secret over every sequence of events, and
    refusals that leave no trace.
  \<^item> Pipe_Relay, Pipe_Transfer, Pipe_Safety, Pipe_Exchange (internal/piperelay and its handlers): sessions as
    objects on a heap, HTTP requests as threads, each critical section, \<open>select\<close> alternative and pipe rendezvous one
    step in any interleaving. Exclusive ends, bounded sessions, delivery byte by byte in
    every interleaving, and the outcome of an undisturbed exchange.
  \<^item> Config, Startup (internal/config, cmd/flick-api): the configuration with all its checks and the server
    built from it; the limits it advertises are limits it keeps.
  \<^item> Cleanup_Path: the composition of both services; an opened inline payload is erased by the job its open
    queued.
  \<^item> Client_Paths, Client_Files, Client_Crypto, Client_Api, Client_Flow, Client_Safety, Client_Roundtrip
    (internal/flickcli, internal/clientcrypto): the command-line client. Paths and a disk, access proofs with
    PBKDF2, identities and fragments, the calls of the API, and the send and open flows. Opening loses no file,
    writes only where it was told to, consumes only after it checked, and hands over or rescues what it
    consumed; what one terminal sends through the API's model the other prints. The network, the operating
    system and the age library are parameters.

  \<^bold>\<open>Bounds and evaluation.\<close> Loops are structural recursion over the rows, keys or messages they range over.
  \<open>begin_n\<close> has its proved fuel; the IPv6 parser reads at most eight groups, the number its loop allows. Witnesses
  evaluate by \<open>simp\<close> and \<open>code_simp\<close>.

  \<^bold>\<open>What is taken as given.\<close> The JSON decoder: a body is its length, its keys and the value it decodes to, or that it
  does not. chi's matching of paths: a call names its endpoint. SQLite's \<open>julianday\<close> and \<open>datetime\<close>: functions of
  the engine, with the order of instants as a named hypothesis where a claim needs it. Rows that tie in a claim's
  order come in the order of their rowids. \<open>float64\<close> products and sums are rounded one by one, without fused
  multiply-add. A limiter's requests take its lock in the order of the instants they read just before it. No other
  call acts between the two rounds of \<open>begin\<close>; between the transactions of one call others act as an argument
  says. The age library, whose documented laws are named hypotheses (\<open>identity_text_ok\<close>, \<open>age_opens\<close>,
  \<open>age_unwraps\<close>, \<open>age_sized\<close>) of the claims about the client; the server never opens a file.

  \<^bold>\<open>Not modelled.\<close> The NATS client (connections, streams, fetching) and the SQLite driver with its pragmas are
  calls of libraries; tracing, metrics and logging record and do not decide, apart from the gauge of active
  uploads, which is part of the state; \<open>RunReaper\<close>, \<open>Run\<close> and the outbox runner are tickers around functions
  that are modelled; signals and shutdown of the services are process lifetime; the upgrades of older schemas are
  statements run once on databases of earlier versions; the S3 client's construction is configuration of its SDK.
  Of the client, the flags and prompts of cmd/flick and the reading of a share link, which is \<open>net/url\<close>'s parser.
\<close>

end
